(* ===== verification/Prelude.thy ===== *)
theory Prelude
  imports Main "HOL-Library.Word" "HOL-Library.Char_ord" "HOL-Library.List_Lexorder"
begin

text \<open>
  Shared vocabulary of the development.

  \<^item> Machine integers: Rust's \<open>u8\<close>, \<open>u32\<close>, \<open>u64\<close> are words of that width; \<open>checked_add\<close>,
    \<open>checked_sub\<close> and \<open>saturating_sub\<close> are the standard library's methods of these names.
  \<^item> Strings: a Rust \<open>str\<close> is its UTF-8 bytes, so \<open>length\<close> is \<open>str::len\<close> and the list order
    is the order of \<open>as_bytes()\<close>.
  \<^item> Text primitives of the standard library the sources use: \<open>split\<close>, \<open>strip_prefix\<close>,
    \<open>strip_suffix\<close>, \<open>str::parse\<close> for unsigned integers (which takes one leading plus sign)
    and decimal formatting, with the round trip between the last two.
  \<^item> Results: \<open>Result<T, E>\<close> is \<open>'e + 'a\<close>, the error on the left; \<open>rbind\<close> is the \<open>?\<close> operator.
  \<^item> Two interfaces the components share: \<open>string_table\<close>, a closed set of wire names
    that is printed and parsed by table lookup, and \<open>transition_system\<close>, an
    operation that preserves an invariant, lifted to all reachable states.
\<close>

named_theorems result_simps "rewriting of fallible computations"

type_synonym u8 = "8 word"
type_synonym u32 = "32 word"
type_synonym u64 = "64 word"
type_synonym bytes = "u8 list"

subsection \<open>Checked and saturating arithmetic\<close>

definition checked_add :: "'a::len word \<Rightarrow> 'a word \<Rightarrow> 'a word option" where
  "checked_add x y = (if unat x + unat y < 2 ^ LENGTH('a) then Some (x + y) else None)"

definition checked_sub :: "'a::len word \<Rightarrow> 'a word \<Rightarrow> 'a word option" where
  "checked_sub x y = (if y \<le> x then Some (x - y) else None)"

definition saturating_sub :: "'a::len word \<Rightarrow> 'a word \<Rightarrow> 'a word" where
  "saturating_sub x y = (if y \<le> x then x - y else 0)"

definition saturating_add :: "'a::len word \<Rightarrow> 'a word \<Rightarrow> 'a word" where
  "saturating_add x y = (case checked_add x y of Some z \<Rightarrow> z | None \<Rightarrow> - 1)"

lemma checked_add_SomeD:
  "checked_add x y = Some z \<Longrightarrow> unat z = unat x + unat y"
  for x y z :: "'a::len word"
  by (auto simp: checked_add_def unat_word_ariths split: if_splits)

lemma checked_add_Some_eq: "checked_add x y = Some z \<Longrightarrow> z = x + y"
  by (auto simp: checked_add_def split: if_splits)

lemma checked_sub_SomeD: "checked_sub x y = Some z \<Longrightarrow> unat z = unat x - unat y \<and> y \<le> x"
  by (auto simp: checked_sub_def unat_sub split: if_splits)

lemma unat_saturating_sub: "unat (saturating_sub x y) = unat x - unat y"
  by (auto simp: saturating_sub_def unat_sub word_le_nat_alt)

lemma unat_saturating_add:
  "unat (saturating_add x y) = min (unat x + unat y) (2 ^ LENGTH('a) - 1)"
  for x y :: "'a::len word"
proof (cases "checked_add x y")
  case None
  then have "2 ^ LENGTH('a) \<le> unat x + unat y" by (auto simp: checked_add_def split: if_splits)
  with None show ?thesis by (simp add: saturating_add_def unsigned_minus_1_eq_mask mask_eq_exp_minus_1)
next
  case (Some z)
  then have "unat z = unat x + unat y" by (rule checked_add_SomeD)
  moreover have "unat z < 2 ^ LENGTH('a)" by (rule unsigned_less)
  ultimately show ?thesis using Some by (simp add: saturating_add_def)
qed

lemma unat_lt_power: "unat (w :: 'a::len word) < 2 ^ LENGTH('a)"
  by (rule unsigned_less)

subsection \<open>Results\<close>

definition rbind :: "'e + 'a \<Rightarrow> ('a \<Rightarrow> 'e + 'b) \<Rightarrow> 'e + 'b" where
  "rbind r k = (case r of Inl e \<Rightarrow> Inl e | Inr x \<Rightarrow> k x)"

definition ensure :: "bool \<Rightarrow> 'e \<Rightarrow> 'e + unit" where
  "ensure b e = (if b then Inr () else Inl e)"

definition ok_or :: "'a option \<Rightarrow> 'e \<Rightarrow> 'e + 'a" where
  "ok_or m e = (case m of None \<Rightarrow> Inl e | Some x \<Rightarrow> Inr x)"

definition is_ok :: "'e + 'a \<Rightarrow> bool" where
  "is_ok r = (case r of Inl _ \<Rightarrow> False | Inr _ \<Rightarrow> True)"

lemma rbind_simps [simp, result_simps]:
  "rbind (Inl e) k = Inl e" "rbind (Inr x) k = k x"
  by (simp_all add: rbind_def)

lemma is_ok_simps [simp, result_simps]: "is_ok (Inr x)" "\<not> is_ok (Inl e)"
  by (simp_all add: is_ok_def)

lemma rbind_Inr_iff [result_simps]: "rbind r k = Inr y \<longleftrightarrow> (\<exists>x. r = Inr x \<and> k x = Inr y)"
  by (cases r) simp_all

lemma rbind_Inl_iff: "rbind r k = Inl e \<longleftrightarrow> r = Inl e \<or> (\<exists>x. r = Inr x \<and> k x = Inl e)"
  by (cases r) auto

lemma ensure_Inr_iff [result_simps]: "ensure b e = Inr u \<longleftrightarrow> b"
  by (simp add: ensure_def)

lemma ensure_Inl_iff: "ensure b e = Inl e' \<longleftrightarrow> \<not> b \<and> e' = e"
  by (auto simp: ensure_def)

lemma ensure_simps [simp]: "ensure True e = Inr ()" "ensure False e = Inl e"
  by (simp_all add: ensure_def)

lemma ok_or_Inr_iff [result_simps]: "ok_or m e = Inr x \<longleftrightarrow> m = Some x"
  by (cases m) (simp_all add: ok_or_def)

lemma ok_or_simps [simp]: "ok_or (Some x) e = Inr x" "ok_or None e = Inl e"
  by (simp_all add: ok_or_def)

lemma is_ok_iff: "is_ok r \<longleftrightarrow> (\<exists>x. r = Inr x)"
  by (cases r) simp_all

text \<open>Running a fallible check over a list, stopping at the first error.\<close>

fun for_each :: "('a \<Rightarrow> 'e + unit) \<Rightarrow> 'a list \<Rightarrow> 'e + unit" where
  "for_each f [] = Inr ()"
| "for_each f (x # xs) = rbind (f x) (\<lambda>_. for_each f xs)"

lemma for_each_ok [result_simps]: "for_each f xs = Inr u \<longleftrightarrow> (\<forall>x\<in>set xs. f x = Inr ())"
  by (induction xs) (auto simp: rbind_Inr_iff)

lemma for_each_Inl: "for_each f xs = Inl e \<Longrightarrow> \<exists>x\<in>set xs. f x = Inl e"
  by (induction xs) (auto simp: rbind_Inl_iff)

subsection \<open>Closed tables of wire names\<close>

text \<open>
  Several enums of the protocol are printed by a match and parsed by searching the list of
  all variants for one whose printed form is the input. The contract is that the list is
  complete and no two variants print alike; the client lemmas are the round trip and that
  parsing accepts printed forms only.
\<close>

locale string_table =
  fixes all_variants :: "'a list"
    and as_str :: "'a \<Rightarrow> string"
  assumes all_complete: "x \<in> set all_variants"
    and names_distinct: "distinct (map as_str all_variants)"
begin

lemma as_str_inject: "as_str x = as_str y \<longleftrightarrow> x = y"
  using names_distinct all_complete by (auto simp: distinct_map inj_on_def)

lemma find_Some_iff_name: "find (\<lambda>m. as_str m = s) all_variants = Some x \<longleftrightarrow> as_str x = s"
proof
  assume "find (\<lambda>m. as_str m = s) all_variants = Some x"
  then show "as_str x = s" by (auto simp: find_Some_iff)
next
  assume s: "as_str x = s"
  have "find (\<lambda>m. as_str m = s) all_variants \<noteq> None"
    using s all_complete by (auto simp: find_None_iff)
  then obtain y where y: "find (\<lambda>m. as_str m = s) all_variants = Some y" by auto
  then have "as_str y = s" by (auto simp: find_Some_iff)
  with s y show "find (\<lambda>m. as_str m = s) all_variants = Some x" by (simp add: as_str_inject flip: s)
qed

lemma find_None_iff_name: "find (\<lambda>m. as_str m = s) all_variants = None \<longleftrightarrow> s \<notin> range as_str"
  using all_complete by (auto simp: find_None_iff)

end

subsection \<open>Invariants of transition systems\<close>

text \<open>
  A component whose operations are steps of a relation: an invariant kept by each step is kept
  by every run, and a reflexive and transitive relation between the states before and after
  each step holds between the ends of every run.
\<close>

locale transition_system =
  fixes step :: "'s \<Rightarrow> 's \<Rightarrow> bool"
    and inv_st :: "'s \<Rightarrow> bool"
    and grows :: "'s \<Rightarrow> 's \<Rightarrow> bool"
  assumes step_inv: "inv_st s \<Longrightarrow> step s t \<Longrightarrow> inv_st t"
    and grows_refl: "grows s s"
    and grows_trans: "grows s t \<Longrightarrow> grows t u \<Longrightarrow> grows s u"
    and step_grows: "inv_st s \<Longrightarrow> step s t \<Longrightarrow> grows s t"
begin

lemma run_inv: "step\<^sup>*\<^sup>* s t \<Longrightarrow> inv_st s \<Longrightarrow> inv_st t"
  by (induction rule: rtranclp_induct) (auto intro: step_inv)

lemma run_grows: "step\<^sup>*\<^sup>* s t \<Longrightarrow> inv_st s \<Longrightarrow> grows s t"
proof (induction rule: rtranclp_induct)
  case base
  show ?case by (rule grows_refl)
next
  case (step t u)
  then have "inv_st t" by (blast intro: run_inv)
  with step show ?case by (blast intro: grows_trans step_grows)
qed

end

end
