(* ===== verification/Protocol_Error.thy ===== *)
theory Protocol_Error
  imports Prelude
begin

text \<open>
  The closed error registry of the protocol: \<open>crates/bloom-signer-api/src/error.rs\<close>. Every
  error carries a retry class and a durable-effect class fixed by its code
  (\<open>contract\<close>); deserialisation refuses an error whose two classes differ from the
  contract of its code. The code names form a \<open>string_table\<close>.
\<close>

datatype retry_class =
    Never | SameOperation | AfterReconciliation | AfterBackoff | AfterReread
  | AfterRepair | UserAction

datatype durable_effect =
    NoEffect | PriorOperationStands | ReservationReleased | PossibleProviderEffect
  | UnknownResolveByStatus

datatype protocol_error_code =
    UnauthenticatedPeer | UnsupportedVersion | MalformedFrame | LimitExceededFrame |
    UnknownField | UnknownMethod | OperationIdConflict | ApprovalNotFound |
    ApprovalExpired | ApprovalRevoked | ApprovalRearmRequired |
    RevocationEpochUnreconciled | SelectorMismatch | SuiteNotAllowed | KeyrefMismatch |
    LimitExceededOperations | LimitExceededSignatures | LimitExceededValue |
    LimitExceededRate | SignerRateBackstopDenied | ClaimInvalid | AssuranceUnavailable |
    ProvenanceMismatch | PolicyBaselineStale | CeremonyRateLimited | CeremonyReplay |
    CeremonyKindMismatch | QuotaExceeded | ClockUntrusted | ClockRollback |
    BackendUnsupported | BackendInvalidRequest | AmbiguousProviderEffect |
    ServiceUnavailable

definition all_codes :: "protocol_error_code list" where
  "all_codes = [
     UnauthenticatedPeer, UnsupportedVersion, MalformedFrame, LimitExceededFrame,
     UnknownField, UnknownMethod, OperationIdConflict, ApprovalNotFound, ApprovalExpired,
     ApprovalRevoked, ApprovalRearmRequired, RevocationEpochUnreconciled, SelectorMismatch,
     SuiteNotAllowed, KeyrefMismatch, LimitExceededOperations, LimitExceededSignatures,
     LimitExceededValue, LimitExceededRate, SignerRateBackstopDenied, ClaimInvalid,
     AssuranceUnavailable, ProvenanceMismatch, PolicyBaselineStale, CeremonyRateLimited,
     CeremonyReplay, CeremonyKindMismatch, QuotaExceeded, ClockUntrusted, ClockRollback,
     BackendUnsupported, BackendInvalidRequest, AmbiguousProviderEffect, ServiceUnavailable]"

record error_contract =
  ec_retry :: retry_class
  ec_durable_effect :: durable_effect

fun contract :: "protocol_error_code \<Rightarrow> error_contract" where
  "contract OperationIdConflict = \<lparr>ec_retry = Never, ec_durable_effect = PriorOperationStands\<rparr>"
| "contract RevocationEpochUnreconciled =
     \<lparr>ec_retry = AfterReconciliation, ec_durable_effect = NoEffect\<rparr>"
| "contract ApprovalRearmRequired = \<lparr>ec_retry = UserAction, ec_durable_effect = NoEffect\<rparr>"
| "contract PolicyBaselineStale = \<lparr>ec_retry = AfterReread, ec_durable_effect = NoEffect\<rparr>"
| "contract CeremonyRateLimited = \<lparr>ec_retry = AfterBackoff, ec_durable_effect = NoEffect\<rparr>"
| "contract QuotaExceeded = \<lparr>ec_retry = AfterBackoff, ec_durable_effect = NoEffect\<rparr>"
| "contract ClockUntrusted = \<lparr>ec_retry = AfterRepair, ec_durable_effect = NoEffect\<rparr>"
| "contract ClockRollback = \<lparr>ec_retry = AfterRepair, ec_durable_effect = NoEffect\<rparr>"
| "contract LimitExceededOperations = \<lparr>ec_retry = Never, ec_durable_effect = ReservationReleased\<rparr>"
| "contract LimitExceededSignatures = \<lparr>ec_retry = Never, ec_durable_effect = ReservationReleased\<rparr>"
| "contract LimitExceededValue = \<lparr>ec_retry = Never, ec_durable_effect = ReservationReleased\<rparr>"
| "contract LimitExceededRate = \<lparr>ec_retry = Never, ec_durable_effect = ReservationReleased\<rparr>"
| "contract SignerRateBackstopDenied = \<lparr>ec_retry = Never, ec_durable_effect = ReservationReleased\<rparr>"
| "contract AmbiguousProviderEffect =
     \<lparr>ec_retry = Never, ec_durable_effect = PossibleProviderEffect\<rparr>"
| "contract ServiceUnavailable =
     \<lparr>ec_retry = SameOperation, ec_durable_effect = UnknownResolveByStatus\<rparr>"
| "contract _ = \<lparr>ec_retry = Never, ec_durable_effect = NoEffect\<rparr>"

fun code_as_str :: "protocol_error_code \<Rightarrow> string" where
  "code_as_str UnauthenticatedPeer = ''UNAUTHENTICATED_PEER''"
| "code_as_str UnsupportedVersion = ''UNSUPPORTED_VERSION''"
| "code_as_str MalformedFrame = ''MALFORMED_FRAME''"
| "code_as_str LimitExceededFrame = ''LIMIT_EXCEEDED_FRAME''"
| "code_as_str UnknownField = ''UNKNOWN_FIELD''"
| "code_as_str UnknownMethod = ''UNKNOWN_METHOD''"
| "code_as_str OperationIdConflict = ''OPERATION_ID_CONFLICT''"
| "code_as_str ApprovalNotFound = ''APPROVAL_NOT_FOUND''"
| "code_as_str ApprovalExpired = ''APPROVAL_EXPIRED''"
| "code_as_str ApprovalRevoked = ''APPROVAL_REVOKED''"
| "code_as_str ApprovalRearmRequired = ''APPROVAL_REARM_REQUIRED''"
| "code_as_str RevocationEpochUnreconciled = ''REVOCATION_EPOCH_UNRECONCILED''"
| "code_as_str SelectorMismatch = ''SELECTOR_MISMATCH''"
| "code_as_str SuiteNotAllowed = ''SUITE_NOT_ALLOWED''"
| "code_as_str KeyrefMismatch = ''KEYREF_MISMATCH''"
| "code_as_str LimitExceededOperations = ''LIMIT_EXCEEDED_OPERATIONS''"
| "code_as_str LimitExceededSignatures = ''LIMIT_EXCEEDED_SIGNATURES''"
| "code_as_str LimitExceededValue = ''LIMIT_EXCEEDED_VALUE''"
| "code_as_str LimitExceededRate = ''LIMIT_EXCEEDED_RATE''"
| "code_as_str SignerRateBackstopDenied = ''SIGNER_RATE_BACKSTOP_DENIED''"
| "code_as_str ClaimInvalid = ''CLAIM_INVALID''"
| "code_as_str AssuranceUnavailable = ''ASSURANCE_UNAVAILABLE''"
| "code_as_str ProvenanceMismatch = ''PROVENANCE_MISMATCH''"
| "code_as_str PolicyBaselineStale = ''POLICY_BASELINE_STALE''"
| "code_as_str CeremonyRateLimited = ''CEREMONY_RATE_LIMITED''"
| "code_as_str CeremonyReplay = ''CEREMONY_REPLAY''"
| "code_as_str CeremonyKindMismatch = ''CEREMONY_KIND_MISMATCH''"
| "code_as_str QuotaExceeded = ''QUOTA_EXCEEDED''"
| "code_as_str ClockUntrusted = ''CLOCK_UNTRUSTED''"
| "code_as_str ClockRollback = ''CLOCK_ROLLBACK''"
| "code_as_str BackendUnsupported = ''BACKEND_UNSUPPORTED''"
| "code_as_str BackendInvalidRequest = ''BACKEND_INVALID_REQUEST''"
| "code_as_str AmbiguousProviderEffect = ''AMBIGUOUS_PROVIDER_EFFECT''"
| "code_as_str ServiceUnavailable = ''SERVICE_UNAVAILABLE''"

text \<open>\<open>FromStr\<close>: the first code of the list whose name is the input; an unknown name is an
  error carrying the name.\<close>

definition code_from_str :: "string \<Rightarrow> string + protocol_error_code" where
  "code_from_str value =
     (case find (\<lambda>code. code_as_str code = value) all_codes of
        Some code \<Rightarrow> Inr code | None \<Rightarrow> Inl value)"

record protocol_error =
  pe_code :: protocol_error_code
  pe_retry :: retry_class
  pe_durable_effect :: durable_effect
  pe_message :: string

type_synonym 'a result = "protocol_error + 'a"

definition new_error :: "protocol_error_code \<Rightarrow> string \<Rightarrow> protocol_error" where
  "new_error code message =
     (let c = contract code in
      \<lparr>pe_code = code, pe_retry = ec_retry c, pe_durable_effect = ec_durable_effect c,
       pe_message = message\<rparr>)"

definition has_valid_contract :: "protocol_error \<Rightarrow> bool" where
  "has_valid_contract e =
     (contract (pe_code e) = \<lparr>ec_retry = pe_retry e, ec_durable_effect = pe_durable_effect e\<rparr>)"

text \<open>\<open>Deserialize\<close>: the wire form has the same four fields; it is refused when its classes are not
  the contract of its code. The refusal message of the source is kept.\<close>

definition deserialize_error :: "protocol_error \<Rightarrow> string + protocol_error" where
  "deserialize_error wire =
     (let c = contract (pe_code wire) in
      if pe_retry wire \<noteq> ec_retry c \<or> pe_durable_effect wire \<noteq> ec_durable_effect c
      then Inl (code_as_str (pe_code wire) @ '' carries a forged retry or durable-effect contract'')
      else Inr \<lparr>pe_code = pe_code wire, pe_retry = pe_retry wire,
                pe_durable_effect = pe_durable_effect wire, pe_message = pe_message wire\<rparr>)"

text \<open>Error codes of the wire crate, as the sources match on them.\<close>

datatype wire_error_code =
    WMalformedFrame | WUnknownField | WLimitExceededFrame | WUnauthenticatedPeer
  | WUnsupportedVersion | WOperationIdConflict | WQuotaExceeded | WServiceUnavailable
  | WClockRollback | WClockUntrusted

fun from_wire_code :: "wire_error_code \<Rightarrow> protocol_error_code" where
  "from_wire_code WMalformedFrame = MalformedFrame"
| "from_wire_code WUnknownField = UnknownField"
| "from_wire_code WLimitExceededFrame = LimitExceededFrame"
| "from_wire_code WUnauthenticatedPeer = UnauthenticatedPeer"
| "from_wire_code WUnsupportedVersion = UnsupportedVersion"
| "from_wire_code WOperationIdConflict = OperationIdConflict"
| "from_wire_code WQuotaExceeded = QuotaExceeded"
| "from_wire_code WServiceUnavailable = ServiceUnavailable"
| "from_wire_code WClockRollback = ClockRollback"
| "from_wire_code WClockUntrusted = ClockUntrusted"

definition from_wire_error :: "wire_error_code \<Rightarrow> string \<Rightarrow> protocol_error" where
  "from_wire_error code message = new_error (from_wire_code code) message"

text \<open>
  The errors the other theories raise: the code fixes the retry and durable-effect classes. The
  diagnostic text, which nothing in the program reads back, is left empty there.
\<close>

abbreviation err :: "protocol_error_code \<Rightarrow> protocol_error" where
  "err code \<equiv> new_error code []"

text \<open>The outcome of a checked computation, up to the message: \<open>fails_with\<close> names the code.\<close>

definition fails_with :: "'a result \<Rightarrow> protocol_error_code \<Rightarrow> bool" where
  "fails_with r code = (case r of Inl e \<Rightarrow> pe_code e = code | Inr _ \<Rightarrow> False)"

lemma fails_with_simps [simp, result_simps]:
  "fails_with (Inl e) code \<longleftrightarrow> pe_code e = code" "\<not> fails_with (Inr x) code"
  by (simp_all add: fails_with_def)

lemma new_error_code [simp]: "pe_code (new_error code m) = code"
  by (simp add: new_error_def Let_def)

lemma new_error_contract [simp]: "has_valid_contract (new_error code m)"
  by (simp add: new_error_def has_valid_contract_def Let_def)

lemma all_codes_complete: "c \<in> set all_codes"
  by (cases c) (simp_all add: all_codes_def)

lemma all_codes_distinct: "distinct (map code_as_str all_codes)"
  by code_simp

interpretation codes: string_table all_codes code_as_str
  by unfold_locales (rule all_codes_complete, rule all_codes_distinct)

end
