(* ===== verification/Rust_Text.thy ===== *)
theory Rust_Text
  imports Prelude
begin

text \<open>
  The text operations of Rust's standard library the sources rely on, over UTF-8 byte
  strings: splitting at a separator, stripping a prefix or suffix, ASCII classes,
  Unicode whitespace and control characters, \<open>str::parse\<close> for unsigned integers and
  decimal formatting. The main facts are that decimal formatting parses back
  (\<open>parse_unsigned_show\<close>), that it is injective, and that joining parts that do not
  contain the separator and splitting again is the identity.
\<close>

subsection \<open>ASCII classes\<close>

definition is_ascii_digit :: "char \<Rightarrow> bool" where
  "is_ascii_digit c = (48 \<le> (of_char c :: nat) \<and> (of_char c :: nat) \<le> 57)"

definition is_ascii_lowercase :: "char \<Rightarrow> bool" where
  "is_ascii_lowercase c = (97 \<le> (of_char c :: nat) \<and> (of_char c :: nat) \<le> 122)"

definition is_ascii_uppercase :: "char \<Rightarrow> bool" where
  "is_ascii_uppercase c = (65 \<le> (of_char c :: nat) \<and> (of_char c :: nat) \<le> 90)"

definition is_ascii_alphanumeric :: "char \<Rightarrow> bool" where
  "is_ascii_alphanumeric c = (is_ascii_digit c \<or> is_ascii_lowercase c \<or> is_ascii_uppercase c)"

definition is_ascii_hexdigit :: "char \<Rightarrow> bool" where
  "is_ascii_hexdigit c =
     (is_ascii_digit c
      \<or> (97 \<le> (of_char c :: nat) \<and> (of_char c :: nat) \<le> 102)
      \<or> (65 \<le> (of_char c :: nat) \<and> (of_char c :: nat) \<le> 70))"

definition to_ascii_lowercase :: "char \<Rightarrow> char" where
  "to_ascii_lowercase c = (if is_ascii_uppercase c then char_of ((of_char c :: nat) + 32) else c)"

text \<open>\<open>char::is_control\<close> on UTF-8: the C0 range and DEL are single bytes, the C1 range
  U+0080 to U+009F is the byte 0xC2 followed by 0x80 to 0x9F.\<close>

fun has_control :: "string \<Rightarrow> bool" where
  "has_control [] = False"
| "has_control (c # cs) =
     ((of_char c :: nat) < 32 \<or> (of_char c :: nat) = 127
      \<or> ((of_char c :: nat) = 194
          \<and> (case cs of [] \<Rightarrow> False
               | d # _ \<Rightarrow> 128 \<le> (of_char d :: nat) \<and> (of_char d :: nat) \<le> 159))
      \<or> has_control cs)"

subsection \<open>Prefixes, suffixes and splitting\<close>

fun strip_prefix :: "string \<Rightarrow> string \<Rightarrow> string option" where
  "strip_prefix [] s = Some s"
| "strip_prefix (p # ps) [] = None"
| "strip_prefix (p # ps) (c # cs) = (if p = c then strip_prefix ps cs else None)"

definition strip_suffix :: "string \<Rightarrow> string \<Rightarrow> string option" where
  "strip_suffix suf s = map_option rev (strip_prefix (rev suf) (rev s))"

text \<open>\<open>str::split_once\<close>: the text before and after the first occurrence of the pattern.\<close>

fun split_once :: "string \<Rightarrow> string \<Rightarrow> (string \<times> string) option" where
  "split_once pat [] = (if pat = [] then Some ([], []) else None)"
| "split_once pat (c # cs) =
     (case strip_prefix pat (c # cs) of
        Some r \<Rightarrow> Some ([], r)
      | None \<Rightarrow> map_option (\<lambda>(a, b). (c # a, b)) (split_once pat cs))"

fun split_on :: "char \<Rightarrow> string \<Rightarrow> string list" where
  "split_on sep [] = [[]]"
| "split_on sep (c # cs) =
     (if c = sep then [] # split_on sep cs
      else (case split_on sep cs of [] \<Rightarrow> [[c]] | p # ps \<Rightarrow> (c # p) # ps))"

fun join_with :: "char \<Rightarrow> string list \<Rightarrow> string" where
  "join_with sep [] = []"
| "join_with sep [p] = p"
| "join_with sep (p # q # ps) = p @ sep # join_with sep (q # ps)"

lemma strip_prefix_Some_iff: "strip_prefix p s = Some r \<longleftrightarrow> s = p @ r"
  by (induction p s rule: strip_prefix.induct) auto

lemma strip_suffix_Some_iff: "strip_suffix q s = Some r \<longleftrightarrow> s = r @ q"
  by (auto simp: strip_suffix_def strip_prefix_Some_iff)
    (metis rev_append rev_rev_ident)+

lemma strip_suffix_None_iff: "strip_suffix q s = None \<longleftrightarrow> (\<forall>r. s \<noteq> r @ q)"
  by (metis not_None_eq option.distinct(1) strip_suffix_Some_iff)

lemma split_once_SomeD: "split_once pat s = Some (a, b) \<Longrightarrow> s = a @ pat @ b"
proof (induction s arbitrary: a)
  case Nil
  then show ?case by (simp split: if_splits)
next
  case (Cons c cs)
  then show ?case
    by (cases "strip_prefix pat (c # cs)") (auto simp: strip_prefix_Some_iff)
qed

lemma strip_prefix_None_hd: "s \<noteq> [] \<Longrightarrow> hd s \<noteq> p \<Longrightarrow> strip_prefix (p # ps) s = None"
  by (cases s) auto

text \<open>Splitting once at a pattern whose first character does not occur before it.\<close>

lemma split_once_first:
  "p \<notin> set a \<Longrightarrow> split_once (p # ps) (a @ (p # ps) @ b) = Some (a, b)"
proof (induction a)
  case Nil
  have "strip_prefix (p # ps) ((p # ps) @ b) = Some b" by (simp only: strip_prefix_Some_iff)
  then show ?case by simp
next
  case (Cons c cs)
  then show ?case by auto
qed

text \<open>\<open>Path::file_name\<close> on a Unix path: the last component that is not empty or a dot, unless it
  is the parent directory.\<close>

definition file_name :: "string \<Rightarrow> string option" where
  "file_name path =
     (let parts = filter (\<lambda>c. c \<noteq> [] \<and> c \<noteq> ''.'') (split_on CHR ''/'' path) in
      if parts = [] \<or> last parts = ''..'' then None else Some (last parts))"

lemma split_on_not_Nil [simp]: "split_on sep s \<noteq> []"
  by (cases s) (auto split: list.splits)

lemma split_on_no_sep: "sep \<notin> set p \<Longrightarrow> split_on sep p = [p]"
  by (induction p) auto

lemma split_on_append: "sep \<notin> set p \<Longrightarrow> split_on sep (p @ sep # s) = p # split_on sep s"
  by (induction p) auto

lemma split_on_join:
  assumes "ps \<noteq> []" and "\<forall>p\<in>set ps. sep \<notin> set p"
  shows "split_on sep (join_with sep ps) = ps"
  using assms by (induction sep ps rule: join_with.induct)
    (auto simp: split_on_no_sep split_on_append)

lemma join_split: "join_with sep (split_on sep s) = s"
proof (induction s)
  case (Cons c cs)
  show ?case
  proof (cases "c = sep")
    case True
    obtain q qs where "split_on sep cs = q # qs" by (cases "split_on sep cs") auto
    with True Cons show ?thesis by simp
  next
    case False
    obtain q qs where sp: "split_on sep cs = q # qs" by (cases "split_on sep cs") auto
    with False Cons show ?thesis by (cases qs) auto
  qed
qed simp

lemma split_on_parts: "p \<in> set (split_on sep s) \<Longrightarrow> sep \<notin> set p"
  by (induction s arbitrary: p) (auto split: if_splits list.splits)

subsection \<open>Decimal numbers\<close>

definition digit_val :: "char \<Rightarrow> nat" where
  "digit_val c = of_char c - 48"

definition digit_char :: "nat \<Rightarrow> char" where
  "digit_char d = char_of (48 + d)"

fun parse_digits :: "nat \<Rightarrow> nat \<Rightarrow> string \<Rightarrow> nat option" where
  "parse_digits bound acc [] = Some acc"
| "parse_digits bound acc (c # cs) =
     (if is_ascii_digit c \<and> 10 * acc + digit_val c < bound
      then parse_digits bound (10 * acc + digit_val c) cs else None)"

text \<open>\<open>str::parse\<close> for an unsigned type whose values are below \<open>bound\<close>: one optional
  leading plus sign, at least one digit, digits only, no overflow.\<close>

definition parse_unsigned :: "nat \<Rightarrow> string \<Rightarrow> nat option" where
  "parse_unsigned bound s =
     (case s of [] \<Rightarrow> None
      | c # cs \<Rightarrow> (if c = CHR ''+'' then (if cs = [] then None else parse_digits bound 0 cs)
                  else parse_digits bound 0 (c # cs)))"

fun show_nat :: "nat \<Rightarrow> string" where
  "show_nat n = (if n < 10 then [digit_char n] else show_nat (n div 10) @ [digit_char (n mod 10)])"

declare show_nat.simps [simp del]

lemma of_char_digit_char: "d < 10 \<Longrightarrow> (of_char (digit_char d) :: nat) = 48 + d"
  by (simp add: digit_char_def)

lemma digit_char_props [simp]:
  assumes "d < 10"
  shows "is_ascii_digit (digit_char d)" "digit_val (digit_char d) = d"
  using assms by (simp_all add: is_ascii_digit_def digit_val_def of_char_digit_char)

lemma parse_digits_append:
  "parse_digits b acc (s @ [c]) =
     (case parse_digits b acc s of None \<Rightarrow> None | Some v \<Rightarrow> parse_digits b v [c])"
  by (induction b acc s rule: parse_digits.induct) auto

lemma parse_digits_show: "n < b \<Longrightarrow> parse_digits b 0 (show_nat n) = Some n"
proof (induction n rule: show_nat.induct)
  case (1 n)
  show ?case
  proof (cases "n < 10")
    case True
    with "1.prems" show ?thesis by (simp add: show_nat.simps [of n])
  next
    case False
    then have "parse_digits b 0 (show_nat (n div 10)) = Some (n div 10)"
      using "1.IH" "1.prems" by simp
    with False "1.prems" show ?thesis
      by (simp add: show_nat.simps [of n] parse_digits_append)
  qed
qed

lemma show_nat_not_Nil [simp]: "show_nat n \<noteq> []"
  by (subst show_nat.simps) simp

lemma show_nat_digits: "c \<in> set (show_nat n) \<Longrightarrow> is_ascii_digit c"
proof (induction n rule: show_nat.induct)
  case (1 n)
  show ?case
  proof (cases "n < 10")
    case True
    with "1.prems" show ?thesis by (simp add: show_nat.simps [of n])
  next
    case False
    with "1.prems" "1.IH" show ?thesis by (auto simp: show_nat.simps [of n])
  qed
qed

lemma plus_not_digit [simp]: "\<not> is_ascii_digit CHR ''+''"
  by (simp add: is_ascii_digit_def)

lemma parse_unsigned_show: "n < b \<Longrightarrow> parse_unsigned b (show_nat n) = Some n"
proof -
  assume n: "n < b"
  obtain c cs where s: "show_nat n = c # cs" by (cases "show_nat n") auto
  then have "is_ascii_digit c" using show_nat_digits [of c n] by simp
  then have "c \<noteq> CHR ''+''" by auto
  then show ?thesis
    using parse_digits_show [OF n] by (simp add: parse_unsigned_def s del: parse_digits.simps)
qed

lemma show_nat_inject [simp]: "show_nat m = show_nat n \<longleftrightarrow> m = n"
proof
  assume "show_nat m = show_nat n"
  then have "parse_unsigned (Suc (m + n)) (show_nat m) = parse_unsigned (Suc (m + n)) (show_nat n)"
    by simp
  then show "m = n" by (simp add: parse_unsigned_show)
qed simp

lemma parse_digits_bound: "parse_digits b acc s = Some v \<Longrightarrow> acc < b \<Longrightarrow> v < b"
  by (induction b acc s rule: parse_digits.induct) (auto split: if_splits)

lemma parse_unsigned_bound: "parse_unsigned b s = Some v \<Longrightarrow> v < b"
proof (cases s)
  case (Cons c cs)
  assume p: "parse_unsigned b s = Some v"
  have aux: "parse_digits b 0 t = Some v \<Longrightarrow> t \<noteq> [] \<Longrightarrow> v < b" for t
    by (cases t) (auto split: if_splits dest: parse_digits_bound)
  from p Cons show ?thesis
    by (auto simp: parse_unsigned_def simp del: parse_digits.simps split: if_splits intro: aux)
qed (simp add: parse_unsigned_def)

lemma show_nat_no_leading_zero:
  "length (show_nat n) > 1 \<Longrightarrow> hd (show_nat n) \<noteq> CHR ''0''"
proof (induction n rule: show_nat.induct)
  case (1 n)
  show ?case
  proof (cases "n < 10")
    case True
    with "1.prems" show ?thesis by (simp add: show_nat.simps [of n])
  next
    case False
    show ?thesis
    proof (cases "n div 10 < 10")
      case True
      with False have "show_nat (n div 10) = [digit_char (n div 10)]" "n div 10 \<noteq> 0"
        by (simp_all add: show_nat.simps [of "n div 10"])
      moreover from this True have "digit_char (n div 10) \<noteq> CHR ''0''"
        using of_char_digit_char [of "n div 10"] by auto
      ultimately show ?thesis using False by (simp add: show_nat.simps [of n])
    next
      case big: False
      then have "length (show_nat (n div 10)) > 1"
        by (simp add: show_nat.simps [of "n div 10"])
      with "1.IH" False show ?thesis
        by (simp add: show_nat.simps [of n] hd_append)
    qed
  qed
qed

definition show_u32 :: "u32 \<Rightarrow> string" where
  "show_u32 w = show_nat (unat w)"

definition show_u64 :: "u64 \<Rightarrow> string" where
  "show_u64 w = show_nat (unat w)"

definition parse_u32 :: "string \<Rightarrow> u32 option" where
  "parse_u32 s = map_option of_nat (parse_unsigned (2 ^ 32) s)"

lemma parse_u32_show: "parse_u32 (show_u32 w) = Some w"
proof -
  have "unat w < 2 ^ 32" using unat_lt_power [of w] by simp
  then show ?thesis by (simp add: parse_u32_def show_u32_def parse_unsigned_show)
qed

lemma show_u32_inject [simp]: "show_u32 v = show_u32 w \<longleftrightarrow> v = w"
  by (simp add: show_u32_def word_unat_eq_iff)

lemma show_u64_inject [simp]: "show_u64 v = show_u64 w \<longleftrightarrow> v = w"
  by (simp add: show_u64_def word_unat_eq_iff)

subsection \<open>Whitespace\<close>

definition utf8 :: "nat list \<Rightarrow> string" where
  "utf8 ns = map char_of ns"

definition whitespace_codes :: "string list" where
  "whitespace_codes =
     map utf8 [[9], [10], [11], [12], [13], [32], [194, 133], [194, 160], [225, 154, 128],
       [226, 128, 128], [226, 128, 129], [226, 128, 130], [226, 128, 131], [226, 128, 132],
       [226, 128, 133], [226, 128, 134], [226, 128, 135], [226, 128, 136], [226, 128, 137],
       [226, 128, 138], [226, 128, 168], [226, 128, 169], [226, 128, 175], [226, 129, 159],
       [227, 128, 128]]"

fun first_strip :: "string list \<Rightarrow> string \<Rightarrow> string option" where
  "first_strip [] s = None"
| "first_strip (w # ws) s =
     (case strip_prefix w s of Some r \<Rightarrow> (if length r < length s then Some r else first_strip ws s)
      | None \<Rightarrow> first_strip ws s)"

lemma first_strip_shorter [termination_simp]: "first_strip ws s = Some r \<Longrightarrow> length r < length s"
  by (induction ws) (auto split: option.splits if_splits)

fun trim_codes :: "string list \<Rightarrow> string \<Rightarrow> string" where
  "trim_codes ws s = (case first_strip ws s of None \<Rightarrow> s | Some r \<Rightarrow> trim_codes ws r)"

declare trim_codes.simps [simp del]

text \<open>\<open>str::trim\<close>: whitespace characters are stripped from both ends (UTF-8 is self-synchronising,
  so the reversed encodings identify the trailing ones).\<close>

definition trim :: "string \<Rightarrow> string" where
  "trim s = rev (trim_codes (map rev whitespace_codes) (rev (trim_codes whitespace_codes s)))"

text \<open>\<open>split_whitespace().count()\<close>: the maximal runs of non-whitespace characters, counted at
  their first character.\<close>

function count_words :: "bool \<Rightarrow> string \<Rightarrow> nat" where
  "count_words in_word s =
     (case s of [] \<Rightarrow> 0
      | c # cs \<Rightarrow>
         (case first_strip whitespace_codes s of
            Some r \<Rightarrow> count_words False r
          | None \<Rightarrow> (if in_word then 0 else 1) + count_words True cs))"
  by pat_completeness auto
termination
  by (relation "measure (\<lambda>(b, s). length s)") (auto dest: first_strip_shorter)

declare count_words.simps [simp del]

end
