(* ===== verification/Key_Types.thy ===== *)
theory Key_Types
  imports Protocol_Error Rust_Text
begin

text \<open>
  Keys, suites and derivation profiles of the protocol:
  \<open>crates/bloom-signer-api/src/crypto.rs\<close> and \<open>crates/bloom-signer-api/src/wallet_seed.rs\<close>.
  Tokens, digests and operation identifiers of the wire crate are their canonical strings;
  \<open>Base64UrlBytes\<close> is the bytes it decodes to. The two path validators read a path segment
  with \<open>str::parse\<close>, as the sources do.
\<close>

type_synonym token = string
type_synonym digest32 = string
type_synonym operation_id = string

definition KEYREF_LOCATOR_MAX_BYTES :: nat where
  "KEYREF_LOCATOR_MAX_BYTES = 2 * 1024"

definition PUBLIC_KEY_MAX_BYTES :: nat where
  "PUBLIC_KEY_MAX_BYTES = 128"

datatype key_spec = Secp256k1 | Ed25519

datatype crypto_suite =
    Secp256k1Keccak256Recoverable | Secp256k1Sha256Recoverable | Ed25519Message

datatype crypto_input_kind = InputDigest32 | InputMessage

datatype signature_encoding = Secp256k1Recoverable65 | Ed25519Raw64

definition all_suites :: "crypto_suite list" where
  "all_suites = [Secp256k1Keccak256Recoverable, Secp256k1Sha256Recoverable, Ed25519Message]"

fun suite_key_spec :: "crypto_suite \<Rightarrow> key_spec" where
  "suite_key_spec Secp256k1Keccak256Recoverable = Secp256k1"
| "suite_key_spec Secp256k1Sha256Recoverable = Secp256k1"
| "suite_key_spec Ed25519Message = Ed25519"

fun input_kind :: "crypto_suite \<Rightarrow> crypto_input_kind" where
  "input_kind Secp256k1Keccak256Recoverable = InputDigest32"
| "input_kind Secp256k1Sha256Recoverable = InputDigest32"
| "input_kind Ed25519Message = InputMessage"

fun signature_encoding_of :: "crypto_suite \<Rightarrow> signature_encoding" where
  "signature_encoding_of Secp256k1Keccak256Recoverable = Secp256k1Recoverable65"
| "signature_encoding_of Secp256k1Sha256Recoverable = Secp256k1Recoverable65"
| "signature_encoding_of Ed25519Message = Ed25519Raw64"

datatype derivation_profile = Bip44EvmSecp256k1V1 | Bip44SolanaSlip10Ed25519V1

datatype derivation_ref =
    Bip32Secp256k1 (root_key_id: token) (bip32_path: string)
  | Bip39Multicurve (wallet_seed_token: token) (seed_profile: derivation_profile)
      (seed_path: string)

record key_ref =
  kr_backend :: token
  kr_backend_instance :: token
  kr_locator :: string
  kr_key_spec :: key_spec
  kr_fingerprint :: digest32
  kr_derivation :: "derivation_ref option"

subsection \<open>BIP-32 paths\<close>

definition apos :: char where
  "apos = CHR 0x27"

text \<open>One child of a path in \<open>validate_bip32_path\<close>: an optional apostrophe is dropped, a leading
  zero is refused on more than one digit, and the number has to parse below \<open>2^31\<close>.\<close>

definition bip32_child_ok :: "string \<Rightarrow> bool" where
  "bip32_child_ok child =
     (let index = (case strip_suffix [apos] child of Some r \<Rightarrow> r | None \<Rightarrow> child) in
      \<not> (index = [] \<or> (length index > 1 \<and> hd index = CHR ''0'')
         \<or> (case parse_u32 index of None \<Rightarrow> True | Some v \<Rightarrow> \<not> v < 2 ^ 31)))"

definition validate_bip32_path :: "string \<Rightarrow> unit result" where
  "validate_bip32_path path =
     (case split_on CHR ''/'' path of
        [] \<Rightarrow> Inl (err KeyrefMismatch)
      | first # children \<Rightarrow>
         (if first \<noteq> ''m'' then Inl (err KeyrefMismatch)
          else if children = [] \<or> length children > 10 then Inl (err KeyrefMismatch)
          else for_each (\<lambda>child. ensure (bip32_child_ok child) (err KeyrefMismatch)) children))"

definition key_ref_validate :: "key_ref \<Rightarrow> unit result" where
  "key_ref_validate k =
     (if kr_locator k = [] \<or> length (kr_locator k) > KEYREF_LOCATOR_MAX_BYTES
      then Inl (err KeyrefMismatch)
      else case (kr_key_spec k, kr_derivation k) of
        (Secp256k1, Some (Bip32Secp256k1 _ path)) \<Rightarrow> validate_bip32_path path
      | (Secp256k1, Some (Bip39Multicurve _ Bip44EvmSecp256k1V1 path)) \<Rightarrow> validate_bip32_path path
      | (Ed25519, Some (Bip39Multicurve _ Bip44SolanaSlip10Ed25519V1 path)) \<Rightarrow>
          validate_bip32_path path
      | (_, None) \<Rightarrow> Inr ()
      | _ \<Rightarrow> Inl (err KeyrefMismatch))"

record enrolled_key_binding =
  ekb_key_ref :: key_ref
  ekb_suites :: "crypto_suite list"

definition enrolled_authorize ::
  "enrolled_key_binding \<Rightarrow> key_ref \<Rightarrow> crypto_suite \<Rightarrow> unit result" where
  "enrolled_authorize b requested_key requested_suite =
     rbind (key_ref_validate (ekb_key_ref b)) (\<lambda>_.
     rbind (key_ref_validate requested_key) (\<lambda>_.
     if requested_key \<noteq> ekb_key_ref b then Inl (err KeyrefMismatch)
     else if requested_suite \<notin> set (ekb_suites b)
             \<or> suite_key_spec requested_suite \<noteq> kr_key_spec requested_key
     then Inl (err SuiteNotAllowed)
     else Inr ()))"

subsection \<open>Wallet seeds and derived accounts\<close>

datatype wallet_seed_profile = Bip39MulticurveV1 | ImportedSecp256k1Scalar

datatype account_lifecycle = LifecycleActive | LifecycleRetired

datatype public_key_encoding = Secp256k1SpkiDer | Ed25519SpkiDer

fun coin_type :: "derivation_profile \<Rightarrow> u32" where
  "coin_type Bip44EvmSecp256k1V1 = 60"
| "coin_type Bip44SolanaSlip10Ed25519V1 = 501"

fun profile_key_spec :: "derivation_profile \<Rightarrow> key_spec" where
  "profile_key_spec Bip44EvmSecp256k1V1 = Secp256k1"
| "profile_key_spec Bip44SolanaSlip10Ed25519V1 = Ed25519"

fun encoding_key_spec :: "public_key_encoding \<Rightarrow> key_spec" where
  "encoding_key_spec Secp256k1SpkiDer = Secp256k1"
| "encoding_key_spec Ed25519SpkiDer = Ed25519"

record wallet_seed_ref =
  ws_wallet_id :: token
  ws_profile :: wallet_seed_profile
  ws_entropy_bits :: u32

record derived_account_descriptor =
  da_key_ref :: key_ref
  da_wallet_seed_ref :: wallet_seed_ref
  da_profile :: derivation_profile
  da_path :: string
  da_public_key :: bytes
  da_encoding :: public_key_encoding
  da_fingerprint :: digest32
  da_suites :: "crypto_suite list"
  da_lifecycle :: account_lifecycle

definition parse_child :: "string \<Rightarrow> bool \<Rightarrow> u32 result" where
  "parse_child segment hardened =
     (let (number, marked) =
        (case strip_suffix [apos] segment of Some n \<Rightarrow> (n, True) | None \<Rightarrow> (segment, False)) in
      if marked \<noteq> hardened \<or> number = [] \<or> (length number > 1 \<and> hd number = CHR ''0'')
      then Inl (err KeyrefMismatch)
      else case parse_u32 number of
        None \<Rightarrow> Inl (err KeyrefMismatch)
      | Some v \<Rightarrow> (if v \<ge> 2 ^ 31 then Inl (err KeyrefMismatch) else Inr v))"

definition require_hardened :: "string \<Rightarrow> u32 option \<Rightarrow> unit result" where
  "require_hardened segment expected =
     rbind (parse_child segment True) (\<lambda>v.
       case expected of Some e \<Rightarrow> ensure (v = e) (err KeyrefMismatch) | None \<Rightarrow> Inr ())"

definition require_plain :: "string \<Rightarrow> u32 option \<Rightarrow> unit result" where
  "require_plain segment expected =
     rbind (parse_child segment False) (\<lambda>v.
       case expected of Some e \<Rightarrow> ensure (v = e) (err KeyrefMismatch) | None \<Rightarrow> Inr ())"

definition validate_allocated_path :: "derivation_profile \<Rightarrow> string \<Rightarrow> unit result" where
  "validate_allocated_path profile path =
     (case split_on CHR ''/'' path of
        [] \<Rightarrow> Inl (err KeyrefMismatch)
      | first # children \<Rightarrow>
         (if first \<noteq> ''m'' then Inl (err KeyrefMismatch)
          else case profile of
            Bip44EvmSecp256k1V1 \<Rightarrow>
              (case children of
                 [c0, c1, c2, c3, c4] \<Rightarrow>
                   rbind (require_hardened c0 (Some 44)) (\<lambda>_.
                   rbind (require_hardened c1 (Some 60)) (\<lambda>_.
                   rbind (require_hardened c2 None) (\<lambda>_.
                   rbind (require_plain c3 (Some 0)) (\<lambda>_.
                   require_plain c4 None))))
               | _ \<Rightarrow> Inl (err KeyrefMismatch))
          | Bip44SolanaSlip10Ed25519V1 \<Rightarrow>
              (case children of
                 [c0, c1, c2, c3] \<Rightarrow>
                   rbind (require_hardened c0 (Some 44)) (\<lambda>_.
                   rbind (require_hardened c1 (Some 501)) (\<lambda>_.
                   rbind (require_hardened c2 None) (\<lambda>_.
                   require_hardened c3 (Some 0))))
               | _ \<Rightarrow> Inl (err KeyrefMismatch))))"

definition descriptor_validate :: "derived_account_descriptor \<Rightarrow> unit result" where
  "descriptor_validate d =
     rbind (key_ref_validate (da_key_ref d)) (\<lambda>_.
     if ws_profile (da_wallet_seed_ref d) \<noteq> Bip39MulticurveV1 then Inl (err KeyrefMismatch)
     else if ws_entropy_bits (da_wallet_seed_ref d) \<notin> {128, 160, 192, 224, 256}
     then Inl (err KeyrefMismatch)
     else if kr_key_spec (da_key_ref d) \<noteq> profile_key_spec (da_profile d)
     then Inl (err KeyrefMismatch)
     else if encoding_key_spec (da_encoding d) \<noteq> kr_key_spec (da_key_ref d)
     then Inl (err KeyrefMismatch)
     else rbind (validate_allocated_path (da_profile d) (da_path d)) (\<lambda>_.
     if length (da_public_key d) = 0 \<or> length (da_public_key d) > PUBLIC_KEY_MAX_BYTES
     then Inl (err KeyrefMismatch)
     else if da_suites d = [] \<or> length (da_suites d) > length all_suites
             \<or> \<not> distinct (da_suites d)
             \<or> (\<exists>s\<in>set (da_suites d). suite_key_spec s \<noteq> kr_key_spec (da_key_ref d))
     then Inl (err KeyrefMismatch)
     else Inr ()))"

subsection \<open>Lemmas\<close>

lemma bip32_child_ok_of_parse_child:
  assumes "parse_child seg h = Inr v"
  shows "bip32_child_ok seg"
proof (cases "strip_suffix [apos] seg")
  case None
  with assms show ?thesis
    by (auto simp: parse_child_def bip32_child_ok_def Let_def not_le split: if_splits option.splits)
next
  case (Some n)
  with assms show ?thesis
    by (auto simp: parse_child_def bip32_child_ok_def Let_def not_le split: if_splits option.splits)
qed

lemma require_ok_child:
  "require_hardened seg e = Inr u \<Longrightarrow> bip32_child_ok seg"
  "require_plain seg e = Inr u \<Longrightarrow> bip32_child_ok seg"
  by (auto simp: require_hardened_def require_plain_def rbind_Inr_iff
      intro: bip32_child_ok_of_parse_child)

lemma no_apos_digits: "is_ascii_digit c \<Longrightarrow> c \<noteq> apos"
  by (auto simp: apos_def is_ascii_digit_def)

lemma no_slash_digits: "is_ascii_digit c \<Longrightarrow> c \<noteq> CHR ''/''"
  by (auto simp: is_ascii_digit_def)

lemma parse_child_hardened_show:
  "v < 2 ^ 31 \<Longrightarrow> parse_child (show_u32 v @ [apos]) True = Inr v"
  using show_nat_no_leading_zero [of "unat v"]
  by (auto simp: parse_child_def strip_suffix_def parse_u32_show not_le
      simp flip: show_u32_def) (auto simp: show_u32_def)

lemma strip_suffix_show: "strip_suffix [apos] (show_u32 v) = None"
proof -
  have "show_u32 v \<noteq> r @ [apos]" for r
    using show_nat_digits [of apos "unat v"] no_apos_digits [of apos]
    by (auto simp: show_u32_def)
  then show ?thesis by (metis not_Some_eq strip_suffix_Some_iff)
qed

lemma parse_child_plain_show: "v < 2 ^ 31 \<Longrightarrow> parse_child (show_u32 v) False = Inr v"
  using show_nat_no_leading_zero [of "unat v"]
  by (auto simp: parse_child_def strip_suffix_show parse_u32_show not_le
      simp flip: show_u32_def) (auto simp: show_u32_def)

lemma show_u32_no_slash: "CHR ''/'' \<notin> set (show_u32 v)"
  using show_nat_digits [of "CHR ''/''" "unat v"] no_slash_digits by (auto simp: show_u32_def)

end
