(* ===== verification/Json.thy ===== *)
theory Json
  imports Key_Types
begin

text \<open>
  Serialised values and the cryptographic primitives of third-party crates. A value is
  serialised into \<open>json\<close> the way the derived \<open>Serialize\<close> implementations do it (field names in
  declaration order, tagged enums, optional fields); the leaves whose text form belongs to the
  wire crate (decimals, base64url bytes) stay values. The canonical encoding of
  \<open>serde_jcs\<close>, SHA-256 (with the digest's text form), Ed25519 (\<open>p_verify\<close> takes public key, message
  and signature, \<open>p_sign\<close> the secret key and message) and hex decoding are parameters,
  collected in \<open>prims\<close>; nothing is assumed of them here.
\<close>

datatype json =
    JNull
  | JStr string
  | JDec u64
  | JDec256 nat
  | JBytes bytes
  | JNum nat
  | JBool bool
  | JArr "json list"
  | JObj "(string \<times> json) list"

record prims =
  p_sha256 :: "bytes \<Rightarrow> digest32"
  p_jcs :: "json \<Rightarrow> bytes"
  p_verify :: "bytes \<Rightarrow> bytes \<Rightarrow> bytes \<Rightarrow> bool"
  p_sign :: "bytes \<Rightarrow> bytes \<Rightarrow> bytes"
  p_public :: "bytes \<Rightarrow> bytes"
  p_hex_decode :: "string \<Rightarrow> bytes option"

definition str_bytes :: "string \<Rightarrow> bytes" where
  "str_bytes s = map (\<lambda>c. of_nat (of_char c)) s"

lemma of_nat_of_char_inject: "(of_nat (of_char c) :: u8) = of_nat (of_char d) \<longleftrightarrow> c = d"
proof
  assume eq: "(of_nat (of_char c) :: u8) = of_nat (of_char d)"
  have b: "(of_char x :: nat) < 256" for x :: char by (rule nat_of_char_less_256)
  from eq have "unat (of_nat (of_char c) :: u8) = unat (of_nat (of_char d) :: u8)" by simp
  then have "(of_char c :: nat) = of_char d" by (simp add: unat_of_nat b)
  then show "c = d" by simp
qed simp

lemma str_bytes_inject [simp]: "str_bytes s = str_bytes t \<longleftrightarrow> s = t"
proof
  assume "str_bytes s = str_bytes t"
  then show "s = t"
    by (intro injD [OF inj_mapI, of "\<lambda>c. of_nat (of_char c) :: u8"])
      (auto simp: str_bytes_def inj_def of_nat_of_char_inject)
qed simp

text \<open>\<open>serde_json\<close>'s \<open>Map::remove\<close> on an object.\<close>

definition obj_remove :: "string list \<Rightarrow> (string \<times> json) list \<Rightarrow> (string \<times> json) list" where
  "obj_remove ks fs = filter (\<lambda>(k, _). k \<notin> set ks) fs"

fun jopt :: "('a \<Rightarrow> json) \<Rightarrow> 'a option \<Rightarrow> json" where
  "jopt f None = JNull"
| "jopt f (Some x) = f x"

fun key_spec_json :: "key_spec \<Rightarrow> json" where
  "key_spec_json Secp256k1 = JStr ''secp256k1''"
| "key_spec_json Ed25519 = JStr ''ed25519''"

fun suite_json :: "crypto_suite \<Rightarrow> json" where
  "suite_json Secp256k1Keccak256Recoverable = JStr ''secp256k1-keccak256-recoverable''"
| "suite_json Secp256k1Sha256Recoverable = JStr ''secp256k1-sha256-recoverable''"
| "suite_json Ed25519Message = JStr ''ed25519-message''"

fun profile_id :: "derivation_profile \<Rightarrow> string" where
  "profile_id Bip44EvmSecp256k1V1 = ''bip44-evm-secp256k1-v1''"
| "profile_id Bip44SolanaSlip10Ed25519V1 = ''bip44-solana-slip10-ed25519-v1''"

fun derivation_json :: "derivation_ref \<Rightarrow> json" where
  "derivation_json (Bip32Secp256k1 root path) =
     JObj [(''scheme'', JStr ''bip32-secp256k1''), (''root_key_id'', JStr root),
           (''path'', JStr path)]"
| "derivation_json (Bip39Multicurve seed profile path) =
     JObj [(''scheme'', JStr ''bip39-multicurve''), (''wallet_seed_ref'', JStr seed),
           (''profile'', JStr (profile_id profile)), (''path'', JStr path)]"

definition key_ref_json :: "key_ref \<Rightarrow> json" where
  "key_ref_json k =
     JObj [(''backend'', JStr (kr_backend k)),
           (''backend_instance'', JStr (kr_backend_instance k)),
           (''locator'', JStr (kr_locator k)),
           (''key_spec'', key_spec_json (kr_key_spec k)),
           (''public_key_fingerprint'', JStr (kr_fingerprint k)),
           (''derivation'', jopt derivation_json (kr_derivation k))]"

lemma suite_json_inject [simp]: "suite_json a = suite_json b \<longleftrightarrow> a = b"
  by (cases a; cases b) simp_all

lemma key_spec_json_inject [simp]: "key_spec_json a = key_spec_json b \<longleftrightarrow> a = b"
  by (cases a; cases b) simp_all

lemma profile_id_inject [simp]: "profile_id a = profile_id b \<longleftrightarrow> a = b"
  by (cases a; cases b) simp_all

lemma derivation_json_inject [simp]: "derivation_json a = derivation_json b \<longleftrightarrow> a = b"
  by (cases a; cases b) simp_all

lemma derivation_json_not_null [simp]: "derivation_json a \<noteq> JNull" "JNull \<noteq> derivation_json a"
  by (cases a; simp)+

lemma jopt_inject:
  assumes "\<And>x y. f x = f y \<longleftrightarrow> x = y" and "\<And>x. f x \<noteq> JNull"
  shows "jopt f a = jopt f b \<longleftrightarrow> a = b"
proof (cases a)
  case None
  then show ?thesis using assms(2) by (cases b) (auto dest: sym)
next
  case (Some x)
  then show ?thesis using assms by (cases b) auto
qed

lemma jopt_str_inject [simp]: "jopt JStr a = jopt JStr b \<longleftrightarrow> a = b"
  by (rule jopt_inject) simp_all

lemma jopt_derivation_inject [simp]: "jopt derivation_json a = jopt derivation_json b \<longleftrightarrow> a = b"
  by (rule jopt_inject) simp_all

lemma key_ref_json_inject [simp]: "key_ref_json a = key_ref_json b \<longleftrightarrow> a = b"
  by (auto simp: key_ref_json_def)

lemma map_inject_iff: "(\<And>x y. f x = f y \<longleftrightarrow> x = y) \<Longrightarrow> map f xs = map f ys \<longleftrightarrow> xs = ys"
  by (metis injI list.inj_map_strong inj_mapI inj_eq)

lemma map_JStr_inject [simp]: "map JStr xs = map JStr ys \<longleftrightarrow> xs = ys"
  by (rule map_inject_iff) simp

lemma map_JBytes_inject [simp]: "map JBytes xs = map JBytes ys \<longleftrightarrow> xs = ys"
  by (rule map_inject_iff) simp

lemma map_suite_json_inject [simp]: "map suite_json xs = map suite_json ys \<longleftrightarrow> xs = ys"
  by (rule map_inject_iff) simp

subsection \<open>A concrete instance of the primitives\<close>

text \<open>Used only where a property is applied to concrete inputs: a tag-and-terminator encoding, a
  checksum of digest length, and a signature that is a prefix of key and message.\<close>

fun sample_jcs :: "json \<Rightarrow> bytes" where
  "sample_jcs JNull = [0]"
| "sample_jcs (JStr s) = 1 # str_bytes s @ [255]"
| "sample_jcs (JDec n) = 2 # str_bytes (show_u64 n) @ [255]"
| "sample_jcs (JDec256 n) = 3 # str_bytes (show_nat n) @ [255]"
| "sample_jcs (JBytes b) = 4 # b @ [255]"
| "sample_jcs (JNum n) = 7 # str_bytes (show_nat n) @ [255]"
| "sample_jcs (JBool b) = [8, of_bool b]"
| "sample_jcs (JArr xs) = 5 # concat (map sample_jcs xs) @ [255]"
| "sample_jcs (JObj fs) = 6 # concat (map (\<lambda>(k, v). str_bytes k @ sample_jcs v) fs) @ [255]"

definition sample_signature :: "bytes \<Rightarrow> bytes \<Rightarrow> bytes" where
  "sample_signature key message = take 64 (key @ message @ replicate 64 0)"

definition sample_prims :: prims where
  "sample_prims =
     \<lparr>p_sha256 = (\<lambda>b. replicate 63 CHR ''0'' @ [char_of (unat (foldr (+) b (0 :: u8)))]),
      p_jcs = sample_jcs,
      p_verify = (\<lambda>key message signature. signature = sample_signature key message),
      p_sign = sample_signature, p_public = (\<lambda>key. key),
      p_hex_decode = (\<lambda>s. Some (str_bytes s))\<rparr>"

end
