(* ===== verification/Backend_Api.thy ===== *)
theory Backend_Api
  imports Json
begin

text \<open>
  The contract between the Signer and its backends: \<open>crates/bloom-signer-backend-api/src/lib.rs\<close>.
\<close>

record derivation_capability =
  dc_scheme :: token
  dc_maximum_depth :: u8
  dc_maximum_index :: u32

datatype provider_idempotency = NativeOperationKey | NoDeduplication

record backend_capabilities =
  bc_backend_id :: token
  bc_backend_instance_id :: token
  bc_key_specs :: "key_spec list"
  bc_suites :: "crypto_suite list"
  bc_derivation :: "derivation_capability list"
  bc_input_kinds :: "crypto_input_kind list"
  bc_encodings :: "signature_encoding list"
  bc_maximum_input_bytes :: u64
  bc_maximum_batch_size :: u64
  bc_can_generate :: bool
  bc_can_import :: bool
  bc_can_export_encrypted :: bool
  bc_can_delete :: bool
  bc_requires_activation :: bool
  bc_requires_user_presence :: bool
  bc_networked :: bool
  bc_idempotency :: provider_idempotency

record key_description =
  kd_key_ref :: key_ref
  kd_spki :: bytes
  kd_fingerprint :: digest32
  kd_suites :: "crypto_suite list"

datatype backend_input = DigestInput digest32 | MessageInput bytes

record backend_sign_request =
  bs_provider_attempt :: digest32
  bs_key_ref :: key_ref
  bs_suite :: crypto_suite
  bs_input :: backend_input
  bs_deadline_ms :: u64

definition input_matches_suite :: "backend_sign_request \<Rightarrow> bool" where
  "input_matches_suite r =
     (case (input_kind (bs_suite r), bs_input r) of
        (InputDigest32, DigestInput _) \<Rightarrow> True
      | (InputMessage, MessageInput _) \<Rightarrow> True
      | _ \<Rightarrow> False)"

record backend_signature =
  sg_suite :: crypto_suite
  sg_encoding :: signature_encoding
  sg_bytes :: bytes
  sg_correlation :: "string option"

datatype backend_error =
    DefinitiveRejected | RetryableBeforeAcceptance | Unsupported | InvalidRequest
  | IndeterminateAcceptance

definition from_unknown_provider_error :: backend_error where
  "from_unknown_provider_error = IndeterminateAcceptance"

datatype activation_status = Inactive | Active

end
