(* ===== verification/Methods.thy ===== *)
theory Methods
  imports Protocol_Error
begin

text \<open>
  The method registries of \<open>crates/bloom-signer-api/src/methods.rs\<close>: the \<open>method_enum!\<close> macro
  instantiated for the Broker and the control endpoints, and the classification of the methods that
  may be served while mutations are disabled. Both registries are \<open>string_table\<close>s.
\<close>

datatype broker_signer_method =
    SystemHello | SignerReadiness | SignerCapabilities | SurfaceStatus |
    SurfaceReportEffective | CrossSurfacePairStart | CrossSurfacePrepareSource |
    CrossSurfaceCompleteSource | CrossSurfaceCompleteDestination |
    CrossSurfaceAlreadyRegistered | KeyGetPublic | KeyListPublic |
    KeyDerivationCapabilities | KeyDerivePrepare | KeyListDerived | DerivedAccountList |
    KeyEnrollPrepare | KeyEnrollStatus | CeremonyPrepare | CeremonyComplete |
    CeremonyStatus | CeremonyCancel | SealedApprovalStatus | SealedApprovalRevoke |
    SealedApprovalRevokeAll | RevocationState | SignerSign | SignerSignBatch |
    OperationStatus | PolicyRead | PolicyCompareAndSwap | WalletRegistrationPrepare |
    WalletRegistrationStatus | WalletUnlockPrepare | WalletImportPrepare |
    WalletExportPrepare | WalletDeletePrepare | CredentialListPublic |
    CredentialAddPrepare | CredentialRemovePrepare | CredentialReplacePrepare |
    RecoveryPrepare | CustodyBindOutputRecipient | CustodyComplete | CustodyResult |
    CustodyStatus

definition all_methods :: "broker_signer_method list" where
  "all_methods = [
     SystemHello, SignerReadiness, SignerCapabilities, SurfaceStatus,
     SurfaceReportEffective, CrossSurfacePairStart, CrossSurfacePrepareSource,
     CrossSurfaceCompleteSource, CrossSurfaceCompleteDestination,
     CrossSurfaceAlreadyRegistered, KeyGetPublic, KeyListPublic, KeyDerivationCapabilities,
     KeyDerivePrepare, KeyListDerived, DerivedAccountList, KeyEnrollPrepare,
     KeyEnrollStatus, CeremonyPrepare, CeremonyComplete, CeremonyStatus, CeremonyCancel,
     SealedApprovalStatus, SealedApprovalRevoke, SealedApprovalRevokeAll, RevocationState,
     SignerSign, SignerSignBatch, OperationStatus, PolicyRead, PolicyCompareAndSwap,
     WalletRegistrationPrepare, WalletRegistrationStatus, WalletUnlockPrepare,
     WalletImportPrepare, WalletExportPrepare, WalletDeletePrepare, CredentialListPublic,
     CredentialAddPrepare, CredentialRemovePrepare, CredentialReplacePrepare,
     RecoveryPrepare, CustodyBindOutputRecipient, CustodyComplete, CustodyResult,
     CustodyStatus]"

primrec method_as_str :: "broker_signer_method \<Rightarrow> string" where
  "method_as_str SystemHello = ''system.hello''"
| "method_as_str SignerReadiness = ''signer.readiness''"
| "method_as_str SignerCapabilities = ''signer.capabilities''"
| "method_as_str SurfaceStatus = ''surface.status''"
| "method_as_str SurfaceReportEffective = ''surface.report_effective''"
| "method_as_str CrossSurfacePairStart = ''cross_surface.pair_start''"
| "method_as_str CrossSurfacePrepareSource = ''cross_surface.prepare_source''"
| "method_as_str CrossSurfaceCompleteSource = ''cross_surface.complete_source''"
| "method_as_str CrossSurfaceCompleteDestination = ''cross_surface.complete_destination''"
| "method_as_str CrossSurfaceAlreadyRegistered = ''cross_surface.already_registered''"
| "method_as_str KeyGetPublic = ''key.get_public''"
| "method_as_str KeyListPublic = ''key.list_public''"
| "method_as_str KeyDerivationCapabilities = ''key.derivation_capabilities''"
| "method_as_str KeyDerivePrepare = ''key.derive_prepare''"
| "method_as_str KeyListDerived = ''key.list_derived''"
| "method_as_str DerivedAccountList = ''wallet.derived_accounts''"
| "method_as_str KeyEnrollPrepare = ''key.enroll_prepare''"
| "method_as_str KeyEnrollStatus = ''key.enroll_status''"
| "method_as_str CeremonyPrepare = ''ceremony.prepare''"
| "method_as_str CeremonyComplete = ''ceremony.complete''"
| "method_as_str CeremonyStatus = ''ceremony.status''"
| "method_as_str CeremonyCancel = ''ceremony.cancel''"
| "method_as_str SealedApprovalStatus = ''sealed_approval.status''"
| "method_as_str SealedApprovalRevoke = ''sealed_approval.revoke''"
| "method_as_str SealedApprovalRevokeAll = ''sealed_approval.revoke_all''"
| "method_as_str RevocationState = ''revocation.state''"
| "method_as_str SignerSign = ''signer.sign''"
| "method_as_str SignerSignBatch = ''signer.sign_batch''"
| "method_as_str OperationStatus = ''operation.status''"
| "method_as_str PolicyRead = ''policy.read''"
| "method_as_str PolicyCompareAndSwap = ''policy.compare_and_swap''"
| "method_as_str WalletRegistrationPrepare = ''wallet.registration_prepare''"
| "method_as_str WalletRegistrationStatus = ''wallet.registration_status''"
| "method_as_str WalletUnlockPrepare = ''wallet.unlock_prepare''"
| "method_as_str WalletImportPrepare = ''wallet.import_prepare''"
| "method_as_str WalletExportPrepare = ''wallet.export_prepare''"
| "method_as_str WalletDeletePrepare = ''wallet.delete_prepare''"
| "method_as_str CredentialListPublic = ''credential.list_public''"
| "method_as_str CredentialAddPrepare = ''credential.add_prepare''"
| "method_as_str CredentialRemovePrepare = ''credential.remove_prepare''"
| "method_as_str CredentialReplacePrepare = ''credential.replace_prepare''"
| "method_as_str RecoveryPrepare = ''recovery.prepare''"
| "method_as_str CustodyBindOutputRecipient = ''custody.bind_output_recipient''"
| "method_as_str CustodyComplete = ''custody.complete''"
| "method_as_str CustodyResult = ''custody.result''"
| "method_as_str CustodyStatus = ''custody.status''"

definition method_parse :: "string \<Rightarrow> broker_signer_method result" where
  "method_parse value =
     ok_or (find (\<lambda>method. method_as_str method = value) all_methods) (err UnknownMethod)"

primrec is_read_only :: "broker_signer_method \<Rightarrow> bool" where
  "is_read_only SystemHello = True"
| "is_read_only SignerReadiness = True"
| "is_read_only SignerCapabilities = True"
| "is_read_only SurfaceStatus = True"
| "is_read_only SurfaceReportEffective = False"
| "is_read_only CrossSurfacePairStart = False"
| "is_read_only CrossSurfacePrepareSource = False"
| "is_read_only CrossSurfaceCompleteSource = False"
| "is_read_only CrossSurfaceCompleteDestination = False"
| "is_read_only CrossSurfaceAlreadyRegistered = False"
| "is_read_only KeyGetPublic = True"
| "is_read_only KeyListPublic = True"
| "is_read_only KeyDerivationCapabilities = True"
| "is_read_only KeyDerivePrepare = False"
| "is_read_only KeyListDerived = True"
| "is_read_only DerivedAccountList = True"
| "is_read_only KeyEnrollPrepare = False"
| "is_read_only KeyEnrollStatus = True"
| "is_read_only CeremonyPrepare = False"
| "is_read_only CeremonyComplete = False"
| "is_read_only CeremonyStatus = True"
| "is_read_only CeremonyCancel = False"
| "is_read_only SealedApprovalStatus = True"
| "is_read_only SealedApprovalRevoke = False"
| "is_read_only SealedApprovalRevokeAll = False"
| "is_read_only RevocationState = True"
| "is_read_only SignerSign = False"
| "is_read_only SignerSignBatch = False"
| "is_read_only OperationStatus = True"
| "is_read_only PolicyRead = True"
| "is_read_only PolicyCompareAndSwap = False"
| "is_read_only WalletRegistrationPrepare = False"
| "is_read_only WalletRegistrationStatus = True"
| "is_read_only WalletUnlockPrepare = False"
| "is_read_only WalletImportPrepare = False"
| "is_read_only WalletExportPrepare = False"
| "is_read_only WalletDeletePrepare = False"
| "is_read_only CredentialListPublic = True"
| "is_read_only CredentialAddPrepare = False"
| "is_read_only CredentialRemovePrepare = False"
| "is_read_only CredentialReplacePrepare = False"
| "is_read_only RecoveryPrepare = False"
| "is_read_only CustodyBindOutputRecipient = False"
| "is_read_only CustodyComplete = False"
| "is_read_only CustodyResult = True"
| "is_read_only CustodyStatus = True"

datatype control_method = ControlRevoke | ControlRevokeAll | ControlStatus

definition all_control_methods :: "control_method list" where
  "all_control_methods = [ControlRevoke, ControlRevokeAll, ControlStatus]"

primrec control_as_str :: "control_method \<Rightarrow> string" where
  "control_as_str ControlRevoke = ''control.revoke''"
| "control_as_str ControlRevokeAll = ''control.revoke_all''"
| "control_as_str ControlStatus = ''control.status''"

definition control_parse :: "string \<Rightarrow> control_method result" where
  "control_parse value =
     ok_or (find (\<lambda>method. control_as_str method = value) all_control_methods) (err UnknownMethod)"

lemma all_methods_complete: "m \<in> set all_methods"
  by (cases m) (simp_all add: all_methods_def)

lemma all_methods_distinct: "distinct (map method_as_str all_methods)"
  by code_simp

lemma all_control_complete: "m \<in> set all_control_methods"
  by (cases m) (simp_all add: all_control_methods_def)

lemma all_control_distinct: "distinct (map control_as_str all_control_methods)"
  by code_simp

interpretation methods: string_table all_methods method_as_str
  by unfold_locales (rule all_methods_complete, rule all_methods_distinct)

interpretation control: string_table all_control_methods control_as_str
  by unfold_locales (rule all_control_complete, rule all_control_distinct)

end
