(* ===== verification/Approval.thy ===== *)
theory Approval
  imports Json
begin

text \<open>
  Sealed approvals: \<open>crates/bloom-signer-api/src/approval.rs\<close>. The terms, their validation and
  the approval identifier, which is the domain-separated digest of the canonical encoding of
  validated terms.
\<close>

datatype approval_subject =
    PetalSubject (subject_package: digest32) (subject_route: string) (subject_agent: "string option")
  | CliSubject (client_id: token) (command_class: token)
  | SystemSubject (component_id: token) (operation_class: token)

datatype claim_assurance_level = MachineAsserted | ProofVerified | InvariantAttested

record petal_route_grant =
  rg_route :: string
  rg_classes :: "token list"
  rg_provenance :: digest32

datatype approval_selector =
    ExactSelector (exact_payloads: "digest32 list") (exact_hashes: "digest32 list")
  | PetalSelector (sel_package: digest32) (sel_route: string) (sel_classes: "token list")
      (sel_grants: "petal_route_grant list") (sel_assurance: claim_assurance_level)

record sliding_window =
  sw_maximum :: u64
  sw_duration :: u64

text \<open>A value window's \<open>DecimalU256\<close> maximum is a number below \<open>2^256\<close>.\<close>

record value_window =
  vw_maximum :: nat
  vw_duration :: u64

record value_limit =
  vl_chain :: token
  vl_asset :: string
  vl_lifetime :: nat
  vl_windows :: "value_window list"

record approval_limits =
  max_operations :: u64
  max_signatures :: u64
  operation_rate_limits :: "sliding_window list"
  signature_rate_limits :: "sliding_window list"
  value_limits :: "value_limit list"

datatype activation_mode = BootBound | DurableLocal token u64 | BackendManaged

record approval_terms =
  at_subject :: approval_subject
  at_wallet_id :: token
  at_key_ref :: key_ref
  at_suites :: "crypto_suite list"
  at_selector :: approval_selector
  at_limits :: approval_limits
  at_activation_mode :: activation_mode
  at_revocation_epoch :: u64
  at_policy_version :: u64
  at_policy_digest :: digest32
  at_provenance_digest :: digest32
  at_request_nonce :: string
  at_issued_at_ms :: u64
  at_not_before_ms :: u64
  at_expires_at_ms :: u64
  at_renewal_of :: "digest32 option"

subsection \<open>Validation\<close>

text \<open>\<open>windows(2).all(|pair| pair[0] < pair[1])\<close> on byte strings.\<close>

fun strictly_increasing :: "'a::ord list \<Rightarrow> bool" where
  "strictly_increasing (x # y # zs) = (x < y \<and> strictly_increasing (y # zs))"
| "strictly_increasing _ = True"

definition classes_are_canonical :: "token list \<Rightarrow> bool" where
  "classes_are_canonical cs = (cs \<noteq> [] \<and> strictly_increasing cs)"

definition valid_route_grants ::
  "petal_route_grant list \<Rightarrow> string \<Rightarrow> token list \<Rightarrow> digest32 \<Rightarrow> bool" where
  "valid_route_grants grants primary_route primary_classes primary_provenance =
     (grants = []
      \<or> list_all (\<lambda>g. rg_route g \<noteq> [] \<and> classes_are_canonical (rg_classes g)) grants
        \<and> strictly_increasing (map rg_route grants)
        \<and> list_ex (\<lambda>g. rg_route g = primary_route \<and> rg_classes g = primary_classes
                     \<and> rg_provenance g = primary_provenance) grants)"

definition validate_suites :: "crypto_suite list \<Rightarrow> key_spec \<Rightarrow> unit result" where
  "validate_suites suites spec =
     (if suites = [] \<or> length suites > 4 \<or> \<not> distinct suites
         \<or> list_ex (\<lambda>s. suite_key_spec s \<noteq> spec) suites
      then Inl (err SuiteNotAllowed) else Inr ())"

definition validate_limits :: "approval_limits \<Rightarrow> unit result" where
  "validate_limits l =
     (if max_operations l = 0 \<or> max_signatures l = 0 then Inl (err LimitExceededOperations)
      else if list_ex (\<lambda>w. sw_maximum w = 0 \<or> sw_duration w = 0)
                (operation_rate_limits l @ signature_rate_limits l)
              \<or> list_ex (\<lambda>v. vl_asset v = [] \<or> list_ex (\<lambda>w. vw_duration w = 0) (vl_windows v))
                  (value_limits l)
      then Inl (err LimitExceededRate) else Inr ())"

definition subject_selector_ok :: "approval_terms \<Rightarrow> bool" where
  "subject_selector_ok t =
     (case (at_subject t, at_selector t) of
        (PetalSubject package_hash route _, PetalSelector selector_hash selector_route classes grants _) \<Rightarrow>
          package_hash = selector_hash \<and> route = selector_route \<and> classes_are_canonical classes
          \<and> valid_route_grants grants selector_route classes (at_provenance_digest t)
      | (_, ExactSelector payloads hashes) \<Rightarrow>
          payloads \<noteq> [] \<and> hashes \<noteq> [] \<and> max_operations (at_limits t) = 1
          \<and> max_signatures (at_limits t) = of_nat (length hashes)
      | _ \<Rightarrow> False)"

definition terms_validate :: "approval_terms \<Rightarrow> unit result" where
  "terms_validate t =
     rbind (key_ref_validate (at_key_ref t)) (\<lambda>_.
     rbind (validate_suites (at_suites t) (kr_key_spec (at_key_ref t))) (\<lambda>_.
     rbind (validate_limits (at_limits t)) (\<lambda>_.
     if at_expires_at_ms t \<le> at_not_before_ms t \<or> at_issued_at_ms t > at_expires_at_ms t
     then Inl (err MalformedFrame)
     else if subject_selector_ok t then Inr () else Inl (err SelectorMismatch))))"

subsection \<open>Serialisation and identifier\<close>

fun subject_json :: "approval_subject \<Rightarrow> json" where
  "subject_json (PetalSubject p r a) =
     JObj [(''kind'', JStr ''petal''), (''package_hash'', JStr p), (''route'', JStr r),
           (''agent_id'', jopt JStr a)]"
| "subject_json (CliSubject c k) =
     JObj [(''kind'', JStr ''cli''), (''client_id'', JStr c), (''command_class'', JStr k)]"
| "subject_json (SystemSubject c k) =
     JObj [(''kind'', JStr ''system''), (''component_id'', JStr c), (''operation_class'', JStr k)]"

fun assurance_json :: "claim_assurance_level \<Rightarrow> json" where
  "assurance_json MachineAsserted = JStr ''machine_asserted''"
| "assurance_json ProofVerified = JStr ''proof_verified''"
| "assurance_json InvariantAttested = JStr ''invariant_attested''"

definition grant_json :: "petal_route_grant \<Rightarrow> json" where
  "grant_json g =
     JObj [(''route'', JStr (rg_route g)),
           (''allowed_operation_classes'', JArr (map JStr (rg_classes g))),
           (''provenance_digest'', JStr (rg_provenance g))]"

fun selector_json :: "approval_selector \<Rightarrow> json" where
  "selector_json (ExactSelector ps hs) =
     JObj [(''kind'', JStr ''exact''), (''ordered_payload_digests'', JArr (map JStr ps)),
           (''ordered_hashes'', JArr (map JStr hs))]"
| "selector_json (PetalSelector p r cs gs a) =
     JObj ([(''kind'', JStr ''petal''), (''package_hash'', JStr p), (''route'', JStr r),
            (''allowed_operation_classes'', JArr (map JStr cs))]
           @ (if gs = [] then [] else [(''route_grants'', JArr (map grant_json gs))])
           @ [(''required_claim_assurance'', assurance_json a)])"

definition window_json :: "sliding_window \<Rightarrow> json" where
  "window_json w = JObj [(''maximum'', JDec (sw_maximum w)), (''duration_ms'', JDec (sw_duration w))]"

definition value_window_json :: "value_window \<Rightarrow> json" where
  "value_window_json w =
     JObj [(''maximum'', JDec256 (vw_maximum w)), (''duration_ms'', JDec (vw_duration w))]"

definition value_limit_json :: "value_limit \<Rightarrow> json" where
  "value_limit_json v =
     JObj [(''asset'', JObj [(''chain'', JStr (vl_chain v)), (''asset'', JStr (vl_asset v))]),
           (''lifetime'', JDec256 (vl_lifetime v)),
           (''rolling_windows'', JArr (map value_window_json (vl_windows v)))]"

definition limits_json :: "approval_limits \<Rightarrow> json" where
  "limits_json l =
     JObj [(''max_operations'', JDec (max_operations l)), (''max_signatures'', JDec (max_signatures l)),
           (''operation_rate_limits'', JArr (map window_json (operation_rate_limits l))),
           (''signature_rate_limits'', JArr (map window_json (signature_rate_limits l))),
           (''value_limits'', JArr (map value_limit_json (value_limits l)))]"

fun activation_json :: "activation_mode \<Rightarrow> json" where
  "activation_json BootBound = JObj [(''kind'', JStr ''boot_bound'')]"
| "activation_json (DurableLocal tier until) =
     JObj [(''kind'', JStr ''durable_local''), (''provider_tier'', JStr tier),
           (''maximum_rearm_until_ms'', JDec until)]"
| "activation_json BackendManaged = JObj [(''kind'', JStr ''backend_managed'')]"

definition terms_json :: "approval_terms \<Rightarrow> json" where
  "terms_json t =
     JObj [(''subject'', subject_json (at_subject t)), (''wallet_id'', JStr (at_wallet_id t)),
           (''key_ref'', key_ref_json (at_key_ref t)),
           (''allowed_crypto_suites'', JArr (map suite_json (at_suites t))),
           (''selector'', selector_json (at_selector t)), (''limits'', limits_json (at_limits t)),
           (''activation_mode'', activation_json (at_activation_mode t)),
           (''wallet_revocation_epoch'', JDec (at_revocation_epoch t)),
           (''policy_version'', JDec (at_policy_version t)),
           (''policy_digest'', JStr (at_policy_digest t)),
           (''provenance_digest'', JStr (at_provenance_digest t)),
           (''request_nonce'', JStr (at_request_nonce t)),
           (''issued_at_ms'', JDec (at_issued_at_ms t)),
           (''not_before_ms'', JDec (at_not_before_ms t)),
           (''expires_at_ms'', JDec (at_expires_at_ms t)),
           (''renewal_of'', jopt JStr (at_renewal_of t))]"

definition canonical_bytes :: "prims \<Rightarrow> approval_terms \<Rightarrow> bytes result" where
  "canonical_bytes P t = rbind (terms_validate t) (\<lambda>_. Inr (p_jcs P (terms_json t)))"

definition APPROVAL_DOMAIN :: string where
  "APPROVAL_DOMAIN = ''bloom-sealed-approval-terms/v1''"

definition approval_id_of :: "prims \<Rightarrow> approval_terms \<Rightarrow> digest32 result" where
  "approval_id_of P t =
     rbind (canonical_bytes P t) (\<lambda>b. Inr (p_sha256 P (str_bytes APPROVAL_DOMAIN @ b)))"

subsection \<open>Lemmas\<close>

lemma strictly_increasing_distinct:
  "strictly_increasing xs \<Longrightarrow> distinct xs \<and> sorted xs" for xs :: "'a::linorder list"
proof (induction xs rule: strictly_increasing.induct)
  case (1 x y zs)
  then have IH: "distinct (y # zs)" "sorted (y # zs)" and xy: "x < y" by auto
  then have "\<forall>z\<in>set (y # zs). x < z" by (auto intro: less_le_trans)
  with IH show ?case by fastforce
qed auto

lemma grant_json_inject [simp]: "grant_json a = grant_json b \<longleftrightarrow> a = b"
  by (auto simp: grant_json_def)

lemma map_grant_json_inject [simp]: "map grant_json a = map grant_json b \<longleftrightarrow> a = b"
  by (rule map_inject_iff) simp

lemma assurance_json_inject [simp]: "assurance_json a = assurance_json b \<longleftrightarrow> a = b"
  by (cases a; cases b) simp_all

lemma subject_json_inject [simp]: "subject_json a = subject_json b \<longleftrightarrow> a = b"
  by (cases a; cases b) auto

lemma selector_json_inject [simp]: "selector_json a = selector_json b \<longleftrightarrow> a = b"
  by (cases a; cases b) auto

lemma window_json_inject [simp]: "window_json a = window_json b \<longleftrightarrow> a = b"
  by (auto simp: window_json_def)

lemma value_window_json_inject [simp]: "value_window_json a = value_window_json b \<longleftrightarrow> a = b"
  by (auto simp: value_window_json_def)

lemma map_window_inject [simp]:
  "map window_json a = map window_json b \<longleftrightarrow> a = b"
  "map value_window_json c = map value_window_json d \<longleftrightarrow> c = d"
  by (rule map_inject_iff, simp)+

lemma value_limit_json_inject [simp]: "value_limit_json a = value_limit_json b \<longleftrightarrow> a = b"
  by (auto simp: value_limit_json_def)

lemma map_value_limit_inject [simp]: "map value_limit_json a = map value_limit_json b \<longleftrightarrow> a = b"
  by (rule map_inject_iff) simp

lemma limits_json_inject [simp]: "limits_json a = limits_json b \<longleftrightarrow> a = b"
  by (auto simp: limits_json_def)

lemma activation_json_inject [simp]: "activation_json a = activation_json b \<longleftrightarrow> a = b"
  by (cases a; cases b) auto

lemma terms_json_inject [simp]: "terms_json a = terms_json b \<longleftrightarrow> a = b"
  by (auto simp: terms_json_def)

lemma terms_validate_ok:
  "terms_validate t = Inr () \<longleftrightarrow>
     key_ref_validate (at_key_ref t) = Inr ()
     \<and> validate_suites (at_suites t) (kr_key_spec (at_key_ref t)) = Inr ()
     \<and> validate_limits (at_limits t) = Inr ()
     \<and> at_not_before_ms t < at_expires_at_ms t \<and> at_issued_at_ms t \<le> at_expires_at_ms t
     \<and> subject_selector_ok t"
  by (auto simp: terms_validate_def rbind_Inr_iff not_le not_less)

lemma approval_id_of_ok:
  "approval_id_of P t = Inr d \<longleftrightarrow>
     terms_validate t = Inr () \<and> d = p_sha256 P (str_bytes APPROVAL_DOMAIN @ p_jcs P (terms_json t))"
  by (auto simp: approval_id_of_def canonical_bytes_def rbind_Inr_iff)

end
