(* ===== verification/Sign_Request.thy ===== *)
theory Sign_Request
  imports Approval
begin

text \<open>
  Sign requests: \<open>crates/bloom-signer-api/src/signing.rs\<close>, the payload limits of
  \<open>crates/bloom-signer-api/src/codec.rs\<close> and the retry binding of
  \<open>crates/bloom-signer/src/engine.rs\<close>. A request names an operation (stable across retries) and an
  attempt (one message of Broker). The operation identity, the attempt preimage and the
  retry binding are three projections of the request; the lemmas at the end say which fields
  each of them fixes.
\<close>

definition MAX_ED25519_MESSAGE_BYTES :: nat where
  "MAX_ED25519_MESSAGE_BYTES = 1232"

datatype selector_kind = SelExact | SelPetal

record sign_identity =
  id_operation_id :: operation_id
  id_approval_id :: digest32
  id_key_ref :: key_ref
  id_suite :: crypto_suite
  id_payload_digests :: "digest32 list"
  id_hashes :: "digest32 list"
  id_petal_use_claim :: "digest32 option"
  id_claim_assurance :: "digest32 option"
  id_policy_version :: u64
  id_policy_digest :: digest32

record unsigned_request =
  sr_schema :: token
  sr_attempt_id :: digest32
  sr_operation_id :: operation_id
  sr_operation_digest :: digest32
  sr_attempt_digest :: digest32
  sr_audience :: token
  sr_issuer_service_id :: token
  sr_issuer_boot_epoch :: string
  sr_broker_key_id :: token
  sr_approval_id :: digest32
  sr_wallet_id :: token
  sr_key_ref :: key_ref
  sr_suite :: crypto_suite
  sr_selector_kind :: selector_kind
  sr_payload_digests :: "digest32 list"
  sr_hashes :: "digest32 list"
  sr_messages :: "bytes list"
  sr_signature_count :: u64
  sr_petal_use_claim :: "digest32 option"
  sr_claim_assurance :: "digest32 option"
  sr_policy_version :: u64
  sr_policy_digest :: digest32
  sr_validation_receipt :: digest32
  sr_issued_at_ms :: u64
  sr_not_before_ms :: u64
  sr_expires_at_ms :: u64

record sign_request =
  req_unsigned :: unsigned_request
  req_signature :: bytes

fun selector_kind_json :: "selector_kind \<Rightarrow> json" where
  "selector_kind_json SelExact = JStr ''exact''"
| "selector_kind_json SelPetal = JStr ''petal''"

definition operation_identity :: "unsigned_request \<Rightarrow> sign_identity" where
  "operation_identity u =
     \<lparr>id_operation_id = sr_operation_id u, id_approval_id = sr_approval_id u,
      id_key_ref = sr_key_ref u, id_suite = sr_suite u,
      id_payload_digests = sr_payload_digests u, id_hashes = sr_hashes u,
      id_petal_use_claim = sr_petal_use_claim u, id_claim_assurance = sr_claim_assurance u,
      id_policy_version = sr_policy_version u, id_policy_digest = sr_policy_digest u\<rparr>"

definition identity_json :: "sign_identity \<Rightarrow> json" where
  "identity_json i =
     JObj [(''operation_id'', JStr (id_operation_id i)), (''approval_id'', JStr (id_approval_id i)),
           (''key_ref'', key_ref_json (id_key_ref i)), (''crypto_suite'', suite_json (id_suite i)),
           (''ordered_payload_digests'', JArr (map JStr (id_payload_digests i))),
           (''ordered_hashes'', JArr (map JStr (id_hashes i))),
           (''petal_use_claim_digest'', jopt JStr (id_petal_use_claim i)),
           (''claim_assurance_digest'', jopt JStr (id_claim_assurance i)),
           (''policy_version'', JDec (id_policy_version i)),
           (''policy_digest'', JStr (id_policy_digest i))]"

definition SIGN_OPERATION_DOMAIN :: string where
  "SIGN_OPERATION_DOMAIN = ''bloom-sign-operation/v1''"

definition identity_digest :: "prims \<Rightarrow> sign_identity \<Rightarrow> digest32" where
  "identity_digest P i = p_sha256 P (str_bytes SIGN_OPERATION_DOMAIN @ p_jcs P (identity_json i))"

text \<open>The serialised request: every field, with the messages left out when there are none
  (\<open>skip_serializing_if\<close>).\<close>

definition request_fields :: "unsigned_request \<Rightarrow> (string \<times> json) list" where
  "request_fields u =
     [(''schema'', JStr (sr_schema u)), (''attempt_id'', JStr (sr_attempt_id u)),
      (''operation_id'', JStr (sr_operation_id u)),
      (''operation_digest'', JStr (sr_operation_digest u)),
      (''attempt_digest'', JStr (sr_attempt_digest u)), (''audience'', JStr (sr_audience u)),
      (''issuer_service_id'', JStr (sr_issuer_service_id u)),
      (''issuer_boot_epoch'', JStr (sr_issuer_boot_epoch u)),
      (''broker_signing_key_id'', JStr (sr_broker_key_id u)),
      (''approval_id'', JStr (sr_approval_id u)), (''wallet_id'', JStr (sr_wallet_id u)),
      (''key_ref'', key_ref_json (sr_key_ref u)), (''crypto_suite'', suite_json (sr_suite u)),
      (''selector_kind'', selector_kind_json (sr_selector_kind u)),
      (''ordered_payload_digests'', JArr (map JStr (sr_payload_digests u))),
      (''ordered_hashes'', JArr (map JStr (sr_hashes u)))]
     @ (if sr_messages u = [] then []
        else [(''ordered_messages'', JArr (map JBytes (sr_messages u)))])
     @ [(''signature_count'', JDec (sr_signature_count u)),
        (''petal_use_claim_digest'', jopt JStr (sr_petal_use_claim u)),
        (''claim_assurance_digest'', jopt JStr (sr_claim_assurance u)),
        (''policy_version'', JDec (sr_policy_version u)),
        (''policy_digest'', JStr (sr_policy_digest u)),
        (''validation_receipt_digest'', JStr (sr_validation_receipt u)),
        (''issued_at_ms'', JDec (sr_issued_at_ms u)),
        (''not_before_ms'', JDec (sr_not_before_ms u)),
        (''expires_at_ms'', JDec (sr_expires_at_ms u))]"

definition attempt_preimage :: "prims \<Rightarrow> unsigned_request \<Rightarrow> bytes" where
  "attempt_preimage P u = p_jcs P (JObj (obj_remove [''attempt_digest''] (request_fields u)))"

definition computed_attempt_digest :: "prims \<Rightarrow> unsigned_request \<Rightarrow> digest32" where
  "computed_attempt_digest P u = p_sha256 P (attempt_preimage P u)"

definition retry_permitted_fields :: "string list" where
  "retry_permitted_fields =
     [''attempt_id'', ''attempt_digest'', ''issuer_boot_epoch'', ''issued_at_ms'', ''not_before_ms'',
      ''expires_at_ms'']"

definition SIGNER_RETRY_BINDING_DOMAIN :: string where
  "SIGNER_RETRY_BINDING_DOMAIN = ''bloom-signer-retry-binding/v1''"

definition retry_binding_digest :: "prims \<Rightarrow> unsigned_request \<Rightarrow> digest32" where
  "retry_binding_digest P u =
     p_sha256 P (str_bytes SIGNER_RETRY_BINDING_DOMAIN
                 @ p_jcs P (JObj (obj_remove retry_permitted_fields (request_fields u))))"

definition message_bound :: "prims \<Rightarrow> bytes \<Rightarrow> digest32 \<Rightarrow> digest32 \<Rightarrow> bool" where
  "message_bound P message ordered_hash payload_digest =
     (if message = [] \<or> length message > MAX_ED25519_MESSAGE_BYTES then False
      else p_sha256 P message = ordered_hash \<and> p_sha256 P message = payload_digest)"

definition messages_are_bound :: "prims \<Rightarrow> unsigned_request \<Rightarrow> bool" where
  "messages_are_bound P u =
     (case sr_suite u of
        Ed25519Message \<Rightarrow>
          length (sr_messages u) = length (sr_hashes u)
          \<and> length (sr_payload_digests u) = length (sr_hashes u)
          \<and> list_all (\<lambda>(m, h, p). message_bound P m h p)
              (zip (sr_messages u) (zip (sr_hashes u) (sr_payload_digests u)))
      | _ \<Rightarrow> sr_messages u = [])"

definition validate_shape :: "prims \<Rightarrow> sign_request \<Rightarrow> unit result" where
  "validate_shape P r =
     (let u = req_unsigned r in
      if sr_schema u \<noteq> ''bloom.sign-request/1'' \<or> sr_audience u \<noteq> ''bloom-signer''
         \<or> sr_expires_at_ms u \<le> sr_not_before_ms u
         \<or> sr_issued_at_ms u > sr_expires_at_ms u
         \<or> saturating_sub (sr_expires_at_ms u) (sr_issued_at_ms u) > 30000
         \<or> sr_signature_count u \<noteq> of_nat (length (sr_hashes u))
         \<or> \<not> messages_are_bound P u
      then Inl (err MalformedFrame)
      else if sr_operation_digest u \<noteq> identity_digest P (operation_identity u)
              \<or> sr_attempt_digest u \<noteq> computed_attempt_digest P u
      then Inl (err OperationIdConflict)
      else Inr ())"

subsection \<open>Payload limits\<close>

definition SINGLE_PAYLOAD_MAX_BYTES :: nat where
  "SINGLE_PAYLOAD_MAX_BYTES = 256 * 1024"

definition BATCH_CHILD_MAX_BYTES :: nat where
  "BATCH_CHILD_MAX_BYTES = 64 * 1024"

definition BATCH_AGGREGATE_MAX_BYTES :: nat where
  "BATCH_AGGREGATE_MAX_BYTES = 512 * 1024"

definition BATCH_CHILD_MAX_COUNT :: nat where
  "BATCH_CHILD_MAX_COUNT = 32"

definition HPKE_ENVELOPE_MAX_BYTES :: nat where
  "HPKE_ENVELOPE_MAX_BYTES = 4 * 1024"

datatype signing_payloads = Single bytes | Batch "bytes list"

text \<open>The loop over the batch's children. \<open>usize\<close> is 64 bits wide.\<close>

fun batch_aggregate :: "u64 \<Rightarrow> bytes list \<Rightarrow> u64 result" where
  "batch_aggregate aggregate [] = Inr aggregate"
| "batch_aggregate aggregate (child # children) =
     (if length child > BATCH_CHILD_MAX_BYTES then Inl (err LimitExceededFrame)
      else case checked_add aggregate (of_nat (length child)) of
        None \<Rightarrow> Inl (err LimitExceededFrame)
      | Some next_total \<Rightarrow> batch_aggregate next_total children)"

definition payloads_validate :: "signing_payloads \<Rightarrow> unit result" where
  "payloads_validate p =
     (case p of
        Single payload \<Rightarrow>
          (if length payload > SINGLE_PAYLOAD_MAX_BYTES then Inl (err LimitExceededFrame) else Inr ())
      | Batch children \<Rightarrow>
          (if children = [] \<or> length children > BATCH_CHILD_MAX_COUNT
           then Inl (err LimitExceededFrame)
           else rbind (batch_aggregate 0 children) (\<lambda>aggregate.
             if unat aggregate > BATCH_AGGREGATE_MAX_BYTES then Inl (err LimitExceededFrame)
             else Inr ())))"

definition hpke_envelope_validate :: "bytes \<Rightarrow> bytes \<Rightarrow> unit result" where
  "hpke_envelope_validate kem_output ciphertext =
     (case checked_add (of_nat (length kem_output) :: u64) (of_nat (length ciphertext)) of
        None \<Rightarrow> Inl (err LimitExceededFrame)
      | Some envelope_total \<Rightarrow>
          (if unat envelope_total > HPKE_ENVELOPE_MAX_BYTES then Inl (err LimitExceededFrame) else Inr ()))"

subsection \<open>Lemmas\<close>

lemma selector_kind_json_inject [simp]: "selector_kind_json a = selector_kind_json b \<longleftrightarrow> a = b"
  by (cases a; cases b) simp_all

lemma identity_json_inject [simp]: "identity_json a = identity_json b \<longleftrightarrow> a = b"
  by (auto simp: identity_json_def)

definition retry_view :: "unsigned_request \<Rightarrow> unsigned_request" where
  "retry_view u = u\<lparr>sr_attempt_id := [], sr_attempt_digest := [], sr_issuer_boot_epoch := [],
                    sr_issued_at_ms := 0, sr_not_before_ms := 0, sr_expires_at_ms := 0\<rparr>"

lemma retry_fields_eq:
  "obj_remove retry_permitted_fields (request_fields u)
     = obj_remove retry_permitted_fields (request_fields v) \<longleftrightarrow> retry_view u = retry_view v"
  by (cases u; cases v)
    (auto simp: obj_remove_def request_fields_def retry_permitted_fields_def retry_view_def)

lemma attempt_fields_eq:
  "obj_remove [''attempt_digest''] (request_fields u)
     = obj_remove [''attempt_digest''] (request_fields v) \<longleftrightarrow>
   u\<lparr>sr_attempt_digest := []\<rparr> = v\<lparr>sr_attempt_digest := []\<rparr>"
  by (cases u; cases v) (auto simp: obj_remove_def request_fields_def)

lemma validate_shape_ok:
  "validate_shape P r = Inr () \<longleftrightarrow>
     (let u = req_unsigned r in
      sr_schema u = ''bloom.sign-request/1'' \<and> sr_audience u = ''bloom-signer''
      \<and> sr_not_before_ms u < sr_expires_at_ms u \<and> sr_issued_at_ms u \<le> sr_expires_at_ms u
      \<and> saturating_sub (sr_expires_at_ms u) (sr_issued_at_ms u) \<le> 30000
      \<and> sr_signature_count u = of_nat (length (sr_hashes u)) \<and> messages_are_bound P u
      \<and> sr_operation_digest u = identity_digest P (operation_identity u)
      \<and> sr_attempt_digest u = computed_attempt_digest P u)"
  by (auto simp: validate_shape_def Let_def not_le not_less)

lemma batch_aggregate_sum:
  assumes "unat acc + sum_list (map length xs) < 2 ^ 64"
  shows "batch_aggregate acc xs =
     (if list_all (\<lambda>c. length c \<le> BATCH_CHILD_MAX_BYTES) xs
      then Inr (acc + of_nat (sum_list (map length xs))) else Inl (err LimitExceededFrame))"
  using assms
proof (induction acc xs rule: batch_aggregate.induct)
  case (2 acc c cs)
  have c: "unat (of_nat (length c) :: u64) = length c"
    using "2.prems" by (simp add: unat_of_nat)
  then have ca: "checked_add acc (of_nat (length c)) = Some (acc + of_nat (length c))"
    using "2.prems" by (simp add: checked_add_def)
  have "unat (acc + of_nat (length c)) = unat acc + length c"
    using checked_add_SomeD [OF ca] c by simp
  with "2.prems" "2.IH" [OF _ ca] show ?case
    by (auto simp: ca algebra_simps)
qed simp

end
