(* ===== verification/Petal_Key.thy ===== *)
theory Petal_Key
  imports Approval
begin

text \<open>
  Petal key scopes: \<open>crates/bloom-signer-api/src/petal_key.rs\<close>. A scope bounds what a derived
  session key may be approved for. Its stable digest leaves out the executing package and
  route; the request digest covers them.
\<close>

definition ROUTE_MAX_BYTES :: nat where
  "ROUTE_MAX_BYTES = 2 * 1024"

definition AGENT_ID_MAX_BYTES :: nat where
  "AGENT_ID_MAX_BYTES = 256"

definition LINEAGE_PREFIX :: string where
  "LINEAGE_PREFIX = ''pln1_''"

record petal_scope =
  ps_wallet_id :: token
  ps_parent_key_ref :: key_ref
  ps_package_hash :: digest32
  ps_route :: string
  ps_lineage_id :: string
  ps_key_slot :: token
  ps_routes :: "string list"
  ps_classes :: "token list"
  ps_suites :: "crypto_suite list"
  ps_maximum_lifetime_ms :: u64
  ps_custody_operation_id :: operation_id

definition is_base32_char :: "char \<Rightarrow> bool" where
  "is_base32_char c = (is_ascii_lowercase c \<or> (50 \<le> (of_char c :: nat) \<and> (of_char c :: nat) \<le> 55))"

definition validate_lineage_id :: "string \<Rightarrow> unit result" where
  "validate_lineage_id value =
     (case strip_prefix LINEAGE_PREFIX value of
        None \<Rightarrow> Inl (err MalformedFrame)
      | Some encoded \<Rightarrow>
         (if length encoded \<noteq> 52 \<or> \<not> list_all is_base32_char encoded
          then Inl (err MalformedFrame) else Inr ()))"

definition validate_display_identity :: "string \<Rightarrow> nat \<Rightarrow> unit result" where
  "validate_display_identity value maximum_bytes =
     (if value = [] \<or> length value > maximum_bytes \<or> has_control value
      then Inl (err MalformedFrame) else Inr ())"

definition scope_validate :: "petal_scope \<Rightarrow> unit result" where
  "scope_validate s =
     rbind (key_ref_validate (ps_parent_key_ref s)) (\<lambda>_.
     rbind (validate_display_identity (ps_route s) ROUTE_MAX_BYTES) (\<lambda>_.
     rbind (validate_lineage_id (ps_lineage_id s)) (\<lambda>_.
     rbind (validate_display_identity (ps_key_slot s) AGENT_ID_MAX_BYTES) (\<lambda>_.
     if ps_routes s = [] \<or> \<not> distinct (ps_routes s)
        \<or> ps_classes s = [] \<or> \<not> distinct (ps_classes s)
     then Inl (err MalformedFrame)
     else rbind (for_each (\<lambda>route. validate_display_identity route ROUTE_MAX_BYTES) (ps_routes s)) (\<lambda>_.
     if ps_suites s = [] \<or> length (ps_suites s) > length all_suites
        \<or> \<not> distinct (ps_suites s)
        \<or> list_ex (\<lambda>suite. suite_key_spec suite \<noteq> kr_key_spec (ps_parent_key_ref s)) (ps_suites s)
     then Inl (err SuiteNotAllowed)
     else if ps_maximum_lifetime_ms s = 0 then Inl (err MalformedFrame)
     else Inr ())))))"

definition scope_stable_json :: "petal_scope \<Rightarrow> json" where
  "scope_stable_json s =
     JObj [(''wallet_id'', JStr (ps_wallet_id s)),
           (''parent_key_ref'', key_ref_json (ps_parent_key_ref s)),
           (''lineage_id'', JStr (ps_lineage_id s)), (''key_slot'', JStr (ps_key_slot s)),
           (''allowed_routes'', JArr (map JStr (ps_routes s))),
           (''allowed_operation_classes'', JArr (map JStr (ps_classes s))),
           (''allowed_crypto_suites'', JArr (map suite_json (ps_suites s))),
           (''maximum_lifetime_ms'', JDec (ps_maximum_lifetime_ms s)),
           (''custody_operation_id'', JStr (ps_custody_operation_id s))]"

definition scope_json :: "petal_scope \<Rightarrow> json" where
  "scope_json s =
     JObj [(''wallet_id'', JStr (ps_wallet_id s)),
           (''parent_key_ref'', key_ref_json (ps_parent_key_ref s)),
           (''package_hash'', JStr (ps_package_hash s)), (''route'', JStr (ps_route s)),
           (''lineage_id'', JStr (ps_lineage_id s)), (''key_slot'', JStr (ps_key_slot s)),
           (''allowed_routes'', JArr (map JStr (ps_routes s))),
           (''allowed_operation_classes'', JArr (map JStr (ps_classes s))),
           (''allowed_crypto_suites'', JArr (map suite_json (ps_suites s))),
           (''maximum_lifetime_ms'', JDec (ps_maximum_lifetime_ms s)),
           (''custody_operation_id'', JStr (ps_custody_operation_id s))]"

definition PETAL_KEY_SCOPE_DOMAIN :: string where
  "PETAL_KEY_SCOPE_DOMAIN = ''bloom-petal-key-scope/v2''"

definition PETAL_KEY_REQUEST_DOMAIN :: string where
  "PETAL_KEY_REQUEST_DOMAIN = ''bloom-petal-key-request/v2''"

definition scope_digest :: "prims \<Rightarrow> petal_scope \<Rightarrow> digest32 result" where
  "scope_digest P s =
     rbind (scope_validate s) (\<lambda>_.
       Inr (p_sha256 P (str_bytes PETAL_KEY_SCOPE_DOMAIN @ p_jcs P (scope_stable_json s))))"

definition scope_request_digest :: "prims \<Rightarrow> petal_scope \<Rightarrow> digest32 result" where
  "scope_request_digest P s =
     rbind (scope_validate s) (\<lambda>_.
       Inr (p_sha256 P (str_bytes PETAL_KEY_REQUEST_DOMAIN @ p_jcs P (scope_json s))))"

subsection \<open>Lemmas\<close>

lemma scope_validate_ok:
  "scope_validate s = Inr () \<Longrightarrow>
     key_ref_validate (ps_parent_key_ref s) = Inr () \<and> validate_lineage_id (ps_lineage_id s) = Inr ()
     \<and> ps_routes s \<noteq> [] \<and> distinct (ps_routes s) \<and> ps_classes s \<noteq> [] \<and> distinct (ps_classes s)
     \<and> ps_suites s \<noteq> [] \<and> distinct (ps_suites s)
     \<and> (\<forall>suite\<in>set (ps_suites s). suite_key_spec suite = kr_key_spec (ps_parent_key_ref s))
     \<and> 0 < ps_maximum_lifetime_ms s"
  by (auto simp: scope_validate_def rbind_Inr_iff list_ex_iff word_neq_0_conv split: if_splits)

lemma scope_json_inject [simp]: "scope_json a = scope_json b \<longleftrightarrow> a = b"
  by (cases a; cases b) (auto simp: scope_json_def)

lemma scope_stable_json_eq:
  "scope_stable_json a = scope_stable_json b \<longleftrightarrow>
     a\<lparr>ps_package_hash := [], ps_route := []\<rparr> = b\<lparr>ps_package_hash := [], ps_route := []\<rparr>"
  by (cases a; cases b) (auto simp: scope_stable_json_def)

end
