(* ===== verification/Surface.thy ===== *)
theory Surface
  imports Json
begin

text \<open>
  Ceremony surfaces: \<open>crates/bloom-signer-api/src/surface.rs\<close> and the commit-time surface check of
  \<open>crates/bloom-signer/src/engine.rs\<close>. A surface is either the fixed loopback origin or an
  \<open>https\<close> origin on the relay domain whose host is the relying-party identifier.
\<close>

definition LOCAL_CEREMONY_ORIGIN :: string where
  "LOCAL_CEREMONY_ORIGIN = ''http://localhost:18734''"

definition LOCAL_CEREMONY_RP_ID :: string where
  "LOCAL_CEREMONY_RP_ID = ''localhost''"

definition SURFACE_IDENTITY_SCHEMA :: string where
  "SURFACE_IDENTITY_SCHEMA = ''bloom.surface.identity.v1''"

definition SURFACE_IDENTITY_DOMAIN :: string where
  "SURFACE_IDENTITY_DOMAIN = ''bloom.surface.identity.v1'' @ [CHR 0x00]"

definition rp_label_ok :: "string \<Rightarrow> bool" where
  "rp_label_ok label =
     (label \<noteq> [] \<and> length label \<le> 63
      \<and> list_all (\<lambda>c. is_ascii_lowercase c \<or> is_ascii_digit c \<or> c = CHR ''-'') label
      \<and> is_ascii_alphanumeric (hd label) \<and> is_ascii_alphanumeric (last label))"

definition rp_id_new :: "string \<Rightarrow> string result" where
  "rp_id_new value =
     (if value = [] \<or> length value > 253
         \<or> list_ex (\<lambda>label. \<not> rp_label_ok label) (split_on CHR ''.'' value)
      then Inl (err MalformedFrame) else Inr value)"

record surface_identity =
  si_schema :: token
  si_surface_id :: token
  si_origin :: string
  si_rp_id :: string
  si_created_at_ms :: u64

record surface_ref =
  sf_surface_id :: token
  sf_identity_digest :: digest32

definition is_relay_char :: "char \<Rightarrow> bool" where
  "is_relay_char c = (is_ascii_lowercase c \<or> (50 \<le> (of_char c :: nat) \<and> (of_char c :: nat) \<le> 55))"

definition validate_remote_hostname :: "string \<Rightarrow> unit result" where
  "validate_remote_hostname hostname =
     (case strip_suffix ''.relay.bloom.directory'' hostname of
        None \<Rightarrow> Inl (err MalformedFrame)
      | Some label \<Rightarrow>
         (if length label \<noteq> 26 \<or> \<not> list_all is_relay_char label \<or> length hostname > 64
          then Inl (err MalformedFrame) else Inr ()))"

definition surface_local :: "u64 \<Rightarrow> surface_identity" where
  "surface_local created =
     \<lparr>si_schema = SURFACE_IDENTITY_SCHEMA, si_surface_id = ''local'',
      si_origin = LOCAL_CEREMONY_ORIGIN, si_rp_id = LOCAL_CEREMONY_RP_ID,
      si_created_at_ms = created\<rparr>"

definition surface_remote :: "string \<Rightarrow> u64 \<Rightarrow> surface_identity result" where
  "surface_remote hostname created =
     rbind (validate_remote_hostname hostname) (\<lambda>_.
     rbind (rp_id_new hostname) (\<lambda>rp.
       Inr \<lparr>si_schema = SURFACE_IDENTITY_SCHEMA, si_surface_id = ''remote'',
            si_origin = ''https://'' @ hostname, si_rp_id = rp, si_created_at_ms = created\<rparr>))"

definition surface_validate :: "surface_identity \<Rightarrow> unit result" where
  "surface_validate s =
     (if si_schema s \<noteq> SURFACE_IDENTITY_SCHEMA then Inl (err MalformedFrame)
      else if si_surface_id s = ''local'' \<and> si_origin s = LOCAL_CEREMONY_ORIGIN
              \<and> si_rp_id s = LOCAL_CEREMONY_RP_ID
      then Inr ()
      else if si_surface_id s = ''remote''
      then (case strip_prefix ''https://'' (si_origin s) of
              None \<Rightarrow> Inl (err MalformedFrame)
            | Some hostname \<Rightarrow>
                rbind (validate_remote_hostname hostname) (\<lambda>_.
                  ensure (si_rp_id s = hostname) (err MalformedFrame)))
      else Inl (err MalformedFrame))"

definition surface_json :: "surface_identity \<Rightarrow> json" where
  "surface_json s =
     JObj [(''schema'', JStr (si_schema s)), (''surface_id'', JStr (si_surface_id s)),
           (''origin'', JStr (si_origin s)), (''rp_id'', JStr (si_rp_id s)),
           (''created_at_ms'', JDec (si_created_at_ms s))]"

definition surface_reference :: "prims \<Rightarrow> surface_identity \<Rightarrow> surface_ref result" where
  "surface_reference P s =
     rbind (surface_validate s) (\<lambda>_.
       Inr \<lparr>sf_surface_id = si_surface_id s,
            sf_identity_digest =
              p_sha256 P (str_bytes SURFACE_IDENTITY_DOMAIN @ p_jcs P (surface_json s))\<rparr>)"

text \<open>The fixed identity of wallets from before surfaces existed; its validation cannot
  fail (\<open>legacy_local_surface_ok\<close>), as the \<open>expect\<close> of the source says.\<close>

definition legacy_local_surface :: "prims \<Rightarrow> surface_ref" where
  "legacy_local_surface P =
     (case surface_reference P (surface_local 0) of
        Inr r \<Rightarrow> r | Inl _ \<Rightarrow> \<lparr>sf_surface_id = [], sf_identity_digest = []\<rparr>)"

datatype surface_lifecycle = SurfActive | SurfAuthenticationOnly | SurfDisabled | SurfTombstoned

record surface_descriptor =
  sd_identity :: surface_identity
  sd_identity_digest :: digest32
  sd_lifecycle :: surface_lifecycle
  sd_lifecycle_revision :: u64

definition descriptor_reference :: "surface_descriptor \<Rightarrow> surface_ref" where
  "descriptor_reference d =
     \<lparr>sf_surface_id = si_surface_id (sd_identity d), sf_identity_digest = sd_identity_digest d\<rparr>"

definition surface_descriptor_validate :: "prims \<Rightarrow> surface_descriptor \<Rightarrow> unit result" where
  "surface_descriptor_validate P d =
     rbind (surface_reference P (sd_identity d)) (\<lambda>r.
       ensure (sf_identity_digest r = sd_identity_digest d) (err MalformedFrame))"

text \<open>The surface check inside an authority-committing transaction. The stored surface status is the
  list of installed surfaces, \<open>None\<close> when none was ever stored.\<close>

definition require_surface_at_commit ::
  "prims \<Rightarrow> surface_descriptor list option \<Rightarrow> surface_ref \<Rightarrow> bool \<Rightarrow> unit result" where
  "require_surface_at_commit P stored reference enrollment =
     (case stored of
        None \<Rightarrow>
          (if reference = legacy_local_surface P then Inr () else Inl (err UnauthenticatedPeer))
      | Some surfaces \<Rightarrow>
          (if list_ex (\<lambda>s. descriptor_reference s = reference
                  \<and> (sd_lifecycle s = SurfActive
                     \<or> \<not> enrollment \<and> sd_lifecycle s = SurfAuthenticationOnly)) surfaces
           then Inr () else Inl (err UnauthenticatedPeer)))"

subsection \<open>Lemmas\<close>

lemma remote_hostname_ok_iff:
  "validate_remote_hostname h = Inr () \<longleftrightarrow>
     (\<exists>label. h = label @ ''.relay.bloom.directory'' \<and> length label = 26 \<and> list_all is_relay_char label)"
proof (cases "strip_suffix ''.relay.bloom.directory'' h")
  case None
  then have "h \<noteq> label @ ''.relay.bloom.directory''" for label
    by (simp only: strip_suffix_None_iff) blast
  with None show ?thesis by (simp add: validate_remote_hostname_def)
next
  case (Some label)
  then have "h = label @ ''.relay.bloom.directory''" by (simp add: strip_suffix_Some_iff)
  with Some show ?thesis by (auto simp: validate_remote_hostname_def)
qed

lemma legacy_local_surface_ok: "surface_reference P (surface_local 0) = Inr (legacy_local_surface P)"
  by (simp add: legacy_local_surface_def surface_reference_def surface_validate_def surface_local_def)

lemma split_on_append_gen:
  "split_on sep (p @ sep # s) = split_on sep p @ split_on sep s"
  by (induction p) (auto split: list.splits)

end
