(* ===== verification/Derive.thy ===== *)
theory Derive
  imports Key_Types
begin

text \<open>
  Deterministic derivation: \<open>crates/bloom-signer-derive/src\<close>. The profile policy, the walk over
  child indices, BIP-32 secp256k1 and SLIP-10 Ed25519 derivation and the mnemonic front end.
  HMAC-SHA512, SHA-256, the scalar arithmetic of \<open>k256\<close>, the point encodings, NFKD and the
  \<open>bip39\<close> crate are parameters; where a lemma needs a documented property of one of them it is a
  hypothesis (\<open>scalar_laws\<close>: reduction and addition are those of the integers modulo the
  group order; an HMAC has 64 bytes).
\<close>

subsection \<open>Word-count policy\<close>

definition GENERATE_WORDS :: nat where
  "GENERATE_WORDS = 24"

definition IMPORT_WORDS :: "nat list" where
  "IMPORT_WORDS = [12, 15, 18, 21, 24]"

definition entropy_bytes_for_words :: "nat \<Rightarrow> nat option" where
  "entropy_bytes_for_words words =
     (if words = 12 then Some 16 else if words = 15 then Some 20 else if words = 18 then Some 24
      else if words = 21 then Some 28 else if words = 24 then Some 32 else None)"

definition SEED_BYTES :: nat where
  "SEED_BYTES = 64"

subsection \<open>Index allocation\<close>

text \<open>The loop of \<open>next_valid_index\<close>; \<open>None\<close> is the panic of the \<open>expect\<close> when the candidate is the
  largest \<open>u32\<close>.\<close>

function next_valid_from ::
  "(u32 \<Rightarrow> bool) \<Rightarrow> u32 \<Rightarrow> u32 list \<Rightarrow> (u32 \<times> u32 list) option" where
  "next_valid_from invalid candidate tombstones =
     (if invalid candidate
      then (case checked_add candidate 1 of
              None \<Rightarrow> None
            | Some next \<Rightarrow> next_valid_from invalid next (tombstones @ [candidate]))
      else Some (candidate, tombstones))"
  by pat_completeness auto
termination
proof (relation "measure (\<lambda>(_, c, _). 2 ^ 32 - unat c)")
  fix invalid :: "u32 \<Rightarrow> bool" and c :: u32 and ts :: "u32 list" and c' :: u32
  assume "checked_add c 1 = Some c'"
  then have "unat c' = Suc (unat c)" by (auto dest: checked_add_SomeD)
  moreover have "unat c' < 2 ^ 32" using unat_lt_power [of c'] by simp
  ultimately show "((invalid, c', ts @ [c]), (invalid, c, ts)) \<in> measure (\<lambda>(_, c, _). 2 ^ 32 - unat c)"
    by simp
qed simp

declare next_valid_from.simps [simp del]

definition next_valid_index :: "u32 \<Rightarrow> (u32 \<Rightarrow> bool) \<Rightarrow> (u32 \<times> u32 list) option" where
  "next_valid_index start invalid = next_valid_from invalid start []"

subsection \<open>Parameters of the derivations\<close>

definition HARDENED_OFFSET :: u32 where
  "HARDENED_OFFSET = 2 ^ 31"

record derive_prims =
  d_hmac_sha512 :: "bytes \<Rightarrow> bytes \<Rightarrow> bytes"
  d_sha256 :: "bytes \<Rightarrow> bytes"
  d_scalar_reduce :: "nat \<Rightarrow> nat"
  d_scalar_add :: "nat \<Rightarrow> nat \<Rightarrow> nat"
  d_secp_compressed :: "bytes \<Rightarrow> bytes"
  d_secp_spki :: "bytes \<Rightarrow> bytes"
  d_ed_public :: "bytes \<Rightarrow> bytes"

fun be_nat_from :: "nat \<Rightarrow> bytes \<Rightarrow> nat" where
  "be_nat_from acc [] = acc"
| "be_nat_from acc (b # bs) = be_nat_from (256 * acc + unat b) bs"

definition be_nat :: "bytes \<Rightarrow> nat" where
  "be_nat bs = be_nat_from 0 bs"

fun be_bytes :: "nat \<Rightarrow> nat \<Rightarrow> bytes" where
  "be_bytes 0 v = []"
| "be_bytes (Suc n) v = be_bytes n (v div 256) @ [of_nat (v mod 256)]"

definition u32_be_bytes :: "u32 \<Rightarrow> bytes" where
  "u32_be_bytes w = be_bytes 4 (unat w)"

definition ascii :: "string \<Rightarrow> bytes" where
  "ascii s = map (\<lambda>c. of_nat (of_char c)) s"

subsection \<open>BIP-32 secp256k1\<close>

datatype secp_derive_error = InvalidMasterKey | InvalidSeedLength | SecpInvalidIndex | InvalidChild

record derived_secp =
  dsec_private_key :: bytes
  dsec_chain_code :: bytes
  dsec_compressed :: bytes
  dsec_spki :: bytes
  dsec_fingerprint :: bytes
  dsec_path :: string

definition scalar_from_canonical :: "derive_prims \<Rightarrow> bytes \<Rightarrow> nat option" where
  "scalar_from_canonical D bs =
     (let reduced = d_scalar_reduce D (be_nat bs) in
      if be_bytes 32 reduced = bs then Some reduced else None)"

definition child_key_from_tweak ::
  "derive_prims \<Rightarrow> bytes \<Rightarrow> bytes \<Rightarrow> secp_derive_error + bytes" where
  "child_key_from_tweak D tweak parent_key =
     rbind (ok_or (scalar_from_canonical D tweak) InvalidChild) (\<lambda>tweak_scalar.
     rbind (ok_or (scalar_from_canonical D parent_key) InvalidMasterKey) (\<lambda>parent_scalar.
       let child = be_bytes 32 (d_scalar_add D tweak_scalar parent_scalar) in
       if list_all (\<lambda>b. b = 0) child then Inl InvalidChild else Inr child))"

definition child_from_digest ::
  "derive_prims \<Rightarrow> bytes \<Rightarrow> bytes \<Rightarrow> secp_derive_error + (bytes \<times> bytes)" where
  "child_from_digest D digest parent_key =
     rbind (child_key_from_tweak D (take 32 digest) parent_key) (\<lambda>k. Inr (k, drop 32 digest))"

definition master_secp256k1 ::
  "derive_prims \<Rightarrow> bytes \<Rightarrow> secp_derive_error + (bytes \<times> bytes)" where
  "master_secp256k1 D seed =
     (if length seed < 16 \<or> length seed > SEED_BYTES then Inl InvalidSeedLength
      else child_from_digest D (d_hmac_sha512 D (ascii ''Bitcoin seed'') seed) (replicate 32 0))"

definition secp_hardened_child ::
  "derive_prims \<Rightarrow> bytes \<times> bytes \<Rightarrow> u32 \<Rightarrow> secp_derive_error + (bytes \<times> bytes)" where
  "secp_hardened_child D parent index =
     (case parent of (parent_key, parent_code) \<Rightarrow>
      if index \<ge> HARDENED_OFFSET then Inl SecpInvalidIndex
      else child_from_digest D
             (d_hmac_sha512 D parent_code (0 # parent_key @ u32_be_bytes (index + HARDENED_OFFSET)))
             parent_key)"

definition describe_secp256k1 :: "derive_prims \<Rightarrow> bytes \<Rightarrow> derived_secp" where
  "describe_secp256k1 D private_key =
     (let spki = d_secp_spki D private_key in
      \<lparr>dsec_private_key = private_key, dsec_chain_code = replicate 32 0,
       dsec_compressed = d_secp_compressed D private_key, dsec_spki = spki,
       dsec_fingerprint = d_sha256 D spki, dsec_path = []\<rparr>)"

definition secp_non_hardened_child ::
  "derive_prims \<Rightarrow> bytes \<times> bytes \<Rightarrow> u32 \<Rightarrow> secp_derive_error + (bytes \<times> bytes)" where
  "secp_non_hardened_child D parent index =
     (case parent of (parent_key, parent_code) \<Rightarrow>
      if index \<ge> HARDENED_OFFSET then Inl SecpInvalidIndex
      else child_from_digest D
             (d_hmac_sha512 D parent_code
                (dsec_compressed (describe_secp256k1 D parent_key) @ u32_be_bytes index))
             parent_key)"

definition evm_path :: "u32 \<Rightarrow> u32 \<Rightarrow> string" where
  "evm_path account index =
     ''m/44'' @ [apos] @ ''/60'' @ [apos] @ ''/'' @ show_u32 account @ [apos] @ ''/0/'' @ show_u32 index"

definition derive_evm_account ::
  "derive_prims \<Rightarrow> bytes \<Rightarrow> u32 \<Rightarrow> u32 \<Rightarrow> secp_derive_error + derived_secp" where
  "derive_evm_account D seed account index =
     (if account \<ge> HARDENED_OFFSET \<or> index \<ge> HARDENED_OFFSET then Inl SecpInvalidIndex
      else
        rbind (master_secp256k1 D seed) (\<lambda>node.
        rbind (secp_hardened_child D node 44) (\<lambda>node.
        rbind (secp_hardened_child D node 60) (\<lambda>node.
        rbind (secp_hardened_child D node account) (\<lambda>node.
        rbind (secp_non_hardened_child D node 0) (\<lambda>node.
        rbind (secp_non_hardened_child D node index) (\<lambda>node.
          Inr ((describe_secp256k1 D (fst node))\<lparr>dsec_chain_code := snd node,
                dsec_path := evm_path account index\<rparr>))))))))"

subsection \<open>SLIP-10 Ed25519\<close>

datatype ed_derive_error = EdInvalidIndex | EdInvalidKey

record derived_ed =
  ded_private_key :: bytes
  ded_chain_code :: bytes
  ded_public_key :: bytes
  ded_spki :: bytes
  ded_fingerprint :: bytes
  ded_path :: string

definition PETAL_BRANCH :: u32 where
  "PETAL_BRANCH = 18735"

definition master_ed25519 :: "derive_prims \<Rightarrow> bytes \<Rightarrow> bytes \<times> bytes" where
  "master_ed25519 D seed =
     (let digest = d_hmac_sha512 D (ascii ''ed25519 seed'') seed in (take 32 digest, drop 32 digest))"

definition ed_hardened_child ::
  "derive_prims \<Rightarrow> bytes \<times> bytes \<Rightarrow> u32 \<Rightarrow> ed_derive_error + (bytes \<times> bytes)" where
  "ed_hardened_child D parent index =
     (case parent of (parent_key, parent_code) \<Rightarrow>
      if index \<ge> HARDENED_OFFSET then Inl EdInvalidIndex
      else let digest =
             d_hmac_sha512 D parent_code (0 # parent_key @ u32_be_bytes (index + HARDENED_OFFSET))
           in Inr (take 32 digest, drop 32 digest))"

definition ed25519_spki_der :: "bytes \<Rightarrow> bytes" where
  "ed25519_spki_der public_key =
     [0x30, 0x2a, 0x30, 0x05, 0x06, 0x03, 0x2b, 0x65, 0x70, 0x03, 0x21, 0x00] @ public_key"

definition describe_ed25519 :: "derive_prims \<Rightarrow> bytes \<Rightarrow> derived_ed" where
  "describe_ed25519 D private_key =
     (let public_key = d_ed_public D private_key; spki = ed25519_spki_der public_key in
      \<lparr>ded_private_key = private_key, ded_chain_code = replicate 32 0, ded_public_key = public_key,
       ded_spki = spki, ded_fingerprint = d_sha256 D spki, ded_path = []\<rparr>)"

definition solana_path :: "u32 \<Rightarrow> string" where
  "solana_path account =
     ''m/44'' @ [apos] @ ''/501'' @ [apos] @ ''/'' @ show_u32 account @ [apos] @ ''/0'' @ [apos]"

definition derive_solana_account ::
  "derive_prims \<Rightarrow> bytes \<Rightarrow> u32 \<Rightarrow> ed_derive_error + derived_ed" where
  "derive_solana_account D seed account =
     (if account \<ge> HARDENED_OFFSET then Inl EdInvalidIndex
      else
        rbind (ed_hardened_child D (master_ed25519 D seed) 44) (\<lambda>node.
        rbind (ed_hardened_child D node 501) (\<lambda>node.
        rbind (ed_hardened_child D node account) (\<lambda>node.
        rbind (ed_hardened_child D node 0) (\<lambda>node.
          Inr ((describe_ed25519 D (fst node))\<lparr>ded_chain_code := snd node,
                ded_path := solana_path account\<rparr>))))))"

definition derive_solana_petal_key ::
  "derive_prims \<Rightarrow> bytes \<Rightarrow> u32 \<Rightarrow> u32 \<Rightarrow> ed_derive_error + derived_ed" where
  "derive_solana_petal_key D seed account index =
     (if index \<ge> HARDENED_OFFSET then Inl EdInvalidIndex
      else
        rbind (derive_solana_account D seed account) (\<lambda>parent.
        rbind (ed_hardened_child D (ded_private_key parent, ded_chain_code parent) PETAL_BRANCH) (\<lambda>node.
        rbind (ed_hardened_child D node index) (\<lambda>node.
          Inr ((describe_ed25519 D (fst node))\<lparr>ded_chain_code := snd node,
                ded_path := solana_path account @ ''/'' @ show_u32 PETAL_BRANCH @ [apos] @ ''/''
                              @ show_u32 index @ [apos]\<rparr>)))))"

subsection \<open>Mnemonics\<close>

datatype bip39_error = Bip39UnknownWord nat | Bip39InvalidChecksum | Bip39Other string

record 'm bip39_crate =
  b_nfkd :: "string \<Rightarrow> string"
  b_parse :: "string \<Rightarrow> bip39_error + 'm"
  b_from_entropy :: "bytes \<Rightarrow> bip39_error + 'm"
  b_to_string :: "'m \<Rightarrow> string"
  b_to_entropy :: "'m \<Rightarrow> bytes"
  b_to_seed :: "'m \<Rightarrow> bytes"

datatype mnemonic_error =
    WrongWordCount nat | UnknownWord nat | BadChecksum | Unnormalized
  | InvalidEntropyLength nat | Reference bip39_error

definition mnemonic_from_entropy :: "'m bip39_crate \<Rightarrow> bytes \<Rightarrow> mnemonic_error + string" where
  "mnemonic_from_entropy B entropy =
     (if length entropy \<notin> {16, 20, 24, 28, 32} then Inl (InvalidEntropyLength (length entropy))
      else case b_from_entropy B entropy of
        Inl e \<Rightarrow> Inl (Reference e)
      | Inr m \<Rightarrow> Inr (b_to_string B m))"

definition parse_mnemonic :: "'m bip39_crate \<Rightarrow> string \<Rightarrow> mnemonic_error + 'm" where
  "parse_mnemonic B phrase =
     (let words = count_words False phrase in
      if entropy_bytes_for_words words = None then Inl (WrongWordCount words)
      else if b_nfkd B phrase \<noteq> phrase then Inl Unnormalized
      else case b_parse B phrase of
        Inr m \<Rightarrow> Inr m
      | Inl (Bip39UnknownWord index) \<Rightarrow> Inl (UnknownWord index)
      | Inl Bip39InvalidChecksum \<Rightarrow> Inl BadChecksum
      | Inl other \<Rightarrow> Inl (Reference other))"

definition entropy_from_mnemonic :: "'m bip39_crate \<Rightarrow> string \<Rightarrow> mnemonic_error + bytes" where
  "entropy_from_mnemonic B phrase = rbind (parse_mnemonic B phrase) (\<lambda>m. Inr (b_to_entropy B m))"

definition seed_from_mnemonic :: "'m bip39_crate \<Rightarrow> string \<Rightarrow> mnemonic_error + bytes" where
  "seed_from_mnemonic B phrase = rbind (parse_mnemonic B phrase) (\<lambda>m. Inr (b_to_seed B m))"

subsection \<open>Lemmas: the index walk\<close>

lemma u32_Suc_interval:
  assumes "checked_add c 1 = Some c'"
  shows "(c::u32) < c'" "x < c' \<longleftrightarrow> x \<le> c"
  using checked_add_SomeD [OF assms]
  by (simp_all add: word_less_nat_alt word_le_nat_alt less_Suc_eq_le)

lemma next_valid_from_spec:
  "next_valid_from invalid start ts = Some (i, us) \<Longrightarrow>
     start \<le> i \<and> \<not> invalid i \<and> (\<forall>j. start \<le> j \<and> j < i \<longrightarrow> invalid j)
     \<and> (\<exists>vs. us = ts @ vs \<and> set vs = {j. start \<le> j \<and> j < i} \<and> sorted vs \<and> distinct vs)"
proof (induction invalid start ts rule: next_valid_from.induct)
  case (1 invalid c ts)
  show ?case
  proof (cases "invalid c")
    case False
    with "1.prems" show ?thesis by (auto simp: next_valid_from.simps [of invalid c])
  next
    case True
    with "1.prems" obtain c' where c': "checked_add c 1 = Some c'"
      by (auto simp: next_valid_from.simps [of invalid c] split: option.splits)
    have "next_valid_from invalid c' (ts @ [c]) = Some (i, us)"
      using "1.prems" True c' by (simp add: next_valid_from.simps [of invalid c])
    from "1.IH" [OF True c' this] obtain vs where IH: "c' \<le> i" "\<not> invalid i"
      "\<forall>j. c' \<le> j \<and> j < i \<longrightarrow> invalid j" "us = ts @ c # vs"
      "set vs = {j. c' \<le> j \<and> j < i}" "sorted vs" "distinct vs" by auto
    have *: "c \<le> j \<and> j < i \<longleftrightarrow> j = c \<or> c' \<le> j \<and> j < i" for j
      using checked_add_SomeD [OF c'] IH(1)
      by (auto simp: word_less_nat_alt word_le_nat_alt word_unat_eq_iff)
    have up: "c < v" if "c' \<le> v" for v
      using u32_Suc_interval(1) [OF c'] that by (rule less_le_trans)
    have "{j. c \<le> j \<and> j < i} = insert c {j. c' \<le> j \<and> j < i}" using * by blast
    then have st: "set (c # vs) = {j. c \<le> j \<and> j < i}" by (simp only: IH(5) list.set)
    have gt: "\<forall>v\<in>set vs. c < v"
    proof
      fix v assume "v \<in> set vs"
      then show "c < v" using IH(5) up [of v] by simp
    qed
    have ge: "\<forall>v\<in>set vs. c \<le> v" using gt by (blast intro: less_imp_le)
    have ni: "c \<notin> set vs" using gt less_irrefl [of c] by blast
    have so: "sorted (c # vs)" using ge IH(6) by (simp only: sorted_simps)
    have di: "distinct (c # vs)" using ni IH(7) by simp
    have inv: "\<forall>j. c \<le> j \<and> j < i \<longrightarrow> invalid j"
    proof (intro allI impI)
      fix j assume "c \<le> j \<and> j < i"
      then have "j = c \<or> c' \<le> j \<and> j < i" by (simp only: *)
      then show "invalid j" using IH(3) True by blast
    qed
    have le: "c \<le> i" using up [OF IH(1)] by (rule less_imp_le)
    show ?thesis using IH(2,4) le inv st so di by blast
  qed
qed

lemma next_valid_from_total:
  "start \<le> j \<Longrightarrow> \<not> invalid j \<Longrightarrow> \<exists>i us. next_valid_from invalid start ts = Some (i, us)"
proof (induction invalid start ts rule: next_valid_from.induct)
  case (1 invalid c ts)
  show ?case
  proof (cases "invalid c")
    case False
    then show ?thesis by (simp add: next_valid_from.simps [of invalid c])
  next
    case True
    with "1.prems" have lt: "c < j" by (metis order_le_less)
    then have "unat c + 1 < 2 ^ 32"
      using unat_lt_power [of j] by (simp add: word_less_nat_alt)
    then have c': "checked_add c 1 = Some (c + 1)" by (simp add: checked_add_def)
    have "c + 1 \<le> j" using u32_Suc_interval(2) [OF c', of j] lt by (meson linorder_not_le)
    from "1.IH" [OF True c' this] "1.prems"(2) True c' show ?thesis
      by (simp add: next_valid_from.simps [of invalid c])
  qed
qed

subsection \<open>Lemmas: big-endian numbers and scalars\<close>

lemma length_be_bytes [simp]: "length (be_bytes n v) = n"
  by (induction n arbitrary: v) auto

lemma be_nat_from_append: "be_nat_from acc (xs @ [b]) = 256 * be_nat_from acc xs + unat b"
  by (induction acc xs rule: be_nat_from.induct) auto

lemma be_nat_be_bytes: "v < 256 ^ n \<Longrightarrow> be_nat (be_bytes n v) = v"
proof (induction n arbitrary: v)
  case (Suc n)
  from Suc.prems have "v div 256 < 256 ^ n" by (simp add: less_mult_imp_div_less mult.commute)
  with Suc.IH have "be_nat_from 0 (be_bytes n (v div 256)) = v div 256" by (simp add: be_nat_def)
  then show ?case by (simp add: be_nat_def be_nat_from_append unat_of_nat)
qed (simp add: be_nat_def)

lemma be_bytes_be_nat: "be_bytes (length bs) (be_nat bs) = bs"
proof (induction bs rule: rev_induct)
  case (snoc b bs)
  have "unat b < 256" using unat_lt_power [of b] by simp
  with snoc show ?case by (simp add: be_nat_def be_nat_from_append)
qed (simp add: be_nat_def)

lemma be_nat_bound: "be_nat bs < 256 ^ length bs"
proof (induction bs rule: rev_induct)
  case (snoc b bs)
  have "unat b < 256" using unat_lt_power [of b] by simp
  with snoc show ?case by (simp add: be_nat_def be_nat_from_append)
qed (simp add: be_nat_def)

lemma list_all_zero_iff: "list_all (\<lambda>b. b = 0) xs \<longleftrightarrow> xs = replicate (length xs) 0"
  by (induction xs) auto

lemma be_bytes_zero: "list_all (\<lambda>b. b = 0) (be_bytes n v) \<longleftrightarrow> be_bytes n v = replicate n 0"
  using list_all_zero_iff [of "be_bytes n v"] by simp

lemma be_nat_replicate_0: "be_nat (replicate n 0) = 0"
proof -
  have "be_nat_from 0 (replicate n 0) = 0" by (induction n) auto
  then show ?thesis by (simp add: be_nat_def)
qed

definition scalar_laws :: "derive_prims \<Rightarrow> nat \<Rightarrow> bool" where
  "scalar_laws D n =
     (1 < n \<and> n < 256 ^ 32 \<and> (\<forall>x. d_scalar_reduce D x = x mod n)
      \<and> (\<forall>a b. d_scalar_add D a b = (a + b) mod n))"

lemma scalar_from_canonical_iff:
  assumes "scalar_laws D n" and "length bs = 32"
  shows "scalar_from_canonical D bs = Some s \<longleftrightarrow> s = be_nat bs \<and> be_nat bs < n"
proof -
  have red: "d_scalar_reduce D (be_nat bs) = be_nat bs mod n" and n: "0 < n" "n < 256 ^ 32"
    using assms(1) by (auto simp: scalar_laws_def)
  have "be_nat bs mod n < 256 ^ 32"
    using n by (meson less_trans mod_less_divisor)
  then have "be_bytes 32 (be_nat bs mod n) = bs \<longleftrightarrow> be_nat bs mod n = be_nat bs"
    by (metis assms(2) be_bytes_be_nat be_nat_be_bytes)
  also have "\<dots> \<longleftrightarrow> be_nat bs < n" using n by (metis mod_less mod_less_divisor)
  finally show ?thesis using red by (auto simp: scalar_from_canonical_def Let_def)
qed

lemma child_key_from_tweak_spec:
  assumes laws: "scalar_laws D n" and len: "length tweak = 32" "length parent = 32"
  shows "child_key_from_tweak D tweak parent = Inr k \<longleftrightarrow>
     be_nat tweak < n \<and> be_nat parent < n \<and> (be_nat tweak + be_nat parent) mod n \<noteq> 0
     \<and> k = be_bytes 32 ((be_nat tweak + be_nat parent) mod n)"
proof -
  have n: "0 < n" "n < 256 ^ 32" and add: "\<And>a b. d_scalar_add D a b = (a + b) mod n"
    using laws by (auto simp: scalar_laws_def)
  have lt: "(be_nat tweak + be_nat parent) mod n < 256 ^ 32"
    using n by (meson less_trans mod_less_divisor)
  have z: "list_all (\<lambda>b. b = 0) (be_bytes 32 ((be_nat tweak + be_nat parent) mod n)) \<longleftrightarrow>
           (be_nat tweak + be_nat parent) mod n = 0"
    by (metis be_bytes_zero be_nat_be_bytes be_nat_replicate_0 lt be_bytes_be_nat length_replicate)
  show ?thesis
    using z by (auto simp: child_key_from_tweak_def rbind_Inr_iff ok_or_Inr_iff Let_def add
        scalar_from_canonical_iff [OF laws len(1)] scalar_from_canonical_iff [OF laws len(2)])
qed

lemma child_index_bound:
  "secp_hardened_child D node i = Inr c \<Longrightarrow> i < HARDENED_OFFSET"
  "secp_non_hardened_child D node i = Inr c \<Longrightarrow> i < HARDENED_OFFSET"
  "ed_hardened_child D node i = Inr e \<Longrightarrow> i < HARDENED_OFFSET"
  by (auto simp: secp_hardened_child_def secp_non_hardened_child_def ed_hardened_child_def not_le
      split: prod.splits if_splits)

subsection \<open>Lemmas: canonical paths\<close>

lemma evm_path_parts:
  "evm_path account index =
     join_with CHR ''/''
       [''m'', ''44'' @ [apos], ''60'' @ [apos], show_u32 account @ [apos], ''0'', show_u32 index]"
  by (simp add: evm_path_def)

lemma solana_path_parts:
  "solana_path account =
     join_with CHR ''/''
       [''m'', ''44'' @ [apos], ''501'' @ [apos], show_u32 account @ [apos], ''0'' @ [apos]]"
  by (simp add: solana_path_def)

lemma apos_no_slash [simp]: "CHR ''/'' \<noteq> apos" "apos \<noteq> CHR ''/''"
  by (simp_all add: apos_def)

lemma split_evm_path:
  "split_on CHR ''/'' (evm_path account index) =
     [''m'', ''44'' @ [apos], ''60'' @ [apos], show_u32 account @ [apos], ''0'', show_u32 index]"
  unfolding evm_path_parts by (rule split_on_join) (auto simp: show_u32_no_slash)

lemma split_solana_path:
  "split_on CHR ''/'' (solana_path account) =
     [''m'', ''44'' @ [apos], ''501'' @ [apos], show_u32 account @ [apos], ''0'' @ [apos]]"
  unfolding solana_path_parts by (rule split_on_join) (auto simp: show_u32_no_slash)

lemma show_u32_small:
  "show_u32 44 = ''44''" "show_u32 60 = ''60''" "show_u32 501 = ''501''" "show_u32 0 = ''0''"
  by code_simp+

lemma parse_child_fixed:
  "parse_child (''44'' @ [apos]) True = Inr 44" "parse_child (''60'' @ [apos]) True = Inr 60"
  "parse_child (''501'' @ [apos]) True = Inr 501" "parse_child (''0'' @ [apos]) True = Inr 0"
  "parse_child ''0'' False = Inr 0"
  using parse_child_hardened_show [of 44] parse_child_hardened_show [of 60]
    parse_child_hardened_show [of 501] parse_child_hardened_show [of 0] parse_child_plain_show [of 0]
  by (simp_all add: show_u32_small)

lemma evm_path_inject: "evm_path a i = evm_path b j \<longleftrightarrow> a = b \<and> i = j"
proof
  assume "evm_path a i = evm_path b j"
  then have "split_on CHR ''/'' (evm_path a i) = split_on CHR ''/'' (evm_path b j)" by (rule arg_cong)
  then show "a = b \<and> i = j" unfolding split_evm_path by simp
qed simp

lemma solana_path_inject: "solana_path a = solana_path b \<longleftrightarrow> a = b"
proof
  assume "solana_path a = solana_path b"
  then have "split_on CHR ''/'' (solana_path a) = split_on CHR ''/'' (solana_path b)"
    by (rule arg_cong)
  then show "a = b" unfolding split_solana_path by simp
qed simp

lemma evm_path_valid:
  "a < 2 ^ 31 \<Longrightarrow> i < 2 ^ 31 \<Longrightarrow> validate_allocated_path Bip44EvmSecp256k1V1 (evm_path a i) = Inr ()"
  unfolding validate_allocated_path_def split_evm_path
  by (simp add: require_hardened_def require_plain_def parse_child_fixed [simplified]
      parse_child_hardened_show [simplified] parse_child_plain_show)

lemma solana_path_valid:
  "a < 2 ^ 31 \<Longrightarrow> validate_allocated_path Bip44SolanaSlip10Ed25519V1 (solana_path a) = Inr ()"
  unfolding validate_allocated_path_def split_solana_path
  by (simp add: require_hardened_def parse_child_fixed [simplified] parse_child_hardened_show [simplified])

end
