(* ===== verification/Derivation_Registry.thy ===== *)
theory Derivation_Registry
  imports Json Derive
begin

text \<open>
  The derivation registry: \<open>crates/bloom-signer/src/derivation_registry.rs\<close>. The four SQLite
  tables are lists of rows; \<open>INSERT\<close> enforces the primary-key and unique constraints of
  \<open>migrate\<close>, \<open>INSERT OR IGNORE\<close> skips an existing key, \<open>UPDATE ... WHERE\<close> rewrites the matching
  rows and reports how many there were. An operation is a transaction: it computes a new state
  or an error, and an error leaves the state as it was, with the one exception the source makes
  (a BIP-32-invalid target is tombstoned before the error is returned). The audit recorder
  is a callback inside the transaction, so it is a parameter that acts on an audit state of
  any type. \<open>i64\<close> columns written from \<open>u32\<close> are numbers; reading them back with \<open>as u32\<close>
  truncates. SQLite I/O failures are not modelled.
\<close>

definition PROFILE_EVM :: string where
  "PROFILE_EVM = ''bip44-evm-secp256k1-v1''"

definition PROFILE_SOLANA :: string where
  "PROFILE_SOLANA = ''bip44-solana-slip10-ed25519-v1''"

definition DEFAULT_NAMESPACE_CAP :: nat where
  "DEFAULT_NAMESPACE_CAP = 100"

datatype alloc_state =
    PREPARED | INDEX_COMMITTED | ACCOUNT_COMMITTED | ACTIVATED | RETIRED | TOMBSTONED

fun state_str :: "alloc_state \<Rightarrow> string" where
  "state_str PREPARED = ''PREPARED''"
| "state_str INDEX_COMMITTED = ''INDEX_COMMITTED''"
| "state_str ACCOUNT_COMMITTED = ''ACCOUNT_COMMITTED''"
| "state_str ACTIVATED = ''ACTIVATED''"
| "state_str RETIRED = ''RETIRED''"
| "state_str TOMBSTONED = ''TOMBSTONED''"

datatype tombstone_reason = ReasonInvalidChild | ReasonRetired | ReasonAbandoned

record namespace =
  ns_wallet :: token
  ns_profile :: string
  ns_role :: string
  ns_account :: nat
  ns_next_index :: nat
  ns_maximum :: nat

record allocation =
  al_wallet :: token
  al_operation :: string
  al_profile :: string
  al_role :: string
  al_account :: nat
  al_index :: nat
  al_path :: string
  al_state :: alloc_state
  al_key_spec :: string
  al_spki :: "string option"
  al_fingerprint :: "digest32 option"
  al_authority_committed :: bool
  al_created :: int
  al_updated :: int

record tombstone_row =
  ts_wallet :: token
  ts_profile :: string
  ts_role :: string
  ts_account :: nat
  ts_index :: nat
  ts_reason :: tombstone_reason
  ts_created :: int

record derivation_event =
  ev_wallet :: token
  ev_operation :: string
  ev_from :: "string option"
  ev_to :: string
  ev_previous_hash :: digest32
  ev_entry_hash :: digest32
  ev_recorded :: int

record registry =
  reg_namespaces :: "namespace list"
  reg_allocations :: "allocation list"
  reg_tombstones :: "tombstone_row list"
  reg_events :: "derivation_event list"

definition empty_registry :: registry where
  "empty_registry =
     \<lparr>reg_namespaces = [], reg_allocations = [], reg_tombstones = [], reg_events = []\<rparr>"

record transition_payload =
  tp_wallet :: token
  tp_operation :: string
  tp_profile :: string
  tp_role :: string
  tp_account :: u32
  tp_index :: u32
  tp_path :: string
  tp_from :: "alloc_state option"
  tp_to :: alloc_state

record reservation =
  rv_operation :: string
  rv_profile :: string
  rv_role :: string
  rv_account :: u32
  rv_index :: u32
  rv_path :: string
  rv_state :: alloc_state

record public_account =
  pa_wallet :: token
  pa_operation :: string
  pa_profile :: string
  pa_role :: string
  pa_path :: string
  pa_account :: u32
  pa_index :: u32
  pa_key_spec :: string
  pa_spki :: string
  pa_fingerprint :: digest32
  pa_lifecycle :: alloc_state

type_synonym 'a recorder = "string \<Rightarrow> transition_payload \<Rightarrow> 'a \<Rightarrow> 'a result"
type_synonym 'a rstate = "registry \<times> 'a"

definition as_u32 :: "nat \<Rightarrow> u32" where
  "as_u32 n = of_nat n"

text \<open>A transaction's outcome: commit the new state, or keep the old one and report the error.\<close>

definition commit_or_abort :: "'s \<Rightarrow> ('s \<times> 'b) result \<Rightarrow> 's \<times> 'b result" where
  "commit_or_abort s r = (case r of Inl e \<Rightarrow> (s, Inl e) | Inr (s', x) \<Rightarrow> (s', Inr x))"

subsection \<open>Rows and events\<close>

definition genesis_hash :: digest32 where
  "genesis_hash = replicate 64 CHR ''0''"

definition event_preimage ::
  "token \<Rightarrow> string \<Rightarrow> string option \<Rightarrow> string \<Rightarrow> digest32 \<Rightarrow> bytes" where
  "event_preimage wallet operation from to previous =
     str_bytes (''bloom-derivation-event/v1'' @ wallet @ operation
                @ (case from of None \<Rightarrow> ''-'' | Some f \<Rightarrow> f) @ to @ previous)"

definition last_event_hash :: "registry \<Rightarrow> digest32" where
  "last_event_hash s = (if reg_events s = [] then genesis_hash else ev_entry_hash (last (reg_events s)))"

definition append_event ::
  "prims \<Rightarrow> token \<Rightarrow> string \<Rightarrow> alloc_state option \<Rightarrow> alloc_state \<Rightarrow> u64 \<Rightarrow> registry \<Rightarrow> registry" where
  "append_event P wallet operation from to now s =
     (let previous = last_event_hash s; from_str = map_option state_str from in
      s\<lparr>reg_events := reg_events s @
          [\<lparr>ev_wallet = wallet, ev_operation = operation, ev_from = from_str, ev_to = state_str to,
            ev_previous_hash = previous,
            ev_entry_hash = p_sha256 P (event_preimage wallet operation from_str (state_str to) previous),
            ev_recorded = sint now\<rparr>]\<rparr>)"

fun verify_events :: "prims \<Rightarrow> digest32 \<Rightarrow> derivation_event list \<Rightarrow> unit result" where
  "verify_events P expected_previous [] = Inr ()"
| "verify_events P expected_previous (e # es) =
     (if ev_previous_hash e \<noteq> expected_previous then Inl (err MalformedFrame)
      else if p_sha256 P (event_preimage (ev_wallet e) (ev_operation e) (ev_from e) (ev_to e)
                 (ev_previous_hash e)) \<noteq> ev_entry_hash e
      then Inl (err MalformedFrame)
      else verify_events P (ev_entry_hash e) es)"

definition verify_event_chain :: "prims \<Rightarrow> registry \<Rightarrow> unit result" where
  "verify_event_chain P s = verify_events P genesis_hash (reg_events s)"

definition alloc_key :: "token \<Rightarrow> string \<Rightarrow> allocation \<Rightarrow> bool" where
  "alloc_key wallet operation a = (al_wallet a = wallet \<and> al_operation a = operation)"

definition load_allocation :: "registry \<Rightarrow> token \<Rightarrow> string \<Rightarrow> allocation option" where
  "load_allocation s wallet operation = find (alloc_key wallet operation) (reg_allocations s)"

definition update_rows :: "('r \<Rightarrow> bool) \<Rightarrow> ('r \<Rightarrow> 'r) \<Rightarrow> 'r list \<Rightarrow> 'r list" where
  "update_rows p f rows = map (\<lambda>r. if p r then f r else r) rows"

definition state_of :: "registry \<Rightarrow> token \<Rightarrow> string \<Rightarrow> alloc_state result" where
  "state_of s wallet operation =
     ok_or (map_option al_state (load_allocation s wallet operation)) (err MalformedFrame)"

definition ns_key :: "token \<Rightarrow> string \<Rightarrow> string \<Rightarrow> nat \<Rightarrow> namespace \<Rightarrow> bool" where
  "ns_key wallet profile role account n =
     (ns_wallet n = wallet \<and> ns_profile n = profile \<and> ns_role n = role \<and> ns_account n = account)"

definition ensure_namespace ::
  "token \<Rightarrow> string \<Rightarrow> string \<Rightarrow> u32 \<Rightarrow> registry \<Rightarrow> registry result" where
  "ensure_namespace wallet profile role account s =
     (if profile \<notin> {PROFILE_EVM, PROFILE_SOLANA} then Inl (err MalformedFrame)
      else if list_ex (ns_key wallet profile role (unat account)) (reg_namespaces s) then Inr s
      else Inr (s\<lparr>reg_namespaces := reg_namespaces s @
             [\<lparr>ns_wallet = wallet, ns_profile = profile, ns_role = role, ns_account = unat account,
               ns_next_index = 0, ns_maximum = DEFAULT_NAMESPACE_CAP\<rparr>]\<rparr>))"

definition ts_key :: "token \<Rightarrow> string \<Rightarrow> string \<Rightarrow> nat \<Rightarrow> nat \<Rightarrow> tombstone_row \<Rightarrow> bool" where
  "ts_key wallet profile role account index t =
     (ts_wallet t = wallet \<and> ts_profile t = profile \<and> ts_role t = role
      \<and> ts_account t = account \<and> ts_index t = index)"

definition insert_or_ignore_tombstone ::
  "token \<Rightarrow> string \<Rightarrow> string \<Rightarrow> nat \<Rightarrow> nat \<Rightarrow> tombstone_reason \<Rightarrow> u64 \<Rightarrow> registry \<Rightarrow> registry" where
  "insert_or_ignore_tombstone wallet profile role account index reason now s =
     (if list_ex (ts_key wallet profile role account index) (reg_tombstones s) then s
      else s\<lparr>reg_tombstones := reg_tombstones s @
             [\<lparr>ts_wallet = wallet, ts_profile = profile, ts_role = role, ts_account = account,
               ts_index = index, ts_reason = reason, ts_created = sint now\<rparr>]\<rparr>)"

definition record_invalid_child_tombstone ::
  "token \<Rightarrow> string \<Rightarrow> string \<Rightarrow> u32 \<Rightarrow> u32 \<Rightarrow> u64 \<Rightarrow> registry \<Rightarrow> registry" where
  "record_invalid_child_tombstone wallet profile role account index now s =
     insert_or_ignore_tombstone wallet profile role (unat account) (unat index) ReasonInvalidChild now s"

definition max_of :: "nat list \<Rightarrow> nat option" where
  "max_of xs = (if xs = [] then None else Some (foldr max xs 0))"

definition resolve_canonical_path :: "string \<Rightarrow> u32 \<Rightarrow> u32 \<Rightarrow> string result" where
  "resolve_canonical_path profile account index =
     (if profile = PROFILE_EVM then Inr (evm_path account index)
      else if profile = PROFILE_SOLANA then Inr (solana_path account)
      else Inl (err MalformedFrame))"

definition key_spec_for_profile :: "string \<Rightarrow> string result" where
  "key_spec_for_profile profile =
     (if profile = PROFILE_EVM then Inr ''secp256k1''
      else if profile = PROFILE_SOLANA then Inr ''ed25519''
      else Inl (err MalformedFrame))"

text \<open>\<open>INSERT INTO derivation_allocations\<close> with its primary key and two unique constraints.\<close>

definition alloc_conflicts :: "allocation \<Rightarrow> allocation \<Rightarrow> bool" where
  "alloc_conflicts a b =
     (al_wallet a = al_wallet b
      \<and> (al_operation a = al_operation b
         \<or> al_profile a = al_profile b \<and> al_role a = al_role b
           \<and> (al_account a = al_account b \<and> al_index a = al_index b \<or> al_path a = al_path b)))"

definition insert_allocation :: "allocation \<Rightarrow> registry \<Rightarrow> registry result" where
  "insert_allocation row s =
     (if list_ex (alloc_conflicts row) (reg_allocations s) then Inl (err ServiceUnavailable)
      else Inr (s\<lparr>reg_allocations := reg_allocations s @ [row]\<rparr>))"

definition reservation_of :: "registry \<Rightarrow> token \<Rightarrow> string \<Rightarrow> reservation result" where
  "reservation_of s wallet operation =
     (case load_allocation s wallet operation of
        None \<Rightarrow> Inl (err MalformedFrame)
      | Some a \<Rightarrow> Inr \<lparr>rv_operation = operation, rv_profile = al_profile a, rv_role = al_role a,
                       rv_account = as_u32 (al_account a), rv_index = as_u32 (al_index a),
                       rv_path = al_path a, rv_state = al_state a\<rparr>)"

definition allocation_keys ::
  "registry \<Rightarrow> token \<Rightarrow> string \<Rightarrow> (string \<times> string \<times> u32 \<times> u32 \<times> string) result" where
  "allocation_keys s wallet operation =
     (case load_allocation s wallet operation of
        None \<Rightarrow> Inl (err MalformedFrame)
      | Some a \<Rightarrow> Inr (al_profile a, al_role a, as_u32 (al_account a), as_u32 (al_index a), al_path a))"

definition public_of :: "registry \<Rightarrow> token \<Rightarrow> string \<Rightarrow> public_account result" where
  "public_of s wallet operation =
     (case load_allocation s wallet operation of
        None \<Rightarrow> Inl (err MalformedFrame)
      | Some a \<Rightarrow>
          if al_state a \<noteq> ACTIVATED then Inl (err MalformedFrame)
          else rbind (ok_or (al_spki a) (err MalformedFrame)) (\<lambda>spki.
               rbind (ok_or (al_fingerprint a) (err MalformedFrame)) (\<lambda>fp.
                 Inr \<lparr>pa_wallet = wallet, pa_operation = operation, pa_profile = al_profile a,
                      pa_role = al_role a, pa_path = al_path a, pa_account = as_u32 (al_account a),
                      pa_index = as_u32 (al_index a), pa_key_spec = al_key_spec a, pa_spki = spki,
                      pa_fingerprint = fp, pa_lifecycle = ACTIVATED\<rparr>)))"

subsection \<open>Account numbers\<close>

definition evm_next_indices :: "registry \<Rightarrow> token \<Rightarrow> nat list" where
  "evm_next_indices s wallet =
     map ns_next_index (filter (\<lambda>n. ns_wallet n = wallet \<and> ns_profile n = PROFILE_EVM
                                   \<and> ns_account n = 0) (reg_namespaces s))"

definition evm_tombstoned_indices :: "registry \<Rightarrow> token \<Rightarrow> nat list" where
  "evm_tombstoned_indices s wallet =
     map ts_index (filter (\<lambda>t. ts_wallet t = wallet \<and> ts_profile t = PROFILE_EVM
                              \<and> ts_account t = 0) (reg_tombstones s))"

definition solana_accounts :: "registry \<Rightarrow> token \<Rightarrow> nat list" where
  "solana_accounts s wallet =
     map al_account (filter (\<lambda>a. al_wallet a = wallet \<and> al_profile a = PROFILE_SOLANA)
                       (reg_allocations s))"

definition next_account_number :: "registry \<Rightarrow> token \<Rightarrow> u32 result" where
  "next_account_number s wallet =
     (let evm_next = (case max_of (evm_next_indices s wallet) of None \<Rightarrow> 0 | Some m \<Rightarrow> m);
          evm_tombstone_next =
            (case max_of (evm_tombstoned_indices s wallet) of None \<Rightarrow> 0 | Some m \<Rightarrow> m + 1);
          solana_next = (case max_of (solana_accounts s wallet) of None \<Rightarrow> 0 | Some m \<Rightarrow> m + 1);
          next = max (max evm_next evm_tombstone_next) solana_next
      in if next < 2 ^ 31 then Inr (of_nat next) else Inl (err LimitExceededOperations))"

subsection \<open>Preparing an allocation\<close>

definition allocation_matches ::
  "string \<Rightarrow> string \<Rightarrow> u32 option \<Rightarrow> u32 option \<Rightarrow> allocation \<Rightarrow> bool" where
  "allocation_matches profile role requested_account target_index a =
     (al_profile a = profile \<and> al_role a = role
      \<and> (case requested_account of None \<Rightarrow> True | Some n \<Rightarrow> al_account a = unat n)
      \<and> (case target_index of None \<Rightarrow> True | Some i \<Rightarrow> al_index a = unat i))"

definition choose_account :: "registry \<Rightarrow> token \<Rightarrow> string \<Rightarrow> u32 option \<Rightarrow> u32 result" where
  "choose_account s wallet profile requested =
     (case requested of
        Some account \<Rightarrow> Inr account
      | None \<Rightarrow>
          if profile = PROFILE_SOLANA
          then (case max_of (map al_account (filter (\<lambda>a. al_wallet a = wallet \<and> al_profile a = profile)
                       (reg_allocations s))) of
                  None \<Rightarrow> Inr 0
                | Some highest \<Rightarrow>
                    if highest < 2 ^ 31 - 1 then Inr (as_u32 highest + 1)
                    else Inl (err LimitExceededOperations))
          else Inr 0)"

definition live_children :: "registry \<Rightarrow> token \<Rightarrow> string \<Rightarrow> string \<Rightarrow> nat \<Rightarrow> nat" where
  "live_children s wallet profile role account =
     length (filter (\<lambda>a. al_wallet a = wallet \<and> al_profile a = profile \<and> al_role a = role
                        \<and> al_account a = account \<and> al_state a \<noteq> TOMBSTONED) (reg_allocations s))"

definition tombstoned :: "registry \<Rightarrow> token \<Rightarrow> string \<Rightarrow> string \<Rightarrow> nat \<Rightarrow> nat \<Rightarrow> bool" where
  "tombstoned s wallet profile role account index =
     list_ex (ts_key wallet profile role account index) (reg_tombstones s)"

definition advance_counter ::
  "token \<Rightarrow> string \<Rightarrow> string \<Rightarrow> u32 \<Rightarrow> u32 option \<Rightarrow> u32 \<Rightarrow> u32 \<Rightarrow> registry \<Rightarrow> registry" where
  "advance_counter wallet profile role account target_index start counter s =
     s\<lparr>reg_namespaces :=
        (case target_index of
           Some _ \<Rightarrow>
             update_rows (ns_key wallet profile role (unat account))
               (\<lambda>n. n\<lparr>ns_next_index := max (ns_next_index n) (unat start + 1)\<rparr>) (reg_namespaces s)
         | None \<Rightarrow>
             update_rows (\<lambda>n. ns_key wallet profile role (unat account) n
                             \<and> ns_next_index n = unat counter)
               (\<lambda>n. n\<lparr>ns_next_index := unat start + 1\<rparr>) (reg_namespaces s))\<rparr>"

text \<open>What remains once the index is chosen: the path and its owner, the tombstones of the skipped
  indices, the counter, the row, the event and the audit record.\<close>

definition reserve_index ::
  "prims \<Rightarrow> 'a recorder \<Rightarrow> token \<Rightarrow> string \<Rightarrow> string \<Rightarrow> u32 \<Rightarrow> u32 option \<Rightarrow> string \<Rightarrow> u64
   \<Rightarrow> u32 \<Rightarrow> u32 \<Rightarrow> u32 list \<Rightarrow> registry \<Rightarrow> 'a \<Rightarrow> ('a rstate \<times> reservation) result" where
  "reserve_index P audit wallet profile role account target_index operation now
     counter start skipped s aud =
     rbind (resolve_canonical_path profile account start) (\<lambda>path.
     if list_ex (\<lambda>a. al_wallet a = wallet \<and> al_profile a = profile \<and> al_path a = path)
          (reg_allocations s)
     then Inl (err OperationIdConflict)
     else
       let s1 = fold (\<lambda>i. insert_or_ignore_tombstone wallet profile role (unat account) (unat i)
                         ReasonInvalidChild now) skipped s;
           s2 = advance_counter wallet profile role account target_index start counter s1
       in
       rbind (key_spec_for_profile profile) (\<lambda>spec.
       rbind (insert_allocation
                \<lparr>al_wallet = wallet, al_operation = operation, al_profile = profile, al_role = role,
                 al_account = unat account, al_index = unat start, al_path = path,
                 al_state = PREPARED, al_key_spec = spec, al_spki = None, al_fingerprint = None,
                 al_authority_committed = False, al_created = sint now, al_updated = sint now\<rparr> s2) (\<lambda>s3.
       let s4 = append_event P wallet operation None PREPARED now s3 in
       rbind (audit ''derivation.prepared''
                \<lparr>tp_wallet = wallet, tp_operation = operation, tp_profile = profile, tp_role = role,
                 tp_account = account, tp_index = start, tp_path = path, tp_from = None,
                 tp_to = PREPARED\<rparr> aud) (\<lambda>aud'.
       Inr ((s4, aud'),
            \<lparr>rv_operation = operation, rv_profile = profile, rv_role = role, rv_account = account,
             rv_index = start, rv_path = path, rv_state = PREPARED\<rparr>)))))"

text \<open>\<open>prepare_allocation_at\<close>. \<open>None\<close> is the panic of \<open>next_valid_index\<close> when every index from the
  counter to the largest \<open>u32\<close> is refused.\<close>

definition prepare_allocation_at ::
  "prims \<Rightarrow> 'a recorder \<Rightarrow> token \<Rightarrow> string \<Rightarrow> string \<Rightarrow> u32 option \<Rightarrow> u32 option \<Rightarrow> string
   \<Rightarrow> (u32 \<Rightarrow> u32 \<Rightarrow> bool) \<Rightarrow> u64 \<Rightarrow> 'a rstate \<Rightarrow> ('a rstate \<times> reservation result) option" where
  "prepare_allocation_at P audit wallet profile role requested_account target_index operation
     invalid_child now st =
     (case st of (s, aud) \<Rightarrow>
      if (case requested_account of Some n \<Rightarrow> n \<ge> 2 ^ 31 | None \<Rightarrow> False)
      then Some (st, Inl (err MalformedFrame))
      else if (case target_index of Some i \<Rightarrow> i \<ge> 2 ^ 31 | None \<Rightarrow> False)
      then Some (st, Inl (err MalformedFrame))
      else if target_index \<noteq> None \<and> profile \<noteq> PROFILE_EVM
      then Some (st, Inl (err MalformedFrame))
      else case load_allocation s wallet operation of
        Some existing \<Rightarrow>
          Some (st,
            if allocation_matches profile role requested_account target_index existing
            then reservation_of s wallet operation
            else Inl (err OperationIdConflict))
      | None \<Rightarrow>
          (case choose_account s wallet profile requested_account of
             Inl e \<Rightarrow> Some (st, Inl e)
           | Inr account \<Rightarrow>
             (case ensure_namespace wallet profile role account s of
                Inl e \<Rightarrow> Some (st, Inl e)
              | Inr s0 \<Rightarrow>
                (case find (ns_key wallet profile role (unat account)) (reg_namespaces s0) of
                   None \<Rightarrow> Some (st, Inl (err ServiceUnavailable))
                 | Some ns \<Rightarrow>
                   if live_children s0 wallet profile role (unat account) \<ge> ns_maximum ns
                   then Some (st, Inl (err LimitExceededOperations))
                   else
                     let counter = as_u32 (ns_next_index ns);
                         dead = (\<lambda>i. tombstoned s0 wallet profile role (unat account) (unat i))
                     in case target_index of
                       None \<Rightarrow>
                         (case next_valid_index counter (\<lambda>i. dead i \<or> invalid_child account i) of
                            None \<Rightarrow> None
                          | Some (start, skipped) \<Rightarrow>
                              Some (commit_or_abort st
                                (reserve_index P audit wallet profile role account None operation now
                                   counter start skipped s0 aud)))
                     | Some index \<Rightarrow>
                         if dead index then Some (st, Inl (err OperationIdConflict))
                         else if invalid_child account index
                         then Some ((record_invalid_child_tombstone wallet profile role account index
                                       now s0, aud), Inl (err BackendInvalidRequest))
                         else Some (commit_or_abort st
                                (reserve_index P audit wallet profile role account (Some index)
                                   operation now counter index [] s0 aud))))))"

definition prepare_allocation ::
  "prims \<Rightarrow> 'a recorder \<Rightarrow> token \<Rightarrow> string \<Rightarrow> string \<Rightarrow> u32 option \<Rightarrow> string
   \<Rightarrow> (u32 \<Rightarrow> u32 \<Rightarrow> bool) \<Rightarrow> u64 \<Rightarrow> 'a rstate \<Rightarrow> ('a rstate \<times> reservation result) option" where
  "prepare_allocation P audit wallet profile role account operation invalid_child now st =
     prepare_allocation_at P audit wallet profile role account None operation invalid_child now st"

subsection \<open>Lifecycle transitions\<close>

definition transition ::
  "prims \<Rightarrow> token \<Rightarrow> string \<Rightarrow> alloc_state \<Rightarrow> alloc_state \<Rightarrow> u64 \<Rightarrow> registry \<Rightarrow> registry result" where
  "transition P wallet operation from to now s =
     (let hit = (\<lambda>a. alloc_key wallet operation a \<and> al_state a = from) in
      if length (filter hit (reg_allocations s)) \<noteq> 1 then Inl (err MalformedFrame)
      else Inr (append_event P wallet operation (Some from) to now
             (s\<lparr>reg_allocations :=
                  update_rows hit (\<lambda>a. a\<lparr>al_state := to, al_updated := sint now\<rparr>)
                    (reg_allocations s)\<rparr>)))"

definition transition_payload_of ::
  "token \<Rightarrow> string \<Rightarrow> (string \<times> string \<times> u32 \<times> u32 \<times> string) \<Rightarrow> alloc_state option \<Rightarrow> alloc_state
   \<Rightarrow> transition_payload" where
  "transition_payload_of wallet operation keys from to =
     (case keys of (profile, role, account, index, path) \<Rightarrow>
      \<lparr>tp_wallet = wallet, tp_operation = operation, tp_profile = profile, tp_role = role,
       tp_account = account, tp_index = index, tp_path = path, tp_from = from, tp_to = to\<rparr>)"

definition commit_index ::
  "prims \<Rightarrow> 'a recorder \<Rightarrow> token \<Rightarrow> string \<Rightarrow> u64 \<Rightarrow> 'a rstate \<Rightarrow> 'a rstate \<times> reservation result" where
  "commit_index P audit wallet operation now st =
     (case st of (s, aud) \<Rightarrow>
      commit_or_abort st
        (rbind (state_of s wallet operation) (\<lambda>current.
         if current \<noteq> PREPARED
         then (if current \<in> {INDEX_COMMITTED, ACCOUNT_COMMITTED, ACTIVATED}
               then rbind (reservation_of s wallet operation) (\<lambda>r. Inr (st, r))
               else Inl (err MalformedFrame))
         else
           rbind (allocation_keys s wallet operation) (\<lambda>keys.
           rbind (transition P wallet operation PREPARED INDEX_COMMITTED now s) (\<lambda>s1.
           rbind (audit ''derivation.index_committed''
                    (transition_payload_of wallet operation keys (Some PREPARED) INDEX_COMMITTED) aud) (\<lambda>aud'.
           rbind (reservation_of s1 wallet operation) (\<lambda>r. Inr ((s1, aud'), r))))))))"

definition commit_account ::
  "prims \<Rightarrow> 'a recorder \<Rightarrow> token \<Rightarrow> string \<Rightarrow> string \<Rightarrow> digest32 \<Rightarrow> u64 \<Rightarrow> 'a rstate
   \<Rightarrow> 'a rstate \<times> reservation result" where
  "commit_account P audit wallet operation spki fingerprint now st =
     (case st of (s, aud) \<Rightarrow>
      commit_or_abort st
        (rbind (ok_or (p_hex_decode P spki) (err MalformedFrame)) (\<lambda>decoded.
         if p_sha256 P decoded \<noteq> fingerprint then Inl (err MalformedFrame)
         else
           rbind (state_of s wallet operation) (\<lambda>current.
           if current \<in> {ACCOUNT_COMMITTED, ACTIVATED}
           then rbind (reservation_of s wallet operation) (\<lambda>r. Inr (st, r))
           else
             let hit = (\<lambda>a. alloc_key wallet operation a \<and> al_state a = INDEX_COMMITTED);
                 s1 = s\<lparr>reg_allocations :=
                          update_rows hit (\<lambda>a. a\<lparr>al_state := ACCOUNT_COMMITTED, al_spki := Some spki,
                            al_fingerprint := Some fingerprint, al_updated := sint now\<rparr>)
                            (reg_allocations s)\<rparr>
             in if length (filter hit (reg_allocations s)) \<noteq> 1 then Inl (err MalformedFrame)
             else
               let s2 = append_event P wallet operation (Some INDEX_COMMITTED) ACCOUNT_COMMITTED now s1 in
               rbind (allocation_keys s2 wallet operation) (\<lambda>keys.
               rbind (audit ''derivation.account_committed''
                        (transition_payload_of wallet operation keys (Some INDEX_COMMITTED)
                           ACCOUNT_COMMITTED) aud) (\<lambda>aud'.
               rbind (reservation_of s2 wallet operation) (\<lambda>r. Inr ((s2, aud'), r))))))))"

definition activate ::
  "prims \<Rightarrow> 'a recorder \<Rightarrow> token \<Rightarrow> string \<Rightarrow> u64 \<Rightarrow> 'a rstate \<Rightarrow> 'a rstate \<times> public_account result" where
  "activate P audit wallet operation now st =
     (case st of (s, aud) \<Rightarrow>
      commit_or_abort st
        (rbind (state_of s wallet operation) (\<lambda>current.
         if current = ACTIVATED then rbind (public_of s wallet operation) (\<lambda>p. Inr (st, p))
         else
           rbind (allocation_keys s wallet operation) (\<lambda>keys.
           rbind (transition P wallet operation ACCOUNT_COMMITTED ACTIVATED now s) (\<lambda>s1.
           rbind (audit ''derivation.activated''
                    (transition_payload_of wallet operation keys (Some ACCOUNT_COMMITTED) ACTIVATED) aud) (\<lambda>aud'.
           rbind (public_of s1 wallet operation) (\<lambda>p. Inr ((s1, aud'), p))))))))"

definition retire ::
  "prims \<Rightarrow> 'a recorder \<Rightarrow> token \<Rightarrow> string \<Rightarrow> u64 \<Rightarrow> 'a rstate \<Rightarrow> 'a rstate \<times> unit result" where
  "retire P audit wallet operation now st =
     (case st of (s, aud) \<Rightarrow>
      commit_or_abort st
        (rbind (allocation_keys s wallet operation) (\<lambda>keys.
         rbind (transition P wallet operation ACTIVATED RETIRED now s) (\<lambda>s1.
         rbind (audit ''derivation.retired''
                  (transition_payload_of wallet operation keys (Some ACTIVATED) RETIRED) aud) (\<lambda>aud'.
         Inr ((s1, aud'), ()))))))"

definition tombstone ::
  "prims \<Rightarrow> 'a recorder \<Rightarrow> token \<Rightarrow> string \<Rightarrow> u64 \<Rightarrow> 'a rstate \<Rightarrow> 'a rstate \<times> unit result" where
  "tombstone P audit wallet operation now st =
     (case st of (s, aud) \<Rightarrow>
      commit_or_abort st
        (rbind (ok_or (load_allocation s wallet operation) (err MalformedFrame)) (\<lambda>a.
         if al_state a = TOMBSTONED then Inr (st, ())
         else
           let reason = (if al_state a = ACTIVATED \<or> al_state a = RETIRED then ReasonRetired
                         else ReasonAbandoned);
               s1 = s\<lparr>reg_allocations :=
                        update_rows (alloc_key wallet operation)
                          (\<lambda>a. a\<lparr>al_state := TOMBSTONED, al_updated := sint now\<rparr>) (reg_allocations s)\<rparr>;
               s2 = insert_or_ignore_tombstone wallet (al_profile a) (al_role a) (al_account a)
                      (al_index a) reason now s1;
               s3 = append_event P wallet operation (Some (al_state a)) TOMBSTONED now s2
           in rbind (audit ''derivation.tombstoned''
                       (transition_payload_of wallet operation
                          (al_profile a, al_role a, as_u32 (al_account a), as_u32 (al_index a), al_path a)
                          (Some (al_state a)) TOMBSTONED) aud) (\<lambda>aud'.
              Inr ((s3, aud'), ())))))"

subsection \<open>Public listing\<close>

definition public_row :: "token \<Rightarrow> allocation \<Rightarrow> public_account result" where
  "public_row wallet a =
     rbind (ok_or (al_spki a) (err ServiceUnavailable)) (\<lambda>spki.
     rbind (ok_or (al_fingerprint a) (err ServiceUnavailable)) (\<lambda>fp.
       Inr \<lparr>pa_wallet = wallet, pa_operation = al_operation a, pa_profile = al_profile a,
            pa_role = al_role a, pa_path = al_path a, pa_account = as_u32 (al_account a),
            pa_index = as_u32 (al_index a), pa_key_spec = al_key_spec a, pa_spki = spki,
            pa_fingerprint = fp, pa_lifecycle = al_state a\<rparr>))"

fun collect_rows :: "('r \<Rightarrow> 'b result) \<Rightarrow> 'r list \<Rightarrow> 'b list result" where
  "collect_rows f [] = Inr []"
| "collect_rows f (r # rs) = rbind (f r) (\<lambda>x. rbind (collect_rows f rs) (\<lambda>xs. Inr (x # xs)))"

definition public_accounts :: "registry \<Rightarrow> token \<Rightarrow> public_account list result" where
  "public_accounts s wallet =
     collect_rows (public_row wallet)
       (sort_key (\<lambda>a. al_created a) (sort_key al_operation
          (filter (\<lambda>a. al_wallet a = wallet \<and> al_state a \<in> {ACTIVATED, RETIRED})
             (reg_allocations s))))"

lemma find_update_rows:
  assumes "\<And>a. q (f a) = q a"
  shows "find q (update_rows hit f rows) = map_option (\<lambda>a. if hit a then f a else a) (find q rows)"
  unfolding update_rows_def by (induction rows) (auto simp: assms)

end
