(* ===== verification/Hash_Chain.thy ===== *)
theory Hash_Chain
  imports Prelude
begin

text \<open>
  Hash-linked journals. The Signer keeps two: the audit chain and the derivation events. In both an
  entry stores the hash of its predecessor and the hash of a preimage that contains it.
  \<open>linked\<close> is that shape; the locale's law is that the preimage fixes the stored predecessor
  (both write it at a fixed offset, so this needs digests of one length), and
  its client lemma is tamper evidence: two journals of one length with the same head agree entry
  by entry on their preimages, unless the hash has a collision among them.
\<close>

fun linked ::
  "('e \<Rightarrow> string) \<Rightarrow> ('e \<Rightarrow> string) \<Rightarrow> ('e \<Rightarrow> bytes) \<Rightarrow> (bytes \<Rightarrow> string) \<Rightarrow> string \<Rightarrow> 'e list \<Rightarrow> bool" where
  "linked prev hash pre H h [] = True"
| "linked prev hash pre H h (e # es) =
     (prev e = h \<and> hash e = H (pre e) \<and> linked prev hash pre H (hash e) es)"

text \<open>No two different preimages of the two journals have the same hash.\<close>

definition collision_free :: "(bytes \<Rightarrow> string) \<Rightarrow> bytes list \<Rightarrow> bytes list \<Rightarrow> bool" where
  "collision_free H ps qs = (\<forall>p\<in>set ps. \<forall>q\<in>set qs. H p = H q \<longrightarrow> p = q)"

definition head_hash :: "('e \<Rightarrow> string) \<Rightarrow> string \<Rightarrow> 'e list \<Rightarrow> string" where
  "head_hash hash h es = (if es = [] then h else hash (last es))"

lemma linked_append:
  "linked prev hash pre H h (xs @ ys) \<longleftrightarrow>
     linked prev hash pre H h xs \<and> linked prev hash pre H (head_hash hash h xs) ys"
  by (induction xs arbitrary: h) (auto simp: head_hash_def)

lemma head_hash_snoc [simp]: "head_hash hash h (xs @ [x]) = hash x"
  by (simp add: head_hash_def)

lemma linked_prev_length:
  assumes "linked prev hash pre H h es" "length h = n" "\<And>b. length (H b) = n" "e \<in> set es"
  shows "length (prev e) = n"
  using assms by (induction es arbitrary: h) auto

locale hash_chain =
  fixes prev :: "'e \<Rightarrow> string"
    and hash :: "'e \<Rightarrow> string"
    and pre :: "'e \<Rightarrow> bytes"
  assumes pre_prev: "pre x = pre y \<Longrightarrow> length (prev x) = length (prev y) \<Longrightarrow> prev x = prev y"
begin

lemma tamper_evident:
  assumes "linked prev hash pre H g xs" "linked prev hash pre H g ys"
    and "length xs = length ys" "head_hash hash g xs = head_hash hash g ys"
    and "\<And>b. length (H b) = length g"
    and "collision_free H (map pre xs) (map pre ys)"
  shows "map pre xs = map pre ys"
  using assms
proof (induction xs arbitrary: ys rule: rev_induct)
  case (snoc x xs)
  then obtain ys' y where ys: "ys = ys' @ [y]" by (cases ys rule: rev_cases) auto
  from snoc.prems(1) have x: "linked prev hash pre H g xs" "hash x = H (pre x)" "prev x = head_hash hash g xs"
    by (auto simp: linked_append)
  from snoc.prems(2) have y: "linked prev hash pre H g ys'" "hash y = H (pre y)" "prev y = head_hash hash g ys'"
    by (auto simp: linked_append ys)
  have "H (pre x) = H (pre y)" using snoc.prems(4) x(2) y(2) by (simp add: ys)
  with snoc.prems(6) have p: "pre x = pre y" by (simp add: collision_free_def ys)
  have "length (prev x) = length g"
    using linked_prev_length [OF snoc.prems(1) refl snoc.prems(5)] by simp
  moreover have "length (prev y) = length g"
    using linked_prev_length [OF snoc.prems(2) refl snoc.prems(5)] by (simp add: ys)
  ultimately have "prev x = prev y" using pre_prev [OF p] by simp
  then have "head_hash hash g xs = head_hash hash g ys'" using x(3) y(3) by simp
  moreover have "collision_free H (map pre xs) (map pre ys')"
    using snoc.prems(6) by (simp add: collision_free_def ys)
  ultimately have "map pre xs = map pre ys'"
    using snoc.IH [OF x(1) y(1)] snoc.prems(3,5) by (simp add: ys)
  with p show ?case by (simp add: ys)
qed simp

end

end
