(* ===== verification/Audit_Chain.thy ===== *)
theory Audit_Chain
  imports Json Derive Hash_Chain
begin

text \<open>
  The signed audit journal of \<open>crates/bloom-signer/src/engine.rs\<close>: \<open>append_audit_entry\<close>,
  \<open>verify_audit_chain\<close>, key rotation and the cached head. The table \<open>audit_chain\<close> is the list of
  its rows in sequence order; a column the code parses is an option, \<open>None\<close> where the text does
  not parse (the hash columns are compared as text). A trusted-key map is a map from key
  identifiers to public keys. Log lines are not modelled.
\<close>

definition AUDIT_DOMAIN :: string where
  "AUDIT_DOMAIN = ''bloom-signer-audit-entry/v1''"

definition AUDIT_SIGNATURE_DOMAIN :: string where
  "AUDIT_SIGNATURE_DOMAIN = ''bloom-signer-audit-signature/v1''"

definition AUDIT_ROTATION_DOMAIN :: string where
  "AUDIT_ROTATION_DOMAIN = ''bloom-signer-audit-key-rotation/v1''"

record audit_entry =
  ae_sequence :: int
  ae_event :: string
  ae_payload :: bytes
  ae_previous :: digest32
  ae_hash :: digest32
  ae_key_id :: "token option"
  ae_signature :: "bytes option"

record audit_rotation =
  ro_old_key :: token
  ro_new_key :: token
  ro_final_old_sequence :: u64
  ro_final_old_head :: digest32
  ro_first_new_sequence :: u64
  ro_first_new_head :: digest32
  ro_old_signature :: bytes
  ro_new_signature :: bytes

record audit_db =
  ad_entries :: "audit_entry list"
  ad_rotations :: "audit_rotation option list"

type_synonym trusted_keys = "token \<Rightarrow> bytes option"

record audit_keys =
  ak_current_id :: token
  ak_signing_key :: bytes
  ak_trusted :: trusted_keys

definition zero_digest :: digest32 where
  "zero_digest = replicate 64 CHR ''0''"

abbreviation audit_degraded_error :: protocol_error where
  "audit_degraded_error \<equiv> err ServiceUnavailable"

definition entry_preimage :: "u64 \<Rightarrow> digest32 \<Rightarrow> string \<Rightarrow> bytes \<Rightarrow> bytes" where
  "entry_preimage sequence previous event payload =
     str_bytes AUDIT_DOMAIN @ be_bytes 8 (unat sequence) @ str_bytes previous @ str_bytes event @ payload"

definition entry_message :: "digest32 \<Rightarrow> bytes" where
  "entry_message entry_hash = str_bytes AUDIT_SIGNATURE_DOMAIN @ str_bytes entry_hash"

subsection \<open>Rotations\<close>

text \<open>The loop filling the map from first new sequences; a repeated one is an error.\<close>

fun load_audit_rotations :: "audit_rotation list \<Rightarrow> audit_rotation option list \<Rightarrow> audit_rotation list result" where
  "load_audit_rotations acc [] = Inr acc"
| "load_audit_rotations acc (None # rows) = Inl (err MalformedFrame)"
| "load_audit_rotations acc (Some r # rows) =
     (if list_ex (\<lambda>q. ro_first_new_sequence q = ro_first_new_sequence r) acc
      then Inl audit_degraded_error else load_audit_rotations (acc @ [r]) rows)"

definition rotation_at :: "audit_rotation list \<Rightarrow> u64 \<Rightarrow> audit_rotation option" where
  "rotation_at rotations sequence = find (\<lambda>r. ro_first_new_sequence r = sequence) rotations"

definition audit_rotation_message :: "prims \<Rightarrow> audit_rotation \<Rightarrow> bytes" where
  "audit_rotation_message P r =
     str_bytes AUDIT_ROTATION_DOMAIN @
     p_jcs P (JObj [(''old_key_id'', JStr (ro_old_key r)), (''new_key_id'', JStr (ro_new_key r)),
                    (''final_old_sequence'', JDec (ro_final_old_sequence r)),
                    (''final_old_head'', JStr (ro_final_old_head r)),
                    (''first_new_sequence'', JDec (ro_first_new_sequence r)),
                    (''first_new_head'', JStr (ro_first_new_head r))])"

definition signed_by :: "prims \<Rightarrow> trusted_keys \<Rightarrow> bytes \<Rightarrow> token \<Rightarrow> bytes \<Rightarrow> bool" where
  "signed_by P keys message key_id signature =
     (length signature = 64 \<and>
      (case keys key_id of None \<Rightarrow> False | Some key \<Rightarrow> p_verify P key message signature))"

definition verify_audit_rotation ::
  "prims \<Rightarrow> audit_rotation \<Rightarrow> token \<Rightarrow> token \<Rightarrow> u64 \<Rightarrow> digest32 \<Rightarrow> digest32 \<Rightarrow> trusted_keys \<Rightarrow> unit result" where
  "verify_audit_rotation P r old_key new_key first_new_sequence final_old_head first_new_head keys =
     (if ro_old_key r \<noteq> old_key \<or> ro_new_key r \<noteq> new_key
         \<or> ro_first_new_sequence r \<noteq> first_new_sequence
         \<or> checked_add (ro_final_old_sequence r) 1 \<noteq> Some first_new_sequence
         \<or> ro_final_old_head r \<noteq> final_old_head \<or> ro_first_new_head r \<noteq> first_new_head
      then Inl audit_degraded_error
      else ensure (signed_by P keys (audit_rotation_message P r) (ro_old_key r) (ro_old_signature r)
                   \<and> signed_by P keys (audit_rotation_message P r) (ro_new_key r) (ro_new_signature r))
             audit_degraded_error)"

subsection \<open>Verification\<close>

record verify_state =
  vs_sequence :: u64
  vs_previous :: digest32
  vs_active :: "token option"
  vs_rotations :: nat

text \<open>The key of an entry against the key that signed the one before it: a change needs the recorded
  rotation of that sequence, and a recorded rotation needs a change. The result is the
  number of rotations seen.\<close>

definition check_key_change ::
  "prims \<Rightarrow> audit_rotation list \<Rightarrow> trusted_keys \<Rightarrow> verify_state \<Rightarrow> token \<Rightarrow> digest32 \<Rightarrow> nat result" where
  "check_key_change P rotations keys v key_id computed =
     (case vs_active v of
        Some old_key \<Rightarrow>
          if old_key \<noteq> key_id
          then (case rotation_at rotations (vs_sequence v) of
                  None \<Rightarrow> Inl audit_degraded_error
                | Some r \<Rightarrow>
                    rbind (verify_audit_rotation P r old_key key_id (vs_sequence v) (vs_previous v)
                             computed keys) (\<lambda>_. Inr (vs_rotations v + 1)))
          else if rotation_at rotations (vs_sequence v) \<noteq> None then Inl audit_degraded_error
          else Inr (vs_rotations v)
      | None \<Rightarrow>
          if rotation_at rotations (vs_sequence v) \<noteq> None then Inl audit_degraded_error
          else Inr (vs_rotations v))"

definition verify_entry ::
  "prims \<Rightarrow> audit_rotation list \<Rightarrow> trusted_keys \<Rightarrow> verify_state \<Rightarrow> audit_entry \<Rightarrow> verify_state result" where
  "verify_entry P rotations keys v e =
     (if ae_sequence e < 0 then Inl (err MalformedFrame)
      else rbind (ok_or (ae_key_id e) (err MalformedFrame)) (\<lambda>key_id.
        if ae_sequence e \<noteq> uint (vs_sequence v) then Inl (err ServiceUnavailable)
        else if ae_previous e \<noteq> vs_previous v then Inl (err ServiceUnavailable)
        else
          let computed = p_sha256 P (entry_preimage (vs_sequence v) (vs_previous v) (ae_event e) (ae_payload e))
          in if computed \<noteq> ae_hash e then Inl (err ServiceUnavailable)
          else
            rbind (check_key_change P rotations keys v key_id computed) (\<lambda>observed.
            rbind (ok_or (ae_signature e) (err MalformedFrame)) (\<lambda>signature.
            if length signature \<noteq> 64 then Inl (err ServiceUnavailable)
            else
              rbind (ok_or (keys key_id) audit_degraded_error) (\<lambda>key.
              if \<not> p_verify P key (entry_message computed) signature then Inl (err ServiceUnavailable)
              else
                rbind (ok_or (checked_add (vs_sequence v) 1) (err ServiceUnavailable)) (\<lambda>next.
                  Inr \<lparr>vs_sequence = next, vs_previous = computed, vs_active = Some key_id,
                       vs_rotations = observed\<rparr>))))))"

fun verify_entries ::
  "prims \<Rightarrow> audit_rotation list \<Rightarrow> trusted_keys \<Rightarrow> verify_state \<Rightarrow> audit_entry list \<Rightarrow> verify_state result" where
  "verify_entries P rotations keys v [] = Inr v"
| "verify_entries P rotations keys v (e # es) =
     rbind (verify_entry P rotations keys v e) (\<lambda>v'. verify_entries P rotations keys v' es)"

definition verify_start :: verify_state where
  "verify_start = \<lparr>vs_sequence = 0, vs_previous = zero_digest, vs_active = None, vs_rotations = 0\<rparr>"

definition verify_audit_chain :: "prims \<Rightarrow> token \<Rightarrow> trusted_keys \<Rightarrow> audit_db \<Rightarrow> unit result" where
  "verify_audit_chain P final_key keys db =
     rbind (load_audit_rotations [] (ad_rotations db)) (\<lambda>rotations.
     rbind (verify_entries P rotations keys verify_start (ad_entries db)) (\<lambda>v.
     if vs_rotations v \<noteq> length rotations
        \<or> (case vs_active v of None \<Rightarrow> False | Some k \<Rightarrow> k \<noteq> final_key)
     then Inl audit_degraded_error else Inr ()))"

subsection \<open>Appending\<close>

text \<open>The last row's hash needs no parsing here: the chain was verified just before, so it is a
  computed digest.\<close>

definition append_audit_entry ::
  "prims \<Rightarrow> string \<Rightarrow> json \<Rightarrow> token \<Rightarrow> bytes \<Rightarrow> token \<Rightarrow> trusted_keys \<Rightarrow> audit_db \<Rightarrow> audit_db result" where
  "append_audit_entry P event payload key_id signing_key final_key keys db =
     rbind (verify_audit_chain P final_key keys db) (\<lambda>_.
     let (sequence, previous) =
           (if ad_entries db = [] then (0, zero_digest)
            else (ae_sequence (last (ad_entries db)) + 1, ae_hash (last (ad_entries db))))
     in if sequence < 0 \<or> sequence \<ge> 2 ^ 63 then Inl (err MalformedFrame)
     else
       let payload_jcs = p_jcs P payload;
           entry_hash = p_sha256 P (entry_preimage (word_of_int sequence) previous event payload_jcs)
       in Inr (db\<lparr>ad_entries := ad_entries db @
            [\<lparr>ae_sequence = sequence, ae_event = event, ae_payload = payload_jcs,
              ae_previous = previous, ae_hash = entry_hash, ae_key_id = Some key_id,
              ae_signature = Some (p_sign P signing_key (entry_message entry_hash))\<rparr>]\<rparr>))"

definition insert_trusted_audit_key :: "trusted_keys \<Rightarrow> token \<Rightarrow> bytes \<Rightarrow> trusted_keys result" where
  "insert_trusted_audit_key keys key_id key =
     (case keys key_id of
        Some existing \<Rightarrow> if existing \<noteq> key then Inl (err MalformedFrame) else Inr (keys(key_id \<mapsto> key))
      | None \<Rightarrow> Inr (keys(key_id \<mapsto> key)))"

subsection \<open>The latch and key rotation\<close>

record audit_state =
  aud_db :: audit_db
  aud_keys :: audit_keys
  aud_degraded :: bool
  aud_cause :: "string option"

definition latch_audit_degraded_with :: "string \<Rightarrow> audit_state \<Rightarrow> audit_state" where
  "latch_audit_degraded_with cause st =
     st\<lparr>aud_degraded := True,
        aud_cause := (case aud_cause st of Some c \<Rightarrow> Some c | None \<Rightarrow> Some cause)\<rparr>"

definition latch_audit_degraded :: "audit_state \<Rightarrow> audit_state" where
  "latch_audit_degraded st = latch_audit_degraded_with ''audit_verification_failed'' st"

text \<open>An error of the rotation's transaction, with whether it latches the Signer.\<close>

type_synonym 'a latching = "(bool \<times> protocol_error) + 'a"

definition with_latch :: "bool \<Rightarrow> 'a result \<Rightarrow> 'a latching" where
  "with_latch latch r = (case r of Inl e \<Rightarrow> Inl (latch, e) | Inr x \<Rightarrow> Inr x)"

definition insert_rotation :: "audit_rotation \<Rightarrow> audit_db \<Rightarrow> audit_db result" where
  "insert_rotation r db =
     (if list_ex (\<lambda>q. case q of None \<Rightarrow> False
                      | Some q \<Rightarrow> ro_first_new_sequence q = ro_first_new_sequence r) (ad_rotations db)
      then Inl (err ServiceUnavailable)
      else Inr (db\<lparr>ad_rotations := ad_rotations db @ [Some r]\<rparr>))"

definition anchor_chain :: "prims \<Rightarrow> audit_keys \<Rightarrow> audit_db \<Rightarrow> audit_db result" where
  "anchor_chain P keys db =
     (if ad_entries db \<noteq> [] then Inr db
      else append_audit_entry P ''audit.key_rotation_anchor''
             (JObj [(''key_id'', JStr (ak_current_id keys))]) (ak_current_id keys)
             (ak_signing_key keys) (ak_current_id keys) (ak_trusted keys) db)"

definition rotation_record ::
  "prims \<Rightarrow> audit_keys \<Rightarrow> token \<Rightarrow> bytes \<Rightarrow> u64 \<Rightarrow> digest32 \<Rightarrow> u64 \<Rightarrow> digest32 \<Rightarrow> audit_rotation" where
  "rotation_record P keys new_id new_key final_old_sequence final_old_head first_new_sequence first_new_head =
     (let r = \<lparr>ro_old_key = ak_current_id keys, ro_new_key = new_id,
               ro_final_old_sequence = final_old_sequence, ro_final_old_head = final_old_head,
               ro_first_new_sequence = first_new_sequence, ro_first_new_head = first_new_head,
               ro_old_signature = [], ro_new_signature = []\<rparr>;
          message = audit_rotation_message P r
      in r\<lparr>ro_old_signature := p_sign P (ak_signing_key keys) message,
           ro_new_signature := p_sign P new_key message\<rparr>)"

definition rotation_transaction ::
  "prims \<Rightarrow> audit_keys \<Rightarrow> token \<Rightarrow> bytes \<Rightarrow> audit_db \<Rightarrow> (audit_db \<times> trusted_keys) latching" where
  "rotation_transaction P keys new_id new_key db =
     rbind (with_latch False (verify_audit_chain P (ak_current_id keys) (ak_trusted keys) db)) (\<lambda>_.
     rbind (with_latch True (anchor_chain P keys db)) (\<lambda>db1.
     if ad_entries db1 = [] then Inl (False, err ServiceUnavailable)
     else
       let last_row = last (ad_entries db1); final_old_head = ae_hash last_row in
       if ae_sequence last_row < 0 then Inl (False, err MalformedFrame)
       else
         let final_old_sequence = word_of_int (ae_sequence last_row) in
         rbind (with_latch False (ok_or (checked_add final_old_sequence 1) (err MalformedFrame))) (\<lambda>first_new.
         rbind (with_latch False (insert_trusted_audit_key (ak_trusted keys) new_id (p_public P new_key))) (\<lambda>trusted.
         rbind (with_latch True (append_audit_entry P ''audit.key_rotated''
                  (JObj [(''old_key_id'', JStr (ak_current_id keys)), (''new_key_id'', JStr new_id),
                         (''final_old_sequence'', JStr (show_u64 final_old_sequence)),
                         (''final_old_head'', JStr final_old_head)])
                  new_id new_key (ak_current_id keys) (ak_trusted keys) db1)) (\<lambda>db2.
         if unat first_new \<ge> 2 ^ 63 then Inl (False, err MalformedFrame)
         else
           rbind (with_latch False (ok_or (find (\<lambda>e. ae_sequence e = uint first_new) (ad_entries db2))
                    (err ServiceUnavailable))) (\<lambda>row.
           rbind (with_latch True (insert_rotation
                    (rotation_record P keys new_id new_key final_old_sequence final_old_head first_new (ae_hash row))
                    db2)) (\<lambda>db3.
           rbind (with_latch True (verify_audit_chain P new_id trusted db3)) (\<lambda>_. Inr (db3, trusted)))))))))"

definition rotate_audit_key :: "prims \<Rightarrow> token \<Rightarrow> bytes \<Rightarrow> audit_state \<Rightarrow> audit_state \<times> unit result" where
  "rotate_audit_key P new_id new_key st =
     (let keys = aud_keys st in
      if aud_degraded st then (st, Inl audit_degraded_error)
      else if new_id = ak_current_id keys \<or> p_public P new_key = p_public P (ak_signing_key keys)
      then (st, Inl (err MalformedFrame))
      else case rotation_transaction P keys new_id new_key (aud_db st) of
        Inl (latch, e) \<Rightarrow> (if latch then latch_audit_degraded st else st, Inl e)
      | Inr (db, trusted) \<Rightarrow>
          (st\<lparr>aud_db := db,
              aud_keys := \<lparr>ak_current_id = new_id, ak_signing_key = new_key, ak_trusted = trusted\<rparr>\<rparr>,
           Inr ()))"

subsection \<open>The cached head\<close>

text \<open>\<open>data_version\<close> and \<open>total_changes\<close> are SQLite's change counters of the connection; the cache
  keeps them with the sequence and the head they were verified at.\<close>

record audit_tail =
  tl_sequence :: u64
  tl_head :: digest32
  tl_data_version :: int
  tl_total_changes :: u64

record tail_state =
  ts_verified :: "audit_tail option"
  ts_pending :: "audit_tail option"

definition read_verified_audit_tail :: "audit_db \<Rightarrow> int \<Rightarrow> u64 \<Rightarrow> audit_tail result" where
  "read_verified_audit_tail db data_version total_changes =
     rbind (if ad_entries db = [] then Inr (0, zero_digest)
            else
              let e = last (ad_entries db) in
              if ae_sequence e < 0 then Inl (err MalformedFrame)
              else rbind (ok_or (checked_add (word_of_int (ae_sequence e)) 1) (err MalformedFrame))
                     (\<lambda>n. Inr (n, ae_hash e))) (\<lambda>(sequence, head).
       Inr \<lparr>tl_sequence = sequence, tl_head = head, tl_data_version = data_version,
            tl_total_changes = total_changes\<rparr>)"

definition cached_audit_head ::
  "prims \<Rightarrow> audit_keys \<Rightarrow> audit_db \<Rightarrow> int \<Rightarrow> u64 \<Rightarrow> tail_state \<Rightarrow> tail_state \<times> (u64 \<times> digest32) result" where
  "cached_audit_head P keys db data_version total_changes cache =
     (case read_verified_audit_tail db data_version total_changes of
        Inl e \<Rightarrow> (cache, Inl e)
      | Inr observed \<Rightarrow>
          if ts_verified cache = Some observed then (cache, Inr (tl_sequence observed, tl_head observed))
          else if ts_pending cache = Some observed
               \<and> (case ts_verified cache of None \<Rightarrow> False | Some v \<Rightarrow> tl_data_version v = data_version)
          then (\<lparr>ts_verified = Some observed, ts_pending = None\<rparr>,
                Inr (tl_sequence observed, tl_head observed))
          else
            (case verify_audit_chain P (ak_current_id keys) (ak_trusted keys) db of
               Inl e \<Rightarrow> (cache, Inl e)
             | Inr _ \<Rightarrow> (\<lparr>ts_verified = Some observed, ts_pending = None\<rparr>,
                         Inr (tl_sequence observed, tl_head observed))))"

subsection \<open>What a verified chain is\<close>

definition entry_pre :: "audit_entry \<Rightarrow> bytes" where
  "entry_pre e = entry_preimage (word_of_int (ae_sequence e)) (ae_previous e) (ae_event e) (ae_payload e)"

definition entry_signed :: "prims \<Rightarrow> trusted_keys \<Rightarrow> audit_entry \<Rightarrow> bool" where
  "entry_signed P keys e =
     (case (ae_key_id e, ae_signature e) of
        (Some k, Some s) \<Rightarrow> signed_by P keys (entry_message (ae_hash e)) k s
      | _ \<Rightarrow> False)"

lemma verify_entry_InrD:
  assumes "verify_entry P R keys v e = Inr v'"
  shows "ae_sequence e = uint (vs_sequence v) \<and> ae_previous e = vs_previous v
    \<and> ae_hash e = p_sha256 P (entry_pre e) \<and> entry_signed P keys e
    \<and> checked_add (vs_sequence v) 1 = Some (vs_sequence v') \<and> vs_previous v' = ae_hash e
    \<and> vs_active v' = ae_key_id e
    \<and> (\<exists>k. ae_key_id e = Some k \<and> check_key_change P R keys v k (ae_hash e) = Inr (vs_rotations v'))"
  using assms
  by (auto simp: verify_entry_def result_simps Let_def entry_pre_def entry_signed_def signed_by_def
      split: if_splits)

lemma verify_entries_append:
  "verify_entries P R keys v (xs @ ys) =
     rbind (verify_entries P R keys v xs) (\<lambda>v'. verify_entries P R keys v' ys)"
proof (induction xs arbitrary: v)
  case (Cons x xs)
  then show ?case by (cases "verify_entry P R keys v x") simp_all
qed simp

lemma verify_entries_spec:
  assumes "verify_entries P R keys v es = Inr v'"
  shows "linked ae_previous ae_hash entry_pre (p_sha256 P) (vs_previous v) es
    \<and> vs_previous v' = head_hash ae_hash (vs_previous v) es
    \<and> unat (vs_sequence v') = unat (vs_sequence v) + length es
    \<and> vs_active v' = (if es = [] then vs_active v else ae_key_id (last es))
    \<and> (\<forall>i < length es. ae_sequence (es ! i) = int (unat (vs_sequence v) + i))
    \<and> list_all (entry_signed P keys) es"
  using assms
proof (induction es arbitrary: v)
  case Nil
  then show ?case by (simp add: head_hash_def)
next
  case (Cons e es)
  from Cons.prems obtain w where w: "verify_entry P R keys v e = Inr w"
    "verify_entries P R keys w es = Inr v'" by (auto simp: result_simps)
  note h = verify_entry_InrD [OF w(1)] and t = Cons.IH [OF w(2)]
  have seq: "unat (vs_sequence w) = unat (vs_sequence v) + 1"
    using h by (auto dest: checked_add_SomeD)
  have "ae_sequence ((e # es) ! i) = int (unat (vs_sequence v) + i)" if "i < length (e # es)" for i
  proof (cases i)
    case 0
    then show ?thesis using h by simp
  next
    case (Suc j)
    with that t have "ae_sequence (es ! j) = int (unat (vs_sequence w) + j)" by simp
    with Suc show ?thesis unfolding seq by simp
  qed
  with h t seq show ?case by (auto simp: head_hash_def)
qed

lemma rotation_at_filter:
  assumes "rotation_at R n = Some r" "checked_add n 1 = Some m"
  shows "length (filter (\<lambda>r. m \<le> ro_first_new_sequence r) R) + 1
       \<le> length (filter (\<lambda>r. n \<le> ro_first_new_sequence r) R)"
proof -
  have r: "r \<in> set R" "ro_first_new_sequence r = n"
    using assms(1) by (auto simp: rotation_at_def find_Some_iff)
  have nm: "m \<le> x \<Longrightarrow> n \<le> x" "\<not> m \<le> n" for x
    using checked_add_SomeD [OF assms(2)] by (auto simp: word_le_nat_alt)
  have conj: "m \<le> x \<longleftrightarrow> n \<le> x \<and> m \<le> x" for x using nm(1) by blast
  have "filter (\<lambda>r. m \<le> ro_first_new_sequence r) R
      = filter (\<lambda>r. m \<le> ro_first_new_sequence r) (filter (\<lambda>r. n \<le> ro_first_new_sequence r) R)"
    unfolding filter_filter by (rule filter_cong [OF refl conj])
  also have "length \<dots> < length (filter (\<lambda>r. n \<le> ro_first_new_sequence r) R)"
    using r nm(2) by (intro length_filter_less [of r]) auto
  finally show ?thesis by simp
qed

lemma filter_le_Suc:
  assumes "checked_add n 1 = Some m"
  shows "length (filter (\<lambda>r. m \<le> ro_first_new_sequence r) R)
       \<le> length (filter (\<lambda>r. n \<le> ro_first_new_sequence r) R)"
proof (induction R)
  case (Cons r R)
  have "m \<le> x \<Longrightarrow> n \<le> x" for x using checked_add_SomeD [OF assms] by (auto simp: word_le_nat_alt)
  with Cons show ?case by auto
qed simp

text \<open>Each rotation counted uses up one recorded rotation below the next sequence.\<close>

lemma verify_entries_rotations:
  "verify_entries P R keys v es = Inr v' \<Longrightarrow>
   vs_rotations v' + length (filter (\<lambda>r. vs_sequence v' \<le> ro_first_new_sequence r) R)
     \<le> vs_rotations v + length (filter (\<lambda>r. vs_sequence v \<le> ro_first_new_sequence r) R)"
proof (induction es arbitrary: v)
  case (Cons e es)
  from Cons.prems obtain w where w: "verify_entry P R keys v e = Inr w"
    "verify_entries P R keys w es = Inr v'" by (auto simp: result_simps)
  from verify_entry_InrD [OF w(1)] obtain k where
    next_seq: "checked_add (vs_sequence v) 1 = Some (vs_sequence w)"
    and ch: "check_key_change P R keys v k (ae_hash e) = Inr (vs_rotations w)" by blast
  from ch consider "vs_rotations w = vs_rotations v"
    | r where "rotation_at R (vs_sequence v) = Some r" "vs_rotations w = vs_rotations v + 1"
    by (auto simp: check_key_change_def result_simps split: option.splits if_splits)
  then have "vs_rotations w + length (filter (\<lambda>r. vs_sequence w \<le> ro_first_new_sequence r) R)
     \<le> vs_rotations v + length (filter (\<lambda>r. vs_sequence v \<le> ro_first_new_sequence r) R)"
    using filter_le_Suc [OF next_seq] rotation_at_filter [OF _ next_seq] by cases fastforce+
  with Cons.IH [OF w(2)] show ?case by simp
qed simp

lemma verified_chainD:
  assumes "verify_audit_chain P k keys db = Inr ()"
  obtains R v where "load_audit_rotations [] (ad_rotations db) = Inr R"
    "verify_entries P R keys verify_start (ad_entries db) = Inr v"
    "vs_rotations v = length R" "vs_active v = None \<or> vs_active v = Some k"
    "rotation_at R (vs_sequence v) = None" "list_all (\<lambda>r. ro_first_new_sequence r < vs_sequence v) R"
proof -
  from assms obtain R v where R: "load_audit_rotations [] (ad_rotations db) = Inr R"
    "verify_entries P R keys verify_start (ad_entries db) = Inr v"
    "vs_rotations v = length R" "vs_active v = None \<or> vs_active v = Some k"
    by (auto simp: verify_audit_chain_def result_simps split: if_splits option.splits)
  have "length R + length (filter (\<lambda>r. vs_sequence v \<le> ro_first_new_sequence r) R) \<le> length R"
    using verify_entries_rotations [OF R(2)] R(3) by (simp add: verify_start_def)
  then have "filter (\<lambda>r. vs_sequence v \<le> ro_first_new_sequence r) R = []" by simp
  then have below: "list_all (\<lambda>r. ro_first_new_sequence r < vs_sequence v) R"
    by (simp add: filter_empty_conv list_all_iff not_le)
  then have "rotation_at R (vs_sequence v) = None"
    by (auto simp: rotation_at_def find_None_iff list_all_iff)
  with R below that show ?thesis by blast
qed

lemma length_str_bytes [simp]: "length (str_bytes s) = length s"
  by (simp add: str_bytes_def)

interpretation audit_journal: hash_chain ae_previous ae_hash entry_pre
proof
  fix x y assume "entry_pre x = entry_pre y" "length (ae_previous x) = length (ae_previous y)"
  then show "ae_previous x = ae_previous y" by (simp add: entry_pre_def entry_preimage_def)
qed

lemma verified_linked:
  assumes "verify_audit_chain P k keys db = Inr ()"
  shows "linked ae_previous ae_hash entry_pre (p_sha256 P) zero_digest (ad_entries db)
    \<and> list_all (entry_signed P keys) (ad_entries db)
    \<and> map ae_sequence (ad_entries db) = map int [0..<length (ad_entries db)]
    \<and> (ad_entries db \<noteq> [] \<longrightarrow> ae_key_id (last (ad_entries db)) = Some k)"
proof -
  from assms obtain R v where v: "verify_entries P R keys verify_start (ad_entries db) = Inr v"
    "vs_active v = None \<or> vs_active v = Some k" by (rule verified_chainD)
  note spec = verify_entries_spec [OF v(1)]
  have "ae_key_id (last (ad_entries db)) = Some k" if ne: "ad_entries db \<noteq> []"
  proof -
    have "entry_signed P keys (last (ad_entries db))"
      using spec ne by (auto simp: list_all_iff)
    then have "ae_key_id (last (ad_entries db)) \<noteq> None"
      by (auto simp: entry_signed_def split: option.splits)
    with spec v(2) ne show ?thesis by auto
  qed
  moreover have "map ae_sequence (ad_entries db) = map int [0..<length (ad_entries db)]"
    using spec by (auto intro!: nth_equalityI simp: verify_start_def)
  ultimately show ?thesis using spec by (simp add: verify_start_def)
qed

lemma verified_last_sequence:
  assumes "verify_audit_chain P k keys db = Inr ()" "ad_entries db \<noteq> []"
  shows "ae_sequence (last (ad_entries db)) = int (length (ad_entries db)) - 1"
proof -
  have "last (map ae_sequence (ad_entries db)) = last (map int [0..<length (ad_entries db)])"
    using verified_linked [OF assms(1)] by simp
  with assms(2) show ?thesis by (cases "length (ad_entries db)") (simp_all add: last_map)
qed

text \<open>Ed25519 on the keys at hand: signatures have 64 bytes and verify under the key's public half.\<close>

definition signs_well :: "prims \<Rightarrow> bytes \<Rightarrow> bool" where
  "signs_well P key = (\<forall>m. length (p_sign P key m) = 64 \<and> p_verify P (p_public P key) m (p_sign P key m))"

lemma signs_well_signed_by:
  "signs_well P key \<Longrightarrow> keys k = Some (p_public P key) \<Longrightarrow> signed_by P keys m k (p_sign P key m)"
  by (simp add: signed_by_def signs_well_def)

text \<open>The row \<open>append_audit_entry\<close> adds to a verified chain.\<close>

definition next_entry :: "prims \<Rightarrow> string \<Rightarrow> json \<Rightarrow> token \<Rightarrow> bytes \<Rightarrow> audit_entry list \<Rightarrow> audit_entry" where
  "next_entry P event payload key_id key es =
     (let previous = head_hash ae_hash zero_digest es;
          h = p_sha256 P (entry_preimage (of_nat (length es)) previous event (p_jcs P payload))
      in \<lparr>ae_sequence = int (length es), ae_event = event, ae_payload = p_jcs P payload,
          ae_previous = previous, ae_hash = h, ae_key_id = Some key_id,
          ae_signature = Some (p_sign P key (entry_message h))\<rparr>)"

lemma append_audit_entry_eq:
  assumes ver: "verify_audit_chain P k keys db = Inr ()" and len: "length (ad_entries db) < 2 ^ 63"
  shows "append_audit_entry P event payload key_id key k keys db
    = Inr (db\<lparr>ad_entries := ad_entries db @ [next_entry P event payload key_id key (ad_entries db)]\<rparr>)"
proof (cases "ad_entries db = []")
  case True
  then show ?thesis
    using ver by (simp add: append_audit_entry_def next_entry_def head_hash_def Let_def)
next
  case False
  note l = verified_last_sequence [OF ver False]
  have "int (length (ad_entries db)) < 2 ^ 63" using len by (metis of_nat_less_iff of_nat_numeral of_nat_power)
  with False ver l show ?thesis
    by (simp add: append_audit_entry_def next_entry_def head_hash_def Let_def)
qed

lemma append_audit_entry_InrD:
  assumes "append_audit_entry P event payload key_id key k keys db = Inr db'"
  shows "verify_audit_chain P k keys db = Inr ()" "length (ad_entries db) < 2 ^ 63"
    "db' = db\<lparr>ad_entries := ad_entries db @ [next_entry P event payload key_id key (ad_entries db)]\<rparr>"
proof -
  show ver: "verify_audit_chain P k keys db = Inr ()"
    using assms by (auto simp: append_audit_entry_def result_simps)
  show room: "length (ad_entries db) < 2 ^ 63"
  proof (cases "ad_entries db = []")
    case False
    with assms verified_last_sequence [OF ver False] ver show ?thesis
      by (auto simp: append_audit_entry_def Let_def split: if_splits)
  qed simp
  from append_audit_entry_eq [OF ver room] assms
  show "db' = db\<lparr>ad_entries := ad_entries db @ [next_entry P event payload key_id key (ad_entries db)]\<rparr>"
    by simp
qed

lemma verify_next_entry:
  assumes v: "verify_entries P R keys verify_start es = Inr v"
    and ch: "check_key_change P R keys v key_id (ae_hash (next_entry P event payload key_id key es)) = Inr n"
    and key: "signs_well P key" "keys key_id = Some (p_public P key)" and len: "length es < 2 ^ 63"
  shows "\<exists>w. verify_entries P R keys verify_start (es @ [next_entry P event payload key_id key es]) = Inr w
     \<and> vs_rotations w = n \<and> vs_active w = Some key_id"
proof -
  note spec = verify_entries_spec [OF v]
  have "unat (vs_sequence v) = length es" using spec by (simp add: verify_start_def)
  moreover have u: "unat (of_nat (length es) :: u64) = length es"
    using len by (simp add: unsigned_of_nat take_bit_nat_eq_self)
  ultimately have s: "vs_sequence v = of_nat (length es)" by (simp add: word_unat_eq_iff)
  have ca: "checked_add (of_nat (length es) :: u64) 1 = Some (of_nat (length es) + 1)"
    using len by (simp add: checked_add_def u)
  have p: "vs_previous v = head_hash ae_hash zero_digest es" using spec by (simp add: verify_start_def)
  have si: "uint (of_nat (length es) :: u64) = int (length es)" 
    using u by (metis uint_nat)
  show ?thesis
    using v ch key ca si by (simp add: verify_entries_append verify_entry_def next_entry_def Let_def s p signs_well_def)
qed

lemma append_verified:
  assumes ver: "verify_audit_chain P k keys db = Inr ()" and len: "length (ad_entries db) < 2 ^ 63"
    and key: "signs_well P key" "keys k = Some (p_public P key)"
  shows "verify_audit_chain P k keys
    (db\<lparr>ad_entries := ad_entries db @ [next_entry P event payload k key (ad_entries db)]\<rparr>) = Inr ()"
proof -
  from ver obtain R v where R: "load_audit_rotations [] (ad_rotations db) = Inr R"
    "verify_entries P R keys verify_start (ad_entries db) = Inr v"
    "vs_rotations v = length R" "vs_active v = None \<or> vs_active v = Some k"
    "rotation_at R (vs_sequence v) = None" by (rule verified_chainD)
  then have "check_key_change P R keys v k h = Inr (vs_rotations v)" for h
    by (auto simp: check_key_change_def)
  from verify_next_entry [OF R(2) this key len, of event payload] R show ?thesis
    by (auto simp: verify_audit_chain_def)
qed

lemma signed_by_mono: "keys \<subseteq>\<^sub>m keys' \<Longrightarrow> signed_by P keys m k s \<Longrightarrow> signed_by P keys' m k s"
  by (auto simp: signed_by_def map_le_def dom_def split: option.splits)

lemma verify_audit_rotation_mono:
  "keys \<subseteq>\<^sub>m keys' \<Longrightarrow> verify_audit_rotation P r a b n h h' keys = Inr ()
   \<Longrightarrow> verify_audit_rotation P r a b n h h' keys' = Inr ()"
  by (auto simp: verify_audit_rotation_def ensure_def intro: signed_by_mono split: if_splits)

lemma verify_entry_extend:
  assumes ok: "verify_entry P R keys v e = Inr v'" and keys: "keys \<subseteq>\<^sub>m keys'"
    and later: "vs_sequence v \<noteq> ro_first_new_sequence r"
  shows "verify_entry P (R @ [r]) keys' v e = Inr v'"
proof -
  have at: "rotation_at (R @ [r]) (vs_sequence v) = rotation_at R (vs_sequence v)"
    using later by (induction R) (auto simp: rotation_at_def)
  have change: "check_key_change P (R @ [r]) keys' v k h = Inr n"
    if "check_key_change P R keys v k h = Inr n" for k h n
    using that verify_audit_rotation_mono [OF keys]
    by (fastforce simp: check_key_change_def at result_simps split: option.splits if_splits)
  have "keys' k = Some pk" if "keys k = Some pk" for k pk
    using keys that by (auto simp: map_le_def dom_def)
  with ok change show ?thesis
    by (fastforce simp: verify_entry_def result_simps Let_def split: if_splits)
qed

lemma verify_entries_extend:
  "verify_entries P R keys v es = Inr v' \<Longrightarrow> keys \<subseteq>\<^sub>m keys'
   \<Longrightarrow> unat (vs_sequence v) + length es \<le> unat (ro_first_new_sequence r)
   \<Longrightarrow> verify_entries P (R @ [r]) keys' v es = Inr v'"
proof (induction es arbitrary: v)
  case (Cons e es)
  from Cons.prems(1) obtain w where w: "verify_entry P R keys v e = Inr w"
    "verify_entries P R keys w es = Inr v'" by (auto simp: result_simps)
  have seq: "unat (vs_sequence w) = unat (vs_sequence v) + 1"
    using verify_entry_InrD [OF w(1)] by (auto dest: checked_add_SomeD)
  have ne: "vs_sequence v \<noteq> ro_first_new_sequence r" using Cons.prems(3) by auto
  have "unat (vs_sequence w) + length es \<le> unat (ro_first_new_sequence r)" using Cons.prems(3) seq by simp
  from Cons.IH [OF w(2) Cons.prems(2) this] verify_entry_extend [OF w(1) Cons.prems(2) ne]
  show ?case by simp
qed simp

lemma load_audit_rotations_snoc:
  "load_audit_rotations acc (rows @ [Some r]) =
     rbind (load_audit_rotations acc rows) (\<lambda>R.
       if list_ex (\<lambda>q. ro_first_new_sequence q = ro_first_new_sequence r) R
       then Inl audit_degraded_error else Inr (R @ [r]))"
  by (induction acc rows rule: load_audit_rotations.induct) auto

lemma load_audit_rotations_rows:
  "load_audit_rotations acc rows = Inr R \<Longrightarrow> R = acc @ map the rows \<and> None \<notin> set rows"
  by (induction acc rows rule: load_audit_rotations.induct) (auto split: if_splits)

lemma insert_trusted_extends:
  assumes "insert_trusted_audit_key keys k key = Inr keys'"
  shows "keys \<subseteq>\<^sub>m keys'" "keys' k = Some key"
  using assms by (auto simp: insert_trusted_audit_key_def map_le_def dom_def split: option.splits if_splits)

text \<open>Recording the rotation of a chain whose last row was signed by the new key.\<close>

lemma rotation_verified:
  assumes ver: "verify_audit_chain P (ak_current_id keys) (ak_trusted keys) db = Inr ()"
    and ne: "ad_entries db \<noteq> []" and len: "length (ad_entries db) < 2 ^ 63"
    and new: "new_id \<noteq> ak_current_id keys"
    and trusted: "insert_trusted_audit_key (ak_trusted keys) new_id (p_public P new_key) = Inr trusted"
    and old_key: "signs_well P (ak_signing_key keys)"
      "ak_trusted keys (ak_current_id keys) = Some (p_public P (ak_signing_key keys))"
    and new_key: "signs_well P new_key"
    and e: "e = next_entry P event payload new_id new_key (ad_entries db)"
    and r: "r = rotation_record P keys new_id new_key (of_nat (length (ad_entries db) - 1))
              (ae_hash (last (ad_entries db))) (of_nat (length (ad_entries db))) (ae_hash e)"
  shows "verify_audit_chain P new_id trusted
     (db\<lparr>ad_entries := ad_entries db @ [e], ad_rotations := ad_rotations db @ [Some r]\<rparr>) = Inr ()"
proof -
  let ?n = "length (ad_entries db)"
  from ver obtain R v where R: "load_audit_rotations [] (ad_rotations db) = Inr R"
    "verify_entries P R (ak_trusted keys) verify_start (ad_entries db) = Inr v"
    "vs_rotations v = length R" "vs_active v = None \<or> vs_active v = Some (ak_current_id keys)"
    "list_all (\<lambda>r. ro_first_new_sequence r < vs_sequence v) R" by (rule verified_chainD) blast
  note spec = verify_entries_spec [OF R(2)] and ext = insert_trusted_extends [OF trusted]
  have u: "unat (of_nat m :: u64) = m" if "m \<le> ?n" for m
    using len that by (simp add: unsigned_of_nat take_bit_nat_eq_self)
  have seq: "vs_sequence v = of_nat ?n"
    using spec u [of ?n] by (simp add: word_unat_eq_iff verify_start_def)
  have fields: "ro_old_key r = ak_current_id keys" "ro_new_key r = new_id"
    "ro_first_new_sequence r = of_nat ?n" "ro_final_old_sequence r = of_nat (?n - 1)"
    "ro_final_old_head r = ae_hash (last (ad_entries db))" "ro_first_new_head r = ae_hash e"
    by (simp_all add: r rotation_record_def Let_def)
  have sigs: "ro_old_signature r = p_sign P (ak_signing_key keys) (audit_rotation_message P r)"
    "ro_new_signature r = p_sign P new_key (audit_rotation_message P r)"
    by (simp_all add: r rotation_record_def Let_def audit_rotation_message_def)
  have "ak_trusted keys \<subseteq>\<^sub>m trusted" by (rule ext(1))
  then have old_trusted: "trusted (ak_current_id keys) = Some (p_public P (ak_signing_key keys))"
    using old_key(2) by (auto simp: map_le_def dom_def)
  have v2: "verify_entries P (R @ [r]) trusted verify_start (ad_entries db) = Inr v"
    by (rule verify_entries_extend [OF R(2) ext(1)]) (simp add: fields u verify_start_def)
  have act: "vs_active v = Some (ak_current_id keys)"
    using verified_linked [OF ver] spec ne by simp
  have "vs_previous v = ae_hash (last (ad_entries db))" using spec ne by (simp add: head_hash_def)
  moreover have "checked_add (of_nat (?n - 1) :: u64) 1 = Some (of_nat ?n)"
    using ne len u [of "?n - 1"] by (cases ?n) (simp_all add: checked_add_def)
  ultimately have rot: "verify_audit_rotation P r (ak_current_id keys) new_id (vs_sequence v) (vs_previous v)
      (ae_hash e) trusted = Inr ()"
    using signs_well_signed_by [of P "ak_signing_key keys" trusted "ak_current_id keys"] old_key(1)
      old_trusted signs_well_signed_by [of P new_key trusted new_id] new_key ext(2)
    by (simp add: verify_audit_rotation_def fields seq sigs)
  have none: "rotation_at R (vs_sequence v) = None"
    using R(5) by (auto simp: rotation_at_def find_None_iff list_all_iff)
  then have "rotation_at (R @ [r]) (vs_sequence v) = Some r"
    by (induction R) (auto simp: rotation_at_def fields seq split: if_splits)
  then have "check_key_change P (R @ [r]) trusted v new_id (ae_hash e) = Inr (vs_rotations v + 1)"
    using act new rot by (simp add: check_key_change_def)
  from verify_next_entry [OF v2 this [unfolded e] new_key ext(2) len]
  obtain w where w: "verify_entries P (R @ [r]) trusted verify_start (ad_entries db @ [e]) = Inr w"
    "vs_rotations w = vs_rotations v + 1" "vs_active w = Some new_id" unfolding e by blast
  have "\<not> list_ex (\<lambda>q. ro_first_new_sequence q = ro_first_new_sequence r) R"
    using R(5) by (auto simp: list_ex_iff list_all_iff fields seq)
  with R(1,3) w show ?thesis
    by (simp add: verify_audit_chain_def load_audit_rotations_snoc)
qed

lemma rotation_transaction_ok:
  assumes ver: "verify_audit_chain P (ak_current_id keys) (ak_trusted keys) db = Inr ()"
    and len: "length (ad_entries db) < 2 ^ 63 - 1" and new: "new_id \<noteq> ak_current_id keys"
    and trusted: "insert_trusted_audit_key (ak_trusted keys) new_id (p_public P new_key) = Inr trusted"
    and old_key: "signs_well P (ak_signing_key keys)"
      "ak_trusted keys (ak_current_id keys) = Some (p_public P (ak_signing_key keys))"
    and new_key: "signs_well P new_key"
  shows "\<exists>db'. rotation_transaction P keys new_id new_key db = Inr (db', trusted)
     \<and> verify_audit_chain P new_id trusted db' = Inr ()
     \<and> (\<exists>es. ad_entries db' = ad_entries db @ es) \<and> length (ad_rotations db') = length (ad_rotations db) + 1"
proof -
  have len': "length (ad_entries db) < 2 ^ 63" using len by simp
  obtain db1 where db1: "anchor_chain P keys db = Inr db1" "ad_entries db1 \<noteq> []"
    "verify_audit_chain P (ak_current_id keys) (ak_trusted keys) db1 = Inr ()"
    "\<exists>es. ad_entries db1 = ad_entries db @ es" "length (ad_entries db1) < 2 ^ 63"
    "ad_rotations db1 = ad_rotations db"
  proof (cases "ad_entries db = []")
    case True
    then show ?thesis
      using that append_audit_entry_eq [OF ver len'] append_verified [OF ver len' old_key]
      by (simp add: anchor_chain_def)
  next
    case False
    then show ?thesis using that [of db] ver len' by (simp add: anchor_chain_def)
  qed
  let ?n = "length (ad_entries db1)"
  let ?e = "next_entry P ''audit.key_rotated''
                  (JObj [(''old_key_id'', JStr (ak_current_id keys)), (''new_key_id'', JStr new_id),
                         (''final_old_sequence'', JStr (show_u64 (of_nat (?n - 1)))),
                         (''final_old_head'', JStr (ae_hash (last (ad_entries db1))))])
                  new_id new_key (ad_entries db1)"
  let ?r = "rotation_record P keys new_id new_key (of_nat (?n - 1)) (ae_hash (last (ad_entries db1)))
     (of_nat ?n) (ae_hash ?e)"
  let ?db' = "db1\<lparr>ad_entries := ad_entries db1 @ [?e], ad_rotations := ad_rotations db1 @ [Some ?r]\<rparr>"
  have fin: "verify_audit_chain P new_id trusted ?db' = Inr ()"
    by (rule rotation_verified [OF db1(3,2,5) new trusted old_key new_key refl refl])
  have last_seq: "ae_sequence (last (ad_entries db1)) = int ?n - 1"
    by (rule verified_last_sequence [OF db1(3,2)])
  have n: "0 < ?n" using db1(2) by simp
  then have seq: "word_of_int (ae_sequence (last (ad_entries db1))) = (of_nat (?n - 1) :: u64)"
    by (cases ?n) (simp_all add: last_seq)
  have u: "unat (of_nat m :: u64) = m" "uint (of_nat m :: u64) = int m" if "m \<le> ?n" for m
    using db1(5) that by (simp_all add: unsigned_of_nat take_bit_nat_eq_self unsigned_of_int take_bit_int_eq_self)
  have ca: "checked_add (of_nat (?n - 1) :: u64) 1 = Some (of_nat ?n)"
    using n db1(5) u(1) [of "?n - 1"] by (cases ?n) (simp_all add: checked_add_def)
  have app: "append_audit_entry P ev pl new_id new_key (ak_current_id keys) (ak_trusted keys) db1
     = Inr (db1\<lparr>ad_entries := ad_entries db1 @ [next_entry P ev pl new_id new_key (ad_entries db1)]\<rparr>)" for ev pl
    by (rule append_audit_entry_eq [OF db1(3,5)])
  have "\<not> (\<exists>e\<in>set (ad_entries db1). ae_sequence e = int ?n)"
  proof
    assume "\<exists>e\<in>set (ad_entries db1). ae_sequence e = int ?n"
    then have "int ?n \<in> set (map ae_sequence (ad_entries db1))" by force
    also have "map ae_sequence (ad_entries db1) = map int [0..<?n]"
      using verified_linked [OF db1(3)] by simp
    finally show False by auto
  qed
  then have "find (\<lambda>e. ae_sequence e = int ?n) (ad_entries db1) = None" by (auto simp: find_None_iff)
  then have found: "find (\<lambda>e. ae_sequence e = int ?n) (ad_entries db1 @ [e']) = Some e'"
    if "ae_sequence e' = int ?n" for e'
    using that by (induction "ad_entries db1") (auto split: if_splits simp: find_None_iff find_Some_iff nth_append)
  from fin have "load_audit_rotations [] (ad_rotations db1 @ [Some ?r]) \<noteq> Inl e" for e
    by (auto simp: verify_audit_chain_def)
  then have ins: "insert_rotation ?r (db1\<lparr>ad_entries := ad_entries db1 @ [?e]\<rparr>) = Inr ?db'"
    using load_audit_rotations_rows [of "[]" "ad_rotations db1"]
    by (cases "load_audit_rotations [] (ad_rotations db1)")
      (fastforce simp: load_audit_rotations_snoc insert_rotation_def list_ex_iff split: option.splits if_splits)+
  have eseq: "ae_sequence (next_entry P ev pl new_id new_key (ad_entries db1)) = int ?n" for ev pl
    by (simp add: next_entry_def Let_def)
  have pred: "(of_nat (?n - Suc 0) :: u64) = of_nat ?n - 1" using n by (cases ?n) simp_all
  have "rotation_transaction P keys new_id new_key db = Inr (?db', trusted)"
    using ver db1(1,2,5) last_seq seq ca trusted ins fin n
    by (simp add: rotation_transaction_def with_latch_def Let_def app found eseq u pred)
  with fin db1(4,6) show ?thesis by auto
qed

end
