(* ===== verification/Signer_State.thy ===== *)
theory Signer_State
  imports Sign_Request Petal_Key Surface Derivation_Registry Audit_Chain
begin

text \<open>
  The durable state of the engine (\<open>crates/bloom-signer/src/engine.rs\<close>, \<open>from_connection\<close>) and the
  backends it consults (\<open>crates/bloom-signer/src/registry.rs\<close> with the lookups of the local and
  AWS backends). A SQLite table is the list of its rows; \<open>INSERT\<close> fails on a primary key that is
  present. A text column the code parses when it reads it holds an option: \<open>None\<close> is text that
  does not parse, which the code reports as \<open>MalformedFrame\<close>. An operation is a transaction on the
  state: \<open>transact\<close> opens it behind the audit latch, keeps the old state on an error, and
  latches the Signer when the error came from the audit append.
\<close>

subsection \<open>Backends\<close>

record local_backend =
  lb_root :: "key_ref option"
  lb_registry :: "token \<Rightarrow> key_ref option"
  lb_active :: bool

record aws_backend =
  aw_enrolled :: "token \<Rightarrow> key_ref option"

datatype compiled_backend = LocalBackend local_backend | AwsKmsBackend aws_backend

type_synonym backend_registry = "token \<times> token \<Rightarrow> compiled_backend option"

definition local_key_is_registered :: "local_backend \<Rightarrow> key_ref \<Rightarrow> bool" where
  "local_key_is_registered b k = (lb_root b = Some k \<or> lb_registry b (kr_locator k) = Some k)"

definition local_key_is_available :: "local_backend \<Rightarrow> key_ref \<Rightarrow> bool" where
  "local_key_is_available b k = (if \<not> local_key_is_registered b k then False else lb_active b)"

definition aws_key_is_registered :: "aws_backend \<Rightarrow> key_ref \<Rightarrow> bool" where
  "aws_key_is_registered b k = (aw_enrolled b (kr_locator k) = Some k)"

definition aws_key_is_available :: "aws_backend \<Rightarrow> key_ref \<Rightarrow> bool" where
  "aws_key_is_available b k = aws_key_is_registered b k"

definition key_is_available :: "backend_registry \<Rightarrow> key_ref \<Rightarrow> bool result" where
  "key_is_available reg k =
     rbind (ok_or (reg (kr_backend k, kr_backend_instance k)) (err BackendUnsupported)) (\<lambda>backend.
       case backend of
         LocalBackend b \<Rightarrow> Inr (local_key_is_available b k)
       | AwsKmsBackend b \<Rightarrow> Inr (aws_key_is_available b k))"

definition key_is_registered :: "backend_registry \<Rightarrow> key_ref \<Rightarrow> bool result" where
  "key_is_registered reg k =
     rbind (ok_or (reg (kr_backend k, kr_backend_instance k)) (err BackendUnsupported)) (\<lambda>backend.
       case backend of
         LocalBackend b \<Rightarrow> Inr (local_key_is_registered b k)
       | AwsKmsBackend b \<Rightarrow> Inr (aws_key_is_registered b k))"

subsection \<open>Rows\<close>

record approval_row =
  ap_id :: digest32
  ap_wallet :: token
  ap_terms :: "approval_terms option"
  ap_active :: bool
  ap_operations :: "u64 option"
  ap_signatures :: "u64 option"

datatype op_state = Reserved | Dispatched | Committed | Released | Quarantined | UnknownState string

record operation_row =
  op_id :: operation_id
  op_digest :: digest32
  op_retry_binding :: digest32
  op_approval :: digest32
  op_signature_count :: "u64 option"
  op_accepted :: u64
  op_state :: op_state
  op_result :: "bytes option"

record anchor_row =
  an_operation :: operation_id
  an_observed :: "u64 option"
  an_monotonic :: u64
  an_boot_epoch :: string

record attempt_row =
  at_id :: digest32
  at_digest :: digest32
  at_operation :: operation_id

text \<open>\<open>clock_state\<close> holds at most one row; its boot epoch is \<open>None\<close> when the text is not one.\<close>

datatype clock_condition = Healthy | ForwardJumpRejected | Untrusted | RollbackFrozen | Repaired

record clock_row =
  cl_last :: "u64 option"
  cl_condition :: string
  cl_observed :: "u64 option"
  cl_anchor :: "u64 option"
  cl_boot_epoch :: "string option"

record clock_decision =
  cd_now :: u64
  cd_condition :: clock_condition
  cd_observed :: "u64 option"
  cd_monotonic :: u64
  cd_boot_epoch :: string

record enrolled_row =
  ek_fingerprint :: digest32
  ek_key_ref_jcs :: bytes
  ek_available :: bool
  ek_authority :: string

record petal_scope_row =
  pr_fingerprint :: digest32
  pr_scope :: "petal_scope option"
  pr_created :: "u64 option"
  pr_expires :: "u64 option"

record wallet_row =
  ws_wallet :: token
  ws_epoch :: "u64 option"
  ws_status :: string

record activation_receipt =
  rc_surface :: "surface_ref option"
  rc_generation :: "u64 option"
  rc_operation :: operation_id
  rc_ceremony :: digest32
  rc_approval :: digest32
  rc_approval_digest :: digest32
  rc_review_manifest :: digest32
  rc_key_ref :: key_ref
  rc_suites :: "crypto_suite list"
  rc_activation_mode :: activation_mode
  rc_epoch :: u64
  rc_replaced :: "digest32 option"
  rc_activated_at :: u64
  rc_expires_at :: u64
  rc_signer_key :: token
  rc_signature :: bytes

record ceremony_status_row =
  cs_operation :: operation_id
  cs_ceremony :: digest32
  cs_kind :: string
  cs_state :: string
  cs_expires_at :: u64
  cs_receipt_digest :: digest32

record approval_tombstone =
  tb_approval :: digest32
  tb_wallet :: token
  tb_epoch :: u64
  tb_reason :: string
  tb_operation :: operation_id
  tb_revoked_at :: u64
  tb_issuer :: token
  tb_key :: token
  tb_signature :: bytes

record wallet_tombstone =
  wt_wallet :: token
  wt_epoch :: u64
  wt_operation :: operation_id
  wt_revoked_at :: u64
  wt_issuer :: token
  wt_key :: token
  wt_signature :: bytes

record revocation_state =
  rs_wallet :: token
  rs_epoch :: u64
  rs_tombstone :: "wallet_tombstone option"
  rs_digest :: digest32
  rs_count :: u64
  rs_observed :: u64
  rs_issuer :: token
  rs_key :: token
  rs_signature :: bytes

text \<open>The stored result of a revocation operation; text that is neither reads as no result of the
  type asked for.\<close>

datatype revocation_result =
    ApprovalResult approval_tombstone | WalletResult revocation_state | OtherResult

record revocation_row =
  rr_operation :: operation_id
  rr_wallet :: token
  rr_digest :: digest32
  rr_result :: revocation_result

record tombstone_entry =
  te_approval :: digest32
  te_wallet :: token
  te_tombstone :: "approval_tombstone option"

record engine =
  en_audit :: audit_state
  en_broker_key_id :: token
  en_broker_key :: bytes
  en_revocation_key_id :: token
  en_revocation_key :: bytes
  en_backends :: backend_registry
  en_approvals :: "approval_row list"
  en_operations :: "operation_row list"
  en_anchors :: "anchor_row list"
  en_attempts :: "attempt_row list"
  en_enrolled :: "enrolled_row list"
  en_petal_scopes :: "petal_scope_row list"
  en_wallets :: "wallet_row list"
  en_generations :: "(token \<times> u64 option) list"
  en_surfaces :: "surface_descriptor list option"
  en_receipts :: "(operation_id \<times> activation_receipt) list"
  en_statuses :: "ceremony_status_row list"
  en_tombstones :: "tombstone_entry list"
  en_wallet_tombstones :: "(token \<times> wallet_tombstone option) list"
  en_revocations :: "revocation_row list"
  en_registry :: registry
  en_clock :: "clock_row option"

subsection \<open>Transactions\<close>

type_synonym 'a tx = "(bool \<times> protocol_error) + (engine \<times> 'a)"

abbreviation abort :: "protocol_error_code \<Rightarrow> (bool \<times> protocol_error) + 'a" where
  "abort code \<equiv> Inl (False, err code)"

text \<open>\<open>mutation_transaction\<close>: the latch, then the verification of the journal. The source asks the
  cached head, which answers as the full verification does.\<close>

definition journal_verified :: "prims \<Rightarrow> audit_state \<Rightarrow> bool" where
  "journal_verified P a =
     is_ok (verify_audit_chain P (ak_current_id (aud_keys a)) (ak_trusted (aud_keys a)) (aud_db a))"

definition mutation_transaction :: "prims \<Rightarrow> engine \<Rightarrow> engine \<times> unit result" where
  "mutation_transaction P st =
     (if aud_degraded (en_audit st) then (st, Inl audit_degraded_error)
      else if \<not> journal_verified P (en_audit st)
      then (st\<lparr>en_audit := latch_audit_degraded_with ''journal_verification_failed'' (en_audit st)\<rparr>,
            Inl audit_degraded_error)
      else (st, Inr ()))"

definition append_audit :: "prims \<Rightarrow> string \<Rightarrow> json \<Rightarrow> engine \<Rightarrow> (bool \<times> protocol_error) + engine" where
  "append_audit P event payload st =
     (let a = en_audit st; keys = aud_keys a in
      case append_audit_entry P event payload (ak_current_id keys) (ak_signing_key keys)
             (ak_current_id keys) (ak_trusted keys) (aud_db a) of
        Inl _ \<Rightarrow> Inl (True, err ServiceUnavailable)
      | Inr db \<Rightarrow> Inr (st\<lparr>en_audit := a\<lparr>aud_db := db\<rparr>\<rparr>))"

definition transact :: "prims \<Rightarrow> (engine \<Rightarrow> 'a tx) \<Rightarrow> engine \<Rightarrow> engine \<times> 'a result" where
  "transact P body st =
     (case mutation_transaction P st of
        (st1, Inl e) \<Rightarrow> (st1, Inl e)
      | (st1, Inr _) \<Rightarrow>
          (case body st1 of
             Inl (latch, e) \<Rightarrow>
               (if latch
                then st1\<lparr>en_audit := latch_audit_degraded_with ''audit_append_failed'' (en_audit st1)\<rparr>
                else st1, Inl e)
           | Inr (st2, x) \<Rightarrow> (st2, Inr x)))"

definition wallet_epoch :: "engine \<Rightarrow> token \<Rightarrow> u64 result" where
  "wallet_epoch st wallet =
     (case find (\<lambda>w. ws_wallet w = wallet) (en_wallets st) of
        None \<Rightarrow> Inr 0
      | Some w \<Rightarrow> ok_or (ws_epoch w) (err MalformedFrame))"

definition find_approval :: "engine \<Rightarrow> digest32 \<Rightarrow> approval_row option" where
  "find_approval st approval = find (\<lambda>a. ap_id a = approval) (en_approvals st)"

definition find_operation :: "engine \<Rightarrow> operation_id \<Rightarrow> operation_row option" where
  "find_operation st operation = find (\<lambda>r. op_id r = operation) (en_operations st)"

end
