(* ===== verification/Signer_Engine.thy ===== *)
theory Signer_Engine
  imports Signer_State
begin

text \<open>
  Approvals and sign operations: \<open>crates/bloom-signer/src/engine.rs\<close>. Each public operation is one
  definition that returns the new state and its result; the checks it calls are definitions
  of their own, in the order the source makes them.
\<close>

definition MAX_APPROVAL_LIFETIME_MS :: u64 where
  "MAX_APPROVAL_LIFETIME_MS = 90 * 24 * 60 * 60 * 1000"

datatype sign_authorization = NewOperation | SameOperationRetry

fun authorization_str :: "sign_authorization \<Rightarrow> string" where
  "authorization_str NewOperation = ''NewOperation''"
| "authorization_str SameOperationRetry = ''SameOperationRetry''"

datatype operation_effect = EffectCommitted | EffectReleased | EffectQuarantined

fun effect_state :: "operation_effect \<Rightarrow> op_state" where
  "effect_state EffectCommitted = Committed"
| "effect_state EffectReleased = Released"
| "effect_state EffectQuarantined = Quarantined"

fun effect_str :: "operation_effect \<Rightarrow> string" where
  "effect_str EffectCommitted = ''COMMITTED''"
| "effect_str EffectReleased = ''RELEASED''"
| "effect_str EffectQuarantined = ''QUARANTINED''"

subsection \<open>Checks on an approval\<close>

definition grant_exceeds_scope :: "petal_scope \<Rightarrow> petal_route_grant \<Rightarrow> bool" where
  "grant_exceeds_scope scope g =
     (rg_route g \<notin> set (ps_routes scope) \<or> rg_classes g = []
      \<or> list_ex (\<lambda>c. c \<notin> set (ps_classes scope)) (rg_classes g))"

definition petal_selector_check ::
  "petal_scope \<Rightarrow> digest32 \<Rightarrow> string \<Rightarrow> approval_selector \<Rightarrow> unit result" where
  "petal_selector_check scope package_hash route selector =
     (case selector of
        PetalSelector selector_package selector_route classes grants _ \<Rightarrow>
          if selector_package \<noteq> package_hash \<or> selector_route \<noteq> route then Inl (err SelectorMismatch)
          else if classes = [] \<or> list_ex (\<lambda>c. c \<notin> set (ps_classes scope)) classes
          then Inl (err SelectorMismatch)
          else if list_ex (grant_exceeds_scope scope) grants then Inl (err SelectorMismatch)
          else Inr ()
      | ExactSelector _ _ \<Rightarrow> Inr ())"

definition scope_bound :: "approval_selector \<Rightarrow> bool" where
  "scope_bound selector = (case selector of ExactSelector _ _ \<Rightarrow> False | PetalSelector _ _ _ _ _ \<Rightarrow> True)"

definition petal_validity_check ::
  "petal_scope \<Rightarrow> u64 \<Rightarrow> u64 \<Rightarrow> approval_terms \<Rightarrow> u64 \<Rightarrow> unit result" where
  "petal_validity_check scope created scope_expires t now =
     (if now < created \<or> at_not_before_ms t < created
         \<or> (scope_bound (at_selector t) \<and> (now \<ge> scope_expires \<or> at_expires_at_ms t > scope_expires))
         \<or> saturating_sub (at_expires_at_ms t) (at_not_before_ms t) > ps_maximum_lifetime_ms scope
      then Inl (err ApprovalExpired) else Inr ())"

definition validate_petal_key_approval :: "engine \<Rightarrow> approval_terms \<Rightarrow> u64 \<Rightarrow> unit result" where
  "validate_petal_key_approval st t now =
     (let fingerprint = kr_fingerprint (at_key_ref t) in
      if map_option ek_authority (find (\<lambda>k. ek_fingerprint k = fingerprint) (en_enrolled st))
           \<noteq> Some ''petal''
      then Inr ()
      else
        rbind (ok_or (find (\<lambda>r. pr_fingerprint r = fingerprint) (en_petal_scopes st))
                 (err ServiceUnavailable)) (\<lambda>row.
        rbind (ok_or (pr_scope row) (err MalformedFrame)) (\<lambda>scope.
        rbind (ok_or (pr_created row) (err MalformedFrame)) (\<lambda>created.
        rbind (ok_or (pr_expires row) (err MalformedFrame)) (\<lambda>scope_expires.
        if at_wallet_id t \<noteq> ps_wallet_id scope then Inl (err KeyrefMismatch)
        else
          (case at_subject t of
             PetalSubject package_hash route agent \<Rightarrow>
               if package_hash \<noteq> ps_package_hash scope \<or> route \<notin> set (ps_routes scope)
                  \<or> (case agent of None \<Rightarrow> False | Some a \<Rightarrow> a \<noteq> ps_key_slot scope)
               then Inl (err SelectorMismatch)
               else
                 rbind (petal_selector_check scope package_hash route (at_selector t)) (\<lambda>_.
                 if at_suites t = [] \<or> list_ex (\<lambda>s. s \<notin> set (ps_suites scope)) (at_suites t)
                 then Inl (err SuiteNotAllowed)
                 else petal_validity_check scope created scope_expires t now)
           | _ \<Rightarrow> Inl (err SelectorMismatch)))))))"

definition selector_matches :: "sign_request \<Rightarrow> approval_terms \<Rightarrow> bool" where
  "selector_matches r t =
     (let u = req_unsigned r in
      case (at_selector t, sr_selector_kind u) of
        (ExactSelector payloads hashes, SelExact) \<Rightarrow>
          payloads = sr_payload_digests u \<and> hashes = sr_hashes u
          \<and> sr_signature_count u = of_nat (length hashes)
      | (PetalSelector _ _ _ _ _, SelPetal) \<Rightarrow>
          sr_petal_use_claim u \<noteq> None \<and> sr_claim_assurance u \<noteq> None
      | _ \<Rightarrow> False)"

definition validate_against_approval :: "sign_request \<Rightarrow> approval_terms \<Rightarrow> u64 \<Rightarrow> unit result" where
  "validate_against_approval r t now =
     (let u = req_unsigned r in
      if at_expires_at_ms t \<le> now \<or> at_not_before_ms t > now
         \<or> sr_not_before_ms u < at_not_before_ms t \<or> sr_expires_at_ms u > at_expires_at_ms t
      then Inl (err ApprovalExpired)
      else if sr_wallet_id u \<noteq> at_wallet_id t \<or> sr_key_ref u \<noteq> at_key_ref t then Inl (err KeyrefMismatch)
      else if sr_suite u \<notin> set (at_suites t) then Inl (err SuiteNotAllowed)
      else if sr_policy_version u \<noteq> at_policy_version t \<or> sr_policy_digest u \<noteq> at_policy_digest t
      then Inl (err PolicyBaselineStale)
      else if length (sr_payload_digests u) \<noteq> length (sr_hashes u) then Inl (err SelectorMismatch)
      else ensure (selector_matches r t) (err SelectorMismatch))"

definition verify_broker_signature :: "prims \<Rightarrow> engine \<Rightarrow> sign_request \<Rightarrow> unit result" where
  "verify_broker_signature P st r =
     (let u = req_unsigned r in
      if sr_issuer_service_id u \<noteq> ''bloom-broker'' \<or> sr_broker_key_id u \<noteq> en_broker_key_id st
      then Inl (err UnauthenticatedPeer)
      else if length (req_signature r) \<noteq> 64 then Inl (err UnauthenticatedPeer)
      else rbind (ok_or (p_hex_decode P (sr_attempt_digest u)) (err MalformedFrame)) (\<lambda>digest.
        ensure (p_verify P (en_broker_key st) digest (req_signature r)) (err UnauthenticatedPeer)))"

text \<open>\<open>require_key_available\<close>: the enrolled row must hold exactly this key, the backend must have it
  active, and a BIP-39 child outside the Petal class must be ACTIVATED in the derivation registry.\<close>

definition require_key_available :: "prims \<Rightarrow> engine \<Rightarrow> key_ref \<Rightarrow> unit result" where
  "require_key_available P st k =
     (let enrolled = find (\<lambda>r. ek_fingerprint r = kr_fingerprint k) (en_enrolled st) in
      rbind (if map_option ek_key_ref_jcs enrolled \<noteq> Some (p_jcs P (key_ref_json k)) then Inr False
             else key_is_available (en_backends st) k) (\<lambda>usable.
      if \<not> usable then Inl (err KeyrefMismatch)
      else
        (case kr_derivation k of
           Some (Bip39Multicurve seed _ _) \<Rightarrow>
             if (case enrolled of None \<Rightarrow> True | Some r \<Rightarrow> ek_authority r \<noteq> ''petal'')
                \<and> map_option al_state
                    (find (\<lambda>a. al_wallet a = seed \<and> al_fingerprint a = Some (kr_fingerprint k))
                       (reg_allocations (en_registry st))) \<noteq> Some ACTIVATED
             then Inl (err KeyrefMismatch) else Inr ()
         | _ \<Rightarrow> Inr ())))"

subsection \<open>Limits\<close>

text \<open>\<open>CAST(... AS INTEGER)\<close> of a stored decimal, capped at the largest \<open>i64\<close>.\<close>

definition cast_integer :: "u64 \<Rightarrow> nat" where
  "cast_integer w = min (unat w) (2 ^ 63 - 1)"

definition in_window :: "engine \<Rightarrow> digest32 \<Rightarrow> u64 \<Rightarrow> u64 \<Rightarrow> operation_row list" where
  "in_window st approval start now =
     filter (\<lambda>r. op_approval r = approval \<and> op_state r \<noteq> Released
                \<and> cast_integer (op_accepted r) > unat start \<and> cast_integer (op_accepted r) \<le> unat now)
       (en_operations st)"

text \<open>The bounds of a window's query; \<open>i64::try_from\<close> refuses a time of \<open>2^63\<close> or more.\<close>

definition window_start :: "u64 \<Rightarrow> sliding_window \<Rightarrow> u64 result" where
  "window_start now w =
     (let start = saturating_sub now (sw_duration w) in
      if unat start \<ge> 2 ^ 63 \<or> unat now \<ge> 2 ^ 63 then Inl (err MalformedFrame) else Inr start)"

definition check_operation_window :: "engine \<Rightarrow> digest32 \<Rightarrow> u64 \<Rightarrow> sliding_window \<Rightarrow> unit result" where
  "check_operation_window st approval now w =
     rbind (window_start now w) (\<lambda>start.
       if length (in_window st approval start now) + 1 > unat (sw_maximum w)
       then Inl (err SignerRateBackstopDenied) else Inr ())"

fun sum_signatures :: "u64 \<Rightarrow> u64 option list \<Rightarrow> u64 result" where
  "sum_signatures count [] = Inr count"
| "sum_signatures count (v # vs) =
     rbind (ok_or v (err MalformedFrame)) (\<lambda>n.
     rbind (ok_or (checked_add count n) (err SignerRateBackstopDenied)) (\<lambda>count'.
       sum_signatures count' vs))"

definition check_signature_window ::
  "engine \<Rightarrow> digest32 \<Rightarrow> u64 \<Rightarrow> u64 \<Rightarrow> sliding_window \<Rightarrow> unit result" where
  "check_signature_window st approval now signature_count w =
     rbind (window_start now w) (\<lambda>start.
     rbind (sum_signatures 0 (map op_signature_count (in_window st approval start now))) (\<lambda>count.
       case checked_add count signature_count of
         None \<Rightarrow> Inl (err SignerRateBackstopDenied)
       | Some c \<Rightarrow> if c > sw_maximum w then Inl (err SignerRateBackstopDenied) else Inr ()))"

definition reserve_parser_free_limits ::
  "engine \<Rightarrow> sign_request \<Rightarrow> approval_terms \<Rightarrow> u64 \<Rightarrow> (u64 \<times> u64) result" where
  "reserve_parser_free_limits st r t now =
     (let u = req_unsigned r; limits = at_limits t in
      rbind (ok_or (find_approval st (sr_approval_id u)) (err ServiceUnavailable)) (\<lambda>row.
      rbind (ok_or (ap_operations row) (err MalformedFrame)) (\<lambda>operations.
      rbind (ok_or (ap_signatures row) (err MalformedFrame)) (\<lambda>signatures.
      rbind (ok_or (checked_add operations 1) (err LimitExceededOperations)) (\<lambda>next_operations.
      if next_operations > max_operations limits then Inl (err LimitExceededOperations)
      else
        rbind (ok_or (checked_add signatures (sr_signature_count u)) (err LimitExceededSignatures)) (\<lambda>next_signatures.
        if next_signatures > max_signatures limits then Inl (err LimitExceededSignatures)
        else
          rbind (for_each (check_operation_window st (sr_approval_id u) now)
                   (operation_rate_limits limits)) (\<lambda>_.
          rbind (for_each (check_signature_window st (sr_approval_id u) now (sr_signature_count u))
                   (signature_rate_limits limits)) (\<lambda>_.
          Inr (next_operations, next_signatures)))))))))"

subsection \<open>Authorising a sign request\<close>

definition authorized_json :: "sign_request \<Rightarrow> sign_authorization \<Rightarrow> json" where
  "authorized_json r a =
     (let u = req_unsigned r in
      JObj [(''operation_id'', JStr (sr_operation_id u)),
            (''operation_digest'', JStr (sr_operation_digest u)),
            (''attempt_id'', JStr (sr_attempt_id u)), (''attempt_digest'', JStr (sr_attempt_digest u)),
            (''approval_id'', JStr (sr_approval_id u)), (''key_ref'', key_ref_json (sr_key_ref u)),
            (''crypto_suite'', suite_json (sr_suite u)),
            (''ordered_payload_digests'', JArr (map JStr (sr_payload_digests u))),
            (''ordered_hashes'', JArr (map JStr (sr_hashes u))),
            (''validation_receipt_digest'', JStr (sr_validation_receipt u)),
            (''broker_key_id'', JStr (sr_broker_key_id u)),
            (''broker_signature'', JBytes (req_signature r)),
            (''authorization'', JStr (authorization_str a))])"

text \<open>The two branches after the checks: a retry of a stored operation, and a new reservation.\<close>

definition retry_operation :: "prims \<Rightarrow> sign_request \<Rightarrow> operation_row \<Rightarrow> unit result" where
  "retry_operation P r row =
     (let u = req_unsigned r in
      if op_digest row \<noteq> sr_operation_digest u \<or> op_approval row \<noteq> sr_approval_id u
         \<or> op_retry_binding row \<noteq> retry_binding_digest P u
      then Inl (err OperationIdConflict)
      else
        (case op_state row of
           Reserved \<Rightarrow> Inr ()
         | Dispatched \<Rightarrow> Inl (err AmbiguousProviderEffect)
         | Quarantined \<Rightarrow> Inl (err AmbiguousProviderEffect)
         | Committed \<Rightarrow> Inr ()
         | Released \<Rightarrow> Inl (err OperationIdConflict)
         | UnknownState _ \<Rightarrow> Inl (err MalformedFrame)))"

definition insert_operation :: "operation_row \<Rightarrow> engine \<Rightarrow> engine result" where
  "insert_operation row st =
     (if list_ex (\<lambda>q. op_id q = op_id row) (en_operations st) then Inl (err ServiceUnavailable)
      else Inr (st\<lparr>en_operations := en_operations st @ [row]\<rparr>))"

definition insert_anchor :: "anchor_row \<Rightarrow> engine \<Rightarrow> engine result" where
  "insert_anchor row st =
     (if list_ex (\<lambda>q. an_operation q = an_operation row) (en_anchors st) then Inl (err ServiceUnavailable)
      else Inr (st\<lparr>en_anchors := en_anchors st @ [row]\<rparr>))"

definition insert_attempt :: "attempt_row \<Rightarrow> engine \<Rightarrow> engine result" where
  "insert_attempt row st =
     (if list_ex (\<lambda>q. at_id q = at_id row) (en_attempts st) then Inl (err ServiceUnavailable)
      else Inr (st\<lparr>en_attempts := en_attempts st @ [row]\<rparr>))"

definition set_counters :: "digest32 \<Rightarrow> u64 \<Rightarrow> u64 \<Rightarrow> engine \<Rightarrow> engine" where
  "set_counters approval operations signatures st =
     st\<lparr>en_approvals := update_rows (\<lambda>a. ap_id a = approval)
          (\<lambda>a. a\<lparr>ap_operations := Some operations, ap_signatures := Some signatures\<rparr>) (en_approvals st)\<rparr>"

definition reserve_operation ::
  "prims \<Rightarrow> sign_request \<Rightarrow> approval_terms \<Rightarrow> clock_decision \<Rightarrow> engine \<Rightarrow> engine result" where
  "reserve_operation P r t clock st =
     (let u = req_unsigned r in
      rbind (reserve_parser_free_limits st r t (cd_now clock)) (\<lambda>(next_operations, next_signatures).
      rbind (insert_operation
               \<lparr>op_id = sr_operation_id u, op_digest = sr_operation_digest u,
                op_retry_binding = retry_binding_digest P u, op_approval = sr_approval_id u,
                op_signature_count = Some (sr_signature_count u), op_accepted = cd_now clock,
                op_state = Reserved, op_result = None\<rparr> st) (\<lambda>st1.
      rbind (insert_anchor
               \<lparr>an_operation = sr_operation_id u, an_observed = cd_observed clock,
                an_monotonic = cd_monotonic clock, an_boot_epoch = cd_boot_epoch clock\<rparr> st1) (\<lambda>st2.
      Inr (set_counters (sr_approval_id u) next_operations next_signatures st2)))))"

text \<open>What an attempt has to pass before the operation is looked up: a fresh attempt, an active
  approval whose key, scope, terms and epoch all hold.\<close>

definition check_approval ::
  "prims \<Rightarrow> sign_request \<Rightarrow> u64 \<Rightarrow> engine \<Rightarrow> approval_terms result" where
  "check_approval P r now st =
     (let u = req_unsigned r in
      if list_ex (\<lambda>q. at_id q = sr_attempt_id u) (en_attempts st) then Inl (err CeremonyReplay)
      else
        rbind (ok_or (find_approval st (sr_approval_id u)) (err ApprovalNotFound)) (\<lambda>row.
        if \<not> ap_active row then Inl (err ApprovalRevoked)
        else
          rbind (ok_or (ap_terms row) (err MalformedFrame)) (\<lambda>t.
          rbind (require_key_available P st (at_key_ref t)) (\<lambda>_.
          rbind (validate_petal_key_approval st t now) (\<lambda>_.
          rbind (validate_against_approval r t now) (\<lambda>_.
          rbind (wallet_epoch st (at_wallet_id t)) (\<lambda>epoch.
          if epoch \<noteq> at_revocation_epoch t then Inl (err ApprovalRevoked) else Inr t)))))))"

definition authorize_sign_tx ::
  "prims \<Rightarrow> sign_request \<Rightarrow> clock_decision \<Rightarrow> engine \<Rightarrow> sign_authorization tx" where
  "authorize_sign_tx P r clock st =
     (let u = req_unsigned r in
      rbind (with_latch False (check_approval P r (cd_now clock) st)) (\<lambda>t.
      rbind (with_latch False
               (case find_operation st (sr_operation_id u) of
                  Some row \<Rightarrow> rbind (retry_operation P r row) (\<lambda>_. Inr (st, SameOperationRetry))
                | None \<Rightarrow> rbind (reserve_operation P r t clock st) (\<lambda>st1. Inr (st1, NewOperation))))
        (\<lambda>(st1, authorization).
      rbind (with_latch False
               (insert_attempt \<lparr>at_id = sr_attempt_id u, at_digest = sr_attempt_digest u,
                  at_operation = sr_operation_id u\<rparr> st1)) (\<lambda>st2.
      rbind (append_audit P ''sign.authorized'' (authorized_json r authorization) st2) (\<lambda>st3.
      Inr (st3, authorization))))))"

definition authorize_sign ::
  "prims \<Rightarrow> sign_request \<Rightarrow> clock_decision \<Rightarrow> engine \<Rightarrow> engine \<times> sign_authorization result" where
  "authorize_sign P r clock st =
     (let u = req_unsigned r in
      case validate_shape P r of
        Inl e \<Rightarrow> (st, Inl e)
      | Inr _ \<Rightarrow>
        (case verify_broker_signature P st r of
           Inl e \<Rightarrow> (st, Inl e)
         | Inr _ \<Rightarrow>
             if sr_not_before_ms u > cd_now clock \<or> sr_expires_at_ms u \<le> cd_now clock
             then (st, Inl (err ApprovalExpired))
             else transact P (authorize_sign_tx P r clock) st))"

subsection \<open>The life of an operation\<close>

definition set_operation_state :: "operation_id \<Rightarrow> op_state \<Rightarrow> engine \<Rightarrow> engine" where
  "set_operation_state operation state st =
     st\<lparr>en_operations := update_rows (\<lambda>r. op_id r = operation) (\<lambda>r. r\<lparr>op_state := state\<rparr>)
          (en_operations st)\<rparr>"

text \<open>Releasing an operation gives its approval's counters back.\<close>

definition refund_counters :: "operation_row \<Rightarrow> engine \<Rightarrow> engine result" where
  "refund_counters row st =
     rbind (ok_or (find_approval st (op_approval row)) (err ServiceUnavailable)) (\<lambda>a.
     rbind (ok_or (ap_operations a) (err MalformedFrame)) (\<lambda>operations.
     rbind (ok_or (ap_signatures a) (err MalformedFrame)) (\<lambda>signatures.
     rbind (ok_or (op_signature_count row) (err MalformedFrame)) (\<lambda>operation_signatures.
     rbind (ok_or (checked_sub operations 1) (err MalformedFrame)) (\<lambda>next_operations.
     rbind (ok_or (checked_sub signatures operation_signatures) (err MalformedFrame)) (\<lambda>next_signatures.
     Inr (set_counters (op_approval row) next_operations next_signatures st)))))))"

definition finalize_operation_tx :: "prims \<Rightarrow> operation_id \<Rightarrow> operation_effect \<Rightarrow> engine \<Rightarrow> unit tx" where
  "finalize_operation_tx P operation effect st =
     rbind (with_latch False (ok_or (find_operation st operation) (err ServiceUnavailable))) (\<lambda>row.
     if op_state row = effect_state effect then Inr (st, ())
     else if op_state row \<noteq> Reserved
             \<and> \<not> (op_state row = Dispatched \<and> (effect = EffectReleased \<or> effect = EffectQuarantined))
     then abort OperationIdConflict
     else
       rbind (with_latch False (if effect = EffectReleased then refund_counters row st else Inr st)) (\<lambda>st1.
       rbind (append_audit P ''sign.finalized''
                (JObj [(''operation_id'', JStr operation), (''effect'', JStr (effect_str effect))])
                (set_operation_state operation (effect_state effect) st1)) (\<lambda>st2.
       Inr (st2, ()))))"

definition finalize_operation ::
  "prims \<Rightarrow> operation_id \<Rightarrow> operation_effect \<Rightarrow> engine \<Rightarrow> engine \<times> unit result" where
  "finalize_operation P operation effect st =
     (if effect = EffectCommitted then (st, Inl (err BackendInvalidRequest))
      else transact P (finalize_operation_tx P operation effect) st)"

definition commit_operation_result_tx :: "prims \<Rightarrow> operation_id \<Rightarrow> bytes \<Rightarrow> engine \<Rightarrow> unit tx" where
  "commit_operation_result_tx P operation normalized st =
     (let hit = (\<lambda>r. op_id r = operation \<and> (op_state r = Reserved \<or> op_state r = Dispatched));
          st1 = st\<lparr>en_operations := update_rows hit
                    (\<lambda>r. r\<lparr>op_state := Committed, op_result := Some normalized\<rparr>) (en_operations st)\<rparr>
      in if length (filter hit (en_operations st)) \<noteq> 1 then abort OperationIdConflict
      else
        rbind (append_audit P ''sign.result''
                 (JObj [(''operation_id'', JStr operation), (''normalized_result'', JBytes normalized)]) st1)
          (\<lambda>st2. Inr (st2, ())))"

definition commit_operation_result ::
  "prims \<Rightarrow> operation_id \<Rightarrow> bytes \<Rightarrow> engine \<Rightarrow> engine \<times> unit result" where
  "commit_operation_result P operation normalized st =
     (if normalized = [] then (st, Inl (err BackendInvalidRequest))
      else transact P (commit_operation_result_tx P operation normalized) st)"

definition mark_operation_dispatched_tx ::
  "prims \<Rightarrow> operation_id \<Rightarrow> key_ref \<Rightarrow> digest32 list \<Rightarrow> engine \<Rightarrow> unit tx" where
  "mark_operation_dispatched_tx P operation k provider_attempts st =
     (let hit = (\<lambda>r. op_id r = operation \<and> op_state r = Reserved);
          st1 = st\<lparr>en_operations := update_rows hit (\<lambda>r. r\<lparr>op_state := Dispatched\<rparr>) (en_operations st)\<rparr>
      in if length (filter hit (en_operations st)) \<noteq> 1 then abort OperationIdConflict
      else
        rbind (append_audit P ''backend.dispatched''
                 (JObj [(''operation_id'', JStr operation), (''key_ref'', key_ref_json k),
                        (''provider_attempt_ids'', JArr (map JStr provider_attempts))]) st1)
          (\<lambda>st2. Inr (st2, ())))"

definition mark_operation_dispatched ::
  "prims \<Rightarrow> operation_id \<Rightarrow> key_ref \<Rightarrow> digest32 list \<Rightarrow> engine \<Rightarrow> engine \<times> unit result" where
  "mark_operation_dispatched P operation k provider_attempts st =
     transact P (mark_operation_dispatched_tx P operation k provider_attempts) st"

subsection \<open>Activating an approval\<close>

definition surface_ref_json :: "surface_ref \<Rightarrow> json" where
  "surface_ref_json s =
     JObj [(''surface_id'', JStr (sf_surface_id s)), (''identity_digest'', JStr (sf_identity_digest s))]"

definition receipt_json :: "activation_receipt \<Rightarrow> json" where
  "receipt_json c =
     JObj ((case rc_surface c of None \<Rightarrow> [] | Some s \<Rightarrow> [(''surface'', surface_ref_json s)])
       @ (case rc_generation c of None \<Rightarrow> [] | Some g \<Rightarrow> [(''credential_authority_generation'', JDec g)])
       @ [(''activation_operation_id'', JStr (rc_operation c)), (''ceremony_id'', JStr (rc_ceremony c)),
          (''approval_id'', JStr (rc_approval c)), (''approval_digest'', JStr (rc_approval_digest c)),
          (''review_manifest_digest'', JStr (rc_review_manifest c)),
          (''key_ref'', key_ref_json (rc_key_ref c)),
          (''allowed_crypto_suites'', JArr (map suite_json (rc_suites c))),
          (''activation_mode'', activation_json (rc_activation_mode c)),
          (''wallet_revocation_epoch'', JDec (rc_epoch c)),
          (''replaced_approval_id'', jopt JStr (rc_replaced c)),
          (''activated_at_ms'', JDec (rc_activated_at c)), (''expires_at_ms'', JDec (rc_expires_at c)),
          (''signer_key_id'', JStr (rc_signer_key c)), (''signer_signature'', JBytes (rc_signature c))])"

definition insert_approval :: "approval_row \<Rightarrow> engine \<Rightarrow> engine result" where
  "insert_approval row st =
     (if list_ex (\<lambda>a. ap_id a = ap_id row) (en_approvals st) then Inl (err ServiceUnavailable)
      else Inr (st\<lparr>en_approvals := en_approvals st @ [row]\<rparr>))"

text \<open>The wallet row: made with the approval's epoch when there is none, else it must hold that epoch.\<close>

definition reconcile_epoch :: "approval_terms \<Rightarrow> engine \<Rightarrow> engine result" where
  "reconcile_epoch t st =
     (case find (\<lambda>w. ws_wallet w = at_wallet_id t) (en_wallets st) of
        None \<Rightarrow> Inr (st\<lparr>en_wallets := en_wallets st @
                  [\<lparr>ws_wallet = at_wallet_id t, ws_epoch = Some (at_revocation_epoch t),
                    ws_status = ''DERIVATION_REGISTRY_MISSING''\<rparr>]\<rparr>)
      | Some w \<Rightarrow>
          if ws_epoch w \<noteq> Some (at_revocation_epoch t) then Inl (err RevocationEpochUnreconciled)
          else Inr st)"

definition check_generation :: "engine \<Rightarrow> token \<Rightarrow> activation_receipt \<Rightarrow> unit result" where
  "check_generation st wallet c =
     rbind (case find (\<lambda>g. fst g = wallet) (en_generations st) of
              None \<Rightarrow> Inr 0
            | Some g \<Rightarrow> ok_or (snd g) (err MalformedFrame)) (\<lambda>generation.
       ensure ((case rc_generation c of None \<Rightarrow> 0 | Some g \<Rightarrow> g) = generation) (err CeremonyReplay))"

definition store_receipt :: "prims \<Rightarrow> activation_receipt \<Rightarrow> engine \<Rightarrow> engine result" where
  "store_receipt P c st =
     (if list_ex (\<lambda>q. fst q = rc_operation c) (en_receipts st)
         \<or> list_ex (\<lambda>q. cs_operation q = rc_operation c) (en_statuses st)
      then Inl (err ServiceUnavailable)
      else Inr (st\<lparr>en_receipts := en_receipts st @ [(rc_operation c, c)],
                   en_statuses := en_statuses st @
                     [\<lparr>cs_operation = rc_operation c, cs_ceremony = rc_ceremony c,
                       cs_kind = ''sealed_approval'', cs_state = ''SUCCEEDED'',
                       cs_expires_at = rc_expires_at c,
                       cs_receipt_digest = p_sha256 P (p_jcs P (receipt_json c))\<rparr>]\<rparr>))"

definition persist_approval_tx ::
  "prims \<Rightarrow> approval_terms \<Rightarrow> digest32 \<Rightarrow> activation_receipt option \<Rightarrow> engine \<Rightarrow> digest32 tx" where
  "persist_approval_tx P t approval receipt st =
     rbind (with_latch False
              (case receipt of None \<Rightarrow> Inr ()
               | Some c \<Rightarrow> rbind (ok_or (rc_surface c) (err CeremonyReplay)) (\<lambda>s.
                            require_surface_at_commit P (en_surfaces st) s False))) (\<lambda>_.
     rbind (with_latch False (key_is_registered (en_backends st) (at_key_ref t))) (\<lambda>registered.
     if \<not> registered then abort KeyrefMismatch
     else
       rbind (with_latch False (validate_petal_key_approval st t (at_issued_at_ms t))) (\<lambda>_.
       rbind (with_latch False (reconcile_epoch t st)) (\<lambda>st1.
       rbind (with_latch False
                (case receipt of None \<Rightarrow> Inr () | Some c \<Rightarrow> check_generation st1 (at_wallet_id t) c)) (\<lambda>_.
       rbind (with_latch False (insert_approval
                \<lparr>ap_id = approval, ap_wallet = at_wallet_id t, ap_terms = Some t, ap_active = True,
                 ap_operations = Some 0, ap_signatures = Some 0\<rparr> st1)) (\<lambda>st2.
       rbind (with_latch False
                (case receipt of None \<Rightarrow> Inr st2 | Some c \<Rightarrow> store_receipt P c st2)) (\<lambda>st3.
       rbind (append_audit P ''approval.activation''
                (JObj [(''approval_id'', JStr approval), (''terms'', terms_json t),
                       (''activation_receipt'', jopt receipt_json receipt),
                       (''key_ref'', key_ref_json (at_key_ref t))]) st3) (\<lambda>st4.
       Inr (st4, approval)))))))))"

definition persist_approval ::
  "prims \<Rightarrow> approval_terms \<Rightarrow> activation_receipt option \<Rightarrow> engine \<Rightarrow> engine \<times> digest32 result" where
  "persist_approval P t receipt st =
     (case terms_validate t of
        Inl e \<Rightarrow> (st, Inl e)
      | Inr _ \<Rightarrow>
          if saturating_sub (at_expires_at_ms t) (at_not_before_ms t) > MAX_APPROVAL_LIFETIME_MS
          then (st, Inl (err ApprovalExpired))
          else
            (case approval_id_of P t of
               Inl e \<Rightarrow> (st, Inl e)
             | Inr approval \<Rightarrow> transact P (persist_approval_tx P t approval receipt) st))"

definition activate_approval_from_ceremony ::
  "prims \<Rightarrow> approval_terms \<Rightarrow> activation_receipt \<Rightarrow> engine \<Rightarrow> engine \<times> digest32 result" where
  "activate_approval_from_ceremony P t receipt st =
     (case approval_id_of P t of
        Inl e \<Rightarrow> (st, Inl e)
      | Inr approval \<Rightarrow>
          if rc_approval receipt \<noteq> approval \<or> rc_operation receipt = []
          then (st, Inl (err CeremonyKindMismatch))
          else persist_approval P t (Some receipt) st)"

subsection \<open>Queries\<close>

fun expiring_ids :: "u64 \<Rightarrow> approval_row list \<Rightarrow> digest32 list result" where
  "expiring_ids accepted [] = Inr []"
| "expiring_ids accepted (a # as) =
     rbind (ok_or (ap_terms a) (err MalformedFrame)) (\<lambda>t.
     rbind (expiring_ids accepted as) (\<lambda>ids.
       Inr (if at_expires_at_ms t \<le> accepted then ap_id a # ids else ids)))"

definition active_approvals_expiring_by :: "engine \<Rightarrow> u64 \<Rightarrow> digest32 list result" where
  "active_approvals_expiring_by st accepted =
     expiring_ids accepted (sort_key ap_id (filter ap_active (en_approvals st)))"

definition approval_requires_trusted_time :: "engine \<Rightarrow> digest32 \<Rightarrow> bool result" where
  "approval_requires_trusted_time st approval =
     rbind (ok_or (find_approval st approval) (err ApprovalNotFound)) (\<lambda>row.
     rbind (ok_or (ap_terms row) (err MalformedFrame)) (\<lambda>t.
       Inr (operation_rate_limits (at_limits t) \<noteq> [] \<or> signature_rate_limits (at_limits t) \<noteq> []
            \<or> list_ex (\<lambda>v. vl_windows v \<noteq> []) (value_limits (at_limits t)))))"

datatype public_operation_state =
    PubReceived | PubValidated | PubReserved | PubDispatched | PubDownstreamAccepted | PubCommitted
  | PubSucceeded | PubDenied | PubCancelled | PubFailed | PubQuarantined

text \<open>\<open>decode\<close> is \<open>serde_json\<close>'s reading of a stored \<open>SigningResult\<close>.\<close>

definition operation_status ::
  "(bytes \<Rightarrow> 'r option) \<Rightarrow> engine \<Rightarrow> operation_id
   \<Rightarrow> (digest32 \<times> public_operation_state \<times> 'r option) result" where
  "operation_status decode st operation =
     rbind (ok_or (find_operation st operation) (err ApprovalNotFound)) (\<lambda>row.
     rbind (case op_state row of
              Reserved \<Rightarrow> Inr PubReserved
            | Dispatched \<Rightarrow> Inr PubDispatched
            | Committed \<Rightarrow> Inr PubSucceeded
            | Released \<Rightarrow> Inr PubDenied
            | Quarantined \<Rightarrow> Inr PubQuarantined
            | UnknownState _ \<Rightarrow> Inl (err MalformedFrame)) (\<lambda>state.
     rbind (case op_result row of
              None \<Rightarrow> Inr None
            | Some bs \<Rightarrow> rbind (ok_or (decode bs) (err MalformedFrame)) (\<lambda>r. Inr (Some r))) (\<lambda>res.
       Inr (op_digest row, state, res))))"

definition stored_operation_result :: "engine \<Rightarrow> operation_id \<Rightarrow> bytes option" where
  "stored_operation_result st operation =
     (case find (\<lambda>r. op_id r = operation \<and> op_state r = Committed) (en_operations st) of
        None \<Rightarrow> None | Some row \<Rightarrow> op_result row)"

datatype approval_lifecycle =
    ApPrepared | ApAwaitingCeremony | ApOrphaned | ApActive | ApExhausted | ApExpired | ApRevoked
  | ApCancelled | ApFailed

definition approval_public_status ::
  "engine \<Rightarrow> digest32 \<Rightarrow> u64 \<Rightarrow> (token \<times> approval_lifecycle) result" where
  "approval_public_status st approval now =
     rbind (ok_or (find_approval st approval) (err ApprovalNotFound)) (\<lambda>row.
     rbind (ok_or (ap_terms row) (err MalformedFrame)) (\<lambda>t.
       Inr (at_wallet_id t,
            if \<not> ap_active row then ApRevoked
            else if at_expires_at_ms t \<le> now then ApExpired else ApActive)))"

datatype derivation_ready = DerivationReady | DerivationRegistryMissing

definition derivation_status :: "engine \<Rightarrow> token \<Rightarrow> derivation_ready result" where
  "derivation_status st wallet =
     (case map_option ws_status (find (\<lambda>w. ws_wallet w = wallet) (en_wallets st)) of
        None \<Rightarrow> Inr DerivationRegistryMissing
      | Some s \<Rightarrow>
          if s = ''READY'' then Inr DerivationReady
          else if s = ''DERIVATION_REGISTRY_MISSING'' then Inr DerivationRegistryMissing
          else Inl (err MalformedFrame))"

definition require_derivation_ready :: "engine \<Rightarrow> token \<Rightarrow> unit result" where
  "require_derivation_ready st wallet =
     rbind (derivation_status st wallet) (\<lambda>s. ensure (s = DerivationReady) (err ServiceUnavailable))"

end
