(* ===== verification/Revocation.thy ===== *)
theory Revocation
  imports Signer_Engine
begin

text \<open>
  Revocation: \<open>revoke_approval\<close>, \<open>revoke_all\<close>, \<open>revocation_state\<close> and the stored revocation operations of
  \<open>crates/bloom-signer/src/engine.rs\<close>, with the signed records of
  \<open>crates/bloom-signer-api/src/revocation.rs\<close>.
\<close>

definition APPROVAL_TOMBSTONE_DOMAIN :: string where
  "APPROVAL_TOMBSTONE_DOMAIN = ''bloom-approval-tombstone/v1''"

definition WALLET_TOMBSTONE_DOMAIN :: string where
  "WALLET_TOMBSTONE_DOMAIN = ''bloom-wallet-tombstone/v1''"

definition REVOCATION_STATE_DOMAIN :: string where
  "REVOCATION_STATE_DOMAIN = ''bloom-revocation-state/v1''"

definition REVOCATION_OPERATION_DOMAIN :: string where
  "REVOCATION_OPERATION_DOMAIN = ''bloom-revocation-operation/v1''"

definition approval_tombstone_json :: "approval_tombstone \<Rightarrow> json" where
  "approval_tombstone_json t =
     JObj [(''approval_id'', JStr (tb_approval t)), (''wallet_id'', JStr (tb_wallet t)),
           (''wallet_revocation_epoch'', JDec (tb_epoch t)), (''reason'', JStr (tb_reason t)),
           (''operation_id'', JStr (tb_operation t)), (''revoked_at_ms'', JDec (tb_revoked_at t)),
           (''issuer_service_id'', JStr (tb_issuer t)), (''key_id'', JStr (tb_key t)),
           (''signature'', JBytes (tb_signature t))]"

definition wallet_tombstone_json :: "wallet_tombstone \<Rightarrow> json" where
  "wallet_tombstone_json t =
     JObj [(''wallet_id'', JStr (wt_wallet t)), (''wallet_revocation_epoch'', JDec (wt_epoch t)),
           (''operation_id'', JStr (wt_operation t)), (''revoked_at_ms'', JDec (wt_revoked_at t)),
           (''issuer_service_id'', JStr (wt_issuer t)), (''key_id'', JStr (wt_key t)),
           (''signature'', JBytes (wt_signature t))]"

definition revocation_state_json :: "revocation_state \<Rightarrow> json" where
  "revocation_state_json s =
     JObj [(''wallet_id'', JStr (rs_wallet s)), (''wallet_revocation_epoch'', JDec (rs_epoch s)),
           (''wallet_tombstone'', jopt wallet_tombstone_json (rs_tombstone s)),
           (''approval_tombstone_digest'', JStr (rs_digest s)),
           (''approval_tombstone_count'', JDec (rs_count s)), (''observed_at_ms'', JDec (rs_observed s)),
           (''issuer_service_id'', JStr (rs_issuer s)), (''key_id'', JStr (rs_key s)),
           (''signature'', JBytes (rs_signature s))]"

definition sign_revocation :: "prims \<Rightarrow> bytes \<Rightarrow> string \<Rightarrow> json \<Rightarrow> bytes" where
  "sign_revocation P key domain body = p_sign P key (str_bytes domain @ p_jcs P body)"

definition revocation_request_digest :: "prims \<Rightarrow> json \<Rightarrow> digest32" where
  "revocation_request_digest P request =
     p_sha256 P (str_bytes REVOCATION_OPERATION_DOMAIN @ p_jcs P request)"

definition revocation_request_json :: "digest32 \<Rightarrow> string \<Rightarrow> operation_id \<Rightarrow> u64 \<Rightarrow> json" where
  "revocation_request_json approval reason operation revoked_at =
     JObj [(''approval_id'', JStr approval), (''reason'', JStr reason),
           (''operation_id'', JStr operation), (''revoked_at_ms'', JDec revoked_at)]"

definition revoke_all_request_json :: "token \<Rightarrow> operation_id \<Rightarrow> u64 \<Rightarrow> json" where
  "revoke_all_request_json wallet operation revoked_at =
     JObj [(''wallet_id'', JStr wallet), (''operation_id'', JStr operation),
           (''revoked_at_ms'', JDec revoked_at)]"

text \<open>The stored result for this operation, if any; \<open>select\<close> is the type asked for.\<close>

definition load_revocation_operation ::
  "(revocation_result \<Rightarrow> 'a option) \<Rightarrow> engine \<Rightarrow> operation_id \<Rightarrow> digest32 \<Rightarrow> 'a option result" where
  "load_revocation_operation select st operation digest =
     (case find (\<lambda>r. rr_operation r = operation) (en_revocations st) of
        None \<Rightarrow> Inr None
      | Some r \<Rightarrow>
          if rr_digest r \<noteq> digest then Inl (err OperationIdConflict)
          else rbind (ok_or (select (rr_result r)) (err MalformedFrame)) (\<lambda>x. Inr (Some x)))"

definition store_revocation_operation ::
  "operation_id \<Rightarrow> token \<Rightarrow> digest32 \<Rightarrow> revocation_result \<Rightarrow> engine \<Rightarrow> engine result" where
  "store_revocation_operation operation wallet digest res st =
     (if list_ex (\<lambda>r. rr_operation r = operation) (en_revocations st) then Inl (err ServiceUnavailable)
      else Inr (st\<lparr>en_revocations := en_revocations st @
             [\<lparr>rr_operation = operation, rr_wallet = wallet, rr_digest = digest, rr_result = res\<rparr>]\<rparr>))"

fun as_approval_result :: "revocation_result \<Rightarrow> approval_tombstone option" where
  "as_approval_result (ApprovalResult t) = Some t"
| "as_approval_result _ = None"

fun as_wallet_result :: "revocation_result \<Rightarrow> revocation_state option" where
  "as_wallet_result (WalletResult s) = Some s"
| "as_wallet_result _ = None"

subsection \<open>Revoking one approval\<close>

definition new_tombstone ::
  "prims \<Rightarrow> engine \<Rightarrow> digest32 \<Rightarrow> token \<Rightarrow> u64 \<Rightarrow> string \<Rightarrow> operation_id \<Rightarrow> u64 \<Rightarrow> approval_tombstone" where
  "new_tombstone P st approval wallet epoch reason operation revoked_at =
     (let t = \<lparr>tb_approval = approval, tb_wallet = wallet, tb_epoch = epoch, tb_reason = reason,
               tb_operation = operation, tb_revoked_at = revoked_at, tb_issuer = ''bloom-signer'',
               tb_key = en_revocation_key_id st, tb_signature = []\<rparr>
      in t\<lparr>tb_signature := sign_revocation P (en_revocation_key st) APPROVAL_TOMBSTONE_DOMAIN
             (approval_tombstone_json t)\<rparr>)"

definition deactivate :: "(approval_row \<Rightarrow> bool) \<Rightarrow> engine \<Rightarrow> engine" where
  "deactivate hit st =
     st\<lparr>en_approvals := update_rows hit (\<lambda>a. a\<lparr>ap_active := False\<rparr>) (en_approvals st)\<rparr>"

definition insert_or_ignore_approval_tombstone :: "tombstone_entry \<Rightarrow> engine \<Rightarrow> engine" where
  "insert_or_ignore_approval_tombstone e st =
     (if list_ex (\<lambda>q. te_approval q = te_approval e) (en_tombstones st) then st
      else st\<lparr>en_tombstones := en_tombstones st @ [e]\<rparr>)"

definition revocation_event_json :: "operation_id \<Rightarrow> digest32 \<Rightarrow> token \<Rightarrow> approval_tombstone \<Rightarrow> json" where
  "revocation_event_json operation approval wallet t =
     JObj [(''operation_id'', JStr operation), (''approval_id'', JStr approval),
           (''wallet_id'', JStr wallet), (''tombstone'', approval_tombstone_json t)]"

definition revoke_approval_tx ::
  "prims \<Rightarrow> digest32 \<Rightarrow> string \<Rightarrow> operation_id \<Rightarrow> u64 \<Rightarrow> engine \<Rightarrow> approval_tombstone tx" where
  "revoke_approval_tx P approval reason operation revoked_at st =
     (let digest = revocation_request_digest P (revocation_request_json approval reason operation revoked_at) in
      rbind (with_latch False (load_revocation_operation as_approval_result st operation digest)) (\<lambda>stored.
      case stored of
        Some t \<Rightarrow> Inr (st, t)
      | None \<Rightarrow>
        rbind (with_latch False (ok_or (find_approval st approval) (err ApprovalNotFound))) (\<lambda>row.
        let wallet = ap_wallet row in
        case find (\<lambda>q. te_approval q = approval) (en_tombstones st) of
          Some e \<Rightarrow>
            rbind (with_latch False (ok_or (te_tombstone e) (err MalformedFrame))) (\<lambda>existing.
            rbind (with_latch False
                     (store_revocation_operation operation wallet digest (ApprovalResult existing) st)) (\<lambda>st1.
            rbind (append_audit P ''approval.revocation_reconciled''
                     (revocation_event_json operation approval wallet existing) st1) (\<lambda>st2.
            Inr (st2, existing))))
        | None \<Rightarrow>
            rbind (with_latch False (wallet_epoch st wallet)) (\<lambda>epoch.
            let t = new_tombstone P st approval wallet epoch reason operation revoked_at;
                st1 = deactivate (\<lambda>a. ap_id a = approval) st;
                st2 = insert_or_ignore_approval_tombstone
                        \<lparr>te_approval = approval, te_wallet = wallet, te_tombstone = Some t\<rparr> st1
            in
            rbind (with_latch False
                     (store_revocation_operation operation wallet digest (ApprovalResult t) st2)) (\<lambda>st3.
            rbind (append_audit P ''approval.revoked''
                     (revocation_event_json (tb_operation t) (tb_approval t) (tb_wallet t) t) st3) (\<lambda>st4.
            Inr (st4, t)))))))"

definition revoke_approval ::
  "prims \<Rightarrow> digest32 \<Rightarrow> string \<Rightarrow> operation_id \<Rightarrow> u64 \<Rightarrow> engine \<Rightarrow> engine \<times> approval_tombstone result" where
  "revoke_approval P approval reason operation revoked_at st =
     (if reason = [] \<or> length reason > 256 then (st, Inl (err MalformedFrame))
      else transact P (revoke_approval_tx P approval reason operation revoked_at) st)"

subsection \<open>Revoking a wallet\<close>

fun parse_tombstones :: "tombstone_entry list \<Rightarrow> approval_tombstone list result" where
  "parse_tombstones [] = Inr []"
| "parse_tombstones (e # es) =
     rbind (ok_or (te_tombstone e) (err MalformedFrame)) (\<lambda>t.
     rbind (parse_tombstones es) (\<lambda>ts. Inr (t # ts)))"

definition approval_tombstones :: "engine \<Rightarrow> token \<Rightarrow> approval_tombstone list result" where
  "approval_tombstones st wallet =
     parse_tombstones (sort_key te_approval (filter (\<lambda>e. te_wallet e = wallet) (en_tombstones st)))"

definition signed_revocation_state ::
  "prims \<Rightarrow> engine \<Rightarrow> token \<Rightarrow> u64 \<Rightarrow> wallet_tombstone option \<Rightarrow> approval_tombstone list \<Rightarrow> u64
   \<Rightarrow> revocation_state" where
  "signed_revocation_state P st wallet epoch wtomb tombs observed =
     (let s = \<lparr>rs_wallet = wallet, rs_epoch = epoch, rs_tombstone = wtomb,
               rs_digest = p_sha256 P (p_jcs P (JArr (map approval_tombstone_json tombs))),
               rs_count = of_nat (length tombs), rs_observed = observed, rs_issuer = ''bloom-signer'',
               rs_key = en_revocation_key_id st, rs_signature = []\<rparr>
      in s\<lparr>rs_signature := sign_revocation P (en_revocation_key st) REVOCATION_STATE_DOMAIN
             (revocation_state_json s)\<rparr>)"

definition new_wallet_tombstone :: "prims \<Rightarrow> engine \<Rightarrow> token \<Rightarrow> u64 \<Rightarrow> operation_id \<Rightarrow> u64 \<Rightarrow> wallet_tombstone" where
  "new_wallet_tombstone P st wallet epoch operation revoked_at =
     (let t = \<lparr>wt_wallet = wallet, wt_epoch = epoch, wt_operation = operation,
               wt_revoked_at = revoked_at, wt_issuer = ''bloom-signer'',
               wt_key = en_revocation_key_id st, wt_signature = []\<rparr>
      in t\<lparr>wt_signature := sign_revocation P (en_revocation_key st) WALLET_TOMBSTONE_DOMAIN
             (wallet_tombstone_json t)\<rparr>)"

definition set_wallet_epoch :: "token \<Rightarrow> u64 \<Rightarrow> engine \<Rightarrow> engine" where
  "set_wallet_epoch wallet epoch st =
     (if list_ex (\<lambda>w. ws_wallet w = wallet) (en_wallets st)
      then st\<lparr>en_wallets := update_rows (\<lambda>w. ws_wallet w = wallet)
                (\<lambda>w. w\<lparr>ws_epoch := Some epoch\<rparr>) (en_wallets st)\<rparr>
      else st\<lparr>en_wallets := en_wallets st @
                [\<lparr>ws_wallet = wallet, ws_epoch = Some epoch,
                  ws_status = ''DERIVATION_REGISTRY_MISSING''\<rparr>]\<rparr>)"

definition put_wallet_tombstone :: "token \<Rightarrow> wallet_tombstone \<Rightarrow> engine \<Rightarrow> engine" where
  "put_wallet_tombstone wallet t st =
     (if list_ex (\<lambda>q. fst q = wallet) (en_wallet_tombstones st)
      then st\<lparr>en_wallet_tombstones := update_rows (\<lambda>q. fst q = wallet) (\<lambda>q. (fst q, Some t))
                (en_wallet_tombstones st)\<rparr>
      else st\<lparr>en_wallet_tombstones := en_wallet_tombstones st @ [(wallet, Some t)]\<rparr>)"

definition revoke_all_tx :: "prims \<Rightarrow> token \<Rightarrow> operation_id \<Rightarrow> u64 \<Rightarrow> engine \<Rightarrow> revocation_state tx" where
  "revoke_all_tx P wallet operation revoked_at st =
     (let digest = revocation_request_digest P (revoke_all_request_json wallet operation revoked_at) in
      rbind (with_latch False (load_revocation_operation as_wallet_result st operation digest)) (\<lambda>stored.
      case stored of
        Some s \<Rightarrow> Inr (st, s)
      | None \<Rightarrow>
        rbind (with_latch False (wallet_epoch st wallet)) (\<lambda>epoch.
        rbind (with_latch False (ok_or (checked_add epoch 1) (err RevocationEpochUnreconciled))) (\<lambda>next_epoch.
        let wtomb = new_wallet_tombstone P st wallet next_epoch operation revoked_at;
            st1 = set_wallet_epoch wallet next_epoch st;
            st2 = put_wallet_tombstone wallet wtomb st1;
            st3 = deactivate (\<lambda>a. ap_wallet a = wallet) st2
        in
        rbind (with_latch False (approval_tombstones st3 wallet)) (\<lambda>tombs.
        let state = signed_revocation_state P st wallet next_epoch (Some wtomb) tombs revoked_at in
        rbind (with_latch False
                 (store_revocation_operation operation wallet digest (WalletResult state) st3)) (\<lambda>st4.
        rbind (append_audit P ''wallet.revoked''
                 (JObj [(''operation_id'', JStr operation), (''wallet_id'', JStr wallet),
                        (''revocation_state'', revocation_state_json state)]) st4) (\<lambda>st5.
        Inr (st5, state))))))))"

definition revoke_all :: "prims \<Rightarrow> token \<Rightarrow> operation_id \<Rightarrow> u64 \<Rightarrow> engine \<Rightarrow> engine \<times> revocation_state result" where
  "revoke_all P wallet operation revoked_at st = transact P (revoke_all_tx P wallet operation revoked_at) st"

definition revocation_state_of :: "prims \<Rightarrow> engine \<Rightarrow> token \<Rightarrow> u64 \<Rightarrow> revocation_state result" where
  "revocation_state_of P st wallet observed_at =
     rbind (wallet_epoch st wallet) (\<lambda>epoch.
     rbind (case find (\<lambda>q. fst q = wallet) (en_wallet_tombstones st) of
              None \<Rightarrow> Inr None
            | Some q \<Rightarrow> rbind (ok_or (snd q) (err MalformedFrame)) (\<lambda>t. Inr (Some t))) (\<lambda>wtomb.
     rbind (approval_tombstones st wallet) (\<lambda>tombs.
       Inr (signed_revocation_state P st wallet epoch wtomb tombs observed_at))))"

end
