(* ===== verification/Clock.thy ===== *)
theory Clock
  imports Signer_Engine
begin

text \<open>
  Trusted time: \<open>crates/bloom-signer/src/clock.rs\<close> and the clock operations of
  \<open>crates/bloom-signer/src/engine.rs\<close>. The evaluation of a reading against the stored clock
  (\<open>evaluate_durable_clock\<close>) and the platform's sampler belong to the \<open>bloom_trusted_time\<close> crate: the
  first is the parameter \<open>eval\<close>, the outcome of the second an argument.
\<close>

record clock_reading =
  rd_utc :: "u64 option"
  rd_elapsed :: u64
  rd_anchor :: u64

record persisted_clock =
  pc_last :: u64
  pc_anchor :: u64
  pc_boot_epoch :: "string option"

datatype durable_condition = DcHealthy | DcUntrusted | DcRollbackFrozen | DcForwardJumpRejected

record durable_decision =
  dd_now :: u64
  dd_condition :: durable_condition

text \<open>\<open>evaluate_durable_clock\<close>: stored clock, reading, boot epoch, largest forward step; \<open>None\<close> is its error.\<close>

type_synonym durable_clock =
  "persisted_clock option \<Rightarrow> clock_reading \<Rightarrow> string option \<Rightarrow> u64 \<Rightarrow> durable_decision option"

fun signer_clock_condition :: "durable_condition \<Rightarrow> clock_condition" where
  "signer_clock_condition DcHealthy = Healthy"
| "signer_clock_condition DcUntrusted = Untrusted"
| "signer_clock_condition DcRollbackFrozen = RollbackFrozen"
| "signer_clock_condition DcForwardJumpRejected = ForwardJumpRejected"

fun condition_str :: "clock_condition \<Rightarrow> string" where
  "condition_str Healthy = ''HEALTHY''"
| "condition_str ForwardJumpRejected = ''FORWARD_JUMP_REJECTED''"
| "condition_str Untrusted = ''UNTRUSTED''"
| "condition_str RollbackFrozen = ''ROLLBACK_FROZEN''"
| "condition_str Repaired = ''REPAIRED''"

text \<open>A boot epoch is its 32 lower-case hex digits; the all-zero one means that none was recorded.\<close>

definition comparable_boot_epoch :: "string \<Rightarrow> string option" where
  "comparable_boot_epoch epoch = (if epoch \<noteq> replicate 32 CHR ''0'' then Some epoch else None)"

definition write_clock_state :: "u64 \<Rightarrow> clock_condition \<Rightarrow> clock_reading \<Rightarrow> string \<Rightarrow> engine \<Rightarrow> engine" where
  "write_clock_state now condition reading boot_epoch st =
     st\<lparr>en_clock := Some \<lparr>cl_last = Some now, cl_condition = condition_str condition, cl_observed = rd_utc reading,
          cl_anchor = Some (rd_anchor reading), cl_boot_epoch = Some boot_epoch\<rparr>\<rparr>"

subsection \<open>Observing\<close>

definition stored_clock :: "engine \<Rightarrow> persisted_clock option result" where
  "stored_clock st =
     (case en_clock st of
        None \<Rightarrow> Inr None
      | Some row \<Rightarrow>
          rbind (ok_or (cl_last row) (err MalformedFrame)) (\<lambda>last_effective.
          rbind (ok_or (cl_anchor row) (err MalformedFrame)) (\<lambda>anchor.
          rbind (ok_or (cl_boot_epoch row) (err ClockUntrusted)) (\<lambda>epoch.
            Inr (Some \<lparr>pc_last = last_effective, pc_anchor = anchor,
                       pc_boot_epoch = comparable_boot_epoch epoch\<rparr>)))))"

definition evaluate_clock ::
  "durable_clock \<Rightarrow> clock_reading \<Rightarrow> string \<Rightarrow> u64 \<Rightarrow> engine \<Rightarrow> durable_decision result" where
  "evaluate_clock eval reading boot_epoch max_step st =
     rbind (stored_clock st) (\<lambda>previous.
       ok_or (eval previous reading (comparable_boot_epoch boot_epoch) max_step) (err ClockUntrusted))"

definition decision :: "clock_reading \<Rightarrow> string \<Rightarrow> u64 \<Rightarrow> clock_condition \<Rightarrow> clock_decision" where
  "decision reading boot_epoch now condition =
     \<lparr>cd_now = now, cd_condition = condition, cd_observed = rd_utc reading,
      cd_monotonic = rd_anchor reading, cd_boot_epoch = boot_epoch\<rparr>"

definition clock_event :: "durable_condition \<Rightarrow> bool \<Rightarrow> string" where
  "clock_event condition initializing =
     (case condition of
        DcUntrusted \<Rightarrow> ''clock.untrusted''
      | DcHealthy \<Rightarrow> (if initializing then ''clock.initialized'' else ''clock.observed'')
      | DcRollbackFrozen \<Rightarrow> ''clock.rollback''
      | DcForwardJumpRejected \<Rightarrow> ''clock.forward_jump'')"

definition clock_json :: "durable_condition \<Rightarrow> bool \<Rightarrow> u64 \<Rightarrow> u64 \<Rightarrow> clock_reading \<Rightarrow> string \<Rightarrow> json" where
  "clock_json condition initializing utc now reading boot_epoch =
     JObj ((if condition = DcUntrusted \<or> (condition = DcHealthy \<and> initializing) then []
            else [(''observed_utc_ms'', JDec utc)])
           @ [(''effective_now_ms'', JDec now), (''monotonic_anchor_ns'', JDec (rd_anchor reading)),
              (''boot_epoch'', JStr boot_epoch)])"

text \<open>A decision that refuses a rate-limited mutation is still written and audited.\<close>

definition refuses :: "durable_condition \<Rightarrow> protocol_error_code option" where
  "refuses condition =
     (case condition of
        DcUntrusted \<Rightarrow> Some ClockUntrusted
      | DcRollbackFrozen \<Rightarrow> Some ClockRollback
      | _ \<Rightarrow> None)"

definition observe_time_tx ::
  "prims \<Rightarrow> durable_clock \<Rightarrow> clock_reading \<Rightarrow> string \<Rightarrow> u64 \<Rightarrow> bool \<Rightarrow> engine \<Rightarrow> clock_decision result tx" where
  "observe_time_tx P eval reading boot_epoch max_step rate_limited st =
     rbind (with_latch False (evaluate_clock eval reading boot_epoch max_step st)) (\<lambda>shared.
     let condition = dd_condition shared; now = dd_now shared; initializing = (en_clock st = None) in
     rbind (with_latch False
              (if condition = DcUntrusted then Inr 0 else ok_or (rd_utc reading) (err ClockUntrusted))) (\<lambda>utc.
     rbind (append_audit P (clock_event condition initializing)
              (clock_json condition initializing utc now reading boot_epoch)
              (write_clock_state now (signer_clock_condition condition) reading boot_epoch st)) (\<lambda>st1.
     Inr (st1,
       case refuses condition of
         Some code \<Rightarrow> if rate_limited then Inl (err code)
                      else Inr (decision reading boot_epoch now (signer_clock_condition condition))
       | None \<Rightarrow> Inr (decision reading boot_epoch now (signer_clock_condition condition))))))"

definition flatten_result :: "engine \<times> 'a result result \<Rightarrow> engine \<times> 'a result" where
  "flatten_result sr = (case sr of (st, Inl e) \<Rightarrow> (st, Inl e) | (st, Inr r) \<Rightarrow> (st, r))"

definition observe_time ::
  "prims \<Rightarrow> durable_clock \<Rightarrow> clock_reading \<Rightarrow> string \<Rightarrow> u64 \<Rightarrow> bool \<Rightarrow> engine
   \<Rightarrow> engine \<times> clock_decision result" where
  "observe_time P eval reading boot_epoch max_step rate_limited st =
     flatten_result (transact P (observe_time_tx P eval reading boot_epoch max_step rate_limited) st)"

definition observe_time_read_only ::
  "durable_clock \<Rightarrow> clock_reading \<Rightarrow> string \<Rightarrow> u64 \<Rightarrow> engine \<Rightarrow> clock_decision result" where
  "observe_time_read_only eval reading boot_epoch max_step st =
     rbind (evaluate_clock eval reading boot_epoch max_step st) (\<lambda>shared.
       Inr (decision reading boot_epoch (dd_now shared) (signer_clock_condition (dd_condition shared))))"

subsection \<open>Repair\<close>

definition repair_clock_tx :: "prims \<Rightarrow> u64 \<Rightarrow> engine \<Rightarrow> clock_decision tx" where
  "repair_clock_tx P accepted st =
     rbind (with_latch False (ok_or (en_clock st) (err ClockUntrusted))) (\<lambda>row.
     rbind (with_latch False (ok_or (cl_last row) (err MalformedFrame))) (\<lambda>prior.
     if accepted < prior then abort ClockRollback
     else
       rbind (with_latch False (ok_or (cl_anchor row) (err MalformedFrame))) (\<lambda>anchor.
       rbind (with_latch False (ok_or (cl_boot_epoch row) (err MalformedFrame))) (\<lambda>boot_epoch.
       let reading = \<lparr>rd_utc = Some accepted, rd_elapsed = 0, rd_anchor = anchor\<rparr> in
       rbind (append_audit P ''clock.repaired''
                (JObj [(''prior_effective_ms'', JDec prior), (''accepted_utc_ms'', JDec accepted),
                       (''monotonic_anchor_ns'', JDec anchor), (''boot_epoch'', JStr boot_epoch)])
                (write_clock_state accepted Repaired reading boot_epoch st)) (\<lambda>st1.
       Inr (st1, decision reading boot_epoch accepted Repaired))))))"

definition repair_clock :: "prims \<Rightarrow> u64 \<Rightarrow> engine \<Rightarrow> engine \<times> clock_decision result" where
  "repair_clock P accepted st = transact P (repair_clock_tx P accepted) st"

subsection \<open>The Signer's clock\<close>

record signer_clock =
  sc_boot_epoch :: string
  sc_durable_guard :: bool

definition host_wall_clock_decision :: "clock_reading \<Rightarrow> string \<Rightarrow> clock_decision result" where
  "host_wall_clock_decision reading boot_epoch =
     rbind (ok_or (rd_utc reading) (err ClockUntrusted)) (\<lambda>utc.
       Inr \<lparr>cd_now = utc, cd_condition = Healthy, cd_observed = Some utc,
            cd_monotonic = rd_anchor reading, cd_boot_epoch = boot_epoch\<rparr>)"

text \<open>\<open>sample\<close> is the outcome of the platform sampler, \<open>None\<close> its error.\<close>

definition clock_observe ::
  "prims \<Rightarrow> durable_clock \<Rightarrow> u64 \<Rightarrow> signer_clock \<Rightarrow> clock_reading option \<Rightarrow> bool \<Rightarrow> engine
   \<Rightarrow> engine \<times> clock_decision result" where
  "clock_observe P eval max_step clock sample rate_limited st =
     (case sample of
        None \<Rightarrow> (st, Inl (err ClockUntrusted))
      | Some reading \<Rightarrow>
          if \<not> sc_durable_guard clock then (st, host_wall_clock_decision reading (sc_boot_epoch clock))
          else observe_time P eval reading (sc_boot_epoch clock) max_step rate_limited st)"

definition clock_observe_read_only ::
  "durable_clock \<Rightarrow> u64 \<Rightarrow> signer_clock \<Rightarrow> clock_reading option \<Rightarrow> engine \<Rightarrow> clock_decision result" where
  "clock_observe_read_only eval max_step clock sample st =
     (case sample of
        None \<Rightarrow> Inl (err ClockUntrusted)
      | Some reading \<Rightarrow>
          if \<not> sc_durable_guard clock then host_wall_clock_decision reading (sc_boot_epoch clock)
          else observe_time_read_only eval reading (sc_boot_epoch clock) max_step st)"

definition now_ms ::
  "prims \<Rightarrow> durable_clock \<Rightarrow> u64 \<Rightarrow> signer_clock \<Rightarrow> clock_reading option \<Rightarrow> bool \<Rightarrow> engine
   \<Rightarrow> engine \<times> u64 result" where
  "now_ms P eval max_step clock sample rate_limited st =
     (case clock_observe P eval max_step clock sample rate_limited st of
        (st1, r) \<Rightarrow> (st1, rbind r (\<lambda>d. Inr (cd_now d))))"

definition now_ms_read_only ::
  "durable_clock \<Rightarrow> u64 \<Rightarrow> signer_clock \<Rightarrow> clock_reading option \<Rightarrow> engine \<Rightarrow> u64 result" where
  "now_ms_read_only eval max_step clock sample st =
     rbind (clock_observe_read_only eval max_step clock sample st) (\<lambda>d. Inr (cd_now d))"

datatype readiness_state = Ready | DegradedReadOnly | Unavailable

definition readiness ::
  "durable_clock \<Rightarrow> u64 \<Rightarrow> signer_clock \<Rightarrow> clock_reading option \<Rightarrow> engine \<Rightarrow> readiness_state \<times> token list" where
  "readiness eval max_step clock sample st =
     (case clock_observe_read_only eval max_step clock sample st of
        Inl _ \<Rightarrow> (DegradedReadOnly, [''clock_untrusted''])
      | Inr d \<Rightarrow>
          if aud_degraded (en_audit st) then (DegradedReadOnly, [''audit_degraded''])
          else
            (case cd_condition d of
               Healthy \<Rightarrow> (Ready, [])
             | Repaired \<Rightarrow> (Ready, [])
             | ForwardJumpRejected \<Rightarrow> (DegradedReadOnly, [''clock_forward_jump''])
             | Untrusted \<Rightarrow> (DegradedReadOnly, [''clock_untrusted''])
             | RollbackFrozen \<Rightarrow> (DegradedReadOnly, [''clock_rollback''])))"

text \<open>The kernel's boot identifier: five groups of hex digits joined by dashes.\<close>

fun boot_segments :: "nat list \<Rightarrow> string list \<Rightarrow> string option" where
  "boot_segments [] [] = Some []"
| "boot_segments [] (_ # _) = None"
| "boot_segments (_ # _) [] = None"
| "boot_segments (n # ns) (segment # segments) =
     (if length segment \<noteq> n \<or> \<not> list_all is_ascii_hexdigit segment then None
      else map_option (\<lambda>rest. segment @ rest) (boot_segments ns segments))"

definition parse_linux_boot_epoch :: "string \<Rightarrow> string result" where
  "parse_linux_boot_epoch raw =
     (case boot_segments [8, 4, 4, 4, 12] (split_on CHR ''-'' (trim raw)) of
        None \<Rightarrow> Inl (err ClockUntrusted)
      | Some compact \<Rightarrow> Inr (map to_ascii_lowercase compact))"

text \<open>On Linux, with \<open>raw\<close> the contents of the boot identifier's file or \<open>None\<close> when it cannot be read.\<close>

definition durable_clock_boot_epoch :: "bool \<Rightarrow> string \<Rightarrow> string option \<Rightarrow> string result" where
  "durable_clock_boot_epoch durable_guard enrollment_epoch raw =
     (if \<not> durable_guard then Inr enrollment_epoch
      else rbind (ok_or raw (err ClockUntrusted)) parse_linux_boot_epoch)"

definition signer_clock_new ::
  "prims \<Rightarrow> durable_clock \<Rightarrow> u64 \<Rightarrow> bool \<Rightarrow> string \<Rightarrow> string option \<Rightarrow> clock_reading option \<Rightarrow> engine
   \<Rightarrow> engine \<times> signer_clock result" where
  "signer_clock_new P eval max_step durable_guard enrollment_epoch raw sample st =
     (case durable_clock_boot_epoch durable_guard enrollment_epoch raw of
        Inl e \<Rightarrow> (st, Inl e)
      | Inr boot_epoch \<Rightarrow>
          let clock = \<lparr>sc_boot_epoch = boot_epoch, sc_durable_guard = durable_guard\<rparr> in
          if aud_degraded (en_audit st)
          then (st, rbind (clock_observe_read_only eval max_step clock sample st) (\<lambda>_. Inr clock))
          else
            (case clock_observe P eval max_step clock sample False st of
               (st1, r) \<Rightarrow> (st1, rbind r (\<lambda>_. Inr clock))))"

end
