(* ===== verification/Service.thy ===== *)
theory Service
  imports Backend_Api Methods Revocation Clock
begin

text \<open>
  The RPC adapter: \<open>crates/bloom-signer/src/service.rs\<close>. The sign method composes the clock, the
  engine and a backend; every call to the backend is recorded, so that what was asked of it is part of the
  result. The backend's answers are a parameter, as are \<open>serde_json\<close>'s reading of a stored result and the
  platform's clock sample and containment check. The signing gate serialises the calls, which the explicit
  state expresses; log lines are left out.
\<close>

definition PROVIDER_ATTEMPT_DOMAIN :: string where
  "PROVIDER_ATTEMPT_DOMAIN = ''bloom-provider-attempt/v1''"

definition SIGNER_RECEIPT_DOMAIN :: string where
  "SIGNER_RECEIPT_DOMAIN = ''bloom-signer-signing-receipt/v1''"

text \<open>The bytes of a digest or a boot epoch, which are canonical hex by construction.\<close>

definition hex_bytes :: "prims \<Rightarrow> string \<Rightarrow> bytes" where
  "hex_bytes P s = (case p_hex_decode P s of Some b \<Rightarrow> b | None \<Rightarrow> [])"

definition be32 :: "nat \<Rightarrow> bytes" where
  "be32 n = map (\<lambda>k. of_nat (n div 256 ^ k)) [3, 2, 1, 0]"

definition provider_attempt_id :: "prims \<Rightarrow> digest32 \<Rightarrow> string \<Rightarrow> nat \<Rightarrow> digest32" where
  "provider_attempt_id P operation_digest boot_epoch child_index =
     p_sha256 P (str_bytes PROVIDER_ATTEMPT_DOMAIN @ hex_bytes P operation_digest
       @ hex_bytes P boot_epoch @ be32 child_index)"

record normalized_signature =
  nsig_suite :: crypto_suite
  nsig_bytes :: bytes

record signing_result =
  res_operation_id :: operation_id
  res_operation_digest :: digest32
  res_signatures :: "normalized_signature list"
  res_signer_receipt :: digest32
  res_broker_receipt :: digest32

definition signature_json :: "normalized_signature \<Rightarrow> json" where
  "signature_json s = JObj [(''crypto_suite'', suite_json (nsig_suite s)), (''bytes'', JBytes (nsig_bytes s))]"

definition signing_result_json :: "signing_result \<Rightarrow> json" where
  "signing_result_json r =
     JObj [(''operation_id'', JStr (res_operation_id r)), (''operation_digest'', JStr (res_operation_digest r)),
           (''signatures'', JArr (map signature_json (res_signatures r))),
           (''signer_receipt_digest'', JStr (res_signer_receipt r)),
           (''broker_receipt_digest'', JStr (res_broker_receipt r))]"

definition signer_receipt_digest :: "prims \<Rightarrow> sign_request \<Rightarrow> normalized_signature list \<Rightarrow> digest32" where
  "signer_receipt_digest P r signatures =
     (let u = req_unsigned r in
      p_sha256 P (str_bytes SIGNER_RECEIPT_DOMAIN @ p_jcs P
        (JObj [(''operation_id'', JStr (sr_operation_id u)), (''operation_digest'', JStr (sr_operation_digest u)),
               (''signatures'', JArr (map signature_json signatures)),
               (''validation_receipt_digest'', JStr (sr_validation_receipt u))])))"

fun map_backend_error :: "backend_error \<Rightarrow> protocol_error" where
  "map_backend_error DefinitiveRejected = err BackendInvalidRequest"
| "map_backend_error InvalidRequest = err BackendInvalidRequest"
| "map_backend_error RetryableBeforeAcceptance = err ServiceUnavailable"
| "map_backend_error Unsupported = err BackendUnsupported"
| "map_backend_error IndeterminateAcceptance = err AmbiguousProviderEffect"

definition require_signature_count :: "sign_request \<Rightarrow> bool \<Rightarrow> unit result" where
  "require_signature_count r batch =
     (let count = sr_signature_count (req_unsigned r) in
      if (batch \<and> \<not> (1 \<le> count \<and> count \<le> 32)) \<or> (\<not> batch \<and> count \<noteq> 1)
      then Inl (err MalformedFrame) else Inr ())"

subsection \<open>Signing\<close>

text \<open>The input of one child; \<open>None\<close> is the panic of indexing past the messages.\<close>

definition child_input :: "unsigned_request \<Rightarrow> nat \<Rightarrow> digest32 \<Rightarrow> backend_input option" where
  "child_input u index hash =
     (case input_kind (sr_suite u) of
        InputDigest32 \<Rightarrow> Some (DigestInput hash)
      | InputMessage \<Rightarrow>
          if index < length (sr_messages u) then Some (MessageInput (sr_messages u ! index)) else None)"

text \<open>Whether a failed call is known to have had no effect: the first call, and a definitive refusal.\<close>

definition failure_effect :: "bool \<Rightarrow> backend_error \<Rightarrow> operation_effect" where
  "failure_effect first error =
     (if first \<and> (error = DefinitiveRejected \<or> error = RetryableBeforeAcceptance \<or> error = Unsupported
          \<or> error = InvalidRequest)
      then EffectReleased else EffectQuarantined)"

definition fail_operation ::
  "prims \<Rightarrow> operation_id \<Rightarrow> operation_effect \<Rightarrow> protocol_error \<Rightarrow> engine \<Rightarrow> engine \<times> 'a result" where
  "fail_operation P operation effect e st =
     (case finalize_operation P operation effect st of
        (st', Inl f) \<Rightarrow> (st', Inl f)
      | (st', Inr _) \<Rightarrow> (st', Inl e))"

type_synonym backend_sign = "backend_sign_request \<Rightarrow> backend_error + backend_signature"

text \<open>The loop over the ordered hashes, each with its index and provider attempt. The calls made come
  first in the outcome; \<open>None\<close> is the panic of \<open>child_input\<close>.\<close>

fun sign_children ::
  "prims \<Rightarrow> backend_sign \<Rightarrow> unsigned_request \<Rightarrow> (nat \<times> digest32 \<times> digest32) list
   \<Rightarrow> normalized_signature list \<Rightarrow> engine
   \<Rightarrow> (backend_sign_request list \<times> engine \<times> normalized_signature list result) option" where
  "sign_children P call u [] signatures st = Some ([], st, Inr signatures)"
| "sign_children P call u ((index, hash, attempt) # children) signatures st =
     (case child_input u index hash of
        None \<Rightarrow> None
      | Some input \<Rightarrow>
          let request = \<lparr>bs_provider_attempt = attempt, bs_key_ref = sr_key_ref u, bs_suite = sr_suite u,
                bs_input = input, bs_deadline_ms = sr_expires_at_ms u\<rparr>
          in
          (case call request of
             Inl error \<Rightarrow>
               let effect = failure_effect (signatures = []) error;
                   e = (if effect = EffectQuarantined then err AmbiguousProviderEffect
                        else map_backend_error error)
               in (case fail_operation P (sr_operation_id u) effect e st of
                     (st', res) \<Rightarrow> Some ([request], st', res))
           | Inr signature \<Rightarrow>
               if sg_suite signature \<noteq> sr_suite u
                  \<or> sg_encoding signature \<noteq> signature_encoding_of (sr_suite u)
               then (case fail_operation P (sr_operation_id u) EffectQuarantined (err AmbiguousProviderEffect) st of
                       (st', res) \<Rightarrow> Some ([request], st', res))
               else
                 map_option (\<lambda>(calls, rest). (request # calls, rest))
                   (sign_children P call u children
                      (signatures @ [\<lparr>nsig_suite = sg_suite signature, nsig_bytes = sg_bytes signature\<rparr>]) st)))"

definition normalized_result :: "prims \<Rightarrow> sign_request \<Rightarrow> normalized_signature list \<Rightarrow> signing_result" where
  "normalized_result P r signatures =
     (let u = req_unsigned r in
      \<lparr>res_operation_id = sr_operation_id u, res_operation_digest = sr_operation_digest u,
       res_signatures = signatures, res_signer_receipt = signer_receipt_digest P r signatures,
       res_broker_receipt = sr_validation_receipt u\<rparr>)"

text \<open>What follows the authorisation of an operation that has no stored result.\<close>

definition dispatch_operation ::
  "prims \<Rightarrow> backend_sign \<Rightarrow> string \<Rightarrow> sign_request \<Rightarrow> engine
   \<Rightarrow> (backend_sign_request list \<times> engine \<times> signing_result result) option" where
  "dispatch_operation P call boot_epoch r st =
     (let u = req_unsigned r; n = length (sr_hashes u);
          attempts = map (provider_attempt_id P (sr_operation_digest u) boot_epoch) [0..<n]
      in
      case mark_operation_dispatched P (sr_operation_id u) (sr_key_ref u) attempts st of
        (st1, Inl e) \<Rightarrow> Some ([], st1, Inl e)
      | (st1, Inr _) \<Rightarrow>
          if en_backends st1 (kr_backend (sr_key_ref u), kr_backend_instance (sr_key_ref u)) = None
          then Some ([], st1, Inl (err BackendUnsupported))
          else
            (case sign_children P call u (zip [0..<n] (zip (sr_hashes u) attempts)) [] st1 of
               None \<Rightarrow> None
             | Some (calls, st2, Inl e) \<Rightarrow> Some (calls, st2, Inl e)
             | Some (calls, st2, Inr signatures) \<Rightarrow>
                 let res = normalized_result P r signatures in
                 (case commit_operation_result P (sr_operation_id u) (p_jcs P (signing_result_json res)) st2 of
                    (st3, Inl e) \<Rightarrow> Some (calls, st3, Inl e)
                  | (st3, Inr _) \<Rightarrow> Some (calls, st3, Inr res))))"

record service =
  sv_clock :: signer_clock
  sv_boot_epoch :: string
  sv_contained :: "unit result option"

text \<open>\<open>sign\<close>. \<open>sample\<close> is the platform's clock reading, \<open>decode\<close> reads a stored result.\<close>

definition sign ::
  "prims \<Rightarrow> durable_clock \<Rightarrow> u64 \<Rightarrow> clock_reading option \<Rightarrow> (bytes \<Rightarrow> signing_result option) \<Rightarrow> backend_sign
   \<Rightarrow> service \<Rightarrow> sign_request \<Rightarrow> engine
   \<Rightarrow> (backend_sign_request list \<times> engine \<times> signing_result result) option" where
  "sign P eval max_step sample decode call sv r st =
     (let u = req_unsigned r in
      case approval_requires_trusted_time st (sr_approval_id u) of
        Inl e \<Rightarrow> Some ([], st, Inl e)
      | Inr trusted \<Rightarrow>
          (case clock_observe P eval max_step (sv_clock sv) sample trusted st of
             (st1, Inl e) \<Rightarrow> Some ([], st1, Inl e)
           | (st1, Inr clock) \<Rightarrow>
               (case authorize_sign P r clock st1 of
                  (st2, Inl e) \<Rightarrow> Some ([], st2, Inl e)
                | (st2, Inr authorization) \<Rightarrow>
                    (case (if authorization = SameOperationRetry
                           then stored_operation_result st2 (sr_operation_id u) else None) of
                       Some stored \<Rightarrow> Some ([], st2, ok_or (decode stored) (err MalformedFrame))
                     | None \<Rightarrow> dispatch_operation P call (sv_boot_epoch sv) r st2))))"

subsection \<open>Containment, readiness and the sign methods\<close>

definition signer_request_requires_containment :: "broker_signer_method \<Rightarrow> bool" where
  "signer_request_requires_containment m =
     (m \<in> {KeyDerivePrepare, KeyEnrollPrepare, CeremonyPrepare, CeremonyComplete, SignerSign, SignerSignBatch,
        PolicyCompareAndSwap, WalletRegistrationPrepare, WalletUnlockPrepare, WalletImportPrepare,
        WalletExportPrepare, WalletDeletePrepare, CredentialAddPrepare, CredentialRemovePrepare,
        CredentialReplacePrepare, RecoveryPrepare, CustodyBindOutputRecipient, CustodyComplete})"

definition require_network_containment :: "service \<Rightarrow> unit result" where
  "require_network_containment sv = (case sv_contained sv of Some check \<Rightarrow> check | None \<Rightarrow> Inr ())"

text \<open>The head of \<open>dispatch_inner\<close>: containment, then the time, which a read-only method does not record.\<close>

definition admit ::
  "prims \<Rightarrow> durable_clock \<Rightarrow> u64 \<Rightarrow> clock_reading option \<Rightarrow> service \<Rightarrow> broker_signer_method \<Rightarrow> engine
   \<Rightarrow> engine \<times> u64 result" where
  "admit P eval max_step sample sv m st =
     (case (if signer_request_requires_containment m then require_network_containment sv else Inr ()) of
        Inl e \<Rightarrow> (st, Inl e)
      | Inr _ \<Rightarrow>
          if is_read_only m then (st, now_ms_read_only eval max_step (sv_clock sv) sample st)
          else now_ms P eval max_step (sv_clock sv) sample False st)"

text \<open>The two sign methods of \<open>dispatch_inner\<close>.\<close>

definition dispatch_sign ::
  "prims \<Rightarrow> durable_clock \<Rightarrow> u64 \<Rightarrow> clock_reading option \<Rightarrow> clock_reading option
   \<Rightarrow> (bytes \<Rightarrow> signing_result option) \<Rightarrow> backend_sign \<Rightarrow> service \<Rightarrow> bool \<Rightarrow> sign_request \<Rightarrow> engine
   \<Rightarrow> (backend_sign_request list \<times> engine \<times> signing_result result) option" where
  "dispatch_sign P eval max_step sample sample' decode call sv batch r st =
     (case admit P eval max_step sample sv (if batch then SignerSignBatch else SignerSign) st of
        (st1, Inl e) \<Rightarrow> Some ([], st1, Inl e)
      | (st1, Inr _) \<Rightarrow>
          (case require_signature_count r batch of
             Inl e \<Rightarrow> Some ([], st1, Inl e)
           | Inr _ \<Rightarrow> sign P eval max_step sample' decode call sv r st1))"

subsection \<open>Approvals and the control channel\<close>

datatype control_request =
    CtrlRevoke digest32 string operation_id
  | CtrlRevokeAll token operation_id
  | CtrlStatus token

datatype control_response =
    CtrlRevoked "token \<times> approval_lifecycle"
  | CtrlRevokedAll revocation_state
  | CtrlState revocation_state

definition dispatch_control ::
  "prims \<Rightarrow> durable_clock \<Rightarrow> u64 \<Rightarrow> clock_reading option \<Rightarrow> service \<Rightarrow> control_request \<Rightarrow> engine
   \<Rightarrow> engine \<times> control_response result" where
  "dispatch_control P eval max_step sample sv request st =
     (case (case request of
              CtrlStatus _ \<Rightarrow> (st, now_ms_read_only eval max_step (sv_clock sv) sample st)
            | _ \<Rightarrow> now_ms P eval max_step (sv_clock sv) sample False st) of
        (st1, Inl e) \<Rightarrow> (st1, Inl e)
      | (st1, Inr now) \<Rightarrow>
          (case request of
             CtrlRevoke approval reason operation \<Rightarrow>
               (case revoke_approval P approval reason operation now st1 of
                  (st2, Inl e) \<Rightarrow> (st2, Inl e)
                | (st2, Inr _) \<Rightarrow> (st2, rbind (approval_public_status st2 approval now) (\<lambda>s. Inr (CtrlRevoked s))))
           | CtrlRevokeAll wallet operation \<Rightarrow>
               (case revoke_all P wallet operation now st1 of
                  (st2, r) \<Rightarrow> (st2, rbind r (\<lambda>s. Inr (CtrlRevokedAll s))))
           | CtrlStatus wallet \<Rightarrow>
               (st1, rbind (revocation_state_of P st1 wallet now) (\<lambda>s. Inr (CtrlState s)))))"

definition service_readiness ::
  "durable_clock \<Rightarrow> u64 \<Rightarrow> clock_reading option \<Rightarrow> service \<Rightarrow> engine \<Rightarrow> readiness_state \<times> token list" where
  "service_readiness eval max_step sample sv st =
     (case readiness eval max_step (sv_clock sv) sample st of
        (state, conditions) \<Rightarrow>
          if is_ok (require_network_containment sv) then (state, conditions)
          else (Unavailable, conditions @ [''network_containment_unavailable'']))"

text \<open>The requests of \<open>dispatch_inner\<close> that the engine and the clock answer alone.\<close>

datatype engine_request =
    ReqReadiness
  | ReqApprovalStatus digest32
  | ReqApprovalRevoke digest32 string operation_id
  | ReqApprovalRevokeAll token operation_id
  | ReqRevocationState token
  | ReqOperationStatus operation_id

fun engine_request_method :: "engine_request \<Rightarrow> broker_signer_method" where
  "engine_request_method ReqReadiness = SignerReadiness"
| "engine_request_method (ReqApprovalStatus _) = SealedApprovalStatus"
| "engine_request_method (ReqApprovalRevoke _ _ _) = SealedApprovalRevoke"
| "engine_request_method (ReqApprovalRevokeAll _ _) = SealedApprovalRevokeAll"
| "engine_request_method (ReqRevocationState _) = RevocationState"
| "engine_request_method (ReqOperationStatus _) = OperationStatus"

datatype engine_response =
    RespReadiness "readiness_state \<times> token list"
  | RespApproval "token \<times> approval_lifecycle"
  | RespRevokedAll revocation_state
  | RespRevocationState revocation_state "approval_tombstone list"
  | RespOperation "digest32 \<times> public_operation_state \<times> signing_result option"

definition dispatch_engine ::
  "prims \<Rightarrow> durable_clock \<Rightarrow> u64 \<Rightarrow> clock_reading option \<Rightarrow> clock_reading option
   \<Rightarrow> (bytes \<Rightarrow> signing_result option) \<Rightarrow> service \<Rightarrow> engine_request \<Rightarrow> engine \<Rightarrow> engine \<times> engine_response result" where
  "dispatch_engine P eval max_step sample sample' decode sv request st =
     (case admit P eval max_step sample sv (engine_request_method request) st of
        (st1, Inl e) \<Rightarrow> (st1, Inl e)
      | (st1, Inr now) \<Rightarrow>
          (case request of
             ReqReadiness \<Rightarrow> (st1, Inr (RespReadiness (service_readiness eval max_step sample' sv st1)))
           | ReqApprovalStatus approval \<Rightarrow>
               (st1, rbind (approval_public_status st1 approval now) (\<lambda>s. Inr (RespApproval s)))
           | ReqApprovalRevoke approval reason operation \<Rightarrow>
               (case revoke_approval P approval reason operation now st1 of
                  (st2, Inl e) \<Rightarrow> (st2, Inl e)
                | (st2, Inr _) \<Rightarrow> (st2, rbind (approval_public_status st2 approval now) (\<lambda>s. Inr (RespApproval s))))
           | ReqApprovalRevokeAll wallet operation \<Rightarrow>
               (case revoke_all P wallet operation now st1 of
                  (st2, r) \<Rightarrow> (st2, rbind r (\<lambda>s. Inr (RespRevokedAll s))))
           | ReqRevocationState wallet \<Rightarrow>
               (st1, rbind (revocation_state_of P st1 wallet now) (\<lambda>s.
                     rbind (approval_tombstones st1 wallet) (\<lambda>ts. Inr (RespRevocationState s ts))))
           | ReqOperationStatus operation \<Rightarrow>
               (st1, rbind (operation_status decode st1 operation) (\<lambda>s. Inr (RespOperation s)))))"

end
