(* ===== verification/Engine_Invariant.thy ===== *)
theory Engine_Invariant
  imports Revocation Clock
begin

text \<open>
  What the operations of the engine keep. \<open>core_inv\<close> ties the approval counters to the
  operations they paid for, \<open>core_grows\<close> says what later states never undo (revocations, attempts,
  operation states, epochs), and \<open>engine_step\<close> is one operation of the engine with any arguments, or
  any change of what the modelled operations only read (backends, enrolments, scopes,
  surfaces, derivation registry). The interpretation \<open>engine_run\<close> of \<open>transition_system\<close> carries both to
  every run, together with the verified audit journal.
\<close>

subsection \<open>Accounting\<close>

definition counted :: "digest32 \<Rightarrow> operation_row \<Rightarrow> bool" where
  "counted approval r = (op_approval r = approval \<and> op_state r \<noteq> Released)"

definition used_operations :: "operation_row list \<Rightarrow> digest32 \<Rightarrow> nat" where
  "used_operations ops approval = length (filter (counted approval) ops)"

definition used_signatures :: "operation_row list \<Rightarrow> digest32 \<Rightarrow> nat" where
  "used_signatures ops approval =
     sum_list (map (\<lambda>r. unat (the (op_signature_count r))) (filter (counted approval) ops))"

lemma used_simps [simp]:
  "used_operations [] a = 0" "used_signatures [] a = 0"
  "used_operations (r # rs) a = (if counted a r then 1 else 0) + used_operations rs a"
  "used_signatures (r # rs) a =
     (if counted a r then unat (the (op_signature_count r)) else 0) + used_signatures rs a"
  "used_operations (xs @ ys) a = used_operations xs a + used_operations ys a"
  "used_signatures (xs @ ys) a = used_signatures xs a + used_signatures ys a"
  by (simp_all add: used_operations_def used_signatures_def)

text \<open>An approval row is well formed against the operations charged to it.\<close>

definition approval_ok :: "prims \<Rightarrow> operation_row list \<Rightarrow> approval_row \<Rightarrow> bool" where
  "approval_ok P ops a =
     (case (ap_terms a, ap_operations a, ap_signatures a) of
        (Some t, Some n, Some m) \<Rightarrow>
          ap_wallet a = at_wallet_id t \<and> approval_id_of P t = Inr (ap_id a)
          \<and> n \<le> max_operations (at_limits t) \<and> m \<le> max_signatures (at_limits t)
          \<and> unat n = used_operations ops (ap_id a) \<and> unat m = used_signatures ops (ap_id a)
      | _ \<Rightarrow> False)"

definition operation_ok :: "approval_row list \<Rightarrow> operation_row \<Rightarrow> bool" where
  "operation_ok aps r =
     (op_signature_count r \<noteq> None \<and> op_approval r \<in> ap_id ` set aps
      \<and> (op_result r \<noteq> None \<longleftrightarrow> op_state r = Committed)
      \<and> op_state r \<in> {Reserved, Dispatched, Committed, Released, Quarantined})"

definition tombstone_ok :: "approval_row list \<Rightarrow> tombstone_entry \<Rightarrow> bool" where
  "tombstone_ok aps e =
     (te_tombstone e \<noteq> None
      \<and> list_ex (\<lambda>a. ap_id a = te_approval e \<and> \<not> ap_active a) aps)"

definition core_inv :: "prims \<Rightarrow> engine \<Rightarrow> bool" where
  "core_inv P st =
     (distinct (map ap_id (en_approvals st)) \<and> distinct (map op_id (en_operations st))
      \<and> distinct (map at_id (en_attempts st)) \<and> distinct (map ws_wallet (en_wallets st))
      \<and> map an_operation (en_anchors st) = map op_id (en_operations st)
      \<and> list_all (approval_ok P (en_operations st)) (en_approvals st)
      \<and> list_all (operation_ok (en_approvals st)) (en_operations st)
      \<and> list_all (\<lambda>q. at_operation q \<in> op_id ` set (en_operations st)) (en_attempts st)
      \<and> list_all (tombstone_ok (en_approvals st)) (en_tombstones st)
      \<and> list_all (\<lambda>w. ws_epoch w \<noteq> None) (en_wallets st))"

subsection \<open>Growth\<close>

text \<open>Which states an operation may reach from a state: reservations may be dispatched or finished,
  dispatched ones finished, finished ones stay.\<close>

definition state_le :: "op_state \<Rightarrow> op_state \<Rightarrow> bool" where
  "state_le s t =
     (s = t \<or> (case s of Reserved \<Rightarrow> t \<in> {Dispatched, Committed, Released, Quarantined}
              | Dispatched \<Rightarrow> t \<in> {Committed, Released, Quarantined}
              | _ \<Rightarrow> False))"

definition approval_le :: "approval_row \<Rightarrow> approval_row \<Rightarrow> bool" where
  "approval_le a b =
     (ap_id b = ap_id a \<and> ap_wallet b = ap_wallet a \<and> ap_terms b = ap_terms a
      \<and> (ap_active b \<longrightarrow> ap_active a))"

definition operation_le :: "operation_row \<Rightarrow> operation_row \<Rightarrow> bool" where
  "operation_le r q =
     (op_id q = op_id r \<and> op_digest q = op_digest r \<and> op_retry_binding q = op_retry_binding r
      \<and> op_approval q = op_approval r \<and> op_signature_count q = op_signature_count r
      \<and> op_accepted q = op_accepted r \<and> state_le (op_state r) (op_state q)
      \<and> (op_state r = Committed \<longrightarrow> op_result q = op_result r))"

definition wallet_le :: "wallet_row \<Rightarrow> wallet_row \<Rightarrow> bool" where
  "wallet_le w v =
     (ws_wallet v = ws_wallet w \<and>
      (case (ws_epoch w, ws_epoch v) of (Some d, Some e) \<Rightarrow> d \<le> e | (None, _) \<Rightarrow> True | _ \<Rightarrow> False))"

definition covers :: "('r \<Rightarrow> 'r \<Rightarrow> bool) \<Rightarrow> 'r list \<Rightarrow> 'r list \<Rightarrow> bool" where
  "covers le xs ys = (\<forall>x\<in>set xs. \<exists>y\<in>set ys. le x y)"

definition core_grows :: "engine \<Rightarrow> engine \<Rightarrow> bool" where
  "core_grows s t =
     (covers approval_le (en_approvals s) (en_approvals t)
      \<and> covers operation_le (en_operations s) (en_operations t)
      \<and> covers wallet_le (en_wallets s) (en_wallets t)
      \<and> set (en_attempts s) \<subseteq> set (en_attempts t)
      \<and> set (en_tombstones s) \<subseteq> set (en_tombstones t)
      \<and> (\<exists>rs. en_revocations t = en_revocations s @ rs)
      \<and> (\<exists>es. ad_entries (aud_db (en_audit t)) = ad_entries (aud_db (en_audit s)) @ es)
      \<and> (aud_degraded (en_audit s) \<longrightarrow> aud_degraded (en_audit t))
      \<and> aud_keys (en_audit t) = aud_keys (en_audit s)
      \<and> en_broker_key_id t = en_broker_key_id s \<and> en_broker_key t = en_broker_key s)"

lemma state_le_refl [simp]: "state_le s s" by (simp add: state_le_def)

lemma state_le_trans: "state_le s t \<Longrightarrow> state_le t u \<Longrightarrow> state_le s u"
  by (cases s; cases t; cases u) (auto simp: state_le_def)

lemma approval_le_refl [simp, intro]: "approval_le a a" by (simp add: approval_le_def)
lemma operation_le_refl [simp, intro]: "operation_le a a" by (simp add: operation_le_def)
lemma wallet_le_refl [simp, intro]: "wallet_le a a" by (simp add: wallet_le_def split: option.split)

lemma approval_le_trans: "approval_le a b \<Longrightarrow> approval_le b c \<Longrightarrow> approval_le a c"
  by (simp add: approval_le_def)

lemma operation_le_trans: "operation_le a b \<Longrightarrow> operation_le b c \<Longrightarrow> operation_le a c"
proof -
  assume ab: "operation_le a b" and bc: "operation_le b c"
  have "op_state a = Committed \<Longrightarrow> op_state b = Committed"
    using ab by (auto simp: operation_le_def state_le_def)
  with ab bc show ?thesis unfolding operation_le_def by (metis state_le_trans)
qed

lemma wallet_le_trans: "wallet_le a b \<Longrightarrow> wallet_le b c \<Longrightarrow> wallet_le a c"
  by (auto simp: wallet_le_def split: option.splits)

lemma covers_refl: "(\<And>x. le x x) \<Longrightarrow> covers le xs xs"
  by (auto simp: covers_def)

lemma covers_refls [simp, intro]:
  "covers approval_le xs xs" "covers operation_le ys ys" "covers wallet_le zs zs"
  by (auto intro: covers_refl)

lemma covers_trans:
  assumes "\<And>x y z. le x y \<Longrightarrow> le y z \<Longrightarrow> le x z" "covers le xs ys" "covers le ys zs"
  shows "covers le xs zs"
  using assms unfolding covers_def by meson

lemma covers_transs:
  "covers approval_le as bs \<Longrightarrow> covers approval_le bs cs \<Longrightarrow> covers approval_le as cs"
  "covers operation_le ps qs \<Longrightarrow> covers operation_le qs rs \<Longrightarrow> covers operation_le ps rs"
  "covers wallet_le us vs \<Longrightarrow> covers wallet_le vs ws \<Longrightarrow> covers wallet_le us ws"
  using covers_trans [of approval_le as bs cs] approval_le_trans
    covers_trans [of operation_le ps qs rs] operation_le_trans
    covers_trans [of wallet_le us vs ws] wallet_le_trans
  by blast+

lemma covers_map: "(\<And>x. x \<in> set xs \<Longrightarrow> le x (f x)) \<Longrightarrow> covers le xs (map f xs)"
  by (auto simp: covers_def)

lemma covers_update: "(\<And>x. le x x) \<Longrightarrow> (\<And>x. x \<in> set xs \<Longrightarrow> hit x \<Longrightarrow> le x (f x)) \<Longrightarrow> covers le xs (update_rows hit f xs)"
  unfolding update_rows_def by (rule covers_map) simp

lemma covers_append: "(\<And>x. le x x) \<Longrightarrow> covers le xs (xs @ ys)"
  by (auto simp: covers_def)

lemma core_grows_refl [simp, intro]: "core_grows s s"
  by (simp add: core_grows_def)

lemma core_grows_trans:
  assumes "core_grows s t" "core_grows t u"
  shows "core_grows s u"
proof -
  have "covers approval_le (en_approvals s) (en_approvals u)"
    "covers operation_le (en_operations s) (en_operations u)" "covers wallet_le (en_wallets s) (en_wallets u)"
    using assms covers_transs unfolding core_grows_def by blast+
  moreover have "\<exists>es. ad_entries (aud_db (en_audit u)) = ad_entries (aud_db (en_audit s)) @ es"
    "\<exists>rs. en_revocations u = en_revocations s @ rs"
    using assms unfolding core_grows_def by (metis append_assoc)+
  ultimately show ?thesis using assms unfolding core_grows_def by auto
qed

subsection \<open>Table updates\<close>

lemma core_inv_audit [simp]: "core_inv P (st\<lparr>en_audit := a\<rparr>) = core_inv P st"
  by (simp add: core_inv_def)

lemma find_split:
  assumes "distinct (map key rows)" "find (\<lambda>r. key r = k) rows = Some row"
  shows "\<exists>xs ys. rows = xs @ row # ys \<and> key row = k \<and> (\<forall>x\<in>set xs \<union> set ys. key x \<noteq> k)"
proof -
  from assms(2) have "row \<in> set rows" "key row = k" by (auto simp: find_Some_iff)
  then obtain xs ys where xs: "rows = xs @ row # ys" by (auto dest: split_list)
  with assms(1) \<open>key row = k\<close> have "\<forall>x\<in>set xs \<union> set ys. key x \<noteq> k"
    by (auto simp: image_iff)
  with xs \<open>key row = k\<close> show ?thesis by blast
qed

lemma update_split:
  "hit row \<Longrightarrow> (\<And>x. x \<in> set xs \<union> set ys \<Longrightarrow> \<not> hit x) \<Longrightarrow> update_rows hit f (xs @ row # ys) = xs @ f row # ys"
  by (auto simp: update_rows_def intro: map_idI)

lemma map_update_rows: "(\<And>x. g (f x) = g x) \<Longrightarrow> map g (update_rows hit f xs) = map g xs"
  by (simp add: update_rows_def)

text \<open>Operations and tombstones see of the approvals only their identifiers and activity.\<close>

definition ap_view :: "approval_row \<Rightarrow> digest32 \<times> bool" where
  "ap_view a = (ap_id a, ap_active a)"

lemma ap_view_ids: "map ap_view as = map ap_view bs \<Longrightarrow> map ap_id as = map ap_id bs"
proof -
  have "map ap_id xs = map fst (map ap_view xs)" for xs by (simp add: ap_view_def)
  then show "map ap_view as = map ap_view bs \<Longrightarrow> ?thesis" by metis
qed

lemma operation_ok_ids: "map ap_id as = map ap_id bs \<Longrightarrow> operation_ok as r = operation_ok bs r"
  unfolding operation_ok_def by (metis set_map)

lemma tombstone_ok_view: "map ap_view as = map ap_view bs \<Longrightarrow> tombstone_ok as e = tombstone_ok bs e"
proof -
  have "tombstone_ok xs e \<longleftrightarrow> te_tombstone e \<noteq> None \<and> (te_approval e, False) \<in> set (map ap_view xs)" for xs
    by (force simp: tombstone_ok_def list_ex_iff ap_view_def image_iff)
  then show "map ap_view as = map ap_view bs \<Longrightarrow> ?thesis" by metis
qed

lemma approvals_recount:
  assumes ok: "list_all (approval_ok P ops) aps"
    and others: "\<And>y. y \<noteq> x \<Longrightarrow> used_operations ops' y = used_operations ops y \<and> used_signatures ops' y = used_signatures ops y"
    and here: "unat n = used_operations ops' x" "unat m = used_signatures ops' x"
    and within: "\<And>a t. a \<in> set aps \<Longrightarrow> ap_id a = x \<Longrightarrow> ap_terms a = Some t
        \<Longrightarrow> n \<le> max_operations (at_limits t) \<and> m \<le> max_signatures (at_limits t)"
  shows "list_all (approval_ok P ops')
    (update_rows (\<lambda>a. ap_id a = x) (\<lambda>a. a\<lparr>ap_operations := Some n, ap_signatures := Some m\<rparr>) aps)"
  unfolding list_all_iff
proof
  fix b assume "b \<in> set (update_rows (\<lambda>a. ap_id a = x)
      (\<lambda>a. a\<lparr>ap_operations := Some n, ap_signatures := Some m\<rparr>) aps)"
  then obtain a where a: "a \<in> set aps"
    "b = (if ap_id a = x then a\<lparr>ap_operations := Some n, ap_signatures := Some m\<rparr> else a)"
    by (auto simp: update_rows_def)
  have "approval_ok P ops a" using ok a(1) by (simp add: list_all_iff)
  with a others here within show "approval_ok P ops' b"
    by (auto simp: approval_ok_def split: option.splits)
qed

lemma set_counters_view: "map ap_view (en_approvals (set_counters x n m st)) = map ap_view (en_approvals st)"
  by (simp add: set_counters_def map_update_rows ap_view_def)

lemma set_counters_tables [simp]:
  "en_operations (set_counters x n m st) = en_operations st"
  "en_anchors (set_counters x n m st) = en_anchors st"
  "en_attempts (set_counters x n m st) = en_attempts st"
  "en_wallets (set_counters x n m st) = en_wallets st"
  "en_tombstones (set_counters x n m st) = en_tombstones st"
  "en_revocations (set_counters x n m st) = en_revocations st"
  "en_audit (set_counters x n m st) = en_audit st"
  "en_broker_key_id (set_counters x n m st) = en_broker_key_id st"
  "en_broker_key (set_counters x n m st) = en_broker_key st"
  by (simp_all add: set_counters_def)

lemma find_approval_SomeD:
  "find_approval st x = Some a \<Longrightarrow> a \<in> set (en_approvals st) \<and> ap_id a = x"
  by (auto simp: find_approval_def find_Some_iff)

lemma find_operation_SomeD:
  "find_operation st i = Some r \<Longrightarrow> r \<in> set (en_operations st) \<and> op_id r = i"
  by (auto simp: find_operation_def find_Some_iff)

lemma inv_approvalD: "core_inv P st \<Longrightarrow> a \<in> set (en_approvals st) \<Longrightarrow> approval_ok P (en_operations st) a"
  by (simp add: core_inv_def list_all_iff)

lemma inv_operationD: "core_inv P st \<Longrightarrow> r \<in> set (en_operations st) \<Longrightarrow> operation_ok (en_approvals st) r"
  by (simp add: core_inv_def list_all_iff)

lemma find_unique: "distinct (map key rows) \<Longrightarrow> r \<in> set rows \<Longrightarrow> find (\<lambda>q. key q = key r) rows = Some r"
  by (induction rows) auto

lemma unique_approval:
  assumes "core_inv P st" "a \<in> set (en_approvals st)"
  shows "find_approval st (ap_id a) = Some a"
  using assms find_unique [of ap_id "en_approvals st" a] by (simp add: core_inv_def find_approval_def)

lemma unique_operation:
  assumes "core_inv P st" "r \<in> set (en_operations st)"
  shows "find_operation st (op_id r) = Some r"
  using assms find_unique [of op_id "en_operations st" r] by (simp add: core_inv_def find_operation_def)

subsection \<open>Operations on operations\<close>

text \<open>A row rewritten in place that stays charged to its approval.\<close>

definition row_rewrites :: "operation_row \<Rightarrow> operation_row \<Rightarrow> bool" where
  "row_rewrites r q =
     (op_id q = op_id r \<and> op_approval q = op_approval r \<and> op_signature_count q = op_signature_count r)"

lemma core_inv_split_operations:
  assumes inv: "core_inv P st" and ops: "en_operations st = xs @ row # ys"
    and rw: "row_rewrites row row'" and ok: "operation_ok (en_approvals st) row'"
    and aps: "map ap_view as = map ap_view (en_approvals st)"
    and cnt: "list_all (approval_ok P (xs @ row' # ys)) as"
  shows "core_inv P (st\<lparr>en_operations := xs @ row' # ys, en_approvals := as\<rparr>)"
proof -
  note ids = ap_view_ids [OF aps]
  have "op_id ` set (xs @ row' # ys) = op_id ` set (xs @ row # ys)" "map op_id (xs @ row' # ys) = map op_id (xs @ row # ys)"
    using rw by (auto simp: row_rewrites_def)
  then show ?thesis
    using inv ok cnt ops ids operation_ok_ids [OF ids] tombstone_ok_view [OF aps]
    by (auto simp: core_inv_def list_all_iff)
qed

lemma core_inv_same_charge:
  assumes inv: "core_inv P st" and ops: "en_operations st = xs @ row # ys"
    and rw: "row_rewrites row row'" and live: "op_state row \<noteq> Released" "op_state row' \<noteq> Released"
    and ok: "operation_ok (en_approvals st) row'"
  shows "core_inv P (st\<lparr>en_operations := xs @ row' # ys\<rparr>)"
proof -
  have "counted a row' = counted a row" for a using rw live by (simp add: counted_def row_rewrites_def)
  then have "used_operations (xs @ row' # ys) = used_operations (en_operations st)"
    "used_signatures (xs @ row' # ys) = used_signatures (en_operations st)"
    using rw by (auto simp: ops row_rewrites_def)
  then have "approval_ok P (xs @ row' # ys) = approval_ok P (en_operations st)"
    by (intro ext) (simp only: approval_ok_def)
  then have "list_all (approval_ok P (xs @ row' # ys)) (en_approvals st)"
    using inv by (simp add: core_inv_def)
  from core_inv_split_operations [OF inv ops rw ok refl this] show ?thesis by simp
qed

lemma core_inv_refund:
  assumes inv: "core_inv P st" and ops: "en_operations st = xs @ row # ys"
    and row: "op_state row \<noteq> Released" "op_state row \<noteq> Committed"
    and refund: "refund_counters row st = Inr st1"
  shows "core_inv P (st1\<lparr>en_operations := xs @ row\<lparr>op_state := Released\<rparr> # ys\<rparr>)"
proof -
  let ?ops' = "xs @ row\<lparr>op_state := Released\<rparr> # ys"
  from refund obtain a n m c n' m' where a: "find_approval st (op_approval row) = Some a"
    "ap_operations a = Some n" "ap_signatures a = Some m" "op_signature_count row = Some c"
    "checked_sub n 1 = Some n'" "checked_sub m c = Some m'" "st1 = set_counters (op_approval row) n' m' st"
    by (auto simp: refund_counters_def result_simps)
  note fa = find_approval_SomeD [OF a(1)]
  have "approval_ok P (en_operations st) a" using inv_approvalD [OF inv] fa by blast
  then obtain t where t: "ap_terms a = Some t" "n \<le> max_operations (at_limits t)" "m \<le> max_signatures (at_limits t)"
    "unat n = used_operations (en_operations st) (op_approval row)"
    "unat m = used_signatures (en_operations st) (op_approval row)"
    using a fa by (auto simp: approval_ok_def split: option.splits)
  have sub: "unat n' = unat n - 1" "n' \<le> n" "unat m' = unat m - unat c" "m' \<le> m"
    using checked_sub_SomeD [OF a(5)] checked_sub_SomeD [OF a(6)] by (auto simp: word_le_nat_alt)
  have cr: "counted (op_approval row) row" "\<not> counted y (row\<lparr>op_state := Released\<rparr>)" for y
    using row by (auto simp: counted_def)
  have "list_all (approval_ok P ?ops') (update_rows (\<lambda>b. ap_id b = op_approval row)
      (\<lambda>b. b\<lparr>ap_operations := Some n', ap_signatures := Some m'\<rparr>) (en_approvals st))"
  proof (rule approvals_recount)
    show "list_all (approval_ok P (en_operations st)) (en_approvals st)" using inv by (simp add: core_inv_def)
    show "used_operations ?ops' y = used_operations (en_operations st) y
        \<and> used_signatures ?ops' y = used_signatures (en_operations st) y" if "y \<noteq> op_approval row" for y
      using that cr by (simp add: ops counted_def)
    show "unat n' = used_operations ?ops' (op_approval row)" "unat m' = used_signatures ?ops' (op_approval row)"
      using sub t cr a(4) by (simp_all add: ops)
    fix b u assume b: "b \<in> set (en_approvals st)" "ap_id b = op_approval row" "ap_terms b = Some u"
    with unique_approval [OF inv b(1)] a(1) have "b = a" by simp
    with b t sub show "n' \<le> max_operations (at_limits u) \<and> m' \<le> max_signatures (at_limits u)"
      by (auto intro: order_trans)
  qed
  moreover have "operation_ok (en_approvals st) (row\<lparr>op_state := Released\<rparr>)"
    using inv_operationD [OF inv, of row] row by (auto simp: ops operation_ok_def)
  ultimately have "core_inv P (st\<lparr>en_operations := ?ops', en_approvals := en_approvals st1\<rparr>)"
    using set_counters_view [of "op_approval row" n' m' st]
    by (intro core_inv_split_operations [OF inv ops]) (auto simp: row_rewrites_def a(7) set_counters_def)
  then show ?thesis by (simp add: core_inv_def a(7) set_counters_def)
qed

subsection \<open>The audit journal of the engine\<close>

definition keys_good :: "prims \<Rightarrow> engine \<Rightarrow> bool" where
  "keys_good P st =
     (let k = aud_keys (en_audit st) in
      signs_well P (ak_signing_key k) \<and> ak_trusted k (ak_current_id k) = Some (p_public P (ak_signing_key k)))"

definition journal_room :: "engine \<Rightarrow> bool" where
  "journal_room st = (length (ad_entries (aud_db (en_audit st))) < 2 ^ 63)"

lemma append_audit_InrD:
  assumes "append_audit P event payload st = Inr st'"
  shows "\<exists>e. st' = st\<lparr>en_audit := (en_audit st)\<lparr>aud_db := (aud_db (en_audit st))\<lparr>ad_entries :=
             ad_entries (aud_db (en_audit st)) @ [e]\<rparr>\<rparr>\<rparr> \<and> ae_event e = event \<and> ae_payload e = p_jcs P payload"
    and "keys_good P st \<Longrightarrow> journal_verified P (en_audit st')"
proof -
  let ?a = "en_audit st" and ?k = "aud_keys (en_audit st)"
  from assms obtain db where db: "append_audit_entry P event payload (ak_current_id ?k) (ak_signing_key ?k)
      (ak_current_id ?k) (ak_trusted ?k) (aud_db ?a) = Inr db" "st' = st\<lparr>en_audit := ?a\<lparr>aud_db := db\<rparr>\<rparr>"
    by (auto simp: append_audit_def Let_def split: sum.splits)
  note d = append_audit_entry_InrD [OF db(1)]
  show "\<exists>e. st' = st\<lparr>en_audit := (en_audit st)\<lparr>aud_db := (aud_db (en_audit st))\<lparr>ad_entries :=
             ad_entries (aud_db (en_audit st)) @ [e]\<rparr>\<rparr>\<rparr> \<and> ae_event e = event \<and> ae_payload e = p_jcs P payload"
    unfolding db(2) d(3) by (intro exI conjI, rule refl) (simp_all add: next_entry_def Let_def)
  show "journal_verified P (en_audit st')" if "keys_good P st"
    using append_verified [OF d(1,2)] that by (simp add: keys_good_def Let_def journal_verified_def db(2) d(3))
qed

lemma append_audit_core:
  assumes "append_audit P event payload st = Inr st'"
  shows "core_inv P st' = core_inv P st" "core_grows st st'"
  using append_audit_InrD(1) [OF assms] by (auto simp: core_grows_def)

lemma append_audit_ok:
  assumes "keys_good P st" "journal_verified P (en_audit st)" "journal_room st"
  shows "\<exists>st'. append_audit P event payload st = Inr st'"
proof -
  have "verify_audit_chain P (ak_current_id (aud_keys (en_audit st))) (ak_trusted (aud_keys (en_audit st)))
      (aud_db (en_audit st)) = Inr ()"
    using assms(2) by (simp add: journal_verified_def is_ok_iff)
  from append_audit_entry_eq [OF this] assms(3) show ?thesis
    by (simp add: append_audit_def Let_def journal_room_def)
qed

text \<open>What every transaction gives: the invariant, growth, and a journal that still verifies.\<close>

definition step_ok :: "prims \<Rightarrow> engine \<Rightarrow> engine \<Rightarrow> bool" where
  "step_ok P st st' =
     (core_inv P st' \<and> core_grows st st'
      \<and> (keys_good P st \<and> journal_verified P (en_audit st) \<longrightarrow> journal_verified P (en_audit st')))"

lemma keys_good_grows: "core_grows st st' \<Longrightarrow> keys_good P st' = keys_good P st"
  by (simp add: core_grows_def keys_good_def)

lemma step_ok_refl: "core_inv P st \<Longrightarrow> step_ok P st st"
  by (simp add: step_ok_def)

lemma step_ok_trans: "step_ok P s t \<Longrightarrow> step_ok P t u \<Longrightarrow> step_ok P s u"
  using keys_good_grows [of s t P] by (auto simp: step_ok_def intro: core_grows_trans)

lemma step_ok_audit:
  assumes "step_ok P s t" "append_audit P event payload t = Inr u"
  shows "step_ok P s u"
  using assms append_audit_core [OF assms(2)] append_audit_InrD(2) [OF assms(2)] keys_good_grows [of s t P]
  by (auto simp: step_ok_def intro: core_grows_trans)

lemma step_ok_inv: "step_ok P s t \<Longrightarrow> core_inv P t"
  by (simp add: step_ok_def)

lemma with_latch_simps [simp]: "with_latch b (Inr x) = Inr x" "with_latch b (Inl e) = Inl (b, e)"
  by (simp_all add: with_latch_def)

lemma with_latch_Inr [simp]: "with_latch b r = Inr x \<longleftrightarrow> r = Inr x"
  by (auto simp: with_latch_def split: sum.splits)

subsection \<open>Each operation keeps the invariant\<close>

lemma insert_attempt_ok:
  assumes inv: "core_inv P st" and ok: "insert_attempt row st = Inr st'"
    and op: "at_operation row \<in> op_id ` set (en_operations st)"
  shows "step_ok P st st'"
proof -
  from ok have st': "st' = st\<lparr>en_attempts := en_attempts st @ [row]\<rparr>" "at_id row \<notin> at_id ` set (en_attempts st)"
    by (auto simp: insert_attempt_def list_ex_iff split: if_splits)
  with inv op show ?thesis by (auto simp: step_ok_def core_inv_def core_grows_def)
qed

lemma reserve_operation_ok:
  assumes inv: "core_inv P st" and ok: "reserve_operation P r t clock st = Inr st'"
    and row: "find_approval st (sr_approval_id (req_unsigned r)) = Some a" "ap_terms a = Some t"
  shows "step_ok P st st' \<and> sr_operation_id (req_unsigned r) \<in> op_id ` set (en_operations st')"
proof -
  let ?u = "req_unsigned r" and ?x = "sr_approval_id (req_unsigned r)"
  let ?op = "\<lparr>op_id = sr_operation_id ?u, op_digest = sr_operation_digest ?u,
              op_retry_binding = retry_binding_digest P ?u, op_approval = ?x,
              op_signature_count = Some (sr_signature_count ?u), op_accepted = cd_now clock,
              op_state = Reserved, op_result = None\<rparr>"
  let ?an = "\<lparr>an_operation = sr_operation_id ?u, an_observed = cd_observed clock,
              an_monotonic = cd_monotonic clock, an_boot_epoch = cd_boot_epoch clock\<rparr>"
  let ?ops' = "en_operations st @ [?op]"
  from ok obtain n m where lim: "reserve_parser_free_limits st r t (cd_now clock) = Inr (n, m)"
    and fresh: "\<forall>q\<in>set (en_operations st). op_id q \<noteq> sr_operation_id ?u"
    and st': "st' = set_counters ?x n m (st\<lparr>en_operations := ?ops', en_anchors := en_anchors st @ [?an]\<rparr>)"
    by (auto simp: reserve_operation_def result_simps Let_def insert_operation_def insert_anchor_def
        list_ex_iff split: if_splits)
  from lim row obtain n0 m0 where c: "ap_operations a = Some n0" "ap_signatures a = Some m0"
    "checked_add n0 1 = Some n" "checked_add m0 (sr_signature_count ?u) = Some m"
    "n \<le> max_operations (at_limits t)" "m \<le> max_signatures (at_limits t)"
    by (auto simp: reserve_parser_free_limits_def result_simps Let_def not_less split: if_splits)
  note fa = find_approval_SomeD [OF row(1)]
  have "approval_ok P (en_operations st) a" using inv_approvalD [OF inv] fa by blast
  then have u: "unat n0 = used_operations (en_operations st) ?x" "unat m0 = used_signatures (en_operations st) ?x"
    using c row fa by (auto simp: approval_ok_def)
  have aps: "en_approvals st' = update_rows (\<lambda>a. ap_id a = ?x)
      (\<lambda>a. a\<lparr>ap_operations := Some n, ap_signatures := Some m\<rparr>) (en_approvals st)"
    by (simp add: st' set_counters_def)
  have cnt: "list_all (approval_ok P ?ops') (en_approvals st')"
    unfolding aps
  proof (rule approvals_recount)
    show "list_all (approval_ok P (en_operations st)) (en_approvals st)" using inv by (simp add: core_inv_def)
    show "used_operations ?ops' y = used_operations (en_operations st) y
        \<and> used_signatures ?ops' y = used_signatures (en_operations st) y" if "y \<noteq> ?x" for y
      using that by (simp add: counted_def)
    show "unat n = used_operations ?ops' ?x" "unat m = used_signatures ?ops' ?x"
      using u checked_add_SomeD [OF c(3)] checked_add_SomeD [OF c(4)] by (simp_all add: counted_def)
    fix b v assume b: "b \<in> set (en_approvals st)" "ap_id b = ?x" "ap_terms b = Some v"
    with unique_approval [OF inv b(1)] row c show "n \<le> max_operations (at_limits v) \<and> m \<le> max_signatures (at_limits v)"
      by simp
  qed
  have view: "map ap_view (en_approvals st') = map ap_view (en_approvals st)"
    unfolding st' set_counters_view by simp
  note ids = ap_view_ids [OF view]
  have "?x \<in> ap_id ` set (en_approvals st)" using fa by (metis imageI)
  then have "operation_ok (en_approvals st) ?op" by (simp add: operation_ok_def)
  then have "core_inv P st'"
    using inv cnt fresh ids operation_ok_ids [OF ids] tombstone_ok_view [OF view]
    by (auto simp: core_inv_def list_all_iff st')
  moreover have "core_grows st st'"
    by (auto simp: core_grows_def st' covers_append set_counters_def approval_le_def intro!: covers_update)
  ultimately show ?thesis by (simp add: step_ok_def st')
qed

lemma check_approval_InrD:
  assumes "check_approval P r now st = Inr t"
  shows "\<exists>a. find_approval st (sr_approval_id (req_unsigned r)) = Some a \<and> ap_active a \<and> ap_terms a = Some t
    \<and> require_key_available P st (at_key_ref t) = Inr () \<and> validate_petal_key_approval st t now = Inr ()
    \<and> validate_against_approval r t now = Inr () \<and> wallet_epoch st (at_wallet_id t) = Inr (at_revocation_epoch t)"
    "sr_attempt_id (req_unsigned r) \<notin> at_id ` set (en_attempts st)"
  using assms by (auto simp: check_approval_def result_simps Let_def list_ex_iff split: if_splits)

lemma authorize_sign_tx_InrD:
  assumes "authorize_sign_tx P r clock st = Inr (st', auth)"
  shows "\<exists>t st1 st2. check_approval P r (cd_now clock) st = Inr t
     \<and> (case find_operation st (sr_operation_id (req_unsigned r)) of
          Some row \<Rightarrow> retry_operation P r row = Inr () \<and> st1 = st \<and> auth = SameOperationRetry
        | None \<Rightarrow> reserve_operation P r t clock st = Inr st1 \<and> auth = NewOperation)
     \<and> insert_attempt \<lparr>at_id = sr_attempt_id (req_unsigned r), at_digest = sr_attempt_digest (req_unsigned r),
                  at_operation = sr_operation_id (req_unsigned r)\<rparr> st1 = Inr st2
     \<and> append_audit P ''sign.authorized'' (authorized_json r auth) st2 = Inr st'"
  using assms
  by (auto simp: authorize_sign_tx_def result_simps Let_def split: option.splits)

lemma authorize_sign_tx_ok:
  assumes inv: "core_inv P st" and run: "authorize_sign_tx P r clock st = Inr (st', auth)"
  shows "step_ok P st st'"
proof -
  from authorize_sign_tx_InrD [OF run] obtain t st1 st2 where
    t: "check_approval P r (cd_now clock) st = Inr t"
    and branch: "case find_operation st (sr_operation_id (req_unsigned r)) of
          Some row \<Rightarrow> retry_operation P r row = Inr () \<and> st1 = st \<and> auth = SameOperationRetry
        | None \<Rightarrow> reserve_operation P r t clock st = Inr st1 \<and> auth = NewOperation"
    and att: "insert_attempt \<lparr>at_id = sr_attempt_id (req_unsigned r), at_digest = sr_attempt_digest (req_unsigned r),
                  at_operation = sr_operation_id (req_unsigned r)\<rparr> st1 = Inr st2"
    and aud: "append_audit P ''sign.authorized'' (authorized_json r auth) st2 = Inr st'" by blast
  from check_approval_InrD(1) [OF t] obtain a where
    a: "find_approval st (sr_approval_id (req_unsigned r)) = Some a" "ap_terms a = Some t" by blast
  have s1: "step_ok P st st1 \<and> sr_operation_id (req_unsigned r) \<in> op_id ` set (en_operations st1)"
  proof (cases "find_operation st (sr_operation_id (req_unsigned r))")
    case None
    with branch have "reserve_operation P r t clock st = Inr st1" by simp
    from reserve_operation_ok [OF inv this a] show ?thesis .
  next
    case (Some row)
    then have "sr_operation_id (req_unsigned r) \<in> op_id ` set (en_operations st)"
      using find_operation_SomeD [OF Some] by (metis imageI)
    with Some branch step_ok_refl [OF inv] show ?thesis by simp
  qed
  have "step_ok P st1 st2"
    by (rule insert_attempt_ok [OF step_ok_inv [OF conjunct1 [OF s1]] att]) (use s1 in simp)
  with s1 aud show ?thesis by (blast intro: step_ok_trans step_ok_audit)
qed

text \<open>A step that rewrites the row of one operation.\<close>

lemma rewrite_operation_ok:
  assumes inv: "core_inv P st" and row: "find_operation st i = Some row"
    and rw: "row_rewrites row (f row)" "operation_le row (f row)"
    and live: "op_state row \<noteq> Released" "op_state (f row) \<noteq> Released"
    and ok: "operation_ok (en_approvals st) (f row)"
    and hit: "\<And>r. r \<in> set (en_operations st) \<Longrightarrow> hit r \<longleftrightarrow> op_id r = i"
  shows "step_ok P st (st\<lparr>en_operations := update_rows hit f (en_operations st)\<rparr>)"
proof -
  have d: "distinct (map op_id (en_operations st))" using inv by (simp add: core_inv_def)
  from find_split [OF d row [unfolded find_operation_def]] obtain xs ys where
    ops: "en_operations st = xs @ row # ys" and id: "op_id row = i"
    and others: "\<forall>x\<in>set xs \<union> set ys. op_id x \<noteq> i" by blast
  have upd: "update_rows hit f (en_operations st) = xs @ f row # ys"
    unfolding ops by (rule update_split) (use hit others id ops in auto)
  have "core_inv P (st\<lparr>en_operations := xs @ f row # ys\<rparr>)"
    by (rule core_inv_same_charge [OF inv ops rw(1) live ok])
  moreover have "covers operation_le (en_operations st) (xs @ f row # ys)"
    using rw(2) by (auto simp: covers_def ops)
  ultimately show ?thesis by (simp add: step_ok_def upd core_grows_def)
qed

lemma one_operation_hit:
  assumes inv: "core_inv P st" and one: "length (filter (\<lambda>r. op_id r = i \<and> Q r) (en_operations st)) = 1"
  shows "\<exists>row. find_operation st i = Some row \<and> Q row"
proof -
  from one obtain row where "row \<in> set (filter (\<lambda>r. op_id r = i \<and> Q r) (en_operations st))"
    by (cases "filter (\<lambda>r. op_id r = i \<and> Q r) (en_operations st)") auto
  then have "row \<in> set (en_operations st)" "op_id row = i" "Q row" by auto
  with unique_operation [OF inv] show ?thesis by blast
qed

lemma same_row:
  assumes "core_inv P st" "find_operation st i = Some row" "r \<in> set (en_operations st)" "op_id r = i"
  shows "r = row"
  using unique_operation [OF assms(1,3)] assms(2,4) by simp

lemma commit_operation_result_tx_ok:
  assumes inv: "core_inv P st" and run: "commit_operation_result_tx P i res st = Inr (st', u)"
  shows "step_ok P st st'"
proof -
  let ?Q = "\<lambda>r. op_state r = Reserved \<or> op_state r = Dispatched"
  let ?hit = "\<lambda>r. op_id r = i \<and> ?Q r"
  let ?f = "\<lambda>r. r\<lparr>op_state := Committed, op_result := Some res\<rparr>"
  from run have one: "length (filter ?hit (en_operations st)) = 1"
    and aud: "append_audit P ''sign.result''
       (JObj [(''operation_id'', JStr i), (''normalized_result'', JBytes res)])
       (st\<lparr>en_operations := update_rows ?hit ?f (en_operations st)\<rparr>) = Inr st'"
    by (auto simp: commit_operation_result_tx_def Let_def result_simps split: if_splits)
  from one_operation_hit [OF inv one] obtain row where row: "find_operation st i = Some row" "?Q row" by blast
  have "step_ok P st (st\<lparr>en_operations := update_rows ?hit ?f (en_operations st)\<rparr>)"
  proof (rule rewrite_operation_ok [OF inv row(1)])
    show "operation_ok (en_approvals st) (?f row)"
      using inv_operationD [OF inv] find_operation_SomeD [OF row(1)] by (auto simp: operation_ok_def)
    show "?hit r \<longleftrightarrow> op_id r = i" if "r \<in> set (en_operations st)" for r
      using same_row [OF inv row(1) that] row(2) by auto
  qed (use row(2) in \<open>auto simp: row_rewrites_def operation_le_def state_le_def\<close>)
  with aud show ?thesis by (blast intro: step_ok_audit)
qed

lemma mark_operation_dispatched_tx_ok:
  assumes inv: "core_inv P st" and run: "mark_operation_dispatched_tx P i k ids st = Inr (st', u)"
  shows "step_ok P st st'"
proof -
  let ?hit = "\<lambda>r. op_id r = i \<and> op_state r = Reserved"
  let ?f = "\<lambda>r. r\<lparr>op_state := Dispatched\<rparr>"
  from run obtain pl where one: "length (filter ?hit (en_operations st)) = 1"
    and aud: "append_audit P ''backend.dispatched'' pl
       (st\<lparr>en_operations := update_rows ?hit ?f (en_operations st)\<rparr>) = Inr st'"
    by (auto simp: mark_operation_dispatched_tx_def Let_def result_simps split: if_splits)
  from one_operation_hit [OF inv one] obtain row where row: "find_operation st i = Some row" "op_state row = Reserved"
    by blast
  have "step_ok P st (st\<lparr>en_operations := update_rows ?hit ?f (en_operations st)\<rparr>)"
  proof (rule rewrite_operation_ok [OF inv row(1)])
    show "operation_ok (en_approvals st) (?f row)"
      using inv_operationD [OF inv] find_operation_SomeD [OF row(1)] row(2) by (auto simp: operation_ok_def)
    show "?hit r \<longleftrightarrow> op_id r = i" if "r \<in> set (en_operations st)" for r
      using same_row [OF inv row(1) that] row(2) by auto
  qed (use row(2) in \<open>auto simp: row_rewrites_def operation_le_def state_le_def\<close>)
  with aud show ?thesis by (blast intro: step_ok_audit)
qed

lemma refund_counters_InrD:
  assumes "refund_counters row st = Inr st1"
  shows "\<exists>n m. st1 = set_counters (op_approval row) n m st"
  using assms by (auto simp: refund_counters_def result_simps)

lemma set_counters_covers: "covers approval_le (en_approvals st) (en_approvals (set_counters x n m st))"
  unfolding set_counters_def by (auto simp: approval_le_def intro!: covers_update)

lemma release_ok:
  assumes inv: "core_inv P st" and row: "find_operation st i = Some row"
    and live: "op_state row = Reserved \<or> op_state row = Dispatched"
    and refund: "refund_counters row st = Inr st1"
  shows "step_ok P st (set_operation_state i Released st1)"
proof -
  have d: "distinct (map op_id (en_operations st))" using inv by (simp add: core_inv_def)
  from find_split [OF d row [unfolded find_operation_def]] obtain xs ys where
    ops: "en_operations st = xs @ row # ys" and id: "op_id row = i"
    and others: "\<forall>x\<in>set xs \<union> set ys. op_id x \<noteq> i" by blast
  from refund_counters_InrD [OF refund] obtain n m where st1: "st1 = set_counters (op_approval row) n m st" by blast
  have upd: "update_rows (\<lambda>r. op_id r = i) (\<lambda>r. r\<lparr>op_state := Released\<rparr>) (en_operations st1)
      = xs @ row\<lparr>op_state := Released\<rparr> # ys"
    unfolding st1 set_counters_tables ops by (rule update_split) (use others id in auto)
  have "core_inv P (st1\<lparr>en_operations := xs @ row\<lparr>op_state := Released\<rparr> # ys\<rparr>)"
    by (rule core_inv_refund [OF inv ops _ _ refund]) (use live in auto)
  moreover have "covers operation_le (en_operations st) (xs @ row\<lparr>op_state := Released\<rparr> # ys)"
    using live by (auto simp: covers_def ops operation_le_def state_le_def)
  ultimately show ?thesis
    using set_counters_covers [of st "op_approval row" n m]
    unfolding step_ok_def set_operation_state_def upd by (simp add: core_grows_def st1)
qed

lemma finalize_operation_tx_ok:
  assumes inv: "core_inv P st" and eff: "effect \<noteq> EffectCommitted"
    and run: "finalize_operation_tx P i effect st = Inr (st', u)"
  shows "step_ok P st st'"
proof -
  from run obtain row where row: "find_operation st i = Some row"
    by (auto simp: finalize_operation_tx_def result_simps)
  show ?thesis
  proof (cases "op_state row = effect_state effect")
    case True
    with run row step_ok_refl [OF inv] show ?thesis by (simp add: finalize_operation_tx_def)
  next
    case False
    with run row obtain st1 pl where live: "op_state row = Reserved \<or> op_state row = Dispatched"
      and st1: "(if effect = EffectReleased then refund_counters row st else Inr st) = Inr st1"
      and aud: "append_audit P ''sign.finalized'' pl (set_operation_state i (effect_state effect) st1) = Inr st'"
      by (auto simp: finalize_operation_tx_def result_simps split: if_splits)
    have "step_ok P st (set_operation_state i (effect_state effect) st1)"
    proof (cases "effect = EffectReleased")
      case True
      with st1 release_ok [OF inv row live] show ?thesis by simp
    next
      case False
      with eff have q: "effect_state effect = Quarantined" by (cases effect) auto
      have "step_ok P st (st\<lparr>en_operations := update_rows (\<lambda>r. op_id r = i)
          (\<lambda>r. r\<lparr>op_state := Quarantined\<rparr>) (en_operations st)\<rparr>)"
      proof (rule rewrite_operation_ok [OF inv row])
        show "operation_ok (en_approvals st) (row\<lparr>op_state := Quarantined\<rparr>)"
          using inv_operationD [OF inv] find_operation_SomeD [OF row] live by (auto simp: operation_ok_def)
      qed (use live in \<open>auto simp: row_rewrites_def operation_le_def state_le_def\<close>)
      with False st1 q show ?thesis by (simp add: set_operation_state_def)
    qed
    with aud show ?thesis by (blast intro: step_ok_audit)
  qed
qed

lemma used_none:
  assumes "core_inv P st" "x \<notin> ap_id ` set (en_approvals st)"
  shows "used_operations (en_operations st) x = 0" "used_signatures (en_operations st) x = 0"
proof -
  have "\<not> counted x r" if "r \<in> set (en_operations st)" for r
    using inv_operationD [OF assms(1) that] assms(2) by (auto simp: operation_ok_def counted_def)
  then have "filter (counted x) (en_operations st) = []" by (simp add: filter_empty_conv)
  then show "used_operations (en_operations st) x = 0" "used_signatures (en_operations st) x = 0"
    by (simp_all add: used_operations_def used_signatures_def)
qed

lemma reconcile_epoch_ok:
  assumes inv: "core_inv P st" and ok: "reconcile_epoch t st = Inr st'"
  shows "step_ok P st st' \<and> en_approvals st' = en_approvals st"
proof (cases "find (\<lambda>w. ws_wallet w = at_wallet_id t) (en_wallets st)")
  case None
  then have "at_wallet_id t \<notin> ws_wallet ` set (en_wallets st)" by (auto simp: find_None_iff)
  with None inv ok show ?thesis
    by (auto simp: reconcile_epoch_def step_ok_def core_inv_def core_grows_def covers_append)
next
  case (Some w)
  with inv ok show ?thesis by (auto simp: reconcile_epoch_def step_ok_def split: if_splits)
qed

lemma operation_ok_mono: "ap_id ` set as \<subseteq> ap_id ` set bs \<Longrightarrow> operation_ok as r \<Longrightarrow> operation_ok bs r"
  by (auto simp: operation_ok_def)

lemma insert_approval_ok:
  assumes inv: "core_inv P st" and ok: "insert_approval row st = Inr st'"
    and row: "ap_terms row = Some t" "ap_wallet row = at_wallet_id t" "approval_id_of P t = Inr (ap_id row)"
      "ap_operations row = Some 0" "ap_signatures row = Some 0"
  shows "step_ok P st st'"
proof -
  from ok have st': "st' = st\<lparr>en_approvals := en_approvals st @ [row]\<rparr>"
    and fresh: "ap_id row \<notin> ap_id ` set (en_approvals st)"
    by (auto simp: insert_approval_def list_ex_iff split: if_splits)
  have "approval_ok P (en_operations st) row"
    using row used_none [OF inv fresh] by (simp add: approval_ok_def)
  moreover have "operation_ok (en_approvals st @ [row]) r" if "operation_ok (en_approvals st) r" for r
    by (rule operation_ok_mono [OF _ that]) auto
  moreover have "tombstone_ok (en_approvals st @ [row]) e" if "tombstone_ok (en_approvals st) e" for e
    using that by (simp add: tombstone_ok_def)
  ultimately have "core_inv P st'"
    using inv fresh by (auto simp: core_inv_def list_all_iff st')
  then show ?thesis by (simp add: step_ok_def st' core_grows_def covers_append)
qed

lemma store_receipt_ok: "core_inv P st \<Longrightarrow> store_receipt P c st = Inr st' \<Longrightarrow> step_ok P st st'"
  by (auto simp: store_receipt_def step_ok_def core_inv_def core_grows_def split: if_splits)

lemma persist_approval_tx_ok:
  assumes inv: "core_inv P st" and apid: "approval_id_of P t = Inr approval"
    and run: "persist_approval_tx P t approval receipt st = Inr (st', x)"
  shows "step_ok P st st'"
proof -
  from run obtain st1 st2 st3 pl where
    s1: "reconcile_epoch t st = Inr st1"
    and s2: "insert_approval \<lparr>ap_id = approval, ap_wallet = at_wallet_id t, ap_terms = Some t, ap_active = True,
                 ap_operations = Some 0, ap_signatures = Some 0\<rparr> st1 = Inr st2"
    and s3: "(case receipt of None \<Rightarrow> Inr st2 | Some c \<Rightarrow> store_receipt P c st2) = Inr st3"
    and s4: "append_audit P ''approval.activation'' pl st3 = Inr st'"
    unfolding persist_approval_tx_def by (clarsimp simp: result_simps split: if_splits)
  have k1: "step_ok P st st1" using reconcile_epoch_ok [OF inv s1] by simp
  have k2: "step_ok P st1 st2" by (rule insert_approval_ok [OF step_ok_inv [OF k1] s2, of t]) (simp_all add: apid)
  have k3: "step_ok P st2 st3"
    using s3 store_receipt_ok [OF step_ok_inv [OF k2]] step_ok_refl [OF step_ok_inv [OF k2]]
    by (auto split: option.splits)
  show ?thesis using k1 k2 k3 s4 by (blast intro: step_ok_trans step_ok_audit)
qed

lemma deactivate_ok:
  assumes inv: "core_inv P st"
  shows "step_ok P st (deactivate hit st)"
proof -
  let ?as = "update_rows hit (\<lambda>a. a\<lparr>ap_active := False\<rparr>) (en_approvals st)"
  have ids: "map ap_id ?as = map ap_id (en_approvals st)" by (rule map_update_rows) simp
  have "approval_ok P ops (a\<lparr>ap_active := False\<rparr>) = approval_ok P ops a" for ops a
    by (simp add: approval_ok_def split: option.split)
  then have "list_all (approval_ok P (en_operations st)) ?as"
    using inv by (auto simp: core_inv_def list_all_iff update_rows_def)
  moreover have "tombstone_ok ?as e" if "tombstone_ok (en_approvals st) e" for e
  proof -
    from that obtain a where a: "a \<in> set (en_approvals st)" "ap_id a = te_approval e" "\<not> ap_active a"
      by (auto simp: tombstone_ok_def list_ex_iff)
    let ?b = "if hit a then a\<lparr>ap_active := False\<rparr> else a"
    have "?b \<in> set ?as" "ap_id ?b = te_approval e" "\<not> ap_active ?b"
      using a by (auto simp: update_rows_def)
    with that show ?thesis unfolding tombstone_ok_def list_ex_iff by blast
  qed
  ultimately have "core_inv P (deactivate hit st)"
    using inv ids operation_ok_ids [OF ids] by (auto simp: core_inv_def list_all_iff deactivate_def)
  moreover have "covers approval_le (en_approvals st) ?as"
    by (rule covers_update) (simp_all add: approval_le_def)
  ultimately show ?thesis by (simp add: step_ok_def core_grows_def deactivate_def)
qed

lemma store_revocation_operation_ok:
  "core_inv P st \<Longrightarrow> store_revocation_operation i w d res st = Inr st' \<Longrightarrow> step_ok P st st'"
  by (auto simp: store_revocation_operation_def step_ok_def core_inv_def core_grows_def split: if_splits)

lemma add_tombstone_ok:
  assumes inv: "core_inv P st" and ok: "tombstone_ok (en_approvals st) e"
  shows "step_ok P st (insert_or_ignore_approval_tombstone e st)"
  using assms by (auto simp: insert_or_ignore_approval_tombstone_def step_ok_def core_inv_def core_grows_def)

lemma revoke_approval_tx_ok:
  assumes inv: "core_inv P st" and run: "revoke_approval_tx P x reason i at st = Inr (st', t)"
  shows "step_ok P st st'"
proof -
  let ?d = "revocation_request_digest P (revocation_request_json x reason i at)"
  from run obtain stored where
    stored: "load_revocation_operation as_approval_result st i ?d = Inr stored"
    by (auto simp: revoke_approval_tx_def Let_def result_simps)
  show ?thesis
  proof (cases stored)
    case (Some a)
    with run stored step_ok_refl [OF inv] show ?thesis by (simp add: revoke_approval_tx_def Let_def)
  next
    case None
    with run stored obtain row where row: "find_approval st x = Some row"
      by (auto simp: revoke_approval_tx_def Let_def result_simps)
    show ?thesis
    proof (cases "find (\<lambda>q. te_approval q = x) (en_tombstones st)")
      case (Some e)
      with run stored None row obtain res st1 pl where
        "store_revocation_operation i (ap_wallet row) ?d res st = Inr st1"
        "append_audit P ''approval.revocation_reconciled'' pl st1 = Inr st'"
        by (auto simp: revoke_approval_tx_def Let_def result_simps)
      then show ?thesis using store_revocation_operation_ok [OF inv] step_ok_audit by blast
    next
      case miss: None
      let ?st1 = "deactivate (\<lambda>a. ap_id a = x) st"
      from miss run stored None row obtain tb res st3 pl where
        s3: "store_revocation_operation i (ap_wallet row) ?d res (insert_or_ignore_approval_tombstone
               \<lparr>te_approval = x, te_wallet = ap_wallet row, te_tombstone = Some tb\<rparr> ?st1) = Inr st3"
        and s4: "append_audit P ''approval.revoked'' pl st3 = Inr st'"
        by (auto simp: revoke_approval_tx_def Let_def result_simps)
      let ?e = "\<lparr>te_approval = x, te_wallet = ap_wallet row, te_tombstone = Some tb\<rparr>"
      have k1: "step_ok P st ?st1" by (rule deactivate_ok [OF inv])
      have "row\<lparr>ap_active := False\<rparr> \<in> set (en_approvals ?st1)"
        using find_approval_SomeD [OF row] by (force simp: deactivate_def update_rows_def image_iff)
      then have "tombstone_ok (en_approvals ?st1) ?e"
        using find_approval_SomeD [OF row] unfolding tombstone_ok_def list_ex_iff
        by (intro conjI bexI [of _ "row\<lparr>ap_active := False\<rparr>"]) simp_all
      from add_tombstone_ok [OF step_ok_inv [OF k1] this] store_revocation_operation_ok [OF _ s3] k1 s4
      show ?thesis by (blast intro: step_ok_trans step_ok_audit step_ok_inv)
    qed
  qed
qed

lemma set_wallet_epoch_ok:
  assumes inv: "core_inv P st" and cur: "wallet_epoch st w = Inr e" and up: "e \<le> e'"
  shows "step_ok P st (set_wallet_epoch w e' st)"
proof (cases "list_ex (\<lambda>v. ws_wallet v = w) (en_wallets st)")
  case True
  let ?ws = "update_rows (\<lambda>v. ws_wallet v = w) (\<lambda>v. v\<lparr>ws_epoch := Some e'\<rparr>) (en_wallets st)"
  have d: "distinct (map ws_wallet (en_wallets st))" using inv by (simp add: core_inv_def)
  have "covers wallet_le (en_wallets st) ?ws"
  proof (rule covers_update)
    fix v assume v: "v \<in> set (en_wallets st)" "ws_wallet v = w"
    with find_unique [OF d v(1)] cur have "ws_epoch v = Some e" by (simp add: wallet_epoch_def result_simps)
    with up show "wallet_le v (v\<lparr>ws_epoch := Some e'\<rparr>)" by (simp add: wallet_le_def)
  qed simp
  moreover have "map ws_wallet ?ws = map ws_wallet (en_wallets st)" by (rule map_update_rows) simp
  moreover have "list_all (\<lambda>v. ws_epoch v \<noteq> None) ?ws"
    using inv by (auto simp: core_inv_def list_all_iff update_rows_def)
  ultimately show ?thesis
    using True inv by (simp add: set_wallet_epoch_def step_ok_def core_inv_def core_grows_def)
next
  case False
  then have "w \<notin> ws_wallet ` set (en_wallets st)" by (auto simp: list_ex_iff)
  with False inv show ?thesis
    by (auto simp: set_wallet_epoch_def step_ok_def core_inv_def core_grows_def covers_append)
qed

lemma put_wallet_tombstone_ok: "core_inv P st \<Longrightarrow> step_ok P st (put_wallet_tombstone w t st)"
  by (auto simp: put_wallet_tombstone_def step_ok_def core_inv_def core_grows_def)

lemma revoke_all_tx_ok:
  assumes inv: "core_inv P st" and run: "revoke_all_tx P w i at st = Inr (st', s)"
  shows "step_ok P st st'"
proof -
  let ?d = "revocation_request_digest P (revoke_all_request_json w i at)"
  from run obtain stored where
    stored: "load_revocation_operation as_wallet_result st i ?d = Inr stored"
    by (auto simp: revoke_all_tx_def Let_def result_simps)
  show ?thesis
  proof (cases stored)
    case (Some a)
    with run stored step_ok_refl [OF inv] show ?thesis by (simp add: revoke_all_tx_def Let_def)
  next
    case None
    with run stored obtain e e' tb res st4 pl where cur: "wallet_epoch st w = Inr e" "checked_add e 1 = Some e'"
      and s4: "store_revocation_operation i w ?d res (deactivate (\<lambda>a. ap_wallet a = w)
            (put_wallet_tombstone w tb (set_wallet_epoch w e' st))) = Inr st4"
      and s5: "append_audit P ''wallet.revoked'' pl st4 = Inr st'"
      by (auto simp: revoke_all_tx_def Let_def result_simps)
    have "e \<le> e'" using checked_add_SomeD [OF cur(2)] by (simp add: word_le_nat_alt)
    then have "step_ok P st (set_wallet_epoch w e' st)" by (rule set_wallet_epoch_ok [OF inv cur(1)])
    then have "step_ok P st (deactivate (\<lambda>a. ap_wallet a = w)
        (put_wallet_tombstone w tb (set_wallet_epoch w e' st)))"
      using put_wallet_tombstone_ok deactivate_ok step_ok_trans step_ok_inv by meson
    with store_revocation_operation_ok [OF _ s4] s5 show ?thesis
      by (blast intro: step_ok_trans step_ok_audit step_ok_inv)
  qed
qed

lemma write_clock_state_ok: "core_inv P st \<Longrightarrow> step_ok P st (write_clock_state now c reading epoch st)"
  by (auto simp: write_clock_state_def step_ok_def core_inv_def core_grows_def)

lemma observe_time_tx_ok:
  assumes "core_inv P st" "observe_time_tx P eval reading epoch max_step limited st = Inr (st', x)"
  shows "step_ok P st st'"
proof -
  from assms(2) obtain ev pl now c where "append_audit P ev pl (write_clock_state now c reading epoch st) = Inr st'"
    by (auto simp: observe_time_tx_def Let_def result_simps)
  with write_clock_state_ok [OF assms(1)] show ?thesis by (blast intro: step_ok_audit)
qed

lemma repair_clock_tx_ok:
  assumes "core_inv P st" "repair_clock_tx P accepted st = Inr (st', x)"
  shows "step_ok P st st'"
proof -
  from assms(2) obtain ev pl now c reading epoch where
    "append_audit P ev pl (write_clock_state now c reading epoch st) = Inr st'"
    by (auto simp: repair_clock_tx_def Let_def result_simps split: if_splits)
  with write_clock_state_ok [OF assms(1)] show ?thesis by (blast intro: step_ok_audit)
qed

lemma flatten_result_fst: "flatten_result r = (st', res) \<Longrightarrow> \<exists>q. r = (st', q)"
  by (auto simp: flatten_result_def split: prod.splits sum.splits)

subsection \<open>Transactions and runs\<close>

definition latched :: "engine \<Rightarrow> engine \<Rightarrow> bool" where
  "latched st st' = (\<exists>cause. st' = st\<lparr>en_audit := latch_audit_degraded_with cause (en_audit st)\<rparr>)"

lemma latchedI [simp]: "latched st (st\<lparr>en_audit := latch_audit_degraded_with cause (en_audit st)\<rparr>)"
  by (auto simp: latched_def)

lemma latched_ok: "core_inv P st \<Longrightarrow> latched st st' \<Longrightarrow> step_ok P st st'"
  by (auto simp: latched_def step_ok_def core_grows_def latch_audit_degraded_with_def journal_verified_def)

lemma transact_cases:
  obtains (refused) e where "transact P body st = (st, Inl e)"
  | (latched) e st' where "transact P body st = (st', Inl e)" "latched st st'"
  | (returned) st' x where "transact P body st = (st', Inr x)" "\<not> aud_degraded (en_audit st)"
      "journal_verified P (en_audit st)" "body st = Inr (st', x)"
proof -
  consider (degraded) "aud_degraded (en_audit st)"
    | (broken) "\<not> aud_degraded (en_audit st)" "\<not> journal_verified P (en_audit st)"
    | (ready) "\<not> aud_degraded (en_audit st)" "journal_verified P (en_audit st)" by blast
  then show thesis
  proof cases
    case degraded
    then show thesis using that(1) by (simp add: transact_def mutation_transaction_def)
  next
    case broken
    then show thesis using that(2) by (simp add: transact_def mutation_transaction_def)
  next
    case ready
    then have t: "transact P body st = (case body st of
             Inl (latch, e) \<Rightarrow>
               (if latch then st\<lparr>en_audit := latch_audit_degraded_with ''audit_append_failed'' (en_audit st)\<rparr>
                else st, Inl e)
           | Inr (st2, x) \<Rightarrow> (st2, Inr x))"
      by (simp add: transact_def mutation_transaction_def)
    show thesis
    proof (cases "body st")
      case (Inl le)
      then show thesis using t that(1,2) by (cases le; cases "fst le") auto
    next
      case (Inr sx)
      then show thesis using t that(3) ready by (cases sx) simp
    qed
  qed
qed

lemma transact_InrD:
  assumes "transact P body st = (st', Inr x)"
  shows "\<not> aud_degraded (en_audit st)" "journal_verified P (en_audit st)" "body st = Inr (st', x)"
  using assms by (cases rule: transact_cases [of P body st]; simp)+

lemma transact_InlD: "transact P body st = (st', Inl e) \<Longrightarrow> st' = st \<or> latched st st'"
  by (cases rule: transact_cases [of P body st]) simp_all

lemma transact_ok:
  assumes inv: "core_inv P st" and run: "transact P body st = (st', res)"
    and body: "\<And>s x. body st = Inr (s, x) \<Longrightarrow> step_ok P st s"
  shows "step_ok P st st'"
  using run
proof (cases rule: transact_cases [of P body st])
  case (refused e)
  with run step_ok_refl [OF inv] show ?thesis by simp
next
  case (latched e s)
  with run latched_ok [OF inv] show ?thesis by simp
next
  case (returned s x)
  with run body show ?thesis by simp
qed

text \<open>A change of what the modelled operations only read, and of nothing else.\<close>

definition environment_change :: "engine \<Rightarrow> engine \<Rightarrow> bool" where
  "environment_change st st' =
     (\<exists>backends enrolled scopes generations surfaces registry.
        st' = st\<lparr>en_backends := backends, en_enrolled := enrolled, en_petal_scopes := scopes,
                 en_generations := generations, en_surfaces := surfaces, en_registry := registry\<rparr>)"

inductive engine_step :: "prims \<Rightarrow> engine \<Rightarrow> engine \<Rightarrow> bool" for P where
  Authorize: "authorize_sign P r clock st = (st', res) \<Longrightarrow> engine_step P st st'"
| Dispatch: "mark_operation_dispatched P i k ids st = (st', res) \<Longrightarrow> engine_step P st st'"
| Commit: "commit_operation_result P i bs st = (st', res) \<Longrightarrow> engine_step P st st'"
| Finalize: "finalize_operation P i effect st = (st', res) \<Longrightarrow> engine_step P st st'"
| Persist: "persist_approval P t receipt st = (st', res) \<Longrightarrow> engine_step P st st'"
| Activate: "activate_approval_from_ceremony P t c st = (st', res) \<Longrightarrow> engine_step P st st'"
| Revoke: "revoke_approval P x reason i at st = (st', res) \<Longrightarrow> engine_step P st st'"
| RevokeAll: "revoke_all P w i at st = (st', res) \<Longrightarrow> engine_step P st st'"
| Observe: "observe_time P eval reading boot_epoch max_step limited st = (st', res) \<Longrightarrow> engine_step P st st'"
| Repair: "repair_clock P accepted st = (st', res) \<Longrightarrow> engine_step P st st'"
| Environment: "environment_change st st' \<Longrightarrow> engine_step P st st'"

lemma authorize_sign_cases:
  assumes "authorize_sign P r clock st = (st', res)"
  shows "st' = st \<and> \<not> is_ok res
    \<or> validate_shape P r = Inr () \<and> verify_broker_signature P st r = Inr ()
      \<and> sr_not_before_ms (req_unsigned r) \<le> cd_now clock \<and> cd_now clock < sr_expires_at_ms (req_unsigned r)
      \<and> transact P (authorize_sign_tx P r clock) st = (st', res)"
  using assms by (auto simp: authorize_sign_def Let_def not_less not_le split: sum.splits if_splits)

lemma persist_approval_ok:
  assumes inv: "core_inv P st" and run: "persist_approval P t receipt st = (st', res)"
  shows "step_ok P st st'"
proof -
  from run consider "st' = st" | x where "approval_id_of P t = Inr x"
      "transact P (persist_approval_tx P t x receipt) st = (st', res)"
    by (auto simp: persist_approval_def split: sum.splits if_splits)
  then show ?thesis
  proof cases
    case 1
    with step_ok_refl [OF inv] show ?thesis by simp
  next
    case 2
    from transact_ok [OF inv 2(2)] persist_approval_tx_ok [OF inv 2(1)] show ?thesis by blast
  qed
qed

lemma engine_step_ok:
  assumes "engine_step P st st'" and inv: "core_inv P st"
  shows "step_ok P st st'"
  using assms(1)
proof cases
  case (Authorize r clock res)
  from authorize_sign_cases [OF Authorize] show ?thesis
    using step_ok_refl [OF inv] transact_ok [OF inv] authorize_sign_tx_ok [OF inv] by blast
next
  case (Dispatch i k ids res)
  then show ?thesis
    using transact_ok [OF inv] mark_operation_dispatched_tx_ok [OF inv]
    unfolding mark_operation_dispatched_def by blast
next
  case (Commit i bs res)
  then show ?thesis
    using step_ok_refl [OF inv] transact_ok [OF inv] commit_operation_result_tx_ok [OF inv]
    unfolding commit_operation_result_def by (fastforce split: if_splits)
next
  case (Finalize i effect res)
  then show ?thesis
    using step_ok_refl [OF inv] transact_ok [OF inv] finalize_operation_tx_ok [OF inv]
    unfolding finalize_operation_def by (fastforce split: if_splits)
next
  case (Persist t receipt res)
  then show ?thesis by (rule persist_approval_ok [OF inv])
next
  case (Activate t c res)
  then show ?thesis
    using step_ok_refl [OF inv] persist_approval_ok [OF inv]
    unfolding activate_approval_from_ceremony_def by (fastforce split: sum.splits if_splits)
next
  case (Revoke x reason i at res)
  then show ?thesis
    using step_ok_refl [OF inv] transact_ok [OF inv] revoke_approval_tx_ok [OF inv]
    unfolding revoke_approval_def by (fastforce split: if_splits)
next
  case (RevokeAll w i at res)
  then show ?thesis
    using transact_ok [OF inv] revoke_all_tx_ok [OF inv] unfolding revoke_all_def by blast
next
  case (Observe eval reading boot_epoch max_step limited res)
  from flatten_result_fst [OF Observe [unfolded observe_time_def]] show ?thesis
    using transact_ok [OF inv] observe_time_tx_ok [OF inv] by blast
next
  case (Repair accepted res)
  then show ?thesis
    using transact_ok [OF inv] repair_clock_tx_ok [OF inv] unfolding repair_clock_def by blast
next
  case Environment
  then show ?thesis
    using inv by (auto simp: environment_change_def step_ok_def core_inv_def core_grows_def)
qed

text \<open>The invariant of a run: the accounting, a journal that verifies, and keys that sign it.\<close>

definition engine_inv :: "prims \<Rightarrow> engine \<Rightarrow> bool" where
  "engine_inv P st = (core_inv P st \<and> keys_good P st \<and> journal_verified P (en_audit st))"

lemma engine_step_inv: "engine_inv P st \<Longrightarrow> engine_step P st st' \<Longrightarrow> engine_inv P st'"
  using engine_step_ok [of P st st'] keys_good_grows [of st st' P] by (auto simp: engine_inv_def step_ok_def)

lemma engine_step_grows: "engine_inv P st \<Longrightarrow> engine_step P st st' \<Longrightarrow> core_grows st st'"
  using engine_step_ok [of P st st'] by (auto simp: engine_inv_def step_ok_def)

interpretation engine_run: transition_system "engine_step P" "engine_inv P" core_grows for P
  by unfold_locales (auto intro: engine_step_inv engine_step_grows core_grows_trans)

end
