(* ===== verification/Registry_Invariant.thy ===== *)
theory Registry_Invariant
  imports Derivation_Registry
begin

text \<open>
  What the operations of the derivation registry keep. \<open>reg_inv\<close> is the well-formedness of the
  four tables together; \<open>reg_grows\<close> relates an earlier state to a later one (nothing is
  forgotten, no state moves backwards, no tombstoned index is handed out). \<open>reg_step\<close> is one
  public operation with any arguments, and the interpretation \<open>registry_run\<close> of
  \<open>transition_system\<close> carries both to every run. The last part has the lemmas on
  single operations that the properties of \<open>Registry_Properties\<close> rest on.
\<close>

subsection \<open>The invariant\<close>

definition same_keys :: "allocation \<Rightarrow> allocation \<Rightarrow> bool" where
  "same_keys a b =
     (al_wallet a = al_wallet b \<and> al_operation a = al_operation b \<and> al_profile a = al_profile b
      \<and> al_role a = al_role b \<and> al_account a = al_account b \<and> al_index a = al_index b
      \<and> al_path a = al_path b \<and> al_key_spec a = al_key_spec b)"

text \<open>Two rows of one wallet may share neither the operation nor, in a profile, the canonical path.\<close>

definition alloc_clash :: "allocation \<Rightarrow> allocation \<Rightarrow> bool" where
  "alloc_clash a b =
     (al_wallet a = al_wallet b
      \<and> (al_operation a = al_operation b \<or> al_profile a = al_profile b \<and> al_path a = al_path b))"

definition has_account :: "alloc_state \<Rightarrow> bool" where
  "has_account st = (st \<in> {ACCOUNT_COMMITTED, ACTIVATED, RETIRED})"

definition key_published :: "prims \<Rightarrow> allocation \<Rightarrow> bool" where
  "key_published P a =
     (case al_spki a of None \<Rightarrow> False
      | Some spki \<Rightarrow>
          (case p_hex_decode P spki of None \<Rightarrow> False
           | Some der \<Rightarrow> al_fingerprint a = Some (p_sha256 P der)))"

definition row_ok :: "prims \<Rightarrow> allocation \<Rightarrow> bool" where
  "row_ok P a =
     (al_account a < 2 ^ 31 \<and> al_index a < 2 ^ 32
      \<and> resolve_canonical_path (al_profile a) (as_u32 (al_account a)) (as_u32 (al_index a))
          = Inr (al_path a)
      \<and> key_spec_for_profile (al_profile a) = Inr (al_key_spec a)
      \<and> (has_account (al_state a) \<longrightarrow> key_published P a))"

definition row_counted :: "namespace list \<Rightarrow> allocation \<Rightarrow> bool" where
  "row_counted nss a =
     list_ex (\<lambda>n. ns_key (al_wallet a) (al_profile a) (al_role a) (al_account a) n
                 \<and> al_index a < ns_next_index n) nss"

definition row_buried :: "tombstone_row list \<Rightarrow> allocation \<Rightarrow> bool" where
  "row_buried ts a =
     (al_state a = TOMBSTONED \<longrightarrow>
      list_ex (ts_key (al_wallet a) (al_profile a) (al_role a) (al_account a) (al_index a)) ts)"

definition ns_id :: "namespace \<Rightarrow> token \<times> string \<times> string \<times> nat" where
  "ns_id n = (ns_wallet n, ns_profile n, ns_role n, ns_account n)"

definition live_in :: "allocation list \<Rightarrow> namespace \<Rightarrow> nat" where
  "live_in as n =
     length (filter (\<lambda>a. al_wallet a = ns_wallet n \<and> al_profile a = ns_profile n
                        \<and> al_role a = ns_role n \<and> al_account a = ns_account n
                        \<and> al_state a \<noteq> TOMBSTONED) as)"

definition ns_ok :: "allocation list \<Rightarrow> namespace \<Rightarrow> bool" where
  "ns_ok as n = (ns_next_index n \<le> 2 ^ 32 \<and> live_in as n \<le> ns_maximum n)"

definition reg_inv :: "prims \<Rightarrow> registry \<Rightarrow> bool" where
  "reg_inv P s =
     (sorted_wrt (\<lambda>a b. \<not> alloc_clash a b) (reg_allocations s)
      \<and> list_all (row_ok P) (reg_allocations s)
      \<and> list_all (row_counted (reg_namespaces s)) (reg_allocations s)
      \<and> list_all (row_buried (reg_tombstones s)) (reg_allocations s)
      \<and> distinct (map ns_id (reg_namespaces s))
      \<and> list_all (ns_ok (reg_allocations s)) (reg_namespaces s)
      \<and> verify_event_chain P s = Inr ())"

lemmas row_defs = row_ok_def row_counted_def row_buried_def key_published_def has_account_def

lemma key_published_state [simp]:
  "key_published P (a\<lparr>al_state := st, al_updated := t\<rparr>) = key_published P a"
  by (simp add: key_published_def split: option.split)

lemma ns_key_iff: "ns_key w p r a n \<longleftrightarrow> ns_id n = (w, p, r, a)"
  by (auto simp: ns_key_def ns_id_def)

lemma alloc_clash_sym: "alloc_clash a b \<longleftrightarrow> alloc_clash b a"
  by (auto simp: alloc_clash_def)

lemma same_keys_refl [simp, intro]: "same_keys a a"
  by (simp add: same_keys_def)

lemma same_keys_trans: "same_keys a b \<Longrightarrow> same_keys b c \<Longrightarrow> same_keys a c"
  by (simp add: same_keys_def)

lemma no_clash_nth:
  assumes "sorted_wrt (\<lambda>a b. \<not> alloc_clash a b) as" "a \<in> set as" "b \<in> set as" "alloc_clash a b"
  shows "a = b"
  using assms by (induction as) (auto simp: alloc_clash_sym)

lemma no_clash_distinct: "sorted_wrt (\<lambda>a b. \<not> alloc_clash a b) as \<Longrightarrow> distinct as"
  by (induction as) (auto simp: alloc_clash_def)

text \<open>The key columns of the allocation found for an operation determine it.\<close>

lemma load_allocation_SomeD:
  "load_allocation s w op = Some a
   \<Longrightarrow> a \<in> set (reg_allocations s) \<and> al_wallet a = w \<and> al_operation a = op"
  by (auto simp: load_allocation_def find_Some_iff alloc_key_def)

lemma inv_rowD:
  "reg_inv P s \<Longrightarrow> a \<in> set (reg_allocations s)
   \<Longrightarrow> row_ok P a \<and> row_counted (reg_namespaces s) a \<and> row_buried (reg_tombstones s) a"
  by (simp add: reg_inv_def list_all_iff)

lemma load_allocation_unique:
  assumes "reg_inv P s" "a \<in> set (reg_allocations s)"
  shows "load_allocation s (al_wallet a) (al_operation a) = Some a"
proof (cases "load_allocation s (al_wallet a) (al_operation a)")
  case None
  with assms show ?thesis
    by (auto simp: load_allocation_def find_None_iff alloc_key_def)
next
  case (Some b)
  from load_allocation_SomeD [OF this] have "b \<in> set (reg_allocations s)" "alloc_clash b a"
    by (auto simp: alloc_clash_def)
  with assms have "b = a" by (auto simp: reg_inv_def dest: no_clash_nth)
  with Some show ?thesis by simp
qed

subsection \<open>Events\<close>

lemma verify_events_append:
  "verify_events P h (es @ [e]) = Inr () \<longleftrightarrow>
     verify_events P h es = Inr ()
     \<and> ev_previous_hash e = (if es = [] then h else ev_entry_hash (last es))
     \<and> ev_entry_hash e = p_sha256 P (event_preimage (ev_wallet e) (ev_operation e) (ev_from e)
                                       (ev_to e) (ev_previous_hash e))"
  by (induction es arbitrary: h) auto

lemma append_event_chain:
  "verify_event_chain P (append_event P w op from to now s) = verify_event_chain P s"
proof -
  let ?t = "append_event P w op from to now s"
  have "verify_event_chain P ?t = Inr () \<longleftrightarrow> verify_event_chain P s = Inr ()"
    by (simp add: append_event_def verify_event_chain_def verify_events_append last_event_hash_def Let_def)
  moreover have "verify_events P h es = Inr () \<or> verify_events P h es = Inl (err MalformedFrame)" for h es
    by (induction es arbitrary: h) auto
  ultimately show ?thesis
    unfolding verify_event_chain_def by (metis Inl_Inr_False)
qed

lemma append_event_tables [simp]:
  "reg_allocations (append_event P w op from to now s) = reg_allocations s"
  "reg_namespaces (append_event P w op from to now s) = reg_namespaces s"
  "reg_tombstones (append_event P w op from to now s) = reg_tombstones s"
  by (simp_all add: append_event_def Let_def)

lemma inv_append_event [simp]: "reg_inv P (append_event P w op from to now s) \<longleftrightarrow> reg_inv P s"
  by (simp add: reg_inv_def append_event_chain)

subsection \<open>Table updates\<close>

lemma list_ex_append_mono: "list_ex p xs \<Longrightarrow> list_ex p (xs @ ys)"
  by simp

lemma inv_add_tombstone:
  assumes "reg_inv P s"
  shows "reg_inv P (insert_or_ignore_tombstone w p r a i reason now s)"
  using assms
  by (auto simp: reg_inv_def insert_or_ignore_tombstone_def row_buried_def list_all_iff
      verify_event_chain_def)

lemma tombstone_tables [simp]:
  "reg_allocations (insert_or_ignore_tombstone w p r a i reason now s) = reg_allocations s"
  "reg_namespaces (insert_or_ignore_tombstone w p r a i reason now s) = reg_namespaces s"
  "reg_events (insert_or_ignore_tombstone w p r a i reason now s) = reg_events s"
  by (simp_all add: insert_or_ignore_tombstone_def)

lemma tombstone_present:
  "list_ex (ts_key w p r a i) (reg_tombstones (insert_or_ignore_tombstone w p r a i reason now s))"
  by (simp add: insert_or_ignore_tombstone_def ts_key_def)

lemma tombstone_subset:
  "set (reg_tombstones s) \<subseteq> set (reg_tombstones (insert_or_ignore_tombstone w p r a i reason now s))"
  by (auto simp: insert_or_ignore_tombstone_def)

definition bury_all ::
  "token \<Rightarrow> string \<Rightarrow> string \<Rightarrow> nat \<Rightarrow> u64 \<Rightarrow> u32 list \<Rightarrow> registry \<Rightarrow> registry" where
  "bury_all w p r a now skipped =
     fold (\<lambda>i. insert_or_ignore_tombstone w p r a (unat i) ReasonInvalidChild now) skipped"

lemma bury_all_Cons:
  "bury_all w p r a now (i # rest) s =
     bury_all w p r a now rest (insert_or_ignore_tombstone w p r a (unat i) ReasonInvalidChild now s)"
  by (simp add: bury_all_def)

lemma bury_all_tables [simp]:
  "reg_allocations (bury_all w p r a now skipped s) = reg_allocations s"
  "reg_namespaces (bury_all w p r a now skipped s) = reg_namespaces s"
  "reg_events (bury_all w p r a now skipped s) = reg_events s"
  by (induction skipped arbitrary: s) (simp_all add: bury_all_def)

lemma inv_bury_all: "reg_inv P s \<Longrightarrow> reg_inv P (bury_all w p r a now skipped s)"
proof (induction skipped arbitrary: s)
  case Nil
  then show ?case by (simp add: bury_all_def)
next
  case (Cons i rest)
  then show ?case by (auto simp: bury_all_Cons intro: inv_add_tombstone)
qed

lemma bury_all_subset: "set (reg_tombstones s) \<subseteq> set (reg_tombstones (bury_all w p r a now skipped s))"
proof (induction skipped arbitrary: s)
  case Nil
  then show ?case by (simp add: bury_all_def)
next
  case (Cons i rest)
  then show ?case unfolding bury_all_Cons by (meson order_trans tombstone_subset)
qed

lemma live_in_children:
  "live_in (reg_allocations s) n = live_children s (ns_wallet n) (ns_profile n) (ns_role n) (ns_account n)"
  by (simp add: live_in_def live_children_def)

lemma ensure_namespace_cases:
  assumes "ensure_namespace w p r a s = Inr s0"
  shows "p \<in> {PROFILE_EVM, PROFILE_SOLANA} \<and>
    ((\<exists>n\<in>set (reg_namespaces s). ns_key w p r (unat a) n) \<and> s0 = s
     \<or> (\<forall>n\<in>set (reg_namespaces s). \<not> ns_key w p r (unat a) n)
       \<and> s0 = s\<lparr>reg_namespaces := reg_namespaces s @
             [\<lparr>ns_wallet = w, ns_profile = p, ns_role = r, ns_account = unat a,
               ns_next_index = 0, ns_maximum = DEFAULT_NAMESPACE_CAP\<rparr>]\<rparr>)"
  using assms by (auto simp: ensure_namespace_def list_ex_iff split: if_splits)

lemma ensure_namespace_tables:
  assumes "ensure_namespace w p r a s = Inr s0"
  shows "reg_allocations s0 = reg_allocations s" "reg_tombstones s0 = reg_tombstones s"
    "reg_events s0 = reg_events s" "set (reg_namespaces s) \<subseteq> set (reg_namespaces s0)"
  using ensure_namespace_cases [OF assms] by auto

lemma ensure_namespace_found:
  assumes "ensure_namespace w p r a s = Inr s0"
  shows "\<exists>ns. find (ns_key w p r (unat a)) (reg_namespaces s0) = Some ns"
proof -
  have "\<exists>n\<in>set (reg_namespaces s0). ns_key w p r (unat a) n"
    using ensure_namespace_cases [OF assms] by (auto simp: ns_key_def)
  then have "find (ns_key w p r (unat a)) (reg_namespaces s0) \<noteq> None" by (auto simp: find_None_iff)
  then show ?thesis by blast
qed

lemma inv_ensure_namespace:
  assumes inv: "reg_inv P s" and ok: "ensure_namespace w p r a s = Inr s0"
  shows "reg_inv P s0"
proof (cases "s0 = s")
  case True
  with inv show ?thesis by simp
next
  case False
  let ?n = "\<lparr>ns_wallet = w, ns_profile = p, ns_role = r, ns_account = unat a,
               ns_next_index = 0, ns_maximum = DEFAULT_NAMESPACE_CAP\<rparr>"
  from False ensure_namespace_cases [OF ok]
  have new: "\<forall>n\<in>set (reg_namespaces s). \<not> ns_key w p r (unat a) n"
    and s0: "s0 = s\<lparr>reg_namespaces := reg_namespaces s @ [?n]\<rparr>" by auto
  have none: "live_in (reg_allocations s) ?n = 0"
    using inv new by (fastforce simp: live_in_def reg_inv_def list_all_iff row_counted_def list_ex_iff
        ns_key_def filter_empty_conv)
  have "ns_ok (reg_allocations s) ?n" by (simp add: ns_ok_def none)
  moreover have "ns_id ?n \<notin> set (map ns_id (reg_namespaces s))"
    using new by (auto simp: ns_key_def ns_id_def)
  moreover have "list_all (row_counted (reg_namespaces s @ [?n])) (reg_allocations s)"
    using inv by (auto simp: reg_inv_def row_counted_def list_all_iff)
  ultimately show ?thesis
    using inv by (simp add: reg_inv_def s0 verify_event_chain_def)
qed

text \<open>A rewrite of namespace rows that keeps their identity and cap and does not lower the counter.\<close>

definition ns_forward :: "namespace \<Rightarrow> namespace \<Rightarrow> bool" where
  "ns_forward n m = (ns_id m = ns_id n \<and> ns_maximum m = ns_maximum n \<and> ns_next_index n \<le> ns_next_index m)"

lemma inv_forward_namespaces:
  assumes inv: "reg_inv P s"
    and fwd: "\<And>n. n \<in> set (reg_namespaces s) \<Longrightarrow> ns_forward n (f n) \<and> ns_next_index (f n) \<le> 2 ^ 32"
  shows "reg_inv P (s\<lparr>reg_namespaces := map f (reg_namespaces s)\<rparr>)"
proof -
  have ids: "map (ns_id \<circ> f) (reg_namespaces s) = map ns_id (reg_namespaces s)"
    using fwd by (auto simp: ns_forward_def)
  have "row_counted (map f (reg_namespaces s)) a" if c: "row_counted (reg_namespaces s) a" for a
  proof -
    from c obtain n where n: "n \<in> set (reg_namespaces s)"
      "ns_id n = (al_wallet a, al_profile a, al_role a, al_account a)" "al_index a < ns_next_index n"
      by (auto simp: row_counted_def list_ex_iff ns_key_iff)
    with fwd [of n] show ?thesis
      by (auto simp: row_counted_def list_ex_iff ns_key_iff ns_forward_def intro!: bexI [of _ n])
  qed
  moreover have "ns_ok (reg_allocations s) (f n)"
    if "n \<in> set (reg_namespaces s)" "ns_ok (reg_allocations s) n" for n
    using fwd [OF that(1)] that(2) by (auto simp: ns_ok_def ns_forward_def live_in_def ns_id_def)
  ultimately show ?thesis
    using inv by (auto simp: reg_inv_def ids list_all_iff verify_event_chain_def)
qed

text \<open>Rows rewritten in place keep their keys, and a tombstoned row stays so.\<close>

definition row_forward :: "prims \<Rightarrow> registry \<Rightarrow> allocation \<Rightarrow> allocation \<Rightarrow> bool" where
  "row_forward P s a b =
     (same_keys a b \<and> row_ok P b \<and> row_buried (reg_tombstones s) b
      \<and> (al_state a = TOMBSTONED \<longrightarrow> al_state b = TOMBSTONED))"

lemma alloc_clash_keys: "same_keys a a' \<Longrightarrow> same_keys b b' \<Longrightarrow> alloc_clash a' b' = alloc_clash a b"
  unfolding alloc_clash_def same_keys_def by metis

lemma sorted_wrt_clash_map:
  assumes "sorted_wrt (\<lambda>a b. \<not> alloc_clash a b) as" "\<And>a. a \<in> set as \<Longrightarrow> same_keys a (f a)"
  shows "sorted_wrt (\<lambda>a b. \<not> alloc_clash a b) (map f as)"
proof -
  have "sorted_wrt (\<lambda>a b. \<not> alloc_clash (f a) (f b)) as"
    by (rule sorted_wrt_mono_rel [OF _ assms(1)]) (use assms(2) alloc_clash_keys in blast)
  then show ?thesis by (simp add: sorted_wrt_map)
qed

lemma live_in_map_le:
  assumes "\<And>a. a \<in> set as \<Longrightarrow> same_keys a (f a) \<and> (al_state a = TOMBSTONED \<longrightarrow> al_state (f a) = TOMBSTONED)"
  shows "live_in (map f as) n \<le> live_in as n"
  using assms
proof (induction as)
  case Nil
  then show ?case by simp
next
  case (Cons a as)
  have "live_in (map f as) n \<le> live_in as n" using Cons by simp
  moreover have "live_in [f a] n \<le> live_in [a] n"
    using Cons.prems [of a] unfolding live_in_def same_keys_def by auto
  ultimately show ?case by (auto simp: live_in_def)
qed

lemma inv_forward_rows:
  assumes inv: "reg_inv P s"
    and fwd: "\<And>a. a \<in> set (reg_allocations s) \<Longrightarrow> row_forward P s a (f a)"
  shows "reg_inv P (s\<lparr>reg_allocations := map f (reg_allocations s)\<rparr>)"
proof -
  have keys: "same_keys a (f a)" if "a \<in> set (reg_allocations s)" for a
    using fwd that by (auto simp: row_forward_def)
  have "sorted_wrt (\<lambda>a b. \<not> alloc_clash a b) (map f (reg_allocations s))"
    using inv keys by (intro sorted_wrt_clash_map) (auto simp: reg_inv_def)
  moreover have "live_in (map f (reg_allocations s)) n \<le> live_in (reg_allocations s) n" for n
    using fwd by (intro live_in_map_le) (auto simp: row_forward_def)
  then have "ns_ok (map f (reg_allocations s)) n" if "ns_ok (reg_allocations s) n" for n
    using that order_trans unfolding ns_ok_def by blast
  moreover have "row_counted (reg_namespaces s) (f a)"
    if "a \<in> set (reg_allocations s)" "row_counted (reg_namespaces s) a" for a
    using keys [OF that(1)] that(2) by (simp add: row_counted_def same_keys_def)
  ultimately show ?thesis
    using inv fwd by (auto simp: reg_inv_def list_all_iff verify_event_chain_def row_forward_def)
qed

lemma inv_update_rows:
  assumes inv: "reg_inv P s"
    and fwd: "\<And>a. a \<in> set (reg_allocations s) \<Longrightarrow> hit a \<Longrightarrow> row_forward P s a (f a)"
  shows "reg_inv P (s\<lparr>reg_allocations := update_rows hit f (reg_allocations s)\<rparr>)"
  unfolding update_rows_def
proof (rule inv_forward_rows [OF inv])
  fix a assume a: "a \<in> set (reg_allocations s)"
  have "row_forward P s a a"
    using inv a by (simp add: row_forward_def reg_inv_def list_all_iff)
  with fwd [OF a] show "row_forward P s a (if hit a then f a else a)" by simp
qed

text \<open>A new row with a fresh key and path, below its namespace's counter and cap.\<close>

lemma inv_add_row:
  assumes inv: "reg_inv P s"
    and fresh: "\<And>a. a \<in> set (reg_allocations s) \<Longrightarrow> \<not> alloc_clash a row"
    and ok: "row_ok P row" "row_counted (reg_namespaces s) row" "row_buried (reg_tombstones s) row"
    and room: "\<And>n. n \<in> set (reg_namespaces s)
        \<Longrightarrow> ns_key (al_wallet row) (al_profile row) (al_role row) (al_account row) n
        \<Longrightarrow> live_in (reg_allocations s) n < ns_maximum n"
  shows "reg_inv P (s\<lparr>reg_allocations := reg_allocations s @ [row]\<rparr>)"
proof -
  have "ns_ok (reg_allocations s @ [row]) n"
    if "n \<in> set (reg_namespaces s)" "ns_ok (reg_allocations s) n" for n
    using room [OF that(1)] that(2) by (auto simp: ns_ok_def live_in_def ns_key_def)
  then show ?thesis
    using inv fresh ok by (auto simp: reg_inv_def list_all_iff sorted_wrt_append verify_event_chain_def)
qed

subsection \<open>Growth\<close>

fun state_rank :: "alloc_state \<Rightarrow> nat" where
  "state_rank PREPARED = 0"
| "state_rank INDEX_COMMITTED = 1"
| "state_rank ACCOUNT_COMMITTED = 2"
| "state_rank ACTIVATED = 3"
| "state_rank RETIRED = 4"
| "state_rank TOMBSTONED = 5"

text \<open>A row keeps its keys, moves forward only, and its public key is fixed once committed.\<close>

definition row_grows :: "allocation \<Rightarrow> allocation \<Rightarrow> bool" where
  "row_grows a b =
     (same_keys a b \<and> state_rank (al_state a) \<le> state_rank (al_state b)
      \<and> (2 \<le> state_rank (al_state a) \<longrightarrow> al_spki b = al_spki a \<and> al_fingerprint b = al_fingerprint a))"

definition row_index_dead :: "registry \<Rightarrow> allocation \<Rightarrow> bool" where
  "row_index_dead s a = tombstoned s (al_wallet a) (al_profile a) (al_role a) (al_account a) (al_index a)"

definition reg_grows :: "registry \<Rightarrow> registry \<Rightarrow> bool" where
  "reg_grows s t =
     ((\<forall>a\<in>set (reg_allocations s). \<exists>b\<in>set (reg_allocations t). row_grows a b)
      \<and> (\<forall>b\<in>set (reg_allocations t).
           (\<exists>a\<in>set (reg_allocations s). same_keys a b) \<or> \<not> row_index_dead s b)
      \<and> set (reg_tombstones s) \<subseteq> set (reg_tombstones t)
      \<and> (\<exists>es. reg_events t = reg_events s @ es)
      \<and> (\<forall>n\<in>set (reg_namespaces s). \<exists>m\<in>set (reg_namespaces t). ns_forward n m))"

lemma row_grows_refl [simp, intro]: "row_grows a a"
  by (simp add: row_grows_def)

lemma row_grows_trans: "row_grows a b \<Longrightarrow> row_grows b c \<Longrightarrow> row_grows a c"
  unfolding row_grows_def by (auto intro: same_keys_trans)

lemma ns_forward_refl [simp, intro]: "ns_forward n n"
  by (simp add: ns_forward_def)

lemma ns_forward_trans: "ns_forward n m \<Longrightarrow> ns_forward m k \<Longrightarrow> ns_forward n k"
  by (simp add: ns_forward_def)

lemma tombstoned_mono:
  "set (reg_tombstones s) \<subseteq> set (reg_tombstones t) \<Longrightarrow> tombstoned s w p r a i \<Longrightarrow> tombstoned t w p r a i"
  by (auto simp: tombstoned_def list_ex_iff)

lemma reg_grows_refl [simp, intro]: "reg_grows s s"
  by (auto simp: reg_grows_def)

lemma row_index_dead_keys: "same_keys a b \<Longrightarrow> row_index_dead s a = row_index_dead s b"
  by (simp add: row_index_dead_def same_keys_def)

lemma reg_grows_trans:
  assumes st: "reg_grows s t" and tu: "reg_grows t u"
  shows "reg_grows s u"
proof -
  have rows: "\<exists>c\<in>set (reg_allocations u). row_grows a c" if a: "a \<in> set (reg_allocations s)" for a
  proof -
    from st a obtain b where "b \<in> set (reg_allocations t)" "row_grows a b" by (auto simp: reg_grows_def)
    moreover from this(1) tu obtain c where "c \<in> set (reg_allocations u)" "row_grows b c"
      by (auto simp: reg_grows_def)
    ultimately show ?thesis by (blast intro: row_grows_trans)
  qed
  have dead: "row_index_dead t c" if "row_index_dead s c" for c
    using st that tombstoned_mono unfolding row_index_dead_def reg_grows_def by blast
  have origin: "(\<exists>a\<in>set (reg_allocations s). same_keys a c) \<or> \<not> row_index_dead s c"
    if c: "c \<in> set (reg_allocations u)" for c
  proof (cases "\<exists>b\<in>set (reg_allocations t). same_keys b c")
    case True
    then obtain b where b: "b \<in> set (reg_allocations t)" "same_keys b c" by blast
    with st have "(\<exists>a\<in>set (reg_allocations s). same_keys a b) \<or> \<not> row_index_dead s b"
      by (auto simp: reg_grows_def)
    with b(2) show ?thesis using same_keys_trans row_index_dead_keys by blast
  next
    case False
    with tu c have "\<not> row_index_dead t c" by (auto simp: reg_grows_def)
    with dead show ?thesis by blast
  qed
  have ns: "\<exists>k\<in>set (reg_namespaces u). ns_forward n k" if n: "n \<in> set (reg_namespaces s)" for n
  proof -
    from st n obtain m where "m \<in> set (reg_namespaces t)" "ns_forward n m" by (auto simp: reg_grows_def)
    moreover from this(1) tu obtain k where "k \<in> set (reg_namespaces u)" "ns_forward m k"
      by (auto simp: reg_grows_def)
    ultimately show ?thesis by (blast intro: ns_forward_trans)
  qed
  have "\<exists>es. reg_events u = reg_events s @ es" "set (reg_tombstones s) \<subseteq> set (reg_tombstones u)"
    using st tu by (auto simp: reg_grows_def)
  with rows origin ns show ?thesis by (simp add: reg_grows_def)
qed

lemma grows_append_event: "reg_grows s t \<Longrightarrow> reg_grows s (append_event P w op from to now t)"
  by (auto simp: reg_grows_def append_event_def Let_def)

lemma grows_add_tombstone: "reg_grows s (insert_or_ignore_tombstone w p r a i reason now s)"
  using tombstone_subset [of s w p r a i reason now]
  by (auto simp: reg_grows_def)

lemma grows_bury_all: "reg_grows s (bury_all w p r a now skipped s)"
  using bury_all_subset [of s w p r a now skipped]
  by (auto simp: reg_grows_def)

lemma grows_ensure_namespace: "ensure_namespace w p r a s = Inr s0 \<Longrightarrow> reg_grows s s0"
  using ensure_namespace_tables [of w p r a s s0]
  by (auto simp: reg_grows_def)

lemma grows_forward_namespaces:
  assumes "\<And>n. n \<in> set (reg_namespaces s) \<Longrightarrow> ns_forward n (f n)"
  shows "reg_grows s (s\<lparr>reg_namespaces := map f (reg_namespaces s)\<rparr>)"
  using assms by (auto simp: reg_grows_def)

lemma grows_map_rows:
  assumes "\<And>a. a \<in> set (reg_allocations s) \<Longrightarrow> row_grows a (g a)"
  shows "reg_grows s (s\<lparr>reg_allocations := map g (reg_allocations s)\<rparr>)"
proof -
  have "same_keys a (g a)" if "a \<in> set (reg_allocations s)" for a
    using assms [OF that] by (simp add: row_grows_def)
  with assms show ?thesis by (auto simp: reg_grows_def)
qed

lemma grows_update_rows:
  assumes "\<And>a. a \<in> set (reg_allocations s) \<Longrightarrow> hit a \<Longrightarrow> row_grows a (f a)"
  shows "reg_grows s (s\<lparr>reg_allocations := update_rows hit f (reg_allocations s)\<rparr>)"
  unfolding update_rows_def by (rule grows_map_rows) (simp add: assms)

lemma grows_add_row:
  assumes "\<not> row_index_dead s row"
  shows "reg_grows s (s\<lparr>reg_allocations := reg_allocations s @ [row]\<rparr>)"
  using assms by (auto simp: reg_grows_def)

subsection \<open>Operations keep the invariant and grow the registry\<close>

lemma update_rows_id: "(\<And>a. a \<in> set rows \<Longrightarrow> hit a \<Longrightarrow> f a = a) \<Longrightarrow> update_rows hit f rows = rows"
  unfolding update_rows_def by (rule map_idI) simp

lemma transition_safe_gen:
  assumes inv: "reg_inv P s" and ok: "transition P w op from to now s = Inr t"
    and fwd: "from \<noteq> TOMBSTONED" "to \<noteq> TOMBSTONED" "state_rank from \<le> state_rank to"
    and key: "has_account to \<longrightarrow> has_account from"
  shows "reg_inv P t \<and> reg_grows s t"
proof -
  let ?hit = "\<lambda>a. alloc_key w op a \<and> al_state a = from"
  let ?f = "\<lambda>a. a\<lparr>al_state := to, al_updated := sint now\<rparr>"
  have "row_forward P s a (?f a)" if "a \<in> set (reg_allocations s)" "?hit a" for a
    using inv_rowD [OF inv that(1)] that(2) fwd key
    by (auto simp: row_forward_def same_keys_def row_ok_def row_buried_def)
  from inv_update_rows [OF inv this]
  have i: "reg_inv P (s\<lparr>reg_allocations := update_rows ?hit ?f (reg_allocations s)\<rparr>)" .
  have g: "reg_grows s (s\<lparr>reg_allocations := update_rows ?hit ?f (reg_allocations s)\<rparr>)"
    using fwd by (intro grows_update_rows) (auto simp: row_grows_def same_keys_def)
  from ok have "t = append_event P w op (Some from) to now
      (s\<lparr>reg_allocations := update_rows ?hit ?f (reg_allocations s)\<rparr>)"
    by (simp add: transition_def Let_def split: if_splits)
  with i g show ?thesis by (simp add: grows_append_event)
qed

text \<open>Every operation is a transaction whose committed outcome satisfies a relation \<open>Q\<close>; the aborted
  one leaves the state.\<close>

lemma commit_or_abort_cases:
  assumes "commit_or_abort st r = (st', res)"
    and "\<And>x. r = Inr (st', x) \<Longrightarrow> Q st'" and "Q st"
  shows "Q st'"
  using assms by (auto simp: commit_or_abort_def split: sum.splits)

definition safe_step :: "prims \<Rightarrow> registry \<Rightarrow> registry \<Rightarrow> bool" where
  "safe_step P s t = (reg_inv P t \<and> reg_grows s t)"

lemma safe_step_keep: "reg_inv P s \<Longrightarrow> safe_step P s s"
  by (simp add: safe_step_def)

lemma transition_safe:
  assumes inv: "reg_inv P s" and ok: "transition P w op from to now s = Inr t"
    and fwd: "(from, to) \<in> {(PREPARED, INDEX_COMMITTED), (ACCOUNT_COMMITTED, ACTIVATED), (ACTIVATED, RETIRED)}"
  shows "safe_step P s t"
  using transition_safe_gen [OF inv ok] fwd by (auto simp: safe_step_def has_account_def)

lemma commit_index_safe:
  assumes inv: "reg_inv P s" and run: "commit_index P audit w op now (s, aud) = (st', res)"
  shows "safe_step P s (fst st')"
  using run unfolding commit_index_def prod.case
  by (rule commit_or_abort_cases)
    (auto simp: result_simps safe_step_keep [OF inv] intro: transition_safe [OF inv] split: if_splits)

lemma activate_safe:
  assumes inv: "reg_inv P s" and run: "activate P audit w op now (s, aud) = (st', res)"
  shows "safe_step P s (fst st')"
  using run unfolding activate_def prod.case
  by (rule commit_or_abort_cases)
    (auto simp: result_simps safe_step_keep [OF inv] intro: transition_safe [OF inv] split: if_splits)

lemma retire_safe:
  assumes inv: "reg_inv P s" and run: "retire P audit w op now (s, aud) = (st', res)"
  shows "safe_step P s (fst st')"
  using run unfolding retire_def prod.case
  by (rule commit_or_abort_cases)
    (auto simp: result_simps safe_step_keep [OF inv] intro: transition_safe [OF inv] split: if_splits)

lemma commit_account_row_safe:
  assumes inv: "reg_inv P s" and der: "p_hex_decode P spki = Some der"
  shows "safe_step P s (append_event P w op (Some INDEX_COMMITTED) ACCOUNT_COMMITTED now
    (s\<lparr>reg_allocations := update_rows (\<lambda>a. alloc_key w op a \<and> al_state a = INDEX_COMMITTED)
       (\<lambda>a. a\<lparr>al_state := ACCOUNT_COMMITTED, al_spki := Some spki,
               al_fingerprint := Some (p_sha256 P der), al_updated := sint now\<rparr>) (reg_allocations s)\<rparr>))"
proof -
  let ?hit = "\<lambda>a. alloc_key w op a \<and> al_state a = INDEX_COMMITTED"
  let ?f = "\<lambda>a. a\<lparr>al_state := ACCOUNT_COMMITTED, al_spki := Some spki,
                    al_fingerprint := Some (p_sha256 P der), al_updated := sint now\<rparr>"
  let ?t = "s\<lparr>reg_allocations := update_rows ?hit ?f (reg_allocations s)\<rparr>"
  have "reg_inv P ?t"
    using der by (intro inv_update_rows [OF inv])
      (auto simp: row_forward_def same_keys_def row_defs dest!: inv_rowD [OF inv])
  moreover have "reg_grows s ?t"
    by (intro grows_update_rows) (auto simp: row_grows_def same_keys_def)
  ultimately show ?thesis by (simp add: safe_step_def grows_append_event)
qed

lemma commit_account_safe:
  assumes inv: "reg_inv P s" and run: "commit_account P audit w op spki fp now (s, aud) = (st', res)"
  shows "safe_step P s (fst st')"
proof -
  have keep: "safe_step P s s" using inv by (simp add: safe_step_def)
  show ?thesis
    using run unfolding commit_account_def prod.case
    by (rule commit_or_abort_cases)
      (auto simp: result_simps Let_def keep intro: commit_account_row_safe [OF inv] split: if_splits)
qed

lemma tombstone_safe:
  assumes inv: "reg_inv P s" and run: "tombstone P audit w op now (s, aud) = (st', res)"
  shows "safe_step P s (fst st')"
proof -
  let ?f = "\<lambda>a. a\<lparr>al_state := TOMBSTONED, al_updated := sint now\<rparr>"
  have fin: "safe_step P s (append_event P w op frm TOMBSTONED now
      (insert_or_ignore_tombstone w (al_profile a) (al_role a) (al_account a) (al_index a) reason now
         (s\<lparr>reg_allocations := update_rows (alloc_key w op) ?f (reg_allocations s)\<rparr>)))"
    if load: "load_allocation s w op = Some a" for a frm reason
  proof -
    let ?t = "insert_or_ignore_tombstone w (al_profile a) (al_role a) (al_account a) (al_index a) reason now s"
    have swap: "insert_or_ignore_tombstone w (al_profile a) (al_role a) (al_account a) (al_index a) reason now
         (s\<lparr>reg_allocations := update_rows (alloc_key w op) ?f (reg_allocations s)\<rparr>)
       = ?t\<lparr>reg_allocations := update_rows (alloc_key w op) ?f (reg_allocations ?t)\<rparr>"
      by (simp add: insert_or_ignore_tombstone_def)
    have it: "reg_inv P ?t" by (rule inv_add_tombstone [OF inv])
    have "b = a" if "b \<in> set (reg_allocations s)" "alloc_key w op b" for b
      using load_allocation_unique [OF inv that(1)] that(2) load by (auto simp: alloc_key_def)
    then have "row_forward P ?t b (?f b)" if "b \<in> set (reg_allocations ?t)" "alloc_key w op b" for b
      using inv_rowD [OF it that(1)] that tombstone_present
      by (fastforce simp: row_forward_def same_keys_def row_ok_def
          row_buried_def has_account_def alloc_key_def)
    then have "reg_inv P (?t\<lparr>reg_allocations := update_rows (alloc_key w op) ?f (reg_allocations ?t)\<rparr>)"
      by (rule inv_update_rows [OF it])
    moreover have "row_grows b (?f b)" for b
      by (cases "al_state b") (auto simp: row_grows_def same_keys_def)
    then have "reg_grows s (?t\<lparr>reg_allocations := update_rows (alloc_key w op) ?f (reg_allocations ?t)\<rparr>)"
      by (intro reg_grows_trans [OF grows_add_tombstone grows_update_rows])
    ultimately show ?thesis by (simp add: safe_step_def swap grows_append_event)
  qed
  have keep: "safe_step P s s" using inv by (simp add: safe_step_def)
  show ?thesis
    using run unfolding tombstone_def prod.case
    by (rule commit_or_abort_cases) (auto simp: result_simps Let_def keep intro: fin split: if_splits)
qed

subsection \<open>Preparing an allocation\<close>

lemma as_u32_unat [simp]: "as_u32 (unat w) = w"
  by (simp add: as_u32_def)

lemma unat_as_u32: "n < 2 ^ 32 \<Longrightarrow> unat (as_u32 n) = n"
  by (simp add: as_u32_def unsigned_of_nat take_bit_nat_eq_self)

definition advanced ::
  "token \<Rightarrow> string \<Rightarrow> string \<Rightarrow> u32 \<Rightarrow> u32 option \<Rightarrow> u32 \<Rightarrow> u32 \<Rightarrow> namespace \<Rightarrow> namespace" where
  "advanced w p r acc target start counter n =
     (if ns_key w p r (unat acc) n
      then (case target of
              Some _ \<Rightarrow> n\<lparr>ns_next_index := max (ns_next_index n) (unat start + 1)\<rparr>
            | None \<Rightarrow> if ns_next_index n = unat counter then n\<lparr>ns_next_index := unat start + 1\<rparr> else n)
      else n)"

lemma advance_counter_map:
  "advance_counter w p r acc target start counter s =
     s\<lparr>reg_namespaces := map (advanced w p r acc target start counter) (reg_namespaces s)\<rparr>"
  by (simp add: advance_counter_def update_rows_def advanced_def split: option.split)

lemma unat_u32_Suc_le: "unat (i :: u32) + 1 \<le> 2 ^ 32"
  using unat_lt_power [of i] by simp

lemma advanced_forward:
  assumes "target = None \<Longrightarrow> counter \<le> start"
  shows "ns_forward n (advanced w p r acc target start counter n)"
  using assms by (auto simp: advanced_def ns_forward_def ns_id_def word_le_nat_alt split: option.split)

lemma advanced_bound:
  "ns_next_index n \<le> 2 ^ 32 \<Longrightarrow> ns_next_index (advanced w p r acc target start counter n) \<le> 2 ^ 32"
  using unat_u32_Suc_le [of start] by (auto simp: advanced_def split: option.split)

lemma advanced_counts:
  assumes "ns_key w p r (unat acc) n" "ns_next_index n \<le> 2 ^ 32" "counter = as_u32 (ns_next_index n)"
  shows "unat start < ns_next_index (advanced w p r acc target start counter n)"
proof (cases "ns_next_index n = 2 ^ 32")
  case True
  then show ?thesis
    using assms unat_lt_power [of start] by (auto simp: advanced_def split: option.split)
next
  case False
  with assms(2,3) have "unat counter = ns_next_index n" by (simp add: unat_as_u32)
  with assms(1) show ?thesis by (auto simp: advanced_def split: option.split)
qed

lemma reserve_index_InrD:
  assumes "reserve_index P audit w p r acc target op now counter start skipped s aud = Inr ((t, aud'), rv)"
  shows "\<exists>path spec.
      resolve_canonical_path p acc start = Inr path \<and> key_spec_for_profile p = Inr spec
    \<and> (\<forall>a\<in>set (reg_allocations s). \<not> (al_wallet a = w \<and> al_profile a = p \<and> al_path a = path))
    \<and> (let s2 = advance_counter w p r acc target start counter (bury_all w p r (unat acc) now skipped s)
       in t = append_event P w op None PREPARED now
            (s2\<lparr>reg_allocations := reg_allocations s @
               [\<lparr>al_wallet = w, al_operation = op, al_profile = p, al_role = r,
                 al_account = unat acc, al_index = unat start, al_path = path,
                 al_state = PREPARED, al_key_spec = spec, al_spki = None, al_fingerprint = None,
                 al_authority_committed = False, al_created = sint now, al_updated = sint now\<rparr>]\<rparr>))
    \<and> rv = \<lparr>rv_operation = op, rv_profile = p, rv_role = r, rv_account = acc,
             rv_index = start, rv_path = path, rv_state = PREPARED\<rparr>"
  using assms
  by (auto simp: reserve_index_def result_simps Let_def insert_allocation_def list_ex_iff
      bury_all_def [symmetric] advance_counter_map split: if_splits)

lemma reserve_index_safe:
  assumes inv: "reg_inv P s"
    and run: "reserve_index P audit w p r acc target op now counter start skipped s aud = Inr ((t, aud'), rv)"
    and unused: "load_allocation s w op = None"
    and ns: "n \<in> set (reg_namespaces s)" "ns_key w p r (unat acc) n" "counter = as_u32 (ns_next_index n)"
    and room: "live_in (reg_allocations s) n < ns_maximum n"
    and acc: "unat acc < 2 ^ 31"
    and alive: "\<not> tombstoned s w p r (unat acc) (unat start)"
    and order: "target = None \<Longrightarrow> counter \<le> start"
  shows "safe_step P s t"
proof -
  let ?b = "bury_all w p r (unat acc) now skipped s"
  let ?adv = "advanced w p r acc target start counter"
  let ?s2 = "?b\<lparr>reg_namespaces := map ?adv (reg_namespaces ?b)\<rparr>"
  from reserve_index_InrD [OF run] obtain path spec where
    path: "resolve_canonical_path p acc start = Inr path" and spec: "key_spec_for_profile p = Inr spec"
    and free: "\<forall>a\<in>set (reg_allocations s). \<not> (al_wallet a = w \<and> al_profile a = p \<and> al_path a = path)"
    and t: "t = append_event P w op None PREPARED now
            (?s2\<lparr>reg_allocations := reg_allocations ?s2 @
               [\<lparr>al_wallet = w, al_operation = op, al_profile = p, al_role = r,
                 al_account = unat acc, al_index = unat start, al_path = path,
                 al_state = PREPARED, al_key_spec = spec, al_spki = None, al_fingerprint = None,
                 al_authority_committed = False, al_created = sint now, al_updated = sint now\<rparr>]\<rparr>)"
      (is "t = append_event _ _ _ _ _ _ (?s2\<lparr>reg_allocations := _ @ [?row]\<rparr>)")
    unfolding advance_counter_map Let_def by auto
  have bound: "ns_next_index m \<le> 2 ^ 32" if "m \<in> set (reg_namespaces s)" for m
    using inv that by (auto simp: reg_inv_def list_all_iff ns_ok_def)
  have fwd: "ns_forward m (?adv m)" for m using order by (rule advanced_forward)
  have i2: "reg_inv P ?s2"
    by (rule inv_forward_namespaces [OF inv_bury_all [OF inv]]) (use fwd advanced_bound bound in auto)
  have "unat start < ns_next_index (?adv n)"
    using ns(2) bound [OF ns(1)] ns(3) by (rule advanced_counts)
  moreover have "ns_key w p r (unat acc) (?adv n)"
    using fwd [of n] ns(2) by (simp add: ns_forward_def ns_key_iff)
  ultimately have counted: "row_counted (reg_namespaces ?s2) ?row"
    using ns(1) by (auto simp: row_counted_def list_ex_iff)
  have only: "m = n" if "m \<in> set (reg_namespaces s)" "ns_key w p r (unat acc) m" for m
    using inv that ns(1,2) by (auto simp: reg_inv_def ns_key_iff distinct_map inj_on_def)
  have "reg_inv P (?s2\<lparr>reg_allocations := reg_allocations ?s2 @ [?row]\<rparr>)"
  proof (rule inv_add_row [OF i2 _ _ counted])
    fix a assume "a \<in> set (reg_allocations ?s2)"
    then show "\<not> alloc_clash a ?row"
      using free unused by (auto simp: alloc_clash_def load_allocation_def find_None_iff alloc_key_def)
  next
    show "row_ok P ?row" using acc path spec unat_lt_power [of start] by (simp add: row_ok_def has_account_def)
    show "row_buried (reg_tombstones ?s2) ?row" by (simp add: row_buried_def)
  next
    fix m' assume m': "m' \<in> set (reg_namespaces ?s2)"
      "ns_key (al_wallet ?row) (al_profile ?row) (al_role ?row) (al_account ?row) m'"
    then obtain m where m: "m \<in> set (reg_namespaces s)" "m' = ?adv m" by auto
    with fwd [of m] m'(2) have "ns_key w p r (unat acc) m" by (simp add: ns_forward_def ns_key_iff)
    with only m have "m' = ?adv n" by blast
    with fwd [of n] room show "live_in (reg_allocations ?s2) m' < ns_maximum m'"
      by (simp add: ns_forward_def live_in_def ns_id_def)
  qed
  moreover have "\<not> row_index_dead s ?row" using alive by (simp add: row_index_dead_def)
  then have "reg_grows s (s\<lparr>reg_allocations := reg_allocations s @ [?row]\<rparr>)" by (rule grows_add_row)
  then have "reg_grows s (?s2\<lparr>reg_allocations := reg_allocations ?s2 @ [?row]\<rparr>)"
    using bury_all_subset [of s w p r "unat acc" now skipped] fwd
    by (auto simp: reg_grows_def)
  ultimately show ?thesis by (simp add: safe_step_def t grows_append_event)
qed

lemma prepare_allocation_at_safe:
  assumes inv: "reg_inv P s"
    and run: "prepare_allocation_at P audit w p r req target op invalid now (s, aud) = Some (st', res)"
  shows "safe_step P s (fst st')"
proof (cases "fst st' = s")
  case True
  with inv show ?thesis by (simp add: safe_step_def)
next
  case False
  have abort: "fst st' = s" if "commit_or_abort (s, aud) (Inl e) = (st', res)" for e :: protocol_error
    using that by (auto simp: commit_or_abort_def)
  from False run have early: "\<not> (case req of Some n \<Rightarrow> n \<ge> 2 ^ 31 | None \<Rightarrow> False)"
    and unused: "load_allocation s w op = None"
    by (auto simp: prepare_allocation_at_def split: if_splits option.splits)
  from False run obtain acc where acc: "choose_account s w p req = Inr acc"
    by (auto simp: prepare_allocation_at_def split: if_splits option.splits sum.splits)
  from False run acc obtain s0 where s0: "ensure_namespace w p r acc s = Inr s0"
    by (auto simp: prepare_allocation_at_def split: if_splits option.splits sum.splits)
  from False run acc s0 obtain n where
    n: "find (ns_key w p r (unat acc)) (reg_namespaces s0) = Some n"
    and room: "live_children s0 w p r (unat acc) < ns_maximum n"
    by (auto simp: prepare_allocation_at_def not_le split: if_splits option.splits)
  have nin: "n \<in> set (reg_namespaces s0)" "ns_key w p r (unat acc) n"
    using n by (auto simp: find_Some_iff)
  have accb: "unat acc < 2 ^ 31"
    using acc early
    by (auto simp: choose_account_def word_le_nat_alt unat_as_u32 not_le unat_word_ariths as_u32_def
        unsigned_of_nat take_bit_nat_eq_self split: option.splits if_splits)
  have inv0: "reg_inv P s0" by (rule inv_ensure_namespace [OF inv s0])
  have grow0: "reg_grows s s0" by (rule grows_ensure_namespace [OF s0])
  have unused0: "load_allocation s0 w op = None"
    using unused ensure_namespace_tables(1) [OF s0] by (simp add: load_allocation_def)
  have room0: "live_in (reg_allocations s0) n < ns_maximum n"
    using room nin(2) by (simp add: live_in_children ns_key_def)
  have reserve: "safe_step P s t"
    if "reserve_index P audit w p r acc target op now (as_u32 (ns_next_index n)) start skipped s0 aud
          = Inr ((t, aud'), rv)"
      "\<not> tombstoned s0 w p r (unat acc) (unat start)"
      "target = None \<Longrightarrow> as_u32 (ns_next_index n) \<le> start" for start skipped t aud' rv
    using reserve_index_safe [OF inv0 that(1) unused0 nin refl room0 accb that(2,3)] grow0
    by (auto simp: safe_step_def intro: reg_grows_trans)
  have bury: "safe_step P s (record_invalid_child_tombstone w p r acc index now s0)" for index
    unfolding record_invalid_child_tombstone_def safe_step_def
    using inv_add_tombstone [OF inv0] reg_grows_trans [OF grow0 grows_add_tombstone] by blast
  show ?thesis
  proof (cases target)
    case None
    from False run acc s0 n room unused None obtain start skipped where
      nv: "next_valid_index (as_u32 (ns_next_index n))
             (\<lambda>i. tombstoned s0 w p r (unat acc) (unat i) \<or> invalid acc i) = Some (start, skipped)"
      and "commit_or_abort (s, aud) (reserve_index P audit w p r acc None op now
             (as_u32 (ns_next_index n)) start skipped s0 aud) = (st', res)"
      by (auto simp: prepare_allocation_at_def not_le Let_def split: if_splits option.splits)
    with False reserve [where start = start and skipped = skipped] None
      next_valid_from_spec [OF nv [unfolded next_valid_index_def]]
    show ?thesis by (auto simp: commit_or_abort_def split: sum.splits)
  next
    case (Some index)
    with False run acc s0 n room unused
    consider "st' = (record_invalid_child_tombstone w p r acc index now s0, aud)"
      | "\<not> tombstoned s0 w p r (unat acc) (unat index)"
        "commit_or_abort (s, aud) (reserve_index P audit w p r acc (Some index) op now
             (as_u32 (ns_next_index n)) index [] s0 aud) = (st', res)"
      by (auto simp: prepare_allocation_at_def not_le Let_def split: if_splits option.splits)
    then show ?thesis
    proof cases
      case 1
      then show ?thesis using bury by simp
    next
      case 2
      with False Some reserve [where start = index and skipped = "[]"] show ?thesis
        by (auto simp: commit_or_abort_def split: sum.splits)
    qed
  qed
qed

subsection \<open>Runs of the registry\<close>

inductive reg_step :: "prims \<Rightarrow> 'a recorder \<Rightarrow> 'a rstate \<Rightarrow> 'a rstate \<Rightarrow> bool" for P audit where
  step_prepare:
    "prepare_allocation_at P audit w p r req target op invalid now st = Some (st', res)
     \<Longrightarrow> reg_step P audit st st'"
| step_commit_index: "commit_index P audit w op now st = (st', res) \<Longrightarrow> reg_step P audit st st'"
| step_commit_account:
    "commit_account P audit w op spki fp now st = (st', res') \<Longrightarrow> reg_step P audit st st'"
| step_activate: "activate P audit w op now st = (st', acct) \<Longrightarrow> reg_step P audit st st'"
| step_retire: "retire P audit w op now st = (st', u) \<Longrightarrow> reg_step P audit st st'"
| step_tombstone: "tombstone P audit w op now st = (st', u) \<Longrightarrow> reg_step P audit st st'"
| step_invalid_child:
    "reg_step P audit (s, aud) (record_invalid_child_tombstone w p r acc i now s, aud)"

lemma reg_step_safe: "reg_step P audit st st' \<Longrightarrow> reg_inv P (fst st) \<Longrightarrow> safe_step P (fst st) (fst st')"
proof (induction rule: reg_step.induct)
  case (step_invalid_child s aud w p r acc i now)
  then show ?case
    by (simp add: safe_step_def record_invalid_child_tombstone_def inv_add_tombstone grows_add_tombstone)
qed (metis fst_conv surj_pair prepare_allocation_at_safe commit_index_safe commit_account_safe
    activate_safe retire_safe tombstone_safe)+

interpretation registry_run: transition_system "reg_step P audit" "\<lambda>st. reg_inv P (fst st)"
    "\<lambda>s t. reg_grows (fst s) (fst t)"
proof
  show "reg_inv P (fst t)" if "reg_inv P (fst s)" "reg_step P audit s t" for s t
    using reg_step_safe [OF that(2,1)] by (simp add: safe_step_def)
  show "reg_grows (fst s) (fst s)" for s :: "'a rstate" by simp
  show "reg_grows (fst s) (fst u)" if "reg_grows (fst s) (fst t)" "reg_grows (fst t) (fst u)"
    for s t u :: "'a rstate" using that by (rule reg_grows_trans)
  show "reg_grows (fst s) (fst t)" if "reg_inv P (fst s)" "reg_step P audit s t" for s t
    using reg_step_safe [OF that(2,1)] by (simp add: safe_step_def)
qed

lemma reg_inv_empty: "reg_inv P empty_registry"
  by (simp add: reg_inv_def empty_registry_def verify_event_chain_def)

subsection \<open>Single operations\<close>

lemma load_update_rows:
  assumes "\<And>a. al_wallet (f a) = al_wallet a" "\<And>a. al_operation (f a) = al_operation a"
  shows "load_allocation (s\<lparr>reg_allocations := update_rows hit f (reg_allocations s)\<rparr>) w op
       = map_option (\<lambda>a. if hit a then f a else a) (load_allocation s w op)"
  unfolding load_allocation_def by (simp add: find_update_rows assms alloc_key_def)

lemma load_append_event [simp]:
  "load_allocation (append_event P w op from to now s) w' op' = load_allocation s w' op'"
  by (simp add: load_allocation_def)

lemma one_hit:
  assumes inv: "reg_inv P s" and load: "load_allocation s w op = Some a"
  shows "length (filter (\<lambda>b. alloc_key w op b \<and> al_state b = st) (reg_allocations s))
       = (if al_state a = st then 1 else 0)"
proof -
  have dist: "distinct (reg_allocations s)"
    using inv no_clash_distinct by (auto simp: reg_inv_def)
  have "alloc_key w op b \<longleftrightarrow> b = a" if b: "b \<in> set (reg_allocations s)" for b
  proof
    assume "alloc_key w op b"
    with load_allocation_unique [OF inv b] load show "b = a" by (simp add: alloc_key_def)
  qed (simp add: alloc_key_def load_allocation_SomeD [OF load])
  then have "filter (\<lambda>b. alloc_key w op b \<and> al_state b = st) (reg_allocations s)
      = filter (\<lambda>b. b = a \<and> al_state a = st) (reg_allocations s)"
    by (intro filter_cong) auto
  moreover have "length (filter (\<lambda>b. b = a) (reg_allocations s)) = 1"
    using dist load_allocation_SomeD [OF load] by (simp add: distinct_length_filter)
  ultimately show ?thesis by simp
qed

lemma transition_at:
  assumes inv: "reg_inv P s" and load: "load_allocation s w op = Some a" and st: "al_state a = from"
  shows "\<exists>t. transition P w op from to now s = Inr t
           \<and> load_allocation t w op = Some (a\<lparr>al_state := to, al_updated := sint now\<rparr>)"
  using one_hit [OF inv load, of "from"] load st load_allocation_SomeD [OF load]
  by (auto simp: transition_def Let_def load_update_rows alloc_key_def)

text \<open>An earlier state's reservation is found again after any run, perhaps in a later state.\<close>

lemma load_after_run:
  assumes inv: "reg_inv P (fst st)" and run: "(reg_step P audit)\<^sup>*\<^sup>* st st'"
    and load: "load_allocation (fst st) w op = Some a"
  shows "\<exists>b. load_allocation (fst st') w op = Some b \<and> row_grows a b"
proof -
  from registry_run.run_grows [OF run] inv load_allocation_SomeD [OF load]
  obtain b where b: "b \<in> set (reg_allocations (fst st'))" "row_grows a b"
    by (auto simp: reg_grows_def)
  with load_allocation_unique [OF registry_run.run_inv [OF run inv] b(1)] load_allocation_SomeD [OF load]
  show ?thesis by (auto simp: row_grows_def same_keys_def)
qed

lemma prepared_row:
  assumes run: "prepare_allocation_at P audit w p r req target op invalid now (s, aud) = Some (st', Inr rv)"
    and unused: "load_allocation s w op = None"
  shows "\<exists>a. load_allocation (fst st') w op = Some a \<and> allocation_matches p r req target a
     \<and> al_state a = PREPARED \<and> al_account a = unat (rv_account rv) \<and> al_index a = unat (rv_index rv)
     \<and> rv_operation rv = op \<and> rv_profile rv = p \<and> rv_role rv = r \<and> rv_path rv = al_path a"
proof -
  from run unused obtain acc s0 counter start skipped st'' where
    acc: "choose_account s w p req = Inr acc" and s0: "ensure_namespace w p r acc s = Inr s0"
    and tg: "\<And>i. target = Some i \<Longrightarrow> start = i"
    and res: "reserve_index P audit w p r acc target op now counter start skipped s0 aud = Inr (st', rv)"
    by (fastforce simp: prepare_allocation_at_def Let_def commit_or_abort_def
        split: if_splits option.splits sum.splits)
  have reqa: "req = Some n \<Longrightarrow> acc = n" for n using acc by (auto simp: choose_account_def)
  obtain t aud' where st': "st' = (t, aud')" by (cases st')
  have unused0: "load_allocation s0 w op = None"
    using unused ensure_namespace_tables(1) [OF s0] by (simp add: load_allocation_def)
  have miss: "find (alloc_key w op) (reg_allocations s0 @ [row]) = Some row"
    if "al_wallet row = w" "al_operation row = op" for row
    using unused0 that by (induction "reg_allocations s0" arbitrary: s0)
      (auto simp: load_allocation_def find_None_iff alloc_key_def find_Some_iff nth_append)
  show ?thesis
    using reserve_index_InrD [OF res [unfolded st']] tg reqa
    by (auto simp: Let_def st' load_allocation_def miss allocation_matches_def split: option.split)
qed

lemma max_of_upper: "x \<in> set xs \<Longrightarrow> \<exists>m. max_of xs = Some m \<and> x \<le> m"
proof -
  have "x \<le> foldr max xs 0" if "x \<in> set xs" for x :: nat
    using that by (induction xs) auto
  then show "x \<in> set xs \<Longrightarrow> ?thesis" by (auto simp: max_of_def)
qed

lemma next_account_number_above:
  assumes "next_account_number s w = Inr n"
  shows "unat n < 2 ^ 31"
    "ns \<in> set (reg_namespaces s) \<Longrightarrow> ns_wallet ns = w \<Longrightarrow> ns_profile ns = PROFILE_EVM
       \<Longrightarrow> ns_account ns = 0 \<Longrightarrow> ns_next_index ns \<le> unat n"
    "t \<in> set (reg_tombstones s) \<Longrightarrow> ts_wallet t = w \<Longrightarrow> ts_profile t = PROFILE_EVM
       \<Longrightarrow> ts_account t = 0 \<Longrightarrow> ts_index t < unat n"
    "a \<in> set (reg_allocations s) \<Longrightarrow> al_wallet a = w \<Longrightarrow> al_profile a = PROFILE_SOLANA
       \<Longrightarrow> al_account a < unat n"
proof -
  let ?e = "case max_of (evm_next_indices s w) of None \<Rightarrow> 0 | Some m \<Rightarrow> m"
  let ?t = "case max_of (evm_tombstoned_indices s w) of None \<Rightarrow> 0 | Some m \<Rightarrow> m + 1"
  let ?s = "case max_of (solana_accounts s w) of None \<Rightarrow> 0 | Some m \<Rightarrow> m + 1"
  from assms have lt: "max (max ?e ?t) ?s < 2 ^ 31" and n: "n = of_nat (max (max ?e ?t) ?s)"
    by (auto simp: next_account_number_def Let_def split: if_splits)
  have u: "unat n = max (max ?e ?t) ?s"
    unfolding n using lt by (simp add: unat_as_u32 [unfolded as_u32_def])
  show "unat n < 2 ^ 31" using u lt by simp
  show "ns_next_index ns \<le> unat n" if "ns \<in> set (reg_namespaces s)" "ns_wallet ns = w"
      "ns_profile ns = PROFILE_EVM" "ns_account ns = 0"
    using max_of_upper [of "ns_next_index ns" "evm_next_indices s w"] that
    unfolding u by (fastforce simp: evm_next_indices_def)
  show "ts_index t < unat n" if "t \<in> set (reg_tombstones s)" "ts_wallet t = w"
      "ts_profile t = PROFILE_EVM" "ts_account t = 0"
    using max_of_upper [of "ts_index t" "evm_tombstoned_indices s w"] that
    unfolding u by (fastforce simp: evm_tombstoned_indices_def)
  show "al_account a < unat n" if "a \<in> set (reg_allocations s)" "al_wallet a = w"
      "al_profile a = PROFILE_SOLANA"
    using max_of_upper [of "al_account a" "solana_accounts s w"] that
    unfolding u by (fastforce simp: solana_accounts_def)
qed

lemma profiles_differ [simp]: "PROFILE_EVM \<noteq> PROFILE_SOLANA" "PROFILE_SOLANA \<noteq> PROFILE_EVM"
  by (simp_all add: PROFILE_EVM_def PROFILE_SOLANA_def)

lemma next_account_number_path_free:
  assumes inv: "reg_inv P s" and n: "next_account_number s w = Inr n"
    and a: "a \<in> set (reg_allocations s)" "al_wallet a = w" "al_profile a = PROFILE_EVM"
  shows "al_path a \<noteq> evm_path 0 n" "\<not> (al_account a = 0 \<and> al_index a = unat n)"
proof -
  have ok: "al_account a < 2 ^ 31" "al_index a < 2 ^ 32"
    "al_path a = evm_path (as_u32 (al_account a)) (as_u32 (al_index a))"
    using inv_rowD [OF inv a(1)] a(3) by (auto simp: row_ok_def resolve_canonical_path_def)
  have below: "al_index a < unat n" if "al_account a = 0"
    using inv_rowD [OF inv a(1)] next_account_number_above(2) [OF n] a that
    by (fastforce simp: row_counted_def list_ex_iff ns_key_def)
  show "al_path a \<noteq> evm_path 0 n"
  proof
    assume "al_path a = evm_path 0 n"
    then have "as_u32 (al_account a) = 0" "as_u32 (al_index a) = n" using ok by (auto simp: evm_path_inject)
    then have "al_account a = 0" "al_index a = unat n"
      using unat_as_u32 [of "al_account a"] unat_as_u32 [of "al_index a"] ok by auto
    with below show False by simp
  qed
  show "\<not> (al_account a = 0 \<and> al_index a = unat n)" using below by auto
qed

lemma evm_reserve_ok:
  assumes free: "\<And>a. a \<in> set (reg_allocations s) \<Longrightarrow> al_wallet a = w \<Longrightarrow> al_profile a = PROFILE_EVM
      \<Longrightarrow> al_path a \<noteq> evm_path acc i \<and> \<not> (al_account a = unat acc \<and> al_index a = unat i)"
    and unused: "load_allocation s w op = None" and rec: "\<And>p. \<exists>a'. audit ''derivation.prepared'' p aud = Inr a'"
  shows "\<exists>st'. reserve_index P audit w PROFILE_EVM r acc (Some i) op now counter i [] s aud
     = Inr (st', \<lparr>rv_operation = op, rv_profile = PROFILE_EVM, rv_role = r, rv_account = acc,
                 rv_index = i, rv_path = evm_path acc i, rv_state = PREPARED\<rparr>)"
proof -
  have "\<not> list_ex (alloc_conflicts row) (reg_allocations s)"
    if "al_wallet row = w" "al_operation row = op" "al_profile row = PROFILE_EVM"
      "al_account row = unat acc" "al_index row = unat i" "al_path row = evm_path acc i" for row
    using free unused that
    by (fastforce simp: list_ex_iff alloc_conflicts_def load_allocation_def find_None_iff alloc_key_def)
  moreover have "\<not> list_ex (\<lambda>a. al_wallet a = w \<and> al_profile a = PROFILE_EVM \<and> al_path a = evm_path acc i)
      (reg_allocations s)"
    using free by (auto simp: list_ex_iff)
  ultimately show ?thesis
    using rec
    by (auto simp: reserve_index_def resolve_canonical_path_def key_spec_for_profile_def Let_def
        insert_allocation_def advance_counter_map rbind_def split: sum.splits) (metis sum.distinct(1))+
qed

end
