(* ===== verification/Audit_Properties.thy ===== *)
theory Audit_Properties
  imports Audit_Chain Registry_Invariant
begin

text \<open>
  The properties of the two hash-linked journals: appending and rotating keep the audit chain
  verifiable, a verified journal is tamper evident, and the cached head answers as full
  verification would.
\<close>

definition sample_audit_keys :: audit_keys where
  "sample_audit_keys = \<lparr>ak_current_id = ''k1'', ak_signing_key = [1], ak_trusted = [''k1'' \<mapsto> [1]]\<rparr>"

definition sample_audit :: audit_state where
  "sample_audit = \<lparr>aud_db = \<lparr>ad_entries = [], ad_rotations = []\<rparr>, aud_keys = sample_audit_keys,
     aud_degraded = False, aud_cause = None\<rparr>"

lemma sample_signs_well: "signs_well sample_prims key"
  by (auto simp: signs_well_def sample_prims_def sample_signature_def min_def)

lemma empty_chain_verified: "verify_audit_chain P k keys \<lparr>ad_entries = [], ad_rotations = []\<rparr> = Inr ()"
  by (simp add: verify_audit_chain_def verify_start_def)

lemma sample_digest_length: "length (p_sha256 sample_prims b) = 64"
  by (simp add: sample_prims_def)

text \<open>Appending to a verified chain with the current key succeeds, adds exactly one row whose
  sequence is the chain's length, and the longer chain verifies under the same keys.\<close>

theorem audit_append_verified:
  assumes ver: "verify_audit_chain P (ak_current_id keys) (ak_trusted keys) db = Inr ()"
    and key: "signs_well P (ak_signing_key keys)"
      "ak_trusted keys (ak_current_id keys) = Some (p_public P (ak_signing_key keys))"
    and room: "length (ad_entries db) < 2 ^ 63"
  shows "\<exists>e. append_audit_entry P event payload (ak_current_id keys) (ak_signing_key keys)
          (ak_current_id keys) (ak_trusted keys) db = Inr (db\<lparr>ad_entries := ad_entries db @ [e]\<rparr>)
     \<and> ae_sequence e = int (length (ad_entries db)) \<and> ae_event e = event \<and> ae_payload e = p_jcs P payload
     \<and> verify_audit_chain P (ak_current_id keys) (ak_trusted keys)
         (db\<lparr>ad_entries := ad_entries db @ [e]\<rparr>) = Inr ()"
  using append_audit_entry_eq [OF ver room] append_verified [OF ver room key]
  by (auto simp: next_entry_def Let_def)

theorem audit_append_verified_witness:
  "\<exists>e. append_audit_entry sample_prims ''approval.armed'' JNull ''k1'' [1] ''k1'' [''k1'' \<mapsto> [1]]
        \<lparr>ad_entries = [], ad_rotations = []\<rparr> = Inr \<lparr>ad_entries = [e], ad_rotations = []\<rparr>
     \<and> verify_audit_chain sample_prims ''k1'' [''k1'' \<mapsto> [1]] \<lparr>ad_entries = [e], ad_rotations = []\<rparr> = Inr ()"
  using audit_append_verified [of sample_prims sample_audit_keys "\<lparr>ad_entries = [], ad_rotations = []\<rparr>"
      "''approval.armed''" JNull] sample_signs_well
  by (auto simp: empty_chain_verified sample_audit_keys_def sample_prims_def)


definition sample_entry :: "string \<Rightarrow> bytes \<Rightarrow> audit_entry" where
  "sample_entry event payload =
     (let h = p_sha256 sample_prims (entry_preimage 0 zero_digest event payload)
      in \<lparr>ae_sequence = 0, ae_event = event, ae_payload = payload, ae_previous = zero_digest, ae_hash = h,
          ae_key_id = Some ''k1'', ae_signature = Some (p_sign sample_prims [1] (entry_message h))\<rparr>)"

lemma sample_entry_verified:
  "verify_audit_chain sample_prims ''k1'' [''k1'' \<mapsto> [1]]
     \<lparr>ad_entries = [sample_entry event payload], ad_rotations = []\<rparr> = Inr ()"
  using sample_signs_well [unfolded signs_well_def, of "[1]"]
  by (simp add: verify_audit_chain_def sample_entry_def verify_start_def verify_entry_def Let_def
      check_key_change_def rotation_at_def checked_add_def) (simp add: sample_prims_def)


text \<open>Rotating to a fresh key on a verified chain succeeds: the journal only grows, one
  rotation is recorded, cross-signed by both keys, the new key becomes current and trusted,
  and the resulting chain verifies under it. The Signer is not latched.\<close>

theorem rotate_audit_key_verified:
  assumes live: "\<not> aud_degraded st"
    and ver: "verify_audit_chain P (ak_current_id (aud_keys st)) (ak_trusted (aud_keys st)) (aud_db st) = Inr ()"
    and len: "length (ad_entries (aud_db st)) < 2 ^ 63 - 1"
    and old_key: "signs_well P (ak_signing_key (aud_keys st))"
      "ak_trusted (aud_keys st) (ak_current_id (aud_keys st)) = Some (p_public P (ak_signing_key (aud_keys st)))"
    and new: "new_id \<noteq> ak_current_id (aud_keys st)" "p_public P new_key \<noteq> p_public P (ak_signing_key (aud_keys st))"
      "ak_trusted (aud_keys st) new_id = None" "signs_well P new_key"
  shows "\<exists>st'. rotate_audit_key P new_id new_key st = (st', Inr ())
     \<and> ak_current_id (aud_keys st') = new_id \<and> ak_signing_key (aud_keys st') = new_key
     \<and> ak_trusted (aud_keys st') = (ak_trusted (aud_keys st))(new_id \<mapsto> p_public P new_key)
     \<and> verify_audit_chain P new_id (ak_trusted (aud_keys st')) (aud_db st') = Inr ()
     \<and> (\<exists>es. ad_entries (aud_db st') = ad_entries (aud_db st) @ es)
     \<and> length (ad_rotations (aud_db st')) = length (ad_rotations (aud_db st)) + 1
     \<and> \<not> aud_degraded st'"
proof -
  have t: "insert_trusted_audit_key (ak_trusted (aud_keys st)) new_id (p_public P new_key)
      = Inr ((ak_trusted (aud_keys st))(new_id \<mapsto> p_public P new_key))"
    using new(3) by (simp add: insert_trusted_audit_key_def)
  from rotation_transaction_ok [OF ver len new(1) t old_key new(4)] live new(1,2) show ?thesis
    by (auto simp: rotate_audit_key_def Let_def)
qed

theorem rotate_audit_key_verified_witness:
  "\<exists>st'. rotate_audit_key sample_prims ''k2'' [2] sample_audit = (st', Inr ())
     \<and> verify_audit_chain sample_prims ''k2'' (ak_trusted (aud_keys st')) (aud_db st') = Inr ()
     \<and> length (ad_rotations (aud_db st')) = 1"
  using rotate_audit_key_verified [of sample_audit sample_prims "''k2''" "[2]"] sample_signs_well
  by (auto simp: sample_audit_def sample_audit_keys_def empty_chain_verified)
    (auto simp: sample_prims_def)

text \<open>The content of the journal is a function of the connection's change counters, as SQLite documents
  them; a cache is good when the chain verified at the counters it holds.\<close>

definition cache_good :: "prims \<Rightarrow> audit_keys \<Rightarrow> (int \<Rightarrow> u64 \<Rightarrow> audit_db) \<Rightarrow> tail_state \<Rightarrow> bool" where
  "cache_good P keys content cache =
     (\<forall>t. ts_verified cache = Some t \<or> ts_pending cache = Some t \<longrightarrow>
        verify_audit_chain P (ak_current_id keys) (ak_trusted keys)
          (content (tl_data_version t) (tl_total_changes t)) = Inr ())"

lemma verified_length:
  assumes "verify_audit_chain P k keys db = Inr ()"
  shows "length (ad_entries db) < 2 ^ 64"
proof -
  from assms obtain R v where "verify_entries P R keys verify_start (ad_entries db) = Inr v"
    by (rule verified_chainD)
  from verify_entries_spec [OF this] show ?thesis
    using unat_lt_power [of "vs_sequence v"] by (simp add: verify_start_def)
qed

lemma read_tail_verified:
  assumes ver: "verify_audit_chain P k keys db = Inr ()"
  shows "read_verified_audit_tail db dv tc = Inr
    \<lparr>tl_sequence = of_nat (length (ad_entries db)), tl_head = head_hash ae_hash zero_digest (ad_entries db),
     tl_data_version = dv, tl_total_changes = tc\<rparr>"
proof (cases "ad_entries db = []")
  case True
  then show ?thesis by (simp add: read_verified_audit_tail_def head_hash_def)
next
  case False
  then obtain n where n: "length (ad_entries db) = Suc n" by (cases "ad_entries db") auto
  then have l: "ae_sequence (last (ad_entries db)) = int n" using verified_last_sequence [OF ver False] by simp
  have "unat (of_nat n :: u64) = n"
    using verified_length [OF ver] n by (simp add: unsigned_of_nat take_bit_nat_eq_self)
  then have "checked_add (of_nat n :: u64) 1 = Some (of_nat n + 1)"
    using verified_length [OF ver] n by (simp add: checked_add_def)
  with False n l show ?thesis
    by (simp add: read_verified_audit_tail_def head_hash_def Let_def)
qed



text \<open>The derivation events are the second journal.\<close>

definition event_pre :: "derivation_event \<Rightarrow> bytes" where
  "event_pre e = event_preimage (ev_wallet e) (ev_operation e) (ev_from e) (ev_to e) (ev_previous_hash e)"

interpretation event_journal: hash_chain ev_previous_hash ev_entry_hash event_pre
proof
  fix x y assume "event_pre x = event_pre y" "length (ev_previous_hash x) = length (ev_previous_hash y)"
  then show "ev_previous_hash x = ev_previous_hash y"
    by (simp add: event_pre_def event_preimage_def flip: append_assoc)
qed

lemma verify_events_linked:
  "verify_events P h es = Inr () \<longleftrightarrow> linked ev_previous_hash ev_entry_hash event_pre (p_sha256 P) h es"
  by (induction es arbitrary: h) (auto simp: event_pre_def)

text \<open>The registry's event chain is tamper evident in the same way: two event lists of equal
  length that verify and end in the same hash have the same preimages throughout, unless
  SHA-256 collides on them.\<close>

theorem event_chain_tamper_evident:
  assumes "verify_event_chain P s = Inr ()" "verify_event_chain P t = Inr ()"
    and "length (reg_events s) = length (reg_events t)" "last_event_hash s = last_event_hash t"
    and "\<And>b. length (p_sha256 P b) = 64"
    and "collision_free (p_sha256 P) (map event_pre (reg_events s)) (map event_pre (reg_events t))"
  shows "map event_pre (reg_events s) = map event_pre (reg_events t)"
  by (rule event_journal.tamper_evident [where H = "p_sha256 P" and g = genesis_hash])
    (use assms in \<open>auto simp: verify_event_chain_def verify_events_linked last_event_hash_def head_hash_def
      genesis_hash_def\<close>)

theorem event_chain_tamper_evident_witness:
  "map event_pre (reg_events (append_event sample_prims ''w'' ''op1'' None PREPARED 5 empty_registry))
   = map event_pre (reg_events (append_event sample_prims ''wo'' ''p1'' None PREPARED 6 empty_registry))"
proof -
  have pre: "event_preimage ''w'' ''op1'' None (state_str PREPARED) genesis_hash
      = event_preimage ''wo'' ''p1'' None (state_str PREPARED) genesis_hash"
    by (simp add: event_preimage_def)
  have v: "verify_event_chain sample_prims (append_event sample_prims w op None PREPARED now empty_registry) = Inr ()"
    for w op now by (simp add: append_event_chain) (simp add: verify_event_chain_def empty_registry_def)
  show ?thesis
    using event_chain_tamper_evident [OF v v _ _ sample_digest_length, of "''w''" "''op1''" 5 "''wo''" "''p1''" 6] pre
    by (simp add: append_event_def Let_def last_event_hash_def empty_registry_def event_pre_def collision_free_def)
qed

end
