(* ===== verification/Engine_Sample.thy ===== *)
theory Engine_Sample
  imports Engine_Invariant Audit_Properties
begin

text \<open>
  A concrete Signer, approval and request at which the engine's properties are applied: one
  local root key, one armed Petal approval with limits and windows, one signed request.
\<close>

definition sample_key_ref :: key_ref where
  "sample_key_ref = \<lparr>kr_backend = ''local'', kr_backend_instance = ''main'', kr_locator = ''root-1'',
     kr_key_spec = Secp256k1, kr_fingerprint = ''fp'', kr_derivation = None\<rparr>"

definition sample_terms :: approval_terms where
  "sample_terms = \<lparr>at_subject = PetalSubject ''pkg'' ''r'' None, at_wallet_id = ''w'', at_key_ref = sample_key_ref,
     at_suites = [Secp256k1Keccak256Recoverable],
     at_selector = PetalSelector ''pkg'' ''r'' [''pay''] [] MachineAsserted,
     at_limits = \<lparr>max_operations = 3, max_signatures = 5,
       operation_rate_limits = [\<lparr>sw_maximum = 2, sw_duration = 50\<rparr>],
       signature_rate_limits = [\<lparr>sw_maximum = 4, sw_duration = 50\<rparr>], value_limits = []\<rparr>,
     at_activation_mode = BootBound, at_revocation_epoch = 0, at_policy_version = 1,
     at_policy_digest = ''pd'', at_provenance_digest = ''prov'', at_request_nonce = ''n'',
     at_issued_at_ms = 10, at_not_before_ms = 10, at_expires_at_ms = 1000, at_renewal_of = None\<rparr>"

definition sample_approval :: digest32 where
  "sample_approval = p_sha256 sample_prims (str_bytes APPROVAL_DOMAIN @ p_jcs sample_prims (terms_json sample_terms))"

definition sample_approval_row :: approval_row where
  "sample_approval_row = \<lparr>ap_id = sample_approval, ap_wallet = ''w'', ap_terms = Some sample_terms, ap_active = True,
     ap_operations = Some 0, ap_signatures = Some 0\<rparr>"

definition sample_backends :: backend_registry where
  "sample_backends = [(''local'', ''main'') \<mapsto>
     LocalBackend \<lparr>lb_root = Some sample_key_ref, lb_registry = Map.empty, lb_active = True\<rparr>]"

definition fresh_signer :: engine where
  "fresh_signer = \<lparr>en_audit = sample_audit, en_broker_key_id = ''bk'', en_broker_key = [7],
     en_revocation_key_id = ''rk'', en_revocation_key = [9], en_backends = sample_backends,
     en_approvals = [], en_operations = [], en_anchors = [], en_attempts = [],
     en_enrolled = [\<lparr>ek_fingerprint = ''fp'', ek_key_ref_jcs = p_jcs sample_prims (key_ref_json sample_key_ref),
        ek_available = True, ek_authority = ''wallet''\<rparr>],
     en_petal_scopes = [], en_wallets = [], en_generations = [], en_surfaces = Some [],
     en_receipts = [], en_statuses = [], en_tombstones = [], en_wallet_tombstones = [],
     en_revocations = [],
     en_registry = empty_registry, en_clock = None\<rparr>"

definition armed_signer :: engine where
  "armed_signer = fresh_signer\<lparr>en_approvals := [sample_approval_row],
     en_wallets := [\<lparr>ws_wallet = ''w'', ws_epoch = Some 0, ws_status = ''READY''\<rparr>]\<rparr>"

definition sample_attempt :: "string \<Rightarrow> unsigned_request" where
  "sample_attempt attempt =
     \<lparr>sr_schema = ''bloom.sign-request/1'', sr_attempt_id = attempt, sr_operation_id = ''op'',
      sr_operation_digest = [], sr_attempt_digest = [], sr_audience = ''bloom-signer'',
      sr_issuer_service_id = ''bloom-broker'', sr_issuer_boot_epoch = ''b'', sr_broker_key_id = ''bk'',
      sr_approval_id = sample_approval, sr_wallet_id = ''w'', sr_key_ref = sample_key_ref,
      sr_suite = Secp256k1Keccak256Recoverable, sr_selector_kind = SelPetal,
      sr_payload_digests = [''p''], sr_hashes = [''h''], sr_messages = [], sr_signature_count = 1,
      sr_petal_use_claim = Some ''c'', sr_claim_assurance = Some ''a'', sr_policy_version = 1,
      sr_policy_digest = ''pd'', sr_validation_receipt = ''v'', sr_issued_at_ms = 90,
      sr_not_before_ms = 90, sr_expires_at_ms = 200\<rparr>"

definition sample_unsigned :: "string \<Rightarrow> unsigned_request" where
  "sample_unsigned attempt =
     (let u = (sample_attempt attempt)\<lparr>sr_operation_digest :=
                 identity_digest sample_prims (operation_identity (sample_attempt attempt))\<rparr>
      in u\<lparr>sr_attempt_digest := computed_attempt_digest sample_prims u\<rparr>)"

definition sample_request :: "string \<Rightarrow> sign_request" where
  "sample_request attempt =
     \<lparr>req_unsigned = sample_unsigned attempt,
      req_signature = p_sign sample_prims [7] (str_bytes (sr_attempt_digest (sample_unsigned attempt)))\<rparr>"

definition sample_clock :: clock_decision where
  "sample_clock = \<lparr>cd_now = 100, cd_condition = Healthy, cd_observed = Some 100, cd_monotonic = 5, cd_boot_epoch = ''b''\<rparr>"

lemmas sample_defs = sample_approval_row_def sample_backends_def fresh_signer_def armed_signer_def sample_audit_def
  sample_audit_keys_def

lemma sample_terms_valid: "terms_validate sample_terms = Inr ()"
  by (simp add: terms_validate_ok sample_terms_def sample_key_ref_def key_ref_validate_def validate_suites_def
      validate_limits_def subject_selector_ok_def classes_are_canonical_def valid_route_grants_def
      KEYREF_LOCATOR_MAX_BYTES_def)

lemma sample_approval_id: "approval_id_of sample_prims sample_terms = Inr sample_approval"
  by (simp add: approval_id_of_ok sample_terms_valid sample_approval_def)

lemma fresh_signer_inv: "engine_inv sample_prims fresh_signer"
  using sample_signs_well
  by (simp add: engine_inv_def core_inv_def keys_good_def journal_verified_def sample_defs
      empty_chain_verified is_ok_iff) (simp add: sample_prims_def)

lemma armed_signer_inv: "engine_inv sample_prims armed_signer"
proof -
  have "approval_ok sample_prims [] sample_approval_row"
    using sample_approval_id by (simp add: approval_ok_def sample_approval_row_def) (simp add: sample_terms_def)
  then show ?thesis
    using fresh_signer_inv by (simp add: engine_inv_def core_inv_def keys_good_def armed_signer_def fresh_signer_def)
qed

lemma sample_unsigned_simps:
  "sr_schema (sample_unsigned a) = ''bloom.sign-request/1''" "sr_attempt_id (sample_unsigned a) = a"
  "sr_operation_id (sample_unsigned a) = ''op''" "sr_audience (sample_unsigned a) = ''bloom-signer''"
  "sr_issuer_service_id (sample_unsigned a) = ''bloom-broker''" "sr_broker_key_id (sample_unsigned a) = ''bk''"
  "sr_approval_id (sample_unsigned a) = sample_approval" "sr_wallet_id (sample_unsigned a) = ''w''"
  "sr_key_ref (sample_unsigned a) = sample_key_ref" "sr_suite (sample_unsigned a) = Secp256k1Keccak256Recoverable"
  "sr_selector_kind (sample_unsigned a) = SelPetal" "sr_payload_digests (sample_unsigned a) = [''p'']"
  "sr_hashes (sample_unsigned a) = [''h'']" "sr_messages (sample_unsigned a) = []"
  "sr_signature_count (sample_unsigned a) = 1" "sr_petal_use_claim (sample_unsigned a) = Some ''c''"
  "sr_claim_assurance (sample_unsigned a) = Some ''a''" "sr_policy_version (sample_unsigned a) = 1"
  "sr_policy_digest (sample_unsigned a) = ''pd''" "sr_issued_at_ms (sample_unsigned a) = 90"
  "sr_not_before_ms (sample_unsigned a) = 90" "sr_expires_at_ms (sample_unsigned a) = 200"
  by (simp_all add: sample_unsigned_def sample_attempt_def Let_def)

lemma sample_shape: "validate_shape sample_prims (sample_request a) = Inr ()"
proof -
  have "sr_operation_digest (sample_unsigned a) = identity_digest sample_prims (operation_identity (sample_unsigned a))"
    by (simp add: sample_unsigned_def operation_identity_def Let_def)
  moreover have "computed_attempt_digest sample_prims (u\<lparr>sr_attempt_digest := d\<rparr>) = computed_attempt_digest sample_prims u" for u d
    using attempt_fields_eq [of "u\<lparr>sr_attempt_digest := d\<rparr>" u]
    by (simp add: computed_attempt_digest_def attempt_preimage_def)
  then have "sr_attempt_digest (sample_unsigned a) = computed_attempt_digest sample_prims (sample_unsigned a)"
    by (simp add: sample_unsigned_def Let_def)
  ultimately show ?thesis
    by (simp add: validate_shape_ok sample_request_def sample_unsigned_simps messages_are_bound_def
        saturating_sub_def)
qed

lemma sample_broker_signature:
  "en_broker_key_id st = ''bk'' \<Longrightarrow> en_broker_key st = [7]
   \<Longrightarrow> verify_broker_signature sample_prims st (sample_request a) = Inr ()"
  using sample_signs_well [of "[7]"]
  by (simp add: verify_broker_signature_def sample_request_def sample_unsigned_simps Let_def signs_well_def
      del: length_greater_0_conv) (simp add: sample_prims_def)

text \<open>The checks look at the approval, the wallet, the enrolment and the attempts only.\<close>

lemma sample_checks_at:
  assumes "find_approval st sample_approval = Some row" "ap_active row" "ap_terms row = Some sample_terms"
    "wallet_epoch st ''w'' = Inr 0" "en_enrolled st = en_enrolled armed_signer" "en_backends st = sample_backends"
    "a \<notin> at_id ` set (en_attempts st)"
  shows "check_approval sample_prims (sample_request a) 100 st = Inr sample_terms"
proof -
  have en: "en_enrolled st = [\<lparr>ek_fingerprint = ''fp'', ek_key_ref_jcs = p_jcs sample_prims (key_ref_json sample_key_ref),
        ek_available = True, ek_authority = ''wallet''\<rparr>]"
    using assms(5) by (simp add: sample_defs)
  have "require_key_available sample_prims st sample_key_ref = Inr ()"
    by (simp add: require_key_available_def en assms(6) sample_backends_def key_is_available_def local_key_is_available_def
        local_key_is_registered_def Let_def) (simp add: sample_key_ref_def)
  moreover have "validate_petal_key_approval st sample_terms 100 = Inr ()"
    by (simp add: validate_petal_key_approval_def en sample_terms_def sample_key_ref_def)
  moreover have "validate_against_approval (sample_request a) sample_terms 100 = Inr ()"
    by (simp add: validate_against_approval_def sample_request_def sample_unsigned_simps sample_terms_def
        selector_matches_def)
  moreover have "at_key_ref sample_terms = sample_key_ref" "at_wallet_id sample_terms = ''w''" "at_revocation_epoch sample_terms = 0"
    by (simp_all add: sample_terms_def)
  moreover have "sr_approval_id (req_unsigned (sample_request a)) = sample_approval"
    "sr_attempt_id (req_unsigned (sample_request a)) = a"
    by (simp_all add: sample_request_def sample_unsigned_simps)
  moreover have "\<not> list_ex (\<lambda>q. at_id q = a) (en_attempts st)" using assms(7) by (auto simp: list_ex_iff)
  ultimately show ?thesis using assms by (simp add: check_approval_def Let_def)
qed

lemma sample_checks: "check_approval sample_prims (sample_request a) 100 armed_signer = Inr sample_terms"
  by (rule sample_checks_at [of _ sample_approval_row]) (simp_all add: sample_defs find_approval_def wallet_epoch_def)

lemma transact_ready:
  "\<not> aud_degraded (en_audit st) \<Longrightarrow> journal_verified P (en_audit st) \<Longrightarrow> body st = Inr (st', x)
   \<Longrightarrow> transact P body st = (st', Inr x)"
  by (simp add: transact_def mutation_transaction_def)

lemma append_audit_same:
  assumes "engine_inv P st" "journal_room st" "en_audit st1 = en_audit st"
  shows "\<exists>st'. append_audit P event payload st1 = Inr st'"
  using assms by (intro append_audit_ok) (simp_all add: engine_inv_def keys_good_def journal_room_def)

lemma reserve_operation_audit: "reserve_operation P r t clock st = Inr st' \<Longrightarrow> en_audit st' = en_audit st"
  by (auto simp: reserve_operation_def result_simps Let_def insert_operation_def insert_anchor_def split: if_splits)

lemma reserve_operation_fresh:
  assumes inv: "core_inv P st" and lim: "reserve_parser_free_limits st r t (cd_now clock) = Inr nm"
    and new: "find_operation st (sr_operation_id (req_unsigned r)) = None"
  shows "\<exists>st'. reserve_operation P r t clock st = Inr st' \<and> en_attempts st' = en_attempts st"
proof -
  from new have ops: "\<not> list_ex (\<lambda>q. op_id q = sr_operation_id (req_unsigned r)) (en_operations st)"
    by (auto simp: find_operation_def find_None_iff list_ex_iff)
  have "an_operation ` set (en_anchors st) = op_id ` set (en_operations st)"
    using inv unfolding core_inv_def by (metis set_map)
  with ops have "\<not> list_ex (\<lambda>q. an_operation q = sr_operation_id (req_unsigned r)) (en_anchors st)"
    by (force simp: list_ex_iff image_iff)
  with ops lim show ?thesis
    by (simp add: reserve_operation_def insert_operation_def insert_anchor_def Let_def split: prod.split)
qed

text \<open>A request that passes the checks and the limits is authorised.\<close>

lemma authorize_new:
  assumes inv: "engine_inv P st" and live: "\<not> aud_degraded (en_audit st)" "journal_room st"
    and shape: "validate_shape P r = Inr ()" "verify_broker_signature P st r = Inr ()"
    and time: "sr_not_before_ms (req_unsigned r) \<le> cd_now clock" "cd_now clock < sr_expires_at_ms (req_unsigned r)"
    and chk: "check_approval P r (cd_now clock) st = Inr t"
    and new: "find_operation st (sr_operation_id (req_unsigned r)) = None"
    and lim: "reserve_parser_free_limits st r t (cd_now clock) = Inr nm"
  shows "\<exists>st'. authorize_sign P r clock st = (st', Inr NewOperation)"
proof -
  from inv have core: "core_inv P st" and ver: "journal_verified P (en_audit st)" by (auto simp: engine_inv_def)
  from reserve_operation_fresh [OF core lim new] obtain st1 where
    st1: "reserve_operation P r t clock st = Inr st1" "en_attempts st1 = en_attempts st" by blast
  let ?row = "\<lparr>at_id = sr_attempt_id (req_unsigned r), at_digest = sr_attempt_digest (req_unsigned r),
                  at_operation = sr_operation_id (req_unsigned r)\<rparr>"
  let ?st2 = "st1\<lparr>en_attempts := en_attempts st1 @ [?row]\<rparr>"
  have att: "insert_attempt ?row st1 = Inr ?st2"
    using check_approval_InrD(2) [OF chk] by (force simp: insert_attempt_def list_ex_iff st1(2))
  obtain st' where "append_audit P ''sign.authorized'' (authorized_json r NewOperation) ?st2 = Inr st'"
    using append_audit_same [OF inv live(2), of ?st2] reserve_operation_audit [OF st1(1)] by auto
  then have "authorize_sign_tx P r clock st = Inr (st', NewOperation)"
    by (simp add: authorize_sign_tx_def Let_def chk new st1 att)
  then have "transact P (authorize_sign_tx P r clock) st = (st', Inr NewOperation)"
    by (rule transact_ready [OF live(1) ver])
  then show ?thesis using shape time by (simp add: authorize_sign_def Let_def not_less not_le)
qed

lemma sample_limits:
  "reserve_parser_free_limits armed_signer (sample_request a) sample_terms 100 = Inr (1, 1)"
proof -
  have "find_approval armed_signer sample_approval = Some sample_approval_row"
    by (simp add: find_approval_def armed_signer_def sample_approval_row_def)
  moreover have "en_operations armed_signer = []" by (simp add: sample_defs)
  ultimately show ?thesis
    by (simp add: reserve_parser_free_limits_def sample_request_def sample_unsigned_simps Let_def sample_approval_row_def
        sample_terms_def checked_add_def check_operation_window_def check_signature_window_def window_start_def
        saturating_sub_def in_window_def)
qed

lemma armed_ready: "\<not> aud_degraded (en_audit armed_signer)" "journal_room armed_signer"
    "journal_verified sample_prims (en_audit armed_signer)" "en_operations armed_signer = []"
    "en_broker_key_id armed_signer = ''bk''" "en_broker_key armed_signer = [7]"
  using armed_signer_inv by (simp_all add: engine_inv_def) (simp_all add: sample_defs journal_room_def)

lemma sample_authorized:
  "\<exists>st. authorize_sign sample_prims (sample_request a) sample_clock armed_signer = (st, Inr NewOperation)"
proof (rule authorize_new [OF armed_signer_inv armed_ready(1,2) sample_shape])
  show "verify_broker_signature sample_prims armed_signer (sample_request a) = Inr ()"
    by (rule sample_broker_signature) (simp_all add: armed_ready)
  show "check_approval sample_prims (sample_request a) (cd_now sample_clock) armed_signer = Inr sample_terms"
    using sample_checks by (simp add: sample_clock_def)
  show "reserve_parser_free_limits armed_signer (sample_request a) sample_terms (cd_now sample_clock) = Inr (1, 1)"
    using sample_limits by (simp add: sample_clock_def)
qed (simp_all add: find_operation_def armed_ready sample_request_def sample_unsigned_simps sample_clock_def)

subsection \<open>Operations that succeed\<close>

lemma operation_hit_once:
  assumes inv: "core_inv P st" and row: "find_operation st i = Some row" "Q row"
  shows "length (filter (\<lambda>r. op_id r = i \<and> Q r) (en_operations st)) = 1"
proof -
  have "distinct (map op_id (en_operations st))" using inv by (simp add: core_inv_def)
  from find_split [OF this row(1) [unfolded find_operation_def]] obtain xs ys where
    xs: "en_operations st = xs @ row # ys" "op_id row = i" "\<forall>x\<in>set xs \<union> set ys. op_id x \<noteq> i" by blast
  then have "filter (\<lambda>r. op_id r = i \<and> Q r) xs = []" "filter (\<lambda>r. op_id r = i \<and> Q r) ys = []"
    by (auto simp: filter_empty_conv)
  with xs row(2) show ?thesis by simp
qed

lemma mark_succeeds:
  assumes inv: "engine_inv P st" and live: "\<not> aud_degraded (en_audit st)" "journal_room st"
    and row: "find_operation st i = Some row" "op_state row = Reserved"
  shows "\<exists>st'. mark_operation_dispatched P i k ids st = (st', Inr ())"
proof -
  let ?hit = "\<lambda>r. op_id r = i \<and> op_state r = Reserved"
  let ?st1 = "st\<lparr>en_operations := update_rows ?hit (\<lambda>r. r\<lparr>op_state := Dispatched\<rparr>) (en_operations st)\<rparr>"
  from inv have core: "core_inv P st" and ver: "journal_verified P (en_audit st)" by (auto simp: engine_inv_def)
  have one: "length (filter ?hit (en_operations st)) = 1" by (rule operation_hit_once [OF core row(1)]) (rule row(2))
  obtain st' where st': "append_audit P ''backend.dispatched''
       (JObj [(''operation_id'', JStr i), (''key_ref'', key_ref_json k),
              (''provider_attempt_ids'', JArr (map JStr ids))]) ?st1 = Inr st'"
    using append_audit_same [OF inv live(2), of ?st1] by auto
  have "mark_operation_dispatched_tx P i k ids st = Inr (st', ())"
    unfolding mark_operation_dispatched_tx_def Let_def one st' by simp
  then have "transact P (mark_operation_dispatched_tx P i k ids) st = (st', Inr ())"
    by (rule transact_ready [OF live(1) ver])
  then show ?thesis unfolding mark_operation_dispatched_def by blast
qed

lemma commit_succeeds:
  assumes inv: "engine_inv P st" and live: "\<not> aud_degraded (en_audit st)" "journal_room st" and bs: "bs \<noteq> []"
    and row: "find_operation st i = Some row" "op_state row = Reserved \<or> op_state row = Dispatched"
  shows "\<exists>st'. commit_operation_result P i bs st = (st', Inr ())"
proof -
  let ?Q = "\<lambda>r. op_state r = Reserved \<or> op_state r = Dispatched"
  let ?hit = "\<lambda>r. op_id r = i \<and> ?Q r"
  let ?st1 = "st\<lparr>en_operations := update_rows ?hit
      (\<lambda>r. r\<lparr>op_state := Committed, op_result := Some bs\<rparr>) (en_operations st)\<rparr>"
  from inv have core: "core_inv P st" and ver: "journal_verified P (en_audit st)" by (auto simp: engine_inv_def)
  have one: "length (filter ?hit (en_operations st)) = 1" by (rule operation_hit_once [OF core row(1)]) (rule row(2))
  obtain st' where st': "append_audit P ''sign.result''
       (JObj [(''operation_id'', JStr i), (''normalized_result'', JBytes bs)]) ?st1 = Inr st'"
    using append_audit_same [OF inv live(2), of ?st1] by auto
  have "commit_operation_result_tx P i bs st = Inr (st', ())"
    unfolding commit_operation_result_tx_def Let_def one st' by simp
  then have "transact P (commit_operation_result_tx P i bs) st = (st', Inr ())"
    by (rule transact_ready [OF live(1) ver])
  then show ?thesis using bs unfolding commit_operation_result_def by auto
qed

definition sample_operation :: operation_row where
  "sample_operation = \<lparr>op_id = ''op'', op_digest = sr_operation_digest (sample_unsigned ''a1''),
     op_retry_binding = retry_binding_digest sample_prims (sample_unsigned ''a1''),
     op_approval = sample_approval, op_signature_count = Some 1, op_accepted = 100,
     op_state = Reserved, op_result = None\<rparr>"

definition reserved_signer :: engine where
  "reserved_signer = armed_signer\<lparr>
     en_approvals := [sample_approval_row\<lparr>ap_operations := Some 1, ap_signatures := Some 1\<rparr>],
     en_operations := [sample_operation],
     en_anchors := [\<lparr>an_operation = ''op'', an_observed = Some 100, an_monotonic = 5, an_boot_epoch = ''b''\<rparr>],
     en_attempts := [\<lparr>at_id = ''a1'', at_digest = sr_attempt_digest (sample_unsigned ''a1''), at_operation = ''op''\<rparr>]\<rparr>"

lemma reserved_signer_inv: "engine_inv sample_prims reserved_signer"
proof -
  have "approval_ok sample_prims [sample_operation] (sample_approval_row\<lparr>ap_operations := Some 1, ap_signatures := Some 1\<rparr>)"
    using sample_approval_id
    by (simp add: approval_ok_def sample_approval_row_def sample_operation_def counted_def) (simp add: sample_terms_def)
  then show ?thesis
    using armed_signer_inv
    by (simp add: engine_inv_def core_inv_def keys_good_def reserved_signer_def)
      (simp add: armed_signer_def fresh_signer_def operation_ok_def sample_operation_def sample_approval_row_def)
qed

lemma reserved_ready: "\<not> aud_degraded (en_audit reserved_signer)" "journal_room reserved_signer"
    "find_operation reserved_signer ''op'' = Some sample_operation" "op_state sample_operation = Reserved"
    "find_approval reserved_signer sample_approval
       = Some (sample_approval_row\<lparr>ap_operations := Some 1, ap_signatures := Some 1\<rparr>)"
  using armed_ready(1,2)
  by (simp_all add: reserved_signer_def journal_room_def find_operation_def find_approval_def sample_operation_def
      sample_approval_row_def)

end
