(* ===== verification/Engine_Properties.thy ===== *)
theory Engine_Properties
  imports Engine_Sample
begin

text \<open>
  The properties of the engine over whole runs: accounting and limits, replay, dispatch at most
  once, revocation, retries, sliding windows and the audit latch. Each is stated at the
  states of a run of \<open>engine_step\<close> and rests on the invariant and the growth relation.
\<close>

lemma authorize_sign_InrD:
  assumes "authorize_sign P r clock st = (st', Inr auth)"
  shows "validate_shape P r = Inr ()" "verify_broker_signature P st r = Inr ()"
    "sr_not_before_ms (req_unsigned r) \<le> cd_now clock" "cd_now clock < sr_expires_at_ms (req_unsigned r)"
    "authorize_sign_tx P r clock st = Inr (st', auth)"
  using authorize_sign_cases [OF assms] transact_InrD(3) by auto

lemma authorize_sign_checks:
  assumes "authorize_sign P r clock st = (st', Inr auth)"
  shows "\<exists>t. check_approval P r (cd_now clock) st = Inr t"
    "sr_attempt_id (req_unsigned r) \<notin> at_id ` set (en_attempts st)"
  using authorize_sign_tx_InrD [OF authorize_sign_InrD(5) [OF assms]] check_approval_InrD(2) by blast+

lemma append_audit_tables:
  assumes "append_audit P event payload st = Inr st'"
  shows "en_attempts st' = en_attempts st" "en_operations st' = en_operations st"
    "en_approvals st' = en_approvals st" "en_wallets st' = en_wallets st"
    "en_revocations st' = en_revocations st" "en_tombstones st' = en_tombstones st"
  using append_audit_InrD(1) [OF assms] by auto

lemma append_audit_live:
  "append_audit P event payload st = Inr st' \<Longrightarrow> aud_degraded (en_audit st') = aud_degraded (en_audit st)"
  using append_audit_InrD(1) [of P event payload st st'] by auto

lemma run_attempts: "core_grows st st' \<Longrightarrow> q \<in> set (en_attempts st) \<Longrightarrow> q \<in> set (en_attempts st')"
  by (auto simp: core_grows_def)

lemma run_operation:
  assumes "core_grows st st'" "engine_inv P st'" "find_operation st i = Some row"
  shows "\<exists>row'. find_operation st' i = Some row' \<and> operation_le row row'"
proof -
  note f = find_operation_SomeD [OF assms(3)]
  with assms(1) obtain row' where r: "row' \<in> set (en_operations st')" "operation_le row row'"
    unfolding core_grows_def covers_def by blast
  with unique_operation [of P st' row'] assms(2) f show ?thesis
    by (auto simp: engine_inv_def operation_le_def)
qed

lemma run_approval:
  assumes "core_grows st st'" "engine_inv P st'" "find_approval st x = Some a"
  shows "\<exists>b. find_approval st' x = Some b \<and> approval_le a b"
proof -
  note f = find_approval_SomeD [OF assms(3)]
  with assms(1) obtain b where r: "b \<in> set (en_approvals st')" "approval_le a b"
    unfolding core_grows_def covers_def by blast
  with unique_approval [of P st' b] assms(2) f show ?thesis
    by (auto simp: engine_inv_def approval_le_def)
qed

lemma run_inv_grows:
  assumes "engine_inv P st" "(engine_step P)\<^sup>*\<^sup>* st st'"
  shows "engine_inv P st'" "core_grows st st'"
  using engine_run.run_inv [OF assms(2,1)] engine_run.run_grows [OF assms(2,1)] .

text \<open>A Signer with empty tables and an empty journal satisfies the invariant the runs start from.\<close>

definition new_signer :: "prims \<Rightarrow> engine \<Rightarrow> bool" where
  "new_signer P st =
     (en_approvals st = [] \<and> en_operations st = [] \<and> en_anchors st = [] \<and> en_attempts st = []
      \<and> en_wallets st = [] \<and> en_tombstones st = [] \<and> keys_good P st
      \<and> aud_db (en_audit st) = \<lparr>ad_entries = [], ad_rotations = []\<rparr>)"

lemma new_signer_inv: "new_signer P st \<Longrightarrow> engine_inv P st"
  by (simp add: new_signer_def engine_inv_def core_inv_def journal_verified_def empty_chain_verified)

lemma counted_fun: "counted x = (\<lambda>r. op_approval r = x \<and> op_state r \<noteq> Released)"
  by (simp add: counted_def fun_eq_iff)

text \<open>C4: in every state a run reaches from a state of the invariant (a Signer with empty tables is
  one, \<open>new_signer_inv\<close>), the counters of an approval are the
  number of its operations that were not released and the number of signatures they reserved,
  and neither exceeds the approval's limits.\<close>

theorem approval_limits_hold:
  assumes start: "engine_inv P st0" and run: "(engine_step P)\<^sup>*\<^sup>* st0 st"
    and row: "a \<in> set (en_approvals st)"
  shows "\<exists>t n m. ap_terms a = Some t \<and> ap_operations a = Some n \<and> ap_signatures a = Some m
     \<and> approval_id_of P t = Inr (ap_id a)
     \<and> unat n = length (filter (\<lambda>r. op_approval r = ap_id a \<and> op_state r \<noteq> Released) (en_operations st))
     \<and> unat m = sum_list (map (\<lambda>r. unat (the (op_signature_count r)))
                  (filter (\<lambda>r. op_approval r = ap_id a \<and> op_state r \<noteq> Released) (en_operations st)))
     \<and> n \<le> max_operations (at_limits t) \<and> m \<le> max_signatures (at_limits t)"
proof -
  have "approval_ok P (en_operations st) a"
    using run_inv_grows(1) [OF start run] row inv_approvalD by (auto simp: engine_inv_def)
  then show ?thesis
    by (auto simp: approval_ok_def used_operations_def used_signatures_def counted_fun split: option.splits)
qed

theorem approval_limits_hold_witness:
  "\<exists>st. authorize_sign sample_prims (sample_request ''a1'') sample_clock armed_signer = (st, Inr NewOperation)
     \<and> (\<forall>a\<in>set (en_approvals st). \<exists>n t. ap_operations a = Some n \<and> ap_terms a = Some t
          \<and> n \<le> max_operations (at_limits t)
          \<and> unat n = length (filter (\<lambda>r. op_approval r = ap_id a \<and> op_state r \<noteq> Released) (en_operations st)))"
proof -
  obtain st where st: "authorize_sign sample_prims (sample_request ''a1'') sample_clock armed_signer = (st, Inr NewOperation)"
    using sample_authorized by blast
  then have "(engine_step sample_prims)\<^sup>*\<^sup>* armed_signer st" by (blast intro: engine_step.Authorize)
  from approval_limits_hold [OF armed_signer_inv this] st show ?thesis by blast
qed

text \<open>C8: nothing a run does is undone. Between any two states of a run the journal is extended
  only, a revoked approval stays revoked and keeps its terms, attempts and tombstones stay, operations
  only advance and a committed result never changes, revocation epochs never decrease, and the
  audit latch is never released; at its end the accounting holds and the journal verifies.\<close>

theorem engine_run_monotone:
  assumes "engine_inv P st" "(engine_step P)\<^sup>*\<^sup>* st st'"
  shows "core_grows st st' \<and> engine_inv P st'"
  using run_inv_grows [OF assms] by blast

theorem engine_run_monotone_witness:
  "\<exists>st. authorize_sign sample_prims (sample_request ''a1'') sample_clock armed_signer = (st, Inr NewOperation)
     \<and> core_grows armed_signer st \<and> engine_inv sample_prims st"
proof -
  obtain st where st: "authorize_sign sample_prims (sample_request ''a1'') sample_clock armed_signer = (st, Inr NewOperation)"
    using sample_authorized by blast
  then have "(engine_step sample_prims)\<^sup>*\<^sup>* armed_signer st" by (blast intro: engine_step.Authorize)
  from engine_run_monotone [OF armed_signer_inv this] st show ?thesis by blast
qed

lemma authorize_records_attempt:
  assumes "authorize_sign P r clock st = (st', Inr auth)"
  shows "\<exists>q\<in>set (en_attempts st'). at_id q = sr_attempt_id (req_unsigned r)"
  using authorize_sign_tx_InrD [OF authorize_sign_InrD(5) [OF assms]]
  by (auto simp: insert_attempt_def append_audit_tables split: if_splits)

text \<open>C5: an attempt is authorised at most once. After any run from a successful authorisation no
  request with the same attempt id is authorised, whatever else it says.\<close>

theorem attempt_never_replayed:
  assumes inv: "engine_inv P st" and first: "authorize_sign P r clock st = (st1, Inr auth)"
    and run: "(engine_step P)\<^sup>*\<^sup>* st1 st2"
    and same: "sr_attempt_id (req_unsigned r') = sr_attempt_id (req_unsigned r)"
  shows "\<not> is_ok (snd (authorize_sign P r' clock' st2))"
proof
  assume "is_ok (snd (authorize_sign P r' clock' st2))"
  then obtain st3 auth' where again: "authorize_sign P r' clock' st2 = (st3, Inr auth')"
    by (metis is_ok_iff prod.collapse)
  have "engine_inv P st1" using engine_step_inv [OF inv engine_step.Authorize [OF first]] .
  from run_inv_grows(2) [OF this run] authorize_records_attempt [OF first] same
  have "\<exists>q\<in>set (en_attempts st2). at_id q = sr_attempt_id (req_unsigned r')" using run_attempts by metis
  with authorize_sign_checks(2) [OF again] show False by force
qed

theorem attempt_never_replayed_witness:
  "\<exists>st. authorize_sign sample_prims (sample_request ''a1'') sample_clock armed_signer = (st, Inr NewOperation)
     \<and> \<not> is_ok (snd (authorize_sign sample_prims (sample_request ''a1'') sample_clock st))"
proof -
  obtain st where st: "authorize_sign sample_prims (sample_request ''a1'') sample_clock armed_signer = (st, Inr NewOperation)"
    using sample_authorized by blast
  from attempt_never_replayed [OF armed_signer_inv st rtranclp.rtrancl_refl refl] st show ?thesis by blast
qed

lemma transact_engine_inv:
  assumes "engine_inv P st" "transact P body st = (st', Inr x)" "step_ok P st st'"
  shows "engine_inv P st'"
  using assms keys_good_grows [of st st' P] by (auto simp: engine_inv_def step_ok_def)

lemma mark_dispatched_row:
  assumes inv: "engine_inv P st" and run: "mark_operation_dispatched P i k ids st = (st1, Inr u)"
  shows "\<exists>row. find_operation st1 i = Some row \<and> op_state row = Dispatched"
    "\<exists>row. find_operation st i = Some row \<and> op_state row = Reserved"
proof -
  let ?hit = "\<lambda>r. op_id r = i \<and> op_state r = Reserved"
  from transact_InrD(3) [OF run [unfolded mark_operation_dispatched_def]] obtain pl where
    one: "length (filter ?hit (en_operations st)) = 1"
    and aud: "append_audit P ''backend.dispatched'' pl
       (st\<lparr>en_operations := update_rows ?hit (\<lambda>r. r\<lparr>op_state := Dispatched\<rparr>) (en_operations st)\<rparr>) = Inr st1"
    by (auto simp: mark_operation_dispatched_tx_def Let_def result_simps split: if_splits)
  have core: "core_inv P st" using inv by (simp add: engine_inv_def)
  from one_operation_hit [OF core one] obtain row where
    row: "find_operation st i = Some row" "op_state row = Reserved" by blast
  then show "\<exists>row. find_operation st i = Some row \<and> op_state row = Reserved" by blast
  have "find_operation st1 i = Some (row\<lparr>op_state := Dispatched\<rparr>)"
    using append_audit_tables(2) [OF aud] find_operation_SomeD [OF row(1)] row
    by (simp add: find_operation_def find_update_rows)
  then show "\<exists>row. find_operation st1 i = Some row \<and> op_state row = Dispatched" by simp
qed

lemma stored_result_of_row:
  assumes inv: "core_inv P st" and row: "find_operation st i = Some row" "op_state row = Committed"
  shows "stored_operation_result st i = op_result row" "op_result row \<noteq> None"
proof -
  have "row \<in> set (en_operations st)" "op_id row = i" using find_operation_SomeD [OF row(1)] by auto
  with inv_operationD [OF inv] row show "op_result row \<noteq> None" by (auto simp: operation_ok_def)
  have "find (\<lambda>r. op_id r = i \<and> op_state r = Committed) (en_operations st) = Some row"
  proof -
    obtain r where r: "find (\<lambda>r. op_id r = i \<and> op_state r = Committed) (en_operations st) = Some r"
      using \<open>row \<in> _\<close> \<open>op_id row = i\<close> row(2) by (fastforce simp: find_None_iff)
    then have "r \<in> set (en_operations st)" "op_id r = i" by (auto simp: find_Some_iff)
    with same_row [OF inv row(1)] r show ?thesis by auto
  qed
  then show "stored_operation_result st i = op_result row" by (simp add: stored_operation_result_def)
qed

lemma authorize_existing:
  assumes run: "authorize_sign P r clock st = (st', Inr auth)"
    and row: "find_operation st (sr_operation_id (req_unsigned r)) = Some row"
  shows "auth = SameOperationRetry" "retry_operation P r row = Inr ()"
  using authorize_sign_tx_InrD [OF authorize_sign_InrD(5) [OF run]] row by auto

lemma retry_operation_InrD:
  assumes "retry_operation P r row = Inr u"
  shows "op_state row = Reserved \<or> op_state row = Committed"
    "op_digest row = sr_operation_digest (req_unsigned r)" "op_approval row = sr_approval_id (req_unsigned r)"
    "op_retry_binding row = retry_binding_digest P (req_unsigned r)"
  using assms by (auto simp: retry_operation_def Let_def split: if_splits op_state.splits)

text \<open>An operation is dispatched to a backend at most once. After any run from its dispatch it is
  not dispatched again, and a request for it is authorised only when its result is stored, as a retry
  that returns that result.\<close>

theorem dispatched_at_most_once:
  assumes inv: "engine_inv P st" and first: "mark_operation_dispatched P i k ids st = (st1, Inr ())"
    and run: "(engine_step P)\<^sup>*\<^sup>* st1 st2"
  shows "\<not> is_ok (snd (mark_operation_dispatched P i k' ids' st2))
    \<and> (sr_operation_id (req_unsigned r) = i \<and> authorize_sign P r clock st2 = (st3, Inr auth)
        \<longrightarrow> auth = SameOperationRetry \<and> stored_operation_result st2 i \<noteq> None)"
proof -
  have inv1: "engine_inv P st1" using engine_step_inv [OF inv engine_step.Dispatch [OF first]] .
  note later = run_inv_grows [OF inv1 run]
  obtain row1 where "find_operation st1 i = Some row1" "op_state row1 = Dispatched"
    using mark_dispatched_row(1) [OF inv first] by blast
  then obtain row where row: "find_operation st2 i = Some row" "op_state row \<noteq> Reserved"
    using run_operation [OF later(2,1)] by (fastforce simp: operation_le_def state_le_def)
  have core: "core_inv P st2" using later by (simp add: engine_inv_def)
  have "\<not> is_ok (snd (mark_operation_dispatched P i k' ids' st2))"
    using mark_dispatched_row(2) [OF later(1)] row by (metis is_ok_iff option.inject prod.collapse)
  moreover have "auth = SameOperationRetry \<and> stored_operation_result st2 i \<noteq> None"
    if r: "sr_operation_id (req_unsigned r) = i" "authorize_sign P r clock st2 = (st3, Inr auth)"
  proof -
    have "op_state row = Committed"
      using retry_operation_InrD(1) authorize_existing(2) [OF r(2)] r(1) row by blast
    with authorize_existing(1) [OF r(2)] stored_result_of_row [OF core row(1)] r(1) row(1) show ?thesis by simp
  qed
  ultimately show ?thesis by blast
qed

theorem dispatched_at_most_once_witness:
  "\<exists>st. mark_operation_dispatched sample_prims ''op'' sample_key_ref [''x''] reserved_signer = (st, Inr ())
     \<and> \<not> is_ok (snd (mark_operation_dispatched sample_prims ''op'' sample_key_ref [''x''] st))"
proof -
  obtain st where st: "mark_operation_dispatched sample_prims ''op'' sample_key_ref [''x''] reserved_signer = (st, Inr ())"
    using mark_succeeds [OF reserved_signer_inv reserved_ready(1-4)] by blast
  from dispatched_at_most_once [OF reserved_signer_inv st rtranclp.rtrancl_refl] st show ?thesis by blast
qed

lemma commit_row:
  assumes inv: "engine_inv P st" and run: "commit_operation_result P i bs st = (st1, Inr u)"
  shows "\<exists>row. find_operation st1 i = Some row \<and> op_state row = Committed \<and> op_result row = Some bs"
proof -
  let ?Q = "\<lambda>r. op_state r = Reserved \<or> op_state r = Dispatched"
  let ?hit = "\<lambda>r. op_id r = i \<and> ?Q r"
  let ?f = "\<lambda>r. r\<lparr>op_state := Committed, op_result := Some bs\<rparr>"
  from run have "transact P (commit_operation_result_tx P i bs) st = (st1, Inr u)"
    by (simp add: commit_operation_result_def split: if_splits)
  from transact_InrD(3) [OF this] have one: "length (filter ?hit (en_operations st)) = 1"
    and aud: "append_audit P ''sign.result''
       (JObj [(''operation_id'', JStr i), (''normalized_result'', JBytes bs)])
       (st\<lparr>en_operations := update_rows ?hit ?f (en_operations st)\<rparr>) = Inr st1"
    by (auto simp: commit_operation_result_tx_def Let_def result_simps split: if_splits)
  have core: "core_inv P st" using inv by (simp add: engine_inv_def)
  from one_operation_hit [OF core one] obtain row where
    row: "find_operation st i = Some row" "?Q row" by blast
  have "find_operation st1 i = Some (?f row)"
    using append_audit_tables(2) [OF aud] find_operation_SomeD [OF row(1)] row
    by (simp add: find_operation_def find_update_rows)
  then show ?thesis by simp
qed

text \<open>A committed result is durable. After any run from its commit the operation reports success
  and the stored result is the one committed, so every retry returns the same bytes.\<close>

theorem committed_result_durable:
  assumes inv: "engine_inv P st" and commit: "commit_operation_result P i bs st = (st1, Inr ())"
    and run: "(engine_step P)\<^sup>*\<^sup>* st1 st2"
  shows "stored_operation_result st2 i = Some bs
    \<and> (decode bs = Some r \<longrightarrow> (\<exists>d. operation_status decode st2 i = Inr (d, PubSucceeded, Some r)))"
proof -
  have inv1: "engine_inv P st1" using engine_step_inv [OF inv engine_step.Commit [OF commit]] .
  note later = run_inv_grows [OF inv1 run]
  obtain row1 where "find_operation st1 i = Some row1" "op_state row1 = Committed" "op_result row1 = Some bs"
    using commit_row [OF inv commit] by blast
  then obtain row where row: "find_operation st2 i = Some row" "op_state row = Committed" "op_result row = Some bs"
    using run_operation [OF later(2,1)] by (fastforce simp: operation_le_def state_le_def)
  have "core_inv P st2" using later by (simp add: engine_inv_def)
  from stored_result_of_row(1) [OF this row(1,2)] row show ?thesis by (simp add: operation_status_def)
qed

theorem committed_result_durable_witness:
  "\<exists>st. commit_operation_result sample_prims ''op'' [1, 2] reserved_signer = (st, Inr ())
     \<and> stored_operation_result st ''op'' = Some [1, 2]
     \<and> (\<exists>d. operation_status Some st ''op'' = Inr (d, PubSucceeded, Some [1, 2]))"
proof -
  obtain st where st: "commit_operation_result sample_prims ''op'' [1, 2] reserved_signer = (st, Inr ())"
    using commit_succeeds [OF reserved_signer_inv reserved_ready(1,2) _ reserved_ready(3), of "[1, 2]"] reserved_ready(4)
    by auto
  from committed_result_durable [OF reserved_signer_inv st rtranclp.rtrancl_refl, of Some "[1, 2]"] st show ?thesis
    by auto
qed

subsection \<open>Revocation\<close>

lemma revoke_approval_InrD:
  assumes "revoke_approval P x reason i at st = (st1, Inr tb)"
  shows "revoke_approval_tx P x reason i at st = Inr (st1, tb)" "reason \<noteq> []" "length reason \<le> 256"
  using assms transact_InrD(3) by (auto simp: revoke_approval_def split: if_splits)

definition stored_revocation :: "engine \<Rightarrow> operation_id \<Rightarrow> digest32 \<Rightarrow> revocation_result \<Rightarrow> bool" where
  "stored_revocation st i d res =
     (\<exists>r. find (\<lambda>r. rr_operation r = i) (en_revocations st) = Some r \<and> rr_digest r = d \<and> rr_result r = res)"

lemma find_append:
  "find Q (xs @ ys) = (case find Q xs of None \<Rightarrow> find Q ys | Some x \<Rightarrow> Some x)"
  by (induction xs) auto

lemma store_revocation_stored:
  assumes "store_revocation_operation i w d res st = Inr st'" "append_audit P event payload st' = Inr st''"
  shows "stored_revocation st'' i d res"
proof -
  from assms(1) have new: "\<forall>r\<in>set (en_revocations st). rr_operation r \<noteq> i"
    and st': "en_revocations st' = en_revocations st @
      [\<lparr>rr_operation = i, rr_wallet = w, rr_digest = d, rr_result = res\<rparr>]"
    by (auto simp: store_revocation_operation_def list_ex_iff split: if_splits)
  then have "find (\<lambda>r. rr_operation r = i) (en_revocations st) = None" by (auto simp: find_None_iff)
  with st' append_audit_tables(5) [OF assms(2)] show ?thesis
    by (simp add: stored_revocation_def find_append)
qed

lemma stored_revocation_run:
  assumes "core_grows st st'" "stored_revocation st i d res"
  shows "stored_revocation st' i d res"
proof -
  from assms(1) obtain rs where "en_revocations st' = en_revocations st @ rs" by (auto simp: core_grows_def)
  with assms(2) show ?thesis by (auto simp: stored_revocation_def find_append)
qed

lemma load_stored:
  assumes "load_revocation_operation select st i d = Inr (Some a)"
    "\<And>r. select r = Some a \<Longrightarrow> r = mk"
  shows "stored_revocation st i d mk"
  using assms by (auto simp: load_revocation_operation_def stored_revocation_def result_simps split: option.splits if_splits)

lemma stored_load:
  assumes "stored_revocation st i d res" "select res = Some a"
  shows "load_revocation_operation select st i d = Inr (Some a)"
  using assms by (auto simp: load_revocation_operation_def stored_revocation_def)

lemma as_result_SomeD: "as_approval_result r = Some a \<Longrightarrow> r = ApprovalResult a"
    "as_wallet_result r = Some s \<Longrightarrow> r = WalletResult s"
  by (cases r; simp)+

lemma revoke_approval_stored:
  assumes run: "revoke_approval_tx P x reason i at st = Inr (st1, tb)"
  shows "stored_revocation st1 i (revocation_request_digest P (revocation_request_json x reason i at)) (ApprovalResult tb)"
proof -
  let ?d = "revocation_request_digest P (revocation_request_json x reason i at)"
  from run obtain stored where
    stored: "load_revocation_operation as_approval_result st i ?d = Inr stored"
    by (auto simp: revoke_approval_tx_def Let_def result_simps)
  show ?thesis
  proof (cases stored)
    case (Some a)
    with run stored have "st1 = st" "tb = a" by (simp_all add: revoke_approval_tx_def Let_def)
    with Some load_stored [OF stored [unfolded Some]] as_result_SomeD(1) show ?thesis by blast
  next
    case None
    with run stored obtain w st2 st3 ev pl where
      "store_revocation_operation i w ?d (ApprovalResult tb) st2 = Inr st3" "append_audit P ev pl st3 = Inr st1"
      by (auto simp: revoke_approval_tx_def Let_def result_simps split: option.splits)
    then show ?thesis by (rule store_revocation_stored)
  qed
qed

lemma revoke_approval_inactive:
  assumes inv: "core_inv P st" and first: "\<forall>q\<in>set (en_revocations st). rr_operation q \<noteq> i"
    and run: "revoke_approval_tx P x reason i at st = Inr (st1, tb)"
  shows "\<exists>b. find_approval st1 x = Some b \<and> \<not> ap_active b"
proof -
  let ?d = "revocation_request_digest P (revocation_request_json x reason i at)"
  have load: "load_revocation_operation as_approval_result st i ?d = Inr None"
    using first by (auto simp: load_revocation_operation_def find_None_iff find_Some_iff split: option.split)
  with run obtain row where row: "find_approval st x = Some row"
    by (auto simp: revoke_approval_tx_def Let_def result_simps)
  show ?thesis
  proof (cases "find (\<lambda>q. te_approval q = x) (en_tombstones st)")
    case (Some e)
    then have "tombstone_ok (en_approvals st) e" "te_approval e = x"
      using inv by (auto simp: core_inv_def list_all_iff find_Some_iff)
    then obtain b where b: "b \<in> set (en_approvals st)" "ap_id b = x" "\<not> ap_active b"
      by (auto simp: tombstone_ok_def list_ex_iff)
    from Some run load row obtain w res st2 pl where
      "store_revocation_operation i w ?d res st = Inr st2"
      "append_audit P ''approval.revocation_reconciled'' pl st2 = Inr st1"
      by (auto simp: revoke_approval_tx_def Let_def result_simps)
    then have "en_approvals st1 = en_approvals st"
      by (auto simp: append_audit_tables store_revocation_operation_def split: if_splits)
    with unique_approval [OF inv b(1)] b show ?thesis by (auto simp: find_approval_def)
  next
    case None
    let ?e = "\<lambda>tb. \<lparr>te_approval = x, te_wallet = ap_wallet row, te_tombstone = Some tb\<rparr>"
    from None run load row obtain res st2 pl where
      "store_revocation_operation i (ap_wallet row) ?d res (insert_or_ignore_approval_tombstone
         (?e tb) (deactivate (\<lambda>a. ap_id a = x) st)) = Inr st2"
      "append_audit P ''approval.revoked'' pl st2 = Inr st1"
      by (auto simp: revoke_approval_tx_def Let_def result_simps)
    then have "en_approvals st1 = en_approvals (deactivate (\<lambda>a. ap_id a = x) st)"
      by (auto simp: append_audit_tables store_revocation_operation_def insert_or_ignore_approval_tombstone_def
          split: if_splits)
    with row find_approval_SomeD [OF row] show ?thesis
      by (simp add: find_approval_def deactivate_def find_update_rows)
  qed
qed

lemma authorize_active:
  assumes "authorize_sign P r clock st = (st', Inr auth)"
  shows "\<exists>a t. find_approval st (sr_approval_id (req_unsigned r)) = Some a \<and> ap_active a \<and> ap_terms a = Some t
    \<and> require_key_available P st (at_key_ref t) = Inr () \<and> validate_petal_key_approval st t (cd_now clock) = Inr ()
    \<and> validate_against_approval r t (cd_now clock) = Inr ()
    \<and> wallet_epoch st (at_wallet_id t) = Inr (at_revocation_epoch t)"
  using authorize_sign_checks(1) [OF assms] check_approval_InrD(1) by blast

lemma persist_fresh:
  assumes "persist_approval P t receipt st = (st', Inr x)"
  shows "approval_id_of P t = Inr x" "x \<notin> ap_id ` set (en_approvals st)"
proof -
  from assms obtain y where y: "approval_id_of P t = Inr y"
    "transact P (persist_approval_tx P t y receipt) st = (st', Inr x)"
    by (auto simp: persist_approval_def split: sum.splits if_splits)
  from transact_InrD(3) [OF y(2)] obtain st1 st2 where s: "reconcile_epoch t st = Inr st1" "x = y"
    "insert_approval \<lparr>ap_id = y, ap_wallet = at_wallet_id t, ap_terms = Some t, ap_active = True,
                 ap_operations = Some 0, ap_signatures = Some 0\<rparr> st1 = Inr st2"
    unfolding persist_approval_tx_def by (clarsimp simp: result_simps split: if_splits)
  have "en_approvals st1 = en_approvals st"
    using s(1) by (auto simp: reconcile_epoch_def split: option.splits if_splits)
  with s show "x \<notin> ap_id ` set (en_approvals st)"
    by (auto simp: insert_approval_def list_ex_iff split: if_splits)
  show "approval_id_of P t = Inr x" using y s by simp
qed

text \<open>C6: a revoked approval is dead for ever. After any run from a successful revocation under a new
  operation id, no request under that approval is authorised, and terms with its identifier
  cannot be armed again.\<close>

theorem revoked_approval_dead:
  assumes inv: "engine_inv P st" and first: "\<forall>q\<in>set (en_revocations st). rr_operation q \<noteq> i"
    and revoke: "revoke_approval P x reason i at st = (st1, Inr tb)"
    and run: "(engine_step P)\<^sup>*\<^sup>* st1 st2"
  shows "(sr_approval_id (req_unsigned r) = x \<longrightarrow> \<not> is_ok (snd (authorize_sign P r clock st2)))
    \<and> (approval_id_of P t = Inr x \<longrightarrow> \<not> is_ok (snd (persist_approval P t receipt st2)))"
proof -
  have inv1: "engine_inv P st1" using engine_step_inv [OF inv engine_step.Revoke [OF revoke]] .
  note later = run_inv_grows [OF inv1 run]
  have "core_inv P st" using inv by (simp add: engine_inv_def)
  from revoke_approval_inactive [OF this first revoke_approval_InrD(1) [OF revoke]] obtain b1 where
    "find_approval st1 x = Some b1" "\<not> ap_active b1" by blast
  then obtain b where b: "find_approval st2 x = Some b" "\<not> ap_active b"
    using run_approval [OF later(2,1)] by (fastforce simp: approval_le_def)
  have "\<not> is_ok (snd (authorize_sign P r clock st2))" if "sr_approval_id (req_unsigned r) = x"
    using authorize_active [of P r clock st2] b that by (metis is_ok_iff option.inject prod.collapse)
  moreover have "\<not> is_ok (snd (persist_approval P t receipt st2))" if "approval_id_of P t = Inr x"
    using persist_fresh [of P t receipt st2] find_approval_SomeD [OF b(1)] that
    by (metis imageI is_ok_iff prod.collapse sum.inject(2))
  ultimately show ?thesis by blast
qed

lemma revoke_approval_succeeds:
  assumes inv: "engine_inv P st" and live: "\<not> aud_degraded (en_audit st)" "journal_room st"
    and reason: "reason \<noteq> []" "length reason \<le> 256"
    and first: "\<forall>q\<in>set (en_revocations st). rr_operation q \<noteq> i" and row: "find_approval st x = Some row"
    and fresh: "find (\<lambda>q. te_approval q = x) (en_tombstones st) = None" and ep: "wallet_epoch st (ap_wallet row) = Inr e"
  shows "\<exists>st1 tb. revoke_approval P x reason i at st = (st1, Inr tb) \<and> \<not> aud_degraded (en_audit st1)"
proof -
  let ?d = "revocation_request_digest P (revocation_request_json x reason i at)"
  let ?t = "new_tombstone P st x (ap_wallet row) e reason i at"
  let ?st2 = "insert_or_ignore_approval_tombstone
        \<lparr>te_approval = x, te_wallet = ap_wallet row, te_tombstone = Some ?t\<rparr> (deactivate (\<lambda>a. ap_id a = x) st)"
  have same: "en_revocations ?st2 = en_revocations st" "en_audit ?st2 = en_audit st"
    by (simp_all add: insert_or_ignore_approval_tombstone_def deactivate_def)
  have load: "load_revocation_operation as_approval_result st i ?d = Inr None"
    using first by (auto simp: load_revocation_operation_def find_None_iff find_Some_iff split: option.split)
  have "\<not> list_ex (\<lambda>r. rr_operation r = i) (en_revocations ?st2)"
    using first by (simp add: same list_ex_iff)
  then obtain st3 where st3: "store_revocation_operation i (ap_wallet row) ?d (ApprovalResult ?t) ?st2 = Inr st3"
    "en_audit st3 = en_audit st"
    using same by (auto simp: store_revocation_operation_def)
  obtain st4 where st4: "append_audit P ''approval.revoked''
      (revocation_event_json (tb_operation ?t) (tb_approval ?t) (tb_wallet ?t) ?t) st3 = Inr st4"
    using append_audit_same [OF inv live(2) st3(2)] by blast
  then have "revoke_approval_tx P x reason i at st = Inr (st4, ?t)"
    by (simp add: revoke_approval_tx_def Let_def load row fresh ep st3)
  then have "transact P (revoke_approval_tx P x reason i at) st = (st4, Inr ?t)"
    using inv by (intro transact_ready [OF live(1)]) (simp_all add: engine_inv_def)
  then show ?thesis using reason append_audit_live [OF st4] live(1) st3(2) by (auto simp: revoke_approval_def)
qed

lemma sample_revoked:
  "\<exists>st tb. revoke_approval sample_prims sample_approval ''lost'' ''rv'' 150 armed_signer = (st, Inr tb)
     \<and> \<not> aud_degraded (en_audit st)"
  by (rule revoke_approval_succeeds [OF armed_signer_inv armed_ready(1,2)])
    (simp_all add: sample_defs find_approval_def wallet_epoch_def)

theorem revoked_approval_dead_witness:
  "\<exists>st tb. revoke_approval sample_prims sample_approval ''lost'' ''rv'' 150 armed_signer = (st, Inr tb)
     \<and> \<not> is_ok (snd (authorize_sign sample_prims (sample_request ''a1'') sample_clock st))
     \<and> \<not> is_ok (snd (persist_approval sample_prims sample_terms None st))"
proof -
  obtain st tb where st: "revoke_approval sample_prims sample_approval ''lost'' ''rv'' 150 armed_signer = (st, Inr tb)"
    using sample_revoked by blast
  have "en_revocations armed_signer = []" by (simp add: sample_defs)
  with revoked_approval_dead [OF armed_signer_inv _ st rtranclp.rtrancl_refl, of "sample_request ''a1''"
      sample_clock sample_terms None] sample_approval_id st
  show ?thesis by (auto simp: sample_request_def sample_unsigned_simps)
qed

text \<open>Revoking is idempotent. Repeating a revocation with the same arguments at any later time
  returns the tombstone that was signed first and changes nothing.\<close>

theorem revocation_retry_same:
  assumes inv: "engine_inv P st" and revoke: "revoke_approval P x reason i at st = (st1, Inr tb)"
    and run: "(engine_step P)\<^sup>*\<^sup>* st1 st2" and live: "\<not> aud_degraded (en_audit st2)"
  shows "revoke_approval P x reason i at st2 = (st2, Inr tb)"
proof -
  have inv1: "engine_inv P st1" using engine_step_inv [OF inv engine_step.Revoke [OF revoke]] .
  note later = run_inv_grows [OF inv1 run]
  note d = revoke_approval_InrD [OF revoke]
  have "load_revocation_operation as_approval_result st2 i
      (revocation_request_digest P (revocation_request_json x reason i at)) = Inr (Some tb)"
    by (rule stored_load [OF stored_revocation_run [OF later(2) revoke_approval_stored [OF d(1)]]]) simp
  then have "revoke_approval_tx P x reason i at st2 = Inr (st2, tb)"
    by (simp add: revoke_approval_tx_def Let_def)
  then have "transact P (revoke_approval_tx P x reason i at) st2 = (st2, Inr tb)"
    using later live by (intro transact_ready) (simp_all add: engine_inv_def)
  with d show ?thesis by (simp add: revoke_approval_def)
qed

theorem revocation_retry_same_witness:
  "\<exists>st tb. revoke_approval sample_prims sample_approval ''lost'' ''rv'' 150 armed_signer = (st, Inr tb)
     \<and> revoke_approval sample_prims sample_approval ''lost'' ''rv'' 150 st = (st, Inr tb)"
proof -
  obtain st tb where st: "revoke_approval sample_prims sample_approval ''lost'' ''rv'' 150 armed_signer = (st, Inr tb)"
    "\<not> aud_degraded (en_audit st)"
    using sample_revoked by blast
  from revocation_retry_same [OF armed_signer_inv st(1) rtranclp.rtrancl_refl st(2)] st(1) show ?thesis by blast
qed

subsection \<open>Revoking a wallet\<close>

lemma set_wallet_epoch_epoch: "wallet_epoch (set_wallet_epoch w e st) w = Inr e"
proof (cases "find (\<lambda>v. ws_wallet v = w) (en_wallets st)")
  case None
  then have "\<not> list_ex (\<lambda>v. ws_wallet v = w) (en_wallets st)" by (auto simp: list_ex_iff find_None_iff)
  with None show ?thesis by (simp add: wallet_epoch_def set_wallet_epoch_def find_append)
next
  case (Some v)
  then have "list_ex (\<lambda>v. ws_wallet v = w) (en_wallets st)" "ws_wallet v = w" by (auto simp: list_ex_iff find_Some_iff)
  with Some show ?thesis by (simp add: wallet_epoch_def set_wallet_epoch_def find_update_rows)
qed

lemma revoke_all_effect:
  assumes first: "\<forall>q\<in>set (en_revocations st). rr_operation q \<noteq> i" and e: "wallet_epoch st w = Inr e"
    and run: "revoke_all_tx P w i at st = Inr (st1, s)"
  shows "wallet_epoch st1 w = Inr (rs_epoch s)" "unat (rs_epoch s) = unat e + 1"
    "en_approvals st1 = update_rows (\<lambda>a. ap_wallet a = w) (\<lambda>a. a\<lparr>ap_active := False\<rparr>) (en_approvals st)"
proof -
  let ?d = "revocation_request_digest P (revoke_all_request_json w i at)"
  have load: "load_revocation_operation as_wallet_result st i ?d = Inr None"
    using first by (auto simp: load_revocation_operation_def find_None_iff find_Some_iff split: option.split)
  with run e obtain e' tb tombs st4 pl where nx: "checked_add e 1 = Some e'"
    and s: "s = signed_revocation_state P st w e' (Some tb) tombs at"
    and s4: "store_revocation_operation i w ?d (WalletResult s) (deactivate (\<lambda>a. ap_wallet a = w)
          (put_wallet_tombstone w tb (set_wallet_epoch w e' st))) = Inr st4"
    and s5: "append_audit P ''wallet.revoked'' pl st4 = Inr st1"
    by (auto simp: revoke_all_tx_def Let_def result_simps)
  have "en_wallets st4 = en_wallets (set_wallet_epoch w e' st)"
    "en_approvals st4 = en_approvals (deactivate (\<lambda>a. ap_wallet a = w) st)"
    using s4 by (auto simp: store_revocation_operation_def deactivate_def put_wallet_tombstone_def
        set_wallet_epoch_def split: if_splits)
  then have t: "en_wallets st1 = en_wallets (set_wallet_epoch w e' st)"
    "en_approvals st1 = en_approvals (deactivate (\<lambda>a. ap_wallet a = w) st)"
    using append_audit_tables [OF s5] by simp_all
  have r: "rs_epoch s = e'" by (simp add: s signed_revocation_state_def Let_def)
  show "wallet_epoch st1 w = Inr (rs_epoch s)"
    using set_wallet_epoch_epoch [of w e' st] by (simp add: wallet_epoch_def t r)
  show "unat (rs_epoch s) = unat e + 1" using checked_add_SomeD [OF nx] r by simp
  show "en_approvals st1 = update_rows (\<lambda>a. ap_wallet a = w) (\<lambda>a. a\<lparr>ap_active := False\<rparr>) (en_approvals st)"
    by (simp add: t deactivate_def)
qed

lemma run_epoch:
  assumes g: "core_grows st st'" and inv: "engine_inv P st'" and e: "wallet_epoch st w = Inr e" "0 < e"
    and e': "wallet_epoch st' w = Inr e'"
  shows "e \<le> e'"
proof -
  from e obtain v where v: "find (\<lambda>v. ws_wallet v = w) (en_wallets st) = Some v" "ws_epoch v = Some e"
    by (auto simp: wallet_epoch_def result_simps split: option.splits)
  then have "v \<in> set (en_wallets st)" "ws_wallet v = w" by (auto simp: find_Some_iff)
  with g obtain u where u: "u \<in> set (en_wallets st')" "wallet_le v u"
    unfolding core_grows_def covers_def by blast
  have d: "distinct (map ws_wallet (en_wallets st'))" using inv by (simp add: engine_inv_def core_inv_def)
  have "ws_wallet u = w" using u(2) \<open>ws_wallet v = w\<close> by (simp add: wallet_le_def)
  with find_unique [OF d u(1)] e' have "ws_epoch u = Some e'"
    by (simp add: wallet_epoch_def result_simps)
  with u(2) v(2) show ?thesis by (simp add: wallet_le_def)
qed

lemma revoked_wallet_authorize:
  assumes inv: "engine_inv P st" and first: "\<forall>q\<in>set (en_revocations st). rr_operation q \<noteq> i"
    and e: "wallet_epoch st w = Inr e" and revoke: "revoke_all P w i at st = (st1, Inr s)"
    and run: "(engine_step P)\<^sup>*\<^sup>* st1 st2"
    and auth: "authorize_sign P r clock st2 = (st3, Inr a)" "sr_wallet_id (req_unsigned r) = w"
  shows "find_approval st (sr_approval_id (req_unsigned r)) = None
    \<and> (\<exists>row t. find_approval st2 (sr_approval_id (req_unsigned r)) = Some row
          \<and> ap_terms row = Some t \<and> e < at_revocation_epoch t)"
proof -
  let ?x = "sr_approval_id (req_unsigned r)"
  have inv1: "engine_inv P st1" using engine_step_inv [OF inv engine_step.RevokeAll [OF revoke]] .
  note later = run_inv_grows [OF inv1 run]
  note eff = revoke_all_effect [OF first e transact_InrD(3) [OF revoke [unfolded revoke_all_def]]]
  from authorize_active [OF auth(1)] obtain row t where row: "find_approval st2 ?x = Some row" "ap_active row"
    "ap_terms row = Some t" "validate_against_approval r t (cd_now clock) = Inr ()"
    "wallet_epoch st2 (at_wallet_id t) = Inr (at_revocation_epoch t)" by blast
  have w: "at_wallet_id t = w"
    using row(4) auth(2) by (auto simp: validate_against_approval_def Let_def split: if_splits)
  have "rs_epoch s \<le> at_revocation_epoch t"
    by (rule run_epoch [OF later(2,1) eff(1)]) (use eff(2) row w in \<open>auto simp: word_less_nat_alt\<close>)
  with eff(2) have lt: "e < at_revocation_epoch t" by (simp add: word_le_nat_alt word_less_nat_alt)
  have aw: "ap_wallet row = w"
    using inv_approvalD [of P st2 row] later(1) find_approval_SomeD [OF row(1)] row(3) w
    by (auto simp: engine_inv_def approval_ok_def split: option.splits)
  have "find_approval st ?x = None"
  proof (rule ccontr)
    assume "find_approval st ?x \<noteq> None"
    then obtain a0 where a0: "find_approval st ?x = Some a0" by auto
    then have "find_approval st1 ?x = Some (if ap_wallet a0 = w then a0\<lparr>ap_active := False\<rparr> else a0)"
      by (simp add: find_approval_def eff(3) find_update_rows)
    from run_approval [OF later(2,1) this] row(1) have
      "approval_le (if ap_wallet a0 = w then a0\<lparr>ap_active := False\<rparr> else a0) row" by simp
    with row(2) aw show False by (cases "ap_wallet a0 = w") (simp_all add: approval_le_def)
  qed
  with lt row show ?thesis by blast
qed

text \<open>C7: revoking a wallet ends every approval it had. The wallet's epoch goes up by one; after
  any run from there no request for the wallet under an approval that existed at the revocation is
  authorised, and one that is authorised is under terms that carry a later epoch.\<close>

theorem revoked_wallet_needs_new_approval:
  assumes inv: "engine_inv P st" and first: "\<forall>q\<in>set (en_revocations st). rr_operation q \<noteq> i"
    and e: "wallet_epoch st w = Inr e" and revoke: "revoke_all P w i at st = (st1, Inr s)"
    and run: "(engine_step P)\<^sup>*\<^sup>* st1 st2" and wallet: "sr_wallet_id (req_unsigned r) = w"
  shows "unat (rs_epoch s) = unat e + 1
    \<and> (find_approval st (sr_approval_id (req_unsigned r)) \<noteq> None \<longrightarrow> \<not> is_ok (snd (authorize_sign P r clock st2)))
    \<and> (is_ok (snd (authorize_sign P r clock st2)) \<longrightarrow>
         (\<exists>row t. find_approval st2 (sr_approval_id (req_unsigned r)) = Some row
            \<and> ap_terms row = Some t \<and> e < at_revocation_epoch t))"
proof -
  have "unat (rs_epoch s) = unat e + 1"
    using revoke_all_effect(2) [OF first e transact_InrD(3) [OF revoke [unfolded revoke_all_def]]] .
  moreover have "find_approval st (sr_approval_id (req_unsigned r)) = None
    \<and> (\<exists>row t. find_approval st2 (sr_approval_id (req_unsigned r)) = Some row
          \<and> ap_terms row = Some t \<and> e < at_revocation_epoch t)"
    if "is_ok (snd (authorize_sign P r clock st2))"
    using that revoked_wallet_authorize [OF inv first e revoke run _ wallet]
    by (metis is_ok_iff prod.collapse)
  ultimately show ?thesis by auto
qed

lemma revoke_all_succeeds:
  assumes inv: "engine_inv P st" and live: "\<not> aud_degraded (en_audit st)" "journal_room st"
    and first: "\<forall>q\<in>set (en_revocations st). rr_operation q \<noteq> i"
    and e: "wallet_epoch st w = Inr e" "unat e + 1 < 2 ^ 64"
  shows "\<exists>st1 s. revoke_all P w i at st = (st1, Inr s)"
proof -
  let ?d = "revocation_request_digest P (revoke_all_request_json w i at)"
  let ?tb = "new_wallet_tombstone P st w (e + 1) i at"
  let ?st3 = "deactivate (\<lambda>a. ap_wallet a = w) (put_wallet_tombstone w ?tb (set_wallet_epoch w (e + 1) st))"
  have same: "en_revocations ?st3 = en_revocations st" "en_audit ?st3 = en_audit st" "en_tombstones ?st3 = en_tombstones st"
    by (simp_all add: put_wallet_tombstone_def deactivate_def set_wallet_epoch_def)
  have load: "load_revocation_operation as_wallet_result st i ?d = Inr None"
    using first by (auto simp: load_revocation_operation_def find_None_iff find_Some_iff split: option.split)
  have ca: "checked_add e 1 = Some (e + 1)" using e(2) by (simp add: checked_add_def)
  have ts: "\<exists>ts. parse_tombstones es = Inr ts" if "\<forall>q\<in>set es. te_tombstone q \<noteq> None" for es
    using that by (induction es) auto
  obtain ts where ts: "approval_tombstones ?st3 w = Inr ts"
    using inv ts by (fastforce simp: approval_tombstones_def same engine_inv_def core_inv_def list_all_iff tombstone_ok_def)
  let ?s = "signed_revocation_state P st w (e + 1) (Some ?tb) ts at"
  obtain st4 where st4: "store_revocation_operation i w ?d (WalletResult ?s) ?st3 = Inr st4" "en_audit st4 = en_audit st"
    using first same by (auto simp: store_revocation_operation_def list_ex_iff)
  obtain st5 where "append_audit P ''wallet.revoked''
      (JObj [(''operation_id'', JStr i), (''wallet_id'', JStr w), (''revocation_state'', revocation_state_json ?s)]) st4 = Inr st5"
    using append_audit_same [OF inv live(2) st4(2)] by blast
  then have "revoke_all_tx P w i at st = Inr (st5, ?s)"
    by (simp add: revoke_all_tx_def Let_def load e(1) ca ts st4)
  then have "transact P (revoke_all_tx P w i at) st = (st5, Inr ?s)"
    using inv by (intro transact_ready [OF live(1)]) (simp_all add: engine_inv_def)
  then show ?thesis by (auto simp: revoke_all_def)
qed

theorem revoked_wallet_needs_new_approval_witness:
  "\<exists>st s. revoke_all sample_prims ''w'' ''rv'' 150 armed_signer = (st, Inr s) \<and> rs_epoch s = 1
     \<and> \<not> is_ok (snd (authorize_sign sample_prims (sample_request ''a1'') sample_clock st))"
proof -
  have none: "en_revocations armed_signer = []" and e: "wallet_epoch armed_signer ''w'' = Inr 0"
    by (simp_all add: sample_defs wallet_epoch_def)
  obtain st s where st: "revoke_all sample_prims ''w'' ''rv'' 150 armed_signer = (st, Inr s)"
    using revoke_all_succeeds [OF armed_signer_inv armed_ready(1,2) _ e] none by fastforce
  have "sr_wallet_id (req_unsigned (sample_request ''a1'')) = ''w''"
    "find_approval armed_signer (sr_approval_id (req_unsigned (sample_request ''a1''))) \<noteq> None"
    by (simp_all add: sample_request_def sample_unsigned_simps find_approval_def armed_signer_def sample_approval_row_def)
  with revoked_wallet_needs_new_approval [OF armed_signer_inv _ e st rtranclp.rtrancl_refl, of "sample_request ''a1''"
      sample_clock] none
  have "unat (rs_epoch s) = 1" "\<not> is_ok (snd (authorize_sign sample_prims (sample_request ''a1'') sample_clock st))"
    by auto
  with st show ?thesis by (metis unat_1 unsigned_word_eqI)
qed

end
