(* ===== verification/Engine_Guarantees.thy ===== *)
theory Engine_Guarantees
  imports Engine_Properties
begin

text \<open>
  The properties of single operations of the engine: what an authorisation has checked, what
  retries may change, the sliding windows, refunds, and how the engine fails closed.
\<close>

subsection \<open>Authorisation\<close>

lemma validate_against_approval_InrD:
  assumes "validate_against_approval r t now = Inr ()"
  shows "at_not_before_ms t \<le> now" "now < at_expires_at_ms t"
    "at_not_before_ms t \<le> sr_not_before_ms (req_unsigned r)" "sr_expires_at_ms (req_unsigned r) \<le> at_expires_at_ms t"
    "sr_wallet_id (req_unsigned r) = at_wallet_id t" "sr_key_ref (req_unsigned r) = at_key_ref t"
    "sr_suite (req_unsigned r) \<in> set (at_suites t)"
    "sr_policy_version (req_unsigned r) = at_policy_version t" "sr_policy_digest (req_unsigned r) = at_policy_digest t"
    "selector_matches r t"
  using assms by (auto simp: validate_against_approval_def Let_def not_le not_less result_simps split: if_splits)

lemma verify_broker_signature_InrD:
  assumes "verify_broker_signature P st r = Inr ()"
  shows "sr_issuer_service_id (req_unsigned r) = ''bloom-broker''" "sr_broker_key_id (req_unsigned r) = en_broker_key_id st"
    "\<exists>d. p_hex_decode P (sr_attempt_digest (req_unsigned r)) = Some d \<and> p_verify P (en_broker_key st) d (req_signature r)"
  using assms by (auto simp: verify_broker_signature_def Let_def result_simps split: if_splits)

lemma require_key_available_InrD:
  assumes "require_key_available P st k = Inr ()"
  shows "key_is_available (en_backends st) k = Inr True"
    "\<exists>row. find (\<lambda>r. ek_fingerprint r = kr_fingerprint k) (en_enrolled st) = Some row
       \<and> ek_key_ref_jcs row = p_jcs P (key_ref_json k)"
    "kr_derivation k = Some (Bip39Multicurve seed profile path) \<Longrightarrow>
     map_option ek_authority (find (\<lambda>r. ek_fingerprint r = kr_fingerprint k) (en_enrolled st)) \<noteq> Some ''petal'' \<Longrightarrow>
     \<exists>a\<in>set (reg_allocations (en_registry st)). al_wallet a = seed
       \<and> al_fingerprint a = Some (kr_fingerprint k) \<and> al_state a = ACTIVATED"
proof -
  let ?row = "find (\<lambda>r. ek_fingerprint r = kr_fingerprint k) (en_enrolled st)"
  from assms have "map_option ek_key_ref_jcs ?row = Some (p_jcs P (key_ref_json k))"
    and av: "key_is_available (en_backends st) k = Inr True"
    by (auto simp: require_key_available_def Let_def result_simps split: if_splits)
  then show "\<exists>row. ?row = Some row \<and> ek_key_ref_jcs row = p_jcs P (key_ref_json k)" by auto
  show "key_is_available (en_backends st) k = Inr True" by (rule av)
  show "\<exists>a\<in>set (reg_allocations (en_registry st)). al_wallet a = seed
       \<and> al_fingerprint a = Some (kr_fingerprint k) \<and> al_state a = ACTIVATED"
    if d: "kr_derivation k = Some (Bip39Multicurve seed profile path)"
      and np: "map_option ek_authority ?row \<noteq> Some ''petal''"
  proof -
    have "map_option al_state (find (\<lambda>a. al_wallet a = seed \<and> al_fingerprint a = Some (kr_fingerprint k))
        (reg_allocations (en_registry st))) = Some ACTIVATED"
      using assms d np by (auto simp: require_key_available_def Let_def result_simps split: if_splits option.splits)
    then show ?thesis by (auto simp: find_Some_iff)
  qed
qed

text \<open>The keys that are enrolled for a Petal.\<close>

definition petal_key :: "engine \<Rightarrow> key_ref \<Rightarrow> bool" where
  "petal_key st k =
     (map_option ek_authority (find (\<lambda>r. ek_fingerprint r = kr_fingerprint k) (en_enrolled st)) = Some ''petal'')"

lemma authorize_appends:
  assumes run: "authorize_sign_tx P r clock st = Inr (st', auth)"
  shows "\<exists>e. ad_entries (aud_db (en_audit st')) = ad_entries (aud_db (en_audit st)) @ [e] \<and> ae_event e = ''sign.authorized''"
proof -
  from authorize_sign_tx_InrD [OF run] obtain t st1 st2 where
    branch: "case find_operation st (sr_operation_id (req_unsigned r)) of
          Some row \<Rightarrow> retry_operation P r row = Inr () \<and> st1 = st \<and> auth = SameOperationRetry
        | None \<Rightarrow> reserve_operation P r t clock st = Inr st1 \<and> auth = NewOperation"
    and att: "insert_attempt \<lparr>at_id = sr_attempt_id (req_unsigned r), at_digest = sr_attempt_digest (req_unsigned r),
                  at_operation = sr_operation_id (req_unsigned r)\<rparr> st1 = Inr st2"
    and aud: "append_audit P ''sign.authorized'' (authorized_json r auth) st2 = Inr st'" by blast
  have "en_audit st1 = en_audit st" using branch reserve_operation_audit by (auto split: option.splits)
  moreover have "en_audit st2 = en_audit st1" using att by (auto simp: insert_attempt_def split: if_splits)
  ultimately show ?thesis using append_audit_InrD(1) [OF aud] by auto
qed

text \<open>C9: a request is authorised only when everything was checked: Broker's signature over the attempt
  digest under the pinned key, both digests, an active approval whose identifier is the digest of
  its terms, the request's and the approval's validity at the effective time, wallet, key, suite,
  policy and selector of the approval, a current revocation epoch, a key active in its backend and,
  when it is a BIP-39 child outside the Petal class, ACTIVATED in the derivation registry; and exactly one
  audit entry records it.\<close>

theorem authorization_sound:
  assumes inv: "engine_inv P st" and run: "authorize_sign P r clock st = (st', Inr auth)"
  shows "\<exists>a t d e. let u = req_unsigned r in
     p_hex_decode P (sr_attempt_digest u) = Some d \<and> p_verify P (en_broker_key st) d (req_signature r)
     \<and> sr_attempt_digest u = computed_attempt_digest P u
     \<and> sr_operation_digest u = identity_digest P (operation_identity u)
     \<and> find_approval st (sr_approval_id u) = Some a \<and> ap_active a \<and> ap_terms a = Some t
     \<and> approval_id_of P t = Inr (sr_approval_id u)
     \<and> sr_not_before_ms u \<le> cd_now clock \<and> cd_now clock < sr_expires_at_ms u
     \<and> at_not_before_ms t \<le> cd_now clock \<and> cd_now clock < at_expires_at_ms t
     \<and> sr_wallet_id u = at_wallet_id t \<and> sr_key_ref u = at_key_ref t \<and> sr_suite u \<in> set (at_suites t)
     \<and> sr_policy_version u = at_policy_version t \<and> sr_policy_digest u = at_policy_digest t
     \<and> (\<forall>ps hs. at_selector t = ExactSelector ps hs \<longrightarrow> sr_payload_digests u = ps \<and> sr_hashes u = hs)
     \<and> wallet_epoch st (at_wallet_id t) = Inr (at_revocation_epoch t)
     \<and> key_is_available (en_backends st) (at_key_ref t) = Inr True
     \<and> (\<forall>seed profile path. kr_derivation (sr_key_ref u) = Some (Bip39Multicurve seed profile path)
          \<and> \<not> petal_key st (sr_key_ref u) \<longrightarrow>
          (\<exists>child\<in>set (reg_allocations (en_registry st)). al_wallet child = seed
             \<and> al_fingerprint child = Some (kr_fingerprint (sr_key_ref u)) \<and> al_state child = ACTIVATED))
     \<and> ad_entries (aud_db (en_audit st')) = ad_entries (aud_db (en_audit st)) @ [e] \<and> ae_event e = ''sign.authorized''"
proof -
  note d = authorize_sign_InrD [OF run]
  from verify_broker_signature_InrD(3) [OF d(2)] obtain dg where
    dg: "p_hex_decode P (sr_attempt_digest (req_unsigned r)) = Some dg" "p_verify P (en_broker_key st) dg (req_signature r)"
    by blast
  from authorize_active [OF run] obtain a t where a: "find_approval st (sr_approval_id (req_unsigned r)) = Some a"
    "ap_active a" "ap_terms a = Some t" "require_key_available P st (at_key_ref t) = Inr ()"
    "validate_against_approval r t (cd_now clock) = Inr ()"
    "wallet_epoch st (at_wallet_id t) = Inr (at_revocation_epoch t)" by blast
  have "approval_ok P (en_operations st) a" "ap_id a = sr_approval_id (req_unsigned r)"
    using inv find_approval_SomeD [OF a(1)] inv_approvalD by (auto simp: engine_inv_def)
  then have ident: "approval_id_of P t = Inr (sr_approval_id (req_unsigned r))"
    using a(3) by (auto simp: approval_ok_def split: option.splits)
  have shape: "sr_attempt_digest (req_unsigned r) = computed_attempt_digest P (req_unsigned r)"
    "sr_operation_digest (req_unsigned r) = identity_digest P (operation_identity (req_unsigned r))"
    using d(1) by (auto simp: validate_shape_ok Let_def)
  have exact: "sr_payload_digests (req_unsigned r) = ps \<and> sr_hashes (req_unsigned r) = hs"
    if "at_selector t = ExactSelector ps hs" for ps hs
    using validate_against_approval_InrD(10) [OF a(5)] that
    by (auto simp: selector_matches_def Let_def split: selector_kind.splits)
  have child: "\<exists>c\<in>set (reg_allocations (en_registry st)). al_wallet c = seed
       \<and> al_fingerprint c = Some (kr_fingerprint (sr_key_ref (req_unsigned r))) \<and> al_state c = ACTIVATED"
    if "kr_derivation (sr_key_ref (req_unsigned r)) = Some (Bip39Multicurve seed profile path)"
      "\<not> petal_key st (sr_key_ref (req_unsigned r))" for seed profile path
    using require_key_available_InrD(3) [OF a(4)] validate_against_approval_InrD(6) [OF a(5)] that
    unfolding petal_key_def by metis
  from authorize_appends [OF d(5)] obtain e where "ad_entries (aud_db (en_audit st')) = ad_entries (aud_db (en_audit st)) @ [e]"
    "ae_event e = ''sign.authorized''" by blast
  with dg a ident shape exact child d(3,4) validate_against_approval_InrD [OF a(5)] require_key_available_InrD(1) [OF a(4)]
  show ?thesis unfolding Let_def by (intro exI conjI) auto
qed

theorem authorization_sound_witness:
  "\<exists>st a. authorize_sign sample_prims (sample_request ''a1'') sample_clock armed_signer = (st, Inr NewOperation)
     \<and> find_approval armed_signer sample_approval = Some a \<and> ap_active a
     \<and> key_is_available (en_backends armed_signer) sample_key_ref = Inr True"
proof -
  obtain st where st: "authorize_sign sample_prims (sample_request ''a1'') sample_clock armed_signer = (st, Inr NewOperation)"
    using sample_authorized by blast
  have u: "req_unsigned (sample_request ''a1'') = sample_unsigned ''a1''" by (simp add: sample_request_def)
  from authorization_sound [OF armed_signer_inv st, unfolded Let_def u sample_unsigned_simps]
  obtain a and t :: approval_terms where
    "find_approval armed_signer sample_approval = Some a" "ap_active a" "sample_key_ref = at_key_ref t"
    "key_is_available (en_backends armed_signer) (at_key_ref t) = Inr True"
    by blast
  with st show ?thesis by auto
qed

text \<open>The preimage the retry binding digests.\<close>

definition retry_preimage :: "prims \<Rightarrow> unsigned_request \<Rightarrow> bytes" where
  "retry_preimage P u = str_bytes SIGNER_RETRY_BINDING_DOMAIN
     @ p_jcs P (JObj (obj_remove retry_permitted_fields (request_fields u)))"

lemma authorize_new_row:
  assumes inv: "engine_inv P st" and run: "authorize_sign P r clock st = (st1, Inr NewOperation)"
  shows "\<exists>row. find_operation st1 (sr_operation_id (req_unsigned r)) = Some row
     \<and> op_retry_binding row = retry_binding_digest P (req_unsigned r) \<and> op_approval row = sr_approval_id (req_unsigned r)"
proof -
  let ?u = "req_unsigned r"
  from authorize_sign_tx_InrD [OF authorize_sign_InrD(5) [OF run]] obtain t s1 s2 where
    new: "find_operation st (sr_operation_id ?u) = None" and res: "reserve_operation P r t clock st = Inr s1"
    and att: "insert_attempt \<lparr>at_id = sr_attempt_id ?u, at_digest = sr_attempt_digest ?u,
                  at_operation = sr_operation_id ?u\<rparr> s1 = Inr s2"
    and aud: "append_audit P ''sign.authorized'' (authorized_json r NewOperation) s2 = Inr st1"
    by (auto split: option.splits)
  let ?row = "\<lparr>op_id = sr_operation_id ?u, op_digest = sr_operation_digest ?u,
              op_retry_binding = retry_binding_digest P ?u, op_approval = sr_approval_id ?u,
              op_signature_count = Some (sr_signature_count ?u), op_accepted = cd_now clock,
              op_state = Reserved, op_result = None\<rparr>"
  have "en_operations s1 = en_operations st @ [?row]"
    using res by (auto simp: reserve_operation_def result_simps Let_def insert_operation_def insert_anchor_def
        set_counters_def split: if_splits)
  moreover have "en_operations s2 = en_operations s1" using att by (auto simp: insert_attempt_def split: if_splits)
  ultimately have "find_operation st1 (sr_operation_id ?u) = Some ?row"
    using append_audit_tables(2) [OF aud] new by (simp add: find_operation_def find_append)
  then show ?thesis by simp
qed

text \<open>C10: a retry may change the attempt and nothing else. A request that is authorised for an operation
  reserved by an earlier request agrees with it on every field but the attempt's id and digest, the
  Broker's boot epoch and the attempt's validity, unless the encoding or SHA-256 collides on the two.\<close>

theorem retry_changes_attempt_only:
  assumes inv: "engine_inv P st" and first: "authorize_sign P r clock st = (st1, Inr NewOperation)"
    and run: "(engine_step P)\<^sup>*\<^sup>* st1 st2"
    and again: "authorize_sign P r' clock' st2 = (st3, Inr auth)"
    and same: "sr_operation_id (req_unsigned r') = sr_operation_id (req_unsigned r)"
    and sha: "p_sha256 P (retry_preimage P (req_unsigned r)) = p_sha256 P (retry_preimage P (req_unsigned r'))
        \<Longrightarrow> retry_preimage P (req_unsigned r) = retry_preimage P (req_unsigned r')"
    and jcs: "\<And>a b. a = JObj (obj_remove retry_permitted_fields (request_fields (req_unsigned r)))
        \<Longrightarrow> b = JObj (obj_remove retry_permitted_fields (request_fields (req_unsigned r')))
        \<Longrightarrow> p_jcs P a = p_jcs P b \<Longrightarrow> a = b"
  shows "auth = SameOperationRetry \<and> retry_view (req_unsigned r') = retry_view (req_unsigned r)"
proof -
  have inv1: "engine_inv P st1" using engine_step_inv [OF inv engine_step.Authorize [OF first]] .
  note later = run_inv_grows [OF inv1 run]
  obtain row1 where row1: "find_operation st1 (sr_operation_id (req_unsigned r)) = Some row1"
    "op_retry_binding row1 = retry_binding_digest P (req_unsigned r)"
    using authorize_new_row [OF inv first] by blast
  from run_operation [OF later(2,1) row1(1)] obtain row where
    row: "find_operation st2 (sr_operation_id (req_unsigned r')) = Some row" "operation_le row1 row"
    using same by auto
  note ex = authorize_existing [OF again row(1)]
  have "retry_binding_digest P (req_unsigned r) = retry_binding_digest P (req_unsigned r')"
    using retry_operation_InrD(4) [OF ex(2)] row(2) row1(2) by (simp add: operation_le_def)
  then have "retry_preimage P (req_unsigned r) = retry_preimage P (req_unsigned r')"
    using sha by (simp add: retry_binding_digest_def retry_preimage_def)
  then have "obj_remove retry_permitted_fields (request_fields (req_unsigned r))
      = obj_remove retry_permitted_fields (request_fields (req_unsigned r'))"
    using jcs [OF refl refl] by (simp add: retry_preimage_def)
  then show ?thesis using ex(1) by (simp add: retry_fields_eq)
qed

text \<open>A second attempt of the sample operation, after the first was authorised.\<close>

lemma sample_reserve:
  "reserve_operation sample_prims (sample_request ''a1'') sample_terms sample_clock armed_signer
     = Inr (reserved_signer\<lparr>en_attempts := []\<rparr>)"
proof -
  have "reserve_parser_free_limits armed_signer (sample_request ''a1'') sample_terms (cd_now sample_clock) = Inr (1, 1)"
    using sample_limits by (simp add: sample_clock_def)
  then show ?thesis
    by (simp add: reserve_operation_def insert_operation_def insert_anchor_def set_counters_def Let_def reserved_signer_def
        sample_request_def sample_unsigned_simps armed_signer_def fresh_signer_def sample_operation_def sample_clock_def
        update_rows_def sample_approval_row_def)
qed

lemma sample_first_attempt:
  "\<exists>st. authorize_sign sample_prims (sample_request ''a1'') sample_clock armed_signer = (st, Inr NewOperation)
     \<and> append_audit sample_prims ''sign.authorized'' (authorized_json (sample_request ''a1'') NewOperation) reserved_signer = Inr st"
proof -
  obtain st where st: "authorize_sign sample_prims (sample_request ''a1'') sample_clock armed_signer = (st, Inr NewOperation)"
    using sample_authorized by blast
  have chk: "check_approval sample_prims (sample_request ''a1'') (cd_now sample_clock) armed_signer = Inr sample_terms"
    using sample_checks by (simp add: sample_clock_def)
  have att: "insert_attempt \<lparr>at_id = sr_attempt_id (sample_unsigned ''a1''), at_digest = sr_attempt_digest (sample_unsigned ''a1''),
      at_operation = sr_operation_id (sample_unsigned ''a1'')\<rparr> (reserved_signer\<lparr>en_attempts := []\<rparr>) = Inr reserved_signer"
    by (simp add: insert_attempt_def sample_unsigned_simps reserved_signer_def)
  have u: "req_unsigned (sample_request ''a1'') = sample_unsigned ''a1''" by (simp add: sample_request_def)
  have none: "find_operation armed_signer (sr_operation_id (sample_unsigned ''a1'')) = None"
    by (simp add: find_operation_def armed_ready)
  from authorize_sign_InrD(5) [OF st, unfolded authorize_sign_tx_def Let_def u none option.case]
  have "append_audit sample_prims ''sign.authorized'' (authorized_json (sample_request ''a1'') NewOperation) reserved_signer = Inr st"
    by (simp add: chk sample_reserve att result_simps)
  with st show ?thesis by blast
qed

lemma authorize_retry:
  assumes inv: "engine_inv P st" and live: "\<not> aud_degraded (en_audit st)" "journal_room st"
    and shape: "validate_shape P r = Inr ()" "verify_broker_signature P st r = Inr ()"
    and time: "sr_not_before_ms (req_unsigned r) \<le> cd_now clock" "cd_now clock < sr_expires_at_ms (req_unsigned r)"
    and chk: "check_approval P r (cd_now clock) st = Inr t"
    and row: "find_operation st (sr_operation_id (req_unsigned r)) = Some row" "retry_operation P r row = Inr ()"
  shows "\<exists>st'. authorize_sign P r clock st = (st', Inr SameOperationRetry)"
proof -
  let ?row = "\<lparr>at_id = sr_attempt_id (req_unsigned r), at_digest = sr_attempt_digest (req_unsigned r),
                  at_operation = sr_operation_id (req_unsigned r)\<rparr>"
  let ?st2 = "st\<lparr>en_attempts := en_attempts st @ [?row]\<rparr>"
  have att: "insert_attempt ?row st = Inr ?st2"
    using check_approval_InrD(2) [OF chk] by (force simp: insert_attempt_def list_ex_iff)
  obtain st' where "append_audit P ''sign.authorized'' (authorized_json r SameOperationRetry) ?st2 = Inr st'"
    using append_audit_same [OF inv live(2), of ?st2] by auto
  then have "authorize_sign_tx P r clock st = Inr (st', SameOperationRetry)"
    by (simp add: authorize_sign_tx_def Let_def chk row att)
  moreover have "journal_verified P (en_audit st)" using inv by (simp add: engine_inv_def)
  ultimately have "transact P (authorize_sign_tx P r clock) st = (st', Inr SameOperationRetry)"
    by (intro transact_ready [OF live(1)])
  then show ?thesis using shape time by (simp add: authorize_sign_def Let_def not_less not_le)
qed

lemma sample_same_binding:
  "obj_remove retry_permitted_fields (request_fields (sample_unsigned ''a2''))
     = obj_remove retry_permitted_fields (request_fields (sample_unsigned ''a1''))"
proof -
  have "sr_operation_digest (sample_unsigned ''a2'') = sr_operation_digest (sample_unsigned ''a1'')"
    by (simp add: sample_unsigned_def sample_attempt_def operation_identity_def Let_def)
  then show ?thesis
    by (simp add: retry_fields_eq retry_view_def) (simp add: sample_unsigned_def sample_attempt_def Let_def)
qed

theorem retry_changes_attempt_only_witness:
  "\<exists>st1 st3. authorize_sign sample_prims (sample_request ''a1'') sample_clock armed_signer = (st1, Inr NewOperation)
     \<and> authorize_sign sample_prims (sample_request ''a2'') sample_clock st1 = (st3, Inr SameOperationRetry)
     \<and> retry_view (sample_unsigned ''a2'') = retry_view (sample_unsigned ''a1'')"
proof -
  obtain st1 where st1: "authorize_sign sample_prims (sample_request ''a1'') sample_clock armed_signer = (st1, Inr NewOperation)"
    "append_audit sample_prims ''sign.authorized'' (authorized_json (sample_request ''a1'') NewOperation) reserved_signer = Inr st1"
    using sample_first_attempt by blast
  have u: "req_unsigned (sample_request a) = sample_unsigned a" for a by (simp add: sample_request_def)
  have inv: "engine_inv sample_prims st1" by (rule engine_step_inv [OF armed_signer_inv engine_step.Authorize [OF st1(1)]])
  from append_audit_InrD(1) [OF st1(2)] obtain e where e: "st1 = reserved_signer\<lparr>en_audit := (en_audit reserved_signer)
      \<lparr>aud_db := (aud_db (en_audit reserved_signer))\<lparr>ad_entries := ad_entries (aud_db (en_audit reserved_signer)) @ [e]\<rparr>\<rparr>\<rparr>"
    by blast
  have op: "find_operation st1 ''op'' = Some sample_operation" using reserved_ready(3) by (simp add: e find_operation_def)
  have chk: "check_approval sample_prims (sample_request ''a2'') (cd_now sample_clock) st1 = Inr sample_terms"
    by (simp add: sample_clock_def, rule sample_checks_at [of _ "sample_approval_row\<lparr>ap_operations := Some 1, ap_signatures := Some 1\<rparr>"])
      (simp_all add: e reserved_signer_def sample_defs find_approval_def wallet_epoch_def)
  have retry: "retry_operation sample_prims (sample_request ''a2'') sample_operation = Inr ()"
    by (simp add: retry_operation_def u sample_operation_def sample_unsigned_simps retry_binding_digest_def sample_same_binding)
      (simp add: sample_unsigned_def sample_attempt_def operation_identity_def Let_def)
  have ready: "\<not> aud_degraded (en_audit st1)" "journal_room st1" "en_broker_key_id st1 = ''bk''" "en_broker_key st1 = [7]"
    by (simp_all add: e reserved_signer_def sample_defs journal_room_def)
  obtain st3 where st3: "authorize_sign sample_prims (sample_request ''a2'') sample_clock st1 = (st3, Inr SameOperationRetry)"
    using authorize_retry [OF inv ready(1,2) sample_shape sample_broker_signature [OF ready(3,4)] _ _ chk _ retry] op
    by (auto simp: u sample_unsigned_simps sample_clock_def)
  have "retry_view (sample_unsigned ''a2'') = retry_view (sample_unsigned ''a1'')"
    using retry_changes_attempt_only [OF armed_signer_inv st1(1) rtranclp.rtrancl_refl st3]
    by (simp add: u sample_unsigned_simps retry_preimage_def sample_same_binding)
  with st1(1) st3 show ?thesis by blast
qed

subsection \<open>Petal keys\<close>

lemma petal_selector_check_InrD:
  assumes "petal_selector_check scope pkg route sel = Inr ()"
  shows "case sel of ExactSelector _ _ \<Rightarrow> True
     | PetalSelector p r classes grants _ \<Rightarrow> p = pkg \<and> r = route \<and> classes \<noteq> [] \<and> set classes \<subseteq> set (ps_classes scope)
         \<and> (\<forall>g\<in>set grants. rg_route g \<in> set (ps_routes scope) \<and> rg_classes g \<noteq> [] \<and> set (rg_classes g) \<subseteq> set (ps_classes scope))"
  using assms
  by (auto simp: petal_selector_check_def grant_exceeds_scope_def list_ex_iff split: approval_selector.splits if_splits)

lemma validate_petal_key_approval_InrD:
  assumes "validate_petal_key_approval st t now = Inr ()" "petal_key st (at_key_ref t)"
  shows "\<exists>row scope created ends pkg route agent.
     find (\<lambda>r. pr_fingerprint r = kr_fingerprint (at_key_ref t)) (en_petal_scopes st) = Some row
     \<and> pr_scope row = Some scope \<and> pr_created row = Some created \<and> pr_expires row = Some ends
     \<and> at_wallet_id t = ps_wallet_id scope \<and> at_subject t = PetalSubject pkg route agent
     \<and> pkg = ps_package_hash scope \<and> route \<in> set (ps_routes scope)
     \<and> (\<forall>a. agent = Some a \<longrightarrow> a = ps_key_slot scope)
     \<and> petal_selector_check scope pkg route (at_selector t) = Inr ()
     \<and> at_suites t \<noteq> [] \<and> set (at_suites t) \<subseteq> set (ps_suites scope)
     \<and> petal_validity_check scope created ends t now = Inr ()"
  using assms
  by (auto simp: validate_petal_key_approval_def petal_key_def Let_def result_simps list_ex_iff
      split: if_splits approval_subject.splits option.splits)

text \<open>C11: a Petal key signs only within its scope. When a request under a key enrolled for a Petal is
  authorised, the key's stored scope names the wallet, the package and the route; the request's suite, the
  selector's classes and every route grant are within it; the approval lives no longer than the scope allows,
  and a Petal selector is used only before the scope expires.\<close>

theorem petal_key_within_scope:
  assumes run: "authorize_sign P r clock st = (st', Inr auth)" and petal: "petal_key st (sr_key_ref (req_unsigned r))"
    and row: "find_approval st (sr_approval_id (req_unsigned r)) = Some a" "ap_terms a = Some t"
  shows "\<exists>q scope created ends pkg route agent.
     find (\<lambda>q. pr_fingerprint q = kr_fingerprint (sr_key_ref (req_unsigned r))) (en_petal_scopes st) = Some q
     \<and> pr_scope q = Some scope \<and> pr_created q = Some created \<and> pr_expires q = Some ends
     \<and> sr_wallet_id (req_unsigned r) = ps_wallet_id scope \<and> sr_suite (req_unsigned r) \<in> set (ps_suites scope)
     \<and> at_subject t = PetalSubject pkg route agent \<and> pkg = ps_package_hash scope \<and> route \<in> set (ps_routes scope)
     \<and> created \<le> cd_now clock
     \<and> saturating_sub (at_expires_at_ms t) (at_not_before_ms t) \<le> ps_maximum_lifetime_ms scope
     \<and> (case at_selector t of ExactSelector _ _ \<Rightarrow> True
          | PetalSelector p rt classes grants _ \<Rightarrow> p = pkg \<and> rt = route \<and> set classes \<subseteq> set (ps_classes scope)
              \<and> (\<forall>g\<in>set grants. rg_route g \<in> set (ps_routes scope) \<and> set (rg_classes g) \<subseteq> set (ps_classes scope))
              \<and> cd_now clock < ends \<and> at_expires_at_ms t \<le> ends)"
proof -
  from check_approval_InrD(1) [of P r "cd_now clock" st] authorize_sign_checks [OF run] row have
    v: "validate_against_approval r t (cd_now clock) = Inr ()" and pk: "validate_petal_key_approval st t (cd_now clock) = Inr ()"
    by auto
  note va = validate_against_approval_InrD [OF v]
  from validate_petal_key_approval_InrD [OF pk] petal va(6) obtain q scope created ends pkg route agent where
    q: "find (\<lambda>q. pr_fingerprint q = kr_fingerprint (at_key_ref t)) (en_petal_scopes st) = Some q"
    "pr_scope q = Some scope" "pr_created q = Some created" "pr_expires q = Some ends" "at_wallet_id t = ps_wallet_id scope"
    "at_subject t = PetalSubject pkg route agent" "pkg = ps_package_hash scope" "route \<in> set (ps_routes scope)"
    "set (at_suites t) \<subseteq> set (ps_suites scope)"
    and sel: "petal_selector_check scope pkg route (at_selector t) = Inr ()"
    and val: "petal_validity_check scope created ends t (cd_now clock) = Inr ()" by auto
  have times: "created \<le> cd_now clock" "saturating_sub (at_expires_at_ms t) (at_not_before_ms t) \<le> ps_maximum_lifetime_ms scope"
    "scope_bound (at_selector t) \<Longrightarrow> cd_now clock < ends \<and> at_expires_at_ms t \<le> ends"
    using val by (auto simp: petal_validity_check_def not_less not_le split: if_splits)
  have "case at_selector t of ExactSelector _ _ \<Rightarrow> True
          | PetalSelector p rt classes grants _ \<Rightarrow> p = pkg \<and> rt = route \<and> set classes \<subseteq> set (ps_classes scope)
              \<and> (\<forall>g\<in>set grants. rg_route g \<in> set (ps_routes scope) \<and> set (rg_classes g) \<subseteq> set (ps_classes scope))
              \<and> cd_now clock < ends \<and> at_expires_at_ms t \<le> ends"
    using petal_selector_check_InrD [OF sel] times(3) by (auto simp: scope_bound_def split: approval_selector.splits)
  with q va(5,6,7) times(1,2) show ?thesis by (intro exI conjI) auto
qed

text \<open>The sample key, enrolled for a Petal.\<close>

definition sample_scope :: petal_scope where
  "sample_scope = \<lparr>ps_wallet_id = ''w'', ps_parent_key_ref = sample_key_ref, ps_package_hash = ''pkg'', ps_route = ''r'',
     ps_lineage_id = ''l'', ps_key_slot = ''k'', ps_routes = [''r''], ps_classes = [''pay''],
     ps_suites = [Secp256k1Keccak256Recoverable], ps_maximum_lifetime_ms = 1000, ps_custody_operation_id = ''c''\<rparr>"

definition petal_signer :: engine where
  "petal_signer = armed_signer\<lparr>
     en_enrolled := [\<lparr>ek_fingerprint = ''fp'', ek_key_ref_jcs = p_jcs sample_prims (key_ref_json sample_key_ref),
        ek_available = True, ek_authority = ''petal''\<rparr>],
     en_petal_scopes := [\<lparr>pr_fingerprint = ''fp'', pr_scope = Some sample_scope, pr_created = Some 5, pr_expires = Some 2000\<rparr>]\<rparr>"

lemma petal_signer_facts:
  "engine_inv sample_prims petal_signer" "\<not> aud_degraded (en_audit petal_signer)" "journal_room petal_signer"
  "find_approval petal_signer sample_approval = Some sample_approval_row" "en_operations petal_signer = []"
  "en_broker_key_id petal_signer = ''bk''" "en_broker_key petal_signer = [7]" "petal_key petal_signer sample_key_ref"
  using armed_signer_inv armed_ready
  by (simp_all add: petal_signer_def engine_inv_def keys_good_def core_inv_def journal_room_def find_approval_def
      petal_key_def sample_key_ref_def) (simp add: sample_defs)

lemma petal_signer_checks: "check_approval sample_prims (sample_request a) 100 petal_signer = Inr sample_terms"
proof -
  have "require_key_available sample_prims petal_signer sample_key_ref = Inr ()"
    by (simp add: require_key_available_def petal_signer_def armed_signer_def fresh_signer_def sample_backends_def
        key_is_available_def local_key_is_available_def local_key_is_registered_def Let_def) (simp add: sample_key_ref_def)
  moreover have "validate_petal_key_approval petal_signer sample_terms 100 = Inr ()"
    by (simp add: validate_petal_key_approval_def petal_signer_def sample_terms_def sample_key_ref_def sample_scope_def
        petal_selector_check_def petal_validity_check_def scope_bound_def saturating_sub_def)
  moreover have "validate_against_approval (sample_request a) sample_terms 100 = Inr ()"
    by (simp add: validate_against_approval_def sample_request_def sample_unsigned_simps sample_terms_def
        selector_matches_def)
  moreover have "at_key_ref sample_terms = sample_key_ref" "at_wallet_id sample_terms = ''w''" "at_revocation_epoch sample_terms = 0"
    by (simp_all add: sample_terms_def)
  moreover have "wallet_epoch petal_signer ''w'' = Inr 0" "en_attempts petal_signer = []"
    by (simp_all add: petal_signer_def sample_defs wallet_epoch_def)
  moreover have "sr_approval_id (req_unsigned (sample_request a)) = sample_approval"
    by (simp add: sample_request_def sample_unsigned_simps)
  ultimately show ?thesis
    using petal_signer_facts(4) by (simp add: check_approval_def Let_def) (simp add: sample_approval_row_def)
qed

theorem petal_key_within_scope_witness:
  "\<exists>st q. authorize_sign sample_prims (sample_request ''a1'') sample_clock petal_signer = (st, Inr NewOperation)
     \<and> find (\<lambda>q. pr_fingerprint q = ''fp'') (en_petal_scopes petal_signer) = Some q"
proof -
  have u: "req_unsigned (sample_request ''a1'') = sample_unsigned ''a1''" by (simp add: sample_request_def)
  have same: "reserve_parser_free_limits petal_signer r t now = reserve_parser_free_limits armed_signer r t now" for r t now
  proof -
    have "in_window petal_signer = in_window armed_signer" "find_approval petal_signer = find_approval armed_signer"
      by (intro ext, simp add: in_window_def find_approval_def petal_signer_def)+
    then have "check_operation_window petal_signer = check_operation_window armed_signer"
      "check_signature_window petal_signer = check_signature_window armed_signer"
      "find_approval petal_signer = find_approval armed_signer"
      by (intro ext, simp add: check_operation_window_def check_signature_window_def)+
    then show ?thesis by (simp add: reserve_parser_free_limits_def cong: if_cong)
  qed
  have "\<exists>st. authorize_sign sample_prims (sample_request ''a1'') sample_clock petal_signer = (st, Inr NewOperation)"
  proof (rule authorize_new [OF petal_signer_facts(1,2,3) sample_shape sample_broker_signature [OF petal_signer_facts(6,7)]])
    show "check_approval sample_prims (sample_request ''a1'') (cd_now sample_clock) petal_signer = Inr sample_terms"
      using petal_signer_checks by (simp add: sample_clock_def)
    show "reserve_parser_free_limits petal_signer (sample_request ''a1'') sample_terms (cd_now sample_clock) = Inr (1, 1)"
      using sample_limits by (simp add: sample_clock_def same)
  qed (simp_all add: find_operation_def petal_signer_facts u sample_unsigned_simps sample_clock_def)
  then obtain st where st: "authorize_sign sample_prims (sample_request ''a1'') sample_clock petal_signer = (st, Inr NewOperation)" ..
  have "petal_key petal_signer (sr_key_ref (req_unsigned (sample_request ''a1'')))"
    "find_approval petal_signer (sr_approval_id (req_unsigned (sample_request ''a1''))) = Some sample_approval_row"
    "ap_terms sample_approval_row = Some sample_terms"
    by (simp_all add: u sample_unsigned_simps petal_signer_facts) (simp add: sample_approval_row_def)
  from petal_key_within_scope [OF st this] obtain q where
    "find (\<lambda>q. pr_fingerprint q = kr_fingerprint (sr_key_ref (req_unsigned (sample_request ''a1''))))
       (en_petal_scopes petal_signer) = Some q" by blast
  then have "find (\<lambda>q. pr_fingerprint q = ''fp'') (en_petal_scopes petal_signer) = Some q"
    by (simp add: u sample_unsigned_simps sample_key_ref_def)
  with st show ?thesis by blast
qed

subsection \<open>Sliding windows\<close>

lemma sum_signatures_InrD:
  "sum_signatures c vs = Inr n \<Longrightarrow> unat n = unat c + sum_list (map (\<lambda>v. unat (the v)) vs)"
  by (induction vs arbitrary: c) (auto simp: result_simps dest!: checked_add_SomeD)

lemma window_start_InrD: "window_start now w = Inr start \<Longrightarrow> start = saturating_sub now (sw_duration w) \<and> unat now < 2 ^ 63"
  by (auto simp: window_start_def Let_def split: if_splits)

lemma check_signature_window_InrD:
  assumes "check_signature_window st x now k w = Inr u"
  shows "\<exists>n c. sum_signatures 0 (map op_signature_count (in_window st x (saturating_sub now (sw_duration w)) now)) = Inr n
     \<and> checked_add n k = Some c \<and> c \<le> sw_maximum w"
proof -
  from assms obtain n start where "window_start now w = Inr start"
    "sum_signatures 0 (map op_signature_count (in_window st x start now)) = Inr n"
    "(case checked_add n k of None \<Rightarrow> Inl (err SignerRateBackstopDenied)
       | Some c \<Rightarrow> if c > sw_maximum w then Inl (err SignerRateBackstopDenied) else Inr ()) = Inr u"
    by (auto simp: check_signature_window_def rbind_Inr_iff)
  then show ?thesis by (auto dest!: window_start_InrD split: option.splits if_splits)
qed

lemma authorize_new_operation:
  assumes run: "authorize_sign P r clock st = (st', Inr NewOperation)"
  shows "\<exists>t a nm. find_approval st (sr_approval_id (req_unsigned r)) = Some a \<and> ap_terms a = Some t
     \<and> reserve_parser_free_limits st r t (cd_now clock) = Inr nm
     \<and> en_operations st' = en_operations st @
         [\<lparr>op_id = sr_operation_id (req_unsigned r), op_digest = sr_operation_digest (req_unsigned r),
           op_retry_binding = retry_binding_digest P (req_unsigned r), op_approval = sr_approval_id (req_unsigned r),
           op_signature_count = Some (sr_signature_count (req_unsigned r)), op_accepted = cd_now clock,
           op_state = Reserved, op_result = None\<rparr>]"
proof -
  let ?u = "req_unsigned r"
  from authorize_sign_tx_InrD [OF authorize_sign_InrD(5) [OF run]] obtain t s1 s2 where
    chk: "check_approval P r (cd_now clock) st = Inr t"
    and res: "reserve_operation P r t clock st = Inr s1"
    and att: "insert_attempt \<lparr>at_id = sr_attempt_id ?u, at_digest = sr_attempt_digest ?u,
                  at_operation = sr_operation_id ?u\<rparr> s1 = Inr s2"
    and aud: "append_audit P ''sign.authorized'' (authorized_json r NewOperation) s2 = Inr st'"
    by (auto split: option.splits)
  have "en_operations st' = en_operations s1"
    using append_audit_tables(2) [OF aud] att by (auto simp: insert_attempt_def split: if_splits)
  with res check_approval_InrD(1) [OF chk] show ?thesis
    by (auto simp: reserve_operation_def result_simps Let_def insert_operation_def insert_anchor_def
        set_counters_def split: if_splits)
qed



subsection \<open>Refunds\<close>

lemma refund_counters_live:
  assumes inv: "core_inv P st" and op: "find_operation st i = Some row" "op_state row \<noteq> Released"
  shows "\<exists>a n m c. refund_counters row st = Inr (set_counters (op_approval row) (n - 1) (m - c) st)
     \<and> find_approval st (op_approval row) = Some a \<and> ap_operations a = Some n \<and> ap_signatures a = Some m
     \<and> op_signature_count row = Some c \<and> 1 \<le> n \<and> c \<le> m"
proof -
  note fo = find_operation_SomeD [OF op(1)]
  have "operation_ok (en_approvals st) row" using inv_operationD [OF inv] fo by blast
  then obtain c b where c: "op_signature_count row = Some c" and b: "b \<in> set (en_approvals st)" "ap_id b = op_approval row"
    by (auto simp: operation_ok_def)
  have a: "find_approval st (op_approval row) = Some b" using unique_approval [OF inv b(1)] b(2) by simp
  have "approval_ok P (en_operations st) b" using inv_approvalD [OF inv b(1)] .
  then obtain n m where n: "ap_operations b = Some n" "ap_signatures b = Some m"
    "unat n = used_operations (en_operations st) (op_approval row)"
    "unat m = used_signatures (en_operations st) (op_approval row)"
    using b(2) by (auto simp: approval_ok_def split: option.splits)
  obtain xs ys where ops: "en_operations st = xs @ row # ys" using fo split_list by metis
  have "counted (op_approval row) row" using op(2) by (simp add: counted_def)
  then have le: "1 \<le> n" "c \<le> m" using n(3,4) c by (simp_all add: ops word_le_nat_alt)
  then have "refund_counters row st = Inr (set_counters (op_approval row) (n - 1) (m - c) st)"
    by (simp add: refund_counters_def a n c checked_sub_def)
  with a n(1,2) c le show ?thesis by blast
qed

lemma release_effect:
  assumes inv: "engine_inv P st" and live: "\<not> aud_degraded (en_audit st)" "journal_room st"
    and op: "find_operation st i = Some row" "op_state row = Reserved \<or> op_state row = Dispatched"
  shows "\<exists>st' a n m c. finalize_operation P i EffectReleased st = (st', Inr ())
     \<and> find_operation st' i = Some (row\<lparr>op_state := Released\<rparr>)
     \<and> find_approval st (op_approval row) = Some a \<and> ap_operations a = Some n \<and> ap_signatures a = Some m
     \<and> op_signature_count row = Some c \<and> 1 \<le> n \<and> c \<le> m
     \<and> find_approval st' (op_approval row) = Some (a\<lparr>ap_operations := Some (n - 1), ap_signatures := Some (m - c)\<rparr>)
     \<and> (\<forall>y. y \<noteq> op_approval row \<longrightarrow> find_approval st' y = find_approval st y)"
proof -
  from inv have core: "core_inv P st" by (simp add: engine_inv_def)
  from refund_counters_live [OF core op(1)] op(2) obtain a n m c where
    ref: "refund_counters row st = Inr (set_counters (op_approval row) (n - 1) (m - c) st)"
    and a: "find_approval st (op_approval row) = Some a" "ap_operations a = Some n" "ap_signatures a = Some m"
    "op_signature_count row = Some c" "1 \<le> n" "c \<le> m" by auto
  let ?st1 = "set_counters (op_approval row) (n - 1) (m - c) st"
  let ?st2 = "set_operation_state i Released ?st1"
  have "en_audit ?st2 = en_audit st" by (simp add: set_operation_state_def set_counters_def)
  then obtain st' where st': "append_audit P ''sign.finalized''
      (JObj [(''operation_id'', JStr i), (''effect'', JStr ''RELEASED'')]) ?st2 = Inr st'"
    using append_audit_same [OF inv live(2), of ?st2] by blast
  have "finalize_operation_tx P i EffectReleased st = Inr (st', ())"
    using op(2) by (auto simp: finalize_operation_tx_def op(1) ref st')
  then have "transact P (finalize_operation_tx P i EffectReleased) st = (st', Inr ())"
    using inv by (intro transact_ready [OF live(1)]) (simp_all add: engine_inv_def)
  then have fin: "finalize_operation P i EffectReleased st = (st', Inr ())" by (simp add: finalize_operation_def)
  have rows: "find_operation st' i = Some (row\<lparr>op_state := Released\<rparr>)"
    using find_operation_SomeD [OF op(1)] op(1)
    by (simp add: find_operation_def append_audit_tables(2) [OF st'] set_operation_state_def set_counters_def find_update_rows)
  have aps: "find_approval st' y = map_option (\<lambda>b. if ap_id b = op_approval row
      then b\<lparr>ap_operations := Some (n - 1), ap_signatures := Some (m - c)\<rparr> else b) (find_approval st y)" for y
    by (simp add: find_approval_def append_audit_tables(3) [OF st'] set_operation_state_def set_counters_def find_update_rows)
  have "find_approval st' y = find_approval st y" if "y \<noteq> op_approval row" for y
    using that aps [of y] find_approval_SomeD [of st y] by (cases "find_approval st y") auto
  moreover have "find_approval st' (op_approval row) = Some (a\<lparr>ap_operations := Some (n - 1), ap_signatures := Some (m - c)\<rparr>)"
    using aps a(1) find_approval_SomeD [OF a(1)] by simp
  ultimately show ?thesis using fin rows a by blast
qed

text \<open>Releasing an operation gives back what it was charged. An operation whose effect did not
  happen can be released; it is then no longer charged, its approval's counters drop by exactly its operation
  and its signatures, and every other approval keeps its counters.\<close>

theorem release_refunds:
  assumes inv: "engine_inv P st" and live: "\<not> aud_degraded (en_audit st)" "journal_room st"
    and op: "find_operation st i = Some row" "op_state row = Reserved \<or> op_state row = Dispatched"
  shows "\<exists>st' a n m c. finalize_operation P i EffectReleased st = (st', Inr ())
     \<and> find_operation st' i = Some (row\<lparr>op_state := Released\<rparr>)
     \<and> find_approval st (op_approval row) = Some a \<and> ap_operations a = Some n \<and> ap_signatures a = Some m
     \<and> op_signature_count row = Some c \<and> 1 \<le> n \<and> c \<le> m
     \<and> find_approval st' (op_approval row) = Some (a\<lparr>ap_operations := Some (n - 1), ap_signatures := Some (m - c)\<rparr>)
     \<and> (\<forall>y. y \<noteq> op_approval row \<longrightarrow> find_approval st' y = find_approval st y)"
  by (rule release_effect [OF assms])

theorem release_refunds_witness:
  "\<exists>st a. finalize_operation sample_prims ''op'' EffectReleased reserved_signer = (st, Inr ())
     \<and> find_approval st sample_approval = Some a \<and> ap_operations a = Some 0 \<and> ap_signatures a = Some 0"
proof -
  from release_refunds [OF reserved_signer_inv reserved_ready(1,2,3)] reserved_ready(4)
  obtain st n m c and a :: approval_row where "finalize_operation sample_prims ''op'' EffectReleased reserved_signer = (st, Inr ())"
    "find_approval reserved_signer (op_approval sample_operation) = Some a" "ap_operations a = Some n" "ap_signatures a = Some m"
    "op_signature_count sample_operation = Some c"
    "find_approval st (op_approval sample_operation) = Some (a\<lparr>ap_operations := Some (n - 1), ap_signatures := Some (m - c)\<rparr>)"
    by blast
  moreover have "op_approval sample_operation = sample_approval" "op_signature_count sample_operation = Some 1"
    by (simp_all add: sample_operation_def)
  ultimately show ?thesis using reserved_ready(5) by auto
qed

end
