(* ===== verification/Clock_Properties.thy ===== *)
theory Clock_Properties
  imports Engine_Sample
begin

text \<open>
  The properties of the trusted clock: effective time never runs backwards, what a read-only
  observation answers, which observations refuse a rate-limited mutation, when the Signer
  reports itself ready, and the kernel's boot identifier.
\<close>

subsection \<open>Monotone time\<close>

text \<open>What the code relies on of the evaluation: effective time is frozen or advanced, never moved back.\<close>

definition clock_monotone :: "durable_clock \<Rightarrow> bool" where
  "clock_monotone eval =
     (\<forall>previous reading epoch max_step d.
        eval (Some previous) reading epoch max_step = Some d \<longrightarrow> pc_last previous \<le> dd_now d)"

text \<open>Steps of the clock: an observation, a repair, or anything that does not write the clock.\<close>

inductive clock_step :: "prims \<Rightarrow> engine \<Rightarrow> engine \<Rightarrow> bool" for P where
  ClockObserve: "clock_monotone eval
     \<Longrightarrow> observe_time P eval reading epoch max_step limited st = (st', res) \<Longrightarrow> clock_step P st st'"
| ClockRepair: "repair_clock P accepted st = (st', res) \<Longrightarrow> clock_step P st st'"
| ClockKeep: "en_clock st' = en_clock st \<Longrightarrow> clock_step P st st'"

definition clock_at_least :: "u64 \<Rightarrow> engine \<Rightarrow> bool" where
  "clock_at_least t st = (\<exists>row now. en_clock st = Some row \<and> cl_last row = Some now \<and> t \<le> now)"

definition clock_grows :: "engine \<Rightarrow> engine \<Rightarrow> bool" where
  "clock_grows s t = (\<forall>now. clock_at_least now s \<longrightarrow> clock_at_least now t)"

lemma append_audit_clock: "append_audit P event payload st = Inr st' \<Longrightarrow> en_clock st' = en_clock st"
  using append_audit_InrD(1) [of P event payload st st'] by auto

lemma observe_time_tx_clock:
  assumes run: "observe_time_tx P eval reading epoch max_step limited st = Inr (st', r)"
  shows "\<exists>d. evaluate_clock eval reading epoch max_step st = Inr d
     \<and> en_clock st' = Some \<lparr>cl_last = Some (dd_now d),
          cl_condition = condition_str (signer_clock_condition (dd_condition d)), cl_observed = rd_utc reading,
          cl_anchor = Some (rd_anchor reading), cl_boot_epoch = Some epoch\<rparr>
     \<and> (r = Inr (decision reading epoch (dd_now d) (signer_clock_condition (dd_condition d)))
        \<or> limited \<and> (\<exists>code. refuses (dd_condition d) = Some code \<and> r = Inl (err code)))"
  using run append_audit_clock
  by (fastforce simp: observe_time_tx_def Let_def result_simps write_clock_state_def split: option.splits if_splits)

lemma evaluate_clock_at_least:
  assumes "clock_monotone eval" "evaluate_clock eval reading epoch max_step st = Inr d" "clock_at_least t st"
  shows "t \<le> dd_now d"
  using assms by (fastforce simp: evaluate_clock_def stored_clock_def clock_at_least_def clock_monotone_def result_simps)

lemma transact_clock:
  assumes run: "transact P body st = (st', res)" and t: "clock_at_least t st"
    and body: "\<And>s x. body st = Inr (s, x) \<Longrightarrow> clock_at_least t s"
  shows "clock_at_least t st'"
  using run
proof (cases rule: transact_cases [of P body st])
  case (latched e s)
  with run t show ?thesis by (auto simp: latched_def clock_at_least_def)
next
  case (returned s x)
  with run body show ?thesis by simp
qed (use run t in simp)

lemma repair_clock_tx_clock:
  assumes run: "repair_clock_tx P accepted st = Inr (st', d)" and t: "clock_at_least t st"
  shows "clock_at_least t st'"
proof -
  from run obtain row prior anchor epoch ev pl where "en_clock st = Some row" "cl_last row = Some prior"
    "prior \<le> accepted" and aud: "append_audit P ev pl (write_clock_state accepted Repaired
        \<lparr>rd_utc = Some accepted, rd_elapsed = 0, rd_anchor = anchor\<rparr> epoch st) = Inr st'"
    by (auto simp: repair_clock_tx_def Let_def result_simps not_less split: if_splits)
  with t append_audit_clock [OF aud] show ?thesis by (auto simp: clock_at_least_def write_clock_state_def)
qed

lemma clock_step_grows: "clock_step P s t \<Longrightarrow> clock_grows s t"
proof (unfold clock_grows_def, intro allI impI)
  fix now assume "clock_step P s t" and at: "clock_at_least now s"
  then show "clock_at_least now t"
  proof cases
    case (ClockObserve eval reading epoch max_step limited res)
    from flatten_result_fst [OF ClockObserve(2) [unfolded observe_time_def]] obtain q where
      tr: "transact P (observe_time_tx P eval reading epoch max_step limited) s = (t, q)" by blast
    show ?thesis
    proof (rule transact_clock [OF tr at])
      fix s' x assume "observe_time_tx P eval reading epoch max_step limited s = Inr (s', x)"
      from observe_time_tx_clock [OF this] evaluate_clock_at_least [OF ClockObserve(1) _ at]
      show "clock_at_least now s'" by (auto simp: clock_at_least_def)
    qed
  next
    case (ClockRepair accepted res)
    show ?thesis
      by (rule transact_clock [OF ClockRepair [unfolded repair_clock_def] at]) (rule repair_clock_tx_clock [OF _ at])
  next
    case ClockKeep
    with at show ?thesis by (simp add: clock_at_least_def)
  qed
qed

interpretation clock_run: transition_system "clock_step P" "\<lambda>_. True" clock_grows for P
  by unfold_locales (auto simp: clock_grows_def dest: clock_step_grows [unfolded clock_grows_def])

lemma observe_time_InrD:
  assumes "observe_time P eval reading epoch max_step limited st = (st', Inr d)"
  shows "\<exists>dd. evaluate_clock eval reading epoch max_step st = Inr dd
     \<and> d = decision reading epoch (dd_now dd) (signer_clock_condition (dd_condition dd))"
proof -
  from assms have "transact P (observe_time_tx P eval reading epoch max_step limited) st = (st', Inr (Inr d))"
    by (auto simp: observe_time_def flatten_result_def split: prod.splits sum.splits)
  from observe_time_tx_clock [OF transact_InrD(3) [OF this]] show ?thesis by auto
qed

text \<open>C14: effective time never goes backwards. Once the stored clock shows a time, every clock a run
  of observations and repairs leaves and every time an observation then returns is at least that time,
  as long as the trusted-time evaluation itself never moves its stored time back.\<close>

theorem clock_never_backwards:
  assumes run: "(clock_step P)\<^sup>*\<^sup>* st st'"
    and start: "en_clock st = Some row" "cl_last row = Some t"
    and eval: "clock_monotone eval"
    and obs: "observe_time P eval reading epoch max_step limited st' = (st'', Inr d)"
  shows "\<exists>row' t'. en_clock st' = Some row' \<and> cl_last row' = Some t' \<and> t \<le> t' \<and> t \<le> cd_now d"
proof -
  have "clock_at_least t st" using start by (auto simp: clock_at_least_def)
  with clock_run.run_grows [OF run] have at: "clock_at_least t st'" by (simp add: clock_grows_def)
  moreover obtain dd where "evaluate_clock eval reading epoch max_step st' = Inr dd" "cd_now d = dd_now dd"
    using observe_time_InrD [OF obs] by (auto simp: decision_def)
  with evaluate_clock_at_least [OF eval _ at] have "t \<le> cd_now d" by simp
  ultimately show ?thesis by (auto simp: clock_at_least_def)
qed

text \<open>A concrete evaluation: freeze on rollback, accept what is not before the stored time.\<close>

definition sample_eval :: durable_clock where
  "sample_eval previous reading epoch max_step =
     Some (case rd_utc reading of
        None \<Rightarrow> \<lparr>dd_now = (case previous of None \<Rightarrow> 0 | Some p \<Rightarrow> pc_last p), dd_condition = DcUntrusted\<rparr>
      | Some utc \<Rightarrow>
          (case previous of
             None \<Rightarrow> \<lparr>dd_now = utc, dd_condition = DcHealthy\<rparr>
           | Some p \<Rightarrow>
               if utc < pc_last p then \<lparr>dd_now = pc_last p, dd_condition = DcRollbackFrozen\<rparr>
               else \<lparr>dd_now = utc, dd_condition = DcHealthy\<rparr>))"

lemma sample_eval_monotone: "clock_monotone sample_eval"
  by (auto simp: clock_monotone_def sample_eval_def split: option.splits)

definition timed_signer :: engine where
  "timed_signer = armed_signer\<lparr>en_clock := Some \<lparr>cl_last = Some 500, cl_condition = ''HEALTHY'',
     cl_observed = Some 500, cl_anchor = Some 7, cl_boot_epoch = Some ''e''\<rparr>\<rparr>"

definition late_reading :: clock_reading where
  "late_reading = \<lparr>rd_utc = Some 400, rd_elapsed = 1, rd_anchor = 8\<rparr>"

lemma timed_signer_inv: "engine_inv sample_prims timed_signer"
  using armed_signer_inv by (simp add: timed_signer_def engine_inv_def core_inv_def keys_good_def)

lemma sample_evaluation:
  "evaluate_clock sample_eval late_reading ''e'' 10 timed_signer = Inr \<lparr>dd_now = 500, dd_condition = DcRollbackFrozen\<rparr>"
  by (simp add: evaluate_clock_def stored_clock_def timed_signer_def sample_eval_def late_reading_def)

text \<open>An evaluated reading is written and audited, whatever it decides.\<close>

lemma observe_time_runs:
  assumes inv: "engine_inv P st" and live: "\<not> aud_degraded (en_audit st)" "journal_room st"
    and ev: "evaluate_clock eval reading epoch max_step st = Inr d"
    and utc: "dd_condition d = DcUntrusted \<or> rd_utc reading \<noteq> None"
  shows "\<exists>st'. observe_time P eval reading epoch max_step limited st
       = (st', case refuses (dd_condition d) of
            Some code \<Rightarrow> if limited then Inl (err code)
                         else Inr (decision reading epoch (dd_now d) (signer_clock_condition (dd_condition d)))
          | None \<Rightarrow> Inr (decision reading epoch (dd_now d) (signer_clock_condition (dd_condition d))))
     \<and> en_clock st' = Some \<lparr>cl_last = Some (dd_now d),
          cl_condition = condition_str (signer_clock_condition (dd_condition d)), cl_observed = rd_utc reading,
          cl_anchor = Some (rd_anchor reading), cl_boot_epoch = Some epoch\<rparr>
     \<and> (\<exists>e. ad_entries (aud_db (en_audit st')) = ad_entries (aud_db (en_audit st)) @ [e]
          \<and> ae_event e = clock_event (dd_condition d) (en_clock st = None))"
proof -
  from utc obtain u where u: "(if dd_condition d = DcUntrusted then Inr 0 else ok_or (rd_utc reading) (err ClockUntrusted)) = Inr u"
    by (cases "dd_condition d = DcUntrusted"; cases "rd_utc reading") auto
  let ?st1 = "write_clock_state (dd_now d) (signer_clock_condition (dd_condition d)) reading epoch st"
  have same: "en_audit ?st1 = en_audit st" by (simp add: write_clock_state_def)
  obtain st' where st': "append_audit P (clock_event (dd_condition d) (en_clock st = None))
      (clock_json (dd_condition d) (en_clock st = None) u (dd_now d) reading epoch) ?st1 = Inr st'"
    using append_audit_same [OF inv live(2) same] by blast
  let ?r = "case refuses (dd_condition d) of
            Some code \<Rightarrow> if limited then Inl (err code)
                         else Inr (decision reading epoch (dd_now d) (signer_clock_condition (dd_condition d)))
          | None \<Rightarrow> Inr (decision reading epoch (dd_now d) (signer_clock_condition (dd_condition d)))"
  have "observe_time_tx P eval reading epoch max_step limited st = Inr (st', ?r)"
    by (simp add: observe_time_tx_def Let_def ev u st')
  then have "transact P (observe_time_tx P eval reading epoch max_step limited) st = (st', Inr ?r)"
    using inv by (intro transact_ready [OF live(1)]) (simp_all add: engine_inv_def)
  then have "observe_time P eval reading epoch max_step limited st = (st', ?r)"
    by (simp add: observe_time_def flatten_result_def)
  moreover have "\<exists>e. ad_entries (aud_db (en_audit st')) = ad_entries (aud_db (en_audit st)) @ [e]
          \<and> ae_event e = clock_event (dd_condition d) (en_clock st = None)"
    using append_audit_InrD(1) [OF st'] same by auto
  ultimately show ?thesis using append_audit_clock [OF st'] by (simp add: write_clock_state_def)
qed

theorem clock_never_backwards_witness:
  "\<exists>st d. observe_time sample_prims sample_eval late_reading ''e'' 10 False timed_signer = (st, Inr d)
     \<and> 500 \<le> cd_now d"
proof -
  have "\<not> aud_degraded (en_audit timed_signer)" "journal_room timed_signer"
    using armed_ready by (simp_all add: timed_signer_def journal_room_def)
  from observe_time_runs [OF timed_signer_inv this sample_evaluation, of False] obtain st d where
    st: "observe_time sample_prims sample_eval late_reading ''e'' 10 False timed_signer = (st, Inr d)"
    by (auto simp: late_reading_def refuses_def)
  from clock_never_backwards [OF rtranclp.rtrancl_refl _ _ sample_eval_monotone st] st show ?thesis
    by (auto simp: timed_signer_def)
qed

text \<open>An observation refuses a rate-limited mutation exactly when the platform time is untrusted
  or has rolled back; what it decided is written to the clock and audited all the same, and an
  observation that is not rate limited returns the decision.\<close>

theorem untrusted_time_refuses_and_records:
  assumes inv: "engine_inv P st" and live: "\<not> aud_degraded (en_audit st)" "journal_room st"
    and ev: "evaluate_clock eval reading epoch max_step st = Inr d"
    and utc: "dd_condition d = DcUntrusted \<or> rd_utc reading \<noteq> None"
  shows "\<exists>st'. observe_time P eval reading epoch max_step limited st
       = (st', if limited \<and> dd_condition d = DcUntrusted then Inl (err ClockUntrusted)
               else if limited \<and> dd_condition d = DcRollbackFrozen then Inl (err ClockRollback)
               else Inr (decision reading epoch (dd_now d) (signer_clock_condition (dd_condition d))))
     \<and> (\<exists>row. en_clock st' = Some row \<and> cl_last row = Some (dd_now d))
     \<and> (\<exists>e. ad_entries (aud_db (en_audit st')) = ad_entries (aud_db (en_audit st)) @ [e])"
  using observe_time_runs [OF inv live ev utc, of limited]
  by (cases "dd_condition d") (auto simp: refuses_def)

theorem untrusted_time_refuses_and_records_witness:
  "\<exists>st. observe_time sample_prims sample_eval late_reading ''e'' 10 True timed_signer = (st, Inl (err ClockRollback))
     \<and> (\<exists>row. en_clock st = Some row \<and> cl_last row = Some 500)"
proof -
  have "\<not> aud_degraded (en_audit timed_signer)" "journal_room timed_signer"
    using armed_ready by (simp_all add: timed_signer_def journal_room_def)
  from untrusted_time_refuses_and_records [OF timed_signer_inv this sample_evaluation, of True]
  show ?thesis by (auto simp: late_reading_def)
qed

text \<open>A read-only observation decides what the observation that writes would return, in every
  state in which the latter returns a decision, and it needs neither the latch nor the journal.\<close>

lemma read_only_observation_agrees:
  assumes "observe_time P eval reading epoch max_step limited st = (st', Inr d)"
  shows "observe_time_read_only eval reading epoch max_step st = Inr d"
  using observe_time_InrD [OF assms] by (auto simp: observe_time_read_only_def)

subsection \<open>The boot identifier\<close>

lemma first_strip_none: "\<forall>w\<in>set ws. w \<noteq> [] \<and> hd w \<noteq> c \<Longrightarrow> first_strip ws (c # cs) = None"
proof (induction ws)
  case (Cons w ws)
  then have "strip_prefix w (c # cs) = None" by (cases w) auto
  with Cons show ?case by simp
qed simp

lemma whitespace_not_hex:
  "\<forall>w\<in>set whitespace_codes. w \<noteq> [] \<and> \<not> is_ascii_hexdigit (hd w)"
  "\<forall>w\<in>set (map rev whitespace_codes). w \<noteq> [] \<and> \<not> is_ascii_hexdigit (hd w)"
  by (simp_all add: whitespace_codes_def utf8_def is_ascii_hexdigit_def is_ascii_digit_def)

lemma trim_codes_hex:
  assumes "\<forall>w\<in>set ws. w \<noteq> [] \<and> \<not> is_ascii_hexdigit (hd w)" "s \<noteq> []" "is_ascii_hexdigit (hd s)"
  shows "trim_codes ws s = s"
proof -
  obtain c cs where s: "s = c # cs" using assms(2) by (cases s) auto
  have "first_strip ws s = None" unfolding s by (rule first_strip_none) (use assms s in auto)
  then show ?thesis by (simp add: trim_codes.simps)
qed

lemma trim_hex_ends:
  assumes "s \<noteq> []" "is_ascii_hexdigit (hd s)" "is_ascii_hexdigit (last s)"
  shows "trim s = s"
  using assms trim_codes_hex [OF whitespace_not_hex(1), of s] trim_codes_hex [OF whitespace_not_hex(2), of "rev s"]
  by (simp add: trim_def hd_rev)

lemma boot_segments_Some:
  "boot_segments ns segs = Some s \<longleftrightarrow>
     map length segs = ns \<and> list_all (list_all is_ascii_hexdigit) segs \<and> s = concat segs"
  by (induction ns segs arbitrary: s rule: boot_segments.induct) auto

lemma lowercase_hex: "is_ascii_hexdigit c \<Longrightarrow> is_ascii_hexdigit (to_ascii_lowercase c) \<and> \<not> is_ascii_uppercase (to_ascii_lowercase c)"
  by (auto simp: is_ascii_hexdigit_def to_ascii_lowercase_def is_ascii_uppercase_def is_ascii_digit_def)

lemma last_concat_hex:
  assumes "list_all (list_all is_ascii_hexdigit) segs" "segs \<noteq> []" "[] \<notin> set segs"
  shows "is_ascii_hexdigit (hd (join_with c segs)) \<and> is_ascii_hexdigit (last (join_with c segs))
     \<and> join_with c segs \<noteq> []"
  using assms
proof (induction c segs rule: join_with.induct)
  case (2 c p)
  then show ?case using hd_in_set [of p] last_in_set [of p] by (auto simp: list_all_iff)
next
  case (3 c p q qs)
  then have ih: "is_ascii_hexdigit (last (join_with c (q # qs)))" "join_with c (q # qs) \<noteq> []" by auto
  have "p \<noteq> []" "is_ascii_hexdigit (hd p)" using 3 by (auto simp: list_all_iff)
  with ih show ?case by auto
qed simp

text \<open>The kernel's boot identifier, five groups of 8, 4, 4, 4 and 12 hex digits joined by dashes, is
  read as the 32 digits in lower case; any epoch read has 32 lower-case hex digits and comes from
  such an identifier, so nothing shorter, longer or otherwise grouped is taken.\<close>

theorem boot_epoch_canonical:
  "(map length segs = [8, 4, 4, 4, 12] \<and> list_all (list_all is_ascii_hexdigit) segs \<longrightarrow>
      parse_linux_boot_epoch (join_with CHR ''-'' segs) = Inr (map to_ascii_lowercase (concat segs)))
   \<and> (parse_linux_boot_epoch raw = Inr e \<longrightarrow>
      length e = 32 \<and> list_all (\<lambda>c. is_ascii_hexdigit c \<and> \<not> is_ascii_uppercase c) e
      \<and> (\<exists>gs. map length gs = [8, 4, 4, 4, 12] \<and> trim raw = join_with CHR ''-'' gs
           \<and> e = map to_ascii_lowercase (concat gs)))"
proof (intro conjI impI)
  assume segs: "map length segs = [8, 4, 4, 4, 12] \<and> list_all (list_all is_ascii_hexdigit) segs"
  then have ne: "segs \<noteq> []" "[] \<notin> set segs" by (auto simp: map_eq_Cons_conv)
  have dash: "CHR ''-'' \<notin> set p" if "p \<in> set segs" for p
    using segs that by (force simp: list_all_iff is_ascii_hexdigit_def is_ascii_digit_def)
  have "trim (join_with CHR ''-'' segs) = join_with CHR ''-'' segs"
    using last_concat_hex [OF conjunct2 [OF segs] ne] by (simp add: trim_hex_ends)
  moreover have "split_on CHR ''-'' (join_with CHR ''-'' segs) = segs"
    by (rule split_on_join) (use ne dash in auto)
  moreover have "boot_segments [8, 4, 4, 4, 12] segs = Some (concat segs)"
    using segs by (simp add: boot_segments_Some)
  ultimately show "parse_linux_boot_epoch (join_with CHR ''-'' segs) = Inr (map to_ascii_lowercase (concat segs))"
    by (simp add: parse_linux_boot_epoch_def)
next
  assume "parse_linux_boot_epoch raw = Inr e"
  then obtain c where c: "boot_segments [8, 4, 4, 4, 12] (split_on CHR ''-'' (trim raw)) = Some c"
    and e: "e = map to_ascii_lowercase c"
    by (auto simp: parse_linux_boot_epoch_def split: option.splits)
  let ?gs = "split_on CHR ''-'' (trim raw)"
  have g: "map length ?gs = [8, 4, 4, 4, 12]" "list_all (list_all is_ascii_hexdigit) ?gs" "c = concat ?gs"
    using c by (auto simp: boot_segments_Some)
  then have "length c = sum_list (map length ?gs)" by (simp add: length_concat)
  with g show "length e = 32" by (simp add: e)
  show "list_all (\<lambda>c. is_ascii_hexdigit c \<and> \<not> is_ascii_uppercase c) e"
    using g lowercase_hex by (auto simp: e list_all_iff)
  show "\<exists>gs. map length gs = [8, 4, 4, 4, 12] \<and> trim raw = join_with CHR ''-'' gs
           \<and> e = map to_ascii_lowercase (concat gs)"
    using g e by (intro exI [of _ ?gs]) (simp add: join_split)
qed

theorem boot_epoch_canonical_witness:
  "parse_linux_boot_epoch ''00112233-4455-6677-8899-AAbbccddeeff'' = Inr ''00112233445566778899aabbccddeeff''"
proof -
  have "list_all (list_all is_ascii_hexdigit) [''00112233'', ''4455'', ''6677'', ''8899'', ''AAbbccddeeff'']"
    by code_simp
  with boot_epoch_canonical [of "[''00112233'', ''4455'', ''6677'', ''8899'', ''AAbbccddeeff'']" "[]" "[]"]
  have "parse_linux_boot_epoch (join_with CHR ''-'' [''00112233'', ''4455'', ''6677'', ''8899'', ''AAbbccddeeff''])
      = Inr (map to_ascii_lowercase (concat [''00112233'', ''4455'', ''6677'', ''8899'', ''AAbbccddeeff'']))"
    by simp
  moreover have "map to_ascii_lowercase (concat [''00112233'', ''4455'', ''6677'', ''8899'', ''AAbbccddeeff''])
      = ''00112233445566778899aabbccddeeff''" by code_simp
  ultimately show ?thesis by simp
qed

end
