(* ===== verification/Engine_Failures.thy ===== *)
theory Engine_Failures
  imports Engine_Properties Clock_Properties
begin

text \<open>
  How the engine fails: a broken or latched journal stops every mutation, and a sound one is
  never latched by the engine's own operations.
\<close>

subsection \<open>A broken journal stops every mutation\<close>

text \<open>Nothing was returned and nothing was changed but, at most, the latch.\<close>

definition failed_closed :: "engine \<Rightarrow> engine \<times> 'a result \<Rightarrow> bool" where
  "failed_closed st sr = (\<not> is_ok (snd sr) \<and> (fst sr = st \<or> latched st (fst sr)))"

lemma failed_closed_refused: "failed_closed st (st, Inl e)"
  by (simp add: failed_closed_def)

lemma transact_broken:
  assumes "aud_degraded (en_audit st) \<or> \<not> journal_verified P (en_audit st)"
  shows "failed_closed st (transact P body st)"
  using assms by (cases rule: transact_cases [of P body st]) (auto simp: failed_closed_def)


text \<open>The sample Signer after its journal was latched.\<close>

definition latched_signer :: engine where
  "latched_signer = armed_signer\<lparr>en_audit := latch_audit_degraded_with ''x'' (en_audit armed_signer)\<rparr>"


subsection \<open>A sound journal is not latched\<close>

text \<open>A computation that does not ask for the latch, and a transaction that neither asks for it nor
  returns a latched state, and adds at most one entry to the journal.\<close>

definition journal_len :: "engine \<Rightarrow> nat" where
  "journal_len st = length (ad_entries (aud_db (en_audit st)))"

definition quiet :: "(bool \<times> protocol_error) + 'a \<Rightarrow> bool" where
  "quiet t = (\<forall>e. t \<noteq> Inl (True, e))"

definition settles :: "nat \<Rightarrow> 'a tx \<Rightarrow> bool" where
  "settles n t =
     (quiet t \<and> (\<forall>s x. t = Inr (s, x) \<longrightarrow> \<not> aud_degraded (en_audit s) \<and> journal_len s \<le> Suc n))"

named_theorems settles_intros

lemma quiet_with_latch [settles_intros]: "quiet (with_latch False r)"
  by (cases r) (simp_all add: quiet_def)

lemma settles_Inr [settles_intros]:
  "\<not> aud_degraded (en_audit s) \<Longrightarrow> journal_len s \<le> Suc n \<Longrightarrow> settles n (Inr (s, x))"
  by (simp add: settles_def quiet_def)

lemma settles_abort [settles_intros]: "settles n (abort code)"
  by (simp add: settles_def quiet_def)

lemma settles_rbind [settles_intros]: "quiet t \<Longrightarrow> (\<And>x. t = Inr x \<Longrightarrow> settles n (f x)) \<Longrightarrow> settles n (rbind t f)"
  by (cases t) (simp_all add: settles_def quiet_def)

lemma settles_if [settles_intros]: "(b \<Longrightarrow> settles n t) \<Longrightarrow> (\<not> b \<Longrightarrow> settles n u) \<Longrightarrow> settles n (if b then t else u)"
  by simp

lemma settles_option [settles_intros]:
  "(x = None \<Longrightarrow> settles n t) \<Longrightarrow> (\<And>y. x = Some y \<Longrightarrow> settles n (f y)) \<Longrightarrow> settles n (case x of None \<Rightarrow> t | Some y \<Rightarrow> f y)"
  by (cases x) simp_all

lemma settles_prod [settles_intros]: "(\<And>a b. p = (a, b) \<Longrightarrow> settles n (f a b)) \<Longrightarrow> settles n (case p of (a, b) \<Rightarrow> f a b)"
  by (cases p) simp

text \<open>The last step of every transaction: append the entry and return.\<close>

lemma settles_append:
  assumes "engine_inv P st" "journal_room st" "\<not> aud_degraded (en_audit st)" "en_audit s = en_audit st"
  shows "settles (journal_len st) (rbind (append_audit P event payload s) (\<lambda>s'. Inr (s', x)))"
proof -
  from append_audit_same [OF assms(1,2,4)] obtain s' where "append_audit P event payload s = Inr s'" by blast
  with append_audit_live [OF this] append_audit_InrD(1) [OF this] assms(3,4) show ?thesis
    by (auto simp: settles_def quiet_def journal_len_def)
qed

text \<open>The tables' operations leave the journal alone.\<close>

lemma table_audit:
  "insert_attempt a st = Inr st' \<Longrightarrow> en_audit st' = en_audit st"
  "insert_approval row st = Inr st' \<Longrightarrow> en_audit st' = en_audit st"
  "reconcile_epoch t st = Inr st' \<Longrightarrow> en_audit st' = en_audit st"
  "store_receipt P c st = Inr st' \<Longrightarrow> en_audit st' = en_audit st"
  "refund_counters op st = Inr st' \<Longrightarrow> en_audit st' = en_audit st"
  "store_revocation_operation i w d res st = Inr st' \<Longrightarrow> en_audit st' = en_audit st"
  by (auto simp: insert_attempt_def insert_approval_def reconcile_epoch_def store_receipt_def refund_counters_def
      set_counters_def store_revocation_operation_def result_simps split: if_splits option.splits)

lemma table_audit_simps [simp]:
  "en_audit (set_counters x n m st) = en_audit st" "en_audit (set_operation_state i s st) = en_audit st"
  "en_audit (deactivate hit st) = en_audit st" "en_audit (insert_or_ignore_approval_tombstone e st) = en_audit st"
  "en_audit (set_wallet_epoch w ep st) = en_audit st" "en_audit (put_wallet_tombstone w tb st) = en_audit st"
  "en_audit (write_clock_state now condition reading epoch st) = en_audit st"
  by (simp_all add: set_counters_def set_operation_state_def deactivate_def insert_or_ignore_approval_tombstone_def
      set_wallet_epoch_def put_wallet_tombstone_def write_clock_state_def)

lemma transactions_settle:
  assumes inv: "engine_inv P st" "journal_room st" "\<not> aud_degraded (en_audit st)"
  shows "settles (journal_len st) (authorize_sign_tx P r clock st)" "settles (journal_len st) (mark_operation_dispatched_tx P i k ids st)"
    "settles (journal_len st) (commit_operation_result_tx P i bs st)" "settles (journal_len st) (finalize_operation_tx P i effect st)"
    "settles (journal_len st) (persist_approval_tx P t x receipt st)" "settles (journal_len st) (revoke_approval_tx P x reason i at st)"
    "settles (journal_len st) (revoke_all_tx P w i at st)"
    "settles (journal_len st) (observe_time_tx P eval reading epoch max_step limited st)" "settles (journal_len st) (repair_clock_tx P accepted st)"
proof -
  note ap = settles_append [OF inv]
  have live: "\<not> aud_degraded (en_audit st)" "journal_len st \<le> Suc (journal_len st)" using inv(3) by simp_all
  show "settles (journal_len st) (mark_operation_dispatched_tx P i k ids st)" "settles (journal_len st) (commit_operation_result_tx P i bs st)"
    unfolding mark_operation_dispatched_tx_def commit_operation_result_tx_def Let_def
    by (intro settles_if settles_abort ap, simp)+
  show "settles (journal_len st) (observe_time_tx P eval reading epoch max_step limited st)" "settles (journal_len st) (repair_clock_tx P accepted st)"
    unfolding observe_time_tx_def repair_clock_tx_def Let_def
    by (intro settles_rbind quiet_with_latch settles_if settles_abort ap, simp)+
  show "settles (journal_len st) (authorize_sign_tx P r clock st)"
    unfolding authorize_sign_tx_def Let_def
    by (intro settles_rbind quiet_with_latch settles_prod ap)
      (auto simp: result_simps dest!: table_audit reserve_operation_audit split: option.splits)
  show "settles (journal_len st) (finalize_operation_tx P i effect st)"
    unfolding finalize_operation_tx_def
    by (intro ap settles_intros live) (auto dest: table_audit split: if_splits)
  show "settles (journal_len st) (persist_approval_tx P t x receipt st)"
    unfolding persist_approval_tx_def
    by (intro ap settles_intros) (auto dest!: table_audit split: option.splits)
  show "settles (journal_len st) (revoke_approval_tx P x reason i at st)" "settles (journal_len st) (revoke_all_tx P w i at st)"
    unfolding revoke_approval_tx_def revoke_all_tx_def Let_def
    by (intro ap settles_intros live; auto dest!: table_audit)+
qed

lemma transact_settled:
  assumes "engine_inv P st" "\<not> aud_degraded (en_audit st)" "transact P body st = (st', res)"
    "settles (journal_len st) (body st)"
  shows "\<not> aud_degraded (en_audit st') \<and> journal_len st' \<le> Suc (journal_len st)"
proof (cases "body st")
  case (Inl le)
  with assms show ?thesis
    by (cases le) (auto simp: transact_def mutation_transaction_def engine_inv_def settles_def quiet_def)
next
  case (Inr sx)
  with assms show ?thesis
    by (cases sx) (auto simp: transact_def mutation_transaction_def engine_inv_def settles_def)
qed

lemma engine_step_live:
  assumes inv: "engine_inv P st" and room: "journal_room st" and live: "\<not> aud_degraded (en_audit st)"
    and step: "engine_step P st st'"
  shows "\<not> aud_degraded (en_audit st') \<and> journal_len st' \<le> Suc (journal_len st)"
proof -
  note settled = transact_settled [OF inv live]
  note settle = transactions_settle [OF inv room live]
  have persist: "\<not> aud_degraded (en_audit st') \<and> journal_len st' \<le> Suc (journal_len st)" if "persist_approval P t rc st = (st', res)" for t rc res
  proof -
    from that consider "st' = st" | x where "transact P (persist_approval_tx P t x rc) st = (st', res)"
      by (auto simp: persist_approval_def split: sum.splits if_splits)
    then show ?thesis
    proof cases
      case 2
      show ?thesis by (rule settled [OF 2 settle(5)])
    qed (use live in simp)
  qed
  from step show ?thesis
  proof cases
    case (Authorize r clock res)
    then show ?thesis using authorize_sign_cases [OF Authorize] live settled [of "authorize_sign_tx P _ _", OF _ settle(1)] by auto
  next
    case (Activate t c res)
    then show ?thesis using persist live by (auto simp: activate_approval_from_ceremony_def split: sum.splits if_splits)
  next
    case (Observe eval reading epoch max_step limited res)
    then obtain res' where "transact P (observe_time_tx P eval reading epoch max_step limited) st = (st', res')"
      by (auto simp: observe_time_def flatten_result_def split: prod.splits sum.splits)
    then show ?thesis using settled [of "observe_time_tx P _ _ _ _ _", OF _ settle(8)] by blast
  next
    case Environment
    then show ?thesis using live by (auto simp: environment_change_def journal_len_def)
  next
    case (Dispatch i k ids res)
    then show ?thesis using settled [of "mark_operation_dispatched_tx P _ _ _", OF _ settle(2)] unfolding mark_operation_dispatched_def by blast
  next
    case (Commit i bs res)
    then show ?thesis using live settled [of "commit_operation_result_tx P _ _", OF _ settle(3)] by (auto simp: commit_operation_result_def split: if_splits)
  next
    case (Finalize i effect res)
    then show ?thesis using live settled [of "finalize_operation_tx P _ _", OF _ settle(4)] by (auto simp: finalize_operation_def split: if_splits)
  next
    case (Revoke x reason i at res)
    then show ?thesis using live settled [of "revoke_approval_tx P _ _ _ _", OF _ settle(6)] by (auto simp: revoke_approval_def split: if_splits)
  next
    case (RevokeAll w i at res)
    then show ?thesis using settled [of "revoke_all_tx P _ _ _", OF _ settle(7)] unfolding revoke_all_def by blast
  next
    case (Repair accepted res)
    then show ?thesis using settled [of "repair_clock_tx P _", OF _ settle(9)] unfolding repair_clock_def by blast
  qed (rule persist)
qed

text \<open>The latch is never a false alarm. From a state of the engine whose journal is sound and has
  room, no operation, whether it succeeds or is refused, latches the journal, and it adds at most one
  entry.\<close>

theorem sound_journal_not_latched:
  assumes inv: "engine_inv P st" and room: "journal_room st" and live: "\<not> aud_degraded (en_audit st)"
    and step: "engine_step P st st'"
  shows "\<not> aud_degraded (en_audit st') \<and> journal_len st' \<le> Suc (journal_len st)"
  by (rule engine_step_live [OF assms])

theorem sound_journal_not_latched_witness:
  "\<exists>st res. authorize_sign sample_prims (sample_request ''a1'') sample_clock armed_signer = (st, res)
     \<and> \<not> aud_degraded (en_audit st)"
proof -
  obtain st res where st: "authorize_sign sample_prims (sample_request ''a1'') sample_clock armed_signer = (st, res)"
    by fastforce
  from sound_journal_not_latched [OF armed_signer_inv armed_ready(2,1) engine_step.Authorize [OF st]] st
  show ?thesis by blast
qed

end
