(* ===== verification/Service_Properties.thy ===== *)
theory Service_Properties
  imports Service Engine_Guarantees Engine_Failures
begin

text \<open>
  The properties of a sign call as the service composes it: it is a run of the engine, it calls the
  backend at most once for an operation, it reports what may have happened, and it never panics.
\<close>

subsection \<open>The stages of a sign call\<close>

lemma clock_observe_run:
  assumes "clock_observe P eval max_step c sample limited st = (st', r)"
  shows "(engine_step P)\<^sup>*\<^sup>* st st'"
  using assms engine_step.Observe [of P]
  by (auto simp: clock_observe_def split: option.splits if_splits)

lemma sign_cases:
  assumes "sign P eval max_step sample decode call sv r st = out"
  obtains (early) st' e where "out = Some ([], st', Inl e)" "(engine_step P)\<^sup>*\<^sup>* st st'"
  | (stored) trusted st1 clock st2 bs where "clock_observe P eval max_step (sv_clock sv) sample trusted st = (st1, Inr clock)"
      "authorize_sign P r clock st1 = (st2, Inr SameOperationRetry)"
      "stored_operation_result st2 (sr_operation_id (req_unsigned r)) = Some bs"
      "out = Some ([], st2, ok_or (decode bs) (err MalformedFrame))"
  | (dispatch) trusted st1 clock st2 auth where "clock_observe P eval max_step (sv_clock sv) sample trusted st = (st1, Inr clock)"
      "authorize_sign P r clock st1 = (st2, Inr auth)"
      "auth = SameOperationRetry \<Longrightarrow> stored_operation_result st2 (sr_operation_id (req_unsigned r)) = None"
      "out = dispatch_operation P call (sv_boot_epoch sv) r st2"
proof (cases "approval_requires_trusted_time st (sr_approval_id (req_unsigned r))")
  case (Inl e)
  with assms have "out = Some ([], st, Inl e)" by (auto simp: sign_def)
  then show thesis by (rule early) simp
next
  case (Inr trusted)
  obtain st1 oc where obs: "clock_observe P eval max_step (sv_clock sv) sample trusted st = (st1, oc)" by fastforce
  note run = clock_observe_run [OF obs]
  show thesis
  proof (cases oc)
    case (Inl e)
    with assms obs \<open>_ = Inr trusted\<close> have "out = Some ([], st1, Inl e)" by (auto simp: sign_def)
    then show thesis by (rule early [OF _ run])
  next
    case oc: (Inr clock)
    obtain st2 ra where auth: "authorize_sign P r clock st1 = (st2, ra)" by fastforce
    have run2: "(engine_step P)\<^sup>*\<^sup>* st st2" using run engine_step.Authorize [OF auth] by (rule rtranclp.rtrancl_into_rtrancl)
    show thesis
    proof (cases ra)
      case (Inl e)
      with assms obs oc auth \<open>_ = Inr trusted\<close> have "out = Some ([], st2, Inl e)" by (auto simp: sign_def)
      then show thesis by (rule early [OF _ run2])
    next
      case ra: (Inr a)
      let ?stored = "if a = SameOperationRetry then stored_operation_result st2 (sr_operation_id (req_unsigned r)) else None"
      have out: "out = (case ?stored of Some bs \<Rightarrow> Some ([], st2, ok_or (decode bs) (err MalformedFrame))
          | None \<Rightarrow> dispatch_operation P call (sv_boot_epoch sv) r st2)"
        using assms obs oc auth ra \<open>_ = Inr trusted\<close> by (simp add: sign_def Let_def)
      show thesis
      proof (cases ?stored)
        case None
        with out have "out = dispatch_operation P call (sv_boot_epoch sv) r st2" by simp
        then show thesis using None by (intro dispatch [OF obs [unfolded oc] auth [unfolded ra]]) simp_all
      next
        case (Some bs)
        then have "a = SameOperationRetry" by (simp split: if_splits)
        with stored [OF obs [unfolded oc]] auth ra Some out show thesis by auto
      qed
    qed
  qed
qed

lemma fail_operation_step:
  assumes "fail_operation P i effect e st = (st', res)"
  shows "engine_step P st st'" "\<not> is_ok res"
  using assms engine_step.Finalize [of P i effect st]
  by (auto simp: fail_operation_def split: prod.splits sum.splits)

text \<open>The requests a loop over children makes, and the outcome of the loop.\<close>

definition child_request :: "unsigned_request \<Rightarrow> nat \<times> digest32 \<times> digest32 \<Rightarrow> backend_sign_request" where
  "child_request u c =
     \<lparr>bs_provider_attempt = snd (snd c), bs_key_ref = sr_key_ref u, bs_suite = sr_suite u,
      bs_input = the (child_input u (fst c) (fst (snd c))), bs_deadline_ms = sr_expires_at_ms u\<rparr>"

definition normalize :: "backend_signature \<Rightarrow> normalized_signature" where
  "normalize s = \<lparr>nsig_suite = sg_suite s, nsig_bytes = sg_bytes s\<rparr>"

definition acceptable :: "unsigned_request \<Rightarrow> backend_signature \<Rightarrow> bool" where
  "acceptable u s = (sg_suite s = sr_suite u \<and> sg_encoding s = signature_encoding_of (sr_suite u))"

lemma sign_children_Cons:
  assumes "child_input u (fst c) (fst (snd c)) \<noteq> None"
  shows "sign_children P call u (c # cs) sigs st =
     (case call (child_request u c) of
        Inl be \<Rightarrow>
          (let effect = failure_effect (sigs = []) be in
           case fail_operation P (sr_operation_id u) effect
             (if effect = EffectQuarantined then err AmbiguousProviderEffect else map_backend_error be) st of
             (st', res) \<Rightarrow> Some ([child_request u c], st', res))
      | Inr s \<Rightarrow>
          if acceptable u s
          then map_option (\<lambda>(calls, rest). (child_request u c # calls, rest)) (sign_children P call u cs (sigs @ [normalize s]) st)
          else (case fail_operation P (sr_operation_id u) EffectQuarantined (err AmbiguousProviderEffect) st of
                  (st', res) \<Rightarrow> Some ([child_request u c], st', res)))"
  using assms
  by (cases c) (auto simp: child_request_def normalize_def acceptable_def Let_def split: option.splits sum.splits)

lemma sign_children_panic:
  "child_input u (fst c) (fst (snd c)) = None \<Longrightarrow> sign_children P call u (c # cs) sigs st = None"
  by (cases c) simp

lemma sign_children_InrD:
  assumes "sign_children P call u cs sigs st = Some (calls, st', Inr out)"
  shows "st' = st \<and> calls = map (child_request u) cs
     \<and> (\<exists>ss. out = sigs @ map normalize ss \<and> map call calls = map Inr ss \<and> list_all (acceptable u) ss)"
  using assms
proof (induction cs arbitrary: sigs calls)
  case (Cons c cs)
  then have input: "child_input u (fst c) (fst (snd c)) \<noteq> None"
    using sign_children_panic [of u c P call cs sigs st] by (intro notI) simp
  obtain s rest where s: "call (child_request u c) = Inr s" "acceptable u s"
    "sign_children P call u cs (sigs @ [normalize s]) st = Some (rest, st', Inr out)" "calls = child_request u c # rest"
    using Cons.prems unfolding sign_children_Cons [OF input] Let_def
    by (auto dest: fail_operation_step(2) split: sum.splits if_splits prod.splits)
  from Cons.IH [OF s(3)] obtain ss where "st' = st" "rest = map (child_request u) cs"
    "out = (sigs @ [normalize s]) @ map normalize ss" "map call rest = map Inr ss" "list_all (acceptable u) ss" by blast
  with s show ?case by (intro conjI exI [of _ "s # ss"]) auto
qed auto

lemma child_request_matches:
  "child_input u (fst c) (fst (snd c)) \<noteq> None \<Longrightarrow> input_matches_suite (child_request u c)"
  by (auto simp: child_request_def input_matches_suite_def child_input_def split: crypto_input_kind.splits if_splits)

lemma sign_children_inputs:
  "sign_children P call u cs sigs st = Some (calls, out) \<Longrightarrow> list_all input_matches_suite calls"
proof (induction cs arbitrary: sigs calls)
  case (Cons c cs)
  then have input: "child_input u (fst c) (fst (snd c)) \<noteq> None"
    using sign_children_panic [of u c P call cs sigs st] by (intro notI) simp
  from Cons.prems Cons.IH child_request_matches [OF input] show ?case unfolding sign_children_Cons [OF input]
    by (auto simp: Let_def split: sum.splits if_splits prod.splits)
qed simp

text \<open>Why an operation is quarantined: the calls before the last were answered with acceptable
  signatures, and the last one may have had an effect, followed calls that had one, or was answered with a
  signature of another suite or encoding.\<close>

definition quarantine_cause ::
  "backend_sign \<Rightarrow> unsigned_request \<Rightarrow> bool \<Rightarrow> backend_sign_request list \<Rightarrow> bool" where
  "quarantine_cause call u first calls =
     (\<exists>qs q. calls = qs @ [q] \<and> list_all (\<lambda>p. \<exists>s. call p = Inr s \<and> acceptable u s) qs
        \<and> (case call q of
             Inl be \<Rightarrow> be = IndeterminateAcceptance \<or> \<not> first \<or> qs \<noteq> []
           | Inr s \<Rightarrow> \<not> acceptable u s))"

text \<open>How a loop that fails leaves the operation.\<close>

definition failed_as ::
  "prims \<Rightarrow> backend_sign \<Rightarrow> unsigned_request \<Rightarrow> bool \<Rightarrow> backend_sign_request list \<Rightarrow> engine \<Rightarrow> engine \<Rightarrow>
   protocol_error \<Rightarrow> bool" where
  "failed_as P call u first calls st st' e =
     (\<exists>effect f res. finalize_operation P (sr_operation_id u) effect st = (st', res)
        \<and> e = (case res of Inl g \<Rightarrow> g | Inr _ \<Rightarrow> f)
        \<and> (effect = EffectQuarantined \<and> f = err AmbiguousProviderEffect \<and> quarantine_cause call u first calls
           \<or> effect = EffectReleased \<and> first \<and>
             (\<exists>q be. calls = [q] \<and> call q = Inl be \<and> be \<noteq> IndeterminateAcceptance \<and> f = map_backend_error be)))"

lemma quarantine_cause_last:
  "(case call q of Inl be \<Rightarrow> be = IndeterminateAcceptance \<or> \<not> first | Inr s \<Rightarrow> \<not> acceptable u s)
   \<Longrightarrow> quarantine_cause call u first [q]"
  unfolding quarantine_cause_def by (rule exI [of _ "[]"]) (auto split: sum.splits)

lemma quarantine_cause_Cons:
  assumes "call q = Inr s" "acceptable u s" "quarantine_cause call u False calls"
  shows "quarantine_cause call u first (q # calls)"
proof -
  from assms(3) obtain qs p where "calls = qs @ [p]" "list_all (\<lambda>p. \<exists>s. call p = Inr s \<and> acceptable u s) qs"
    "case call p of Inl be \<Rightarrow> be = IndeterminateAcceptance \<or> \<not> False \<or> qs \<noteq> [] | Inr s \<Rightarrow> \<not> acceptable u s"
    unfolding quarantine_cause_def by blast
  with assms(1,2) show ?thesis unfolding quarantine_cause_def
    by (intro exI [of _ "q # qs"] exI [of _ p]) (auto split: sum.splits)
qed

lemma fail_operation_finalizes:
  assumes "fail_operation P i effect f st = (st', Inl e)"
  shows "\<exists>res. finalize_operation P i effect st = (st', res) \<and> e = (case res of Inl g \<Rightarrow> g | Inr _ \<Rightarrow> f)"
  using assms by (auto simp: fail_operation_def split: prod.splits sum.splits)

lemma sign_children_InlD:
  assumes "sign_children P call u cs sigs st = Some (calls, st', Inl e)"
  shows "calls \<noteq> [] \<and> (\<exists>rest. map (child_request u) cs = calls @ rest) \<and> failed_as P call u (sigs = []) calls st st' e"
  using assms
proof (induction cs arbitrary: sigs calls)
  case (Cons c cs)
  then have input: "child_input u (fst c) (fst (snd c)) \<noteq> None"
    using sign_children_panic [of u c P call cs sigs st] by (intro notI) simp
  note run = Cons.prems [unfolded sign_children_Cons [OF input]]
  show ?case
  proof (cases "call (child_request u c)")
    case (Inl be)
    let ?effect = "failure_effect (sigs = []) be"
    let ?f = "if ?effect = EffectQuarantined then err AmbiguousProviderEffect else map_backend_error be"
    from run Inl have calls: "calls = [child_request u c]"
      and fail: "fail_operation P (sr_operation_id u) ?effect ?f st = (st', Inl e :: normalized_signature list result)"
      by (auto simp: Let_def split: prod.splits)
    from fail_operation_finalizes [OF fail] obtain res where
      fin: "finalize_operation P (sr_operation_id u) ?effect st = (st', res)" "e = (case res of Inl g \<Rightarrow> g | Inr _ \<Rightarrow> ?f)"
      by blast
    have "?effect = EffectQuarantined \<and> (be = IndeterminateAcceptance \<or> sigs \<noteq> [])
        \<or> ?effect = EffectReleased \<and> sigs = [] \<and> be \<noteq> IndeterminateAcceptance"
      by (cases be) (auto simp: failure_effect_def)
    then have "failed_as P call u (sigs = []) calls st st' e"
    proof
      assume q: "?effect = EffectQuarantined \<and> (be = IndeterminateAcceptance \<or> sigs \<noteq> [])"
      then have "quarantine_cause call u (sigs = []) calls" unfolding calls by (intro quarantine_cause_last) (auto simp: Inl)
      with q fin show ?thesis unfolding failed_as_def by auto
    next
      assume "?effect = EffectReleased \<and> sigs = [] \<and> be \<noteq> IndeterminateAcceptance"
      with fin calls Inl show ?thesis unfolding failed_as_def
        by (intro exI [of _ EffectReleased] exI [of _ "map_backend_error be"] exI [of _ res]) auto
    qed
    with calls show ?thesis by simp
  next
    case (Inr s)
    show ?thesis
    proof (cases "acceptable u s")
      case True
      with run Inr obtain rest where rest: "sign_children P call u cs (sigs @ [normalize s]) st = Some (rest, st', Inl e)"
        "calls = child_request u c # rest" by auto
      from Cons.IH [OF rest(1)] rest(2) quarantine_cause_Cons [of call "child_request u c" s u, OF Inr True] show ?thesis by (auto simp: failed_as_def)
    next
      case False
      with run Inr have calls: "calls = [child_request u c]"
        and fail: "fail_operation P (sr_operation_id u) EffectQuarantined (err AmbiguousProviderEffect) st
            = (st', Inl e :: normalized_signature list result)"
        by (auto split: prod.splits)
      have "quarantine_cause call u (sigs = []) calls"
        unfolding calls using Inr False by (intro quarantine_cause_last) simp
      with fail_operation_finalizes [OF fail] calls show ?thesis unfolding failed_as_def by auto
    qed
  qed
qed auto

subsection \<open>Dispatching\<close>

abbreviation children :: "prims \<Rightarrow> string \<Rightarrow> unsigned_request \<Rightarrow> (nat \<times> digest32 \<times> digest32) list" where
  "children P boot_epoch u \<equiv>
     zip [0..<length (sr_hashes u)] (zip (sr_hashes u)
       (map (provider_attempt_id P (sr_operation_digest u) boot_epoch) [0..<length (sr_hashes u)]))"

lemma dispatch_operation_cases:
  assumes "dispatch_operation P call be r st = Some (calls, st', res)"
  obtains (refused) ids e where "mark_operation_dispatched P (sr_operation_id (req_unsigned r)) (sr_key_ref (req_unsigned r)) ids st
        = (st', Inl e)" "calls = []" "res = Inl e"
  | (no_backend) ids where "mark_operation_dispatched P (sr_operation_id (req_unsigned r)) (sr_key_ref (req_unsigned r)) ids st
        = (st', Inr ())" "calls = []" "res = Inl (err BackendUnsupported)"
  | (failed) ids st1 e where "mark_operation_dispatched P (sr_operation_id (req_unsigned r)) (sr_key_ref (req_unsigned r)) ids st
        = (st1, Inr ())" "sign_children P call (req_unsigned r) (children P be (req_unsigned r)) [] st1 = Some (calls, st', Inl e)"
        "res = Inl e"
  | (finished) ids st1 sigs rc where "mark_operation_dispatched P (sr_operation_id (req_unsigned r)) (sr_key_ref (req_unsigned r)) ids st
        = (st1, Inr ())" "sign_children P call (req_unsigned r) (children P be (req_unsigned r)) [] st1 = Some (calls, st1, Inr sigs)"
        "commit_operation_result P (sr_operation_id (req_unsigned r))
           (p_jcs P (signing_result_json (normalized_result P r sigs))) st1 = (st', rc)"
        "res = rbind rc (\<lambda>_. Inr (normalized_result P r sigs))"
proof -
  let ?u = "req_unsigned r"
  let ?ids = "map (provider_attempt_id P (sr_operation_digest ?u) be) [0..<length (sr_hashes ?u)]"
  obtain st1 rm where mark: "mark_operation_dispatched P (sr_operation_id ?u) (sr_key_ref ?u) ?ids st = (st1, rm)" by fastforce
  show thesis
  proof (cases rm)
    case (Inl e)
    with assms mark show thesis by (intro refused) (auto simp: dispatch_operation_def Let_def)
  next
    case rm: (Inr x)
    show thesis
    proof (cases "en_backends st1 (kr_backend (sr_key_ref ?u), kr_backend_instance (sr_key_ref ?u)) = None")
      case True
      with assms mark rm show thesis by (intro no_backend) (auto simp: dispatch_operation_def Let_def)
    next
      case False
      let ?loop = "sign_children P call ?u (children P be ?u) [] st1"
      have run: "(case ?loop of None \<Rightarrow> None | Some (calls, st2, Inl e) \<Rightarrow> Some (calls, st2, Inl e)
         | Some (calls, st2, Inr signatures) \<Rightarrow>
             (case commit_operation_result P (sr_operation_id ?u)
                (p_jcs P (signing_result_json (normalized_result P r signatures))) st2 of
                (st3, Inl e) \<Rightarrow> Some (calls, st3, Inl e)
              | (st3, Inr _) \<Rightarrow> Some (calls, st3, Inr (normalized_result P r signatures)))) = Some (calls, st', res)"
        using assms [unfolded dispatch_operation_def Let_def] mark rm False by simp
      then obtain cs st2 out where loop: "?loop = Some (cs, st2, out)" by (cases ?loop) auto
      show thesis
      proof (cases out)
        case (Inl e)
        with run loop have "cs = calls" "st2 = st'" "res = Inl e" by auto
        with Inl loop mark rm show thesis by (intro failed) auto
      next
        case (Inr sigs)
        obtain st3 rc where commit: "commit_operation_result P (sr_operation_id ?u)
            (p_jcs P (signing_result_json (normalized_result P r sigs))) st2 = (st3, rc)" by fastforce
        have "st2 = st1" using sign_children_InrD loop Inr by fastforce
        moreover have "cs = calls" "st3 = st'" "res = rbind rc (\<lambda>_. Inr (normalized_result P r sigs))"
          using run loop Inr commit by (auto split: sum.splits)
        ultimately show thesis using finished mark rm loop Inr commit by simp
      qed
    qed
  qed
qed

lemma dispatch_operation_run:
  assumes "dispatch_operation P call be r st = Some (calls, st', res)"
  shows "(engine_step P)\<^sup>*\<^sup>* st st'"
  using assms
proof (cases rule: dispatch_operation_cases)
  case (failed ids st1 e)
  from sign_children_InlD [OF failed(2)] have "engine_step P st1 st'"
    by (auto simp: failed_as_def intro: engine_step.Finalize)
  with engine_step.Dispatch [OF failed(1)] show ?thesis by auto
next
  case (finished ids st1 sigs rc)
  from engine_step.Dispatch [OF finished(1)] engine_step.Commit [OF finished(3)] show ?thesis by auto
qed (auto intro: engine_step.Dispatch)

lemma sign_run:
  assumes "sign P eval max_step sample decode call sv r st = Some (calls, st', res)"
  shows "(engine_step P)\<^sup>*\<^sup>* st st'"
  using assms
proof (cases rule: sign_cases)
  case (stored trusted st1 clock st2 bs)
  from clock_observe_run [OF stored(1)] engine_step.Authorize [OF stored(2)] stored(4) show ?thesis by auto
next
  case (dispatch trusted st1 clock st2 auth)
  from dispatch(4) have "dispatch_operation P call (sv_boot_epoch sv) r st2 = Some (calls, st', res)" by simp
  from dispatch_operation_run [OF this] clock_observe_run [OF dispatch(1)] engine_step.Authorize [OF dispatch(2)] show ?thesis
    by (meson rtranclp.rtrancl_into_rtrancl rtranclp_trans)
qed auto

text \<open>A call that reaches the backend has marked the operation dispatched, in a state on its way.\<close>

lemma calls_dispatched:
  assumes inv: "engine_inv P st" and run: "sign P eval max_step sample decode call sv r st = Some (calls, st', res)"
    and calls: "calls \<noteq> []"
  shows "\<exists>s ids s1. engine_inv P s \<and> (engine_step P)\<^sup>*\<^sup>* s1 st'
     \<and> mark_operation_dispatched P (sr_operation_id (req_unsigned r)) (sr_key_ref (req_unsigned r)) ids s = (s1, Inr ())"
  using run
proof (cases rule: sign_cases)
  case (dispatch trusted st1 clock st2 auth)
  have inv2: "engine_inv P st2"
    using run_inv_grows(1) [OF inv clock_observe_run [OF dispatch(1)]] engine_step_inv engine_step.Authorize [OF dispatch(2)] by blast
  from dispatch(4) have "dispatch_operation P call (sv_boot_epoch sv) r st2 = Some (calls, st', res)" by simp
  then show ?thesis
  proof (cases rule: dispatch_operation_cases)
    case (failed ids s1 e)
    from sign_children_InlD [OF failed(2)] have "engine_step P s1 st'"
      by (auto simp: failed_as_def intro: engine_step.Finalize)
    with inv2 failed(1) show ?thesis by blast
  next
    case (finished ids s1 sigs rc)
    with inv2 engine_step.Commit [OF finished(3)] show ?thesis by blast
  qed (use calls in auto)
qed (use calls in auto)

lemma not_reserved_again: "state_le s t \<Longrightarrow> s \<noteq> Reserved \<Longrightarrow> t \<noteq> Reserved"
  by (cases s) (auto simp: state_le_def)

lemma dispatched_not_again:
  assumes inv: "engine_inv P st" and row: "find_operation st (sr_operation_id (req_unsigned r)) = Some row"
    "op_state row \<noteq> Reserved" and run: "sign P eval max_step sample decode call sv r st = Some (calls, st', res)"
  shows "calls = []"
  using run
proof (cases rule: sign_cases)
  case (dispatch trusted st1 clock st2 auth)
  note later = run_inv_grows [OF inv clock_observe_run [OF dispatch(1)]]
  obtain row1 where row1: "find_operation st1 (sr_operation_id (req_unsigned r)) = Some row1" "op_state row1 \<noteq> Reserved"
    using run_operation [OF later(2,1) row(1)] row(2) not_reserved_again by (metis operation_le_def)
  note ex = authorize_existing [OF dispatch(2) row1(1)]
  have c: "op_state row1 = Committed" using retry_operation_InrD(1) [OF ex(2)] row1(2) by blast
  note step = engine_step.Authorize [OF dispatch(2)]
  have inv2: "engine_inv P st2" by (rule engine_step_inv [OF later(1) step])
  obtain row2 where row2: "find_operation st2 (sr_operation_id (req_unsigned r)) = Some row2" "op_state row2 = Committed"
    using run_operation [OF engine_step_grows [OF later(1) step] inv2 row1(1)] c
    by (auto simp: operation_le_def state_le_def)
  have "core_inv P st2" using inv2 by (simp add: engine_inv_def)
  from stored_result_of_row [OF this row2] dispatch(3) ex(1) show ?thesis by simp
qed auto

text \<open>C1: the backend is asked to sign an operation in at most one call of the service. Once a sign call has reached
  the backend, every later sign call for the same operation, whatever happened in between and whatever it
  carries, makes no call to any backend.\<close>

theorem backend_called_once:
  assumes inv: "engine_inv P st" and first: "sign P eval max_step sample decode call sv r st = Some (calls, st1, res)"
    and calls: "calls \<noteq> []" and run: "(engine_step P)\<^sup>*\<^sup>* st1 st2"
    and again: "sign P eval' max_step' sample' decode' call' sv' r' st2 = Some (calls', st3, res')"
    and same: "sr_operation_id (req_unsigned r') = sr_operation_id (req_unsigned r)"
  shows "calls' = []"
proof -
  from calls_dispatched [OF inv first calls] obtain s ids s1 where s: "engine_inv P s" "(engine_step P)\<^sup>*\<^sup>* s1 st1"
    "mark_operation_dispatched P (sr_operation_id (req_unsigned r)) (sr_key_ref (req_unsigned r)) ids s = (s1, Inr ())"
    by blast
  have inv1: "engine_inv P s1" by (rule engine_step_inv [OF s(1) engine_step.Dispatch [OF s(3)]])
  have "(engine_step P)\<^sup>*\<^sup>* s1 st2" using s(2) run by (rule rtranclp_trans)
  note later = run_inv_grows [OF inv1 this]
  obtain row1 where "find_operation s1 (sr_operation_id (req_unsigned r)) = Some row1" "op_state row1 = Dispatched"
    using mark_dispatched_row(1) [OF s(1,3)] by blast
  then obtain row where "find_operation st2 (sr_operation_id (req_unsigned r')) = Some row" "op_state row \<noteq> Reserved"
    using run_operation [OF later(2,1)] same by (fastforce simp: operation_le_def state_le_def)
  from dispatched_not_again [OF later(1) this again] show ?thesis .
qed

subsection \<open>What a sign call reports\<close>

lemma finalize_dispatched:
  assumes inv: "engine_inv P st" and live: "\<not> aud_degraded (en_audit st)" "journal_room st"
    and op: "find_operation st i = Some row" "op_state row = Dispatched" and effect: "effect \<noteq> EffectCommitted"
  shows "\<exists>st'. finalize_operation P i effect st = (st', Inr ()) \<and> find_operation st' i = Some (row\<lparr>op_state := effect_state effect\<rparr>)"
proof (cases effect)
  case EffectReleased
  with release_effect [OF inv live op(1)] op(2) show ?thesis by auto
next
  case EffectQuarantined
  let ?st1 = "set_operation_state i Quarantined st"
  obtain st' where st': "append_audit P ''sign.finalized''
      (JObj [(''operation_id'', JStr i), (''effect'', JStr ''QUARANTINED'')]) ?st1 = Inr st'"
    using append_audit_same [OF inv live(2), of ?st1] by auto
  have "finalize_operation_tx P i EffectQuarantined st = Inr (st', ())"
    using op by (auto simp: finalize_operation_tx_def st')
  then have "transact P (finalize_operation_tx P i EffectQuarantined) st = (st', Inr ())"
    using inv by (intro transact_ready [OF live(1)]) (simp_all add: engine_inv_def)
  moreover have "find_operation st' i = Some (row\<lparr>op_state := Quarantined\<rparr>)"
    using find_operation_SomeD [OF op(1)] op(1)
    by (simp add: find_operation_def append_audit_tables(2) [OF st'] set_operation_state_def find_update_rows)
  ultimately show ?thesis by (simp add: EffectQuarantined finalize_operation_def)
qed (use effect in simp)

lemma clock_observe_live:
  assumes "engine_inv P st" "journal_room st" "\<not> aud_degraded (en_audit st)"
    "clock_observe P eval max_step c sample limited st = (st', r)"
  shows "engine_inv P st' \<and> \<not> aud_degraded (en_audit st') \<and> journal_len st' \<le> Suc (journal_len st)"
proof -
  from assms(4) consider "st' = st"
    | reading res where "observe_time P eval reading (sc_boot_epoch c) max_step limited st = (st', res)"
    by (auto simp: clock_observe_def split: option.splits if_splits)
  then show ?thesis
  proof cases
    case 2
    note step = engine_step.Observe [OF this]
    from engine_step_live [OF assms(1-3) step] engine_step_inv [OF assms(1) step] show ?thesis by blast
  qed (use assms in simp)
qed

text \<open>What the operation and the answer look like after a dispatch that reached the backend.\<close>

definition outcome_ok ::
  "prims \<Rightarrow> backend_sign \<Rightarrow> string \<Rightarrow> sign_request \<Rightarrow> backend_sign_request list \<Rightarrow> signing_result result \<Rightarrow> operation_row \<Rightarrow> bool"
where
  "outcome_ok P call boot_epoch r calls res row \<longleftrightarrow>
     (case res of
        Inr x \<Rightarrow> op_state row = Committed \<and> op_result row = Some (p_jcs P (signing_result_json x))
          \<and> calls = map (child_request (req_unsigned r)) (children P boot_epoch (req_unsigned r))
          \<and> (\<exists>ss. res_signatures x = map normalize ss \<and> map call calls = map Inr ss
                 \<and> list_all (acceptable (req_unsigned r)) ss)
      | Inl e \<Rightarrow>
          op_state row = Quarantined \<and> e = err AmbiguousProviderEffect \<and> quarantine_cause call (req_unsigned r) True calls
          \<or> op_state row = Released \<and> (\<exists>q be. calls = [q] \<and> call q = Inl be \<and> be \<noteq> IndeterminateAcceptance
                \<and> e = map_backend_error be))
      \<and> (\<exists>rest. map (child_request (req_unsigned r)) (children P boot_epoch (req_unsigned r)) = calls @ rest)
      \<and> list_all input_matches_suite calls"

lemma dispatch_outcome:
  assumes inv: "engine_inv P st" and live: "\<not> aud_degraded (en_audit st)" and room: "journal_len st + 1 < 2 ^ 63"
    and jcs: "\<And>j. p_jcs P j \<noteq> []"
    and run: "dispatch_operation P call be r st = Some (calls, st', res)" and calls: "calls \<noteq> []"
  shows "\<exists>row. find_operation st' (sr_operation_id (req_unsigned r)) = Some row \<and> outcome_ok P call be r calls res row"
  using run
proof (cases rule: dispatch_operation_cases)
  case (failed ids st1 e)
  note step = engine_step.Dispatch [OF failed(1)]
  have room0: "journal_room st" using room by (simp add: journal_room_def journal_len_def)
  note inv1 = engine_step_inv [OF inv step] and live1 = engine_step_live [OF inv room0 live step]
  have room1: "journal_room st1" using room live1 by (simp add: journal_room_def journal_len_def)
  obtain row where row: "find_operation st1 (sr_operation_id (req_unsigned r)) = Some row" "op_state row = Dispatched"
    using mark_dispatched_row(1) [OF inv failed(1)] by blast
  from sign_children_InlD [OF failed(2)] obtain effect f rf where
    fin: "finalize_operation P (sr_operation_id (req_unsigned r)) effect st1 = (st', rf)"
    and e: "e = (case rf of Inl g \<Rightarrow> g | Inr _ \<Rightarrow> f)"
    and how: "effect = EffectQuarantined \<and> f = err AmbiguousProviderEffect \<and> quarantine_cause call (req_unsigned r) True calls
       \<or> effect = EffectReleased \<and> (\<exists>q be. calls = [q] \<and> call q = Inl be \<and> be \<noteq> IndeterminateAcceptance \<and> f = map_backend_error be)"
    by (auto simp: failed_as_def)
  have "effect \<noteq> EffectCommitted" using how by auto
  from finalize_dispatched [OF inv1 conjunct1 [OF live1] room1 row this] fin have
    "rf = Inr ()" "find_operation st' (sr_operation_id (req_unsigned r)) = Some (row\<lparr>op_state := effect_state effect\<rparr>)" by auto
  with e how failed(3) sign_children_InlD [OF failed(2)] sign_children_inputs [OF failed(2)] show ?thesis
    by (auto simp: outcome_ok_def)
next
  case (finished ids st1 sigs rc)
  note step = engine_step.Dispatch [OF finished(1)]
  have room0: "journal_room st" using room by (simp add: journal_room_def journal_len_def)
  note inv1 = engine_step_inv [OF inv step] and live1 = engine_step_live [OF inv room0 live step]
  have room1: "journal_room st1" using room live1 by (simp add: journal_room_def journal_len_def)
  obtain row where row: "find_operation st1 (sr_operation_id (req_unsigned r)) = Some row" "op_state row = Dispatched"
    using mark_dispatched_row(1) [OF inv finished(1)] by blast
  from commit_succeeds [OF inv1 conjunct1 [OF live1] room1 jcs row(1), of "signing_result_json (normalized_result P r sigs)"]
    row(2) finished(3) have "rc = Inr ()" by auto
  with finished have res: "res = Inr (normalized_result P r sigs)"
    and commit: "commit_operation_result P (sr_operation_id (req_unsigned r))
       (p_jcs P (signing_result_json (normalized_result P r sigs))) st1 = (st', Inr ())" by simp_all
  have "res_signatures (normalized_result P r sigs) = sigs" by (simp add: normalized_result_def Let_def)
  with commit_row [OF inv1 commit] res sign_children_InrD [OF finished(2)] sign_children_inputs [OF finished(2)] show ?thesis
    by (auto simp: outcome_ok_def)
qed (use calls in auto)

lemma sign_outcome:
  assumes inv: "engine_inv P st" and live: "\<not> aud_degraded (en_audit st)" and room: "journal_len st + 4 \<le> 2 ^ 63"
    and jcs: "\<And>j. p_jcs P j \<noteq> []"
    and run: "sign P eval max_step sample decode call sv r st = Some (calls, st', res)" and calls: "calls \<noteq> []"
  shows "\<exists>row. find_operation st' (sr_operation_id (req_unsigned r)) = Some row
     \<and> outcome_ok P call (sv_boot_epoch sv) r calls res row"
  using run
proof (cases rule: sign_cases)
  case (dispatch trusted st1 clock st2 auth)
  have room0: "journal_room st" using room by (simp add: journal_room_def journal_len_def)
  note s1 = clock_observe_live [OF inv room0 live dispatch(1)]
  have room1: "journal_room st1" using room s1 by (simp add: journal_room_def journal_len_def)
  note step = engine_step.Authorize [OF dispatch(2)]
  have s2: "engine_inv P st2" "\<not> aud_degraded (en_audit st2)" "journal_len st2 + 1 < 2 ^ 63"
    using engine_step_live [OF _ room1 _ step] engine_step_inv [OF _ step] s1 room by auto
  from dispatch(4) have "dispatch_operation P call (sv_boot_epoch sv) r st2 = Some (calls, st', res)" by simp
  from dispatch_outcome [OF s2 jcs this calls] show ?thesis .
qed (use calls in auto)

text \<open>C2: a sign call that reached the backend reports what may have happened. It asked for the ordered hashes
  in order, with the request's key, suite and input, and stopped no later than at the last of them. Either it returns one
  accepted signature per hash and exactly this result is committed; or the first and only call was definitively refused, the
  operation is released and the refusal is reported; or the operation is quarantined, keeps being charged, the error is
  \<open>AMBIGUOUS_PROVIDER_EFFECT\<close>, and there was a reason: the last call may have had an effect, it failed after an earlier
  signature was given out, or its answer has another suite or encoding. The journal has to be sound, with room for four
  entries, and encodings are not empty.\<close>

theorem sign_outcome_truthful:
  assumes inv: "engine_inv P st" and live: "\<not> aud_degraded (en_audit st)" and room: "journal_len st + 4 \<le> 2 ^ 63"
    and jcs: "\<And>j. p_jcs P j \<noteq> []"
    and run: "sign P eval max_step sample decode call sv r st = Some (calls, st', res)" and calls: "calls \<noteq> []"
  shows "\<exists>row. find_operation st' (sr_operation_id (req_unsigned r)) = Some row
     \<and> outcome_ok P call (sv_boot_epoch sv) r calls res row"
  by (rule sign_outcome [OF assms])

subsection \<open>A sign call that succeeds\<close>

definition sample_service :: service where
  "sample_service = \<lparr>sv_clock = \<lparr>sc_boot_epoch = ''b'', sc_durable_guard = False\<rparr>, sv_boot_epoch = ''e'', sv_contained = None\<rparr>"

definition sample_reading :: clock_reading where
  "sample_reading = \<lparr>rd_utc = Some 100, rd_elapsed = 0, rd_anchor = 5\<rparr>"

definition sample_answer :: backend_signature where
  "sample_answer = \<lparr>sg_suite = Secp256k1Keccak256Recoverable, sg_encoding = Secp256k1Recoverable65, sg_bytes = [9],
     sg_correlation = None\<rparr>"

text \<open>The evaluation is not consulted by a clock without its durable guard.\<close>

abbreviation sample_sign_with ::
  "backend_sign \<Rightarrow> (bytes \<Rightarrow> signing_result option) \<Rightarrow> string \<Rightarrow> engine
   \<Rightarrow> (backend_sign_request list \<times> engine \<times> signing_result result) option" where
  "sample_sign_with call decode a \<equiv> sign sample_prims (\<lambda>_ _ _ _. None) 0 (Some sample_reading) decode call
     sample_service (sample_request a)"

abbreviation sample_sign ::
  "(bytes \<Rightarrow> signing_result option) \<Rightarrow> string \<Rightarrow> engine \<Rightarrow> (backend_sign_request list \<times> engine \<times> signing_result result) option" where
  "sample_sign \<equiv> sample_sign_with (\<lambda>_. Inr sample_answer)"

text \<open>A backend that answers the one child of the sample request acceptably.\<close>

definition sample_answers :: "backend_sign \<Rightarrow> bool" where
  "sample_answers call = (\<forall>a. \<forall>c\<in>set (children sample_prims ''e'' (sample_unsigned a)).
     \<exists>s. call (child_request (sample_unsigned a) c) = Inr s \<and> acceptable (sample_unsigned a) s)"

lemma sample_answer_answers: "sample_answers (\<lambda>_. Inr sample_answer)"
  by (simp add: sample_answers_def acceptable_def sample_answer_def sample_unsigned_simps)

lemma sample_sign_steps:
  assumes "approval_requires_trusted_time st sample_approval = Inr trusted"
  shows "sample_sign_with call decode a st =
     (case authorize_sign sample_prims (sample_request a) sample_clock st of
        (st2, Inl e) \<Rightarrow> Some ([], st2, Inl e)
      | (st2, Inr authorization) \<Rightarrow>
          (case (if authorization = SameOperationRetry then stored_operation_result st2 ''op'' else None) of
             Some stored \<Rightarrow> Some ([], st2, ok_or (decode stored) (err MalformedFrame))
           | None \<Rightarrow> dispatch_operation sample_prims call ''e'' (sample_request a) st2))"
proof -
  have obs: "clock_observe sample_prims (\<lambda>_ _ _ _. None) 0 (sv_clock sample_service) (Some sample_reading) trusted st
      = (st, Inr sample_clock)"
    by (simp add: clock_observe_def sample_service_def host_wall_clock_decision_def sample_reading_def sample_clock_def)
  have u: "sr_approval_id (req_unsigned (sample_request a)) = sample_approval"
    "sr_operation_id (req_unsigned (sample_request a)) = ''op''" "sv_boot_epoch sample_service = ''e''"
    by (simp_all add: sample_request_def sample_unsigned_simps sample_service_def)
  show ?thesis unfolding sign_def Let_def u assms obs sum.case prod.case by (rule refl)
qed

lemma sample_jcs_nonempty: "p_jcs sample_prims j \<noteq> []"
  by (cases j) (simp_all add: sample_prims_def)

lemma mark_tables:
  assumes "mark_operation_dispatched P i k ids st = (st', Inr u)"
  shows "\<exists>a. st' = st\<lparr>en_operations := update_rows (\<lambda>r. op_id r = i \<and> op_state r = Reserved) (\<lambda>r. r\<lparr>op_state := Dispatched\<rparr>)
     (en_operations st), en_audit := a\<rparr>"
  using transact_InrD(3) [OF assms [unfolded mark_operation_dispatched_def]]
  by (auto simp: mark_operation_dispatched_tx_def Let_def result_simps split: if_splits dest!: append_audit_InrD(1))

lemma commit_tables:
  assumes "commit_operation_result P i bs st = (st', Inr u)"
  shows "\<exists>a. st' = st\<lparr>en_operations := update_rows (\<lambda>r. op_id r = i \<and> (op_state r = Reserved \<or> op_state r = Dispatched))
     (\<lambda>r. r\<lparr>op_state := Committed, op_result := Some bs\<rparr>) (en_operations st), en_audit := a\<rparr>"
proof -
  from assms have "transact P (commit_operation_result_tx P i bs) st = (st', Inr u)"
    by (simp add: commit_operation_result_def split: if_splits)
  from transact_InrD(3) [OF this] show ?thesis
    by (auto simp: commit_operation_result_tx_def Let_def result_simps split: if_splits dest!: append_audit_InrD(1))
qed

lemma sample_dispatch:
  assumes inv: "engine_inv sample_prims st" and live: "\<not> aud_degraded (en_audit st)" "journal_len st + 1 < 2 ^ 63"
    and answers: "sample_answers call"
    and op: "find_operation st ''op'' = Some row" "op_state row = Reserved" and backend: "en_backends st = sample_backends"
  shows "\<exists>calls st' x ops aud. dispatch_operation sample_prims call ''e'' (sample_request a) st
     = Some (calls, st', Inr x) \<and> calls \<noteq> [] \<and> st' = st\<lparr>en_operations := ops, en_audit := aud\<rparr>
     \<and> \<not> aud_degraded aud \<and> journal_len st' \<le> journal_len st + 2"
proof -
  let ?u = "sample_unsigned a" and ?P = sample_prims
  have u: "req_unsigned (sample_request a) = ?u" by (simp add: sample_request_def)
  let ?ids = "map (provider_attempt_id ?P (sr_operation_digest ?u) ''e'') [0..<length (sr_hashes ?u)]"
  have room: "journal_room st" using live(2) by (simp add: journal_room_def journal_len_def)
  obtain st1 where mark: "mark_operation_dispatched ?P ''op'' sample_key_ref ?ids st = (st1, Inr ())"
    using mark_succeeds [OF inv live(1) room op] by blast
  note step = engine_step.Dispatch [OF mark]
  note inv1 = engine_step_inv [OF inv step] and live1 = engine_step_live [OF inv room live(1) step]
  have room1: "journal_room st1" using live(2) live1 by (simp add: journal_room_def journal_len_def)
  have b1: "en_backends st1 = sample_backends" using mark_tables [OF mark] backend by auto
  obtain row1 where row1: "find_operation st1 ''op'' = Some row1" "op_state row1 = Dispatched"
    using mark_dispatched_row(1) [OF inv mark] by blast
  obtain c where cs: "children ?P ''e'' ?u = [c]" by (simp add: sample_unsigned_simps)
  have input: "child_input ?u (fst c) (fst (snd c)) \<noteq> None" by (simp add: child_input_def sample_unsigned_simps)
  obtain s where s: "call (child_request ?u c) = Inr s" "acceptable ?u s"
    using answers cs unfolding sample_answers_def by (metis list.set_intros(1))
  have loop: "sign_children ?P call ?u [c] [] st1 = Some ([child_request ?u c], st1, Inr [normalize s])"
    by (simp only: sign_children_Cons [OF input]) (simp add: s)
  let ?x = "normalized_result ?P (sample_request a) [normalize s]"
  obtain st2 where commit: "commit_operation_result ?P ''op'' (p_jcs ?P (signing_result_json ?x)) st1 = (st2, Inr ())"
    using commit_succeeds [OF inv1 conjunct1 [OF live1] room1 sample_jcs_nonempty row1(1)] row1(2) by blast
  have "dispatch_operation ?P call ''e'' (sample_request a) st = Some ([child_request ?u c], st2, Inr ?x)"
    unfolding dispatch_operation_def Let_def u cs sample_unsigned_simps(3,9) mark prod.case sum.case b1 loop option.case commit
    by (simp add: sample_backends_def sample_key_ref_def)
  moreover obtain ops aud where "st2 = st\<lparr>en_operations := ops, en_audit := aud\<rparr>"
    using mark_tables [OF mark] commit_tables [OF commit] by auto
  moreover have "\<not> aud_degraded (en_audit st2) \<and> journal_len st2 \<le> journal_len st + 2"
    using engine_step_live [OF inv1 room1 _ engine_step.Commit [OF commit]] live1 by auto
  ultimately show ?thesis by auto
qed

lemma sample_run:
  assumes answers: "sample_answers call"
  shows "\<exists>calls st x ops aud. (\<forall>decode. sample_sign_with call decode ''a1'' armed_signer = Some (calls, st, Inr x)) \<and> calls \<noteq> []
     \<and> st = reserved_signer\<lparr>en_operations := ops, en_audit := aud\<rparr> \<and> \<not> aud_degraded aud \<and> journal_len st \<le> 3
     \<and> (\<exists>row. find_operation st ''op'' = Some row \<and> operation_le sample_operation row)"
proof -
  obtain st1 where st1: "authorize_sign sample_prims (sample_request ''a1'') sample_clock armed_signer = (st1, Inr NewOperation)"
    "append_audit sample_prims ''sign.authorized'' (authorized_json (sample_request ''a1'') NewOperation) reserved_signer = Inr st1"
    using sample_first_attempt by blast
  note step = engine_step.Authorize [OF st1(1)]
  have len: "journal_len armed_signer = 0" by (simp add: journal_len_def sample_defs)
  have "approval_requires_trusted_time armed_signer sample_approval = Inr True"
    by (simp add: approval_requires_trusted_time_def find_approval_def armed_signer_def sample_approval_row_def)
      (simp add: sample_terms_def)
  note run = sample_sign_steps [OF this, where call = call and a = "''a1''", unfolded st1(1) prod.case sum.case]
  have op: "find_operation st1 ''op'' = Some sample_operation" "en_backends st1 = sample_backends"
    using append_audit_InrD(1) [OF st1(2)] reserved_ready(3)
    by (auto simp: find_operation_def reserved_signer_def armed_signer_def fresh_signer_def)
  obtain b where b: "st1 = reserved_signer\<lparr>en_audit := b\<rparr>" using append_audit_InrD(1) [OF st1(2)] by blast
  have "\<exists>calls st' x ops aud. dispatch_operation sample_prims call ''e'' (sample_request ''a1'') st1
     = Some (calls, st', Inr x) \<and> calls \<noteq> [] \<and> st' = st1\<lparr>en_operations := ops, en_audit := aud\<rparr>
     \<and> \<not> aud_degraded aud \<and> journal_len st' \<le> journal_len st1 + 2"
    using engine_step_live [OF armed_signer_inv armed_ready(2,1) step] len
    by (intro sample_dispatch [OF engine_step_inv [OF armed_signer_inv step] _ _ answers op(1) reserved_ready(4) op(2)]) auto
  then obtain calls st' x ops aud where out: "dispatch_operation sample_prims call ''e'' (sample_request ''a1'') st1
     = Some (calls, st', Inr x)" "calls \<noteq> []" "st' = st1\<lparr>en_operations := ops, en_audit := aud\<rparr>"
     "\<not> aud_degraded aud" "journal_len st' \<le> journal_len st1 + 2" by blast
  have "journal_len st' \<le> 3" using out(5) engine_step_live [OF armed_signer_inv armed_ready(2,1) step] len by simp
  moreover have inv1: "engine_inv sample_prims st1" by (rule engine_step_inv [OF armed_signer_inv step])
  have "\<exists>row. find_operation st' ''op'' = Some row \<and> operation_le sample_operation row"
    by (rule run_operation [OF run_inv_grows(2,1) [OF inv1 dispatch_operation_run [OF out(1)]] op(1)])
  ultimately show ?thesis using run out b by (intro exI [of _ calls] exI [of _ st'] exI [of _ x] exI [of _ ops] exI [of _ aud]) simp
qed

lemma sample_signed:
  "\<exists>calls st x. sample_sign decode ''a1'' armed_signer = Some (calls, st, Inr x) \<and> calls \<noteq> []"
  using sample_run [OF sample_answer_answers] by blast

theorem backend_called_once_witness:
  "\<exists>calls st res. sample_sign (\<lambda>_. None) ''a1'' armed_signer = Some (calls, st, res) \<and> calls \<noteq> []
     \<and> (\<forall>out. sample_sign (\<lambda>_. None) ''a2'' st = Some out \<longrightarrow> fst out = [])"
proof -
  obtain calls st x where st: "sample_sign (\<lambda>_. None) ''a1'' armed_signer = Some (calls, st, Inr x)" "calls \<noteq> []"
    using sample_signed by blast
  have "sr_operation_id (req_unsigned (sample_request ''a2'')) = sr_operation_id (req_unsigned (sample_request ''a1''))"
    by (simp add: sample_request_def sample_unsigned_simps)
  with backend_called_once [OF armed_signer_inv st rtranclp.rtrancl_refl] st show ?thesis by fastforce
qed

theorem sign_outcome_truthful_witness:
  "\<exists>calls st x row. sample_sign (\<lambda>_. None) ''a1'' armed_signer = Some (calls, st, Inr x)
     \<and> find_operation st ''op'' = Some row \<and> op_state row = Committed
     \<and> op_result row = Some (p_jcs sample_prims (signing_result_json x))"
proof -
  obtain calls st x where st: "sample_sign (\<lambda>_. None) ''a1'' armed_signer = Some (calls, st, Inr x)" "calls \<noteq> []"
    using sample_signed by blast
  have "journal_len armed_signer + 4 \<le> 2 ^ 63" by (simp add: journal_len_def sample_defs)
  from sign_outcome_truthful [OF armed_signer_inv armed_ready(1) this sample_jcs_nonempty st] st(1) show ?thesis
    by (auto simp: outcome_ok_def sample_request_def sample_unsigned_simps)
qed

subsection \<open>Retries\<close>

text \<open>A sign call that returned a result has left its encoding in the operation's row.\<close>

lemma returned_result_stored:
  assumes inv: "engine_inv P st" and run: "sign P eval max_step sample decode call sv r st = Some (calls, st1, Inr x)"
    and decode: "decode (p_jcs P (signing_result_json x)) = Some x"
  shows "\<exists>row bs. find_operation st1 (sr_operation_id (req_unsigned r)) = Some row \<and> op_state row = Committed
     \<and> op_result row = Some bs \<and> decode bs = Some x"
  using run
proof (cases rule: sign_cases)
  case (stored trusted s1 clock s2 bs)
  then have "stored_operation_result st1 (sr_operation_id (req_unsigned r)) = Some bs" "decode bs = Some x"
    by (auto simp: ok_or_Inr_iff dest: sym)
  then obtain row where f: "find (\<lambda>q. op_id q = sr_operation_id (req_unsigned r) \<and> op_state q = Committed) (en_operations st1) = Some row"
    and res: "op_result row = Some bs" and d: "decode bs = Some x"
    by (auto simp: stored_operation_result_def split: option.splits)
  from f have row: "row \<in> set (en_operations st1)" "op_id row = sr_operation_id (req_unsigned r)" "op_state row = Committed"
    by (auto simp: find_Some_iff)
  have "core_inv P st1" using run_inv_grows(1) [OF inv sign_run [OF run]] by (simp add: engine_inv_def)
  from unique_operation [OF this row(1)] row res d show ?thesis by auto
next
  case (dispatch trusted s1 clock s2 auth)
  have inv2: "engine_inv P s2"
    using run_inv_grows(1) [OF inv clock_observe_run [OF dispatch(1)]] engine_step_inv engine_step.Authorize [OF dispatch(2)] by blast
  from dispatch(4) have "dispatch_operation P call (sv_boot_epoch sv) r s2 = Some (calls, st1, Inr x)" by simp
  then show ?thesis
  proof (cases rule: dispatch_operation_cases)
    case (finished ids s3 sigs rc)
    then have x: "x = normalized_result P r sigs" and commit: "commit_operation_result P (sr_operation_id (req_unsigned r))
       (p_jcs P (signing_result_json x)) s3 = (st1, Inr ())"
      by (auto simp: rbind_Inr_iff dest!: sym [of "Inr x"])
    from commit_row [OF engine_step_inv [OF inv2 engine_step.Dispatch [OF finished(1)]] commit] decode show ?thesis by auto
  qed auto
qed auto

text \<open>C3: a retry returns the same result. After a sign call returned a result, every later sign call for
  the operation that succeeds, whatever happened in between, returns exactly that result and calls no backend, as long as
  the stored encoding is read back as it was written.\<close>

theorem sign_retry_same_result:
  assumes inv: "engine_inv P st" and first: "sign P eval max_step sample decode call sv r st = Some (calls, st1, Inr x)"
    and decode: "decode (p_jcs P (signing_result_json x)) = Some x" and run: "(engine_step P)\<^sup>*\<^sup>* st1 st2"
    and again: "sign P eval' max_step' sample' decode call' sv' r' st2 = Some (calls', st3, Inr y)"
    and same: "sr_operation_id (req_unsigned r') = sr_operation_id (req_unsigned r)"
  shows "y = x \<and> calls' = []"
proof -
  let ?i = "sr_operation_id (req_unsigned r)"
  from returned_result_stored [where decode = decode, OF inv first decode] obtain row bs where
    row: "find_operation st1 ?i = Some row" "op_state row = Committed" "op_result row = Some bs" and d: "decode bs = Some x" by blast
  have inv1: "engine_inv P st1" by (rule run_inv_grows(1) [OF inv sign_run [OF first]])
  have stays: "\<exists>row'. find_operation s ?i = Some row' \<and> op_state row' = Committed \<and> op_result row' = Some bs"
    if "(engine_step P)\<^sup>*\<^sup>* st1 s" for s
    using run_operation [OF run_inv_grows(2,1) [OF inv1 that] row(1)] row(2,3) by (fastforce simp: operation_le_def state_le_def)
  have none: "calls' = []"
    using stays [OF run] dispatched_not_again [OF run_inv_grows(1) [OF inv1 run] _ _ again] same by auto
  from again have "y = x"
  proof (cases rule: sign_cases)
    case (stored trusted s1 clock s2 bs')
    have r2: "(engine_step P)\<^sup>*\<^sup>* st1 s2"
      using run clock_observe_run [OF stored(1)] engine_step.Authorize [OF stored(2)]
      by (meson rtranclp.rtrancl_into_rtrancl rtranclp_trans)
    from stays [OF r2] obtain row' where row': "find_operation s2 ?i = Some row'" "op_state row' = Committed" "op_result row' = Some bs"
      by blast
    have "core_inv P s2" using run_inv_grows(1) [OF inv1 r2] by (simp add: engine_inv_def)
    from stored_result_of_row(1) [OF this row'(1,2)] row'(3) stored(3) same have "bs' = bs" by simp
    with stored(4) d show ?thesis by simp
  next
    case (dispatch trusted s1 clock s2 auth)
    then have "dispatch_operation P call' (sv_boot_epoch sv') r' s2 = Some (calls', st3, Inr y)" by simp
    then show ?thesis
    proof (cases rule: dispatch_operation_cases)
      case (finished ids s3 sigs rc)
      have "children P (sv_boot_epoch sv') (req_unsigned r') = []" using none sign_children_InrD [OF finished(2)] by simp
      have r3: "(engine_step P)\<^sup>*\<^sup>* st1 s2"
        using run clock_observe_run [OF dispatch(1)] engine_step.Authorize [OF dispatch(2)]
        by (meson rtranclp.rtrancl_into_rtrancl rtranclp_trans)
      from stays [OF r3] mark_dispatched_row(2) [OF run_inv_grows(1) [OF inv1 r3] finished(1)] same show ?thesis by auto
    qed auto
  qed auto
  with none show ?thesis by blast
qed

theorem sign_retry_same_result_witness:
  "\<exists>calls st x st'. (\<forall>decode. sample_sign decode ''a1'' armed_signer = Some (calls, st, Inr x))
     \<and> sample_sign (\<lambda>_. Some x) ''a2'' st = Some ([], st', Inr x)"
proof -
  obtain calls st x ops aud where run: "\<And>decode. sample_sign decode ''a1'' armed_signer = Some (calls, st, Inr x)"
    and st: "st = reserved_signer\<lparr>en_operations := ops, en_audit := aud\<rparr>" "\<not> aud_degraded aud" "journal_len st \<le> 3"
    "\<exists>row. find_operation st ''op'' = Some row \<and> operation_le sample_operation row"
    using sample_run [OF sample_answer_answers] by blast
  let ?u = "sample_unsigned ''a2''"
  have u: "req_unsigned (sample_request a) = sample_unsigned a" for a by (simp add: sample_request_def)
  have inv: "engine_inv sample_prims st" by (rule run_inv_grows(1) [OF armed_signer_inv sign_run [OF run]])
  have stored: "\<exists>row bs. find_operation st ''op'' = Some row \<and> op_state row = Committed \<and> op_result row = Some bs"
    using returned_result_stored [OF armed_signer_inv run [of "\<lambda>_. Some x"]] by (auto simp: u sample_unsigned_simps)
  then obtain row bs where row: "find_operation st ''op'' = Some row" "op_state row = Committed" "op_result row = Some bs" by blast
  have ready: "\<not> aud_degraded (en_audit st)" "journal_room st" "en_broker_key_id st = ''bk''" "en_broker_key st = [7]"
    using st by (simp_all add: journal_room_def journal_len_def reserved_signer_def armed_signer_def fresh_signer_def)
  have chk: "check_approval sample_prims (sample_request ''a2'') (cd_now sample_clock) st = Inr sample_terms"
    by (simp add: sample_clock_def, rule sample_checks_at [of _ "sample_approval_row\<lparr>ap_operations := Some 1, ap_signatures := Some 1\<rparr>"])
      (simp_all add: st reserved_signer_def sample_defs find_approval_def wallet_epoch_def)
  have retry: "retry_operation sample_prims (sample_request ''a2'') row = Inr ()"
  proof -
    have "operation_le sample_operation row" using st(4) row(1) by auto
    then have "op_digest row = sr_operation_digest (sample_unsigned ''a1'')" "op_approval row = sample_approval"
      "op_retry_binding row = retry_binding_digest sample_prims (sample_unsigned ''a1'')"
      by (simp_all add: operation_le_def sample_operation_def)
    moreover have "sr_operation_digest ?u = sr_operation_digest (sample_unsigned ''a1'')"
      by (simp add: sample_unsigned_def sample_attempt_def operation_identity_def Let_def)
    ultimately show ?thesis
      by (simp add: retry_operation_def u sample_unsigned_simps retry_binding_digest_def sample_same_binding row(2))
  qed
  obtain st' where auth: "authorize_sign sample_prims (sample_request ''a2'') sample_clock st = (st', Inr SameOperationRetry)"
    using authorize_retry [OF inv ready(1,2) sample_shape sample_broker_signature [OF ready(3,4)] _ _ chk _ retry] row(1)
    by (auto simp: u sample_unsigned_simps sample_clock_def)
  note step = engine_step.Authorize [OF auth]
  have inv': "engine_inv sample_prims st'" by (rule engine_step_inv [OF inv step])
  obtain row' where row': "find_operation st' ''op'' = Some row'" "op_state row' = Committed" "op_result row' = Some bs"
    using run_operation [OF engine_step_grows [OF inv step] inv' row(1)] row(2,3) by (auto simp: operation_le_def state_le_def)
  have "stored_operation_result st' ''op'' = Some bs"
    using stored_result_of_row(1) [of sample_prims, OF _ row'(1,2)] inv' row'(3) by (simp add: engine_inv_def)
  moreover have "approval_requires_trusted_time st sample_approval = Inr True"
    by (simp add: st approval_requires_trusted_time_def find_approval_def reserved_signer_def sample_approval_row_def)
      (simp add: sample_terms_def)
  ultimately obtain calls' y where again: "sample_sign (\<lambda>_. Some x) ''a2'' st = Some (calls', st', Inr y)"
    by (simp add: sample_sign_steps auth)
  have "y = x \<and> calls' = []"
    using sign_retry_same_result [OF armed_signer_inv run _ rtranclp.rtrancl_refl again] by (simp add: u sample_unsigned_simps)
  with run again show ?thesis by blast
qed

subsection \<open>No panic\<close>

lemma sign_children_total:
  "(\<forall>c\<in>set cs. child_input u (fst c) (fst (snd c)) \<noteq> None) \<Longrightarrow> sign_children P call u cs sigs st \<noteq> None"
proof (induction cs arbitrary: sigs)
  case (Cons c cs)
  then have input: "child_input u (fst c) (fst (snd c)) \<noteq> None" by simp
  have "sign_children P call u cs x st = None \<longleftrightarrow> False" for x using Cons.IH [of x] Cons.prems by simp
  then show ?case unfolding sign_children_Cons [OF input]
    by (simp add: Let_def del: not_None_eq split: sum.split prod.split)
qed simp

lemma shape_has_inputs:
  assumes "validate_shape P r = Inr ()" "c \<in> set (children P be (req_unsigned r))"
  shows "child_input (req_unsigned r) (fst c) (fst (snd c)) \<noteq> None"
proof -
  have "fst c \<in> set [0..<length (sr_hashes (req_unsigned r))]"
    by (rule set_zip_leftD [of "fst c" "snd c"]) (use assms(2) in simp)
  then have "fst c < length (sr_hashes (req_unsigned r))" by simp
  moreover have "messages_are_bound P (req_unsigned r)" using assms(1) by (simp add: validate_shape_ok Let_def)
  ultimately show ?thesis by (cases "sr_suite (req_unsigned r)") (simp_all add: child_input_def messages_are_bound_def)
qed

lemma sign_total: "sign P eval max_step sample decode call sv r st \<noteq> None"
proof
  assume "sign P eval max_step sample decode call sv r st = None"
  then show False
  proof (cases rule: sign_cases)
    case (dispatch trusted st1 clock st2 auth)
    have "validate_shape P r = Inr ()" using authorize_sign_InrD(1) [OF dispatch(2)] .
    then have loop: "sign_children P call (req_unsigned r) (children P (sv_boot_epoch sv) (req_unsigned r)) [] s = None \<longleftrightarrow> False" for s
      using sign_children_total [of "children P (sv_boot_epoch sv) (req_unsigned r)" "req_unsigned r" P call "[]" s]
        shape_has_inputs by blast
    have "dispatch_operation P call (sv_boot_epoch sv) r st2 \<noteq> None"
      unfolding dispatch_operation_def Let_def by (auto simp only: loop split: prod.splits sum.splits option.splits if_splits)
    with dispatch(4) show ?thesis by simp
  qed auto
qed

text \<open>C39: the sign methods always answer. They never panic, whatever the request; without network
  containment they refuse before the clock, the engine or a backend is touched; and a backend is called only for a
  request with one signature, or for a batch with 1 to 32.\<close>

theorem sign_methods_answer:
  "dispatch_sign P eval max_step sample sample' decode call sv batch r st \<noteq> None
   \<and> (sv_contained sv = Some (Inl e) \<longrightarrow>
        dispatch_sign P eval max_step sample sample' decode call sv batch r st = Some ([], st, Inl e))
   \<and> (dispatch_sign P eval max_step sample sample' decode call sv batch r st = Some (calls, st', res) \<and> calls \<noteq> [] \<longrightarrow>
        (if batch then 1 \<le> sr_signature_count (req_unsigned r) \<and> sr_signature_count (req_unsigned r) \<le> 32
         else sr_signature_count (req_unsigned r) = 1))"
proof (intro conjI impI)
  show "dispatch_sign P eval max_step sample sample' decode call sv batch r st \<noteq> None"
    using sign_total by (auto simp: dispatch_sign_def split: prod.splits sum.splits)
  show "dispatch_sign P eval max_step sample sample' decode call sv batch r st = Some ([], st, Inl e)"
    if "sv_contained sv = Some (Inl e)"
    using that by (simp add: dispatch_sign_def admit_def require_network_containment_def signer_request_requires_containment_def)
  assume "dispatch_sign P eval max_step sample sample' decode call sv batch r st = Some (calls, st', res) \<and> calls \<noteq> []"
  then have "require_signature_count r batch = Inr ()"
    by (auto simp: dispatch_sign_def split: prod.splits sum.splits)
  then show "if batch then 1 \<le> sr_signature_count (req_unsigned r) \<and> sr_signature_count (req_unsigned r) \<le> 32
         else sr_signature_count (req_unsigned r) = 1"
    by (auto simp: require_signature_count_def Let_def split: if_splits)
qed

theorem sign_methods_answer_witness:
  "dispatch_sign sample_prims (\<lambda>_ _ _ _. None) 0 None None (\<lambda>_. None) (\<lambda>_. Inr sample_answer)
     (sample_service\<lparr>sv_contained := Some (Inl (err ServiceUnavailable))\<rparr>) False (sample_request ''a1'') armed_signer
   = Some ([], armed_signer, Inl (err ServiceUnavailable))"
  using sign_methods_answer [of sample_prims "\<lambda>_ _ _ _. None" 0 None None "\<lambda>_. None" "\<lambda>_. Inr sample_answer"
      "sample_service\<lparr>sv_contained := Some (Inl (err ServiceUnavailable))\<rparr>" False "sample_request ''a1''" armed_signer]
  by simp

end
