(* ===== verification/Ordered_Map.thy ===== *)
theory Ordered_Map
  imports Rust_Text
begin

text \<open>
  \<open>std::collections::BTreeMap\<close> as the list of its entries in ascending key order: insertion,
  removal, retention and the fold of a list of pairs that \<open>collect\<close> performs. Lookup is \<open>map_of\<close>;
  iteration is the list itself. The laws say what a lookup returns after each operation, that the
  keys stay in strict order, and that the lookups determine the tree.
\<close>

type_synonym ('k, 'v) btree = "('k \<times> 'v) list"

fun bt_insert :: "'k::linorder \<Rightarrow> 'v \<Rightarrow> ('k, 'v) btree \<Rightarrow> ('k, 'v) btree" where
  "bt_insert k v [] = [(k, v)]"
| "bt_insert k v ((k', v') # m) =
     (if k < k' then (k, v) # (k', v') # m
      else if k = k' then (k, v) # m
      else (k', v') # bt_insert k v m)"

definition bt_remove :: "'k \<Rightarrow> ('k, 'v) btree \<Rightarrow> ('k, 'v) btree" where
  "bt_remove k m = filter (\<lambda>e. fst e \<noteq> k) m"

definition bt_retain :: "('v \<Rightarrow> bool) \<Rightarrow> ('k, 'v) btree \<Rightarrow> ('k, 'v) btree" where
  "bt_retain keep m = filter (\<lambda>e. keep (snd e)) m"

definition bt_collect :: "('k::linorder \<times> 'v) list \<Rightarrow> ('k, 'v) btree" where
  "bt_collect es = fold (\<lambda>(k, v). bt_insert k v) es []"

definition bt_wf :: "('k::linorder, 'v) btree \<Rightarrow> bool" where
  "bt_wf m = sorted_wrt (<) (map fst m)"

subsection \<open>Laws\<close>

lemma map_of_bt_insert: "bt_wf m \<Longrightarrow> map_of (bt_insert k v m) = (map_of m)(k \<mapsto> v)"
proof (induction k v m rule: bt_insert.induct)
  case (2 k v k' v' m)
  then have "bt_wf m" "\<forall>x\<in>fst ` set m. k' < x" by (auto simp: bt_wf_def)
  with 2 show ?case by (auto simp: fun_upd_twist)
qed simp

lemma set_bt_insert: "bt_wf m \<Longrightarrow> fst ` set (bt_insert k v m) = insert k (fst ` set m)"
  using map_of_bt_insert [of m k v] by (metis dom_fun_upd dom_map_of_conv_image_fst option.discI)

lemma bt_wf_insert: "bt_wf m \<Longrightarrow> bt_wf (bt_insert k v m)"
proof (induction k v m rule: bt_insert.induct)
  case (1 k v)
  then show ?case by (simp add: bt_wf_def)
next
  case (2 k v k' v' m)
  then have m: "bt_wf m" "\<forall>x\<in>fst ` set m. k' < x" by (auto simp: bt_wf_def)
  consider "k < k'" | "k = k'" | "k' < k" by fastforce
  then show ?case
  proof cases
    case 3
    then have "bt_wf (bt_insert k v m)" using 2 m by auto
    moreover have "\<forall>x\<in>fst ` set (bt_insert k v m). k' < x"
      using set_bt_insert [OF m(1), of k v] m(2) 3 by simp
    ultimately show ?thesis using 3 by (auto simp: bt_wf_def)
  qed (use 2 m in \<open>auto simp: bt_wf_def dest: less_trans\<close>)
qed

lemma bt_wf_Nil [simp]: "bt_wf []"
  by (simp add: bt_wf_def)

lemma bt_wf_filter: "bt_wf m \<Longrightarrow> bt_wf (filter f m)"
  by (induction m) (auto simp: bt_wf_def)

lemma bt_wf_remove: "bt_wf m \<Longrightarrow> bt_wf (bt_remove k m)"
  unfolding bt_remove_def by (rule bt_wf_filter)

lemma bt_wf_retain: "bt_wf m \<Longrightarrow> bt_wf (bt_retain f m)"
  unfolding bt_retain_def by (rule bt_wf_filter)

lemma map_of_bt_remove: "map_of (bt_remove k m) = (map_of m)(k := None)"
  by (induction m) (auto simp: bt_remove_def)

lemma bt_wf_distinct: "bt_wf m \<Longrightarrow> distinct (map fst m)"
  by (induction m) (auto simp: bt_wf_def)

lemma bt_wf_collect_from:
  "bt_wf m \<Longrightarrow> bt_wf (fold (\<lambda>(k, v). bt_insert k v) es m)"
  by (induction es arbitrary: m) (auto simp: bt_wf_insert)

lemma bt_wf_collect: "bt_wf (bt_collect es)"
  unfolding bt_collect_def by (rule bt_wf_collect_from) simp

lemma map_of_collect_from:
  "bt_wf m \<Longrightarrow> map_of (fold (\<lambda>(k, v). bt_insert k v) es m) = map_of m ++ map_of (rev es)"
proof (induction es arbitrary: m)
  case (Cons e es)
  obtain k v where e: "e = (k, v)" by (cases e)
  have "map_of m ++ map_of (rev (e # es)) = (map_of m)(k \<mapsto> v) ++ map_of (rev es)"
    by (simp add: e)
  then show ?case
    using Cons.IH [OF bt_wf_insert [OF Cons.prems], of k v] by (simp only: e fold_simps prod.case
        o_apply map_of_bt_insert [OF Cons.prems])
qed simp

lemma map_of_collect: "distinct (map fst es) \<Longrightarrow> map_of (bt_collect es) = map_of es"
proof -
  assume d: "distinct (map fst es)"
  then have "map_of (rev es) = map_of es"
    by (intro map_of_eqI) (auto simp: rev_map [symmetric] intro!: set_map_of_compr)
  then show ?thesis by (simp add: bt_collect_def map_of_collect_from)
qed

text \<open>Two trees with the same lookups are the same list.\<close>

lemma bt_wf_ext: "bt_wf m \<Longrightarrow> bt_wf n \<Longrightarrow> map_of m = map_of n \<Longrightarrow> m = n"
proof -
  assume w: "bt_wf m" "bt_wf n" and eq: "map_of m = map_of n"
  have d: "distinct (map fst m)" "distinct (map fst n)" by (simp_all add: bt_wf_distinct w)
  then have s: "set m = set n" by (simp only: set_map_of_compr [OF d(1)] set_map_of_compr [OF d(2)] eq)
  have "inj_on fst (set m \<union> set n)" using d by (simp add: s distinct_map)
  moreover have "sorted (map fst m)" "sorted (map fst n)"
    using w by (simp_all add: bt_wf_def strict_sorted_iff)
  ultimately show "m = n" using d s by (intro map_sorted_distinct_set_unique)
qed

end
