(* ===== verification/Local_Backend.thy ===== *)
theory Local_Backend
  imports Backend_Api Derive Ordered_Map
begin

text \<open>
  The encrypted local backend: \<open>crates/bloom-signer-backend-local/src/lib.rs\<close>. Its state is the
  encrypted backup, the key-encryption key while custody is active, the registry of derived keys
  and the file the backup is written to. An operation that writes returns the state with its
  answer. Parameters, collected in \<open>local_prims\<close>: XChaCha20-Poly1305, the \<open>bip32\<close> crate's paths and
  extended keys, the \<open>k256\<close> and Ed25519 operations, hex, and the wire crate's digests and
  identifiers. \<open>disk\<close> is whether writing and renaming the backup file succeeds.
  Each operation takes the lock once or, as in allocation, reads a snapshot and then writes: the
  two halves of the latter are separate definitions, so that other operations may come between them.
\<close>

definition ROOT_AAD_DOMAIN :: string where
  "ROOT_AAD_DOMAIN = ''bloom-local-root-wrap/v1''"

definition WRAP_FORMAT_VERSION :: u32 where
  "WRAP_FORMAT_VERSION = 1"

definition DERIVATION_AUTHORITY_DOMAIN :: string where
  "DERIVATION_AUTHORITY_DOMAIN = ''bloom-key-derive-authority/v1''"

record ('m, 'p) local_prims =
  lc_prims :: prims
  lc_derive :: derive_prims
  lc_bip39 :: "'m bip39_crate"
  lc_encrypt :: "bytes \<Rightarrow> bytes \<Rightarrow> bytes \<Rightarrow> bytes \<Rightarrow> bytes option"
  lc_decrypt :: "bytes \<Rightarrow> bytes \<Rightarrow> bytes \<Rightarrow> bytes \<Rightarrow> bytes option"
  lc_parse_path :: "string \<Rightarrow> 'p option"
  lc_show_path :: "'p \<Rightarrow> string"
  lc_derive_path :: "bytes \<Rightarrow> 'p \<Rightarrow> bytes option"
  lc_signing_key :: "bytes \<Rightarrow> bytes option"
  lc_secp_spki :: "bytes \<Rightarrow> bytes option"
  lc_sign_recoverable :: "bytes \<Rightarrow> bytes \<Rightarrow> bytes \<times> u8"
  lc_ed_sign :: "bytes \<Rightarrow> bytes \<Rightarrow> bytes"
  lc_ed_public :: "bytes \<Rightarrow> bytes"
  lc_verify_strict :: "bytes \<Rightarrow> bytes \<Rightarrow> bytes \<Rightarrow> bool"
  lc_verifying_key_ok :: "bytes \<Rightarrow> bool"
  lc_hex :: "bytes \<Rightarrow> string"
  lc_digest32 :: "bytes \<Rightarrow> digest32"
  lc_digest_bytes :: "digest32 \<Rightarrow> bytes"
  lc_operation_id_ok :: "string \<Rightarrow> bool"

subsection \<open>Data\<close>

datatype root_material_kind = MatBip32Seed | MatImportedSecp256k1Scalar | MatBip39Entropy

record derivation_namespace =
  dn_namespace_id :: token
  dn_prefix :: string
  dn_next_index :: u64
  dn_maximum :: u64
  dn_authority :: digest32

record derivation_grant =
  gr_authority_kind :: token
  gr_namespace_id :: token
  gr_prefix :: string
  gr_starting_index :: u64
  gr_maximum_children :: u64

record derivation_authority =
  au_grant :: derivation_grant
  au_signature :: bytes

record local_backup =
  eb_root_key_id :: token
  eb_kind :: root_material_kind
  eb_pinned_root :: "key_ref option"
  eb_wrap_version :: u32
  eb_nonce :: bytes
  eb_encrypted_seed :: bytes
  eb_authority_key :: bytes
  eb_descriptions :: "key_description list"
  eb_registry :: "key_ref list"
  eb_namespaces :: "derivation_namespace list"
  eb_tombstones :: "string list"
  eb_pending :: "(string, key_ref) btree"

record local_state =
  ls_instance :: token
  ls_backup :: "local_backup option"
  ls_kek :: "bytes option"
  ls_registry :: "(string, key_ref) btree"
  ls_storage :: "string option"

type_synonym 'a backend_result = "backend_error + 'a"

type_synonym disk = "string \<Rightarrow> bytes \<Rightarrow> bool"

definition derivation_path_of :: "key_ref \<Rightarrow> string option" where
  "derivation_path_of k =
     (case kr_derivation k of
        Some (Bip32Secp256k1 _ path) \<Rightarrow> Some path
      | Some (Bip39Multicurve _ _ path) \<Rightarrow> Some path
      | None \<Rightarrow> None)"

definition is_bip39_child :: "key_ref \<Rightarrow> bool" where
  "is_bip39_child k = (case kr_derivation k of Some (Bip39Multicurve _ _ _) \<Rightarrow> True | _ \<Rightarrow> False)"

subsection \<open>Encodings\<close>

fun material_kind_json :: "root_material_kind \<Rightarrow> json" where
  "material_kind_json MatBip32Seed = JStr ''bip32_seed''"
| "material_kind_json MatImportedSecp256k1Scalar = JStr ''imported_secp256k1_scalar''"
| "material_kind_json MatBip39Entropy = JStr ''bip39_entropy''"

definition derivation_grant_json :: "derivation_grant \<Rightarrow> json" where
  "derivation_grant_json g =
     JObj [(''authority_kind'', JStr (gr_authority_kind g)), (''namespace_id'', JStr (gr_namespace_id g)),
           (''canonical_prefix'', JStr (gr_prefix g)), (''starting_index'', JDec (gr_starting_index g)),
           (''maximum_children'', JDec (gr_maximum_children g))]"

definition derivation_namespace_json :: "derivation_namespace \<Rightarrow> json" where
  "derivation_namespace_json n =
     JObj [(''namespace_id'', JStr (dn_namespace_id n)), (''canonical_prefix'', JStr (dn_prefix n)),
           (''next_index'', JDec (dn_next_index n)), (''maximum_children'', JDec (dn_maximum n)),
           (''authority_digest'', JStr (dn_authority n))]"

definition key_description_json :: "key_description \<Rightarrow> json" where
  "key_description_json d =
     JObj [(''key_ref'', key_ref_json (kd_key_ref d)), (''canonical_spki_der'', JBytes (kd_spki d)),
           (''public_key_fingerprint'', JStr (kd_fingerprint d)),
           (''supported_crypto_suites'', JArr (map suite_json (kd_suites d)))]"

definition backup_json :: "local_backup \<Rightarrow> json" where
  "backup_json b =
     JObj [(''root_key_id'', JStr (eb_root_key_id b)), (''root_material_kind'', material_kind_json (eb_kind b)),
           (''pinned_root'', jopt key_ref_json (eb_pinned_root b)),
           (''wrap_format_version'', JNum (unat (eb_wrap_version b))), (''nonce'', JBytes (eb_nonce b)),
           (''encrypted_seed'', JBytes (eb_encrypted_seed b)),
           (''authority_verifying_key'', JBytes (eb_authority_key b)),
           (''public_descriptions'', JArr (map key_description_json (eb_descriptions b))),
           (''derivation_registry'', JArr (map key_ref_json (eb_registry b))),
           (''derivation_namespaces'', JArr (map derivation_namespace_json (eb_namespaces b))),
           (''derivation_tombstones'', JArr (map JStr (eb_tombstones b))),
           (''pending_derivations'', JObj (map (\<lambda>(op, k). (op, key_ref_json k)) (eb_pending b)))]"

definition root_aad :: "token \<Rightarrow> token \<Rightarrow> bytes" where
  "root_aad backend_instance_id root_id =
     str_bytes ROOT_AAD_DOMAIN @ str_bytes backend_instance_id @ str_bytes root_id
     @ u32_be_bytes WRAP_FORMAT_VERSION"

subsection \<open>Paths\<close>

definition validate_namespace_prefix :: "('m, 'p) local_prims \<Rightarrow> string \<Rightarrow> unit backend_result" where
  "validate_namespace_prefix L prefix =
     rbind (ok_or (lc_parse_path L prefix) InvalidRequest) (\<lambda>path.
       ensure (\<not> (lc_show_path L path \<noteq> prefix \<or> prefix = ''m''
                 \<or> length (split_on CHR ''/'' prefix) > 10)) InvalidRequest)"

definition option_filter :: "('a \<Rightarrow> bool) \<Rightarrow> 'a option \<Rightarrow> 'a option" where
  "option_filter keep m = (case m of Some x \<Rightarrow> (if keep x then Some x else None) | None \<Rightarrow> None)"

definition parse_bip39_path :: "derivation_profile \<Rightarrow> string \<Rightarrow> (u32 \<times> u32) backend_result" where
  "parse_bip39_path profile path =
     (case profile of
        Bip44EvmSecp256k1V1 \<Rightarrow>
          rbind (ok_or (strip_prefix (''m/44'' @ [apos] @ ''/60'' @ [apos] @ ''/'') path) InvalidRequest) (\<lambda>tail.
          rbind (ok_or (split_once ''/0/'' tail) InvalidRequest) (\<lambda>(account_part, index_part).
          rbind (ok_or (Option.bind (strip_suffix [apos] account_part) parse_u32) InvalidRequest) (\<lambda>account.
          rbind (ok_or (parse_u32 index_part) InvalidRequest) (\<lambda>index. Inr (account, index)))))
      | Bip44SolanaSlip10Ed25519V1 \<Rightarrow>
          rbind (ok_or (strip_prefix (''m/44'' @ [apos] @ ''/501'' @ [apos] @ ''/'') path) InvalidRequest) (\<lambda>tail.
          case split_once ([apos] @ ''/0'' @ [apos] @ ''/18735'' @ [apos] @ ''/'') tail of
            Some (account, index) \<Rightarrow>
              rbind (ok_or (option_filter (\<lambda>v. v < 2 ^ 31) (parse_u32 account)) InvalidRequest) (\<lambda>account.
              rbind (ok_or (option_filter (\<lambda>v. v < 2 ^ 31)
                 (Option.bind (strip_suffix [apos] index) parse_u32)) InvalidRequest) (\<lambda>index.
                Inr (account, index)))
          | None \<Rightarrow>
              rbind (ok_or (option_filter (\<lambda>v. v < 2 ^ 31)
                 (Option.bind (Option.bind (strip_suffix (''/0'' @ [apos]) tail) (strip_suffix [apos]))
                    parse_u32)) InvalidRequest) (\<lambda>account. Inr (account, 0))))"

definition derive_solana_key_for_path ::
  "('m, 'p) local_prims \<Rightarrow> bytes \<Rightarrow> u32 \<Rightarrow> u32 \<Rightarrow> string \<Rightarrow> derived_ed backend_result" where
  "derive_solana_key_for_path L seed account index path =
     (case derive_solana_account (lc_derive L) seed account of
        Inl _ \<Rightarrow> Inl DefinitiveRejected
      | Inr account_key \<Rightarrow>
          if ded_path account_key = path then Inr account_key
          else (case derive_solana_petal_key (lc_derive L) seed account index of
                  Inl _ \<Rightarrow> Inl DefinitiveRejected
                | Inr petal_key \<Rightarrow>
                    if ded_path petal_key \<noteq> path then Inl InvalidRequest else Inr petal_key))"

subsection \<open>Custody material\<close>

definition active_seed :: "('m, 'p) local_prims \<Rightarrow> local_state \<Rightarrow> bytes backend_result" where
  "active_seed L st =
     rbind (ok_or (ls_backup st) DefinitiveRejected) (\<lambda>backup.
     rbind (ok_or (ls_kek st) DefinitiveRejected) (\<lambda>kek.
       if length (eb_nonce backup) \<noteq> 24 then Inl InvalidRequest
       else if length kek \<noteq> 32 then Inl InvalidRequest
       else ok_or (lc_decrypt L kek (eb_nonce backup)
              (root_aad (ls_instance st) (eb_root_key_id backup)) (eb_encrypted_seed backup))
              DefinitiveRejected))"

definition root_signing_key :: "('m, 'p) local_prims \<Rightarrow> local_state \<Rightarrow> bytes backend_result" where
  "root_signing_key L st =
     rbind (ok_or (ls_backup st) DefinitiveRejected) (\<lambda>backup.
     rbind (active_seed L st) (\<lambda>material.
       case eb_kind backup of
         MatBip32Seed \<Rightarrow>
           rbind (ok_or (lc_parse_path L ''m'') InvalidRequest) (\<lambda>path.
             ok_or (lc_derive_path L material path) DefinitiveRejected)
       | MatImportedSecp256k1Scalar \<Rightarrow> ok_or (lc_signing_key L material) InvalidRequest
       | MatBip39Entropy \<Rightarrow> Inl InvalidRequest))"

definition bip39_seed :: "('m, 'p) local_prims \<Rightarrow> local_state \<Rightarrow> bytes backend_result" where
  "bip39_seed L st =
     rbind (active_seed L st) (\<lambda>entropy.
       case mnemonic_from_entropy (lc_bip39 L) entropy of
         Inl _ \<Rightarrow> Inl InvalidRequest
       | Inr mnemonic \<Rightarrow>
           (case seed_from_mnemonic (lc_bip39 L) mnemonic of
              Inl _ \<Rightarrow> Inl DefinitiveRejected
            | Inr seed \<Rightarrow> Inr seed))"

definition secp_suites :: "crypto_suite list" where
  "secp_suites = [Secp256k1Keccak256Recoverable, Secp256k1Sha256Recoverable]"

definition child_locator :: "('m, 'p) local_prims \<Rightarrow> token \<Rightarrow> string \<Rightarrow> string" where
  "child_locator L root path =
     lc_hex L (d_sha256 (lc_derive L) (str_bytes root @ str_bytes path))"

definition describe_path ::
  "('m, 'p) local_prims \<Rightarrow> local_state \<Rightarrow> string \<Rightarrow> key_description backend_result" where
  "describe_path L st canonical_path =
     rbind (ok_or (ls_backup st) DefinitiveRejected) (\<lambda>backup.
     rbind (ok_or (lc_parse_path L canonical_path) InvalidRequest) (\<lambda>path.
     if lc_show_path L path \<noteq> canonical_path then Inl InvalidRequest
     else
       rbind (if canonical_path = ''m'' then root_signing_key L st
              else if eb_kind backup = MatImportedSecp256k1Scalar then Inl Unsupported
              else rbind (active_seed L st) (\<lambda>seed.
                     ok_or (lc_derive_path L seed path) DefinitiveRejected)) (\<lambda>signing_key.
       rbind (ok_or (lc_secp_spki L signing_key) DefinitiveRejected) (\<lambda>spki.
         let fingerprint = p_sha256 (lc_prims L) spki in
         Inr \<lparr>kd_key_ref =
                \<lparr>kr_backend = ''local'', kr_backend_instance = ls_instance st,
                 kr_locator = child_locator L (eb_root_key_id backup) canonical_path,
                 kr_key_spec = Secp256k1, kr_fingerprint = fingerprint,
                 kr_derivation = Some (Bip32Secp256k1 (eb_root_key_id backup) canonical_path)\<rparr>,
              kd_spki = spki, kd_fingerprint = fingerprint, kd_suites = secp_suites\<rparr>))))"

definition root_key_ref :: "('m, 'p) local_prims \<Rightarrow> local_state \<Rightarrow> key_ref backend_result" where
  "root_key_ref L st =
     rbind (ok_or (ls_backup st) DefinitiveRejected) (\<lambda>backup.
       if eb_kind backup = MatBip39Entropy then Inl InvalidRequest
       else case eb_pinned_root backup of
         Some root \<Rightarrow> Inr root
       | None \<Rightarrow>
           rbind (describe_path L st ''m'') (\<lambda>description.
             Inr \<lparr>kr_backend = ''local'', kr_backend_instance = ls_instance st,
                  kr_locator = ''root:'' @ eb_root_key_id backup, kr_key_spec = Secp256k1,
                  kr_fingerprint = kd_fingerprint description, kr_derivation = None\<rparr>))"

definition describe_bip39_child_with_seed ::
  "('m, 'p) local_prims \<Rightarrow> key_ref \<Rightarrow> bytes \<Rightarrow> key_description backend_result" where
  "describe_bip39_child_with_seed L k seed =
     (case kr_derivation k of
        Some (Bip39Multicurve _ profile path) \<Rightarrow>
          rbind (parse_bip39_path profile path) (\<lambda>(account, index).
          rbind (case profile of
                   Bip44EvmSecp256k1V1 \<Rightarrow>
                     (case derive_evm_account (lc_derive L) seed account index of
                        Inl _ \<Rightarrow> Inl DefinitiveRejected
                      | Inr derived \<Rightarrow> Inr (dsec_spki derived, secp_suites))
                 | Bip44SolanaSlip10Ed25519V1 \<Rightarrow>
                     rbind (derive_solana_key_for_path L seed account index path) (\<lambda>derived.
                       Inr (ded_spki derived, [Ed25519Message]))) (\<lambda>(spki, suites).
            let fingerprint = p_sha256 (lc_prims L) spki in
            if fingerprint \<noteq> kr_fingerprint k then Inl DefinitiveRejected
            else Inr \<lparr>kd_key_ref = k, kd_spki = spki, kd_fingerprint = fingerprint, kd_suites = suites\<rparr>))
      | _ \<Rightarrow> Inl InvalidRequest)"

definition describe_bip39_child ::
  "('m, 'p) local_prims \<Rightarrow> local_state \<Rightarrow> key_ref \<Rightarrow> key_description backend_result" where
  "describe_bip39_child L st k = rbind (bip39_seed L st) (describe_bip39_child_with_seed L k)"

subsection \<open>Lookups\<close>

definition local_registered :: "('m, 'p) local_prims \<Rightarrow> local_state \<Rightarrow> key_ref \<Rightarrow> bool" where
  "local_registered L st k =
     ((case root_key_ref L st of Inr root \<Rightarrow> root = k | Inl _ \<Rightarrow> False)
      \<or> map_of (ls_registry st) (kr_locator k) = Some k)"

definition local_available :: "('m, 'p) local_prims \<Rightarrow> local_state \<Rightarrow> key_ref \<Rightarrow> bool backend_result" where
  "local_available L st k =
     (if \<not> local_registered L st k then Inr False else Inr (ls_kek st \<noteq> None))"

definition encrypted_backup :: "local_state \<Rightarrow> local_backup backend_result" where
  "encrypted_backup st = ok_or (ls_backup st) DefinitiveRejected"

definition pending_derivations :: "('m, 'p) local_prims \<Rightarrow> local_state \<Rightarrow> (operation_id \<times> key_ref) list" where
  "pending_derivations L st =
     (case ls_backup st of
        None \<Rightarrow> []
      | Some backup \<Rightarrow> filter (\<lambda>(op, _). lc_operation_id_ok L op) (eb_pending backup))"

subsection \<open>Writing the backup\<close>

definition persist_backup :: "('m, 'p) local_prims \<Rightarrow> disk \<Rightarrow> local_state \<Rightarrow> unit backend_result" where
  "persist_backup L disk st =
     (case ls_storage st of
        None \<Rightarrow> Inr ()
      | Some path \<Rightarrow>
          rbind (ok_or (ls_backup st) DefinitiveRejected) (\<lambda>backup.
          rbind (ok_or (file_name path) InvalidRequest) (\<lambda>_.
            ensure (disk path (p_jcs (lc_prims L) (backup_json backup))) DefinitiveRejected)))"

definition commit_backup ::
  "('m, 'p) local_prims \<Rightarrow> disk \<Rightarrow> local_backup \<Rightarrow> local_state \<Rightarrow> local_state \<times> unit backend_result" where
  "commit_backup L disk next st =
     (let st' = st\<lparr>ls_backup := Some next\<rparr> in
      case persist_backup L disk st' of
        Inl e \<Rightarrow> (st, Inl e)
      | Inr _ \<Rightarrow> (st', Inr ()))"

subsection \<open>Provisioning and restoring\<close>

definition valid_material :: "('m, 'p) local_prims \<Rightarrow> root_material_kind \<Rightarrow> bytes \<Rightarrow> bool" where
  "valid_material L kind material =
     (case kind of
        MatBip32Seed \<Rightarrow> False
      | MatImportedSecp256k1Scalar \<Rightarrow> lc_signing_key L material \<noteq> None
      | MatBip39Entropy \<Rightarrow> length material \<in> {16, 20, 24, 28, 32})"

text \<open>\<open>nonce\<close> is what the system's randomness returned.\<close>

definition provision_material ::
  "('m, 'p) local_prims \<Rightarrow> bytes \<Rightarrow> token \<Rightarrow> token \<Rightarrow> bytes \<Rightarrow> bytes \<Rightarrow> bytes \<Rightarrow> root_material_kind
   \<Rightarrow> local_state backend_result" where
  "provision_material L nonce backend_instance_id root_id material kek authority_key kind =
     (if \<not> valid_material L kind material \<or> length kek \<noteq> 32 then Inl InvalidRequest
      else
        rbind (ok_or (lc_encrypt L kek nonce (root_aad backend_instance_id root_id) material)
                 DefinitiveRejected) (\<lambda>encrypted.
        let backup = \<lparr>eb_root_key_id = root_id, eb_kind = kind, eb_pinned_root = None,
              eb_wrap_version = WRAP_FORMAT_VERSION, eb_nonce = nonce, eb_encrypted_seed = encrypted,
              eb_authority_key = authority_key, eb_descriptions = [], eb_registry = [],
              eb_namespaces = [], eb_tombstones = [], eb_pending = []\<rparr>;
            st = \<lparr>ls_instance = backend_instance_id, ls_backup = Some backup, ls_kek = Some kek,
              ls_registry = [], ls_storage = None\<rparr>
        in
        if kind = MatBip39Entropy then Inr st
        else
          rbind (root_key_ref L st) (\<lambda>root.
          let pinned = backup\<lparr>eb_pinned_root := Some root\<rparr>;
              st1 = st\<lparr>ls_backup := Some pinned\<rparr>
          in
          rbind (describe_path L st1 ''m'') (\<lambda>description.
          rbind (root_key_ref L st1) (\<lambda>root1.
            Inr (st1\<lparr>ls_backup :=
                   Some (pinned\<lparr>eb_descriptions := [description\<lparr>kd_key_ref := root1\<rparr>]\<rparr>)\<rparr>))))))"

definition provision_imported_secp256k1 ::
  "('m, 'p) local_prims \<Rightarrow> bytes \<Rightarrow> token \<Rightarrow> token \<Rightarrow> bytes \<Rightarrow> bytes \<Rightarrow> bytes \<Rightarrow> local_state backend_result" where
  "provision_imported_secp256k1 L nonce backend_instance_id root_id private_key kek authority_key =
     provision_material L nonce backend_instance_id root_id private_key kek authority_key
       MatImportedSecp256k1Scalar"

definition provision_bip39 ::
  "('m, 'p) local_prims \<Rightarrow> bytes \<Rightarrow> token \<Rightarrow> token \<Rightarrow> bytes \<Rightarrow> bytes \<Rightarrow> bytes \<Rightarrow> local_state backend_result" where
  "provision_bip39 L nonce backend_instance_id wallet_seed entropy kek authority_key =
     provision_material L nonce backend_instance_id wallet_seed entropy kek authority_key MatBip39Entropy"

definition pinned_root_bad :: "token \<Rightarrow> local_backup \<Rightarrow> bool" where
  "pinned_root_bad backend_instance_id backup =
     (case eb_pinned_root backup of
        None \<Rightarrow> False
      | Some root \<Rightarrow>
          kr_backend root \<noteq> ''local'' \<or> kr_backend_instance root \<noteq> backend_instance_id
          \<or> kr_key_spec root \<noteq> Secp256k1 \<or> kr_locator root \<noteq> ''root:'' @ eb_root_key_id backup
          \<or> kr_derivation root \<noteq> None)"

text \<open>The scans of \<open>restore\<close>: each keeps the values it has inserted and stops at the first entry
  it objects to.\<close>

fun registry_bad :: "token \<Rightarrow> local_backup \<Rightarrow> string list \<Rightarrow> string list \<Rightarrow> key_ref list \<Rightarrow> bool" where
  "registry_bad instance_id backup locators paths [] = False"
| "registry_bad instance_id backup locators paths (k # ks) =
     (let roots_match =
        (case kr_derivation k of
           Some (Bip32Secp256k1 root _) \<Rightarrow> root = eb_root_key_id backup
         | Some (Bip39Multicurve seed _ _) \<Rightarrow> seed = eb_root_key_id backup
         | None \<Rightarrow> False)
      in
      \<not> roots_match \<or> kr_backend k \<noteq> ''local'' \<or> kr_backend_instance k \<noteq> instance_id
      \<or> kr_locator k \<in> set locators
      \<or> (case derivation_path_of k of
           Some path \<Rightarrow>
             path \<in> set paths \<or> path \<in> set (eb_tombstones backup)
             \<or> registry_bad instance_id backup (kr_locator k # locators) (path # paths) ks
         | None \<Rightarrow> True))"

fun descriptions_bad :: "('m, 'p) local_prims \<Rightarrow> local_backup \<Rightarrow> string list \<Rightarrow> key_description list \<Rightarrow> bool" where
  "descriptions_bad L backup described [] = False"
| "descriptions_bad L backup described (d # ds) =
     (let k = kd_key_ref d in
      (k \<notin> set (eb_registry backup) \<and> eb_pinned_root backup \<noteq> Some k)
      \<or> kr_locator k \<in> set described
      \<or> kd_fingerprint d \<noteq> kr_fingerprint k
      \<or> p_sha256 (lc_prims L) (kd_spki d) \<noteq> kr_fingerprint k
      \<or> descriptions_bad L backup (kr_locator k # described) ds)"

fun namespaces_bad :: "('m, 'p) local_prims \<Rightarrow> token list \<Rightarrow> derivation_namespace list \<Rightarrow> bool" where
  "namespaces_bad L seen [] = False"
| "namespaces_bad L seen (n # ns) =
     (dn_namespace_id n \<in> set seen
      \<or> \<not> is_ok (validate_namespace_prefix L (dn_prefix n))
      \<or> dn_next_index n > dn_maximum n
      \<or> dn_maximum n > 2 ^ 31
      \<or> namespaces_bad L (dn_namespace_id n # seen) ns)"

definition restore_bad :: "('m, 'p) local_prims \<Rightarrow> token \<Rightarrow> local_backup \<Rightarrow> bool" where
  "restore_bad L instance_id backup =
     (eb_wrap_version backup \<noteq> WRAP_FORMAT_VERSION
      \<or> length (eb_nonce backup) \<noteq> 24
      \<or> length (eb_authority_key backup) \<noteq> 32
      \<or> pinned_root_bad instance_id backup
      \<or> registry_bad instance_id backup [] [] (eb_registry backup)
      \<or> descriptions_bad L backup [] (eb_descriptions backup)
      \<or> length (remdups (eb_tombstones backup)) \<noteq> length (eb_tombstones backup)
      \<or> namespaces_bad L [] (eb_namespaces backup))"

definition registry_of :: "key_ref list \<Rightarrow> (string, key_ref) btree" where
  "registry_of ks = bt_collect (map (\<lambda>k. (kr_locator k, k)) ks)"

definition restore :: "('m, 'p) local_prims \<Rightarrow> token \<Rightarrow> local_backup \<Rightarrow> local_state backend_result" where
  "restore L instance_id backup =
     (if restore_bad L instance_id backup then Inl InvalidRequest
      else Inr \<lparr>ls_instance = instance_id, ls_backup = Some backup, ls_kek = None,
                ls_registry = registry_of (eb_registry backup), ls_storage = None\<rparr>)"

text \<open>\<open>read\<close> is the file's content, \<open>decode\<close> is \<open>serde_json\<close>'s reading of it.\<close>

definition open_at ::
  "('m, 'p) local_prims \<Rightarrow> (string \<Rightarrow> bytes option) \<Rightarrow> (bytes \<Rightarrow> local_backup option) \<Rightarrow> string \<Rightarrow> token
   \<Rightarrow> local_state backend_result" where
  "open_at L read decode path instance_id =
     rbind (ok_or (read path) DefinitiveRejected) (\<lambda>bytes.
     rbind (ok_or (decode bytes) InvalidRequest) (\<lambda>backup.
     rbind (restore L instance_id backup) (\<lambda>st. Inr (st\<lparr>ls_storage := Some path\<rparr>))))"

subsection \<open>Activation\<close>

definition validate_registered ::
  "('m, 'p) local_prims \<Rightarrow> local_state \<Rightarrow> bytes option \<Rightarrow> key_ref \<Rightarrow> unit backend_result" where
  "validate_registered L st seed k =
     (case kr_derivation k of
        Some (Bip32Secp256k1 _ path) \<Rightarrow>
          rbind (describe_path L st path) (\<lambda>d. ensure (kd_key_ref d = k) DefinitiveRejected)
      | Some (Bip39Multicurve _ _ _) \<Rightarrow>
          rbind (ok_or seed InvalidRequest) (\<lambda>seed.
          rbind (describe_bip39_child_with_seed L k seed) (\<lambda>d.
            ensure (kd_key_ref d = k) DefinitiveRejected))
      | None \<Rightarrow> Inr ())"

definition validate_registered_derivations :: "('m, 'p) local_prims \<Rightarrow> local_state \<Rightarrow> unit backend_result" where
  "validate_registered_derivations L st =
     (let is_bip39 =
        (case ls_backup st of Some backup \<Rightarrow> eb_kind backup = MatBip39Entropy | None \<Rightarrow> False) in
      rbind (if \<not> is_bip39
             then rbind (root_key_ref L st) (\<lambda>root.
                  rbind (describe_path L st ''m'') (\<lambda>d.
                    ensure (kr_fingerprint root = kd_fingerprint d) DefinitiveRejected))
             else Inr ()) (\<lambda>_.
      rbind (if is_bip39 then rbind (bip39_seed L st) (\<lambda>seed. Inr (Some seed)) else Inr None) (\<lambda>seed.
        for_each (validate_registered L st seed) (map snd (ls_registry st)))))"

definition activate_blocking ::
  "('m, 'p) local_prims \<Rightarrow> bytes \<Rightarrow> local_state \<Rightarrow> local_state \<times> unit backend_result" where
  "activate_blocking L secret st =
     (if length secret \<noteq> 32 then (st, Inl InvalidRequest)
      else
        let st1 = st\<lparr>ls_kek := Some secret\<rparr> in
        case rbind (active_seed L st1) (\<lambda>_. validate_registered_derivations L st1) of
          Inl _ \<Rightarrow> (st1\<lparr>ls_kek := None\<rparr>, Inl DefinitiveRejected)
        | Inr _ \<Rightarrow> (st1, Inr ()))"

definition local_deactivate :: "local_state \<Rightarrow> local_state \<times> unit backend_result" where
  "local_deactivate st = (st\<lparr>ls_kek := None\<rparr>, Inr ())"

definition local_activation_status :: "local_state \<Rightarrow> activation_status backend_result" where
  "local_activation_status st = Inr (if ls_kek st \<noteq> None then Active else Inactive)"

definition prepare_activation :: "token backend_result" where
  "prepare_activation = Inr ''local-kek-v1''"

subsection \<open>Registering and retiring children\<close>

definition register_child ::
  "('m, 'p) local_prims \<Rightarrow> disk \<Rightarrow> key_ref \<Rightarrow> key_description option \<Rightarrow> operation_id option \<Rightarrow> local_state
   \<Rightarrow> local_state \<times> unit backend_result" where
  "register_child L disk k description operation st =
     (case ls_backup st of
        None \<Rightarrow> (st, Inl DefinitiveRejected)
      | Some next \<Rightarrow>
          if k \<in> set (eb_registry next)
          then (case description of
                  Some d \<Rightarrow>
                    if \<not> list_ex (\<lambda>pinned. kd_key_ref pinned = k) (eb_descriptions next)
                    then commit_backup L disk (next\<lparr>eb_descriptions := eb_descriptions next @ [d]\<rparr>) st
                    else (st, Inr ())
                | None \<Rightarrow> (st, Inr ()))
          else
            let next = next\<lparr>eb_registry := eb_registry next @ [k]\<rparr>;
                next = (case description of
                          Some d \<Rightarrow> next\<lparr>eb_descriptions := eb_descriptions next @ [d]\<rparr>
                        | None \<Rightarrow> next);
                next = (case operation of
                          Some op \<Rightarrow> next\<lparr>eb_pending := bt_insert op k (eb_pending next)\<rparr>
                        | None \<Rightarrow> next)
            in
            case commit_backup L disk next st of
              (st', Inl e) \<Rightarrow> (st', Inl e)
            | (st', Inr _) \<Rightarrow>
                (st'\<lparr>ls_registry := bt_insert (kr_locator k) k (ls_registry st')\<rparr>, Inr ()))"

definition register_bip39_child ::
  "('m, 'p) local_prims \<Rightarrow> disk \<Rightarrow> key_ref \<Rightarrow> operation_id option \<Rightarrow> local_state
   \<Rightarrow> local_state \<times> unit backend_result" where
  "register_bip39_child L disk k operation st =
     (if kr_derivation k = None then (st, Inl InvalidRequest)
      else if is_bip39_child k
      then (case describe_bip39_child L st k of
              Inl e \<Rightarrow> (st, Inl e)
            | Inr d \<Rightarrow> register_child L disk k (Some d) operation st)
      else register_child L disk k None operation st)"

definition register_bip39_child_description ::
  "('m, 'p) local_prims \<Rightarrow> disk \<Rightarrow> key_description \<Rightarrow> operation_id option \<Rightarrow> local_state
   \<Rightarrow> local_state \<times> unit backend_result" where
  "register_bip39_child_description L disk d operation st =
     (let k = kd_key_ref d in
      if \<not> is_bip39_child k \<or> kd_fingerprint d \<noteq> kr_fingerprint k
         \<or> p_sha256 (lc_prims L) (kd_spki d) \<noteq> kr_fingerprint k
      then (st, Inl InvalidRequest)
      else register_child L disk k (Some d) operation st)"

text \<open>What retirement and the tombstone of a derived key share: the key leaves the registry, its
  description and its pending operations go with it, and its path is remembered.\<close>

definition remove_key :: "key_ref \<Rightarrow> string \<Rightarrow> local_backup \<Rightarrow> local_backup" where
  "remove_key k path backup =
     backup\<lparr>eb_registry := filter (\<lambda>k'. k' \<noteq> k) (eb_registry backup),
       eb_descriptions := filter (\<lambda>d. kd_key_ref d \<noteq> k) (eb_descriptions backup),
       eb_pending := bt_retain (\<lambda>pending. pending \<noteq> k) (eb_pending backup),
       eb_tombstones := (if path \<notin> set (eb_tombstones backup)
                         then eb_tombstones backup @ [path] else eb_tombstones backup)\<rparr>"

definition tombstone_path ::
  "('m, 'p) local_prims \<Rightarrow> disk \<Rightarrow> key_ref \<Rightarrow> string \<Rightarrow> local_state \<Rightarrow> local_state \<times> unit backend_result" where
  "tombstone_path L disk k path st =
     (if map_of (ls_registry st) (kr_locator k) \<noteq> Some k then (st, Inl InvalidRequest)
      else case ls_backup st of
        None \<Rightarrow> (st, Inl DefinitiveRejected)
      | Some next \<Rightarrow>
          (case commit_backup L disk (remove_key k path next) st of
             (st', Inl e) \<Rightarrow> (st', Inl e)
           | (st', Inr _) \<Rightarrow> (st'\<lparr>ls_registry := bt_remove (kr_locator k) (ls_registry st')\<rparr>, Inr ())))"

definition retire_bip39_child ::
  "('m, 'p) local_prims \<Rightarrow> disk \<Rightarrow> key_ref \<Rightarrow> local_state \<Rightarrow> local_state \<times> unit backend_result" where
  "retire_bip39_child L disk k st =
     (case kr_derivation k of
        Some (Bip39Multicurve _ _ path) \<Rightarrow> tombstone_path L disk k path st
      | _ \<Rightarrow> (st, Inl InvalidRequest))"

definition tombstone_derived_key ::
  "('m, 'p) local_prims \<Rightarrow> disk \<Rightarrow> key_ref \<Rightarrow> local_state \<Rightarrow> local_state \<times> unit backend_result" where
  "tombstone_derived_key L disk k st =
     (case derivation_path_of k of
        Some path \<Rightarrow> tombstone_path L disk k path st
      | None \<Rightarrow> (st, Inl InvalidRequest))"

definition finalize_derived_key ::
  "('m, 'p) local_prims \<Rightarrow> disk \<Rightarrow> operation_id \<Rightarrow> local_state \<Rightarrow> local_state \<times> unit backend_result" where
  "finalize_derived_key L disk operation st =
     (case ls_backup st of
        None \<Rightarrow> (st, Inl DefinitiveRejected)
      | Some next \<Rightarrow>
          if map_of (eb_pending next) operation = None then (st, Inl InvalidRequest)
          else commit_backup L disk (next\<lparr>eb_pending := bt_remove operation (eb_pending next)\<rparr>) st)"

subsection \<open>Namespaces\<close>

definition authority_message :: "('m, 'p) local_prims \<Rightarrow> derivation_grant \<Rightarrow> bytes" where
  "authority_message L g =
     str_bytes DERIVATION_AUTHORITY_DOMAIN @ p_jcs (lc_prims L) (derivation_grant_json g)"

definition verify_derivation_authority ::
  "('m, 'p) local_prims \<Rightarrow> derivation_authority \<Rightarrow> local_state \<Rightarrow> digest32 backend_result" where
  "verify_derivation_authority L a st =
     (if gr_authority_kind (au_grant a) \<notin> {''policy'', ''ceremony''} then Inl InvalidRequest
      else
        rbind (ok_or (ls_backup st) DefinitiveRejected) (\<lambda>backup.
        let message = authority_message L (au_grant a) in
        if length (eb_authority_key backup) \<noteq> 32 then Inl InvalidRequest
        else if length (au_signature a) \<noteq> 64 then Inl InvalidRequest
        else if \<not> lc_verifying_key_ok L (eb_authority_key backup) then Inl InvalidRequest
        else if \<not> p_verify (lc_prims L) (eb_authority_key backup) message (au_signature a)
        then Inl DefinitiveRejected
        else Inr (p_sha256 (lc_prims L) message)))"

definition configure_namespace ::
  "('m, 'p) local_prims \<Rightarrow> disk \<Rightarrow> derivation_authority \<Rightarrow> local_state \<Rightarrow> local_state \<times> unit backend_result" where
  "configure_namespace L disk a st =
     (if (case ls_backup st of Some b \<Rightarrow> eb_kind b = MatImportedSecp256k1Scalar | None \<Rightarrow> False)
      then (st, Inl Unsupported)
      else
        let g = au_grant a; start = gr_starting_index g; maximum = gr_maximum_children g in
        case rbind (verify_derivation_authority L a st) (\<lambda>digest.
             rbind (validate_namespace_prefix L (gr_prefix g)) (\<lambda>_.
               if maximum = 0 \<or> start > 0x7fffffff \<or> maximum > 0x80000000
                  \<or> saturating_add start maximum > 0x80000000
               then Inl InvalidRequest else Inr digest)) of
          Inl e \<Rightarrow> (st, Inl e)
        | Inr digest \<Rightarrow>
            (case ls_backup st of
               None \<Rightarrow> (st, Inl DefinitiveRejected)
             | Some next \<Rightarrow>
                 (case find (\<lambda>n. dn_namespace_id n = gr_namespace_id g) (eb_namespaces next) of
                    Some existing \<Rightarrow>
                      (st, if dn_authority existing = digest \<and> dn_prefix existing = gr_prefix g
                              \<and> dn_maximum existing = start + maximum
                           then Inr () else Inl InvalidRequest)
                  | None \<Rightarrow>
                      commit_backup L disk
                        (next\<lparr>eb_namespaces := eb_namespaces next @
                           [\<lparr>dn_namespace_id = gr_namespace_id g, dn_prefix = gr_prefix g,
                             dn_next_index = start, dn_maximum = start + maximum,
                             dn_authority = digest\<rparr>]\<rparr>) st)))"

subsection \<open>Allocating derived keys\<close>

text \<open>The first half of \<open>allocate_derived_key_inner\<close> works on a snapshot and ends with the index it
  saw and the description to be committed, or with the description of the key an earlier
  attempt of the same operation allocated.\<close>

datatype allocation_plan = AlreadyPending key_description | FreshChild u64 key_description

definition valid_parent :: "('m, 'p) local_prims \<Rightarrow> local_state \<Rightarrow> local_backup \<Rightarrow> key_ref \<Rightarrow> unit backend_result" where
  "valid_parent L st snapshot root =
     rbind (if eb_kind snapshot = MatBip39Entropy then Inr (root \<in> set (eb_registry snapshot))
            else rbind (root_key_ref L st) (\<lambda>r. Inr (r = root))) (\<lambda>ok. ensure ok InvalidRequest)"

definition describe_pending ::
  "('m, 'p) local_prims \<Rightarrow> local_state \<Rightarrow> key_ref \<Rightarrow> key_description backend_result" where
  "describe_pending L st existing =
     (case kr_derivation existing of
        Some (Bip32Secp256k1 _ path) \<Rightarrow> describe_path L st path
      | Some (Bip39Multicurve _ _ _) \<Rightarrow> describe_bip39_child L st existing
      | None \<Rightarrow> Inl DefinitiveRejected)"

definition namespace_child_path :: "key_ref \<Rightarrow> derivation_namespace \<Rightarrow> string" where
  "namespace_child_path root n =
     (if kr_key_spec root = Ed25519 then dn_prefix n @ ''/'' @ show_u64 (dn_next_index n) @ [apos]
      else dn_prefix n @ ''/'' @ show_u64 (dn_next_index n))"

definition path_taken :: "local_backup \<Rightarrow> string \<Rightarrow> bool" where
  "path_taken snapshot path =
     (path \<in> set (eb_tombstones snapshot)
      \<or> list_ex (\<lambda>k. derivation_path_of k = Some path) (eb_registry snapshot))"

definition describe_new_child ::
  "('m, 'p) local_prims \<Rightarrow> local_state \<Rightarrow> key_ref \<Rightarrow> string \<Rightarrow> key_description backend_result" where
  "describe_new_child L st root path =
     (if kr_key_spec root = Ed25519
      then (case kr_derivation root of
              Some (Bip39Multicurve seed_ref Bip44SolanaSlip10Ed25519V1 _) \<Rightarrow>
                rbind (parse_bip39_path Bip44SolanaSlip10Ed25519V1 path) (\<lambda>(account, index).
                rbind (bip39_seed L st) (\<lambda>seed.
                rbind (derive_solana_key_for_path L seed account index path) (\<lambda>derived.
                  let fingerprint = lc_digest32 L (ded_fingerprint derived) in
                  Inr \<lparr>kd_key_ref =
                         \<lparr>kr_backend = ''local'', kr_backend_instance = ls_instance st,
                          kr_locator = child_locator L seed_ref path,
                          kr_key_spec = Ed25519, kr_fingerprint = fingerprint,
                          kr_derivation = Some (Bip39Multicurve seed_ref Bip44SolanaSlip10Ed25519V1 path)\<rparr>,
                       kd_spki = ded_spki derived, kd_fingerprint = fingerprint,
                       kd_suites = [Ed25519Message]\<rparr>)))
            | _ \<Rightarrow> Inl InvalidRequest)
      else describe_path L st path)"

definition plan_allocation ::
  "('m, 'p) local_prims \<Rightarrow> key_ref \<Rightarrow> token \<Rightarrow> derivation_authority \<Rightarrow> operation_id option \<Rightarrow> local_state
   \<Rightarrow> allocation_plan backend_result" where
  "plan_allocation L root namespace_id a operation st =
     rbind (verify_derivation_authority L a st) (\<lambda>digest.
     rbind (ok_or (ls_backup st) DefinitiveRejected) (\<lambda>snapshot.
     rbind (valid_parent L st snapshot root) (\<lambda>_.
     case Option.bind operation (map_of (eb_pending snapshot)) of
       Some existing \<Rightarrow> rbind (describe_pending L st existing) (\<lambda>d. Inr (AlreadyPending d))
     | None \<Rightarrow>
         rbind (ok_or (find (\<lambda>n. dn_namespace_id n = namespace_id) (eb_namespaces snapshot))
                  InvalidRequest) (\<lambda>n.
         if gr_namespace_id (au_grant a) \<noteq> namespace_id \<or> digest \<noteq> dn_authority n
         then Inl InvalidRequest
         else if dn_next_index n \<ge> dn_maximum n \<or> dn_next_index n > 0x7fffffff
         then Inl InvalidRequest
         else
           let path = namespace_child_path root n in
           if path_taken snapshot path then Inl DefinitiveRejected
           else rbind (describe_new_child L st root path) (\<lambda>d.
                  Inr (FreshChild (dn_next_index n) d))))))"

text \<open>The second half holds the write lock; \<open>seen\<close> is the index of the snapshot.\<close>

fun advance_namespace ::
  "token \<Rightarrow> u64 \<Rightarrow> derivation_namespace list \<Rightarrow> derivation_namespace list backend_result" where
  "advance_namespace namespace_id seen [] = Inl DefinitiveRejected"
| "advance_namespace namespace_id seen (n # ns) =
     (if dn_namespace_id n = namespace_id
      then if dn_next_index n \<noteq> seen then Inl DefinitiveRejected
           else rbind (ok_or (checked_add (dn_next_index n) 1) DefinitiveRejected) (\<lambda>next.
                  Inr (n\<lparr>dn_next_index := next\<rparr> # ns))
      else rbind (advance_namespace namespace_id seen ns) (\<lambda>ns'. Inr (n # ns')))"

definition commit_allocation ::
  "('m, 'p) local_prims \<Rightarrow> disk \<Rightarrow> token \<Rightarrow> u64 \<Rightarrow> key_description \<Rightarrow> operation_id option \<Rightarrow> local_state
   \<Rightarrow> local_state \<times> key_description backend_result" where
  "commit_allocation L disk namespace_id seen d operation st =
     (case ls_backup st of
        None \<Rightarrow> (st, Inl DefinitiveRejected)
      | Some next \<Rightarrow>
          (case advance_namespace namespace_id seen (eb_namespaces next) of
             Inl e \<Rightarrow> (st, Inl e)
           | Inr namespaces \<Rightarrow>
               let k = kd_key_ref d;
                   next = next\<lparr>eb_namespaces := namespaces, eb_registry := eb_registry next @ [k],
                     eb_descriptions := eb_descriptions next @ [d]\<rparr>;
                   next = (case operation of
                             Some op \<Rightarrow> next\<lparr>eb_pending := bt_insert op k (eb_pending next)\<rparr>
                           | None \<Rightarrow> next)
               in
               (case commit_backup L disk next st of
                  (st', Inl e) \<Rightarrow> (st', Inl e)
                | (st', Inr _) \<Rightarrow>
                    (st'\<lparr>ls_registry := bt_insert (kr_locator k) k (ls_registry st')\<rparr>, Inr d))))"

definition allocate_derived_key_inner ::
  "('m, 'p) local_prims \<Rightarrow> disk \<Rightarrow> key_ref \<Rightarrow> token \<Rightarrow> derivation_authority \<Rightarrow> operation_id option \<Rightarrow> local_state
   \<Rightarrow> local_state \<times> key_description backend_result" where
  "allocate_derived_key_inner L disk root namespace_id a operation st =
     (case plan_allocation L root namespace_id a operation st of
        Inl e \<Rightarrow> (st, Inl e)
      | Inr (AlreadyPending d) \<Rightarrow> (st, Inr d)
      | Inr (FreshChild seen d) \<Rightarrow> commit_allocation L disk namespace_id seen d operation st)"

definition allocate_derived_key ::
  "('m, 'p) local_prims \<Rightarrow> disk \<Rightarrow> key_ref \<Rightarrow> token \<Rightarrow> derivation_authority \<Rightarrow> local_state
   \<Rightarrow> local_state \<times> key_description backend_result" where
  "allocate_derived_key L disk root namespace_id a st =
     allocate_derived_key_inner L disk root namespace_id a None st"

definition allocate_derived_key_for_operation ::
  "('m, 'p) local_prims \<Rightarrow> disk \<Rightarrow> key_ref \<Rightarrow> token \<Rightarrow> derivation_authority \<Rightarrow> operation_id \<Rightarrow> local_state
   \<Rightarrow> local_state \<times> key_description backend_result" where
  "allocate_derived_key_for_operation L disk root namespace_id a operation st =
     allocate_derived_key_inner L disk root namespace_id a (Some operation) st"

subsection \<open>The backend traits\<close>

definition local_capabilities :: "local_state \<Rightarrow> backend_capabilities" where
  "local_capabilities st =
     (let kind = (case ls_backup st of Some b \<Rightarrow> eb_kind b | None \<Rightarrow> MatBip32Seed);
          is_bip39 = (kind = MatBip39Entropy)
      in
      \<lparr>bc_backend_id = ''local'', bc_backend_instance_id = ls_instance st,
       bc_key_specs = (if is_bip39 then [Secp256k1, Ed25519] else [Secp256k1]),
       bc_suites = (if is_bip39 then secp_suites @ [Ed25519Message] else secp_suites),
       bc_derivation =
         (if kind = MatBip32Seed
          then [\<lparr>dc_scheme = ''bip32-secp256k1'', dc_maximum_depth = 10, dc_maximum_index = 0x7fffffff\<rparr>]
          else []),
       bc_input_kinds = (if is_bip39 then [InputDigest32, InputMessage] else [InputDigest32]),
       bc_encodings = (if is_bip39 then [Secp256k1Recoverable65, Ed25519Raw64] else [Secp256k1Recoverable65]),
       bc_maximum_input_bytes = 1232, bc_maximum_batch_size = 32,
       bc_can_generate = True, bc_can_import = True, bc_can_export_encrypted = True,
       bc_can_delete = True, bc_requires_activation = True, bc_requires_user_presence = True,
       bc_networked = False, bc_idempotency = NoDeduplication\<rparr>)"

definition pinned_description :: "local_state \<Rightarrow> key_ref \<Rightarrow> key_description option" where
  "pinned_description st k =
     Option.bind (ls_backup st) (\<lambda>backup. find (\<lambda>d. kd_key_ref d = k) (eb_descriptions backup))"

definition local_describe_key ::
  "('m, 'p) local_prims \<Rightarrow> local_state \<Rightarrow> key_ref \<Rightarrow> key_description backend_result" where
  "local_describe_key L st k =
     (case pinned_description st k of
        Some d \<Rightarrow>
          if kd_fingerprint d \<noteq> kr_fingerprint k \<or> p_sha256 (lc_prims L) (kd_spki d) \<noteq> kr_fingerprint k
          then Inl DefinitiveRejected else Inr d
      | None \<Rightarrow>
          (case kr_derivation k of
             Some (Bip39Multicurve _ _ path) \<Rightarrow>
               if (case ls_backup st of Some b \<Rightarrow> path \<in> set (eb_tombstones b) | None \<Rightarrow> False)
               then Inl DefinitiveRejected
               else if map_of (ls_registry st) (kr_locator k) \<noteq> Some k then Inl InvalidRequest
               else describe_bip39_child L st k
           | derivation \<Rightarrow>
               rbind (root_key_ref L st) (\<lambda>root.
               if root = k
               then rbind (describe_path L st ''m'') (\<lambda>d. Inr (d\<lparr>kd_key_ref := k\<rparr>))
               else
                 rbind (ok_or (map_of (ls_registry st) (kr_locator k)) InvalidRequest) (\<lambda>registered.
                 if registered \<noteq> k then Inl InvalidRequest
                 else (case derivation of
                         Some (Bip32Secp256k1 _ path) \<Rightarrow> describe_path L st path
                       | _ \<Rightarrow> Inl InvalidRequest)))))"

definition derive_secp_signing_key ::
  "('m, 'p) local_prims \<Rightarrow> local_state \<Rightarrow> key_ref \<Rightarrow> bytes backend_result" where
  "derive_secp_signing_key L st k =
     (if (case root_key_ref L st of Inr root \<Rightarrow> root = k | Inl _ \<Rightarrow> False) then root_signing_key L st
      else
        rbind (ok_or (map_of (ls_registry st) (kr_locator k)) InvalidRequest) (\<lambda>registered.
        if registered \<noteq> k then Inl InvalidRequest
        else (case kr_derivation registered of
                None \<Rightarrow> Inl InvalidRequest
              | Some (Bip32Secp256k1 _ path) \<Rightarrow>
                  rbind (ok_or (lc_parse_path L path) InvalidRequest) (\<lambda>p.
                  rbind (active_seed L st) (\<lambda>seed.
                    ok_or (lc_derive_path L seed p) DefinitiveRejected))
              | Some (Bip39Multicurve _ profile path) \<Rightarrow>
                  rbind (parse_bip39_path profile path) (\<lambda>(account, index).
                  if profile \<noteq> Bip44EvmSecp256k1V1 then Inl InvalidRequest
                  else
                    rbind (bip39_seed L st) (\<lambda>seed.
                    case derive_evm_account (lc_derive L) seed account index of
                      Inl _ \<Rightarrow> Inl DefinitiveRejected
                    | Inr derived \<Rightarrow>
                        if dsec_fingerprint derived \<noteq> lc_digest_bytes L (kr_fingerprint k)
                        then Inl DefinitiveRejected
                        else ok_or (lc_signing_key L (dsec_private_key derived)) DefinitiveRejected)))))"

definition derive_ed25519_signing_key ::
  "('m, 'p) local_prims \<Rightarrow> local_state \<Rightarrow> key_ref \<Rightarrow> bytes backend_result" where
  "derive_ed25519_signing_key L st k =
     rbind (ok_or (map_of (ls_registry st) (kr_locator k)) InvalidRequest) (\<lambda>registered.
     if registered \<noteq> k then Inl InvalidRequest
     else (case kr_derivation registered of
             Some (Bip39Multicurve _ profile path) \<Rightarrow>
               if profile \<noteq> Bip44SolanaSlip10Ed25519V1 then Inl InvalidRequest
               else
                 rbind (parse_bip39_path profile path) (\<lambda>(account, index).
                 rbind (bip39_seed L st) (\<lambda>seed.
                 rbind (derive_solana_key_for_path L seed account index path) (\<lambda>derived.
                   if ded_fingerprint derived \<noteq> lc_digest_bytes L (kr_fingerprint k)
                   then Inl DefinitiveRejected
                   else if length (ded_private_key derived) \<noteq> 32 then Inl DefinitiveRejected
                   else Inr (ded_private_key derived))))
           | _ \<Rightarrow> Inl InvalidRequest))"

definition local_sign ::
  "('m, 'p) local_prims \<Rightarrow> local_state \<Rightarrow> backend_sign_request \<Rightarrow> backend_signature backend_result" where
  "local_sign L st r =
     (if \<not> input_matches_suite r \<or> bs_suite r \<notin> set (bc_suites (local_capabilities st))
      then Inl Unsupported
      else if bs_suite r = Ed25519Message
      then (case bs_input r of
              MessageInput message \<Rightarrow>
                rbind (derive_ed25519_signing_key L st (bs_key_ref r)) (\<lambda>key.
                let signature = lc_ed_sign L key message in
                if \<not> lc_verify_strict L (lc_ed_public L key) message signature
                then Inl DefinitiveRejected
                else Inr \<lparr>sg_suite = bs_suite r, sg_encoding = Ed25519Raw64, sg_bytes = signature,
                          sg_correlation = None\<rparr>)
            | DigestInput _ \<Rightarrow> Inl InvalidRequest)
      else (case bs_input r of
              DigestInput digest \<Rightarrow>
                rbind (ok_or (p_hex_decode (lc_prims L) digest) InvalidRequest) (\<lambda>bytes.
                if length bytes \<noteq> 32 then Inl InvalidRequest
                else
                  rbind (derive_secp_signing_key L st (bs_key_ref r)) (\<lambda>key.
                  case lc_sign_recoverable L key bytes of
                    (signature, recovery) \<Rightarrow>
                      Inr \<lparr>sg_suite = bs_suite r, sg_encoding = Secp256k1Recoverable65,
                           sg_bytes = signature @ [recovery], sg_correlation = None\<rparr>))
            | MessageInput _ \<Rightarrow> Inl InvalidRequest))"

definition supported_derivation_schemes :: "local_state \<Rightarrow> derivation_capability list" where
  "supported_derivation_schemes st = bc_derivation (local_capabilities st)"

definition derive_public ::
  "('m, 'p) local_prims \<Rightarrow> local_state \<Rightarrow> key_ref \<Rightarrow> string \<Rightarrow> key_description backend_result" where
  "derive_public L st root canonical_path =
     rbind (root_key_ref L st) (\<lambda>r.
     if r \<noteq> root then Inl InvalidRequest
     else
       rbind (ok_or (find (\<lambda>k. case kr_derivation k of
                Some (Bip32Secp256k1 _ path) \<Rightarrow> path = canonical_path | _ \<Rightarrow> False)
              (map snd (ls_registry st))) InvalidRequest) (\<lambda>k. local_describe_key L st k))"

definition register_derived_key :: "key_ref \<Rightarrow> string \<Rightarrow> key_description backend_result" where
  "register_derived_key root canonical_path = Inl InvalidRequest"

end
