(* ===== verification/Local_Invariant.thy ===== *)
theory Local_Invariant
  imports Local_Backend
begin

text \<open>
  The invariant of the local backend: the backup is one that \<open>restore\<close> accepts, the in-memory registry is
  the one \<open>restore\<close> builds from it, every registered key's locator is the hash of its
  path, and the pending operations are in order. The theory characterises the scans of \<open>restore\<close>, gives the step relation of the backend and
  shows that every step keeps the invariant and forgets no tombstone, unless two texts hash to one
  locator.
\<close>

subsection \<open>What restore accepts\<close>

definition root_matches :: "local_backup \<Rightarrow> key_ref \<Rightarrow> bool" where
  "root_matches b k =
     (case kr_derivation k of
        Some (Bip32Secp256k1 root _) \<Rightarrow> root = eb_root_key_id b
      | Some (Bip39Multicurve seed _ _) \<Rightarrow> seed = eb_root_key_id b
      | None \<Rightarrow> False)"

definition key_fits :: "token \<Rightarrow> local_backup \<Rightarrow> key_ref \<Rightarrow> bool" where
  "key_fits instance_id b k =
     (root_matches b k \<and> kr_backend k = ''local'' \<and> kr_backend_instance k = instance_id)"

definition description_fits :: "('m, 'p) local_prims \<Rightarrow> key_description \<Rightarrow> bool" where
  "description_fits L d =
     (kd_fingerprint d = kr_fingerprint (kd_key_ref d)
      \<and> p_sha256 (lc_prims L) (kd_spki d) = kr_fingerprint (kd_key_ref d))"

definition namespace_fits :: "('m, 'p) local_prims \<Rightarrow> derivation_namespace \<Rightarrow> bool" where
  "namespace_fits L n =
     (is_ok (validate_namespace_prefix L (dn_prefix n)) \<and> dn_next_index n \<le> dn_maximum n
      \<and> dn_maximum n \<le> 2 ^ 31)"

definition key_path :: "key_ref \<Rightarrow> string" where
  "key_path k = the (derivation_path_of k)"

lemma root_matches_path: "root_matches b k \<Longrightarrow> derivation_path_of k = Some (key_path k)"
  by (auto simp: root_matches_def derivation_path_of_def key_path_def split: option.splits derivation_ref.splits)

lemma registry_bad_iff:
  "\<not> registry_bad i b ls ps ks \<longleftrightarrow>
     (\<forall>k\<in>set ks. key_fits i b k \<and> key_path k \<notin> set (eb_tombstones b) \<and> key_path k \<notin> set ps
        \<and> kr_locator k \<notin> set ls)
     \<and> distinct (map kr_locator ks) \<and> distinct (map key_path ks)"
proof (induction ks arbitrary: ls ps)
  case (Cons k ks)
  show ?case
  proof (cases "root_matches b k")
    case False
    then have "registry_bad i b ls ps (k # ks)" by (simp add: root_matches_def Let_def)
    with False show ?thesis by (simp add: key_fits_def)
  next
    case True
    then have bad: "registry_bad i b ls ps (k # ks) \<longleftrightarrow>
        kr_backend k \<noteq> ''local'' \<or> kr_backend_instance k \<noteq> i \<or> kr_locator k \<in> set ls
        \<or> key_path k \<in> set ps \<or> key_path k \<in> set (eb_tombstones b)
        \<or> registry_bad i b (kr_locator k # ls) (key_path k # ps) ks"
      by (simp add: root_matches_path [OF True] Let_def flip: root_matches_def [of b k])
    have image: "f k \<notin> f ` set ks \<longleftrightarrow> (\<forall>x\<in>set ks. f x \<noteq> f k)" for f :: "key_ref \<Rightarrow> string"
      by (auto simp: image_iff)
    show ?thesis
      unfolding bad de_Morgan_disj not_not Cons.IH
      by (simp add: key_fits_def [of i b k] True image) blast
  qed
qed simp

lemma descriptions_bad_iff:
  "\<not> descriptions_bad L b ls ds \<longleftrightarrow>
     (\<forall>d\<in>set ds. (kd_key_ref d \<in> set (eb_registry b) \<or> eb_pinned_root b = Some (kd_key_ref d))
        \<and> description_fits L d \<and> kr_locator (kd_key_ref d) \<notin> set ls)
     \<and> distinct (map (\<lambda>d. kr_locator (kd_key_ref d)) ds)"
proof (induction ds arbitrary: ls)
  case (Cons d ds)
  then show ?case by (auto simp: Let_def description_fits_def) (metis (mono_tags, lifting) image_eqI)+
qed simp

lemma namespaces_bad_iff:
  "\<not> namespaces_bad L ids ns \<longleftrightarrow>
     (\<forall>n\<in>set ns. namespace_fits L n \<and> dn_namespace_id n \<notin> set ids) \<and> distinct (map dn_namespace_id ns)"
proof (induction ns arbitrary: ids)
  case (Cons n ns)
  then show ?case by (auto simp: namespace_fits_def not_le not_less) (metis imageI)
qed simp

lemma remdups_length_iff: "length (remdups xs) = length xs \<longleftrightarrow> distinct xs"
  by (metis distinct_card length_remdups_card_conv distinct_remdups_id card_distinct)

lemma restore_bad_iff:
  "\<not> restore_bad L i b \<longleftrightarrow>
     eb_wrap_version b = WRAP_FORMAT_VERSION \<and> length (eb_nonce b) = 24 \<and> length (eb_authority_key b) = 32
     \<and> \<not> pinned_root_bad i b
     \<and> (\<forall>k\<in>set (eb_registry b). key_fits i b k \<and> key_path k \<notin> set (eb_tombstones b))
     \<and> distinct (map kr_locator (eb_registry b)) \<and> distinct (map key_path (eb_registry b))
     \<and> (\<forall>d\<in>set (eb_descriptions b). (kd_key_ref d \<in> set (eb_registry b) \<or> eb_pinned_root b = Some (kd_key_ref d))
          \<and> description_fits L d)
     \<and> distinct (map (\<lambda>d. kr_locator (kd_key_ref d)) (eb_descriptions b))
     \<and> distinct (eb_tombstones b)
     \<and> (\<forall>n\<in>set (eb_namespaces b). namespace_fits L n) \<and> distinct (map dn_namespace_id (eb_namespaces b))"
  unfolding restore_bad_def de_Morgan_disj registry_bad_iff descriptions_bad_iff namespaces_bad_iff
    not_not remdups_length_iff
  by (simp cong: conj_cong)

subsection \<open>The invariant\<close>

definition locator_collision :: "('m, 'p) local_prims \<Rightarrow> bool" where
  "locator_collision L =
     (\<exists>x y. x \<noteq> y \<and> lc_hex L (d_sha256 (lc_derive L) x) = lc_hex L (d_sha256 (lc_derive L) y))"

definition local_laws :: "('m, 'p) local_prims \<Rightarrow> bool" where
  "local_laws L =
     ((\<forall>b. CHR '':'' \<notin> set (lc_hex L b))
      \<and> (\<forall>b. p_sha256 (lc_prims L) b = lc_digest32 L (d_sha256 (lc_derive L) b)))"

definition hashed_locator :: "('m, 'p) local_prims \<Rightarrow> local_backup \<Rightarrow> key_ref \<Rightarrow> bool" where
  "hashed_locator L b k = (kr_locator k = child_locator L (eb_root_key_id b) (key_path k))"

definition backup_inv :: "('m, 'p) local_prims \<Rightarrow> token \<Rightarrow> local_backup \<Rightarrow> bool" where
  "backup_inv L i b =
     (\<not> restore_bad L i b \<and> (\<forall>k\<in>set (eb_registry b). hashed_locator L b k) \<and> bt_wf (eb_pending b))"

definition local_inv :: "('m, 'p) local_prims \<Rightarrow> local_state \<Rightarrow> bool" where
  "local_inv L st =
     (\<exists>b. ls_backup st = Some b \<and> backup_inv L (ls_instance st) b
        \<and> ls_registry st = registry_of (eb_registry b))"

lemma locator_path_inject:
  "\<not> locator_collision L \<Longrightarrow> child_locator L r p = child_locator L r q \<longleftrightarrow> p = q"
  by (auto simp: locator_collision_def child_locator_def) (metis same_append_eq str_bytes_inject)

lemma root_locator_not_hashed:
  "local_laws L \<Longrightarrow> child_locator L r p \<noteq> ''root:'' @ x"
proof
  assume "local_laws L" "child_locator L r p = ''root:'' @ x"
  then have "CHR '':'' \<notin> set (''root:'' @ x)"
    unfolding local_laws_def child_locator_def by metis
  then show False by simp
qed

lemma registry_of_snoc: "registry_of (ks @ [k]) = bt_insert (kr_locator k) k (registry_of ks)"
  by (simp add: registry_of_def bt_collect_def)

lemma bt_wf_registry_of: "bt_wf (registry_of ks)"
  unfolding registry_of_def by (rule bt_wf_collect)

lemma map_of_registry:
  assumes "distinct (map kr_locator ks)"
  shows "map_of (registry_of ks) l = Some k \<longleftrightarrow> k \<in> set ks \<and> kr_locator k = l"
proof -
  have d: "distinct (map fst (map (\<lambda>k. (kr_locator k, k)) ks))" using assms by (simp add: comp_def)
  show ?thesis
    unfolding registry_of_def map_of_collect [OF d] map_of_eq_Some_iff [OF d] by auto
qed

lemma registry_of_remove:
  assumes "distinct (map kr_locator ks)" and "k \<in> set ks"
  shows "registry_of (filter (\<lambda>k'. k' \<noteq> k) ks) = bt_remove (kr_locator k) (registry_of ks)"
proof (rule bt_wf_ext)
  show "bt_wf (registry_of (filter (\<lambda>k'. k' \<noteq> k) ks))" by (rule bt_wf_registry_of)
  show "bt_wf (bt_remove (kr_locator k) (registry_of ks))" by (intro bt_wf_remove bt_wf_registry_of)
  have d: "distinct (map kr_locator (filter (\<lambda>k'. k' \<noteq> k) ks))"
    using assms(1) by (rule distinct_map_filter)
  show "map_of (registry_of (filter (\<lambda>k'. k' \<noteq> k) ks)) = map_of (bt_remove (kr_locator k) (registry_of ks))"
  proof (rule ext)
    fix l
    have uniq: "k' = k" if "k' \<in> set ks" "kr_locator k' = kr_locator k" for k'
      using assms that by (auto simp: distinct_map inj_on_def)
    have iff: "map_of (registry_of (filter (\<lambda>k'. k' \<noteq> k) ks)) l = Some x
        \<longleftrightarrow> map_of (bt_remove (kr_locator k) (registry_of ks)) l = Some x" for x
      using uniq by (auto simp: map_of_registry [OF d] map_of_bt_remove map_of_registry [OF assms(1)])
    show "map_of (registry_of (filter (\<lambda>k'. k' \<noteq> k) ks)) l
        = map_of (bt_remove (kr_locator k) (registry_of ks)) l"
      using iff by (metis option.exhaust)
  qed
qed

subsection \<open>Edits of a backup\<close>

text \<open>What the operations do to the backup, whatever they answer: describe a registered key, add a key
  (by registration or allocation), remove one, change the pending operations, or add a namespace.\<close>

definition namespaces_advance :: "derivation_namespace list \<Rightarrow> derivation_namespace list \<Rightarrow> bool" where
  "namespaces_advance ns ns' =
     list_all2 (\<lambda>n n'. n' = n \<or> (dn_next_index n < dn_maximum n \<and> n' = n\<lparr>dn_next_index := dn_next_index n + 1\<rparr>))
       ns ns'"

inductive backup_edit :: "('m, 'p) local_prims \<Rightarrow> token \<Rightarrow> local_backup \<Rightarrow> local_backup \<Rightarrow> bool"
  for L :: "('m, 'p) local_prims" and i :: token where
  edit_describe:
    "kd_key_ref d \<in> set (eb_registry b) \<Longrightarrow> description_fits L d
     \<Longrightarrow> \<forall>d'\<in>set (eb_descriptions b). kd_key_ref d' \<noteq> kd_key_ref d
     \<Longrightarrow> backup_edit L i b (b\<lparr>eb_descriptions := eb_descriptions b @ [d]\<rparr>)"
| edit_add:
    "key_fits i b k \<Longrightarrow> hashed_locator L b k \<Longrightarrow> \<not> path_taken b (key_path k)
     \<Longrightarrow> ds = [] \<or> (\<exists>d. ds = [d] \<and> kd_key_ref d = k \<and> description_fits L d)
     \<Longrightarrow> namespaces_advance (eb_namespaces b) ns \<Longrightarrow> bt_wf p
     \<Longrightarrow> backup_edit L i b (b\<lparr>eb_registry := eb_registry b @ [k],
           eb_descriptions := eb_descriptions b @ ds, eb_namespaces := ns, eb_pending := p\<rparr>)"
| edit_remove:
    "k \<in> set (eb_registry b) \<Longrightarrow> backup_edit L i b (remove_key k (key_path k) b)"
| edit_pending:
    "bt_wf p \<Longrightarrow> backup_edit L i b (b\<lparr>eb_pending := p\<rparr>)"
| edit_namespace:
    "namespace_fits L n \<Longrightarrow> \<forall>n'\<in>set (eb_namespaces b). dn_namespace_id n' \<noteq> dn_namespace_id n
     \<Longrightarrow> backup_edit L i b (b\<lparr>eb_namespaces := eb_namespaces b @ [n]\<rparr>)"

lemmas backup_inv_iff = backup_inv_def restore_bad_iff

lemma namespaces_advance_ids: "namespaces_advance ns ns' \<Longrightarrow> map dn_namespace_id ns' = map dn_namespace_id ns"
  unfolding namespaces_advance_def by (induction rule: list_all2_induct) auto

lemma word_succ_le: "x < y \<Longrightarrow> x + 1 \<le> y" for x y :: "'a::len word"
  by (rule inc_le)

lemma unat_succ: "x < y \<Longrightarrow> unat (x + 1) = unat x + 1" for x y :: "'a::len word"
proof -
  assume "x < y"
  then have "unat x + 1 < 2 ^ LENGTH('a)" using unat_lt_power [of y] unfolding word_less_nat_alt by linarith
  then show ?thesis by (simp add: unat_word_ariths)
qed

lemma word_le_succ: "x < y \<Longrightarrow> x \<le> x + 1" for x y :: "'a::len word"
  by (simp add: word_le_nat_alt unat_succ)

lemma namespace_fits_succ:
  "namespace_fits L n \<Longrightarrow> dn_next_index n < dn_maximum n
   \<Longrightarrow> namespace_fits L (n\<lparr>dn_next_index := dn_next_index n + 1\<rparr>)"
  unfolding namespace_fits_def using word_succ_le [of "dn_next_index n" "dn_maximum n"] by simp

lemma namespaces_advance_fits:
  "namespaces_advance ns ns' \<Longrightarrow> \<forall>n\<in>set ns. namespace_fits L n \<Longrightarrow> \<forall>n\<in>set ns'. namespace_fits L n"
  unfolding namespaces_advance_def
  by (induction rule: list_all2_induct) (auto intro: namespace_fits_succ)

lemma path_not_taken_iff:
  assumes "\<forall>k\<in>set (eb_registry b). key_fits i b k"
  shows "\<not> path_taken b p \<longleftrightarrow> p \<notin> set (eb_tombstones b) \<and> p \<notin> key_path ` set (eb_registry b)"
proof -
  have "derivation_path_of k = Some p \<longleftrightarrow> p = key_path k" if "k \<in> set (eb_registry b)" for k
    using assms that root_matches_path [of b k] by (auto simp: key_fits_def)
  then show ?thesis by (auto simp: path_taken_def list_ex_iff)
qed

lemma key_fits_backup:
  "eb_root_key_id b' = eb_root_key_id b \<Longrightarrow> key_fits i b' k = key_fits i b k"
  by (simp add: key_fits_def root_matches_def split: option.split derivation_ref.split)

lemma hashed_locator_backup:
  "eb_root_key_id b' = eb_root_key_id b \<Longrightarrow> hashed_locator L b' k = hashed_locator L b k"
  by (simp add: hashed_locator_def)

lemma pinned_root_bad_backup:
  "eb_root_key_id b' = eb_root_key_id b \<Longrightarrow> eb_pinned_root b' = eb_pinned_root b
   \<Longrightarrow> pinned_root_bad i b' = pinned_root_bad i b"
  unfolding pinned_root_bad_def by (simp split: option.split)

lemma backup_invD:
  assumes "backup_inv L i b"
  shows "\<not> pinned_root_bad i b"
    and "k \<in> set (eb_registry b) \<Longrightarrow> key_fits i b k"
    and "k \<in> set (eb_registry b) \<Longrightarrow> key_path k \<notin> set (eb_tombstones b)"
    and "k \<in> set (eb_registry b) \<Longrightarrow> hashed_locator L b k"
    and "distinct (map kr_locator (eb_registry b))" and "distinct (map key_path (eb_registry b))"
    and "d \<in> set (eb_descriptions b) \<Longrightarrow>
           kd_key_ref d \<in> set (eb_registry b) \<or> eb_pinned_root b = Some (kd_key_ref d)"
    and "d \<in> set (eb_descriptions b) \<Longrightarrow> description_fits L d"
    and "distinct (map (\<lambda>d. kr_locator (kd_key_ref d)) (eb_descriptions b))"
    and "distinct (eb_tombstones b)"
    and "n \<in> set (eb_namespaces b) \<Longrightarrow> namespace_fits L n"
    and "distinct (map dn_namespace_id (eb_namespaces b))"
    and "bt_wf (eb_pending b)"
  using assms unfolding backup_inv_iff by blast+

text \<open>An edit keeps the fixed fields, so the invariant is about the lists only.\<close>

lemma backup_inv_edit:
  assumes "backup_inv L i b"
    and "eb_root_key_id b' = eb_root_key_id b" "eb_pinned_root b' = eb_pinned_root b"
      "eb_wrap_version b' = eb_wrap_version b" "eb_nonce b' = eb_nonce b"
      "eb_authority_key b' = eb_authority_key b"
    and "\<And>k. k \<in> set (eb_registry b') \<Longrightarrow>
           key_fits i b k \<and> key_path k \<notin> set (eb_tombstones b') \<and> hashed_locator L b k"
    and "distinct (map kr_locator (eb_registry b'))" "distinct (map key_path (eb_registry b'))"
    and "\<And>d. d \<in> set (eb_descriptions b') \<Longrightarrow>
           (kd_key_ref d \<in> set (eb_registry b') \<or> eb_pinned_root b = Some (kd_key_ref d)) \<and> description_fits L d"
    and "distinct (map (\<lambda>d. kr_locator (kd_key_ref d)) (eb_descriptions b'))"
    and "distinct (eb_tombstones b')"
    and "\<And>n. n \<in> set (eb_namespaces b') \<Longrightarrow> namespace_fits L n"
    and "distinct (map dn_namespace_id (eb_namespaces b'))"
    and "bt_wf (eb_pending b')"
  shows "backup_inv L i b'"
  using assms unfolding backup_inv_iff
  by (simp add: key_fits_backup [of b' b] hashed_locator_backup [of b' b] pinned_root_bad_backup [of b' b])

lemma described_locator_differs:
  assumes inv: "backup_inv L i b" and laws: "local_laws L"
    and d: "d \<in> set (eb_descriptions b)" "kd_key_ref d \<noteq> k"
    and k: "hashed_locator L b k" "k \<in> set (eb_registry b) \<or> kr_locator k \<notin> kr_locator ` set (eb_registry b)"
  shows "kr_locator (kd_key_ref d) \<noteq> kr_locator k"
proof (cases "kd_key_ref d \<in> set (eb_registry b)")
  case True
  show ?thesis
  proof
    assume eq: "kr_locator (kd_key_ref d) = kr_locator k"
    with True k(2) have "k \<in> set (eb_registry b)" by (metis imageI)
    with True eq d(2) show False
      using backup_invD(5) [OF inv] by (auto simp: distinct_map inj_on_def)
  qed
next
  case False
  then have "eb_pinned_root b = Some (kd_key_ref d)" using backup_invD(7) [OF inv d(1)] by blast
  then have "kr_locator (kd_key_ref d) = ''root:'' @ eb_root_key_id b"
    using backup_invD(1) [OF inv] by (simp add: pinned_root_bad_def)
  then show ?thesis using k(1) root_locator_not_hashed [OF laws] by (metis hashed_locator_def)
qed

lemma edit_add_inv:
  assumes inv: "backup_inv L i b" and laws: "local_laws L" and col: "\<not> locator_collision L"
    and k: "key_fits i b k" "hashed_locator L b k" "\<not> path_taken b (key_path k)"
    and ds: "ds = [] \<or> (\<exists>d. ds = [d] \<and> kd_key_ref d = k \<and> description_fits L d)"
    and ns: "namespaces_advance (eb_namespaces b) ns" and p: "bt_wf p"
  shows "backup_inv L i (b\<lparr>eb_registry := eb_registry b @ [k],
           eb_descriptions := eb_descriptions b @ ds, eb_namespaces := ns, eb_pending := p\<rparr>)"
    (is "backup_inv L i ?b'")
proof -
  have fits: "\<forall>k\<in>set (eb_registry b). key_fits i b k" using backup_invD(2) [OF inv] by blast
  have fresh: "key_path k \<notin> set (eb_tombstones b)" "key_path k \<notin> key_path ` set (eb_registry b)"
    using k(3) path_not_taken_iff [OF fits] by auto
  have loc: "kr_locator k \<notin> kr_locator ` set (eb_registry b)"
  proof
    assume "kr_locator k \<in> kr_locator ` set (eb_registry b)"
    then obtain k' where k': "k' \<in> set (eb_registry b)" "kr_locator k' = kr_locator k" by auto
    have "key_path k' = key_path k"
      using backup_invD(4) [OF inv k'(1)] k(2) k'(2) locator_path_inject [OF col]
      by (simp add: hashed_locator_def)
    with k'(1) fresh(2) show False by (metis imageI)
  qed
  have notpinned: "eb_pinned_root b \<noteq> Some k"
    using backup_invD(1) [OF inv] k(1) by (auto simp: pinned_root_bad_def key_fits_def root_matches_def)
  have dist: "kr_locator (kd_key_ref d) \<noteq> kr_locator k" if "d \<in> set (eb_descriptions b)" for d
  proof (cases "kd_key_ref d = k")
    case True
    then show ?thesis using backup_invD(7) [OF inv that] loc notpinned by auto
  next
    case False
    then show ?thesis using described_locator_differs [OF inv laws that False k(2)] loc by blast
  qed
  show ?thesis
  proof (rule backup_inv_edit [OF inv])
    show "distinct (map (\<lambda>d. kr_locator (kd_key_ref d)) (eb_descriptions ?b'))"
      using backup_invD(9) [OF inv] ds dist by auto
    show "distinct (map dn_namespace_id (eb_namespaces ?b'))"
      using backup_invD(12) [OF inv] namespaces_advance_ids [OF ns] by simp
    show "namespace_fits L n" if "n \<in> set (eb_namespaces ?b')" for n
      using that namespaces_advance_fits [OF ns, of L] backup_invD(11) [OF inv] by simp
    show "(kd_key_ref d \<in> set (eb_registry ?b') \<or> eb_pinned_root b = Some (kd_key_ref d)) \<and> description_fits L d"
      if "d \<in> set (eb_descriptions ?b')" for d
      using that ds backup_invD(7,8) [OF inv, of d] by auto
  qed (use k fresh loc p backup_invD(2-6,10) [OF inv] in \<open>auto\<close>)
qed

lemma edit_describe_inv:
  assumes inv: "backup_inv L i b" and laws: "local_laws L"
    and d: "kd_key_ref d \<in> set (eb_registry b)" "description_fits L d"
      "\<forall>d'\<in>set (eb_descriptions b). kd_key_ref d' \<noteq> kd_key_ref d"
  shows "backup_inv L i (b\<lparr>eb_descriptions := eb_descriptions b @ [d]\<rparr>)"
proof (rule backup_inv_edit [OF inv])
  have "kr_locator (kd_key_ref d') \<noteq> kr_locator (kd_key_ref d)" if "d' \<in> set (eb_descriptions b)" for d'
    using described_locator_differs [OF inv laws that _ backup_invD(4) [OF inv d(1)]] d(1,3) that by blast
  then have "kr_locator (kd_key_ref d) \<notin> (\<lambda>d. kr_locator (kd_key_ref d)) ` set (eb_descriptions b)"
    by (metis (no_types, lifting) imageE)
  then show "distinct (map (\<lambda>d. kr_locator (kd_key_ref d))
      (eb_descriptions (b\<lparr>eb_descriptions := eb_descriptions b @ [d]\<rparr>)))"
    using backup_invD(9) [OF inv] by simp
  show "(kd_key_ref d' \<in> set (eb_registry (b\<lparr>eb_descriptions := eb_descriptions b @ [d]\<rparr>))
        \<or> eb_pinned_root b = Some (kd_key_ref d')) \<and> description_fits L d'"
    if "d' \<in> set (eb_descriptions (b\<lparr>eb_descriptions := eb_descriptions b @ [d]\<rparr>))" for d'
    using that d(1,2) backup_invD(7,8) [OF inv, of d'] by auto
qed (use backup_invD(2-6,10-13) [OF inv] in auto)

lemma edit_remove_inv:
  assumes inv: "backup_inv L i b" and k: "k \<in> set (eb_registry b)"
  shows "backup_inv L i (remove_key k (key_path k) b)"
proof (rule backup_inv_edit [OF inv])
  have path: "key_path k' \<noteq> key_path k" if "k' \<in> set (eb_registry b)" "k' \<noteq> k" for k'
    using that k backup_invD(6) [OF inv] by (auto simp: distinct_map inj_on_def)
  show "key_fits i b k' \<and> key_path k' \<notin> set (eb_tombstones (remove_key k (key_path k) b))
      \<and> hashed_locator L b k'" if "k' \<in> set (eb_registry (remove_key k (key_path k) b))" for k'
    using that path backup_invD(2-4) [OF inv, of k'] by (auto simp: remove_key_def)
  show "(kd_key_ref d \<in> set (eb_registry (remove_key k (key_path k) b)) \<or> eb_pinned_root b = Some (kd_key_ref d))
      \<and> description_fits L d" if "d \<in> set (eb_descriptions (remove_key k (key_path k) b))" for d
    using that backup_invD(7,8) [OF inv, of d] by (auto simp: remove_key_def)
qed (use backup_invD(5,6,9-13) [OF inv] in \<open>auto simp: remove_key_def distinct_map_filter bt_wf_retain\<close>)

lemma edit_inv:
  assumes "backup_edit L i b b'" "backup_inv L i b" "local_laws L" "\<not> locator_collision L"
  shows "backup_inv L i b'"
  using assms
proof (cases rule: backup_edit.cases)
  case (edit_describe d)
  then show ?thesis using edit_describe_inv [OF assms(2,3)] by blast
next
  case (edit_add k ds ns p)
  then show ?thesis using edit_add_inv [OF assms(2-4)] by blast
next
  case (edit_remove k)
  then show ?thesis using edit_remove_inv [OF assms(2)] by blast
next
  case (edit_pending p)
  show ?thesis
    by (rule backup_inv_edit [OF assms(2)]) (use backup_invD [OF assms(2)] in \<open>auto simp: edit_pending\<close>)
next
  case (edit_namespace n)
  show ?thesis
    by (rule backup_inv_edit [OF assms(2)])
      (use backup_invD [OF assms(2)] edit_namespace in \<open>auto\<close>)
qed

subsection \<open>What is never forgotten\<close>

definition namespace_forward :: "derivation_namespace \<Rightarrow> derivation_namespace \<Rightarrow> bool" where
  "namespace_forward n n' =
     (dn_namespace_id n' = dn_namespace_id n \<and> dn_prefix n' = dn_prefix n \<and> dn_maximum n' = dn_maximum n
      \<and> dn_authority n' = dn_authority n \<and> dn_next_index n \<le> dn_next_index n')"

definition backup_grows :: "local_backup \<Rightarrow> local_backup \<Rightarrow> bool" where
  "backup_grows b b' =
     (eb_root_key_id b' = eb_root_key_id b \<and> eb_kind b' = eb_kind b \<and> eb_pinned_root b' = eb_pinned_root b
      \<and> eb_nonce b' = eb_nonce b \<and> eb_encrypted_seed b' = eb_encrypted_seed b
      \<and> eb_authority_key b' = eb_authority_key b
      \<and> set (eb_tombstones b) \<subseteq> set (eb_tombstones b')
      \<and> (\<forall>k\<in>set (eb_registry b). k \<in> set (eb_registry b') \<or> key_path k \<in> set (eb_tombstones b'))
      \<and> (\<forall>n\<in>set (eb_namespaces b). \<exists>n'\<in>set (eb_namespaces b'). namespace_forward n n'))"

lemma namespace_forward_refl: "namespace_forward n n"
  by (simp add: namespace_forward_def)

lemma namespace_forward_trans: "namespace_forward a b \<Longrightarrow> namespace_forward b c \<Longrightarrow> namespace_forward a c"
  by (auto simp: namespace_forward_def)

lemma backup_grows_refl: "backup_grows b b"
  by (auto simp: backup_grows_def intro: namespace_forward_refl)

lemma backup_grows_trans: "backup_grows a b \<Longrightarrow> backup_grows b c \<Longrightarrow> backup_grows a c"
  unfolding backup_grows_def by (simp, meson namespace_forward_trans subset_iff)

lemma namespaces_advance_forward:
  "namespaces_advance ns ns' \<Longrightarrow> \<forall>n\<in>set ns. \<exists>n'\<in>set ns'. namespace_forward n n'"
  unfolding namespaces_advance_def
proof (induction rule: list_all2_induct)
  case (Cons n ns n' ns')
  have "dn_next_index n \<le> dn_next_index n + 1" if "dn_next_index n < dn_maximum n"
    using that by (rule word_le_succ)
  then have "namespace_forward n n'" using Cons(1) by (auto simp: namespace_forward_def)
  with Cons show ?case by auto
qed simp

lemma edit_grows: "backup_edit L i b b' \<Longrightarrow> backup_grows b b'"
proof (induction rule: backup_edit.induct)
  case edit_add
  then show ?case using namespaces_advance_forward [OF edit_add(5)] by (auto simp: backup_grows_def)
qed (auto simp: backup_grows_def remove_key_def intro: namespace_forward_refl)

subsection \<open>The operations edit the backup\<close>

definition edited :: "('m, 'p) local_prims \<Rightarrow> local_state \<Rightarrow> local_state \<Rightarrow> bool" where
  "edited L st st' =
     (st' = st \<or> (\<exists>b b'. ls_backup st = Some b \<and> backup_edit L (ls_instance st) b b'
        \<and> st' = st\<lparr>ls_backup := Some b', ls_registry := registry_of (eb_registry b')\<rparr>))"

lemma edited_refl: "edited L st st"
  by (simp add: edited_def)

lemma commit_backup_cases:
  assumes "commit_backup L disk next st = (st', r)"
  obtains (ok) "r = Inr ()" "st' = st\<lparr>ls_backup := Some next\<rparr>" | (failed) e where "r = Inl e" "st' = st"
proof (cases "persist_backup L disk (st\<lparr>ls_backup := Some next\<rparr>)")
  case (Inl e)
  then show ?thesis using assms failed [of e] by (simp add: commit_backup_def Let_def)
next
  case (Inr u)
  then show ?thesis using assms ok by (simp add: commit_backup_def Let_def)
qed

text \<open>A commit of an edited backup, followed by the update of the registry in memory.\<close>

lemma commit_edited:
  assumes "commit_backup L disk b' st = (st', r)" and "ls_backup st = Some b"
    and "backup_edit L (ls_instance st) b b'"
    and "r = Inr () \<Longrightarrow> st'' = st'\<lparr>ls_registry := registry_of (eb_registry b')\<rparr>"
    and "\<And>e. r = Inl e \<Longrightarrow> st'' = st'"
  shows "edited L st st''"
  using assms(1) by (cases rule: commit_backup_cases) (use assms(2-5) in \<open>auto simp: edited_def\<close>)

text \<open>A commit that leaves the registered keys alone.\<close>

lemma commit_edited_same_keys:
  assumes "commit_backup L disk b' st = (st', r)" and "ls_backup st = Some b"
    and "backup_edit L (ls_instance st) b b'" and "eb_registry b' = eb_registry b"
    and "ls_registry st = registry_of (eb_registry b)"
  shows "edited L st st'"
  using assms(1) by (cases rule: commit_backup_cases) (use assms(2-5) in \<open>auto simp: edited_def\<close>)

text \<open>A commit that adds a key, as registration and allocation end.\<close>

lemma commit_add_edited:
  assumes "(case commit_backup L disk b2 st of (st', Inl e) \<Rightarrow> (st', Inl e)
      | (st', Inr _) \<Rightarrow> (st'\<lparr>ls_registry := bt_insert (kr_locator k) k (ls_registry st')\<rparr>, Inr x)) = (st', r)"
    and "ls_backup st = Some b" and "ls_registry st = registry_of (eb_registry b)"
    and "backup_edit L (ls_instance st) b b2" and "eb_registry b2 = eb_registry b @ [k]"
  shows "edited L st st'"
proof -
  obtain st1 r1 where c: "commit_backup L disk b2 st = (st1, r1)" by fastforce
  moreover from c have "ls_registry st1 = ls_registry st" by (cases rule: commit_backup_cases) simp_all
  ultimately show ?thesis
    using assms by (intro commit_edited [OF c]) (auto simp: registry_of_snoc split: sum.splits)
qed

definition child_fits :: "('m, 'p) local_prims \<Rightarrow> local_state \<Rightarrow> key_ref \<Rightarrow> bool" where
  "child_fits L st k =
     (\<forall>b. ls_backup st = Some b \<longrightarrow>
        k \<in> set (eb_registry b)
        \<or> (key_fits (ls_instance st) b k \<and> hashed_locator L b k \<and> \<not> path_taken b (key_path k)))"

lemma namespaces_advance_refl: "namespaces_advance ns ns"
  by (simp add: namespaces_advance_def list_all2_refl)

lemma register_child_edits:
  assumes op: "register_child L disk k d operation st = (st', r)" and inv: "local_inv L st"
    and k: "child_fits L st k"
    and d: "\<And>x. d = Some x \<Longrightarrow> kd_key_ref x = k \<and> description_fits L x"
  shows "edited L st st'"
proof -
  from inv obtain b where b: "ls_backup st = Some b" "backup_inv L (ls_instance st) b"
    "ls_registry st = registry_of (eb_registry b)" by (auto simp: local_inv_def)
  show ?thesis
  proof (cases "k \<in> set (eb_registry b)")
    case True
    show ?thesis
    proof (cases "\<exists>x. d = Some x \<and> \<not> list_ex (\<lambda>pinned. kd_key_ref pinned = k) (eb_descriptions b)")
      case True
      then obtain x where x: "d = Some x" "\<not> list_ex (\<lambda>pinned. kd_key_ref pinned = k) (eb_descriptions b)"
        by blast
      have "commit_backup L disk (b\<lparr>eb_descriptions := eb_descriptions b @ [x]\<rparr>) st = (st', r)"
        using op b(1) \<open>k \<in> set (eb_registry b)\<close> x by (simp add: register_child_def)
      moreover have "backup_edit L (ls_instance st) b (b\<lparr>eb_descriptions := eb_descriptions b @ [x]\<rparr>)"
        by (rule edit_describe) (use d [OF x(1)] x(2) \<open>k \<in> set (eb_registry b)\<close> in \<open>auto simp: list_ex_iff\<close>)
      ultimately show ?thesis using b by (auto intro: commit_edited_same_keys)
    next
      case False
      then have "st' = st" using op b(1) \<open>k \<in> set (eb_registry b)\<close>
        by (auto simp: register_child_def split: option.splits if_splits)
      then show ?thesis by (simp add: edited_refl)
    qed
  next
    case new: False
    define ds where "ds = (case d of Some x \<Rightarrow> [x] | None \<Rightarrow> [])"
    define p where "p = (case operation of Some op \<Rightarrow> bt_insert op k (eb_pending b) | None \<Rightarrow> eb_pending b)"
    define b2 where "b2 = b\<lparr>eb_registry := eb_registry b @ [k],
           eb_descriptions := eb_descriptions b @ ds, eb_namespaces := eb_namespaces b, eb_pending := p\<rparr>"
    have "backup_edit L (ls_instance st) b b2"
      unfolding b2_def
    proof (rule edit_add)
      show "key_fits (ls_instance st) b k" "hashed_locator L b k" "\<not> path_taken b (key_path k)"
        using k b(1) new by (simp_all add: child_fits_def)
      show "ds = [] \<or> (\<exists>d. ds = [d] \<and> kd_key_ref d = k \<and> description_fits L d)"
        using d by (cases d) (simp_all add: ds_def)
      show "bt_wf p" using backup_invD(13) [OF b(2)] by (auto simp: p_def bt_wf_insert split: option.split)
    qed (rule namespaces_advance_refl)
    moreover have "(case commit_backup L disk b2 st of (st', Inl e) \<Rightarrow> (st', Inl e)
        | (st', Inr _) \<Rightarrow> (st'\<lparr>ls_registry := bt_insert (kr_locator k) k (ls_registry st')\<rparr>, Inr ())) = (st', r)"
      using op b(1) new unfolding register_child_def b2_def ds_def p_def
      by (cases d; cases operation) (simp_all add: Let_def)
    ultimately show ?thesis
      using b by (intro commit_add_edited [where x = "()"]) (auto simp: b2_def)
  qed
qed

lemma description_of_child:
  "describe_bip39_child L st k = Inr d \<Longrightarrow> kd_key_ref d = k \<and> description_fits L d"
proof -
  assume "describe_bip39_child L st k = Inr d"
  then obtain seed where d: "describe_bip39_child_with_seed L k seed = Inr d"
    by (auto simp: describe_bip39_child_def rbind_Inr_iff)
  then obtain s profile path where k: "kr_derivation k = Some (Bip39Multicurve s profile path)"
    by (auto simp: describe_bip39_child_with_seed_def split: option.splits derivation_ref.splits)
  show ?thesis
    using d unfolding describe_bip39_child_with_seed_def k
    by (auto simp: rbind_Inr_iff Let_def description_fits_def split: prod.splits if_splits)
qed

lemma register_bip39_child_edits:
  assumes "register_bip39_child L disk k operation st = (st', r)" "local_inv L st" "child_fits L st k"
  shows "edited L st st'"
  using assms description_of_child [of L st k]
  by (auto simp: register_bip39_child_def edited_refl split: if_splits sum.splits
      intro!: register_child_edits [OF _ assms(2,3)])

lemma register_description_edits:
  assumes "register_bip39_child_description L disk d operation st = (st', r)" "local_inv L st"
    "child_fits L st (kd_key_ref d)"
  shows "edited L st st'"
  using assms
  by (auto simp: register_bip39_child_description_def Let_def edited_refl description_fits_def split: if_splits
      intro!: register_child_edits [OF _ assms(2,3)])

lemma eb_registry_remove_key: "eb_registry (remove_key k p b) = filter (\<lambda>k'. k' \<noteq> k) (eb_registry b)"
  by (simp add: remove_key_def)

lemma tombstone_path_edits:
  assumes op: "tombstone_path L disk k path st = (st', r)" and inv: "local_inv L st"
    and p: "derivation_path_of k = Some path"
  shows "edited L st st'"
proof -
  from inv obtain b where b: "ls_backup st = Some b" "backup_inv L (ls_instance st) b"
    "ls_registry st = registry_of (eb_registry b)" by (auto simp: local_inv_def)
  have dist: "distinct (map kr_locator (eb_registry b))" by (rule backup_invD(5) [OF b(2)])
  show ?thesis
  proof (cases "map_of (ls_registry st) (kr_locator k) = Some k")
    case False
    then show ?thesis using op by (simp add: tombstone_path_def edited_refl)
  next
    case True
    then have k: "k \<in> set (eb_registry b)" by (simp add: b(3) map_of_registry [OF dist])
    obtain st1 r1 where c: "commit_backup L disk (remove_key k path b) st = (st1, r1)" by fastforce
    have path: "path = key_path k" using p by (simp add: key_path_def)
    have "backup_edit L (ls_instance st) b (remove_key k path b)" unfolding path by (rule edit_remove [OF k])
    moreover have "ls_registry st1 = ls_registry st"
      using c by (cases rule: commit_backup_cases) simp_all
    ultimately show ?thesis
      using op True b registry_of_remove [OF dist k]
      by (intro commit_edited [OF c b(1)])
        (auto simp: tombstone_path_def c eb_registry_remove_key split: sum.splits)
  qed
qed

lemma local_invE:
  assumes "local_inv L st"
  obtains b where "ls_backup st = Some b" "backup_inv L (ls_instance st) b"
    "ls_registry st = registry_of (eb_registry b)"
  using assms by (auto simp: local_inv_def)

lemma retire_edits:
  assumes "retire_bip39_child L disk k st = (st', r)" "local_inv L st"
  shows "edited L st st'"
  using assms
  by (auto simp: retire_bip39_child_def edited_refl derivation_path_of_def
      split: option.splits derivation_ref.splits intro: tombstone_path_edits)

lemma tombstone_edits:
  assumes "tombstone_derived_key L disk k st = (st', r)" "local_inv L st"
  shows "edited L st st'"
  using assms
  by (auto simp: tombstone_derived_key_def edited_refl split: option.splits intro: tombstone_path_edits)

lemma finalize_edits:
  assumes op: "finalize_derived_key L disk operation st = (st', r)" and inv: "local_inv L st"
  shows "edited L st st'"
proof -
  from inv obtain b where b: "ls_backup st = Some b" "backup_inv L (ls_instance st) b"
    "ls_registry st = registry_of (eb_registry b)" by (rule local_invE)
  show ?thesis
  proof (cases "map_of (eb_pending b) operation")
    case None
    then show ?thesis using op b by (simp add: finalize_derived_key_def edited_refl)
  next
    case (Some k)
    have "commit_backup L disk (b\<lparr>eb_pending := bt_remove operation (eb_pending b)\<rparr>) st = (st', r)"
      using op b Some by (simp add: finalize_derived_key_def)
    moreover have "backup_edit L (ls_instance st) b (b\<lparr>eb_pending := bt_remove operation (eb_pending b)\<rparr>)"
      by (rule edit_pending) (rule bt_wf_remove [OF backup_invD(13) [OF b(2)]])
    ultimately show ?thesis using b by (auto intro: commit_edited_same_keys)
  qed
qed

lemma grant_bounds:
  fixes s m :: u64
  assumes "\<not> (m = 0 \<or> s > 0x7fffffff \<or> m > 0x80000000 \<or> saturating_add s m > 0x80000000)"
  shows "s \<le> s + m" and "s + m \<le> 2 ^ 31" and "unat (s + m) = unat s + unat m"
proof -
  have s: "unat s \<le> 0x7fffffff" and m: "unat m \<le> 0x80000000"
    using assms by (simp_all add: word_less_nat_alt not_less)
  then show eq: "unat (s + m) = unat s + unat m" by (simp add: unat_word_ariths)
  have "unat (saturating_add s m) \<le> 0x80000000"
    using assms by (simp add: word_less_nat_alt not_less)
  then have "unat s + unat m \<le> 0x80000000"
    using s m by (simp add: unat_saturating_add)
  then show "s \<le> s + m" "s + m \<le> 2 ^ 31" by (simp_all add: word_le_nat_alt eq)
qed

lemma configure_edits:
  assumes op: "configure_namespace L disk a st = (st', r)" and inv: "local_inv L st"
  shows "edited L st st'"
proof -
  from inv obtain b where b: "ls_backup st = Some b" "backup_inv L (ls_instance st) b"
    "ls_registry st = registry_of (eb_registry b)" by (rule local_invE)
  let ?g = "au_grant a"
  let ?s = "gr_starting_index ?g" and ?m = "gr_maximum_children ?g"
  consider "st' = st"
    | digest where "validate_namespace_prefix L (gr_prefix ?g) = Inr ()"
        "\<not> (?m = 0 \<or> ?s > 0x7fffffff \<or> ?m > 0x80000000 \<or> saturating_add ?s ?m > 0x80000000)"
        "find (\<lambda>n. dn_namespace_id n = gr_namespace_id ?g) (eb_namespaces b) = None"
        "commit_backup L disk (b\<lparr>eb_namespaces := eb_namespaces b @
           [\<lparr>dn_namespace_id = gr_namespace_id ?g, dn_prefix = gr_prefix ?g, dn_next_index = ?s,
             dn_maximum = ?s + ?m, dn_authority = digest\<rparr>]\<rparr>) st = (st', r)"
    using op b(1)
    by (auto simp: configure_namespace_def Let_def rbind_Inr_iff split: if_splits sum.splits option.splits)
  then show ?thesis
  proof cases
    case 1
    then show ?thesis by (simp add: edited_refl)
  next
    case (2 digest)
    let ?n = "\<lparr>dn_namespace_id = gr_namespace_id ?g, dn_prefix = gr_prefix ?g, dn_next_index = ?s,
             dn_maximum = ?s + ?m, dn_authority = digest\<rparr>"
    have "backup_edit L (ls_instance st) b (b\<lparr>eb_namespaces := eb_namespaces b @ [?n]\<rparr>)"
    proof (rule edit_namespace)
      show "namespace_fits L ?n"
        using 2(1) grant_bounds [OF 2(2)] by (simp add: namespace_fits_def)
      show "\<forall>n'\<in>set (eb_namespaces b). dn_namespace_id n' \<noteq> dn_namespace_id ?n"
        using 2(3) by (auto simp: find_None_iff)
    qed
    with 2(4) b show ?thesis by (auto intro: commit_edited_same_keys)
  qed
qed

lemma advance_namespace_advances:
  assumes "advance_namespace namespace_id seen ns = Inr ns'"
    and "find (\<lambda>n. dn_namespace_id n = namespace_id) ns = Some n" and "dn_next_index n < dn_maximum n"
  shows "namespaces_advance ns ns'"
  using assms
proof (induction ns arbitrary: ns')
  case (Cons m ns)
  show ?case
  proof (cases "dn_namespace_id m = namespace_id")
    case True
    with Cons.prems show ?thesis
      by (auto simp: namespaces_advance_def rbind_Inr_iff list_all2_refl ok_or_Inr_iff
          dest!: checked_add_Some_eq split: if_splits)
  next
    case False
    with Cons show ?thesis by (auto simp: namespaces_advance_def rbind_Inr_iff)
  qed
qed simp

definition new_child :: "('m, 'p) local_prims \<Rightarrow> local_state \<Rightarrow> local_backup \<Rightarrow> string \<Rightarrow> key_description \<Rightarrow> bool" where
  "new_child L st b path d =
     (key_fits (ls_instance st) b (kd_key_ref d) \<and> hashed_locator L b (kd_key_ref d)
      \<and> key_path (kd_key_ref d) = path \<and> description_fits L d)"

lemma describe_path_new_child:
  assumes "describe_path L st path = Inr d" "ls_backup st = Some b"
  shows "new_child L st b path d"
  using assms
  by (auto simp: describe_path_def rbind_Inr_iff Let_def new_child_def key_fits_def root_matches_def
      hashed_locator_def key_path_def derivation_path_of_def description_fits_def split: if_splits)

lemma root_key_ref_spec:
  assumes "root_key_ref L st = Inr root" "ls_backup st = Some b" "\<not> pinned_root_bad (ls_instance st) b"
  shows "kr_key_spec root = Secp256k1" "kr_derivation root = None" "kr_locator root = ''root:'' @ eb_root_key_id b"
  using assms
  by (auto simp: root_key_ref_def rbind_Inr_iff pinned_root_bad_def split: if_splits option.splits)

lemma derive_solana_fingerprint:
  assumes "derive_solana_key_for_path L seed account index path = Inr derived"
  shows "ded_fingerprint derived = d_sha256 (lc_derive L) (ded_spki derived)"
  using assms
  by (auto simp: derive_solana_key_for_path_def derive_solana_account_def derive_solana_petal_key_def
      describe_ed25519_def rbind_Inr_iff Let_def split: sum.splits if_splits)

lemma describe_new_child_new_child:
  assumes d: "describe_new_child L st root path = Inr d" and b: "ls_backup st = Some b"
    and inv: "backup_inv L (ls_instance st) b" and laws: "local_laws L"
    and parent: "valid_parent L st b root = Inr ()"
  shows "new_child L st b path d"
proof (cases "kr_key_spec root = Ed25519")
  case False
  then show ?thesis using d b by (auto simp: describe_new_child_def intro: describe_path_new_child)
next
  case True
  then have reg: "root \<in> set (eb_registry b)"
    using parent root_key_ref_spec(1) [OF _ b backup_invD(1) [OF inv], of L root]
    by (auto simp: valid_parent_def rbind_Inr_iff ensure_Inr_iff split: if_splits)
  from d True obtain seed_ref p0 where root: "kr_derivation root = Some (Bip39Multicurve seed_ref Bip44SolanaSlip10Ed25519V1 p0)"
    by (auto simp: describe_new_child_def split: option.splits derivation_ref.splits derivation_profile.splits)
  then have seed: "seed_ref = eb_root_key_id b"
    using backup_invD(2) [OF inv reg] by (simp add: key_fits_def root_matches_def)
  from d obtain seed account index derived where der: "derive_solana_key_for_path L seed account index path = Inr derived"
    "kd_key_ref d = \<lparr>kr_backend = ''local'', kr_backend_instance = ls_instance st,
       kr_locator = child_locator L seed_ref path, kr_key_spec = Ed25519,
       kr_fingerprint = lc_digest32 L (ded_fingerprint derived),
       kr_derivation = Some (Bip39Multicurve seed_ref Bip44SolanaSlip10Ed25519V1 path)\<rparr>"
    "kd_spki d = ded_spki derived" "kd_fingerprint d = lc_digest32 L (ded_fingerprint derived)"
    unfolding describe_new_child_def root by (auto simp: True rbind_Inr_iff Let_def split: prod.splits)
  show ?thesis
    using laws derive_solana_fingerprint [OF der(1)]
    by (simp add: new_child_def key_fits_def root_matches_def hashed_locator_def key_path_def derivation_path_of_def
        description_fits_def der(2-4) seed local_laws_def)
qed

lemma plan_freshE:
  assumes "plan_allocation L root namespace_id a operation st = Inr (FreshChild seen d)"
  obtains b n where "ls_backup st = Some b" "valid_parent L st b root = Inr ()"
    "find (\<lambda>n. dn_namespace_id n = namespace_id) (eb_namespaces b) = Some n" "seen = dn_next_index n"
    "dn_next_index n < dn_maximum n" "dn_next_index n \<le> 0x7fffffff"
    "gr_namespace_id (au_grant a) = namespace_id"
    "verify_derivation_authority L a st = Inr (dn_authority n)"
    "\<not> path_taken b (namespace_child_path root n)"
    "describe_new_child L st root (namespace_child_path root n) = Inr d"
    "Option.bind operation (map_of (eb_pending b)) = None"
  using assms
  by (auto simp: plan_allocation_def rbind_Inr_iff Let_def ok_or_Inr_iff not_le split: option.splits if_splits)

lemma commit_allocation_edits:
  assumes op: "commit_allocation L disk namespace_id seen d operation st = (st', r)" and inv: "local_inv L st"
    and b: "ls_backup st = Some b"
    and n: "find (\<lambda>n. dn_namespace_id n = namespace_id) (eb_namespaces b) = Some n" "dn_next_index n < dn_maximum n"
    and d: "new_child L st b path d" "\<not> path_taken b path"
  shows "edited L st st'"
proof (cases "advance_namespace namespace_id seen (eb_namespaces b)")
  case (Inl e)
  then show ?thesis using op b by (simp add: commit_allocation_def edited_refl)
next
  case (Inr ns)
  define k where "k = kd_key_ref d"
  define p where "p = (case operation of Some op \<Rightarrow> bt_insert op k (eb_pending b) | None \<Rightarrow> eb_pending b)"
  define b2 where "b2 = b\<lparr>eb_registry := eb_registry b @ [k], eb_descriptions := eb_descriptions b @ [d],
      eb_namespaces := ns, eb_pending := p\<rparr>"
  have "backup_edit L (ls_instance st) b b2"
    unfolding b2_def
  proof (rule edit_add)
    have "backup_inv L (ls_instance st) b" using inv b by (auto simp: local_inv_def)
    then show "bt_wf p" by (auto simp: p_def bt_wf_insert backup_invD(13) split: option.split)
  qed (use d advance_namespace_advances [OF Inr n] in \<open>simp_all add: new_child_def k_def\<close>)
  moreover have "(case commit_backup L disk b2 st of (st', Inl e) \<Rightarrow> (st', Inl e)
      | (st', Inr _) \<Rightarrow> (st'\<lparr>ls_registry := bt_insert (kr_locator k) k (ls_registry st')\<rparr>, Inr d)) = (st', r)"
  proof (cases operation)
    case None
    have "b2 = b\<lparr>eb_namespaces := ns, eb_registry := eb_registry b @ [kd_key_ref d],
        eb_descriptions := eb_descriptions b @ [d]\<rparr>" by (cases b) (simp add: b2_def p_def k_def None)
    then show ?thesis using op b Inr unfolding commit_allocation_def k_def by (simp add: Let_def None)
  next
    case (Some opid)
    have "b2 = b\<lparr>eb_namespaces := ns, eb_registry := eb_registry b @ [kd_key_ref d],
        eb_descriptions := eb_descriptions b @ [d],
        eb_pending := bt_insert opid (kd_key_ref d) (eb_pending b)\<rparr>"
      by (cases b) (simp add: b2_def p_def k_def Some)
    then show ?thesis using op b Inr unfolding commit_allocation_def k_def by (simp add: Let_def Some)
  qed
  moreover have "ls_registry st = registry_of (eb_registry b)" using inv b by (auto simp: local_inv_def)
  ultimately show ?thesis
    using b by (intro commit_add_edited [where x = d]) (auto simp: b2_def)
qed

lemma allocate_edits:
  assumes op: "allocate_derived_key_inner L disk root namespace_id a operation st = (st', r)"
    and inv: "local_inv L st" and laws: "local_laws L"
  shows "edited L st st'"
proof (cases "\<exists>seen d. plan_allocation L root namespace_id a operation st = Inr (FreshChild seen d)")
  case False
  then show ?thesis
    using op by (auto simp: allocate_derived_key_inner_def edited_refl split: sum.splits allocation_plan.splits)
next
  case True
  then obtain seen d where plan: "plan_allocation L root namespace_id a operation st = Inr (FreshChild seen d)"
    by blast
  then have c: "commit_allocation L disk namespace_id seen d operation st = (st', r)"
    using op by (simp add: allocate_derived_key_inner_def)
  from plan show ?thesis
  proof (rule plan_freshE)
    fix b n
    assume *: "ls_backup st = Some b" "valid_parent L st b root = Inr ()"
      "find (\<lambda>n. dn_namespace_id n = namespace_id) (eb_namespaces b) = Some n"
      "dn_next_index n < dn_maximum n" "\<not> path_taken b (namespace_child_path root n)"
      "describe_new_child L st root (namespace_child_path root n) = Inr d"
    have "backup_inv L (ls_instance st) b" using inv *(1) by (auto simp: local_inv_def)
    then show ?thesis
      using commit_allocation_edits [OF c inv *(1,3,4) _ *(5)]
        describe_new_child_new_child [OF *(6,1) _ laws *(2)] by blast
  qed
qed

subsection \<open>Runs of the backend\<close>

text \<open>One operation, whatever it answers, or a restart from the backup (which forgets the
  key-encryption key and may attach a storage file). Signer registers a child only with the
  locator it computes from the path, and only for a path its registry has never handed out
  before, which is \<open>child_fits\<close>.\<close>

inductive local_step :: "('m, 'p) local_prims \<Rightarrow> local_state \<Rightarrow> local_state \<Rightarrow> bool"
  for L :: "('m, 'p) local_prims" where
  step_activate: "activate_blocking L secret st = (st', r) \<Longrightarrow> local_step L st st'"
| step_deactivate: "local_deactivate st = (st', r) \<Longrightarrow> local_step L st st'"
| step_register:
    "child_fits L st k \<Longrightarrow> register_bip39_child L disk k operation st = (st', r) \<Longrightarrow> local_step L st st'"
| step_register_description:
    "child_fits L st (kd_key_ref d) \<Longrightarrow> register_bip39_child_description L disk d operation st = (st', r)
     \<Longrightarrow> local_step L st st'"
| step_retire: "retire_bip39_child L disk k st = (st', r) \<Longrightarrow> local_step L st st'"
| step_tombstone: "tombstone_derived_key L disk k st = (st', r) \<Longrightarrow> local_step L st st'"
| step_finalize: "finalize_derived_key L disk operation st = (st', r) \<Longrightarrow> local_step L st st'"
| step_configure: "configure_namespace L disk a st = (st', r) \<Longrightarrow> local_step L st st'"
| step_allocate:
    "allocate_derived_key_inner L disk root namespace_id a operation st = (st', r) \<Longrightarrow> local_step L st st'"
| step_restart:
    "encrypted_backup st = Inr b \<Longrightarrow> restore L (ls_instance st) b = Inr st'
     \<Longrightarrow> local_step L st (st'\<lparr>ls_storage := storage\<rparr>)"

definition same_custody :: "local_state \<Rightarrow> local_state \<Rightarrow> bool" where
  "same_custody st st' =
     (ls_instance st' = ls_instance st \<and> ls_backup st' = ls_backup st \<and> ls_registry st' = ls_registry st)"

lemma activate_same: "activate_blocking L secret st = (st', r) \<Longrightarrow> same_custody st st'"
  by (auto simp: activate_blocking_def same_custody_def Let_def split: if_splits sum.splits)

lemma step_shape:
  assumes "local_step L st st'" "local_inv L st" "local_laws L"
  shows "same_custody st st' \<or> edited L st st'"
  using assms
proof (cases rule: local_step.cases)
  case (step_activate secret r)
  then show ?thesis by (auto intro: activate_same)
next
  case (step_deactivate r)
  then show ?thesis by (auto simp: local_deactivate_def same_custody_def)
next
  case (step_restart b st1 storage)
  from assms(2) obtain b' where "ls_backup st = Some b'" "ls_registry st = registry_of (eb_registry b')"
    by (rule local_invE)
  with step_restart show ?thesis
    by (auto simp: encrypted_backup_def restore_def same_custody_def split: if_splits)
qed (use assms in \<open>auto intro: register_bip39_child_edits register_description_edits retire_edits
      tombstone_edits finalize_edits configure_edits allocate_edits\<close>)

definition local_sound :: "('m, 'p) local_prims \<Rightarrow> bool" where
  "local_sound L = (local_laws L \<and> \<not> locator_collision L)"

definition local_grows :: "local_state \<Rightarrow> local_state \<Rightarrow> bool" where
  "local_grows st st' =
     (ls_instance st' = ls_instance st
      \<and> (\<forall>b. ls_backup st = Some b \<longrightarrow> (\<exists>b'. ls_backup st' = Some b' \<and> backup_grows b b')))"

lemma step_local_inv:
  assumes step: "local_step L st st'" and inv: "local_inv L st" and sound: "local_sound L"
  shows "local_inv L st' \<and> local_grows st st'"
proof -
  have laws: "local_laws L" "\<not> locator_collision L" using sound by (simp_all add: local_sound_def)
  from inv obtain b where b: "ls_backup st = Some b" "backup_inv L (ls_instance st) b"
    "ls_registry st = registry_of (eb_registry b)" by (rule local_invE)
  from step_shape [OF step inv laws(1)] show ?thesis
  proof
    assume "same_custody st st'"
    then show ?thesis using b by (auto simp: same_custody_def local_inv_def local_grows_def intro: backup_grows_refl)
  next
    assume "edited L st st'"
    then consider "st' = st"
      | b' where "backup_edit L (ls_instance st) b b'"
        "st' = st\<lparr>ls_backup := Some b', ls_registry := registry_of (eb_registry b')\<rparr>"
      using b(1) by (auto simp: edited_def)
    then show ?thesis
    proof cases
      case 1
      then show ?thesis using inv by (auto simp: local_grows_def intro: backup_grows_refl)
    next
      case (2 b')
      then show ?thesis
        using b edit_inv [OF 2(1) b(2) laws] edit_grows [OF 2(1)]
        by (auto simp: local_inv_def local_grows_def)
    qed
  qed
qed

lemma local_grows_refl: "local_grows st st"
  by (simp add: local_grows_def backup_grows_refl)

lemma local_grows_trans: "local_grows a b \<Longrightarrow> local_grows b c \<Longrightarrow> local_grows a c"
  unfolding local_grows_def by (metis backup_grows_trans)

interpretation lb: transition_system "local_step L" "\<lambda>st. local_sound L \<longrightarrow> local_inv L st"
  "\<lambda>st st'. local_sound L \<longrightarrow> local_grows st st'" for L :: "('m, 'p) local_prims"
  by unfold_locales (auto dest: step_local_inv intro: local_grows_refl local_grows_trans)

lemma local_run_inv:
  assumes "(local_step L)\<^sup>*\<^sup>* st st'" "local_inv L st" "local_sound L"
  shows "local_inv L st'" and "local_grows st st'"
  using lb.run_inv [OF assms(1)] lb.run_grows [OF assms(1)] assms(2,3) by auto

subsection \<open>Provisioned backends\<close>

lemma active_seed_pinned:
  "ls_backup st = Some b
   \<Longrightarrow> active_seed L (st\<lparr>ls_backup := Some (b\<lparr>eb_pinned_root := p\<rparr>)\<rparr>) = active_seed L st"
  by (simp add: active_seed_def cong: if_cong)

lemma root_signing_key_pinned:
  "ls_backup st = Some b
   \<Longrightarrow> root_signing_key L (st\<lparr>ls_backup := Some (b\<lparr>eb_pinned_root := p\<rparr>)\<rparr>) = root_signing_key L st"
  by (simp add: root_signing_key_def active_seed_pinned cong: root_material_kind.case_cong)

lemma describe_path_pinned:
  "ls_backup st = Some b
   \<Longrightarrow> describe_path L (st\<lparr>ls_backup := Some (b\<lparr>eb_pinned_root := p\<rparr>)\<rparr>) path = describe_path L st path"
  by (simp add: describe_path_def root_signing_key_pinned active_seed_pinned cong: if_cong)

lemma backup_inv_fresh:
  assumes "eb_wrap_version b = WRAP_FORMAT_VERSION" "length (eb_nonce b) = 24" "length (eb_authority_key b) = 32"
    "eb_registry b = []" "eb_tombstones b = []" "eb_namespaces b = []" "eb_pending b = []" "\<not> pinned_root_bad i b"
    "eb_descriptions b = [] \<or> (\<exists>d. eb_descriptions b = [d] \<and> eb_pinned_root b = Some (kd_key_ref d) \<and> description_fits L d)"
  shows "backup_inv L i b"
  unfolding backup_inv_iff using assms by auto

definition fresh_backup :: "token \<Rightarrow> root_material_kind \<Rightarrow> bytes \<Rightarrow> bytes \<Rightarrow> bytes \<Rightarrow> local_backup" where
  "fresh_backup root_id kind nonce encrypted authority =
     \<lparr>eb_root_key_id = root_id, eb_kind = kind, eb_pinned_root = None,
      eb_wrap_version = WRAP_FORMAT_VERSION, eb_nonce = nonce, eb_encrypted_seed = encrypted,
      eb_authority_key = authority, eb_descriptions = [], eb_registry = [],
      eb_namespaces = [], eb_tombstones = [], eb_pending = []\<rparr>"

definition fresh_state :: "token \<Rightarrow> bytes \<Rightarrow> local_backup \<Rightarrow> local_state" where
  "fresh_state i kek b =
     \<lparr>ls_instance = i, ls_backup = Some b, ls_kek = Some kek, ls_registry = [], ls_storage = None\<rparr>"

lemma provision_bip39_shape:
  assumes "provision_material L nonce i root_id material kek authority MatBip39Entropy = Inr st"
  obtains e where "lc_encrypt L kek nonce (root_aad i root_id) material = Some e" "length kek = 32"
    "st = fresh_state i kek (fresh_backup root_id MatBip39Entropy nonce e authority)"
  using assms
  by (auto simp: provision_material_def rbind_Inr_iff Let_def ok_or_Inr_iff fresh_state_def fresh_backup_def
      split: if_splits)

text \<open>A wallet with a signable root: the root is pinned and described.\<close>

lemma provision_root_shape:
  assumes "provision_material L nonce i root_id material kek authority kind = Inr st" "kind \<noteq> MatBip39Entropy"
  obtains e d root b where "lc_encrypt L kek nonce (root_aad i root_id) material = Some e" "length kek = 32"
    "b = fresh_backup root_id kind nonce e authority"
    "describe_path L (fresh_state i kek b) ''m'' = Inr d"
    "root = \<lparr>kr_backend = ''local'', kr_backend_instance = i, kr_locator = ''root:'' @ root_id,
        kr_key_spec = Secp256k1, kr_fingerprint = kd_fingerprint d, kr_derivation = None\<rparr>"
    "st = fresh_state i kek (b\<lparr>eb_pinned_root := Some root, eb_descriptions := [d\<lparr>kd_key_ref := root\<rparr>]\<rparr>)"
proof -
  from assms obtain e where e: "lc_encrypt L kek nonce (root_aad i root_id) material = Some e" "length kek = 32"
    by (auto simp: provision_material_def rbind_Inr_iff ok_or_Inr_iff split: if_splits)
  define b where "b = fresh_backup root_id kind nonce e authority"
  have fields: "eb_kind b = kind" "eb_pinned_root b = None" "eb_root_key_id b = root_id"
    by (simp_all add: b_def fresh_backup_def)
  have "rbind (root_key_ref L (fresh_state i kek b)) (\<lambda>root.
      let pinned = b\<lparr>eb_pinned_root := Some root\<rparr>; st1 = (fresh_state i kek b)\<lparr>ls_backup := Some pinned\<rparr> in
      rbind (describe_path L st1 ''m'') (\<lambda>description.
      rbind (root_key_ref L st1) (\<lambda>root1.
        Inr (st1\<lparr>ls_backup := Some (pinned\<lparr>eb_descriptions := [description\<lparr>kd_key_ref := root1\<rparr>]\<rparr>)\<rparr>)))) = Inr st"
    using assms e unfolding b_def fresh_backup_def fresh_state_def
    by (simp add: provision_material_def Let_def split: if_splits)
  then obtain root d where *: "root_key_ref L (fresh_state i kek b) = Inr root"
    "describe_path L ((fresh_state i kek b)\<lparr>ls_backup := Some (b\<lparr>eb_pinned_root := Some root\<rparr>)\<rparr>) ''m'' = Inr d"
    "st = (fresh_state i kek b)\<lparr>ls_backup := Some (b\<lparr>eb_pinned_root := Some root, eb_descriptions := [d\<lparr>kd_key_ref := root\<rparr>]\<rparr>)\<rparr>"
    using assms(2) fields
    by (auto simp: rbind_Inr_iff Let_def root_key_ref_def [of L "_\<lparr>ls_backup := _\<rparr>"])
  have d: "describe_path L (fresh_state i kek b) ''m'' = Inr d"
    using *(2) describe_path_pinned [of "fresh_state i kek b" b L "Some root" "''m''"]
    by (simp add: fresh_state_def)
  have "root = \<lparr>kr_backend = ''local'', kr_backend_instance = i, kr_locator = ''root:'' @ root_id,
        kr_key_spec = Secp256k1, kr_fingerprint = kd_fingerprint d, kr_derivation = None\<rparr>"
    using *(1) assms(2) d fields by (simp add: root_key_ref_def) (simp add: fresh_state_def fields)
  then show ?thesis by (rule that [OF e b_def d]) (simp add: *(3) fresh_state_def)
qed

lemma provision_inv:
  assumes "provision_material L nonce i root_id material kek authority kind = Inr st"
    and "length nonce = 24" "length authority = 32"
  shows "local_inv L st" and "ls_instance st = i"
proof -
  have reg: "registry_of [] = []" by (simp add: registry_of_def bt_collect_def)
  have "\<exists>b. st = fresh_state i kek b \<and> backup_inv L i b \<and> eb_registry b = []"
  proof (cases "kind = MatBip39Entropy")
    case True
    with assms(1) obtain e where st: "st = fresh_state i kek (fresh_backup root_id MatBip39Entropy nonce e authority)"
      by (auto elim: provision_bip39_shape)
    then show ?thesis
      using backup_inv_fresh [of "fresh_backup root_id MatBip39Entropy nonce e authority" i L] assms(2,3)
      by (auto simp: fresh_backup_def pinned_root_bad_def)
  next
    case False
    from assms(1) False show ?thesis
    proof (rule provision_root_shape)
      fix e d root b
      assume *: "b = fresh_backup root_id kind nonce e authority" "describe_path L (fresh_state i kek b) ''m'' = Inr d"
        "root = \<lparr>kr_backend = ''local'', kr_backend_instance = i, kr_locator = ''root:'' @ root_id,
          kr_key_spec = Secp256k1, kr_fingerprint = kd_fingerprint d, kr_derivation = None\<rparr>"
        "st = fresh_state i kek (b\<lparr>eb_pinned_root := Some root, eb_descriptions := [d\<lparr>kd_key_ref := root\<rparr>]\<rparr>)"
      have fp: "p_sha256 (lc_prims L) (kd_spki d) = kd_fingerprint d"
        using *(2) by (auto simp: describe_path_def rbind_Inr_iff Let_def split: if_splits)
      have "backup_inv L i (b\<lparr>eb_pinned_root := Some root, eb_descriptions := [d\<lparr>kd_key_ref := root\<rparr>]\<rparr>)"
        by (rule backup_inv_fresh)
          (use assms(2,3) fp *(1,3) in \<open>auto simp: fresh_backup_def pinned_root_bad_def description_fits_def\<close>)
      with *(1,4) show ?thesis by (auto simp: fresh_backup_def)
    qed
  qed
  then show "local_inv L st" "ls_instance st = i" by (auto simp: local_inv_def fresh_state_def reg)
qed

end
