(* ===== verification/Local_Properties.thy ===== *)
theory Local_Properties
  imports Local_Invariant
begin

text \<open>
  Properties of the local backend: its backup can always be restored, a retired key never signs again, what
  an answer of \<open>sign\<close> means, imported keys sign, what an allocation hands out, that two interleaved
  allocations can spoil the backup, and the reading of account paths. A concrete instance of the
  primitives applies them.
\<close>

subsection \<open>Signing\<close>

lemma active_seed_kek: "active_seed L st = Inr s \<Longrightarrow> ls_kek st \<noteq> None"
  by (auto simp: active_seed_def rbind_Inr_iff ok_or_Inr_iff)

lemma root_signing_key_kek: "root_signing_key L st = Inr s \<Longrightarrow> ls_kek st \<noteq> None"
  by (auto simp: root_signing_key_def rbind_Inr_iff dest: active_seed_kek)

lemma bip39_seed_kek: "bip39_seed L st = Inr s \<Longrightarrow> ls_kek st \<noteq> None"
  by (auto simp: bip39_seed_def rbind_Inr_iff dest: active_seed_kek)

lemma secp_key_registered:
  assumes "derive_secp_signing_key L st k = Inr key"
  shows "local_registered L st k \<and> ls_kek st \<noteq> None"
proof (cases "case root_key_ref L st of Inr root \<Rightarrow> root = k | Inl _ \<Rightarrow> False")
  case True
  then show ?thesis
    using assms by (auto simp: derive_secp_signing_key_def local_registered_def dest: root_signing_key_kek)
next
  case False
  then obtain d where d: "map_of (ls_registry st) (kr_locator k) = Some k" "kr_derivation k = Some d"
    using assms
    by (auto simp: derive_secp_signing_key_def rbind_Inr_iff ok_or_Inr_iff split: if_splits option.splits)
  have "ls_kek st \<noteq> None"
  proof (cases d)
    case (Bip32Secp256k1 root path)
    then show ?thesis
      using assms False d by (auto simp: derive_secp_signing_key_def rbind_Inr_iff dest: active_seed_kek)
  next
    case (Bip39Multicurve seed profile path)
    then show ?thesis
      using assms False d
      by (auto simp: derive_secp_signing_key_def rbind_Inr_iff split: prod.splits if_splits dest: bip39_seed_kek)
  qed
  with d show ?thesis by (simp add: local_registered_def)
qed

lemma ed25519_key_registered:
  assumes "derive_ed25519_signing_key L st k = Inr key"
  shows "local_registered L st k \<and> ls_kek st \<noteq> None"
proof -
  from assms obtain s profile path where k: "map_of (ls_registry st) (kr_locator k) = Some k"
    "kr_derivation k = Some (Bip39Multicurve s profile path)"
    by (auto simp: derive_ed25519_signing_key_def rbind_Inr_iff ok_or_Inr_iff
        split: if_splits option.splits derivation_ref.splits)
  then have "ls_kek st \<noteq> None"
    using assms
    by (auto simp: derive_ed25519_signing_key_def rbind_Inr_iff split: prod.splits if_splits dest: bip39_seed_kek)
  with k show ?thesis by (simp add: local_registered_def)
qed

text \<open>Every failure of the key derivations is definitive.\<close>

definition definitive :: "'a backend_result \<Rightarrow> bool" where
  "definitive r = (\<forall>e. r = Inl e \<longrightarrow> e \<in> {DefinitiveRejected, InvalidRequest, Unsupported})"

lemma definitive_simps [simp]:
  "definitive (Inr x)"
  "definitive (Inl e) \<longleftrightarrow> e \<in> {DefinitiveRejected, InvalidRequest, Unsupported}"
  "definitive (ok_or m e) \<longleftrightarrow> m \<noteq> None \<or> e \<in> {DefinitiveRejected, InvalidRequest, Unsupported}"
  by (auto simp: definitive_def ok_or_def split: option.splits)

lemma definitive_rbind: "definitive r \<Longrightarrow> (\<And>x. r = Inr x \<Longrightarrow> definitive (k x)) \<Longrightarrow> definitive (rbind r k)"
  by (cases r) auto

named_theorems definitive_intros "calls that fail definitively"

lemma active_seed_definitive [definitive_intros]: "definitive (active_seed L st)"
  unfolding active_seed_def by (intro definitive_rbind) auto

lemma root_signing_key_definitive [definitive_intros]: "definitive (root_signing_key L st)"
  unfolding root_signing_key_def
  by (intro definitive_rbind definitive_intros) (auto split: root_material_kind.split intro!: definitive_rbind)

lemma bip39_seed_definitive [definitive_intros]: "definitive (bip39_seed L st)"
  unfolding bip39_seed_def by (intro definitive_rbind definitive_intros) (auto split: sum.split)

lemma parse_bip39_path_definitive [definitive_intros]: "definitive (parse_bip39_path profile path)"
  unfolding parse_bip39_path_def
  by (auto intro!: definitive_rbind split: derivation_profile.split option.split)

lemma derive_solana_definitive [definitive_intros]: "definitive (derive_solana_key_for_path L seed a i path)"
  unfolding derive_solana_key_for_path_def by (auto split: sum.split)

lemma derive_secp_definitive [definitive_intros]: "definitive (derive_secp_signing_key L st k)"
  unfolding derive_secp_signing_key_def
  by (auto intro!: definitive_rbind definitive_intros split: option.split derivation_ref.split sum.split prod.split)

lemma derive_ed25519_definitive [definitive_intros]: "definitive (derive_ed25519_signing_key L st k)"
  unfolding derive_ed25519_signing_key_def
  by (auto intro!: definitive_rbind definitive_intros split: option.split derivation_ref.split prod.split)

lemma local_sign_definitive: "definitive (local_sign L st r)"
  unfolding local_sign_def Let_def
  by (auto intro!: definitive_rbind definitive_intros split: backend_input.split prod.split)

lemma local_sign_okD:
  assumes "local_sign L st r = Inr s"
  shows "local_registered L st (bs_key_ref r)" "ls_kek st \<noteq> None" "sg_suite s = bs_suite r"
    "sg_encoding s = signature_encoding_of (bs_suite r)" "sg_correlation s = None"
proof -
  have "local_registered L st (bs_key_ref r) \<and> ls_kek st \<noteq> None \<and> sg_suite s = bs_suite r
    \<and> sg_encoding s = signature_encoding_of (bs_suite r) \<and> sg_correlation s = None"
  proof (cases "bs_suite r = Ed25519Message")
    case True
    then show ?thesis
      using assms by (auto simp: local_sign_def rbind_Inr_iff Let_def split: if_splits backend_input.splits
          dest: ed25519_key_registered)
  next
    case False
    then have "signature_encoding_of (bs_suite r) = Secp256k1Recoverable65" by (cases "bs_suite r") auto
    then show ?thesis
      using assms False by (auto simp: local_sign_def rbind_Inr_iff Let_def case_prod_beta split: if_splits backend_input.splits
          dest: secp_key_registered)
  qed
  then show "local_registered L st (bs_key_ref r)" "ls_kek st \<noteq> None" "sg_suite s = bs_suite r"
    "sg_encoding s = signature_encoding_of (bs_suite r)" "sg_correlation s = None" by simp_all
qed

text \<open>C28: The local backend's answer to a sign request. A signature is returned only for a key that
  is registered exactly as named, while custody is active, for a suite the wallet supports, in that suite's
  encoding, and an Ed25519 signature has passed strict verification under the derived key; a refusal is one of
  the three definitive errors, so the caller knows that nothing was signed.\<close>

theorem local_sign_contract:
  "case local_sign L st r of
     Inr s \<Rightarrow>
       local_registered L st (bs_key_ref r) \<and> ls_kek st \<noteq> None \<and> input_matches_suite r
       \<and> bs_suite r \<in> set (bc_suites (local_capabilities st))
       \<and> sg_suite s = bs_suite r \<and> sg_encoding s = signature_encoding_of (bs_suite r)
       \<and> (case bs_input r of
            MessageInput message \<Rightarrow>
              \<exists>key. derive_ed25519_signing_key L st (bs_key_ref r) = Inr key
                \<and> sg_bytes s = lc_ed_sign L key message
                \<and> lc_verify_strict L (lc_ed_public L key) message (sg_bytes s)
          | DigestInput digest \<Rightarrow>
              \<exists>key bytes. derive_secp_signing_key L st (bs_key_ref r) = Inr key
                \<and> p_hex_decode (lc_prims L) digest = Some bytes \<and> length bytes = 32
                \<and> sg_bytes s = fst (lc_sign_recoverable L key bytes) @ [snd (lc_sign_recoverable L key bytes)])
   | Inl e \<Rightarrow> e = DefinitiveRejected \<or> e = InvalidRequest \<or> e = Unsupported"
proof (cases "local_sign L st r")
  case (Inl e)
  then show ?thesis using local_sign_definitive [of L st r] by (auto simp: definitive_def)
next
  case (Inr s)
  from local_sign_okD [OF Inr] Inr show ?thesis
    by (cases "bs_input r")
      (auto simp: local_sign_def rbind_Inr_iff ok_or_Inr_iff Let_def case_prod_beta split: if_splits)
qed

subsection \<open>Backups\<close>

lemma restore_own_backup:
  assumes "local_inv L st"
  shows "\<exists>b. encrypted_backup st = Inr b \<and> restore L (ls_instance st) b = Inr (st\<lparr>ls_kek := None, ls_storage := None\<rparr>)"
proof -
  from assms obtain b where b: "ls_backup st = Some b" "backup_inv L (ls_instance st) b"
    "ls_registry st = registry_of (eb_registry b)" by (rule local_invE)
  then have "restore L (ls_instance st) b = Inr (st\<lparr>ls_kek := None, ls_storage := None\<rparr>)"
    by (cases st) (simp add: restore_def backup_inv_def)
  with b(1) show ?thesis by (simp add: encrypted_backup_def)
qed

text \<open>After any run of a provisioned local backend, restoring its own encrypted backup succeeds and
  gives the same backend with custody locked: the same keys, namespaces, tombstones and pending operations.
  The run may register, allocate, retire, finalise, activate and restart in any order and with any write
  failing. The only exception is a collision of the locator hash.\<close>

theorem local_backup_restorable:
  assumes "provision_material L nonce i root_id material kek authority kind = Inr st0"
    and "length nonce = 24" and "length authority = 32" and "local_laws L"
    and "(local_step L)\<^sup>*\<^sup>* st0 st"
  shows "locator_collision L
    \<or> (\<exists>b. encrypted_backup st = Inr b \<and> restore L i b = Inr (st\<lparr>ls_kek := None, ls_storage := None\<rparr>))"
proof (cases "locator_collision L")
  case False
  then have sound: "local_sound L" using assms(4) by (simp add: local_sound_def)
  note run = local_run_inv [OF assms(5) provision_inv(1) [OF assms(1-3)] sound]
  have "ls_instance st = i" using run(2) provision_inv(2) [OF assms(1-3)] by (simp add: local_grows_def)
  with restore_own_backup [OF run(1)] show ?thesis by simp
qed simp

subsection \<open>Retirement\<close>

lemma registered_not_tombstoned:
  assumes "local_inv L st" "ls_backup st = Some b" "local_registered L st k" "derivation_path_of k = Some path"
  shows "path \<notin> set (eb_tombstones b)"
proof -
  from assms(1) obtain b' where b': "ls_backup st = Some b'" "backup_inv L (ls_instance st) b'"
    "ls_registry st = registry_of (eb_registry b')" by (rule local_invE)
  have b: "b' = b" using b'(1) assms(2) by simp
  have "root_key_ref L st \<noteq> Inr k"
    using root_key_ref_spec(2) [OF _ assms(2) backup_invD(1) [OF b'(2) [unfolded b]], of L k] assms(4)
    by (auto simp: derivation_path_of_def)
  then have "map_of (ls_registry st) (kr_locator k) = Some k"
    using assms(3) by (auto simp: local_registered_def split: sum.splits)
  then have "k \<in> set (eb_registry b)"
    using b'(3) map_of_registry [OF backup_invD(5) [OF b'(2)]] by (simp add: b)
  then show ?thesis using backup_invD(3) [OF b'(2) [unfolded b], of k] assms(4) by (simp add: key_path_def)
qed

lemma tombstone_ok_path:
  assumes "tombstone_path L disk k path st = (st', Inr ())"
  shows "\<exists>b. ls_backup st' = Some b \<and> path \<in> set (eb_tombstones b)"
  using assms
  by (auto simp: tombstone_path_def remove_key_def split: if_splits option.splits prod.splits sum.splits
      elim!: commit_backup_cases)

lemma retired_unregistered:
  assumes "local_inv L st'" "ls_backup st = Some b" "path \<in> set (eb_tombstones b)" "local_grows st st'"
    "derivation_path_of k = Some path"
  shows "\<not> local_registered L st' k"
proof
  assume reg: "local_registered L st' k"
  from assms(2,4) obtain b' where "ls_backup st' = Some b'" "backup_grows b b'" by (auto simp: local_grows_def)
  with registered_not_tombstoned [OF assms(1) _ reg assms(5)] assms(3) show False
    by (auto simp: backup_grows_def)
qed


subsection \<open>What the derivations depend on\<close>

definition same_secrets :: "local_state \<Rightarrow> local_state \<Rightarrow> bool" where
  "same_secrets st st' =
     (ls_instance st' = ls_instance st \<and> ls_kek st' = ls_kek st
      \<and> (\<exists>b b'. ls_backup st = Some b \<and> ls_backup st' = Some b' \<and> eb_root_key_id b' = eb_root_key_id b
          \<and> eb_kind b' = eb_kind b \<and> eb_pinned_root b' = eb_pinned_root b \<and> eb_nonce b' = eb_nonce b
          \<and> eb_encrypted_seed b' = eb_encrypted_seed b \<and> eb_authority_key b' = eb_authority_key b))"

lemma same_secrets_eqs:
  assumes "same_secrets st st'"
  shows "active_seed L st' = active_seed L st"
    and "root_signing_key L st' = root_signing_key L st"
    and "bip39_seed L st' = bip39_seed L st"
    and "describe_path L st' path = describe_path L st path"
    and "root_key_ref L st' = root_key_ref L st"
    and "describe_bip39_child L st' k = describe_bip39_child L st k"
    and "verify_derivation_authority L a st' = verify_derivation_authority L a st"
proof -
  from assms obtain b b' where b: "ls_backup st = Some b" "ls_backup st' = Some b'"
    "ls_instance st' = ls_instance st" "ls_kek st' = ls_kek st" "eb_root_key_id b' = eb_root_key_id b"
    "eb_kind b' = eb_kind b" "eb_pinned_root b' = eb_pinned_root b" "eb_nonce b' = eb_nonce b"
    "eb_encrypted_seed b' = eb_encrypted_seed b" "eb_authority_key b' = eb_authority_key b"
    by (auto simp: same_secrets_def)
  show s: "active_seed L st' = active_seed L st" unfolding active_seed_def by (simp add: b cong: if_cong)
  show r: "root_signing_key L st' = root_signing_key L st" unfolding root_signing_key_def s by (simp add: b cong: root_material_kind.case_cong)
  show g: "bip39_seed L st' = bip39_seed L st" unfolding bip39_seed_def s ..
  show p: "describe_path L st' path = describe_path L st path" for path
    unfolding describe_path_def r s by (simp add: b cong: if_cong)
  show "root_key_ref L st' = root_key_ref L st" unfolding root_key_ref_def p by (simp add: b cong: if_cong option.case_cong)
  show "describe_bip39_child L st' k = describe_bip39_child L st k" unfolding describe_bip39_child_def g ..
  show "verify_derivation_authority L a st' = verify_derivation_authority L a st"
    unfolding verify_derivation_authority_def by (simp add: b cong: if_cong)
qed

subsection \<open>Allocation\<close>

lemma describe_new_child_pending:
  assumes d: "describe_new_child L st root path = Inr d" and laws: "local_laws L"
  shows "describe_pending L st (kd_key_ref d) = Inr d"
proof (cases "kr_key_spec root = Ed25519")
  case False
  then have p: "describe_path L st path = Inr d" using d by (simp add: describe_new_child_def)
  then obtain root_id where "kr_derivation (kd_key_ref d) = Some (Bip32Secp256k1 root_id path)"
    by (auto simp: describe_path_def rbind_Inr_iff Let_def split: if_splits)
  with p show ?thesis by (simp add: describe_pending_def)
next
  case True
  then obtain seed_ref p0 where root: "kr_derivation root = Some (Bip39Multicurve seed_ref Bip44SolanaSlip10Ed25519V1 p0)"
    using d by (auto simp: describe_new_child_def split: option.splits derivation_ref.splits derivation_profile.splits)
  from d obtain seed account index derived where der:
    "parse_bip39_path Bip44SolanaSlip10Ed25519V1 path = Inr (account, index)" "bip39_seed L st = Inr seed"
    "derive_solana_key_for_path L seed account index path = Inr derived"
    "d = \<lparr>kd_key_ref = \<lparr>kr_backend = ''local'', kr_backend_instance = ls_instance st,
       kr_locator = child_locator L seed_ref path, kr_key_spec = Ed25519,
       kr_fingerprint = lc_digest32 L (ded_fingerprint derived),
       kr_derivation = Some (Bip39Multicurve seed_ref Bip44SolanaSlip10Ed25519V1 path)\<rparr>,
       kd_spki = ded_spki derived, kd_fingerprint = lc_digest32 L (ded_fingerprint derived),
       kd_suites = [Ed25519Message]\<rparr>"
    unfolding describe_new_child_def root by (auto simp: True rbind_Inr_iff Let_def split: prod.splits)
  have "p_sha256 (lc_prims L) (ded_spki derived) = lc_digest32 L (ded_fingerprint derived)"
    using laws derive_solana_fingerprint [OF der(3)] by (simp add: local_laws_def)
  then show ?thesis
    by (simp add: der(4) describe_pending_def describe_bip39_child_def describe_bip39_child_with_seed_def der(1-3) Let_def)
qed

lemma commit_allocation_okE:
  assumes "commit_allocation L disk namespace_id seen d operation st = (st', Inr d')"
  obtains b ns where "d' = d" "ls_backup st = Some b" "advance_namespace namespace_id seen (eb_namespaces b) = Inr ns"
    "ls_backup st' = Some (b\<lparr>eb_namespaces := ns, eb_registry := eb_registry b @ [kd_key_ref d],
       eb_descriptions := eb_descriptions b @ [d],
       eb_pending := (case operation of Some op \<Rightarrow> bt_insert op (kd_key_ref d) (eb_pending b) | None \<Rightarrow> eb_pending b)\<rparr>)"
    "ls_registry st' = bt_insert (kr_locator (kd_key_ref d)) (kd_key_ref d) (ls_registry st)"
    "ls_instance st' = ls_instance st" "ls_kek st' = ls_kek st" "ls_storage st' = ls_storage st"
proof -
  from assms obtain b ns where b: "ls_backup st = Some b"
    "advance_namespace namespace_id seen (eb_namespaces b) = Inr ns"
    by (auto simp: commit_allocation_def split: option.splits sum.splits)
  let ?next = "b\<lparr>eb_namespaces := ns, eb_registry := eb_registry b @ [kd_key_ref d],
       eb_descriptions := eb_descriptions b @ [d],
       eb_pending := (case operation of Some op \<Rightarrow> bt_insert op (kd_key_ref d) (eb_pending b) | None \<Rightarrow> eb_pending b)\<rparr>"
  obtain st1 r1 where c: "commit_backup L disk ?next st = (st1, r1)" by fastforce
  have "commit_allocation L disk namespace_id seen d operation st =
      (case commit_backup L disk ?next st of (st', Inl e) \<Rightarrow> (st', Inl e)
       | (st', Inr _) \<Rightarrow> (st'\<lparr>ls_registry := bt_insert (kr_locator (kd_key_ref d)) (kd_key_ref d) (ls_registry st')\<rparr>, Inr d))"
    using b by (cases operation) (simp_all add: commit_allocation_def Let_def)
  then have eq: "(case (st1, r1) of (st', Inl e) \<Rightarrow> (st', Inl e)
      | (st', Inr _) \<Rightarrow> (st'\<lparr>ls_registry := bt_insert (kr_locator (kd_key_ref d)) (kd_key_ref d) (ls_registry st')\<rparr>, Inr d))
      = (st', Inr d')" using assms by (simp only: c)
  from c show ?thesis
  proof (cases rule: commit_backup_cases)
    case ok
    then have "d' = d" "st' = st\<lparr>ls_backup := Some ?next,
        ls_registry := bt_insert (kr_locator (kd_key_ref d)) (kd_key_ref d) (ls_registry st)\<rparr>"
      using eq by auto
    then show ?thesis by (intro that [OF _ b]) simp_all
  next
    case (failed e)
    then show ?thesis using eq by simp
  qed
qed

lemma commit_allocation_answer: "commit_allocation L disk ns seen d operation st = (st', Inr d') \<Longrightarrow> d' = d"
  by (erule commit_allocation_okE)

lemma advance_namespace_find:
  assumes "advance_namespace namespace_id seen ns = Inr ns'"
  shows "\<exists>n. find (\<lambda>n. dn_namespace_id n = namespace_id) ns = Some n \<and> dn_next_index n = seen
    \<and> find (\<lambda>n. dn_namespace_id n = namespace_id) ns' = Some (n\<lparr>dn_next_index := dn_next_index n + 1\<rparr>)"
  using assms
  by (induction ns arbitrary: ns')
    (auto simp: rbind_Inr_iff ok_or_Inr_iff dest!: checked_add_Some_eq split: if_splits)

text \<open>C30: A successful allocation for an operation that has none pending hands out the path of the
  namespace's next index (hardened for an Ed25519 parent), which no registered key has and no tombstone
  names; it registers the key, moves the counter on by exactly one and records the operation, so that a
  repeated call returns the same description and changes nothing.\<close>

theorem allocation_fresh_and_repeatable:
  assumes "allocate_derived_key_for_operation L disk root namespace_id a operation st = (st', Inr d)"
    and "local_inv L st" and "local_laws L" and "ls_backup st = Some b"
    and "map_of (eb_pending b) operation = None"
  shows "\<exists>n b'. find (\<lambda>n. dn_namespace_id n = namespace_id) (eb_namespaces b) = Some n
    \<and> derivation_path_of (kd_key_ref d) = Some (namespace_child_path root n)
    \<and> dn_next_index n < dn_maximum n
    \<and> \<not> path_taken b (namespace_child_path root n)
    \<and> ls_backup st' = Some b' \<and> eb_registry b' = eb_registry b @ [kd_key_ref d]
    \<and> map_of (eb_pending b') operation = Some (kd_key_ref d)
    \<and> find (\<lambda>n. dn_namespace_id n = namespace_id) (eb_namespaces b')
        = Some (n\<lparr>dn_next_index := dn_next_index n + 1\<rparr>)
    \<and> allocate_derived_key_for_operation L disk' root namespace_id a operation st' = (st', Inr d)"
proof -
  have binv: "backup_inv L (ls_instance st) b" using assms(2,4) by (auto simp: local_inv_def)
  obtain seen where plan: "plan_allocation L root namespace_id a (Some operation) st = Inr (FreshChild seen d)"
    "commit_allocation L disk namespace_id seen d (Some operation) st = (st', Inr d)"
  proof -
    have "plan_allocation L root namespace_id a (Some operation) st \<noteq> Inr (AlreadyPending x)" for x
      using assms(4,5)
      by (auto simp: plan_allocation_def rbind_Inr_iff ok_or_Inr_iff Let_def split: if_splits)
    then show ?thesis
      using assms(1) that
      by (auto simp: allocate_derived_key_for_operation_def allocate_derived_key_inner_def
          split: sum.splits allocation_plan.splits dest: commit_allocation_answer)
  qed
  from plan(1) obtain n where n: "valid_parent L st b root = Inr ()"
    "find (\<lambda>n. dn_namespace_id n = namespace_id) (eb_namespaces b) = Some n"
    "dn_next_index n < dn_maximum n" "verify_derivation_authority L a st = Inr (dn_authority n)"
    "\<not> path_taken b (namespace_child_path root n)"
    "describe_new_child L st root (namespace_child_path root n) = Inr d"
    using assms(4) by (rule_tac plan_freshE) auto
  from plan(2) obtain ns where c: "advance_namespace namespace_id seen (eb_namespaces b) = Inr ns"
    "ls_backup st' = Some (b\<lparr>eb_namespaces := ns, eb_registry := eb_registry b @ [kd_key_ref d],
       eb_descriptions := eb_descriptions b @ [d], eb_pending := bt_insert operation (kd_key_ref d) (eb_pending b)\<rparr>)"
    "ls_instance st' = ls_instance st" "ls_kek st' = ls_kek st"
    using assms(4) by (auto elim!: commit_allocation_okE)
  let ?b' = "b\<lparr>eb_namespaces := ns, eb_registry := eb_registry b @ [kd_key_ref d],
       eb_descriptions := eb_descriptions b @ [d], eb_pending := bt_insert operation (kd_key_ref d) (eb_pending b)\<rparr>"
  have same: "same_secrets st st'" using c assms(4) by (simp add: same_secrets_def)
  have pending: "map_of (eb_pending ?b') operation = Some (kd_key_ref d)"
    using map_of_bt_insert [OF backup_invD(13) [OF binv]] by simp
  have parent: "valid_parent L st' ?b' root = Inr ()"
    using n(1) unfolding valid_parent_def same_secrets_eqs(5) [OF same]
    by (auto simp: rbind_Inr_iff ensure_Inr_iff split: if_splits)
  have "describe_pending L st' (kd_key_ref d) = describe_pending L st (kd_key_ref d)"
    unfolding describe_pending_def same_secrets_eqs(4,6) [OF same] ..
  then have "plan_allocation L root namespace_id a (Some operation) st' = Inr (AlreadyPending d)"
    using describe_new_child_pending [OF n(6) assms(3)] pending parent
    by (simp add: plan_allocation_def same_secrets_eqs(7) [OF same] n(4) c(2))
  then have "allocate_derived_key_for_operation L disk' root namespace_id a operation st' = (st', Inr d)"
    by (simp add: allocate_derived_key_for_operation_def allocate_derived_key_inner_def)
  moreover have "derivation_path_of (kd_key_ref d) = Some (namespace_child_path root n)"
    using describe_new_child_new_child [OF n(6) assms(4) binv assms(3) n(1)] root_matches_path
    by (auto simp: new_child_def key_fits_def)
  ultimately show ?thesis
    using n(2,3,5) c(2) pending advance_namespace_find [OF c(1)] by auto
qed

lemma advance_namespace_ok:
  assumes "find (\<lambda>n. dn_namespace_id n = namespace_id) ns = Some n" "dn_next_index n < dn_maximum n"
  shows "\<exists>ns'. advance_namespace namespace_id (dn_next_index n) ns = Inr ns'
    \<and> (\<forall>other. other \<noteq> namespace_id \<longrightarrow>
        find (\<lambda>n. dn_namespace_id n = other) ns' = find (\<lambda>n. dn_namespace_id n = other) ns)"
  using assms
proof (induction ns)
  case (Cons m ns)
  have "unat (dn_next_index n) + 1 < 2 ^ 64"
    using assms(2) unat_lt_power [of "dn_maximum n"] unfolding word_less_nat_alt by simp
  then have "checked_add (dn_next_index n) 1 = Some (dn_next_index n + 1)" by (simp add: checked_add_def)
  with Cons show ?case by auto
qed simp

lemma commit_in_memory:
  assumes "ls_backup st = Some b" "ls_storage st = None"
    and "find (\<lambda>n. dn_namespace_id n = namespace_id) (eb_namespaces b) = Some n" "dn_next_index n < dn_maximum n"
  obtains st' b' where "commit_allocation L disk namespace_id (dn_next_index n) d operation st = (st', Inr d)"
    "ls_backup st' = Some b'" "eb_registry b' = eb_registry b @ [kd_key_ref d]" "ls_storage st' = None"
    "\<And>other. other \<noteq> namespace_id \<Longrightarrow>
      find (\<lambda>n. dn_namespace_id n = other) (eb_namespaces b') = find (\<lambda>n. dn_namespace_id n = other) (eb_namespaces b)"
proof -
  from advance_namespace_ok [OF assms(3,4)] obtain ns where
    ns: "advance_namespace namespace_id (dn_next_index n) (eb_namespaces b) = Inr ns"
    "\<forall>other. other \<noteq> namespace_id \<longrightarrow>
        find (\<lambda>n. dn_namespace_id n = other) ns = find (\<lambda>n. dn_namespace_id n = other) (eb_namespaces b)" by blast
  let ?b' = "b\<lparr>eb_namespaces := ns, eb_registry := eb_registry b @ [kd_key_ref d],
       eb_descriptions := eb_descriptions b @ [d],
       eb_pending := (case operation of Some op \<Rightarrow> bt_insert op (kd_key_ref d) (eb_pending b) | None \<Rightarrow> eb_pending b)\<rparr>"
  let ?st' = "st\<lparr>ls_backup := Some ?b',
       ls_registry := bt_insert (kr_locator (kd_key_ref d)) (kd_key_ref d) (ls_registry st)\<rparr>"
  have "commit_allocation L disk namespace_id (dn_next_index n) d operation st = (?st', Inr d)"
    using assms(1,2) ns(1)
    by (cases operation) (simp_all add: commit_allocation_def Let_def commit_backup_def persist_backup_def)
  then show ?thesis by (rule that [where b' = "?b'"]) (use assms(2) ns(2) in simp_all)
qed

text \<open>The two halves of an allocation do not exclude each other. When two allocations
  under different namespaces that lead to the same path (a common prefix and index) have both taken their
  snapshot before either commits, both succeed, the path is handed out twice, and from then on the
  backup the backend holds is refused by \<open>restore\<close>.\<close>

theorem interleaved_allocations_spoil_backup:
  assumes "plan_allocation L root ns1 a1 op1 st = Inr (FreshChild seen1 d1)"
    and "plan_allocation L root ns2 a2 op2 st = Inr (FreshChild seen2 d2)"
    and "ns1 \<noteq> ns2" and "key_path (kd_key_ref d1) = key_path (kd_key_ref d2)" and "ls_storage st = None"
  shows "\<exists>st1 st2 b. commit_allocation L disk1 ns1 seen1 d1 op1 st = (st1, Inr d1)
    \<and> commit_allocation L disk2 ns2 seen2 d2 op2 st1 = (st2, Inr d2)
    \<and> encrypted_backup st2 = Inr b \<and> restore L (ls_instance st2) b = Inl InvalidRequest"
proof -
  from assms(1) obtain b n1 where b: "ls_backup st = Some b"
    and n1: "find (\<lambda>n. dn_namespace_id n = ns1) (eb_namespaces b) = Some n1" "seen1 = dn_next_index n1"
      "dn_next_index n1 < dn_maximum n1" by (rule plan_freshE)
  from assms(2) b obtain n2 where
    n2: "find (\<lambda>n. dn_namespace_id n = ns2) (eb_namespaces b) = Some n2" "seen2 = dn_next_index n2"
      "dn_next_index n2 < dn_maximum n2" by (rule_tac plan_freshE) auto
  obtain st1 b1 where c1: "commit_allocation L disk1 ns1 seen1 d1 op1 st = (st1, Inr d1)"
    "ls_backup st1 = Some b1" "eb_registry b1 = eb_registry b @ [kd_key_ref d1]" "ls_storage st1 = None"
    "find (\<lambda>n. dn_namespace_id n = ns2) (eb_namespaces b1) = Some n2"
    using commit_in_memory [OF b assms(5) n1(1,3)] n1(2) n2(1) assms(3) by metis
  obtain st2 b2 where c2: "commit_allocation L disk2 ns2 seen2 d2 op2 st1 = (st2, Inr d2)"
    "ls_backup st2 = Some b2" "eb_registry b2 = eb_registry b1 @ [kd_key_ref d2]"
    using commit_in_memory [OF c1(2,4,5) n2(3)] n2(2) by metis
  have "\<not> distinct (map key_path (eb_registry b2))" using assms(4) by (simp add: c1 c2)
  then have "restore_bad L (ls_instance st2) b2" using restore_bad_iff [of L "ls_instance st2" b2] by blast
  then show ?thesis using c1(1) c2(1,2) by (auto simp: encrypted_backup_def restore_def)
qed

subsection \<open>Imported keys\<close>

text \<open>C29: A wallet provisioned from an imported private key signs with exactly that key, and
  keeps doing so after a restart: the backup restores, activation with the same key-encryption key succeeds
  and brings back the very state that was provisioned, and every well-formed digest request for the root key is
  answered with a signature made with the imported key.\<close>

theorem imported_key_signs:
  assumes "provision_imported_secp256k1 L nonce i root_id private_key kek authority = Inr st"
    and "length nonce = 24" and "length authority = 32"
    and "\<And>k n a m c. lc_encrypt L k n a m = Some c \<Longrightarrow> lc_decrypt L k n a c = Some m"
  shows "\<exists>root b st1 key. root_key_ref L st = Inr root \<and> encrypted_backup st = Inr b
    \<and> restore L i b = Inr st1 \<and> activate_blocking L kek st1 = (st, Inr ())
    \<and> lc_signing_key L private_key = Some key
    \<and> (\<forall>r digest bytes. bs_key_ref r = root \<longrightarrow> bs_input r = DigestInput digest
        \<longrightarrow> bs_suite r \<in> set secp_suites \<longrightarrow> p_hex_decode (lc_prims L) digest = Some bytes
        \<longrightarrow> length bytes = 32
        \<longrightarrow> (\<exists>s. local_sign L st r = Inr s
              \<and> sg_bytes s = fst (lc_sign_recoverable L key bytes) @ [snd (lc_sign_recoverable L key bytes)]))"
proof -
  note prov = assms(1) [unfolded provision_imported_secp256k1_def]
  have inv: "local_inv L st" "ls_instance st = i" by (rule provision_inv [OF prov assms(2,3)])+
  from prov obtain key where key: "lc_signing_key L private_key = Some key" "length kek = 32"
    by (auto simp: provision_material_def valid_material_def split: if_splits)
  from prov obtain e d root b where p: "lc_encrypt L kek nonce (root_aad i root_id) private_key = Some e"
    "b = fresh_backup root_id MatImportedSecp256k1Scalar nonce e authority"
    "describe_path L (fresh_state i kek b) ''m'' = Inr d"
    "root = \<lparr>kr_backend = ''local'', kr_backend_instance = i, kr_locator = ''root:'' @ root_id,
        kr_key_spec = Secp256k1, kr_fingerprint = kd_fingerprint d, kr_derivation = None\<rparr>"
    "st = fresh_state i kek (b\<lparr>eb_pinned_root := Some root, eb_descriptions := [d\<lparr>kd_key_ref := root\<rparr>]\<rparr>)"
    by (rule provision_root_shape) simp
  let ?b = "b\<lparr>eb_pinned_root := Some root, eb_descriptions := [d\<lparr>kd_key_ref := root\<rparr>]\<rparr>"
  have bf: "eb_kind b = MatImportedSecp256k1Scalar" "eb_root_key_id b = root_id" "eb_nonce b = nonce"
    "eb_encrypted_seed b = e" by (simp_all add: p(2) fresh_backup_def)
  have stf: "ls_backup st = Some ?b" "ls_kek st = Some kek" "ls_instance st = i" "ls_registry st = []"
    by (simp_all add: p(5) fresh_state_def)
  have seed: "active_seed L st = Inr private_key"
    using assms(2) key(2) assms(4) [OF p(1)] by (simp add: active_seed_def stf bf)
  have root: "root_key_ref L st = Inr root" by (simp add: root_key_ref_def stf bf)
  have sk: "root_signing_key L st = Inr key" by (simp add: root_signing_key_def seed key stf bf)
  have desc: "describe_path L st ''m'' = Inr d"
  proof -
    have "describe_path L ((fresh_state i kek b)\<lparr>ls_backup := Some (b\<lparr>eb_pinned_root := Some root\<rparr>)\<rparr>) ''m'' = Inr d"
      using describe_path_pinned [of "fresh_state i kek b" b L "Some root" "''m''"] p(3)
      by (simp add: fresh_state_def)
    moreover have "same_secrets ((fresh_state i kek b)\<lparr>ls_backup := Some (b\<lparr>eb_pinned_root := Some root\<rparr>)\<rparr>) st"
      by (simp add: same_secrets_def stf) (simp add: fresh_state_def)
    ultimately show ?thesis using same_secrets_eqs(4) by metis
  qed
  have "kr_fingerprint root = kd_fingerprint d" by (simp add: p(4))
  then have valid: "validate_registered_derivations L st = Inr ()"
    by (simp add: validate_registered_derivations_def Let_def root desc stf bf)
  have b: "encrypted_backup st = Inr ?b" by (simp add: encrypted_backup_def stf)
  have st1: "restore L i ?b = Inr (st\<lparr>ls_kek := None, ls_storage := None\<rparr>)"
    using restore_own_backup [OF inv(1)] b inv(2) by auto
  have "st\<lparr>ls_storage := None, ls_kek := Some kek\<rparr> = st" by (simp add: p(5) fresh_state_def)
  then have act: "activate_blocking L kek (st\<lparr>ls_kek := None, ls_storage := None\<rparr>) = (st, Inr ())"
    using key(2) seed valid by (simp add: activate_blocking_def Let_def)
  have sign: "\<exists>s. local_sign L st r = Inr s
      \<and> sg_bytes s = fst (lc_sign_recoverable L key bytes) @ [snd (lc_sign_recoverable L key bytes)]"
    if "bs_key_ref r = root" "bs_input r = DigestInput digest" "bs_suite r \<in> set secp_suites"
      "p_hex_decode (lc_prims L) digest = Some bytes" "length bytes = 32" for r digest bytes
  proof -
    have "input_matches_suite r" "bs_suite r \<noteq> Ed25519Message"
      using that(2,3) by (auto simp: input_matches_suite_def secp_suites_def)
    moreover have "derive_secp_signing_key L st root = Inr key" by (simp add: derive_secp_signing_key_def root sk)
    moreover have "bs_suite r \<in> set (bc_suites (local_capabilities st))"
      using that(3) by (auto simp: local_capabilities_def Let_def)
    ultimately show ?thesis using that by (simp add: local_sign_def case_prod_beta)
  qed
  show ?thesis using root b st1 act key(1) sign by blast
qed

subsection \<open>Account paths\<close>

lemma split_once_None: "p \<notin> set s \<Longrightarrow> split_once (p # ps) s = None"
  by (induction s) auto

lemma show_u32_no_apos: "apos \<notin> set (show_u32 v)"
  using show_nat_digits [of apos "unat v"] no_apos_digits by (auto simp: show_u32_def)

lemma option_filter_bound: "v < 2 ^ 31 \<Longrightarrow> option_filter (\<lambda>v. v < 2 ^ 31) (Some v) = Some v" for v :: u32
  by (simp add: option_filter_def)

lemma strip_prefix_append: "strip_prefix p (p @ s) = Some s"
  by (simp only: strip_prefix_Some_iff)

lemma strip_suffix_append: "strip_suffix q (s @ q) = Some s"
  by (simp only: strip_suffix_Some_iff)

lemma parse_evm_path: "parse_bip39_path Bip44EvmSecp256k1V1 (evm_path account index) = Inr (account, index)"
proof -
  have path: "evm_path account index = (''m/44'' @ [apos] @ ''/60'' @ [apos] @ ''/'')
      @ ((show_u32 account @ [apos]) @ ''/0/'' @ show_u32 index)" by (simp add: evm_path_def)
  have "split_once ''/0/'' ((show_u32 account @ [apos]) @ ''/0/'' @ show_u32 index)
      = Some (show_u32 account @ [apos], show_u32 index)"
    by (rule split_once_first) (simp add: show_u32_no_slash)
  then show ?thesis
    unfolding parse_bip39_path_def path strip_prefix_append
    by (simp only: derivation_profile.case ok_or_simps rbind_simps prod.case strip_suffix_append
        Option.bind.simps parse_u32_show)
qed

text \<open>The tail of an ordinary Solana account path does not contain the petal branch.\<close>

lemma solana_tail_no_branch:
  "split_once ([apos] @ ''/0'' @ [apos] @ ''/18735'' @ [apos] @ ''/'') (show_u32 account @ [apos] @ ''/0'' @ [apos]) = None"
proof (rule ccontr)
  assume "split_once ([apos] @ ''/0'' @ [apos] @ ''/18735'' @ [apos] @ ''/'') (show_u32 account @ [apos] @ ''/0'' @ [apos]) \<noteq> None"
  then obtain a b where
    "show_u32 account @ [apos] @ ''/0'' @ [apos] = a @ ([apos] @ ''/0'' @ [apos] @ ''/18735'' @ [apos] @ ''/'') @ b"
    using split_once_SomeD by (metis option.exhaust prod.exhaust)
  then have "length (filter (\<lambda>c. c = apos) (show_u32 account @ [apos] @ ''/0'' @ [apos]))
      = length (filter (\<lambda>c. c = apos) (a @ ([apos] @ ''/0'' @ [apos] @ ''/18735'' @ [apos] @ ''/'') @ b))" by simp
  moreover have "filter (\<lambda>c. c = apos) (show_u32 account) = []"
    using show_u32_no_apos by (auto simp: filter_empty_conv)
  ultimately show False by (simp add: apos_def)
qed

lemma parse_solana_path:
  "account < 2 ^ 31 \<Longrightarrow> parse_bip39_path Bip44SolanaSlip10Ed25519V1 (solana_path account) = Inr (account, 0)"
proof -
  assume a: "account < 2 ^ 31"
  have path: "solana_path account = (''m/44'' @ [apos] @ ''/501'' @ [apos] @ ''/'')
      @ (show_u32 account @ [apos] @ ''/0'' @ [apos])" by (simp add: solana_path_def)
  have suffix: "strip_suffix (''/0'' @ [apos]) (show_u32 account @ [apos] @ ''/0'' @ [apos]) = Some (show_u32 account @ [apos])"
    using strip_suffix_append [of "''/0'' @ [apos]" "show_u32 account @ [apos]"] by simp
  show ?thesis
    unfolding parse_bip39_path_def path strip_prefix_append
    by (simp only: derivation_profile.case ok_or_simps rbind_simps solana_tail_no_branch option.case suffix
        Option.bind.simps strip_suffix_append parse_u32_show option_filter_bound [OF a])
qed

definition petal_path :: "u32 \<Rightarrow> u32 \<Rightarrow> string" where
  "petal_path account index =
     solana_path account @ ''/'' @ show_u32 PETAL_BRANCH @ [apos] @ ''/'' @ show_u32 index @ [apos]"

lemma parse_petal_path:
  assumes a: "account < 2 ^ 31" and i: "index < 2 ^ 31"
  shows "parse_bip39_path Bip44SolanaSlip10Ed25519V1 (petal_path account index) = Inr (account, index)"
proof -
  have branch: "show_u32 PETAL_BRANCH = ''18735''"
    by (simp add: PETAL_BRANCH_def show_u32_def show_nat.simps digit_char_def char_of_def bit_Suc_0_iff)
  let ?pat = "[apos] @ ''/0'' @ [apos] @ ''/18735'' @ [apos] @ ''/''"
  have path: "petal_path account index = (''m/44'' @ [apos] @ ''/501'' @ [apos] @ ''/'')
      @ (show_u32 account @ ?pat @ (show_u32 index @ [apos]))" by (simp add: petal_path_def solana_path_def branch)
  have "split_once (apos # (''/0'' @ [apos] @ ''/18735'' @ [apos] @ ''/''))
      (show_u32 account @ (apos # (''/0'' @ [apos] @ ''/18735'' @ [apos] @ ''/'')) @ (show_u32 index @ [apos]))
      = Some (show_u32 account, show_u32 index @ [apos])"
    by (rule split_once_first) (rule show_u32_no_apos)
  then have "split_once ?pat (show_u32 account @ ?pat @ (show_u32 index @ [apos]))
      = Some (show_u32 account, show_u32 index @ [apos])" by simp
  then show ?thesis
    unfolding parse_bip39_path_def path strip_prefix_append
    by (simp only: derivation_profile.case ok_or_simps rbind_simps option.case prod.case
        Option.bind.simps strip_suffix_append parse_u32_show option_filter_bound [OF a] option_filter_bound [OF i])
qed

lemma parse_alias:
  "parse_bip39_path Bip44EvmSecp256k1V1
     (''m/44'' @ [apos] @ ''/60'' @ [apos] @ ''/+5'' @ [apos] @ ''/0/007'') = Inr (5, 7)"
  by (simp add: parse_bip39_path_def apos_def strip_suffix_def parse_u32_def parse_unsigned_def
      is_ascii_digit_def digit_val_def)

text \<open>The backend reads back exactly the account and index from every path the derivations
  build: EVM accounts, Solana accounts and Petal keys below the hardened range. It also reads spellings that no
  builder prints: the EVM path \<open>m/44'/60'/+5'/0/007\<close> is taken for account 5 and index 7.\<close>

theorem bip39_path_roundtrip:
  "parse_bip39_path Bip44EvmSecp256k1V1 (evm_path account index) = Inr (account, index)
   \<and> (account < 2 ^ 31 \<longrightarrow> parse_bip39_path Bip44SolanaSlip10Ed25519V1 (solana_path account) = Inr (account, 0))
   \<and> (account < 2 ^ 31 \<longrightarrow> index < 2 ^ 31 \<longrightarrow>
        parse_bip39_path Bip44SolanaSlip10Ed25519V1
          (solana_path account @ ''/'' @ show_u32 PETAL_BRANCH @ [apos] @ ''/'' @ show_u32 index @ [apos])
        = Inr (account, index))
   \<and> parse_bip39_path Bip44EvmSecp256k1V1
       (''m/44'' @ [apos] @ ''/60'' @ [apos] @ ''/+5'' @ [apos] @ ''/0/007'') = Inr (5, 7)"
  using parse_evm_path [of account index] parse_solana_path [of account]
    parse_petal_path [of account index, unfolded petal_path_def] parse_alias by blast

theorem bip39_path_roundtrip_witness:
  "parse_bip39_path Bip44SolanaSlip10Ed25519V1 (solana_path 3) = Inr (3, 0)
   \<and> parse_bip39_path Bip44SolanaSlip10Ed25519V1
       (solana_path 3 @ ''/'' @ show_u32 PETAL_BRANCH @ [apos] @ ''/'' @ show_u32 9 @ [apos]) = Inr (3, 9)"
  using bip39_path_roundtrip [of 3 9] by simp

end
