(* ===== verification/Local_Sample.thy ===== *)
theory Local_Sample
  imports Local_Properties
begin

text \<open>
  A concrete instance of the local backend's primitives and a small wallet on it: a BIP-39 wallet with one
  registered child and two namespaces that share a prefix. The properties of the backend
  are applied to it. The instance's hash is the identity, so its locators do not collide.
\<close>

definition hex_digit :: "nat \<Rightarrow> char" where
  "hex_digit n = (if n < 10 then char_of (48 + n) else char_of (87 + n))"

definition hex_encode :: "bytes \<Rightarrow> string" where
  "hex_encode bs = concat (map (\<lambda>b. [hex_digit (unat b div 16), hex_digit (unat b mod 16)]) bs)"

lemma of_char_hex_digit: "n < 16 \<Longrightarrow> (of_char (hex_digit n) :: nat) = (if n < 10 then 48 + n else 87 + n)"
  by (simp add: hex_digit_def)

lemma hex_digit_inject:
  assumes "m < 16" "n < 16"
  shows "hex_digit m = hex_digit n \<longleftrightarrow> m = n"
proof
  assume "hex_digit m = hex_digit n"
  then have "(of_char (hex_digit m) :: nat) = of_char (hex_digit n)" by simp
  then have "(if m < 10 then 48 + m else 87 + m) = (if n < 10 then 48 + n else 87 + n)"
    unfolding of_char_hex_digit [OF assms(1)] of_char_hex_digit [OF assms(2)] .
  then show "m = n" by (simp split: if_splits)
qed simp

lemma hex_digit_not_colon: "n < 16 \<Longrightarrow> hex_digit n \<noteq> CHR '':''"
  using of_char_hex_digit [of n] by (auto split: if_splits)

lemma byte_nibbles: "unat (b :: u8) div 16 < 16"
  using unat_lt_power [of b] by simp

lemma hex_encode_Cons:
  "hex_encode (b # bs) = hex_digit (unat b div 16) # hex_digit (unat b mod 16) # hex_encode bs"
  by (simp add: hex_encode_def)

lemma hex_encode_inject: "hex_encode xs = hex_encode ys \<longleftrightarrow> xs = ys"
proof (induction xs arbitrary: ys)
  case Nil
  then show ?case by (cases ys) (simp_all add: hex_encode_Cons hex_encode_def)
next
  case (Cons x xs)
  show ?case
  proof (cases ys)
    case Nil
    then show ?thesis by (simp add: hex_encode_Cons) (simp add: hex_encode_def)
  next
    case (Cons y zs)
    have "unat x = unat y" if "unat x div 16 = unat y div 16" "unat x mod 16 = unat y mod 16"
      using that by (metis div_mult_mod_eq)
    then show ?thesis
      by (auto simp: hex_encode_Cons Cons Cons.IH hex_digit_inject byte_nibbles word_unat_eq_iff)
  qed
qed

lemma hex_encode_no_colon: "CHR '':'' \<notin> set (hex_encode bs)"
  using hex_digit_not_colon byte_nibbles
  by (induction bs) (auto simp: hex_encode_Cons hex_encode_def dest: sym)

definition sample_derive :: derive_prims where
  "sample_derive =
     \<lparr>d_hmac_sha512 = (\<lambda>_ _. replicate 64 1), d_sha256 = (\<lambda>b. b), d_scalar_reduce = (\<lambda>n. n),
      d_scalar_add = (+), d_secp_compressed = (\<lambda>b. b), d_secp_spki = (\<lambda>b. b), d_ed_public = (\<lambda>b. b)\<rparr>"

definition sample_local :: "(bytes, string) local_prims" where
  "sample_local =
     \<lparr>lc_prims = sample_prims\<lparr>p_sha256 := hex_encode\<rparr>, lc_derive = sample_derive,
      lc_bip39 = \<lparr>b_nfkd = (\<lambda>s. s), b_parse = (\<lambda>_. Inr []), b_from_entropy = Inr, b_to_string = (\<lambda>_. []),
                  b_to_entropy = (\<lambda>m. m), b_to_seed = (\<lambda>m. m)\<rparr>,
      lc_encrypt = (\<lambda>_ _ _ m. Some m), lc_decrypt = (\<lambda>_ _ _ c. Some c), lc_parse_path = Some,
      lc_show_path = (\<lambda>p. p), lc_derive_path = (\<lambda>seed _. Some seed), lc_signing_key = Some,
      lc_secp_spki = Some, lc_sign_recoverable = (\<lambda>key _. (key, 0)), lc_ed_sign = (\<lambda>key _. key),
      lc_ed_public = (\<lambda>key. key), lc_verify_strict = (\<lambda>_ _ _. True), lc_verifying_key_ok = (\<lambda>_. True),
      lc_hex = hex_encode, lc_digest32 = hex_encode, lc_digest_bytes = str_bytes, lc_operation_id_ok = (\<lambda>_. True)\<rparr>"

lemma sample_laws: "local_laws sample_local"
  by (simp add: local_laws_def sample_local_def sample_derive_def hex_encode_no_colon)

lemma sample_no_collision: "\<not> locator_collision sample_local"
  by (simp add: locator_collision_def sample_local_def sample_derive_def hex_encode_inject)

lemma sample_sound: "local_sound sample_local"
  by (simp add: local_sound_def sample_laws sample_no_collision)

lemmas sample_fields = sample_local_def sample_derive_def

definition sample_backup :: local_backup where
  "sample_backup = fresh_backup ''w'' MatBip39Entropy (replicate 24 0) (replicate 16 0) (replicate 32 0)"

definition sample_wallet :: local_state where
  "sample_wallet = fresh_state ''w'' (replicate 32 0) sample_backup"

lemma sample_provision:
  "provision_material sample_local (replicate 24 0) ''w'' ''w'' (replicate 16 0) (replicate 32 0) (replicate 32 0)
     MatBip39Entropy = Inr sample_wallet"
  by (simp add: provision_material_def valid_material_def sample_fields sample_wallet_def sample_backup_def
      fresh_state_def fresh_backup_def)

definition sample_child :: key_ref where
  "sample_child =
     \<lparr>kr_backend = ''local'', kr_backend_instance = ''w'', kr_locator = child_locator sample_local ''w'' ''m/7'',
      kr_key_spec = Secp256k1, kr_fingerprint = hex_encode [],
      kr_derivation = Some (Bip39Multicurve ''w'' Bip44EvmSecp256k1V1 ''m/7'')\<rparr>"

definition sample_description :: key_description where
  "sample_description =
     \<lparr>kd_key_ref = sample_child, kd_spki = [], kd_fingerprint = hex_encode [], kd_suites = secp_suites\<rparr>"

definition registered_wallet :: local_state where
  "registered_wallet =
     sample_wallet\<lparr>ls_backup := Some (sample_backup\<lparr>eb_registry := [sample_child], eb_descriptions := [sample_description]\<rparr>),
       ls_registry := [(kr_locator sample_child, sample_child)]\<rparr>"

lemma sample_register:
  "register_bip39_child_description sample_local disk sample_description None sample_wallet = (registered_wallet, Inr ())"
proof -
  have "p_sha256 (lc_prims sample_local) [] = hex_encode []" by (simp add: sample_fields)
  then show ?thesis
    by (simp add: register_bip39_child_description_def register_child_def Let_def sample_description_def
        is_bip39_child_def sample_child_def commit_backup_def persist_backup_def sample_wallet_def
        sample_backup_def fresh_state_def fresh_backup_def registered_wallet_def)
qed

lemma sample_child_fits: "child_fits sample_local sample_wallet sample_child"
  by (simp add: child_fits_def sample_wallet_def fresh_state_def sample_backup_def fresh_backup_def sample_child_def
      key_fits_def root_matches_def hashed_locator_def key_path_def derivation_path_of_def path_taken_def)

lemma sample_registered_step: "local_step sample_local sample_wallet registered_wallet"
  by (rule step_register_description [OF _ sample_register]) (simp add: sample_description_def sample_child_fits)

lemma sample_local_run: "(local_step sample_local)\<^sup>*\<^sup>* sample_wallet registered_wallet"
  using sample_registered_step by blast

theorem local_backup_restorable_witness:
  "\<exists>b. encrypted_backup registered_wallet = Inr b
     \<and> restore sample_local ''w'' b = Inr (registered_wallet\<lparr>ls_kek := None, ls_storage := None\<rparr>)"
  using local_backup_restorable [OF sample_provision _ _ sample_laws sample_local_run]
    sample_no_collision by simp

definition retired_wallet :: local_state where
  "retired_wallet =
     registered_wallet\<lparr>ls_backup := Some (sample_backup\<lparr>eb_tombstones := [''m/7'']\<rparr>), ls_registry := []\<rparr>"

lemma sample_retire: "retire_bip39_child sample_local disk sample_child registered_wallet = (retired_wallet, Inr ())"
proof -
  have k: "kr_derivation sample_child = Some (Bip39Multicurve ''w'' Bip44EvmSecp256k1V1 ''m/7'')"
    by (simp add: sample_child_def)
  have "kd_key_ref sample_description = sample_child" by (simp add: sample_description_def)
  then show ?thesis
    by (simp add: retire_bip39_child_def k tombstone_path_def registered_wallet_def sample_wallet_def fresh_state_def
        commit_backup_def persist_backup_def Let_def remove_key_def retired_wallet_def bt_remove_def bt_retain_def
        sample_backup_def fresh_backup_def)
qed


theorem imported_key_signs_witness:
  "\<exists>st root. provision_imported_secp256k1 sample_local (replicate 24 0) ''w'' ''r'' (replicate 32 5) (replicate 32 0)
        (replicate 32 0) = Inr st
     \<and> root_key_ref sample_local st = Inr root
     \<and> is_ok (local_sign sample_local st
         \<lparr>bs_provider_attempt = [], bs_key_ref = root, bs_suite = Secp256k1Keccak256Recoverable,
          bs_input = DigestInput (replicate 32 CHR ''0''), bs_deadline_ms = 9\<rparr>)"
proof -
  obtain st where st: "provision_imported_secp256k1 sample_local (replicate 24 0) ''w'' ''r'' (replicate 32 5)
      (replicate 32 0) (replicate 32 0) = Inr st"
    by (simp add: provision_imported_secp256k1_def provision_material_def valid_material_def sample_fields
        root_key_ref_def describe_path_def root_signing_key_def active_seed_def Let_def)
  have law: "lc_decrypt sample_local k n a c = Some m" if "lc_encrypt sample_local k n a m = Some c" for k n a m c
    using that by (simp add: sample_fields)
  from imported_key_signs [OF st length_replicate length_replicate law]
  obtain root where root: "root_key_ref sample_local st = Inr root"
    and sign: "\<And>r digest bytes. bs_key_ref r = root \<Longrightarrow> bs_input r = DigestInput digest
      \<Longrightarrow> bs_suite r \<in> set secp_suites \<Longrightarrow> p_hex_decode (lc_prims sample_local) digest = Some bytes
      \<Longrightarrow> length bytes = 32 \<Longrightarrow> \<exists>s. local_sign sample_local st r = Inr s"
    by blast
  have "p_hex_decode (lc_prims sample_local) (replicate 32 CHR ''0'') = Some (str_bytes (replicate 32 CHR ''0''))"
    by (simp add: sample_fields sample_prims_def)
  then have "\<exists>s. local_sign sample_local st
         \<lparr>bs_provider_attempt = [], bs_key_ref = root, bs_suite = Secp256k1Keccak256Recoverable,
          bs_input = DigestInput (replicate 32 CHR ''0''), bs_deadline_ms = 9\<rparr> = Inr s"
    by (rule sign [rotated 3]) (simp_all add: secp_suites_def str_bytes_def)
  with st root show ?thesis by (auto simp: is_ok_iff)
qed

subsection \<open>Two namespaces with one prefix\<close>

definition sample_grant :: "token \<Rightarrow> derivation_grant" where
  "sample_grant n =
     \<lparr>gr_authority_kind = ''policy'', gr_namespace_id = n, gr_prefix = ''m/1'', gr_starting_index = 0,
      gr_maximum_children = 5\<rparr>"

definition sample_authority :: "token \<Rightarrow> derivation_authority" where
  "sample_authority n =
     \<lparr>au_grant = sample_grant n,
      au_signature = sample_signature (replicate 32 0) (authority_message sample_local (sample_grant n))\<rparr>"

definition sample_namespace :: "token \<Rightarrow> derivation_namespace" where
  "sample_namespace n =
     \<lparr>dn_namespace_id = n, dn_prefix = ''m/1'', dn_next_index = 0, dn_maximum = 5,
      dn_authority = hex_encode (authority_message sample_local (sample_grant n))\<rparr>"

definition wallet_with :: "derivation_namespace list \<Rightarrow> local_state" where
  "wallet_with ns =
     registered_wallet\<lparr>ls_backup := Some (sample_backup\<lparr>eb_registry := [sample_child],
       eb_descriptions := [sample_description], eb_namespaces := ns\<rparr>)\<rparr>"

lemma wallet_with_fields:
  "ls_backup (wallet_with ns) = Some (sample_backup\<lparr>eb_registry := [sample_child],
       eb_descriptions := [sample_description], eb_namespaces := ns\<rparr>)"
  "ls_instance (wallet_with ns) = ''w''" "ls_kek (wallet_with ns) = Some (replicate 32 0)"
  "ls_storage (wallet_with ns) = None"
  by (simp_all add: wallet_with_def registered_wallet_def sample_wallet_def fresh_state_def)

lemma sample_backup_fields:
  "eb_kind sample_backup = MatBip39Entropy" "eb_root_key_id sample_backup = ''w''"
  "eb_nonce sample_backup = replicate 24 0" "eb_encrypted_seed sample_backup = replicate 16 0"
  "eb_authority_key sample_backup = replicate 32 0" "eb_pending sample_backup = []"
  "eb_tombstones sample_backup = []"
  by (simp_all add: sample_backup_def fresh_backup_def)

lemma sample_verifies:
  "verify_derivation_authority sample_local (sample_authority n) (wallet_with ns)
     = Inr (hex_encode (authority_message sample_local (sample_grant n)))"
proof -
  have "gr_authority_kind (sample_grant n) = ''policy''" by (simp add: sample_grant_def)
  moreover have "length (sample_signature k m) = 64" for k m by (simp add: sample_signature_def)
  moreover have "p_verify (lc_prims sample_local) k m s \<longleftrightarrow> s = sample_signature k m"
    "p_sha256 (lc_prims sample_local) = hex_encode" "lc_verifying_key_ok sample_local k" for k m s
    by (simp_all add: sample_local_def sample_prims_def)
  ultimately show ?thesis
    by (simp add: verify_derivation_authority_def sample_authority_def wallet_with_fields sample_backup_fields Let_def)
qed

lemma commit_without_storage:
  "ls_storage st = None \<Longrightarrow> commit_backup L disk b st = (st\<lparr>ls_backup := Some b\<rparr>, Inr ())"
  by (simp add: commit_backup_def persist_backup_def Let_def)

lemma sample_configure:
  assumes "n \<notin> dn_namespace_id ` set ns"
  shows "configure_namespace sample_local disk (sample_authority n) (wallet_with ns)
    = (wallet_with (ns @ [sample_namespace n]), Inr ())"
proof -
  have g: "au_grant (sample_authority n) = sample_grant n" by (simp add: sample_authority_def)
  have prefix: "validate_namespace_prefix sample_local ''m/1'' = Inr ()"
    by (simp add: validate_namespace_prefix_def sample_fields)
  have bound: "\<not> saturating_add (0 :: u64) 5 > 0x80000000"
    by (simp add: saturating_add_def checked_add_def)
  have new: "find (\<lambda>m. dn_namespace_id m = n) ns = None" using assms by (auto simp: find_None_iff)
  have mem: "ls_storage registered_wallet = None"
    by (simp add: registered_wallet_def sample_wallet_def fresh_state_def)
  show ?thesis
    using prefix bound new
    by (simp add: configure_namespace_def g sample_verifies wallet_with_fields sample_backup_fields Let_def)
      (simp add: sample_grant_def wallet_with_def sample_namespace_def commit_without_storage mem)
qed

lemma wallet_with_Nil: "wallet_with [] = registered_wallet"
  by (simp add: wallet_with_def registered_wallet_def sample_backup_def fresh_backup_def)

abbreviation two_namespaces :: local_state where
  "two_namespaces \<equiv> wallet_with [sample_namespace ''a'', sample_namespace ''b'']"

lemma sample_two_run: "(local_step sample_local)\<^sup>*\<^sup>* sample_wallet two_namespaces"
proof -
  have "local_step sample_local registered_wallet (wallet_with [sample_namespace ''a''])"
    using step_configure [OF sample_configure [of "''a''" "[]"]] by (simp add: wallet_with_Nil)
  moreover have "local_step sample_local (wallet_with [sample_namespace ''a'']) two_namespaces"
    using step_configure [OF sample_configure [of "''b''" "[sample_namespace ''a'']"]]
    by (simp add: sample_namespace_def)
  ultimately show ?thesis using sample_local_run by (meson rtranclp.rtrancl_into_rtrancl)
qed

lemma sample_two_inv: "local_inv sample_local two_namespaces"
  by (rule local_run_inv(1) [OF sample_two_run provision_inv(1) [OF sample_provision] sample_sound]) simp_all

lemma sample_path: "namespace_child_path sample_child (sample_namespace n) = ''m/1/0''"
  by (simp add: namespace_child_path_def sample_child_def sample_namespace_def show_u64_def show_nat.simps digit_char_def
      char_of_def bit_Suc_0_iff)

definition sample_new :: key_description where
  "sample_new =
     \<lparr>kd_key_ref = \<lparr>kr_backend = ''local'', kr_backend_instance = ''w'',
        kr_locator = child_locator sample_local ''w'' ''m/1/0'', kr_key_spec = Secp256k1,
        kr_fingerprint = hex_encode (replicate 16 0), kr_derivation = Some (Bip32Secp256k1 ''w'' ''m/1/0'')\<rparr>,
      kd_spki = replicate 16 0, kd_fingerprint = hex_encode (replicate 16 0), kd_suites = secp_suites\<rparr>"

lemma sample_describe: "describe_path sample_local two_namespaces ''m/1/0'' = Inr sample_new"
proof -
  have "active_seed sample_local two_namespaces = Inr (replicate 16 0)"
    by (simp add: active_seed_def wallet_with_fields sample_backup_fields sample_fields)
  moreover have "lc_parse_path sample_local p = Some p" "lc_show_path sample_local p = p"
    "lc_derive_path sample_local seed p = Some seed" "lc_secp_spki sample_local seed = Some seed"
    "p_sha256 (lc_prims sample_local) = hex_encode" for p seed
    by (simp_all add: sample_local_def)
  ultimately show ?thesis
    by (simp add: describe_path_def wallet_with_fields sample_backup_fields sample_new_def Let_def)
qed

lemma sample_plan:
  assumes "n = ''a'' \<or> n = ''b''"
  shows "plan_allocation sample_local sample_child n (sample_authority n) (Some ''op'') two_namespaces
    = Inr (FreshChild 0 sample_new)"
proof -
  have root: "kr_key_spec sample_child = Secp256k1" "derivation_path_of sample_child = Some ''m/7''"
    by (simp_all add: sample_child_def derivation_path_of_def)
  have "find (\<lambda>m. dn_namespace_id m = n) [sample_namespace ''a'', sample_namespace ''b''] = Some (sample_namespace n)"
    using assms by (auto simp: sample_namespace_def)
  moreover have "dn_authority (sample_namespace n) = hex_encode (authority_message sample_local (sample_grant n))"
    "dn_next_index (sample_namespace n) = 0" "dn_maximum (sample_namespace n) = 5"
    "gr_namespace_id (au_grant (sample_authority n)) = n"
    by (simp_all add: sample_namespace_def sample_authority_def sample_grant_def)
  ultimately show ?thesis
    by (simp add: plan_allocation_def sample_verifies wallet_with_fields sample_backup_fields valid_parent_def sample_path
        Let_def path_taken_def root describe_new_child_def sample_describe)
qed

theorem allocation_fresh_and_repeatable_witness:
  "\<exists>st'. allocate_derived_key_for_operation sample_local (\<lambda>_ _. True) sample_child ''a'' (sample_authority ''a'') ''op''
         two_namespaces = (st', Inr sample_new)
     \<and> allocate_derived_key_for_operation sample_local (\<lambda>_ _. False) sample_child ''a'' (sample_authority ''a'') ''op'' st'
         = (st', Inr sample_new)"
proof -
  obtain st' where "commit_allocation sample_local (\<lambda>_ _. True) ''a'' 0 sample_new (Some ''op'') two_namespaces
      = (st', Inr sample_new)"
    by (rule commit_in_memory [OF wallet_with_fields(1,4), of "''a''" _ "sample_namespace ''a''"])
      (auto simp: sample_namespace_def)
  then have first: "allocate_derived_key_for_operation sample_local (\<lambda>_ _. True) sample_child ''a'' (sample_authority ''a'')
      ''op'' two_namespaces = (st', Inr sample_new)"
    using sample_plan [of "''a''"] by (simp add: allocate_derived_key_for_operation_def allocate_derived_key_inner_def)
  from allocation_fresh_and_repeatable [OF first sample_two_inv sample_laws wallet_with_fields(1)] first
  show ?thesis by (auto simp: sample_backup_fields)
qed

theorem interleaved_allocations_spoil_backup_witness:
  "\<exists>st1 st2 b.
     commit_allocation sample_local (\<lambda>_ _. True) ''a'' 0 sample_new (Some ''op'') two_namespaces = (st1, Inr sample_new)
     \<and> commit_allocation sample_local (\<lambda>_ _. True) ''b'' 0 sample_new (Some ''op'') st1 = (st2, Inr sample_new)
     \<and> encrypted_backup st2 = Inr b \<and> restore sample_local (ls_instance st2) b = Inl InvalidRequest"
  by (rule interleaved_allocations_spoil_backup [OF sample_plan sample_plan])
    (simp_all add: wallet_with_fields)

end
