(* ===== verification/Local_Service.thy ===== *)
theory Local_Service
  imports Service_Properties Local_Sample
begin

text \<open>
  The service over the local backend: what a sign request that reached the local backend leaves behind. The
  backend's state is the one the request finds; custody is not locked and no key is retired while the
  request is served.
\<close>

lemma local_sign_same_key:
  assumes signed: "local_sign L lst q = Inr s"
    and same: "bs_key_ref q' = bs_key_ref q" "bs_suite q' = bs_suite q" and matches: "input_matches_suite q'"
    and hex: "\<And>d. bs_input q' = DigestInput d \<Longrightarrow> \<exists>b. p_hex_decode (lc_prims L) d = Some b \<and> length b = 32"
    and strict: "\<And>key m. lc_verify_strict L (lc_ed_public L key) m (lc_ed_sign L key m)"
  shows "\<exists>s'. local_sign L lst q' = Inr s'"
proof (cases "bs_suite q = Ed25519Message")
  case True
  then obtain m' where m': "bs_input q' = MessageInput m'"
    using matches same(2) by (auto simp: input_matches_suite_def split: backend_input.splits)
  from signed True obtain key where "derive_ed25519_signing_key L lst (bs_key_ref q) = Inr key"
    by (auto simp: local_sign_def rbind_Inr_iff split: if_splits backend_input.splits)
  with True signed m' matches same strict show ?thesis by (auto simp: local_sign_def Let_def split: if_splits)
next
  case False
  then obtain d where d: "bs_input q' = DigestInput d"
    using matches same(2) by (cases "bs_suite q") (auto simp: input_matches_suite_def split: backend_input.splits)
  from hex [OF d] obtain b where b: "p_hex_decode (lc_prims L) d = Some b" "length b = 32" by blast
  from signed False obtain key where "derive_secp_signing_key L lst (bs_key_ref q) = Inr key"
    by (auto simp: local_sign_def rbind_Inr_iff split: if_splits backend_input.splits)
  with False signed d b matches same show ?thesis by (auto simp: local_sign_def case_prod_beta split: if_splits)
qed

lemma local_sign_acceptable: "local_sign L lst q = Inr s \<Longrightarrow> bs_suite q = sr_suite u \<Longrightarrow> acceptable u s"
  using local_sign_okD(3,4) [of L lst q s] by (simp add: acceptable_def)

lemma local_no_quarantine:
  assumes calls: "\<And>q. q \<in> set calls \<Longrightarrow> bs_key_ref q = sr_key_ref u \<and> bs_suite q = sr_suite u \<and> input_matches_suite q
      \<and> (\<forall>d. bs_input q = DigestInput d \<longrightarrow> (\<exists>b. p_hex_decode (lc_prims L) d = Some b \<and> length b = 32))"
    and strict: "\<And>key m. lc_verify_strict L (lc_ed_public L key) m (lc_ed_sign L key m)"
  shows "\<not> quarantine_cause (local_sign L lst) u True calls"
proof
  assume "quarantine_cause (local_sign L lst) u True calls"
  then obtain qs q where q: "calls = qs @ [q]" "list_all (\<lambda>p. \<exists>s. local_sign L lst p = Inr s \<and> acceptable u s) qs"
    "case local_sign L lst q of Inl be \<Rightarrow> be = IndeterminateAcceptance \<or> \<not> True \<or> qs \<noteq> [] | Inr s \<Rightarrow> \<not> acceptable u s"
    unfolding quarantine_cause_def by blast
  have suite: "bs_suite q = sr_suite u" using calls q(1) by simp
  show False
  proof (cases "local_sign L lst q")
    case (Inl be)
    with local_sign_definitive [of L lst q] q(3) obtain p ps where "qs = p # ps" by (cases qs) (auto simp: definitive_def)
    with q(2) obtain s where "local_sign L lst p = Inr s" "p \<in> set calls" using q(1) by auto
    with local_sign_same_key [OF this(1), of q] calls q(1) strict Inl show False by auto
  next
    case (Inr s)
    with q(3) local_sign_acceptable [OF Inr suite] show False by simp
  qed
qed

text \<open>C31: a request that reached the local backend is settled. The operation ends committed, with one signature per
  ordered hash by a key that is registered and unlocked, or released and refunded, with a definitive error; it never ends
  quarantined, also when the backend refuses. Ordered hashes are 32 bytes of hex, and an Ed25519 signature verifies under
  its own key.\<close>

theorem local_requests_settle:
  assumes inv: "engine_inv P st" and live: "\<not> aud_degraded (en_audit st)" and room: "journal_len st + 4 \<le> 2 ^ 63"
    and jcs: "\<And>j. p_jcs P j \<noteq> []"
    and run: "sign P eval max_step sample decode (local_sign L lst) sv r st = Some (calls, st', res)" and calls: "calls \<noteq> []"
    and hex: "\<And>h. h \<in> set (sr_hashes (req_unsigned r)) \<Longrightarrow> \<exists>b. p_hex_decode (lc_prims L) h = Some b \<and> length b = 32"
    and strict: "\<And>key m. lc_verify_strict L (lc_ed_public L key) m (lc_ed_sign L key m)"
  shows "\<exists>row. find_operation st' (sr_operation_id (req_unsigned r)) = Some row
     \<and> (case res of
          Inr x \<Rightarrow> op_state row = Committed \<and> length (res_signatures x) = length (sr_hashes (req_unsigned r))
            \<and> local_available L lst (sr_key_ref (req_unsigned r)) = Inr True
        | Inl e \<Rightarrow> op_state row = Released \<and> (e = err BackendInvalidRequest \<or> e = err BackendUnsupported))"
proof -
  let ?u = "req_unsigned r"
  from sign_outcome [OF inv live room jcs run calls] obtain row where
    row: "find_operation st' (sr_operation_id ?u) = Some row" and ok: "outcome_ok P (local_sign L lst) (sv_boot_epoch sv) r calls res row"
    by blast
  from ok obtain rest where rest: "map (child_request ?u) (children P (sv_boot_epoch sv) ?u) = calls @ rest"
    and matches: "list_all input_matches_suite calls" by (auto simp: outcome_ok_def)
  have asked: "bs_key_ref q = sr_key_ref ?u \<and> bs_suite q = sr_suite ?u \<and> input_matches_suite q
      \<and> (\<forall>d. bs_input q = DigestInput d \<longrightarrow> d \<in> set (sr_hashes ?u))" if "q \<in> set calls" for q
  proof -
    have "q \<in> set (map (child_request ?u) (children P (sv_boot_epoch sv) ?u))" using that rest by simp
    then obtain c where c: "q = child_request ?u c" "c \<in> set (children P (sv_boot_epoch sv) ?u)" by auto
    have "fst (snd c) \<in> set (sr_hashes ?u)"
      using c(2) set_zip_rightD [of "fst c" "snd c"] set_zip_leftD [of "fst (snd c)" "snd (snd c)"] by force
    moreover have "input_matches_suite q" using that matches by (simp add: list_all_iff)
    ultimately show ?thesis using c(1)
      by (auto simp: child_request_def input_matches_suite_def child_input_def split: crypto_input_kind.splits)
  qed
  show ?thesis
  proof (cases res)
    case (Inl e)
    have "\<not> quarantine_cause (local_sign L lst) ?u True calls"
      using asked hex by (intro local_no_quarantine strict) blast
    with ok Inl obtain q be where "op_state row = Released" "local_sign L lst q = Inl be" "e = map_backend_error be"
      by (auto simp: outcome_ok_def)
    with local_sign_definitive [of L lst q] Inl row show ?thesis by (auto simp: definitive_def)
  next
    case (Inr x)
    with ok obtain ss where ss: "op_state row = Committed" "res_signatures x = map normalize ss"
      "map (local_sign L lst) calls = map Inr ss" "calls = map (child_request ?u) (children P (sv_boot_epoch sv) ?u)"
      by (auto simp: outcome_ok_def)
    have "length (res_signatures x) = length (sr_hashes ?u)" using ss(2) arg_cong [OF ss(3), of length] ss(4) by simp
    moreover obtain q where q: "q \<in> set calls" using calls by (cases calls) auto
    then obtain s where "local_sign L lst q = Inr s" using ss(3) by (metis image_iff image_set list.set_map)
    with local_sign_okD(1,2) [OF this] asked [OF q] have "local_available L lst (sr_key_ref ?u) = Inr True"
      by (simp add: local_available_def)
    ultimately show ?thesis using row ss(1) Inr by simp
  qed
qed

text \<open>The sample request over an unlocked imported key. The instance's hex coding gives every text 32 bytes.\<close>

definition main_local :: "(bytes, string) local_prims" where
  "main_local = sample_local\<lparr>lc_prims := sample_prims\<lparr>p_hex_decode := \<lambda>_. Some (replicate 32 0)\<rparr>\<rparr>"

definition main_wallet :: local_state where
  "main_wallet = fresh_state ''main'' (replicate 32 0)
     ((fresh_backup ''1'' MatImportedSecp256k1Scalar (replicate 24 0) (replicate 32 1) (replicate 32 0))
        \<lparr>eb_pinned_root := Some sample_key_ref\<rparr>)"

lemma main_wallet_answers: "sample_answers (local_sign main_local main_wallet)"
proof -
  have sign: "\<exists>s. local_sign main_local main_wallet q = Inr s"
    if "bs_key_ref q = sample_key_ref" "bs_suite q = Secp256k1Keccak256Recoverable" "bs_input q = DigestInput d" for q d
    using that
    by (simp add: local_sign_def input_matches_suite_def local_capabilities_def secp_suites_def Let_def main_local_def
        derive_secp_signing_key_def root_key_ref_def root_signing_key_def active_seed_def main_wallet_def fresh_state_def
        fresh_backup_def sample_local_def)
  show ?thesis unfolding sample_answers_def
  proof (intro allI ballI)
    fix a c
    let ?q = "child_request (sample_unsigned a) c"
    have q: "bs_key_ref ?q = sample_key_ref" "bs_suite ?q = Secp256k1Keccak256Recoverable"
      "bs_input ?q = DigestInput (fst (snd c))"
      by (simp_all add: child_request_def child_input_def sample_unsigned_simps)
    from sign [OF q] local_sign_acceptable [of main_local main_wallet ?q _ "sample_unsigned a"] q(2)
    show "\<exists>s. local_sign main_local main_wallet ?q = Inr s \<and> acceptable (sample_unsigned a) s"
      by (auto simp: sample_unsigned_simps)
  qed
qed

theorem local_requests_settle_witness:
  "\<exists>calls st x row. sample_sign_with (local_sign main_local main_wallet) (\<lambda>_. None) ''a1'' armed_signer = Some (calls, st, Inr x)
     \<and> find_operation st ''op'' = Some row \<and> op_state row = Committed \<and> length (res_signatures x) = 1
     \<and> local_available main_local main_wallet sample_key_ref = Inr True"
proof -
  obtain calls st x where st: "sample_sign_with (local_sign main_local main_wallet) (\<lambda>_. None) ''a1'' armed_signer
      = Some (calls, st, Inr x)" "calls \<noteq> []" using sample_run [OF main_wallet_answers] by blast
  have room: "journal_len armed_signer + 4 \<le> 2 ^ 63" by (simp add: journal_len_def sample_defs)
  have hex: "\<exists>b. p_hex_decode (lc_prims main_local) h = Some b \<and> length b = 32" for h by (simp add: main_local_def)
  have strict: "lc_verify_strict main_local (lc_ed_public main_local key) m (lc_ed_sign main_local key m)" for key m
    by (simp add: main_local_def sample_local_def)
  from local_requests_settle [OF armed_signer_inv armed_ready(1) room sample_jcs_nonempty st hex strict] st(1) show ?thesis
    by (auto simp: sample_request_def sample_unsigned_simps)
qed

end
