(* ===== verification/Registry_Properties.thy ===== *)
theory Registry_Properties
  imports Registry_Invariant
begin

text \<open>
  The properties of the derivation registry, each applied to a concrete run: well-formedness of all
  reachable states, monotonicity of runs, retries, the lifecycle, account numbers, the listing.
\<close>

subsection \<open>Concrete runs\<close>

text \<open>The recorder and the states the properties are applied to: an allocation is prepared, and then
  committed, given a key and activated.\<close>

lemmas registry_run_simps =
  prepare_allocation_at_def reserve_index_def choose_account_def ensure_namespace_def
  load_allocation_def alloc_key_def ns_key_def live_children_def tombstoned_def commit_or_abort_def
  resolve_canonical_path_def key_spec_for_profile_def advance_counter_def update_rows_def
  insert_allocation_def alloc_conflicts_def append_event_def empty_registry_def
  DEFAULT_NAMESPACE_CAP_def commit_index_def commit_account_def activate_def state_of_def
  allocation_keys_def reservation_of_def transition_def public_of_def transition_payload_of_def Let_def

definition sample_recorder :: "string list recorder" where
  "sample_recorder kind payload log = Inr (log @ [kind])"

definition sample_fp :: digest32 where
  "sample_fp = replicate 63 CHR ''0'' @ ''k''"

definition sample_row :: "alloc_state \<Rightarrow> string option \<Rightarrow> int \<Rightarrow> allocation" where
  "sample_row state key updated =
     \<lparr>al_wallet = ''w'', al_operation = ''op1'', al_profile = PROFILE_EVM, al_role = ''evm-account'',
      al_account = 0, al_index = 0, al_path = evm_path 0 0, al_state = state,
      al_key_spec = ''secp256k1'', al_spki = key, al_fingerprint = map_option (\<lambda>_. sample_fp) key,
      al_authority_committed = False, al_created = 5, al_updated = updated\<rparr>"

definition sample_registry :: "allocation \<Rightarrow> derivation_event list \<Rightarrow> registry" where
  "sample_registry row events =
     \<lparr>reg_namespaces = [\<lparr>ns_wallet = ''w'', ns_profile = PROFILE_EVM, ns_role = ''evm-account'',
                          ns_account = 0, ns_next_index = 1, ns_maximum = 100\<rparr>],
      reg_allocations = [row], reg_tombstones = [], reg_events = events\<rparr>"

fun sample_event :: "digest32 \<Rightarrow> alloc_state option \<Rightarrow> alloc_state \<Rightarrow> int \<Rightarrow> derivation_event" where
  "sample_event previous from to at =
     \<lparr>ev_wallet = ''w'', ev_operation = ''op1'', ev_from = map_option state_str from,
      ev_to = state_str to, ev_previous_hash = previous,
      ev_entry_hash = p_sha256 sample_prims
        (event_preimage ''w'' ''op1'' (map_option state_str from) (state_str to) previous),
      ev_recorded = at\<rparr>"

definition sample_events :: "derivation_event list" where
  "sample_events =
     (let e1 = sample_event genesis_hash None PREPARED 5;
          e2 = sample_event (ev_entry_hash e1) (Some PREPARED) INDEX_COMMITTED 6;
          e3 = sample_event (ev_entry_hash e2) (Some INDEX_COMMITTED) ACCOUNT_COMMITTED 7;
          e4 = sample_event (ev_entry_hash e3) (Some ACCOUNT_COMMITTED) ACTIVATED 8
      in [e1, e2, e3, e4])"

definition sample_prepared :: "string list rstate" where
  "sample_prepared = (sample_registry (sample_row PREPARED None 5) (take 1 sample_events),
     [''derivation.prepared''])"

definition sample_active :: "string list rstate" where
  "sample_active = (sample_registry (sample_row ACTIVATED (Some ''k'') 8) sample_events,
     [''derivation.prepared'', ''derivation.index_committed'', ''derivation.account_committed'',
      ''derivation.activated''])"

lemmas sample_tables = sample_prepared_def sample_active_def sample_registry_def sample_row_def

lemma sample_key:
  "p_hex_decode sample_prims ''k'' = Some (str_bytes ''k'')"
  "p_sha256 sample_prims (str_bytes ''k'') = sample_fp"
  by code_simp+

lemma sample_prepare_eq:
  "prepare_allocation_at sample_prims sample_recorder ''w'' PROFILE_EVM
     ''evm-account'' (Some 0) (Some 0) ''op1'' (\<lambda>_ _. False) 5 (empty_registry, [])
     = Some (sample_prepared, Inr \<lparr>rv_operation = ''op1'', rv_profile = PROFILE_EVM,
         rv_role = ''evm-account'', rv_account = 0, rv_index = 0, rv_path = evm_path 0 0,
         rv_state = PREPARED\<rparr>)"
  by (simp add: sample_tables sample_events_def last_event_hash_def sample_recorder_def registry_run_simps)

lemma reg_step_fst:
  "reg_step P audit st (fst (commit_index P audit w op now st))"
  "reg_step P audit st (fst (commit_account P audit w op spki fp now st))"
  "reg_step P audit st (fst (activate P audit w op now st))"
  by (rule step_commit_index step_commit_account step_activate, rule surjective_pairing)+

lemma sample_active_eq:
  "sample_active =
     fst (activate sample_prims sample_recorder ''w'' ''op1'' 8
       (fst (commit_account sample_prims sample_recorder ''w'' ''op1'' ''k'' sample_fp 7
         (fst (commit_index sample_prims sample_recorder ''w'' ''op1'' 6 sample_prepared)))))"
proof -
  let ?st2 = "(sample_registry (sample_row INDEX_COMMITTED None 6) (take 2 sample_events),
     [''derivation.prepared'', ''derivation.index_committed''])"
  let ?st3 = "(sample_registry (sample_row ACCOUNT_COMMITTED (Some ''k'') 7) (take 3 sample_events),
     [''derivation.prepared'', ''derivation.index_committed'', ''derivation.account_committed''])"
  have "fst (commit_index sample_prims sample_recorder ''w'' ''op1'' 6 sample_prepared) = ?st2"
    by (simp add: sample_tables sample_events_def last_event_hash_def sample_recorder_def registry_run_simps)
  moreover have "fst (commit_account sample_prims sample_recorder ''w'' ''op1'' ''k'' sample_fp 7 ?st2) = ?st3"
    by (simp add: sample_tables sample_events_def last_event_hash_def sample_recorder_def registry_run_simps
        sample_key)
  moreover have "fst (activate sample_prims sample_recorder ''w'' ''op1'' 8 ?st3) = sample_active"
    by (simp add: sample_tables sample_events_def last_event_hash_def sample_recorder_def registry_run_simps)
  ultimately show ?thesis by simp
qed

lemma sample_active_run: "(reg_step sample_prims sample_recorder)\<^sup>*\<^sup>* sample_prepared sample_active"
  unfolding sample_active_eq
  by (rule rtranclp.rtrancl_into_rtrancl, rule rtranclp.rtrancl_into_rtrancl, rule r_into_rtranclp)
    (rule reg_step_fst)+

lemma sample_prepared_run:
  "(reg_step sample_prims sample_recorder)\<^sup>*\<^sup>* (empty_registry, []) sample_prepared"
  by (rule r_into_rtranclp) (rule step_prepare [OF sample_prepare_eq])

subsection \<open>Properties\<close>

text \<open>C22: every state reached from the empty registry by public operations, with any audit
  recorder, is well formed: no operation or canonical path is used twice in a wallet, each row
  carries its profile's canonical path and key algorithm, lies below the counter of its namespace and
  under its cap, has a matching public key from ACCOUNT\_COMMITTED on and a tombstone once
  TOMBSTONED, and the event chain verifies.\<close>

theorem registry_invariant_reachable:
  assumes "(reg_step P audit)\<^sup>*\<^sup>* (empty_registry, aud) st"
  shows "reg_inv P (fst st)"
  using registry_run.run_inv [OF assms] reg_inv_empty by simp

theorem registry_invariant_reachable_witness:
  "reg_inv sample_prims (fst sample_active)
   \<and> map al_state (reg_allocations (fst sample_active)) = [ACTIVATED]"
  using registry_invariant_reachable [OF rtranclp_trans [OF sample_prepared_run sample_active_run]]
    by (simp add: sample_tables)

text \<open>C23: nothing is forgotten or handed out twice. Between any two states of a run every allocation
  keeps its keys and moves forward only, its public key is fixed from ACCOUNT\_COMMITTED on;
  counters never go down, tombstones and events are only added; and a row that is new does not use
  an index tombstoned before, nor the path of an earlier row of its wallet and profile.\<close>

theorem registry_run_monotone:
  assumes inv: "reg_inv P (fst st)" and run: "(reg_step P audit)\<^sup>*\<^sup>* st st'"
  shows "reg_grows (fst st) (fst st')
    \<and> (\<forall>a\<in>set (reg_allocations (fst st)). \<forall>b\<in>set (reg_allocations (fst st')).
         al_wallet a = al_wallet b \<and> al_profile a = al_profile b \<and> al_path a = al_path b
         \<longrightarrow> row_grows a b)"
proof (intro conjI ballI impI)
  show g: "reg_grows (fst st) (fst st')" using registry_run.run_grows [OF run] inv by simp
  fix a b assume a: "a \<in> set (reg_allocations (fst st))" and b: "b \<in> set (reg_allocations (fst st'))"
    and eq: "al_wallet a = al_wallet b \<and> al_profile a = al_profile b \<and> al_path a = al_path b"
  from g a obtain c where c: "c \<in> set (reg_allocations (fst st'))" "row_grows a c"
    by (auto simp: reg_grows_def)
  with eq have "alloc_clash c b" by (simp add: alloc_clash_def row_grows_def same_keys_def)
  with registry_run.run_inv [OF run inv] b c(1) have "c = b"
    by (auto simp: reg_inv_def dest: no_clash_nth)
  with c(2) show "row_grows a b" by simp
qed

theorem registry_run_monotone_witness:
  "reg_grows (fst sample_prepared) (fst sample_active)
   \<and> length (reg_events (fst sample_prepared)) = 1 \<and> length (reg_events (fst sample_active)) = 4"
proof (intro conjI)
  have inv: "reg_inv sample_prims (fst sample_prepared)"
    using registry_run.run_inv [OF sample_prepared_run] reg_inv_empty by simp
  show "reg_grows (fst sample_prepared) (fst sample_active)"
    using registry_run_monotone [OF inv sample_active_run] by blast
qed (simp_all add: sample_tables sample_events_def Let_def)

text \<open>A retried \<open>prepare_allocation_at\<close> is answered with the first reservation. Whatever ran in
  between, the same wallet, profile, role, target and operation give the same account, index and path,
  in the allocation's current state, and the registry and the audit trail do not change.\<close>

theorem prepare_retry_returns_reservation:
  assumes inv: "reg_inv P s"
    and first: "prepare_allocation_at P audit w p r req target op invalid now (s, aud) = Some (st1, Inr rv)"
    and fresh: "load_allocation s w op = None"
    and run: "(reg_step P audit)\<^sup>*\<^sup>* st1 st2"
  shows "\<exists>state. prepare_allocation_at P audit w p r req target op invalid' now' st2
                  = Some (st2, Inr (rv\<lparr>rv_state := state\<rparr>))"
proof -
  from prepared_row [OF first fresh] obtain a where a: "load_allocation (fst st1) w op = Some a"
    "allocation_matches p r req target a" "al_account a = unat (rv_account rv)" "al_index a = unat (rv_index rv)"
    and rv: "rv_operation rv = op" "rv_profile rv = p" "rv_role rv = r" "rv_path rv = al_path a" by blast
  have "reg_inv P (fst st1)"
    using prepare_allocation_at_safe [OF inv first] by (simp add: safe_step_def)
  from load_after_run [OF this run a(1)] obtain b where
    b: "load_allocation (fst st2) w op = Some b" "same_keys a b" by (auto simp: row_grows_def)
  obtain s2 aud2 where st2: "st2 = (s2, aud2)" by (cases st2)
  have m: "allocation_matches p r req target b"
    using a(2) b(2) by (auto simp: allocation_matches_def same_keys_def split: option.splits)
  have nums: "as_u32 (al_account b) = rv_account rv" "as_u32 (al_index b) = rv_index rv"
    using a(3,4) b(2) by (metis as_u32_unat same_keys_def)+
  have "al_profile b = p" "al_role b = r" using m by (simp_all add: allocation_matches_def)
  then have res: "reservation_of s2 w op = Inr (rv\<lparr>rv_state := al_state b\<rparr>)"
    using b rv nums by (cases rv) (simp add: reservation_of_def st2 same_keys_def)
  have "\<not> (case req of Some n \<Rightarrow> n \<ge> 2 ^ 31 | None \<Rightarrow> False)"
    "\<not> (case target of Some i \<Rightarrow> i \<ge> 2 ^ 31 | None \<Rightarrow> False)" "\<not> (target \<noteq> None \<and> p \<noteq> PROFILE_EVM)"
    using first by (auto simp: prepare_allocation_at_def split: if_splits option.splits)
  then have "prepare_allocation_at P audit w p r req target op invalid' now' (s2, aud2)
      = Some ((s2, aud2), Inr (rv\<lparr>rv_state := al_state b\<rparr>))"
    using b(1) m res by (simp add: prepare_allocation_at_def st2)
  then show ?thesis unfolding st2 by blast
qed

theorem prepare_retry_returns_reservation_witness:
  "\<exists>state. prepare_allocation_at sample_prims sample_recorder ''w'' PROFILE_EVM ''evm-account''
      (Some 0) (Some 0) ''op1'' (\<lambda>_ _. True) 9 sample_active
    = Some (sample_active, Inr \<lparr>rv_operation = ''op1'', rv_profile = PROFILE_EVM,
         rv_role = ''evm-account'', rv_account = 0, rv_index = 0, rv_path = evm_path 0 0,
         rv_state = state\<rparr>)"
  using prepare_retry_returns_reservation [OF reg_inv_empty sample_prepare_eq _ sample_active_run]
  by (simp add: load_allocation_def empty_registry_def)

text \<open>The lifecycle completes. From a PREPARED allocation of a well-formed registry, with a
  recorder that accepts, \<open>commit_index\<close>, \<open>commit_account\<close> with a key whose fingerprint is the
  digest of its DER bytes, and \<open>activate\<close> succeed one after another and return the public
  account with the reserved path and the committed key, which the public listing then contains.\<close>

theorem lifecycle_completes:
  assumes inv: "reg_inv P s" and load: "load_allocation s w op = Some a" and prep: "al_state a = PREPARED"
    and key: "p_hex_decode P spki = Some der" "p_sha256 P der = fp"
    and rec: "\<And>kind p x. audit kind p x = Inr (g kind p x)"
  shows "\<exists>st1 st2 st3 r1 r2 acct.
      commit_index P audit w op now1 (s, aud) = (st1, Inr r1)
    \<and> commit_account P audit w op spki fp now2 st1 = (st2, Inr r2)
    \<and> activate P audit w op now3 st2 = (st3, Inr acct)
    \<and> pa_path acct = al_path a \<and> pa_spki acct = spki \<and> pa_fingerprint acct = fp
    \<and> pa_lifecycle acct = ACTIVATED
    \<and> public_of (fst st3) w op = Inr acct"
proof -
  have key_of: "al_wallet a = w" "al_operation a = op" using load_allocation_SomeD [OF load] by auto
  from transition_at [OF inv load prep, of INDEX_COMMITTED now1] obtain t1 where
    t1: "transition P w op PREPARED INDEX_COMMITTED now1 s = Inr t1"
    and l1: "load_allocation t1 w op = Some (a\<lparr>al_state := INDEX_COMMITTED, al_updated := sint now1\<rparr>)"
    by blast
  have i1: "reg_inv P t1" using transition_safe [OF inv t1] by (simp add: safe_step_def)
  obtain aud1 r1 where c1: "commit_index P audit w op now1 (s, aud) = ((t1, aud1), Inr r1)"
    using load prep t1 l1 rec
    by (simp add: commit_index_def commit_or_abort_def state_of_def allocation_keys_def reservation_of_def)
  let ?t2 = "append_event P w op (Some INDEX_COMMITTED) ACCOUNT_COMMITTED now2
      (t1\<lparr>reg_allocations := update_rows (\<lambda>a. alloc_key w op a \<and> al_state a = INDEX_COMMITTED)
       (\<lambda>a. a\<lparr>al_state := ACCOUNT_COMMITTED, al_spki := Some spki,
               al_fingerprint := Some fp, al_updated := sint now2\<rparr>) (reg_allocations t1)\<rparr>)"
  have l2: "load_allocation ?t2 w op = Some (a\<lparr>al_state := ACCOUNT_COMMITTED, al_spki := Some spki,
       al_fingerprint := Some fp, al_updated := sint now2\<rparr>)"
    using l1 key_of by (simp add: load_update_rows alloc_key_def)
  have i2: "reg_inv P ?t2" using commit_account_row_safe [OF i1 key(1)] key(2) by (simp add: safe_step_def)
  obtain aud2 r2 where c2: "commit_account P audit w op spki fp now2 (t1, aud1) = ((?t2, aud2), Inr r2)"
    using l1 l2 one_hit [OF i1 l1, of INDEX_COMMITTED] key rec
    by (simp add: commit_account_def commit_or_abort_def state_of_def allocation_keys_def reservation_of_def Let_def)
  from transition_at [OF i2 l2, of ACCOUNT_COMMITTED ACTIVATED now3] obtain t3 where
    t3: "transition P w op ACCOUNT_COMMITTED ACTIVATED now3 ?t2 = Inr t3"
    and l3: "load_allocation t3 w op = Some (a\<lparr>al_state := ACTIVATED, al_spki := Some spki,
       al_fingerprint := Some fp, al_updated := sint now3\<rparr>)" by auto
  obtain aud3 acct where "activate P audit w op now3 (?t2, aud2) = ((t3, aud3), Inr acct)"
    "public_of t3 w op = Inr acct" "pa_path acct = al_path a" "pa_spki acct = spki"
    "pa_fingerprint acct = fp" "pa_lifecycle acct = ACTIVATED"
    using l2 l3 t3 rec
    by (simp add: activate_def commit_or_abort_def state_of_def allocation_keys_def public_of_def)
  with c1 c2 show ?thesis by (intro exI conjI) (assumption | simp)+
qed

theorem lifecycle_completes_witness:
  "\<exists>st1 st2 st3 r1 r2 acct.
      commit_index sample_prims sample_recorder ''w'' ''op1'' 6 sample_prepared = (st1, Inr r1)
    \<and> commit_account sample_prims sample_recorder ''w'' ''op1'' ''k'' sample_fp 7 st1 = (st2, Inr r2)
    \<and> activate sample_prims sample_recorder ''w'' ''op1'' 8 st2 = (st3, Inr acct)
    \<and> pa_path acct = evm_path 0 0 \<and> pa_spki acct = ''k''"
proof -
  have inv: "reg_inv sample_prims (fst sample_prepared)"
    using registry_run.run_inv [OF sample_prepared_run] reg_inv_empty by simp
  from prepared_row [OF sample_prepare_eq] obtain a where
    a: "load_allocation (fst sample_prepared) ''w'' ''op1'' = Some a" "al_state a = PREPARED"
      "al_path a = evm_path 0 0"
    by (auto simp: load_allocation_def empty_registry_def)
  show ?thesis
    using lifecycle_completes [OF inv a(1,2) sample_key, of sample_recorder
        "\<lambda>kind p x. x @ [kind]" 6 "snd sample_prepared" 7 8] a(3)
    by (fastforce simp: sample_recorder_def)
qed

text \<open>The account number \<open>next_account_number\<close> proposes is below \<open>2^31\<close>, above every Solana account
  of the wallet, and usable at once: a targeted EVM allocation of that index under any role
  with room in its namespace reserves exactly it.\<close>

theorem next_account_number_usable:
  assumes inv: "reg_inv P s" and n: "next_account_number s w = Inr n"
    and fresh: "load_allocation s w op = None" and valid: "\<not> invalid 0 n"
    and room: "\<And>ns. ns \<in> set (reg_namespaces s) \<Longrightarrow> ns_key w PROFILE_EVM r 0 ns
        \<Longrightarrow> live_children s w PROFILE_EVM r 0 < ns_maximum ns"
    and rec: "\<And>p. \<exists>a'. audit ''derivation.prepared'' p aud = Inr a'"
  shows "(\<forall>a\<in>set (reg_allocations s). al_wallet a = w \<and> al_profile a = PROFILE_SOLANA
            \<longrightarrow> al_account a < unat n)
    \<and> (\<exists>st'. prepare_allocation_at P audit w PROFILE_EVM r (Some 0) (Some n) op invalid now (s, aud)
         = Some (st', Inr \<lparr>rv_operation = op, rv_profile = PROFILE_EVM, rv_role = r, rv_account = 0,
                          rv_index = n, rv_path = evm_path 0 n, rv_state = PREPARED\<rparr>))"
proof
  show "\<forall>a\<in>set (reg_allocations s). al_wallet a = w \<and> al_profile a = PROFILE_SOLANA \<longrightarrow> al_account a < unat n"
    using next_account_number_above(4) [OF n] by blast
  obtain s0 where s0: "ensure_namespace w PROFILE_EVM r 0 s = Inr s0"
    by (cases "ensure_namespace w PROFILE_EVM r 0 s") (simp_all add: ensure_namespace_def split: if_splits)
  from ensure_namespace_found [OF s0] obtain ns where
    ns: "find (ns_key w PROFILE_EVM r 0) (reg_namespaces s0) = Some ns" by auto
  have tables: "reg_allocations s0 = reg_allocations s" "reg_tombstones s0 = reg_tombstones s"
    using ensure_namespace_tables [OF s0] by auto
  have cap: "live_children s0 w PROFILE_EVM r 0 < ns_maximum ns"
  proof -
    have nin: "ns \<in> set (reg_namespaces s0)" "ns_key w PROFILE_EVM r 0 ns"
      using ns by (auto simp: find_Some_iff)
    show ?thesis
    proof (cases "ns \<in> set (reg_namespaces s)")
      case True
      with room nin show ?thesis by (simp add: live_children_def tables)
    next
      case False
      with nin(1) ensure_namespace_cases [OF s0]
      have none: "\<forall>m\<in>set (reg_namespaces s). \<not> ns_key w PROFILE_EVM r 0 m"
        and mx: "ns_maximum ns = DEFAULT_NAMESPACE_CAP" by auto
      have "\<not> (al_wallet a = w \<and> al_profile a = PROFILE_EVM \<and> al_role a = r \<and> al_account a = 0)"
        if "a \<in> set (reg_allocations s)" for a
        using inv_rowD [OF inv that] none unfolding row_counted_def list_ex_iff by metis
      then have "live_children s0 w PROFILE_EVM r 0 = 0"
        by (auto simp: live_children_def tables filter_empty_conv)
      with mx show ?thesis by (simp add: DEFAULT_NAMESPACE_CAP_def)
    qed
  qed
  have alive: "\<not> tombstoned s0 w PROFILE_EVM r 0 (unat n)"
    using next_account_number_above(3) [OF n] by (fastforce simp: tombstoned_def list_ex_iff ts_key_def tables)
  have "\<exists>st'. reserve_index P audit w PROFILE_EVM r 0 (Some n) op now (as_u32 (ns_next_index ns)) n [] s0 aud
     = Inr (st', \<lparr>rv_operation = op, rv_profile = PROFILE_EVM, rv_role = r, rv_account = 0,
                 rv_index = n, rv_path = evm_path 0 n, rv_state = PREPARED\<rparr>)"
    by (rule evm_reserve_ok)
      (use next_account_number_path_free [OF inv n] fresh rec in \<open>auto simp: tables load_allocation_def\<close>)
  then obtain st' where "reserve_index P audit w PROFILE_EVM r 0 (Some n) op now
      (as_u32 (ns_next_index ns)) n [] s0 aud
     = Inr (st', \<lparr>rv_operation = op, rv_profile = PROFILE_EVM, rv_role = r, rv_account = 0,
                 rv_index = n, rv_path = evm_path 0 n, rv_state = PREPARED\<rparr>)" by blast
  moreover have "\<not> (n \<ge> 2 ^ 31)" using next_account_number_above(1) [OF n] by (simp add: word_le_nat_alt)
  ultimately show "\<exists>st'. prepare_allocation_at P audit w PROFILE_EVM r (Some 0) (Some n) op invalid now (s, aud)
         = Some (st', Inr \<lparr>rv_operation = op, rv_profile = PROFILE_EVM, rv_role = r, rv_account = 0,
                          rv_index = n, rv_path = evm_path 0 n, rv_state = PREPARED\<rparr>)"
    using fresh s0 ns cap alive valid
    by (simp add: prepare_allocation_at_def choose_account_def commit_or_abort_def Let_def not_le)
qed

theorem next_account_number_usable_witness:
  "next_account_number (fst sample_active) ''w'' = Inr 1
   \<and> (\<exists>st'. prepare_allocation_at sample_prims sample_recorder ''w'' PROFILE_EVM ''evm-account''
        (Some 0) (Some 1) ''op2'' (\<lambda>_ _. False) 9 (fst sample_active, [])
      = Some (st', Inr \<lparr>rv_operation = ''op2'', rv_profile = PROFILE_EVM, rv_role = ''evm-account'',
                       rv_account = 0, rv_index = 1, rv_path = evm_path 0 1, rv_state = PREPARED\<rparr>))"
proof
  show n: "next_account_number (fst sample_active) ''w'' = Inr 1"
    by (simp add: next_account_number_def evm_next_indices_def evm_tombstoned_indices_def
        solana_accounts_def max_of_def sample_tables)
  have inv: "reg_inv sample_prims (fst sample_active)"
    using registry_run.run_inv [OF rtranclp_trans [OF sample_prepared_run sample_active_run]] reg_inv_empty
    by simp
  have "load_allocation (fst sample_active) ''w'' ''op2'' = None"
    "\<And>ns. ns \<in> set (reg_namespaces (fst sample_active)) \<Longrightarrow> ns_key ''w'' PROFILE_EVM ''evm-account'' 0 ns
        \<Longrightarrow> live_children (fst sample_active) ''w'' PROFILE_EVM ''evm-account'' 0 < ns_maximum ns"
    by (simp_all add: sample_tables load_allocation_def alloc_key_def live_children_def)
  then show "\<exists>st'. prepare_allocation_at sample_prims sample_recorder ''w'' PROFILE_EVM ''evm-account''
        (Some 0) (Some 1) ''op2'' (\<lambda>_ _. False) 9 (fst sample_active, [])
      = Some (st', Inr \<lparr>rv_operation = ''op2'', rv_profile = PROFILE_EVM, rv_role = ''evm-account'',
                       rv_account = 0, rv_index = 1, rv_path = evm_path 0 1, rv_state = PREPARED\<rparr>)"
    using next_account_number_usable [OF inv n, of "''op2''" "\<lambda>_ _. False" "''evm-account''" sample_recorder]
    by (simp add: sample_recorder_def)
qed

text \<open>The public listing of a well-formed registry never fails; it holds one entry for each
  ACTIVATED or RETIRED allocation of the wallet and no other, and each
  entry's fingerprint is the digest of the DER bytes it publishes.\<close>

theorem public_accounts_listing:
  assumes inv: "reg_inv P s"
  shows "\<exists>accts. public_accounts s w = Inr accts
    \<and> set (map pa_operation accts) = {al_operation a |a. a \<in> set (reg_allocations s) \<and> al_wallet a = w
           \<and> (al_state a = ACTIVATED \<or> al_state a = RETIRED)}
    \<and> distinct (map pa_operation accts)
    \<and> (\<forall>p\<in>set accts. \<exists>a der. load_allocation s w (pa_operation p) = Some a \<and> pa_path p = al_path a
           \<and> pa_lifecycle p = al_state a
           \<and> p_hex_decode P (pa_spki p) = Some der \<and> pa_fingerprint p = p_sha256 P der)"
proof -
  let ?rows = "sort_key al_created (sort_key al_operation
          (filter (\<lambda>a. al_wallet a = w \<and> al_state a \<in> {ACTIVATED, RETIRED}) (reg_allocations s)))"
  have rows: "\<exists>spki der. al_spki a = Some spki \<and> p_hex_decode P spki = Some der
      \<and> al_fingerprint a = Some (p_sha256 P der) \<and> load_allocation s w (al_operation a) = Some a"
    if "a \<in> set ?rows" for a
  proof -
    from that have a: "a \<in> set (reg_allocations s)" "al_wallet a = w" "has_account (al_state a)"
      by (auto simp: has_account_def)
    with inv_rowD [OF inv a(1)] load_allocation_unique [OF inv a(1)] show ?thesis
      by (auto simp: row_ok_def key_published_def split: option.splits)
  qed
  let ?entry = "\<lambda>a. \<lparr>pa_wallet = w, pa_operation = al_operation a, pa_profile = al_profile a,
      pa_role = al_role a, pa_path = al_path a, pa_account = as_u32 (al_account a),
      pa_index = as_u32 (al_index a), pa_key_spec = al_key_spec a, pa_spki = the (al_spki a),
      pa_fingerprint = the (al_fingerprint a), pa_lifecycle = al_state a\<rparr>"
  have collect: "collect_rows (public_row w) as = Inr (map ?entry as)"
    if "\<forall>a\<in>set as. al_spki a \<noteq> None \<and> al_fingerprint a \<noteq> None" for as
    using that by (induction as) (auto simp: public_row_def)
  have eq: "public_accounts s w = Inr (map ?entry ?rows)"
    unfolding public_accounts_def by (rule collect) (use rows in fastforce)
  have ops: "inj_on al_operation (set ?rows)"
  proof (rule inj_onI)
    fix a b assume ab: "a \<in> set ?rows" "b \<in> set ?rows" "al_operation a = al_operation b"
    have la: "Some a = load_allocation s w (al_operation a)" using rows [OF ab(1)] by metis
    have lb: "load_allocation s w (al_operation b) = Some b" using rows [OF ab(2)] by blast
    have "Some a = Some b" by (rule trans [OF la [unfolded ab(3)] lb])
    then show "a = b" by (rule option.inject [THEN iffD1])
  qed
  have "distinct (reg_allocations s)"
    by (rule no_clash_distinct) (use inv in \<open>simp add: reg_inv_def\<close>)
  then have "distinct ?rows" by simp
  with ops have "distinct (map al_operation ?rows)" by (simp add: distinct_map)
  then have "distinct (map pa_operation (map ?entry ?rows))" by (simp add: comp_def)
  moreover have "set (map pa_operation (map ?entry ?rows)) = {al_operation a |a. a \<in> set (reg_allocations s)
      \<and> al_wallet a = w \<and> (al_state a = ACTIVATED \<or> al_state a = RETIRED)}"
    by auto
  moreover have "\<exists>a der. load_allocation s w (pa_operation p) = Some a \<and> pa_path p = al_path a
           \<and> pa_lifecycle p = al_state a
           \<and> p_hex_decode P (pa_spki p) = Some der \<and> pa_fingerprint p = p_sha256 P der"
    if "p \<in> set (map ?entry ?rows)" for p
  proof -
    from that obtain a where a: "a \<in> set ?rows" "p = ?entry a" by auto
    with rows [OF a(1)] show ?thesis by auto
  qed
  ultimately show ?thesis using eq by blast
qed

theorem public_accounts_listing_witness:
  "\<exists>accts. public_accounts (fst sample_active) ''w'' = Inr accts
     \<and> set (map pa_operation accts) = {''op1''}"
proof -
  have inv: "reg_inv sample_prims (fst sample_active)"
    using registry_run.run_inv [OF rtranclp_trans [OF sample_prepared_run sample_active_run]] reg_inv_empty
    by simp
  have "{al_operation a |a. a \<in> set (reg_allocations (fst sample_active)) \<and> al_wallet a = ''w''
           \<and> (al_state a = ACTIVATED \<or> al_state a = RETIRED)} = {''op1''}"
    by (simp add: sample_tables)
  then show ?thesis using public_accounts_listing [OF inv, of "''w''"] by auto
qed

end
