(* ===== verification/Api_Properties.thy ===== *)
theory Api_Properties
  imports Methods Derive Approval Sign_Request
begin

text \<open>
  The properties of the protocol crate and of derivation: names on the wire, error contracts,
  approval identifiers, payload limits, the index walk and canonical derivation paths.
\<close>

subsection \<open>Names and errors on the wire\<close>

text \<open>What a parser over a closed table returns.\<close>

context string_table
begin

lemma table_parse:
  "(case find (\<lambda>v. as_str v = s) all_variants of None \<Rightarrow> Inl e | Some v \<Rightarrow> Inr v) = Inr x \<longleftrightarrow> as_str x = s"
  "(case find (\<lambda>v. as_str v = s) all_variants of None \<Rightarrow> Inl e | Some v \<Rightarrow> Inr v) = Inl e \<longleftrightarrow> s \<notin> range as_str"
  using find_Some_iff_name [of s] find_None_iff_name [of s] as_str_inject
  by (auto split: option.split)

end

text \<open>The closed tables of the protocol read back exactly what they print. Every error code,
  Broker method and control method is parsed from its own name, and a name is parsed as an entry
  only when it is that entry's name, so an unknown name is always refused.\<close>

theorem wire_names_roundtrip:
  "(code_from_str s = Inr c) = (code_as_str c = s)
   \<and> (method_parse s = Inr m) = (method_as_str m = s)
   \<and> (control_parse s = Inr k) = (control_as_str k = s)
   \<and> (code_from_str s = Inl s) = (s \<notin> range code_as_str)
   \<and> (method_parse s = Inl (err UnknownMethod)) = (s \<notin> range method_as_str)
   \<and> (control_parse s = Inl (err UnknownMethod)) = (s \<notin> range control_as_str)"
  unfolding code_from_str_def method_parse_def control_parse_def ok_or_def
  by (simp only: codes.table_parse methods.table_parse control.table_parse simp_thms)

text \<open>An error's classes cannot be forged. What the program constructs always carries the contract
  of its code and is read back unchanged, whatever the wire crate's code was; a wire error is accepted exactly
  when its retry and durable-effect classes are that contract.\<close>

theorem error_contract_enforced:
  "deserialize_error (new_error code m) = Inr (new_error code m)
   \<and> deserialize_error (from_wire_error w m) = Inr (from_wire_error w m)
   \<and> (deserialize_error e = Inr e') = (e' = e \<and> has_valid_contract e)
   \<and> (is_ok (deserialize_error e) = has_valid_contract e)"
  by (cases "contract (pe_code e)")
    (auto simp: deserialize_error_def new_error_def from_wire_error_def has_valid_contract_def Let_def
      split: if_splits)

subsection \<open>Approval identifiers\<close>

text \<open>C26: an approval's identifier binds its terms. Two different valid terms have different
  identifiers unless the canonical encoding or SHA-256 collides on the two; and only valid terms have one.\<close>

theorem approval_id_binds_terms:
  assumes ids: "approval_id_of P t = Inr d" "approval_id_of P u = Inr e" and ne: "t \<noteq> u"
    and jcs: "p_jcs P (terms_json t) = p_jcs P (terms_json u) \<Longrightarrow> terms_json t = terms_json u"
    and sha: "p_sha256 P (str_bytes APPROVAL_DOMAIN @ p_jcs P (terms_json t))
              = p_sha256 P (str_bytes APPROVAL_DOMAIN @ p_jcs P (terms_json u))
            \<Longrightarrow> str_bytes APPROVAL_DOMAIN @ p_jcs P (terms_json t) = str_bytes APPROVAL_DOMAIN @ p_jcs P (terms_json u)"
  shows "d \<noteq> e \<and> terms_validate t = Inr () \<and> terms_validate u = Inr ()"
proof -
  from ids have d: "d = p_sha256 P (str_bytes APPROVAL_DOMAIN @ p_jcs P (terms_json t))"
    "e = p_sha256 P (str_bytes APPROVAL_DOMAIN @ p_jcs P (terms_json u))"
    "terms_validate t = Inr ()" "terms_validate u = Inr ()"
    by (simp_all add: approval_id_of_ok)
  moreover have "d \<noteq> e"
  proof
    assume "d = e"
    with sha d have "p_jcs P (terms_json t) = p_jcs P (terms_json u)" by simp
    with jcs ne show False by simp
  qed
  ultimately show ?thesis by simp
qed

definition plain_terms :: "token \<Rightarrow> approval_terms" where
  "plain_terms nonce = \<lparr>at_subject = PetalSubject ''pkg'' ''r'' None, at_wallet_id = ''w'',
     at_key_ref = \<lparr>kr_backend = ''local'', kr_backend_instance = ''main'', kr_locator = ''root-1'',
       kr_key_spec = Secp256k1, kr_fingerprint = ''fp'', kr_derivation = None\<rparr>,
     at_suites = [Secp256k1Keccak256Recoverable],
     at_selector = PetalSelector ''pkg'' ''r'' [''pay''] [] MachineAsserted,
     at_limits = \<lparr>max_operations = 3, max_signatures = 5, operation_rate_limits = [], signature_rate_limits = [],
       value_limits = []\<rparr>,
     at_activation_mode = BootBound, at_revocation_epoch = 0, at_policy_version = 1,
     at_policy_digest = ''pd'', at_provenance_digest = ''prov'', at_request_nonce = nonce,
     at_issued_at_ms = 10, at_not_before_ms = 10, at_expires_at_ms = 1000, at_renewal_of = None\<rparr>"

text \<open>An encoding and a hash that tell the two apart.\<close>

definition plain_prims :: prims where
  "plain_prims = \<lparr>p_sha256 = map (\<lambda>b. char_of (unat b)),
     p_jcs = (\<lambda>j. if j = terms_json (plain_terms ''a'') then [1] else [2]),
     p_verify = (\<lambda>_ _ _. True), p_sign = (\<lambda>_ _. []), p_public = (\<lambda>k. k), p_hex_decode = (\<lambda>_. None)\<rparr>"

theorem approval_id_binds_terms_witness:
  "\<exists>d e. approval_id_of plain_prims (plain_terms ''a'') = Inr d \<and> approval_id_of plain_prims (plain_terms ''b'') = Inr e
     \<and> d \<noteq> e"
proof -
  have v: "terms_validate (plain_terms n) = Inr ()" for n
    by (simp add: terms_validate_ok plain_terms_def key_ref_validate_def validate_suites_def validate_limits_def
        subject_selector_ok_def classes_are_canonical_def valid_route_grants_def KEYREF_LOCATOR_MAX_BYTES_def)
  then obtain d e where ids: "approval_id_of plain_prims (plain_terms ''a'') = Inr d"
    "approval_id_of plain_prims (plain_terms ''b'') = Inr e"
    by (simp add: approval_id_of_ok)
  have ne: "plain_terms ''a'' \<noteq> plain_terms ''b''" by (simp add: plain_terms_def)
  then have jcs: "p_jcs plain_prims (terms_json (plain_terms ''a'')) = [1]" "p_jcs plain_prims (terms_json (plain_terms ''b'')) = [2]"
    by (simp_all add: plain_prims_def)
  have "char_of (1::nat) \<noteq> (char_of (2::nat) :: char)" by simp
  then have sha: "p_sha256 plain_prims (x @ [1]) \<noteq> p_sha256 plain_prims (x @ [2])" for x
    by (simp add: plain_prims_def)
  from approval_id_binds_terms [OF ids ne] ids show ?thesis using sha by (auto simp: jcs)
qed

subsection \<open>Payload limits\<close>

text \<open>What the limits of the protocol say, without the loop and its checked additions.\<close>

definition within_limits :: "signing_payloads \<Rightarrow> bool" where
  "within_limits p =
     (case p of
        Single payload \<Rightarrow> length payload \<le> 262144
      | Batch children \<Rightarrow> 1 \<le> length children \<and> length children \<le> 32
          \<and> list_all (\<lambda>c. length c \<le> 65536) children \<and> sum_list (map length children) \<le> 524288)"

lemma batch_aggregate_bounded:
  "unat acc + 65536 * length xs < 2 ^ 64 \<Longrightarrow> batch_aggregate acc xs =
     (if list_all (\<lambda>c. length c \<le> 65536) xs
      then Inr (acc + of_nat (sum_list (map length xs))) else Inl (err LimitExceededFrame))"
proof (induction acc xs rule: batch_aggregate.induct)
  case (2 acc c cs)
  show ?case
  proof (cases "length c \<le> 65536")
    case True
    with "2.prems" have c: "unat (of_nat (length c) :: u64) = length c" by (simp add: unat_of_nat)
    then have ca: "checked_add acc (of_nat (length c)) = Some (acc + of_nat (length c))"
      using "2.prems" True by (simp add: checked_add_def)
    have "unat (acc + of_nat (length c)) = unat acc + length c"
      using checked_add_SomeD [OF ca] c by simp
    with "2.prems" "2.IH" [OF _ ca] True show ?thesis
      by (auto simp: ca algebra_simps BATCH_CHILD_MAX_BYTES_def)
  qed (simp add: BATCH_CHILD_MAX_BYTES_def)
qed simp

text \<open>The payload limits are exactly the protocol's. A payload is accepted when it has at most 256 KiB, a
  batch when it has 1 to 32 children of at most 64 KiB each and 512 KiB in all; anything else is refused with
  \<open>LIMIT_EXCEEDED_FRAME\<close>, and no addition on the way can wrap around.\<close>

theorem payload_limits_exact:
  "payloads_validate p = (if within_limits p then Inr () else Inl (err LimitExceededFrame))"
proof (cases p)
  case (Single b)
  then show ?thesis by (simp add: payloads_validate_def within_limits_def SINGLE_PAYLOAD_MAX_BYTES_def)
next
  case (Batch cs)
  show ?thesis
  proof (cases "1 \<le> length cs \<and> length cs \<le> 32")
    case True
    have le: "sum_list (map length cs) \<le> 65536 * length cs" if "list_all (\<lambda>c. length c \<le> 65536) cs"
      using that by (induction cs) auto
    have agg: "batch_aggregate 0 cs = (if list_all (\<lambda>c. length c \<le> 65536) cs
      then Inr (of_nat (sum_list (map length cs))) else Inl (err LimitExceededFrame))"
      using batch_aggregate_bounded [of 0 cs] True by simp
    have "unat (of_nat (sum_list (map length cs)) :: u64) = sum_list (map length cs)"
      if "list_all (\<lambda>c. length c \<le> 65536) cs"
      using le [OF that] True by (simp add: unat_of_nat)
    with True agg Batch show ?thesis
      by (auto simp: payloads_validate_def within_limits_def BATCH_CHILD_MAX_COUNT_def BATCH_AGGREGATE_MAX_BYTES_def)
  next
    case False
    then have "cs = [] \<or> length cs > BATCH_CHILD_MAX_COUNT" by (cases cs) (auto simp: BATCH_CHILD_MAX_COUNT_def)
    with False Batch show ?thesis by (auto simp: payloads_validate_def within_limits_def)
  qed
qed

subsection \<open>The index walk\<close>

text \<open>The walk over child indices ends, at the least valid index. From any start it returns the
  first index that derives, with every index it skipped as a tombstone, in order and once each; it gives
  none exactly when no index from the start on derives.\<close>

theorem next_valid_index_least:
  "(next_valid_index start invalid = None \<longleftrightarrow> (\<forall>j. start \<le> j \<longrightarrow> invalid j))
   \<and> (next_valid_index start invalid = Some (i, ts) \<longrightarrow>
        start \<le> i \<and> \<not> invalid i \<and> (\<forall>j. start \<le> j \<and> j < i \<longrightarrow> invalid j)
        \<and> set ts = {j. start \<le> j \<and> j < i} \<and> sorted ts \<and> distinct ts)"
proof (intro conjI)
  show "next_valid_index start invalid = None \<longleftrightarrow> (\<forall>j. start \<le> j \<longrightarrow> invalid j)"
  proof
    assume "next_valid_index start invalid = None"
    then show "\<forall>j. start \<le> j \<longrightarrow> invalid j"
      using next_valid_from_total [of start _ invalid "[]"] by (auto simp: next_valid_index_def)
  next
    assume all: "\<forall>j. start \<le> j \<longrightarrow> invalid j"
    show "next_valid_index start invalid = None"
    proof (rule ccontr)
      assume "next_valid_index start invalid \<noteq> None"
      then obtain i us where "next_valid_from invalid start [] = Some (i, us)"
        by (auto simp: next_valid_index_def)
      from next_valid_from_spec [OF this] all show False by blast
    qed
  qed
  show "next_valid_index start invalid = Some (i, ts) \<longrightarrow>
        start \<le> i \<and> \<not> invalid i \<and> (\<forall>j. start \<le> j \<and> j < i \<longrightarrow> invalid j)
        \<and> set ts = {j. start \<le> j \<and> j < i} \<and> sorted ts \<and> distinct ts"
    using next_valid_from_spec [of invalid start "[]" i ts] by (auto simp: next_valid_index_def)
qed

theorem next_valid_index_least_witness:
  "next_valid_index 3 (\<lambda>j. j < 5) = Some (5, [3, 4]) \<and> set [3, 4 :: u32] = {j. 3 \<le> j \<and> j < 5}"
proof -
  have run: "next_valid_index 3 (\<lambda>j. j < 5) = Some (5, [3, 4])"
    by (simp add: next_valid_index_def next_valid_from.simps checked_add_def)
  with next_valid_index_least [of 3 "\<lambda>j. j < 5" 5 "[3, 4]"] show ?thesis by blast
qed

subsection \<open>Derivation paths\<close>

lemma allocated_path_bip32:
  assumes "validate_allocated_path profile p = Inr ()"
  shows "validate_bip32_path p = Inr ()"
proof -
  obtain f cs where p: "split_on CHR ''/'' p = f # cs" by (cases "split_on CHR ''/'' p") (auto simp: split_on_not_Nil)
  from assms have "f = ''m''" by (auto simp: validate_allocated_path_def p split: if_splits)
  moreover from assms have "cs \<noteq> [] \<and> length cs \<le> 10 \<and> (\<forall>c\<in>set cs. bip32_child_ok c)"
    by (cases profile)
      (auto simp: validate_allocated_path_def p result_simps require_ok_child split: if_splits list.splits)
  ultimately show ?thesis by (simp add: validate_bip32_path_def p for_each_ok ensure_Inr_iff)
qed

text \<open>The derivation paths are canonical. For indices below \<open>2^31\<close> the path built for an EVM or
  Solana account passes the check of its profile and the general one of a key reference, and different
  accounts and indices have different paths; any path that passes a profile's check passes the general one.\<close>

theorem derivation_paths_canonical:
  "(a < 2 ^ 31 \<and> i < 2 ^ 31 \<longrightarrow>
      validate_allocated_path Bip44EvmSecp256k1V1 (evm_path a i) = Inr () \<and> validate_bip32_path (evm_path a i) = Inr ()
      \<and> validate_allocated_path Bip44SolanaSlip10Ed25519V1 (solana_path a) = Inr () \<and> validate_bip32_path (solana_path a) = Inr ())
   \<and> (evm_path a i = evm_path b j \<longleftrightarrow> a = b \<and> i = j) \<and> (solana_path a = solana_path b \<longleftrightarrow> a = b)
   \<and> (validate_allocated_path profile p = Inr () \<longrightarrow> validate_bip32_path p = Inr ())"
  using evm_path_valid [of a i] solana_path_valid [of a] allocated_path_bip32 evm_path_inject [of a i b j]
    solana_path_inject [of a b]
  by blast

theorem derivation_paths_canonical_witness:
  "validate_allocated_path Bip44EvmSecp256k1V1 (evm_path 0 7) = Inr () \<and> validate_bip32_path (evm_path 0 7) = Inr ()"
  using conjunct1 [OF derivation_paths_canonical [of 0 7 0 0 Bip44EvmSecp256k1V1 "[]"]] by simp

text \<open>The number parser takes a leading plus sign, as \<open>str::parse\<close> of an unsigned number does, so the
  checks accept segments that no builder prints.\<close>

lemma signed_segment_accepted:
  "parse_child ''+5'' False = Inr 5" "bip32_child_ok ''+5''" "validate_bip32_path ''m/+5'' = Inr ()"
proof -
  have p: "parse_u32 ''+5'' = Some 5"
    by (simp add: parse_u32_def parse_unsigned_def is_ascii_digit_def digit_val_def)
  show "parse_child ''+5'' False = Inr 5"
    by (simp add: parse_child_def strip_suffix_def apos_def p)
  show "bip32_child_ok ''+5''"
    by (simp add: bip32_child_ok_def strip_suffix_def apos_def p)
  then show "validate_bip32_path ''m/+5'' = Inr ()" by (simp add: validate_bip32_path_def)
qed

subsection \<open>Derived keys\<close>

definition hmac_64 :: "derive_prims \<Rightarrow> bool" where
  "hmac_64 D = (\<forall>k m. length (d_hmac_sha512 D k m) = 64)"

text \<open>A node of the tree: a private key that is a nonzero scalar, with its chain code.\<close>

definition node_ok :: "nat \<Rightarrow> bytes \<times> bytes \<Rightarrow> bool" where
  "node_ok n node = (length (fst node) = 32 \<and> length (snd node) = 32 \<and> 0 < be_nat (fst node) \<and> be_nat (fst node) < n)"

lemma child_from_digest_ok:
  assumes "scalar_laws D n" "length digest = 64" "length parent = 32" "child_from_digest D digest parent = Inr node"
  shows "node_ok n node"
proof -
  from assms(4) obtain k where k: "child_key_from_tweak D (take 32 digest) parent = Inr k" "node = (k, drop 32 digest)"
    by (auto simp: child_from_digest_def result_simps)
  let ?s = "(be_nat (take 32 digest) + be_nat parent) mod n"
  have s: "k = be_bytes 32 ?s" "?s \<noteq> 0"
    using k(1) child_key_from_tweak_spec [OF assms(1) _ assms(3), of "take 32 digest" k] assms(2) by auto
  have lt: "?s < n" and "n < 256 ^ 32" using assms(1) by (auto simp: scalar_laws_def)
  then have "?s < 256 ^ 32" by (rule less_trans)
  then have "be_nat k = ?s" unfolding s(1) by (rule be_nat_be_bytes)
  then have "0 < be_nat k" "be_nat k < n" using s(2) lt by (simp_all only: neq0_conv)
  moreover have "length k = 32" "length (drop 32 digest) = 32" using assms(2) by (simp_all add: s(1))
  ultimately show ?thesis unfolding k(2) node_ok_def fst_conv snd_conv by blast
qed

lemma derivation_steps_ok:
  assumes "scalar_laws D n" "hmac_64 D"
  shows "master_secp256k1 D seed = Inr node \<Longrightarrow> node_ok n node"
    "secp_hardened_child D par i = Inr node \<Longrightarrow> node_ok n par \<Longrightarrow> node_ok n node"
    "secp_non_hardened_child D par i = Inr node \<Longrightarrow> node_ok n par \<Longrightarrow> node_ok n node"
proof -
  have len: "length (d_hmac_sha512 D x y) = 64" for x y using assms(2) by (simp add: hmac_64_def)
  note step = child_from_digest_ok [OF assms(1) len]
  show "node_ok n node" if "master_secp256k1 D seed = Inr node"
    using that unfolding master_secp256k1_def
    by (auto intro: step [OF length_replicate] split: if_splits)
  show "node_ok n node" if "secp_hardened_child D par i = Inr node" "node_ok n par"
    using that step unfolding secp_hardened_child_def node_ok_def by (cases par) (simp split: if_splits)
  show "node_ok n node" if "secp_non_hardened_child D par i = Inr node" "node_ok n par"
    using that step unfolding secp_non_hardened_child_def node_ok_def by (cases par) (simp split: if_splits)
qed

text \<open>C40: every derived EVM key is usable. When an account is derived, its private key is a 32-byte nonzero
  scalar below the group order, its chain code has 32 bytes, its path is the canonical one of the
  account and the index, both below \<open>2^31\<close>, and its fingerprint is the digest of its public key, as long as HMAC-SHA512
  has 64 bytes and the scalar arithmetic is that of the integers modulo the group order.\<close>

theorem evm_account_key_valid:
  assumes laws: "scalar_laws D n" and hmac: "hmac_64 D" and run: "derive_evm_account D seed account index = Inr k"
  shows "length (dsec_private_key k) = 32 \<and> 0 < be_nat (dsec_private_key k) \<and> be_nat (dsec_private_key k) < n
     \<and> length (dsec_chain_code k) = 32 \<and> dsec_path k = evm_path account index
     \<and> account < 2 ^ 31 \<and> index < 2 ^ 31
     \<and> dsec_fingerprint k = d_sha256 D (d_secp_spki D (dsec_private_key k))"
proof -
  note ok = derivation_steps_ok [OF laws hmac]
  from run obtain n0 n1 n2 n3 n4 n5 where
    lt: "account < HARDENED_OFFSET" "index < HARDENED_OFFSET"
    and s: "master_secp256k1 D seed = Inr n0" "secp_hardened_child D n0 44 = Inr n1" "secp_hardened_child D n1 60 = Inr n2"
      "secp_hardened_child D n2 account = Inr n3" "secp_non_hardened_child D n3 0 = Inr n4"
      "secp_non_hardened_child D n4 index = Inr n5"
    and k: "k = (describe_secp256k1 D (fst n5))\<lparr>dsec_chain_code := snd n5, dsec_path := evm_path account index\<rparr>"
    by (auto simp: derive_evm_account_def result_simps not_le split: if_splits)
  have "node_ok n n5"
    using ok(3) [OF s(6) ok(3) [OF s(5) ok(2) [OF s(4) ok(2) [OF s(3) ok(2) [OF s(2) ok(1) [OF s(1)]]]]]] .
  with k lt show ?thesis by (simp add: node_ok_def describe_secp256k1_def Let_def HARDENED_OFFSET_def)
qed

definition toy_derive :: derive_prims where
  "toy_derive = \<lparr>d_hmac_sha512 = (\<lambda>_ _. be_bytes 32 1 @ replicate 32 0), d_sha256 = (\<lambda>b. b),
     d_scalar_reduce = (\<lambda>x. x mod 11), d_scalar_add = (\<lambda>a b. (a + b) mod 11),
     d_secp_compressed = (\<lambda>b. b), d_secp_spki = (\<lambda>b. b), d_ed_public = (\<lambda>b. b)\<rparr>"

lemma be_bytes_0: "be_bytes n 0 = replicate n 0"
  by (induction n) (simp_all add: replicate_append_same)

lemma toy_step:
  assumes "m < 10"
  shows "child_from_digest toy_derive (be_bytes 32 1 @ replicate 32 0) (be_bytes 32 m)
     = Inr (be_bytes 32 (Suc m), replicate 32 0)"
proof -
  have laws: "scalar_laws toy_derive 11" by (simp add: scalar_laws_def toy_derive_def)
  have "child_key_from_tweak toy_derive (be_bytes 32 1) (be_bytes 32 m) = Inr (be_bytes 32 (Suc m))"
    using child_key_from_tweak_spec [OF laws, of "be_bytes 32 1" "be_bytes 32 m" "be_bytes 32 (Suc m)"] assms
    by (simp add: be_nat_be_bytes)
  then show ?thesis by (simp add: child_from_digest_def)
qed

theorem evm_account_key_valid_witness:
  "\<exists>k. derive_evm_account toy_derive (replicate 64 0) 0 3 = Inr k \<and> be_nat (dsec_private_key k) < 11
     \<and> dsec_path k = evm_path 0 3"
proof -
  have laws: "scalar_laws toy_derive 11" by (simp add: scalar_laws_def toy_derive_def)
  have h: "d_hmac_sha512 toy_derive x y = be_bytes 32 1 @ replicate 32 0" for x y by (simp add: toy_derive_def)
  have hmac: "hmac_64 toy_derive" by (simp add: hmac_64_def h)
  have z: "replicate 32 0 = be_bytes 32 0" by (simp only: be_bytes_0)
  have m: "master_secp256k1 toy_derive (replicate 64 0) = Inr (be_bytes 32 1, replicate 32 0)"
    using toy_step [of 0] by (simp add: master_secp256k1_def h SEED_BYTES_def be_bytes_0)
  have hc: "secp_hardened_child toy_derive (be_bytes 32 m, c) i = Inr (be_bytes 32 (Suc m), replicate 32 0)"
    "secp_non_hardened_child toy_derive (be_bytes 32 m, c) i = Inr (be_bytes 32 (Suc m), replicate 32 0)"
    if "m < 10" "i < HARDENED_OFFSET" for m c i
    unfolding secp_hardened_child_def secp_non_hardened_child_def prod.case h toy_step [OF that(1)]
    using that(2) by (simp_all only: not_le [symmetric] simp_thms if_False)
  have lt: "(44::u32) < HARDENED_OFFSET" "(60::u32) < HARDENED_OFFSET" "(0::u32) < HARDENED_OFFSET" "(3::u32) < HARDENED_OFFSET"
    by (simp_all add: HARDENED_OFFSET_def)
  have "\<exists>k. derive_evm_account toy_derive (replicate 64 0) 0 3 = Inr k"
    unfolding derive_evm_account_def using lt by (simp add: m hc not_le [symmetric])
  then obtain k where k: "derive_evm_account toy_derive (replicate 64 0) 0 3 = Inr k" ..
  with evm_account_key_valid [OF laws hmac k] show ?thesis by blast
qed

end
