(* ===== verification/Aws_Backend.thy ===== *)
theory Aws_Backend
  imports Backend_Api Ordered_Map
begin

text \<open>
  The AWS KMS backend: \<open>crates/bloom-signer-backend-aws-kms/src/lib.rs\<close>. Its state is the configuration, the
  enrolled keys, the times of the recent provider calls, the durable payload and the file
  the payload is written to. Parameters, collected in \<open>aws_prims\<close>: the \<open>k256\<close> keys and signatures, Keccak, HMAC,
  hex and \<open>serde_json\<close>'s reading of a stored state; the provider is a record of its three calls, and every call
  made is part of an operation's outcome. \<open>disk\<close> says what became of a write, \<open>now\<close> is the system time or its
  failure. An operation gives up its locks while it waits for the provider; the sections that
  hold a lock are definitions of their own, so other operations may run between them.
\<close>

definition KMS_KEY_SPEC :: string where
  "KMS_KEY_SPEC = ''ECC_SECG_P256K1''"

definition KMS_KEY_USAGE :: string where
  "KMS_KEY_USAGE = ''SIGN_VERIFY''"

definition KMS_SIGNING_ALGORITHM :: string where
  "KMS_SIGNING_ALGORITHM = ''ECDSA_SHA_256''"

subsection \<open>Data\<close>

datatype credential_source = WebIdentity (wi_role_arn: string) (wi_token_file: string) (wi_session_name: token)

record aws_config =
  ac_instance :: token
  ac_account_id :: string
  ac_region :: string
  ac_credentials :: credential_source
  ac_allowed_arns :: "string list"
  ac_egress_hosts :: "string list"
  ac_cloudtrail :: bool
  ac_max_calls :: u64
  ac_store_path :: string

record key_metadata =
  km_arn :: string
  km_account_id :: string
  km_region :: string
  km_enabled :: bool
  km_usage :: string
  km_spec :: string
  km_algorithms :: "string list"

record kms_public_key =
  pk_spki :: bytes
  pk_request_id :: string

record kms_sign_request =
  ks_arn :: string
  ks_digest :: bytes
  ks_algorithm :: string
  ks_message_type_digest :: bool
  ks_attempt :: digest32
  ks_deadline :: u64

datatype provider_error_kind =
    KindDefinitiveRejected | KindProvenNotDispatched | KindUnsupported | KindInvalidRequest
  | KindTimeoutAfterDispatch | KindUnknown

record provider_error =
  pe_kind :: provider_error_kind
  pe_request_id :: "string option"

fun into_backend_kind :: "provider_error_kind \<Rightarrow> backend_error" where
  "into_backend_kind KindDefinitiveRejected = DefinitiveRejected"
| "into_backend_kind KindProvenNotDispatched = RetryableBeforeAcceptance"
| "into_backend_kind KindUnsupported = Unsupported"
| "into_backend_kind KindInvalidRequest = InvalidRequest"
| "into_backend_kind KindTimeoutAfterDispatch = IndeterminateAcceptance"
| "into_backend_kind KindUnknown = IndeterminateAcceptance"

definition into_backend :: "provider_error \<Rightarrow> backend_error" where
  "into_backend e = into_backend_kind (pe_kind e)"

record call_context =
  cc_deadline :: u64
  cc_attempt :: "digest32 option"

record 'a provider_response =
  rp_value :: 'a
  rp_request_id :: string

record enrollment_record =
  er_metadata :: key_metadata
  er_spki :: bytes
  er_fingerprint :: digest32
  er_address :: string
  er_describe_id :: string
  er_public_key_id :: string

datatype audit_operation = AuditDescribeKey | AuditGetPublicKey | AuditSign

datatype audit_outcome = AuditSucceeded | AuditFailed provider_error_kind

record aws_audit_event =
  ae_operation :: audit_operation
  ae_attempt :: "digest32 option"
  ae_request_id :: "string option"
  ae_outcome :: audit_outcome

record aws_payload =
  dp_config :: digest32
  dp_enrollments :: "enrollment_record list"
  dp_events :: "aws_audit_event list"

record ('k, 's) aws_prims =
  aw_prims :: prims
  aw_spki_decode :: "bytes \<Rightarrow> 'k option"
  aw_spki_encode :: "'k \<Rightarrow> bytes option"
  aw_sec1 :: "'k \<Rightarrow> bytes"
  aw_keccak :: "bytes \<Rightarrow> bytes"
  aw_hex :: "bytes \<Rightarrow> string"
  aw_hmac :: "bytes \<Rightarrow> bytes \<Rightarrow> bytes"
  aw_from_der :: "bytes \<Rightarrow> 's option"
  aw_normalize_s :: "'s \<Rightarrow> 's"
  aw_sig_bytes :: "'s \<Rightarrow> bytes"
  aw_recover :: "bytes \<Rightarrow> 's \<Rightarrow> u8 \<Rightarrow> 'k option"
  aw_decode_state :: "bytes \<Rightarrow> (aws_payload \<times> digest32) option"

record 'k enrolled_key =
  ek_description :: key_description
  ek_verifying_key :: 'k
  ek_record :: enrollment_record

record 'k aws_state =
  as_config :: aws_config
  as_key :: bytes
  as_enrolled :: "(string, 'k enrolled_key) btree"
  as_recent :: "u64 list"
  as_durable :: aws_payload
  as_file :: "bytes option"

datatype provider_call =
    CallDescribeKey string call_context
  | CallGetPublicKey string call_context
  | CallSign kms_sign_request

record aws_provider =
  pv_describe :: "string \<Rightarrow> call_context \<Rightarrow> provider_error + key_metadata provider_response"
  pv_public_key :: "string \<Rightarrow> call_context \<Rightarrow> provider_error + kms_public_key provider_response"
  pv_sign :: "kms_sign_request \<Rightarrow> provider_error + bytes provider_response"

type_synonym 'a aws_result = "backend_error + 'a"

subsection \<open>Encodings\<close>

fun credential_json :: "credential_source \<Rightarrow> json" where
  "credential_json (WebIdentity role_arn token_file session_name) =
     JObj [(''web_identity'', JObj [(''role_arn'', JStr role_arn), (''token_file'', JStr token_file),
        (''session_name'', JStr session_name)])]"

definition aws_config_json :: "aws_config \<Rightarrow> json" where
  "aws_config_json c =
     JObj [(''backend_instance_id'', JStr (ac_instance c)), (''account_id'', JStr (ac_account_id c)),
           (''region'', JStr (ac_region c)), (''credential_source'', credential_json (ac_credentials c)),
           (''allowed_key_arns'', JArr (map JStr (ac_allowed_arns c))),
           (''allowed_egress_hosts'', JArr (map JStr (ac_egress_hosts c))),
           (''cloudtrail_required'', JBool (ac_cloudtrail c)),
           (''maximum_calls_per_second'', JDec (ac_max_calls c)), (''state_store_path'', JStr (ac_store_path c))]"

definition metadata_json :: "key_metadata \<Rightarrow> json" where
  "metadata_json m =
     JObj [(''arn'', JStr (km_arn m)), (''account_id'', JStr (km_account_id m)), (''region'', JStr (km_region m)),
           (''enabled'', JBool (km_enabled m)), (''key_usage'', JStr (km_usage m)), (''key_spec'', JStr (km_spec m)),
           (''signing_algorithms'', JArr (map JStr (km_algorithms m)))]"

definition enrollment_json :: "enrollment_record \<Rightarrow> json" where
  "enrollment_json r =
     JObj [(''metadata'', metadata_json (er_metadata r)), (''canonical_spki_der'', JBytes (er_spki r)),
           (''public_key_fingerprint'', JStr (er_fingerprint r)), (''public_key_address'', JStr (er_address r)),
           (''describe_request_id'', JStr (er_describe_id r)),
           (''get_public_key_request_id'', JStr (er_public_key_id r))]"

fun error_kind_name :: "provider_error_kind \<Rightarrow> string" where
  "error_kind_name KindDefinitiveRejected = ''definitive_rejected''"
| "error_kind_name KindProvenNotDispatched = ''proven_not_dispatched''"
| "error_kind_name KindUnsupported = ''unsupported''"
| "error_kind_name KindInvalidRequest = ''invalid_request''"
| "error_kind_name KindTimeoutAfterDispatch = ''timeout_after_dispatch''"
| "error_kind_name KindUnknown = ''unknown''"

fun audit_operation_name :: "audit_operation \<Rightarrow> string" where
  "audit_operation_name AuditDescribeKey = ''describe_key''"
| "audit_operation_name AuditGetPublicKey = ''get_public_key''"
| "audit_operation_name AuditSign = ''sign''"

text \<open>The tagged enum writes the kind of a failure as a key of the same object.\<close>

fun audit_outcome_json :: "audit_outcome \<Rightarrow> json" where
  "audit_outcome_json AuditSucceeded = JObj [(''kind'', JStr ''succeeded'')]"
| "audit_outcome_json (AuditFailed k) = JObj [(''kind'', JStr ''failed''), (error_kind_name k, JNull)]"

definition audit_event_json :: "aws_audit_event \<Rightarrow> json" where
  "audit_event_json e =
     JObj [(''operation'', JStr (audit_operation_name (ae_operation e))),
           (''provider_attempt_id'', jopt JStr (ae_attempt e)), (''request_id'', jopt JStr (ae_request_id e)),
           (''outcome'', audit_outcome_json (ae_outcome e))]"

definition payload_json :: "aws_payload \<Rightarrow> json" where
  "payload_json d =
     JObj [(''config_digest'', JStr (dp_config d)), (''enrollments'', JArr (map enrollment_json (dp_enrollments d))),
           (''audit_events'', JArr (map audit_event_json (dp_events d)))]"

definition authenticated_json :: "aws_payload \<Rightarrow> digest32 \<Rightarrow> json" where
  "authenticated_json d tag = JObj [(''payload'', payload_json d), (''authentication_tag'', JStr tag)]"

subsection \<open>Validation\<close>

definition str_contains :: "string \<Rightarrow> string \<Rightarrow> bool" where
  "str_contains pat s = (split_once pat s \<noteq> None)"

definition is_absolute :: "string \<Rightarrow> bool" where
  "is_absolute path = (strip_prefix ''/'' path \<noteq> None)"

definition parse_key_arn :: "string \<Rightarrow> string \<Rightarrow> string \<Rightarrow> unit aws_result" where
  "parse_key_arn arn region account_id =
     (case strip_prefix (''arn:aws:kms:'' @ region @ '':'' @ account_id @ '':key/'') arn of
        None \<Rightarrow> Inl InvalidRequest
      | Some key_id \<Rightarrow>
          if key_id = [] then Inl InvalidRequest
          else ensure (\<not> (CHR ''/'' \<in> set key_id \<or> CHR '':'' \<in> set key_id \<or> str_contains '':alias/'' arn))
                 InvalidRequest)"

definition expected_hosts :: "string \<Rightarrow> string list" where
  "expected_hosts region = [''kms.'' @ region @ ''.amazonaws.com'', ''sts.'' @ region @ ''.amazonaws.com'']"

definition config_validate :: "aws_config \<Rightarrow> unit aws_result" where
  "config_validate c =
     (if length (ac_account_id c) \<noteq> 12 \<or> \<not> list_all is_ascii_digit (ac_account_id c) \<or> ac_region c = []
         \<or> ac_allowed_arns c = [] \<or> ac_egress_hosts c \<noteq> expected_hosts (ac_region c) \<or> \<not> ac_cloudtrail c
         \<or> ac_max_calls c = 0 \<or> \<not> is_absolute (ac_store_path c)
         \<or> list_ex (\<lambda>arn. \<not> is_ok (parse_key_arn arn (ac_region c) (ac_account_id c))) (ac_allowed_arns c)
      then Inl InvalidRequest
      else case ac_credentials c of
        WebIdentity role_arn token_file session_name \<Rightarrow>
          ensure (strip_prefix (''arn:aws:iam::'' @ ac_account_id c @ '':role/'') role_arn \<noteq> None
              \<and> is_absolute token_file \<and> session_name \<noteq> []) InvalidRequest)"

definition validate_metadata :: "key_metadata \<Rightarrow> string \<Rightarrow> aws_config \<Rightarrow> unit aws_result" where
  "validate_metadata m arn c =
     ensure (\<not> (km_arn m \<noteq> arn \<or> km_account_id m \<noteq> ac_account_id c \<or> km_region m \<noteq> ac_region c
        \<or> \<not> km_enabled m \<or> km_usage m \<noteq> KMS_KEY_USAGE \<or> km_spec m \<noteq> KMS_KEY_SPEC
        \<or> km_algorithms m \<noteq> [KMS_SIGNING_ALGORITHM])) InvalidRequest"

definition aws_suites :: "crypto_suite list" where
  "aws_suites = [Secp256k1Keccak256Recoverable, Secp256k1Sha256Recoverable]"

definition ethereum_address :: "('k, 's) aws_prims \<Rightarrow> 'k \<Rightarrow> string" where
  "ethereum_address A key = ''0x'' @ aw_hex A (drop 12 (aw_keccak A (drop 1 (aw_sec1 A key))))"

definition aws_key_ref :: "aws_config \<Rightarrow> string \<Rightarrow> digest32 \<Rightarrow> key_ref" where
  "aws_key_ref c arn fingerprint =
     \<lparr>kr_backend = ''aws-kms'', kr_backend_instance = ac_instance c, kr_locator = arn,
      kr_key_spec = Secp256k1, kr_fingerprint = fingerprint, kr_derivation = None\<rparr>"

definition aws_description :: "key_ref \<Rightarrow> bytes \<Rightarrow> key_description" where
  "aws_description k spki =
     \<lparr>kd_key_ref = k, kd_spki = spki, kd_fingerprint = kr_fingerprint k, kd_suites = aws_suites\<rparr>"

definition validate_enrollment_record ::
  "('k, 's) aws_prims \<Rightarrow> aws_config \<Rightarrow> enrollment_record \<Rightarrow> 'k enrolled_key aws_result" where
  "validate_enrollment_record A c r =
     (let arn = km_arn (er_metadata r); spki = er_spki r in
      rbind (parse_key_arn arn (ac_region c) (ac_account_id c)) (\<lambda>_.
      if arn \<notin> set (ac_allowed_arns c) then Inl DefinitiveRejected
      else
        rbind (validate_metadata (er_metadata r) arn c) (\<lambda>_.
        rbind (ok_or (aw_spki_decode A spki) DefinitiveRejected) (\<lambda>public_key.
        rbind (ok_or (aw_spki_encode A public_key) DefinitiveRejected) (\<lambda>canonical.
        let fingerprint = p_sha256 (aw_prims A) spki in
        if canonical \<noteq> spki then Inl DefinitiveRejected
        else if fingerprint \<noteq> er_fingerprint r then Inl DefinitiveRejected
        else if er_describe_id r = [] \<or> er_public_key_id r = [] then Inl DefinitiveRejected
        else if er_address r \<noteq> ethereum_address A public_key then Inl DefinitiveRejected
        else Inr \<lparr>ek_description = aws_description (aws_key_ref c arn fingerprint) spki,
                  ek_verifying_key = public_key, ek_record = r\<rparr>)))))"

definition normalize_recoverable_signature ::
  "('k, 's) aws_prims \<Rightarrow> bytes \<Rightarrow> bytes \<Rightarrow> 'k \<Rightarrow> bytes aws_result" where
  "normalize_recoverable_signature A der digest expected_key =
     rbind (ok_or (aw_from_der A der) DefinitiveRejected) (\<lambda>raw.
     let signature = aw_normalize_s A raw in
     rbind (ok_or (find (\<lambda>id. aw_recover A digest signature id = Some expected_key) [0, 1, 2, 3])
              DefinitiveRejected) (\<lambda>recovery_id.
       Inr (aw_sig_bytes A signature @ [recovery_id])))"

subsection \<open>The durable payload\<close>

definition config_digest :: "('k, 's) aws_prims \<Rightarrow> aws_config \<Rightarrow> digest32" where
  "config_digest A c = p_sha256 (aw_prims A) (p_jcs (aw_prims A) (aws_config_json c))"

definition payload_mac :: "('k, 's) aws_prims \<Rightarrow> bytes \<Rightarrow> aws_payload \<Rightarrow> bytes" where
  "payload_mac A key d = aw_hmac A key (p_jcs (aw_prims A) (payload_json d))"

datatype file_read = FileBytes bytes | FileMissing | FileUnreadable

definition load_authenticated_state ::
  "('k, 's) aws_prims \<Rightarrow> file_read \<Rightarrow> bytes \<Rightarrow> digest32 \<Rightarrow> aws_payload aws_result" where
  "load_authenticated_state A content key expected =
     (case content of
        FileBytes bytes \<Rightarrow>
          rbind (ok_or (aw_decode_state A bytes) DefinitiveRejected) (\<lambda>(payload, tag).
          if dp_config payload \<noteq> expected then Inl DefinitiveRejected
          else
            rbind (ok_or (p_hex_decode (aw_prims A) tag) DefinitiveRejected) (\<lambda>tag_bytes.
              if payload_mac A key payload \<noteq> tag_bytes then Inl DefinitiveRejected else Inr payload))
      | FileMissing \<Rightarrow> Inr \<lparr>dp_config = expected, dp_enrollments = [], dp_events = []\<rparr>
      | FileUnreadable \<Rightarrow> Inl DefinitiveRejected)"

text \<open>A write fails before the rename, succeeds, or fails when the directory is synchronised, after the new content is
  in place.\<close>

datatype write_outcome = WriteFailed | WriteOk | WriteUnsynced

type_synonym aws_disk = "string \<Rightarrow> bytes \<Rightarrow> write_outcome"

definition has_parent :: "string \<Rightarrow> bool" where
  "has_parent path = list_ex (\<lambda>c. c \<noteq> [] \<and> c \<noteq> ''.'') (split_on CHR ''/'' path)"

definition state_bytes :: "('k, 's) aws_prims \<Rightarrow> bytes \<Rightarrow> aws_payload \<Rightarrow> bytes" where
  "state_bytes A key d = p_jcs (aw_prims A) (authenticated_json d (aw_hex A (payload_mac A key d)))"

definition persist_authenticated_state ::
  "('k, 's) aws_prims \<Rightarrow> aws_disk \<Rightarrow> 'k aws_state \<Rightarrow> 'k aws_state \<times> unit aws_result" where
  "persist_authenticated_state A disk st =
     (let path = ac_store_path (as_config st) in
      if \<not> has_parent path then (st, Inl InvalidRequest)
      else
        let bytes = state_bytes A (as_key st) (as_durable st) in
        case disk path bytes of
          WriteFailed \<Rightarrow> (st, Inl DefinitiveRejected)
        | WriteOk \<Rightarrow> (st\<lparr>as_file := Some bytes\<rparr>, Inr ())
        | WriteUnsynced \<Rightarrow> (st\<lparr>as_file := Some bytes\<rparr>, Inl DefinitiveRejected))"

text \<open>A change of the payload that is undone when it cannot be written.\<close>

definition commit_payload ::
  "('k, 's) aws_prims \<Rightarrow> aws_disk \<Rightarrow> aws_payload \<Rightarrow> 'k aws_state \<Rightarrow> 'k aws_state \<times> unit aws_result" where
  "commit_payload A disk next st =
     (case persist_authenticated_state A disk (st\<lparr>as_durable := next\<rparr>) of
        (st', Inl e) \<Rightarrow> (st'\<lparr>as_durable := as_durable st\<rparr>, Inl e)
      | (st', Inr _) \<Rightarrow> (st', Inr ()))"

fun load_enrollments ::
  "('k, 's) aws_prims \<Rightarrow> aws_config \<Rightarrow> enrollment_record list \<Rightarrow> (string, 'k enrolled_key) btree
   \<Rightarrow> (string, 'k enrolled_key) btree aws_result" where
  "load_enrollments A c [] enrolled = Inr enrolled"
| "load_enrollments A c (r # rs) enrolled =
     rbind (validate_enrollment_record A c r) (\<lambda>key.
       load_enrollments A c rs (bt_insert (kr_locator (kd_key_ref (ek_description key))) key enrolled))"

definition file_content :: "bytes option \<Rightarrow> file_read" where
  "file_content f = (case f of Some bytes \<Rightarrow> FileBytes bytes | None \<Rightarrow> FileMissing)"

text \<open>\<open>new\<close>. \<open>readable\<close> is whether the file could be read when it is there.\<close>

definition aws_new ::
  "('k, 's) aws_prims \<Rightarrow> aws_config \<Rightarrow> bytes \<Rightarrow> bool \<Rightarrow> bytes option \<Rightarrow> 'k aws_state aws_result" where
  "aws_new A c key readable file =
     rbind (config_validate c) (\<lambda>_.
     if length key \<noteq> 32 then Inl InvalidRequest
     else
       rbind (load_authenticated_state A (if readable then file_content file else FileUnreadable) key
                (config_digest A c)) (\<lambda>durable.
       rbind (load_enrollments A c (dp_enrollments durable) []) (\<lambda>enrolled.
         Inr \<lparr>as_config = c, as_key = key, as_enrolled = enrolled, as_recent = [], as_durable = durable,
              as_file = file\<rparr>)))"

subsection \<open>Provider calls\<close>

definition admit_provider_call ::
  "u64 option \<Rightarrow> u64 \<Rightarrow> 'k aws_state \<Rightarrow> 'k aws_state \<times> unit aws_result" where
  "admit_provider_call now deadline st =
     (case now of
        None \<Rightarrow> (st, Inl RetryableBeforeAcceptance)
      | Some now \<Rightarrow>
          if deadline \<le> now then (st, Inl RetryableBeforeAcceptance)
          else
            let calls = dropWhile (\<lambda>time. saturating_add time 1000 \<le> now) (as_recent st) in
            if of_nat (length calls) \<ge> ac_max_calls (as_config st)
            then (st\<lparr>as_recent := calls\<rparr>, Inl RetryableBeforeAcceptance)
            else (st\<lparr>as_recent := calls @ [now]\<rparr>, Inr ()))"

definition record_audit ::
  "('k, 's) aws_prims \<Rightarrow> aws_disk \<Rightarrow> audit_operation \<Rightarrow> call_context \<Rightarrow> string option \<Rightarrow> audit_outcome
   \<Rightarrow> 'k aws_state \<Rightarrow> 'k aws_state \<times> unit aws_result" where
  "record_audit A disk operation context request_id outcome st =
     (let d = as_durable st in
      commit_payload A disk
        (d\<lparr>dp_events := dp_events d @ [\<lparr>ae_operation = operation, ae_attempt = cc_attempt context,
           ae_request_id = request_id, ae_outcome = outcome\<rparr>]\<rparr>) st)"

text \<open>What each call does with the provider's answer: it is journalled, an answer without a request identifier as a
  failure of unknown kind. \<open>unidentified\<close> is the error of such an answer and \<open>unjournalled\<close> maps the error of the journal.\<close>

definition journal_response ::
  "('k, 's) aws_prims \<Rightarrow> aws_disk \<Rightarrow> audit_operation \<Rightarrow> call_context \<Rightarrow> backend_error \<Rightarrow> (backend_error \<Rightarrow> backend_error)
   \<Rightarrow> provider_error + 'a provider_response \<Rightarrow> 'k aws_state \<Rightarrow> 'k aws_state \<times> 'a provider_response aws_result" where
  "journal_response A disk operation context unidentified unjournalled answer st =
     (case answer of
        Inr response \<Rightarrow>
          if rp_request_id response = []
          then (case record_audit A disk operation context None (AuditFailed KindUnknown) st of
                  (st', Inl e) \<Rightarrow> (st', Inl (unjournalled e))
                | (st', Inr _) \<Rightarrow> (st', Inl unidentified))
          else (case record_audit A disk operation context (Some (rp_request_id response)) AuditSucceeded st of
                  (st', Inl e) \<Rightarrow> (st', Inl (unjournalled e))
                | (st', Inr _) \<Rightarrow> (st', Inr response))
      | Inl e \<Rightarrow>
          (case record_audit A disk operation context (pe_request_id e) (AuditFailed (pe_kind e)) st of
             (st', Inl f) \<Rightarrow> (st', Inl (unjournalled f))
           | (st', Inr _) \<Rightarrow> (st', Inl (into_backend e))))"

subsection \<open>Enrolment\<close>

text \<open>The key the two answers describe.\<close>

definition enrollment_of ::
  "('k, 's) aws_prims \<Rightarrow> aws_config \<Rightarrow> string \<Rightarrow> key_metadata provider_response
   \<Rightarrow> kms_public_key provider_response \<Rightarrow> 'k enrolled_key aws_result" where
  "enrollment_of A c arn metadata response =
     rbind (ok_or (aw_spki_decode A (pk_spki (rp_value response))) InvalidRequest) (\<lambda>public_key.
     rbind (ok_or (aw_spki_encode A public_key) InvalidRequest) (\<lambda>spki.
     if spki \<noteq> pk_spki (rp_value response) then Inl InvalidRequest
     else
       let fingerprint = p_sha256 (aw_prims A) spki;
           key_ref = aws_key_ref c arn fingerprint
       in
       if \<not> is_ok (key_ref_validate key_ref) then Inl InvalidRequest
       else Inr \<lparr>ek_description = aws_description key_ref spki, ek_verifying_key = public_key,
              ek_record = \<lparr>er_metadata = rp_value metadata, er_spki = spki, er_fingerprint = fingerprint,
                er_address = ethereum_address A public_key, er_describe_id = rp_request_id metadata,
                er_public_key_id = rp_request_id response\<rparr>\<rparr>))"

text \<open>The section under the locks: an enrolment is never replaced.\<close>

definition insert_enrollment ::
  "('k, 's) aws_prims \<Rightarrow> aws_disk \<Rightarrow> string \<Rightarrow> 'k enrolled_key \<Rightarrow> 'k aws_state \<Rightarrow> 'k aws_state \<times> key_description aws_result" where
  "insert_enrollment A disk arn key st =
     (case map_of (as_enrolled st) arn of
        Some existing \<Rightarrow>
          (st, if ek_description existing = ek_description key \<and> ek_record existing = ek_record key
               then Inr (ek_description key) else Inl DefinitiveRejected)
      | None \<Rightarrow>
          let d = as_durable st in
          (case commit_payload A disk (d\<lparr>dp_enrollments := dp_enrollments d @ [ek_record key]\<rparr>) st of
             (st', Inl e) \<Rightarrow> (st', Inl e)
           | (st', Inr _) \<Rightarrow> (st'\<lparr>as_enrolled := bt_insert arn key (as_enrolled st')\<rparr>, Inr (ek_description key))))"

text \<open>Sequencing with the calls made: an error ends the operation.\<close>

type_synonym ('k, 'a) aws_op = "'k aws_state \<Rightarrow> provider_call list \<times> 'k aws_state \<times> 'a aws_result"

definition aws_bind :: "('k, 'a) aws_op \<Rightarrow> ('a \<Rightarrow> ('k, 'b) aws_op) \<Rightarrow> ('k, 'b) aws_op" where
  "aws_bind m f st =
     (case m st of
        (calls, st1, Inl e) \<Rightarrow> (calls, st1, Inl e)
      | (calls, st1, Inr x) \<Rightarrow> (case f x st1 of (calls', st2, res) \<Rightarrow> (calls @ calls', st2, res)))"

definition check_that :: "'a aws_result \<Rightarrow> ('k, 'a) aws_op" where
  "check_that res st = ([], st, res)"

definition locked :: "('k aws_state \<Rightarrow> 'k aws_state \<times> 'a aws_result) \<Rightarrow> ('k, 'a) aws_op" where
  "locked section st = (case section st of (st', res) \<Rightarrow> ([], st', res))"

definition calling :: "provider_call \<Rightarrow> 'a \<Rightarrow> ('k, 'a) aws_op" where
  "calling call answer st = ([call], st, Inr answer)"

text \<open>The configuration does not change; \<open>now1\<close> and \<open>now2\<close> are the times of the two calls.\<close>

definition enroll_steps ::
  "('k, 's) aws_prims \<Rightarrow> aws_disk \<Rightarrow> u64 option \<Rightarrow> u64 option \<Rightarrow> aws_provider \<Rightarrow> string \<Rightarrow> u64
   \<Rightarrow> aws_config \<Rightarrow> ('k, key_description) aws_op" where
  "enroll_steps A disk now1 now2 provider arn deadline c =
     (let context = \<lparr>cc_deadline = deadline, cc_attempt = None\<rparr> in
      aws_bind (check_that (parse_key_arn arn (ac_region c) (ac_account_id c))) (\<lambda>_.
      aws_bind (check_that (ensure (arn \<in> set (ac_allowed_arns c)) InvalidRequest)) (\<lambda>_.
      aws_bind (locked (admit_provider_call now1 deadline)) (\<lambda>_.
      aws_bind (calling (CallDescribeKey arn context) (pv_describe provider arn context)) (\<lambda>described.
      aws_bind (locked (journal_response A disk AuditDescribeKey context DefinitiveRejected (\<lambda>e. e) described)) (\<lambda>metadata.
      aws_bind (check_that (validate_metadata (rp_value metadata) arn c)) (\<lambda>_.
      aws_bind (locked (admit_provider_call now2 deadline)) (\<lambda>_.
      aws_bind (calling (CallGetPublicKey arn context) (pv_public_key provider arn context)) (\<lambda>public.
      aws_bind (locked (journal_response A disk AuditGetPublicKey context DefinitiveRejected (\<lambda>e. e) public)) (\<lambda>response.
      aws_bind (check_that (enrollment_of A c arn metadata response)) (\<lambda>key.
        locked (insert_enrollment A disk arn key))))))))))))"

definition enroll_key ::
  "('k, 's) aws_prims \<Rightarrow> aws_disk \<Rightarrow> u64 option \<Rightarrow> u64 option \<Rightarrow> aws_provider \<Rightarrow> string \<Rightarrow> u64
   \<Rightarrow> ('k, key_description) aws_op" where
  "enroll_key A disk now1 now2 provider arn deadline st =
     enroll_steps A disk now1 now2 provider arn deadline (as_config st) st"

definition enrollment_records :: "'k aws_state \<Rightarrow> enrollment_record list" where
  "enrollment_records st = dp_enrollments (as_durable st)"

definition audit_events :: "'k aws_state \<Rightarrow> aws_audit_event list" where
  "audit_events st = dp_events (as_durable st)"

definition kms_key_is_registered :: "'k aws_state \<Rightarrow> key_ref \<Rightarrow> bool" where
  "kms_key_is_registered st k =
     (case map_of (as_enrolled st) (kr_locator k) of
        Some key \<Rightarrow> kd_key_ref (ek_description key) = k
      | None \<Rightarrow> False)"

definition kms_key_is_available :: "'k aws_state \<Rightarrow> key_ref \<Rightarrow> bool" where
  "kms_key_is_available st k = kms_key_is_registered st k"

definition enrolled_key_of :: "'k aws_state \<Rightarrow> key_ref \<Rightarrow> 'k enrolled_key aws_result" where
  "enrolled_key_of st k =
     (case map_of (as_enrolled st) (kr_locator k) of
        Some key \<Rightarrow> if kd_key_ref (ek_description key) = k then Inr key else Inl InvalidRequest
      | None \<Rightarrow> Inl InvalidRequest)"

subsection \<open>The backend traits\<close>

definition aws_capabilities :: "'k aws_state \<Rightarrow> backend_capabilities" where
  "aws_capabilities st =
     \<lparr>bc_backend_id = ''aws-kms'', bc_backend_instance_id = ac_instance (as_config st),
      bc_key_specs = [Secp256k1], bc_suites = aws_suites, bc_derivation = [], bc_input_kinds = [InputDigest32],
      bc_encodings = [Secp256k1Recoverable65], bc_maximum_input_bytes = 32, bc_maximum_batch_size = 1,
      bc_can_generate = False, bc_can_import = False, bc_can_export_encrypted = False, bc_can_delete = False,
      bc_requires_activation = False, bc_requires_user_presence = True, bc_networked = True,
      bc_idempotency = NoDeduplication\<rparr>"

definition aws_describe_key :: "'k aws_state \<Rightarrow> key_ref \<Rightarrow> key_description aws_result" where
  "aws_describe_key st k = rbind (enrolled_key_of st k) (\<lambda>key. Inr (ek_description key))"

definition aws_sign ::
  "('k, 's) aws_prims \<Rightarrow> aws_disk \<Rightarrow> u64 option \<Rightarrow> aws_provider \<Rightarrow> backend_sign_request \<Rightarrow> 'k aws_state
   \<Rightarrow> provider_call list \<times> 'k aws_state \<times> backend_signature aws_result" where
  "aws_sign A disk now provider r st =
     (if \<not> input_matches_suite r \<or> bs_suite r \<notin> set (bc_suites (aws_capabilities st))
      then ([], st, Inl Unsupported)
      else case bs_input r of
        MessageInput _ \<Rightarrow> ([], st, Inl InvalidRequest)
      | DigestInput digest \<Rightarrow>
          (case p_hex_decode (aw_prims A) digest of
             None \<Rightarrow> ([], st, Inl InvalidRequest)
           | Some bytes \<Rightarrow>
               if length bytes \<noteq> 32 then ([], st, Inl InvalidRequest)
               else
                 (case enrolled_key_of st (bs_key_ref r) of
                    Inl e \<Rightarrow> ([], st, Inl e)
                  | Inr key \<Rightarrow>
                      (case admit_provider_call now (bs_deadline_ms r) st of
                         (st1, Inl e) \<Rightarrow> ([], st1, Inl e)
                       | (st1, Inr _) \<Rightarrow>
                           let context = \<lparr>cc_deadline = bs_deadline_ms r, cc_attempt = Some (bs_provider_attempt r)\<rparr>;
                               request = \<lparr>ks_arn = kr_locator (bs_key_ref r), ks_digest = bytes,
                                 ks_algorithm = KMS_SIGNING_ALGORITHM, ks_message_type_digest = True,
                                 ks_attempt = bs_provider_attempt r, ks_deadline = bs_deadline_ms r\<rparr>
                           in
                           (case journal_response A disk AuditSign context IndeterminateAcceptance
                                   (\<lambda>_. IndeterminateAcceptance) (pv_sign provider request) st1 of
                              (st2, Inl e) \<Rightarrow> ([CallSign request], st2, Inl e)
                            | (st2, Inr response) \<Rightarrow>
                                ([CallSign request], st2,
                                 rbind (normalize_recoverable_signature A (rp_value response) bytes (ek_verifying_key key))
                                   (\<lambda>normalized.
                                   Inr \<lparr>sg_suite = bs_suite r, sg_encoding = Secp256k1Recoverable65,
                                        sg_bytes = normalized, sg_correlation = Some (rp_request_id response)\<rparr>)))))))"

definition aws_derive_public :: "key_ref \<Rightarrow> string \<Rightarrow> key_description aws_result" where
  "aws_derive_public root canonical_path = Inl Unsupported"

definition aws_register_derived_key :: "key_ref \<Rightarrow> string \<Rightarrow> key_description aws_result" where
  "aws_register_derived_key root canonical_path = Inl Unsupported"

end
