(* ===== verification/Backend_Registry.thy ===== *)
theory Backend_Registry
  imports Local_Backend Aws_Backend "HOL-Library.Product_Lexorder"
begin

text \<open>
  The registry of compiled backends: \<open>crates/bloom-signer/src/registry.rs\<close>. It maps a backend identifier and an
  instance to a local or an AWS KMS backend; the state of each is part of the registry's state. An
  operation finds the backend its key names, runs there, and maps the backend's error to the protocol's.
  \<open>decode\<close> is \<open>serde_json\<close>'s reading of an encrypted record, \<open>nonce\<close> what the system's
  randomness returned. The fault-injecting backend of the tests is left out.
\<close>

datatype 'k compiled = CompiledLocal local_state | CompiledAws "'k aws_state"

type_synonym 'k backends = "(token \<times> token, 'k compiled) btree"

type_synonym 'a reg_result = "protocol_error + 'a"

fun compiled_capabilities :: "'k compiled \<Rightarrow> backend_capabilities" where
  "compiled_capabilities (CompiledLocal st) = local_capabilities st"
| "compiled_capabilities (CompiledAws st) = aws_capabilities st"

fun compiled_backend_id :: "'k compiled \<Rightarrow> token" where
  "compiled_backend_id (CompiledLocal st) = ''local''"
| "compiled_backend_id (CompiledAws st) = ''aws-kms''"

definition compiled_key :: "'k compiled \<Rightarrow> token \<times> token" where
  "compiled_key b = (compiled_backend_id b, bc_backend_instance_id (compiled_capabilities b))"

fun insert_compiled :: "'k compiled list \<Rightarrow> 'k backends \<Rightarrow> 'k backends reg_result" where
  "insert_compiled [] reg = Inr reg"
| "insert_compiled (b # bs) reg =
     (if map_of reg (compiled_key b) \<noteq> None then Inl (err BackendInvalidRequest)
      else insert_compiled bs (bt_insert (compiled_key b) b reg))"

definition from_compiled :: "'k compiled list \<Rightarrow> 'k backends reg_result" where
  "from_compiled bs = insert_compiled bs []"

definition registry_get :: "token \<Rightarrow> token \<Rightarrow> 'k backends \<Rightarrow> 'k compiled reg_result" where
  "registry_get backend_id instance_id reg = ok_or (map_of reg (backend_id, instance_id)) (err BackendUnsupported)"

definition registry_capabilities :: "'k backends \<Rightarrow> backend_capabilities list" where
  "registry_capabilities reg = map (\<lambda>(_, b). compiled_capabilities b) reg"

definition aws_kms_audit_events :: "'k backends \<Rightarrow> aws_audit_event list" where
  "aws_kms_audit_events reg =
     concat (map (\<lambda>(_, b). case b of CompiledAws st \<Rightarrow> audit_events st | CompiledLocal _ \<Rightarrow> []) reg)"

abbreviation backend_of :: "key_ref \<Rightarrow> 'k backends \<Rightarrow> 'k compiled reg_result" where
  "backend_of k reg \<equiv> registry_get (kr_backend k) (kr_backend_instance k) reg"

definition map_error :: "protocol_error_code \<Rightarrow> backend_error + 'a \<Rightarrow> 'a reg_result" where
  "map_error code r = (case r of Inl _ \<Rightarrow> Inl (err code) | Inr x \<Rightarrow> Inr x)"

definition registry_key_is_available :: "('m, 'p) local_prims \<Rightarrow> 'k backends \<Rightarrow> key_ref \<Rightarrow> bool reg_result" where
  "registry_key_is_available L reg k =
     rbind (backend_of k reg) (\<lambda>b.
       case b of
         CompiledLocal st \<Rightarrow> map_error ServiceUnavailable (local_available L st k)
       | CompiledAws st \<Rightarrow> Inr (kms_key_is_available st k))"

definition registry_key_is_registered :: "('m, 'p) local_prims \<Rightarrow> 'k backends \<Rightarrow> key_ref \<Rightarrow> bool reg_result" where
  "registry_key_is_registered L reg k =
     rbind (backend_of k reg) (\<lambda>b.
       case b of
         CompiledLocal st \<Rightarrow> Inr (local_registered L st k)
       | CompiledAws st \<Rightarrow> Inr (kms_key_is_registered st k))"

text \<open>What the operations on local backends share: the backend a key names is found, an AWS backend refuses, and
  the local backend's error becomes \<open>code\<close>.\<close>

definition on_local ::
  "protocol_error_code \<Rightarrow> (local_state \<Rightarrow> local_state \<times> 'a backend_result) \<Rightarrow> key_ref \<Rightarrow> 'k backends
   \<Rightarrow> 'k backends \<times> 'a reg_result" where
  "on_local code operation k reg =
     (case backend_of k reg of
        Inl e \<Rightarrow> (reg, Inl e)
      | Inr (CompiledAws _) \<Rightarrow> (reg, Inl (err BackendUnsupported))
      | Inr (CompiledLocal st) \<Rightarrow>
          (case operation st of
             (st', r) \<Rightarrow>
               (bt_insert (kr_backend k, kr_backend_instance k) (CompiledLocal st') reg, map_error code r)))"

subsection \<open>Activation\<close>

definition activate_key_blocking ::
  "('m, 'p) local_prims \<Rightarrow> key_ref \<Rightarrow> bytes \<Rightarrow> 'k backends \<Rightarrow> 'k backends \<times> unit reg_result" where
  "activate_key_blocking L k secret = on_local BackendInvalidRequest (activate_blocking L secret) k"

definition activate_key ::
  "('m, 'p) local_prims \<Rightarrow> key_ref \<Rightarrow> bytes \<Rightarrow> 'k backends \<Rightarrow> 'k backends \<times> unit reg_result" where
  "activate_key L k secret = on_local BackendInvalidRequest (activate_blocking L secret) k"

definition deactivate_key :: "key_ref \<Rightarrow> 'k backends \<Rightarrow> 'k backends \<times> unit reg_result" where
  "deactivate_key k = on_local BackendInvalidRequest local_deactivate k"

subsection \<open>Wallets\<close>

definition backup_record :: "('m, 'p) local_prims \<Rightarrow> local_state \<Rightarrow> bytes reg_result" where
  "backup_record L st =
     rbind (map_error ServiceUnavailable (encrypted_backup st)) (\<lambda>b. Inr (p_jcs (lc_prims L) (backup_json b)))"

definition install_local ::
  "token \<Rightarrow> local_state \<Rightarrow> 'a \<Rightarrow> 'k backends \<Rightarrow> 'k backends \<times> 'a reg_result" where
  "install_local instance_id st answer reg =
     (if map_of reg (''local'', instance_id) \<noteq> None then (reg, Inl (err OperationIdConflict))
      else (bt_insert (''local'', instance_id) (CompiledLocal st) reg, Inr answer))"

definition provision_imported_secp256k1_wallet_backend ::
  "('m, 'p) local_prims \<Rightarrow> bytes \<Rightarrow> token \<Rightarrow> bytes \<Rightarrow> bytes \<Rightarrow> bytes \<Rightarrow> 'k backends
   \<Rightarrow> 'k backends \<times> (key_ref \<times> bytes) reg_result" where
  "provision_imported_secp256k1_wallet_backend L nonce wallet_id private_key secret authority_key reg =
     (case rbind (map_error BackendInvalidRequest
                   (provision_imported_secp256k1 L nonce wallet_id ''wallet-root'' private_key secret authority_key)) (\<lambda>st.
           rbind (map_error BackendInvalidRequest (root_key_ref L st)) (\<lambda>root.
           rbind (backup_record L st) (\<lambda>record. Inr (st, root, record)))) of
        Inl e \<Rightarrow> (reg, Inl e)
      | Inr (st, root, record) \<Rightarrow> install_local wallet_id st (root, record) reg)"

definition provision_bip39_wallet_backend ::
  "('m, 'p) local_prims \<Rightarrow> bytes \<Rightarrow> token \<Rightarrow> bytes \<Rightarrow> bytes \<Rightarrow> bytes \<Rightarrow> 'k backends
   \<Rightarrow> 'k backends \<times> bytes reg_result" where
  "provision_bip39_wallet_backend L nonce wallet_id entropy secret authority_key reg =
     (case rbind (map_error BackendInvalidRequest
                   (provision_bip39 L nonce wallet_id wallet_id entropy secret authority_key)) (\<lambda>st.
           rbind (backup_record L st) (\<lambda>record. Inr (st, record))) of
        Inl e \<Rightarrow> (reg, Inl e)
      | Inr (st, record) \<Rightarrow> install_local wallet_id st record reg)"

text \<open>Rehydrating the descriptions of a BIP-39 record.\<close>

fun rehydrate :: "key_description list \<Rightarrow> local_backup \<Rightarrow> local_backup reg_result" where
  "rehydrate [] backup = Inr backup"
| "rehydrate (d # ds) backup =
     (if kd_key_ref d \<notin> set (eb_registry backup) then Inl (err KeyrefMismatch)
      else
        (case find (\<lambda>existing. kd_key_ref existing = kd_key_ref d) (eb_descriptions backup) of
           Some existing \<Rightarrow> if existing \<noteq> d then Inl (err KeyrefMismatch) else rehydrate ds backup
         | None \<Rightarrow> rehydrate ds (backup\<lparr>eb_descriptions := eb_descriptions backup @ [d]\<rparr>)))"

definition restore_bip39_wallet_backend ::
  "('m, 'p) local_prims \<Rightarrow> (bytes \<Rightarrow> local_backup option) \<Rightarrow> token \<Rightarrow> bytes \<Rightarrow> key_description list \<Rightarrow> 'k backends
   \<Rightarrow> 'k backends \<times> unit reg_result" where
  "restore_bip39_wallet_backend L decode instance_id record descriptions reg =
     (if map_of reg (''local'', instance_id) \<noteq> None then (reg, Inr ())
      else
        (case rbind (ok_or (decode record) (err MalformedFrame)) (\<lambda>backup.
              if eb_kind backup \<noteq> MatBip39Entropy then Inl (err KeyrefMismatch)
              else
                rbind (rehydrate descriptions backup) (\<lambda>backup.
                  map_error ServiceUnavailable (restore L instance_id backup))) of
           Inl e \<Rightarrow> (reg, Inl e)
         | Inr st \<Rightarrow> (bt_insert (''local'', instance_id) (CompiledLocal st) reg, Inr ())))"

definition registry_register_bip39_child ::
  "('m, 'p) local_prims \<Rightarrow> disk \<Rightarrow> token \<Rightarrow> key_description \<Rightarrow> operation_id option \<Rightarrow> 'k backends
   \<Rightarrow> 'k backends \<times> unit reg_result" where
  "registry_register_bip39_child L disk wallet_id d operation reg =
     (let k = kd_key_ref d in
      if \<not> (kr_backend_instance k = wallet_id
            \<and> (case kr_derivation k of Some (Bip39Multicurve seed _ _) \<Rightarrow> seed = wallet_id | _ \<Rightarrow> False))
      then (reg, Inl (err KeyrefMismatch))
      else on_local BackendInvalidRequest (register_bip39_child_description L disk d operation) k reg)"

definition registry_retire_bip39_child ::
  "('m, 'p) local_prims \<Rightarrow> disk \<Rightarrow> key_ref \<Rightarrow> 'k backends \<Rightarrow> 'k backends \<times> unit reg_result" where
  "registry_retire_bip39_child L disk k = on_local BackendInvalidRequest (retire_bip39_child L disk k) k"

definition expect_root :: "('m, 'p) local_prims \<Rightarrow> key_ref \<Rightarrow> local_state \<Rightarrow> unit reg_result" where
  "expect_root L expected st =
     rbind (map_error KeyrefMismatch (root_key_ref L st)) (\<lambda>root. ensure (root = expected) (err KeyrefMismatch))"

definition restore_local_wallet_backend ::
  "('m, 'p) local_prims \<Rightarrow> (bytes \<Rightarrow> local_backup option) \<Rightarrow> token \<Rightarrow> bytes \<Rightarrow> key_ref \<Rightarrow> 'k backends
   \<Rightarrow> 'k backends \<times> unit reg_result" where
  "restore_local_wallet_backend L decode instance_id record expected reg =
     (case map_of reg (''local'', instance_id) of
        Some (CompiledLocal existing) \<Rightarrow> (reg, expect_root L expected existing)
      | _ \<Rightarrow>
          (case rbind (ok_or (decode record) (err MalformedFrame)) (\<lambda>backup.
                rbind (map_error ServiceUnavailable (restore L instance_id backup)) (\<lambda>st.
                rbind (expect_root L expected st) (\<lambda>_. Inr st))) of
             Inl e \<Rightarrow> (reg, Inl e)
           | Inr st \<Rightarrow> (bt_insert (''local'', instance_id) (CompiledLocal st) reg, Inr ())))"

definition remove_local_wallet_backend_instance :: "token \<Rightarrow> 'k backends \<Rightarrow> 'k backends" where
  "remove_local_wallet_backend_instance instance_id reg = bt_remove (''local'', instance_id) reg"

definition remove_local_wallet_backend :: "key_ref \<Rightarrow> 'k backends \<Rightarrow> 'k backends" where
  "remove_local_wallet_backend k = remove_local_wallet_backend_instance (kr_backend_instance k)"

definition local_encrypted_backup :: "('m, 'p) local_prims \<Rightarrow> key_ref \<Rightarrow> 'k backends \<Rightarrow> bytes reg_result" where
  "local_encrypted_backup L root reg =
     rbind (backend_of root reg) (\<lambda>b.
       case b of
         CompiledLocal st \<Rightarrow> backup_record L st
       | CompiledAws _ \<Rightarrow> Inl (err BackendUnsupported))"

subsection \<open>Derived keys\<close>

definition configure_local_derivation_namespace ::
  "('m, 'p) local_prims \<Rightarrow> disk \<Rightarrow> key_ref \<Rightarrow> derivation_grant \<Rightarrow> bytes \<Rightarrow> 'k backends
   \<Rightarrow> 'k backends \<times> unit reg_result" where
  "configure_local_derivation_namespace L disk root grant signature =
     on_local BackendInvalidRequest (configure_namespace L disk \<lparr>au_grant = grant, au_signature = signature\<rparr>) root"

definition allocate_local_derived_key ::
  "('m, 'p) local_prims \<Rightarrow> disk \<Rightarrow> key_ref \<Rightarrow> token \<Rightarrow> derivation_grant \<Rightarrow> bytes \<Rightarrow> operation_id \<Rightarrow> 'k backends
   \<Rightarrow> 'k backends \<times> key_description reg_result" where
  "allocate_local_derived_key L disk root namespace_id grant signature operation =
     on_local BackendInvalidRequest
       (allocate_derived_key_for_operation L disk root namespace_id \<lparr>au_grant = grant, au_signature = signature\<rparr> operation)
       root"

definition rollback_local_derived_key ::
  "('m, 'p) local_prims \<Rightarrow> disk \<Rightarrow> key_ref \<Rightarrow> 'k backends \<Rightarrow> 'k backends \<times> unit reg_result" where
  "rollback_local_derived_key L disk k = on_local ServiceUnavailable (tombstone_derived_key L disk k) k"

definition finalize_local_derived_key ::
  "('m, 'p) local_prims \<Rightarrow> disk \<Rightarrow> key_ref \<Rightarrow> operation_id \<Rightarrow> 'k backends \<Rightarrow> 'k backends \<times> unit reg_result" where
  "finalize_local_derived_key L disk k operation = on_local ServiceUnavailable (finalize_derived_key L disk operation) k"

definition pending_local_derivations ::
  "('m, 'p) local_prims \<Rightarrow> 'k backends \<Rightarrow> (operation_id \<times> key_ref) list" where
  "pending_local_derivations L reg =
     concat (map (\<lambda>(_, b). case b of CompiledLocal st \<Rightarrow> pending_derivations L st | CompiledAws _ \<Rightarrow> []) reg)"

end
