(* ===== verification/Local_View.thy ===== *)
theory Local_View
  imports Local_Sample Signer_State
begin

text \<open>
  The local backend refines the key store the engine consults. The engine asks a backend for its root, its
  registered keys and whether custody is active (\<open>local_backend\<close> of \<open>Signer_State\<close>); the store adds the set of
  retired paths and says how these four may change. Every run of the backend, which works on an encrypted
  backup, a key-encryption key and a file, is seen through \<open>store_of\<close> as a run of the store.
\<close>

subsection \<open>Simulation\<close>

locale simulation = transition_system step inv_st grows
  for step :: "'s \<Rightarrow> 's \<Rightarrow> bool" and inv_st :: "'s \<Rightarrow> bool" and grows :: "'s \<Rightarrow> 's \<Rightarrow> bool" +
  fixes spec :: "'a \<Rightarrow> 'a \<Rightarrow> bool" and abs :: "'s \<Rightarrow> 'a"
  assumes simulates: "inv_st s \<Longrightarrow> step s t \<Longrightarrow> abs t = abs s \<or> spec (abs s) (abs t)"
begin

lemma run_simulates: "step\<^sup>*\<^sup>* s t \<Longrightarrow> inv_st s \<Longrightarrow> spec\<^sup>*\<^sup>* (abs s) (abs t)"
proof (induction rule: rtranclp_induct)
  case (step t u)
  then have "inv_st t" by (blast intro: run_inv)
  from simulates [OF this step(2)] step show ?case by (auto intro: rtranclp.rtrancl_into_rtrancl)
qed simp

end

subsection \<open>The key store\<close>

record key_store = local_backend +
  ks_retired :: "string set"

definition store_add :: "key_ref \<Rightarrow> key_store \<Rightarrow> key_store" where
  "store_add k s = s\<lparr>lb_registry := (lb_registry s)(kr_locator k \<mapsto> k)\<rparr>"

definition store_retire :: "key_ref \<Rightarrow> key_store \<Rightarrow> key_store" where
  "store_retire k s =
     s\<lparr>lb_registry := (lb_registry s)(kr_locator k := None), ks_retired := insert (key_path k) (ks_retired s)\<rparr>"

inductive store_step :: "key_store \<Rightarrow> key_store \<Rightarrow> bool" where
  store_custody: "store_step s (s\<lparr>lb_active := a\<rparr>)"
| store_adds:
    "lb_registry s (kr_locator k) = None \<Longrightarrow> key_path k \<notin> ks_retired s
     \<Longrightarrow> \<forall>k'\<in>ran (lb_registry s). key_path k' \<noteq> key_path k \<Longrightarrow> kr_derivation k \<noteq> None
     \<Longrightarrow> store_step s (store_add k s)"
| store_retires: "lb_registry s (kr_locator k) = Some k \<Longrightarrow> store_step s (store_retire k s)"

text \<open>What the store promises of its own: the root is fixed, a retired path stays retired, and no registered key
  has one.\<close>

definition store_inv :: "key_store \<Rightarrow> bool" where
  "store_inv s =
     ((\<forall>l k. lb_registry s l = Some k \<longrightarrow> kr_locator k = l \<and> key_path k \<notin> ks_retired s)
      \<and> (\<forall>l l' k k'. lb_registry s l = Some k \<longrightarrow> lb_registry s l' = Some k' \<longrightarrow> key_path k = key_path k' \<longrightarrow> l = l'))"

definition store_grows :: "key_store \<Rightarrow> key_store \<Rightarrow> bool" where
  "store_grows s t = (lb_root t = lb_root s \<and> ks_retired s \<subseteq> ks_retired t)"

lemma store_add_inv:
  assumes "store_inv s" "key_path k \<notin> ks_retired s" "\<forall>k'\<in>ran (lb_registry s). key_path k' \<noteq> key_path k"
  shows "store_inv (store_add k s)"
proof -
  have new: "key_path k' \<noteq> key_path k" if "lb_registry s l = Some k'" for l k' using assms(3) that by (auto simp: ran_def)
  show ?thesis using assms(1,2) new unfolding store_inv_def store_add_def by (simp, metis)
qed

lemma store_retire_inv:
  assumes "store_inv s" "lb_registry s (kr_locator k) = Some k"
  shows "store_inv (store_retire k s)"
proof -
  have other: "key_path k' \<noteq> key_path k" if "lb_registry s l = Some k'" "l \<noteq> kr_locator k" for l k'
    using assms that unfolding store_inv_def by metis
  show ?thesis using assms(1) other unfolding store_inv_def store_retire_def by simp
qed

lemma store_step_inv:
  assumes "store_inv s" "store_step s t"
  shows "store_inv t"
  using assms(2,1)
proof cases
  case (store_custody a)
  then show ?thesis using assms(1) by (simp add: store_inv_def)
qed (simp_all add: store_add_inv store_retire_inv)

lemma store_step_grows: "store_step s t \<Longrightarrow> store_grows s t"
  by (auto simp: store_grows_def store_add_def store_retire_def elim!: store_step.cases)

interpretation ks: transition_system store_step store_inv store_grows
  by unfold_locales (blast intro: store_step_inv store_step_grows | simp add: store_grows_def | force simp: store_grows_def)+

subsection \<open>The backend through the store\<close>

definition store_of :: "('m, 'p) local_prims \<Rightarrow> local_state \<Rightarrow> key_store" where
  "store_of L st =
     \<lparr>lb_root = (case root_key_ref L st of Inr root \<Rightarrow> Some root | Inl _ \<Rightarrow> None),
      lb_registry = map_of (ls_registry st), lb_active = (ls_kek st \<noteq> None),
      ks_retired = (case ls_backup st of Some b \<Rightarrow> set (eb_tombstones b) | None \<Rightarrow> {})\<rparr>"

text \<open>The root of a provisioned wallet does not depend on custody: it is pinned, or there is none.\<close>

definition root_fixed :: "local_state \<Rightarrow> bool" where
  "root_fixed st = (\<exists>b. ls_backup st = Some b \<and> (eb_kind b = MatBip39Entropy \<or> eb_pinned_root b \<noteq> None))"

lemma root_fixed_grows:
  "root_fixed st \<Longrightarrow> local_grows st st' \<Longrightarrow> root_fixed st' \<and> root_key_ref L st' = root_key_ref L st"
  by (auto simp: root_fixed_def local_grows_def backup_grows_def root_key_ref_def)

lemma provision_root_fixed: "provision_material L nonce i root_id material kek authority kind = Inr st \<Longrightarrow> root_fixed st"
  by (cases "kind = MatBip39Entropy")
    (auto simp: root_fixed_def fresh_state_def fresh_backup_def elim!: provision_bip39_shape elim: provision_root_shape)

lemma map_of_registered:
  "backup_inv L i b \<Longrightarrow> map_of (registry_of (eb_registry b)) l = Some k \<longleftrightarrow> k \<in> set (eb_registry b) \<and> kr_locator k = l"
  using map_of_registry [OF backup_invD(5)] by blast


lemma store_of_fields:
  "root_key_ref L st' = root_key_ref L st \<Longrightarrow> store_of L st' =
     (store_of L st)\<lparr>lb_registry := map_of (ls_registry st'), lb_active := (ls_kek st' \<noteq> None),
        ks_retired := (case ls_backup st' of Some b \<Rightarrow> set (eb_tombstones b) | None \<Rightarrow> {})\<rparr>"
  by (simp add: store_of_def)

lemma edit_simulates:
  assumes edit: "backup_edit L (ls_instance st) b b'" and b: "ls_backup st = Some b" "backup_inv L (ls_instance st) b"
    and reg: "ls_registry st = registry_of (eb_registry b)" and free: "\<not> locator_collision L"
    and st': "st' = st\<lparr>ls_backup := Some b', ls_registry := registry_of (eb_registry b')\<rparr>"
    and root: "root_key_ref L st' = root_key_ref L st"
  shows "store_of L st' = store_of L st \<or> store_step (store_of L st) (store_of L st')"
  using edit
proof cases
  case (edit_add k ds ns p)
  have path: "key_path k \<notin> set (eb_tombstones b)" "key_path k \<notin> key_path ` set (eb_registry b)"
    using edit_add(4) path_not_taken_iff [of b "ls_instance st"] backup_invD(2) [OF b(2)] by blast+
  have "kr_locator k' \<noteq> kr_locator k" if "k' \<in> set (eb_registry b)" for k'
    using path(2) that edit_add(3) backup_invD(4) [OF b(2) that] locator_path_inject [OF free]
    by (metis hashed_locator_def image_eqI)
  then have "map_of (registry_of (eb_registry b)) (kr_locator k) = None"
    using map_of_registered [OF b(2)] by (metis option.exhaust)
  moreover have "\<forall>k'\<in>ran (map_of (registry_of (eb_registry b))). key_path k' \<noteq> key_path k"
  proof
    fix k' assume "k' \<in> ran (map_of (registry_of (eb_registry b)))"
    then have "k' \<in> set (eb_registry b)" using map_of_registered [OF b(2)] by (auto simp: ran_def)
    then have "key_path k' \<in> key_path ` set (eb_registry b)" by (rule imageI)
    then show "key_path k' \<noteq> key_path k" using path(2) by metis
  qed
  moreover have "kr_derivation k \<noteq> None" using edit_add(2) by (auto simp: key_fits_def root_matches_def split: option.splits)
  ultimately have "store_step (store_of L st) (store_add k (store_of L st))"
    using path(1) b(1) reg by (intro store_adds) (simp_all add: store_of_def)
  moreover have "store_of L st' = store_add k (store_of L st)"
    unfolding store_of_fields [OF root] using b(1) reg edit_add(1)
    by (simp add: st' store_add_def store_of_def registry_of_snoc map_of_bt_insert bt_wf_registry_of)
  ultimately show ?thesis by simp
next
  case (edit_remove k)
  have "map_of (registry_of (eb_registry b)) (kr_locator k) = Some k"
    using edit_remove(2) map_of_registered [OF b(2)] by blast
  then have "store_step (store_of L st) (store_retire k (store_of L st))"
    using reg by (intro store_retires) (simp add: store_of_def)
  moreover have "store_of L st' = store_retire k (store_of L st)"
    unfolding store_of_fields [OF root] using b(1) reg edit_remove registry_of_remove [OF backup_invD(5) [OF b(2)] edit_remove(2)]
    by (auto simp: st' store_retire_def store_of_def remove_key_def map_of_bt_remove)
  ultimately show ?thesis by simp
qed (unfold store_of_fields [OF root], simp_all add: st' store_of_def b(1) reg)

lemma local_step_simulates:
  assumes inv: "local_inv L st" "root_fixed st" and sound: "local_sound L" and step: "local_step L st st'"
  shows "store_of L st' = store_of L st \<or> store_step (store_of L st) (store_of L st')"
proof -
  have laws: "local_laws L" "\<not> locator_collision L" using sound by (simp_all add: local_sound_def)
  have root: "root_key_ref L st' = root_key_ref L st"
    using root_fixed_grows [OF inv(2)] step_local_inv [OF step inv(1) sound] by blast
  from inv(1) obtain b where b: "ls_backup st = Some b" "backup_inv L (ls_instance st) b"
    "ls_registry st = registry_of (eb_registry b)" by (rule local_invE)
  from step_shape [OF step inv(1) laws(1)] show ?thesis
  proof
    assume "same_custody st st'"
    then have "store_of L st' = (store_of L st)\<lparr>lb_active := (ls_kek st' \<noteq> None)\<rparr>"
      unfolding store_of_fields [OF root] by (simp add: same_custody_def store_of_def)
    then show ?thesis by (simp add: store_custody)
  next
    assume "edited L st st'"
    then consider "st' = st" | b' where "backup_edit L (ls_instance st) b b'"
        "st' = st\<lparr>ls_backup := Some b', ls_registry := registry_of (eb_registry b')\<rparr>"
      using b(1) by (auto simp: edited_def)
    then show ?thesis
      by cases (use edit_simulates [OF _ b(1,2,3) laws(2) _ root] in auto)
  qed
qed

interpretation lv: simulation "local_step L" "\<lambda>st. local_sound L \<and> local_inv L st \<and> root_fixed st" local_grows store_step "store_of L"
  for L :: "('m, 'p) local_prims"
  by unfold_locales
    (auto dest: step_local_inv root_fixed_grows local_step_simulates intro: local_grows_refl local_grows_trans)

text \<open>What a backend answers the engine is what its store holds.\<close>

lemma store_lookups:
  "local_registered L st k = local_key_is_registered (local_backend.truncate (store_of L st)) k"
  "local_available L st k = Inr (local_key_is_available (local_backend.truncate (store_of L st)) k)"
proof -
  show reg: "local_registered L st k = local_key_is_registered (local_backend.truncate (store_of L st)) k"
    by (auto simp: local_registered_def local_key_is_registered_def store_of_def local_backend.truncate_def split: sum.splits)
  show "local_available L st k = Inr (local_key_is_available (local_backend.truncate (store_of L st)) k)"
    by (simp add: local_available_def local_key_is_available_def reg)
      (simp add: store_of_def local_backend.truncate_def)
qed

lemma store_of_provisioned:
  assumes "provision_material L nonce i root_id material kek authority kind = Inr st"
  shows "lb_registry (store_of L st) = Map.empty" "lb_active (store_of L st)" "ks_retired (store_of L st) = {}"
  using assms
  by (cases "kind = MatBip39Entropy";
      auto simp: store_of_def fresh_state_def fresh_backup_def elim!: provision_bip39_shape elim: provision_root_shape)+



end
