(* ===== verification/Aws_Properties.thy ===== *)
theory Aws_Properties
  imports Aws_Backend
begin

text \<open>
  The properties of the AWS KMS backend: what a sign call reports and journals, how many calls reach
  the provider in a second, and that what was confirmed survives a restart.
\<close>

subsection \<open>The rate of provider calls\<close>

text \<open>The times at which a sequence of admissions, each with its time and deadline, lets a call through.\<close>

fun admitted :: "(u64 \<times> u64) list \<Rightarrow> 'k aws_state \<Rightarrow> u64 list" where
  "admitted [] st = []"
| "admitted ((now, deadline) # rs) st =
     (case admit_provider_call (Some now) deadline st of
        (st', Inl _) \<Rightarrow> admitted rs st'
      | (st', Inr _) \<Rightarrow> now # admitted rs st')"

definition spaced :: "nat \<Rightarrow> u64 list \<Rightarrow> bool" where
  "spaced m ts = (\<forall>i. i + m < length ts \<longrightarrow> saturating_add (ts ! i) 1000 \<le> ts ! (i + m))"

lemma spaced_snoc:
  assumes "spaced m ts" "0 < m" "m \<le> length ts \<Longrightarrow> saturating_add (ts ! (length ts - m)) 1000 \<le> t"
  shows "spaced m (ts @ [t])"
  unfolding spaced_def
proof (intro allI impI)
  fix i assume i: "i + m < length (ts @ [t])"
  show "saturating_add ((ts @ [t]) ! i) 1000 \<le> (ts @ [t]) ! (i + m)"
  proof (cases "i + m < length ts")
    case True
    then show ?thesis using assms(1) by (simp add: spaced_def nth_append)
  next
    case False
    with i assms(2) have "i = length ts - m" "i + m = length ts" "i < length ts" by auto
    with assms(3) show ?thesis by (simp add: nth_append)
  qed
qed

text \<open>The queue is the end of the history; what was dropped from it is a second old.\<close>

definition rate_inv :: "u64 list \<Rightarrow> u64 \<Rightarrow> 'k aws_state \<Rightarrow> bool" where
  "rate_inv ts now st =
     (\<exists>old. ts = old @ as_recent st \<and> (\<forall>t\<in>set old. saturating_add t 1000 \<le> now)
        \<and> length (as_recent st) \<le> unat (ac_max_calls (as_config st)))"

lemma admit_rate_inv:
  assumes inv: "rate_inv ts now st" and later: "now \<le> now'" and spaced: "spaced (unat (ac_max_calls (as_config st))) ts"
    and admit: "admit_provider_call (Some now') deadline st = (st', r)"
  shows "as_config st' = as_config st"
    and "\<not> is_ok r \<Longrightarrow> rate_inv ts now' st'"
    and "is_ok r \<Longrightarrow> rate_inv (ts @ [now']) now' st' \<and> spaced (unat (ac_max_calls (as_config st))) (ts @ [now'])"
proof -
  let ?m = "unat (ac_max_calls (as_config st))" and ?old = "\<lambda>t. saturating_add t 1000 \<le> now'"
  let ?gone = "takeWhile ?old (as_recent st)" and ?kept = "dropWhile ?old (as_recent st)"
  from inv obtain old where old: "ts = old @ as_recent st" "\<forall>t\<in>set old. saturating_add t 1000 \<le> now"
    "length (as_recent st) \<le> ?m" by (auto simp: rate_inv_def)
  have split: "ts = (old @ ?gone) @ ?kept" using old(1) by simp
  have aged: "\<forall>t\<in>set (old @ ?gone). ?old t" using old(2) later set_takeWhileD by fastforce
  have len: "length ?kept \<le> ?m" using old(3) length_dropWhile_le [of ?old "as_recent st"] by linarith
  show "as_config st' = as_config st" using admit by (auto simp: admit_provider_call_def Let_def split: if_splits)
  show "rate_inv ts now' st'" if "\<not> is_ok r"
  proof (cases "deadline \<le> now'")
    case True
    then have "st' = st" using admit by (simp add: admit_provider_call_def)
    then show ?thesis unfolding rate_inv_def using old later by force
  next
    case False
    with admit that have "st' = st\<lparr>as_recent := ?kept\<rparr>" by (auto simp: admit_provider_call_def Let_def split: if_splits)
    then show ?thesis unfolding rate_inv_def using split aged len by (intro exI [of _ "old @ ?gone"]) simp
  qed
  assume "is_ok r"
  with admit have st': "st' = st\<lparr>as_recent := ?kept @ [now']\<rparr>" and room: "of_nat (length ?kept) < ac_max_calls (as_config st)"
    by (auto simp: admit_provider_call_def Let_def not_le split: if_splits)
  have "unat (of_nat (length ?kept) :: u64) = length ?kept"
    using len unat_lt_power [of "ac_max_calls (as_config st)"] by (simp add: unat_of_nat)
  with room have less: "length ?kept < ?m" by (simp add: word_less_nat_alt)
  have "spaced ?m (ts @ [now'])"
  proof (rule spaced_snoc [OF spaced])
    show "0 < ?m" using less by simp
    assume "?m \<le> length ts"
    moreover have "length ts = length (old @ ?gone) + length ?kept" by (subst split) (rule length_append)
    ultimately have i: "length ts - ?m < length (old @ ?gone)" using less by linarith
    then have "ts ! (length ts - ?m) = (old @ ?gone) ! (length ts - ?m)" by (subst split) (simp only: nth_append if_True)
    with i aged show "saturating_add (ts ! (length ts - ?m)) 1000 \<le> now'" by (metis nth_mem)
  qed
  moreover have "rate_inv (ts @ [now']) now' st'" unfolding rate_inv_def
    using split aged less by (intro exI [of _ "old @ ?gone"]) (simp add: st')
  ultimately show "rate_inv (ts @ [now']) now' st' \<and> spaced ?m (ts @ [now'])" by simp
qed

lemma admitted_spaced:
  assumes "rate_inv ts now st" "spaced (unat (ac_max_calls (as_config st))) ts" "sorted (now # map fst rs)"
  shows "spaced (unat (ac_max_calls (as_config st))) (ts @ admitted rs st)"
  using assms
proof (induction rs arbitrary: ts now st)
  case (Cons q rs)
  obtain now' deadline where q: "q = (now', deadline)" by fastforce
  obtain st' r where admit: "admit_provider_call (Some now') deadline st = (st', r)" by fastforce
  have later: "now \<le> now'" "sorted (now' # map fst rs)" using Cons.prems(3) q by simp_all
  note rate = admit_rate_inv [OF Cons.prems(1) later(1) Cons.prems(2) admit]
  show ?case
  proof (cases r)
    case (Inl e)
    with Cons.IH [of ts now' st'] rate Cons.prems(2) later(2) show ?thesis by (simp add: q admit)
  next
    case (Inr x)
    with Cons.IH [of "ts @ [now']" now' st'] rate later(2) show ?thesis by (simp add: q admit)
  qed
qed simp


subsection \<open>Journalling\<close>

lemma persist_cases:
  assumes "persist_authenticated_state A disk st = (st', r)"
  obtains (failed) e where "st' = st" "r = Inl e" "e \<noteq> IndeterminateAcceptance"
  | (unsynced) "st' = st\<lparr>as_file := Some (state_bytes A (as_key st) (as_durable st))\<rparr>" "r = Inl DefinitiveRejected"
  | (written) "st' = st\<lparr>as_file := Some (state_bytes A (as_key st) (as_durable st))\<rparr>" "r = Inr ()"
  using assms by (auto simp: persist_authenticated_state_def Let_def split: if_splits write_outcome.splits)

text \<open>A change of the payload takes effect, is undone, or is undone with the file ahead of the memory.\<close>

lemma commit_payload_cases:
  assumes "commit_payload A disk d st = (st', r)"
  obtains (failed) e where "st' = st" "r = Inl e" "e \<noteq> IndeterminateAcceptance"
  | (unsynced) "st' = st\<lparr>as_file := Some (state_bytes A (as_key st) d)\<rparr>" "r = Inl DefinitiveRejected"
  | (written) "st' = st\<lparr>as_durable := d, as_file := Some (state_bytes A (as_key st) d)\<rparr>" "r = Inr ()"
proof -
  obtain st1 r1 where p: "persist_authenticated_state A disk (st\<lparr>as_durable := d\<rparr>) = (st1, r1)" by fastforce
  with assms have out: "(st', r) = (case r1 of Inl e \<Rightarrow> (st1\<lparr>as_durable := as_durable st\<rparr>, Inl e) | Inr _ \<Rightarrow> (st1, Inr ()))"
    by (auto simp: commit_payload_def split: sum.splits)
  from p show thesis
  proof (cases rule: persist_cases)
    case (failed e)
    then show ?thesis using out that(1) [of e] by simp
  next
    case unsynced
    then show ?thesis using out that(2) by simp
  next
    case written
    then show ?thesis using out that(3) by simp
  qed
qed

definition call_event :: "audit_operation \<Rightarrow> call_context \<Rightarrow> string option \<Rightarrow> audit_outcome \<Rightarrow> aws_audit_event" where
  "call_event operation context request_id outcome =
     \<lparr>ae_operation = operation, ae_attempt = cc_attempt context, ae_request_id = request_id, ae_outcome = outcome\<rparr>"

definition with_event :: "aws_audit_event \<Rightarrow> aws_payload \<Rightarrow> aws_payload" where
  "with_event e d = d\<lparr>dp_events := dp_events d @ [e]\<rparr>"

lemma record_audit_commits:
  "record_audit A disk operation context request_id outcome st
     = commit_payload A disk (with_event (call_event operation context request_id outcome) (as_durable st)) st"
  by (simp add: record_audit_def call_event_def with_event_def Let_def)

text \<open>The event an answer is journalled as, and the result of journalling it.\<close>

definition answer_event :: "audit_operation \<Rightarrow> call_context \<Rightarrow> provider_error + 'a provider_response \<Rightarrow> aws_audit_event" where
  "answer_event operation context answer =
     (case answer of
        Inl e \<Rightarrow> call_event operation context (pe_request_id e) (AuditFailed (pe_kind e))
      | Inr response \<Rightarrow>
          if rp_request_id response = [] then call_event operation context None (AuditFailed KindUnknown)
          else call_event operation context (Some (rp_request_id response)) AuditSucceeded)"

definition answer_result :: "backend_error \<Rightarrow> provider_error + 'a provider_response \<Rightarrow> 'a provider_response aws_result" where
  "answer_result unidentified answer =
     (case answer of
        Inl e \<Rightarrow> Inl (into_backend e)
      | Inr response \<Rightarrow> if rp_request_id response = [] then Inl unidentified else Inr response)"

lemma journal_response_eq:
  "journal_response A disk operation context unidentified unjournalled answer st =
     (case commit_payload A disk (with_event (answer_event operation context answer) (as_durable st)) st of
        (st', Inl e) \<Rightarrow> (st', Inl (unjournalled e))
      | (st', Inr _) \<Rightarrow> (st', answer_result unidentified answer))"
  by (cases answer)
    (auto simp: journal_response_def record_audit_commits answer_event_def answer_result_def split: prod.split sum.split)

lemma admit_same:
  "admit_provider_call now deadline st = (st', r) \<Longrightarrow> \<exists>ts. st' = st\<lparr>as_recent := ts\<rparr>"
  by (auto simp: admit_provider_call_def Let_def split: option.splits if_splits) (metis aws_state.surjective aws_state.update_convs(4))+

lemma admit_error: "admit_provider_call now deadline st = (st', Inl e) \<Longrightarrow> e = RetryableBeforeAcceptance"
  by (auto simp: admit_provider_call_def Let_def split: option.splits if_splits)

subsection \<open>Signing\<close>

text \<open>The request a sign call sends to the provider.\<close>

definition kms_request :: "backend_sign_request \<Rightarrow> bytes \<Rightarrow> kms_sign_request" where
  "kms_request r bytes =
     \<lparr>ks_arn = kr_locator (bs_key_ref r), ks_digest = bytes, ks_algorithm = KMS_SIGNING_ALGORITHM,
      ks_message_type_digest = True, ks_attempt = bs_provider_attempt r, ks_deadline = bs_deadline_ms r\<rparr>"

definition sign_context :: "backend_sign_request \<Rightarrow> call_context" where
  "sign_context r = \<lparr>cc_deadline = bs_deadline_ms r, cc_attempt = Some (bs_provider_attempt r)\<rparr>"

lemma normalize_InrD:
  assumes "normalize_recoverable_signature A der digest key = Inr bytes"
  shows "\<exists>raw id. aw_from_der A der = Some raw \<and> bytes = aw_sig_bytes A (aw_normalize_s A raw) @ [id]
     \<and> aw_recover A digest (aw_normalize_s A raw) id = Some key \<and> id \<le> 3"
proof -
  from assms obtain raw id where raw: "aw_from_der A der = Some raw" "bytes = aw_sig_bytes A (aw_normalize_s A raw) @ [id]"
    and f: "find (\<lambda>id. aw_recover A digest (aw_normalize_s A raw) id = Some key) [0, 1, 2, 3] = Some id"
    by (auto simp: normalize_recoverable_signature_def rbind_Inr_iff ok_or_Inr_iff Let_def)
  from f have "id \<in> set [0, 1, 2, 3]" "aw_recover A digest (aw_normalize_s A raw) id = Some key"
    using find_Some_iff [THEN iffD1, OF f] by (metis nth_mem)+
  with raw show ?thesis by auto
qed

lemma normalize_error: "normalize_recoverable_signature A der digest key = Inl e \<Longrightarrow> e = DefinitiveRejected"
  by (auto simp: normalize_recoverable_signature_def rbind_def ok_or_def Let_def split: sum.splits option.splits)

lemma enrolled_key_of_Inr: "enrolled_key_of st k = Inr key \<Longrightarrow>
    map_of (as_enrolled st) (kr_locator k) = Some key \<and> kd_key_ref (ek_description key) = k"
  by (auto simp: enrolled_key_of_def split: option.splits if_splits)

lemma enrolled_key_of_Inl: "enrolled_key_of st k = Inl e \<Longrightarrow> e = InvalidRequest"
  by (auto simp: enrolled_key_of_def split: option.splits if_splits)

text \<open>A sign call is refused before the provider is asked, or asks it once.\<close>

lemma aws_sign_cases:
  assumes "aws_sign A disk now provider r st = (calls, st', res)"
  obtains (refused) ts e where "calls = []" "st' = st\<lparr>as_recent := ts\<rparr>" "res = Inl e" "e \<noteq> IndeterminateAcceptance"
      "e \<noteq> DefinitiveRejected" "ts = as_recent st \<or> admit_provider_call now (bs_deadline_ms r) st = (st', Inl e)"
  | (asked) digest bytes key ts d where "bs_input r = DigestInput digest" "p_hex_decode (aw_prims A) digest = Some bytes"
      "length bytes = 32" "map_of (as_enrolled st) (kr_locator (bs_key_ref r)) = Some key"
      "kd_key_ref (ek_description key) = bs_key_ref r" "bs_suite r \<in> set aws_suites"
      "calls = [CallSign (kms_request r bytes)]" "admit_provider_call now (bs_deadline_ms r) st = (st\<lparr>as_recent := ts\<rparr>, Inr ())"
      "d = commit_payload A disk (with_event (answer_event AuditSign (sign_context r)
         (pv_sign provider (kms_request r bytes))) (as_durable st)) (st\<lparr>as_recent := ts\<rparr>)"
      "st' = fst d"
      "res = (case snd d of Inl _ \<Rightarrow> Inl IndeterminateAcceptance | Inr _ \<Rightarrow>
         rbind (answer_result IndeterminateAcceptance (pv_sign provider (kms_request r bytes))) (\<lambda>response.
         rbind (normalize_recoverable_signature A (rp_value response) bytes (ek_verifying_key key)) (\<lambda>normalized.
           Inr \<lparr>sg_suite = bs_suite r, sg_encoding = Secp256k1Recoverable65, sg_bytes = normalized,
                sg_correlation = Some (rp_request_id response)\<rparr>)))"
proof -
  show thesis
  proof (cases "input_matches_suite r \<and> bs_suite r \<in> set (bc_suites (aws_capabilities st))")
    case False
    with assms have "calls = []" "st' = st\<lparr>as_recent := as_recent st\<rparr>" "res = Inl Unsupported" by (auto simp: aws_sign_def)
    then show thesis by (rule refused) simp_all
  next
    case suite: True
    show thesis
    proof (cases "\<exists>digest bytes key. bs_input r = DigestInput digest \<and> p_hex_decode (aw_prims A) digest = Some bytes
        \<and> length bytes = 32 \<and> enrolled_key_of st (bs_key_ref r) = Inr key")
      case False
      with assms suite have "calls = [] \<and> st' = st\<lparr>as_recent := as_recent st\<rparr> \<and> res = Inl InvalidRequest"
        by (auto simp: aws_sign_def dest: enrolled_key_of_Inl split: backend_input.splits option.splits if_splits sum.splits)
      then show thesis by (intro refused [of "as_recent st" InvalidRequest]) simp_all
    next
      case True
      then obtain digest bytes key where found: "bs_input r = DigestInput digest"
        "p_hex_decode (aw_prims A) digest = Some bytes" "length bytes = 32" "enrolled_key_of st (bs_key_ref r) = Inr key"
        by blast
      obtain st1 ra where admit: "admit_provider_call now (bs_deadline_ms r) st = (st1, ra)" by fastforce
      from admit_same [OF this] obtain ts where ts: "st1 = st\<lparr>as_recent := ts\<rparr>" by blast
      show thesis
      proof (cases ra)
        case (Inl e)
        with assms suite found admit ts have "calls = []" "st' = st\<lparr>as_recent := ts\<rparr>" "res = Inl e"
          by (auto simp: aws_sign_def)
        then show thesis using admit_error [of now "bs_deadline_ms r" st st1 e] admit Inl ts by (intro refused) auto
      next
        case (Inr x)
        let ?d = "commit_payload A disk (with_event (answer_event AuditSign (sign_context r)
           (pv_sign provider (kms_request r bytes))) (as_durable st)) (st\<lparr>as_recent := ts\<rparr>)"
        from assms suite found admit ts Inr show thesis
          by (intro asked [OF found(1-3), of key ts ?d])
            (auto simp: aws_sign_def Let_def journal_response_eq kms_request_def sign_context_def aws_capabilities_def
              dest: enrolled_key_of_Inr split: prod.splits sum.splits)
      qed
    qed
  qed
qed

text \<open>The answer has been journalled: the event is the last of the payload and the file holds it.\<close>

definition journalled ::
  "('k, 's) aws_prims \<Rightarrow> backend_sign_request \<Rightarrow> provider_error + bytes provider_response \<Rightarrow> 'k aws_state \<Rightarrow> 'k aws_state \<Rightarrow> bool" where
  "journalled A r answer st st' =
     (as_durable st' = with_event (answer_event AuditSign (sign_context r) answer) (as_durable st)
      \<and> as_file st' = Some (state_bytes A (as_key st') (as_durable st')))"

lemma asked_journalled:
  assumes "commit_payload A disk (with_event (answer_event AuditSign (sign_context r) answer) (as_durable st))
      (st\<lparr>as_recent := ts\<rparr>) = (st', Inr x)"
  shows "journalled A r answer st st'"
  using assms by (cases rule: commit_payload_cases) (simp_all add: journalled_def)

text \<open>C35: what a sign call of the KMS backend answers. Either it refuses before asking the provider, with an error
  that says so, and journals nothing; or it asks exactly once, for a key enrolled exactly as named, under the caller's attempt.
  Then a signature is returned only when the provider's answer is journalled in the file under that attempt, and
  the enrolled public key is recovered from the signature and the digest; an error other than \<open>IndeterminateAcceptance\<close> means
  that the answer is journalled, and is the provider's own refusal or follows an answer that does not recover the
  key.\<close>

theorem aws_sign_contract:
  "case aws_sign A disk now provider r st of
     (calls, st', res) \<Rightarrow>
       calls = [] \<and> as_durable st' = as_durable st \<and> as_file st' = as_file st
         \<and> (\<exists>e. res = Inl e \<and> e \<noteq> IndeterminateAcceptance \<and> e \<noteq> DefinitiveRejected)
       \<or> (\<exists>bytes key. calls = [CallSign (kms_request r bytes)] \<and> length bytes = 32
            \<and> map_of (as_enrolled st) (kr_locator (bs_key_ref r)) = Some key \<and> kd_key_ref (ek_description key) = bs_key_ref r
            \<and> (case (res, pv_sign provider (kms_request r bytes)) of
                 (Inr s, Inr response) \<Rightarrow>
                   journalled A r (Inr response) st st' \<and> rp_request_id response \<noteq> []
                   \<and> sg_suite s = bs_suite r \<and> sg_encoding s = signature_encoding_of (bs_suite r)
                   \<and> (\<exists>raw id. aw_from_der A (rp_value response) = Some raw \<and> id \<le> 3
                        \<and> sg_bytes s = aw_sig_bytes A (aw_normalize_s A raw) @ [id]
                        \<and> aw_recover A bytes (aw_normalize_s A raw) id = Some (ek_verifying_key key))
               | (Inr _, Inl _) \<Rightarrow> False
               | (Inl e, answer) \<Rightarrow>
                   e = IndeterminateAcceptance
                   \<or> journalled A r answer st st'
                     \<and> (case answer of
                          Inl f \<Rightarrow> e = into_backend f
                        | Inr response \<Rightarrow> e = DefinitiveRejected
                            \<and> normalize_recoverable_signature A (rp_value response) bytes (ek_verifying_key key) = Inl e)))"
proof (cases "aws_sign A disk now provider r st")
  case (fields calls st' res)
  from fields show ?thesis
  proof (cases rule: aws_sign_cases)
    case (refused ts e)
    then show ?thesis by (simp add: fields)
  next
    case (asked digest bytes key ts d)
    obtain st1 j where d: "commit_payload A disk (with_event (answer_event AuditSign (sign_context r)
         (pv_sign provider (kms_request r bytes))) (as_durable st)) (st\<lparr>as_recent := ts\<rparr>) = (st1, j)" by fastforce
    have suite: "signature_encoding_of (bs_suite r) = Secp256k1Recoverable65" using asked(6) by (auto simp: aws_suites_def)
    show ?thesis
    proof (cases j)
      case (Inl e)
      with asked d show ?thesis unfolding fields prod.case
        by (intro disjI2 exI [of _ bytes] exI [of _ key]) (simp split: sum.split)
    next
      case (Inr x)
      note journal = asked_journalled [OF d [unfolded Inr]]
      let ?n = "\<lambda>response. normalize_recoverable_signature A (rp_value response) bytes (ek_verifying_key key)"
      have res: "res = rbind (answer_result IndeterminateAcceptance (pv_sign provider (kms_request r bytes))) (\<lambda>response.
           rbind (?n response) (\<lambda>normalized. Inr \<lparr>sg_suite = bs_suite r, sg_encoding = Secp256k1Recoverable65,
             sg_bytes = normalized, sg_correlation = Some (rp_request_id response)\<rparr>))" "st' = st1"
        using asked(9-11) d Inr by simp_all
      show ?thesis
      proof (cases "pv_sign provider (kms_request r bytes)")
        case (Inl f)
        with asked(1-7) res journal show ?thesis unfolding fields prod.case
          by (intro disjI2 exI [of _ bytes] exI [of _ key]) (simp add: answer_result_def)
      next
        case (Inr response)
        show ?thesis
        proof (cases "rp_request_id response = [] \<or> \<not> is_ok (?n response)")
          case True
          with asked(1-7) res journal Inr show ?thesis unfolding fields prod.case
            by (intro disjI2 exI [of _ bytes] exI [of _ key], cases "?n response")
              (auto simp: answer_result_def dest: normalize_error)
        next
          case False
          then obtain bs where bs: "?n response = Inr bs" by (cases "?n response") auto
          with asked(1-7) res journal Inr False normalize_InrD [OF bs] suite show ?thesis unfolding fields prod.case
            by (intro disjI2 exI [of _ bytes] exI [of _ key]) (auto simp: answer_result_def)
        qed
      qed
    qed
  qed
qed

subsection \<open>Restarting\<close>

text \<open>What the codecs promise: a written state is read back, and hex decoding undoes encoding.\<close>

definition aws_codec :: "('k, 's) aws_prims \<Rightarrow> bool" where
  "aws_codec A =
     ((\<forall>d tag. aw_decode_state A (p_jcs (aw_prims A) (authenticated_json d tag)) = Some (d, tag))
      \<and> (\<forall>b. p_hex_decode (aw_prims A) (aw_hex A b) = Some b))"

abbreviation load_own :: "('k, 's) aws_prims \<Rightarrow> 'k aws_state \<Rightarrow> aws_payload aws_result" where
  "load_own A st \<equiv> load_authenticated_state A (file_content (as_file st)) (as_key st) (config_digest A (as_config st))"

lemma load_state_bytes:
  "aws_codec A \<Longrightarrow> dp_config d = digest \<Longrightarrow> load_authenticated_state A (FileBytes (state_bytes A key d)) key digest = Inr d"
  by (simp add: load_authenticated_state_def state_bytes_def aws_codec_def)

text \<open>The payload in the file is the one in memory, or the one whose confirmation failed last.\<close>

definition ahead :: "('k, 's) aws_prims \<Rightarrow> 'k aws_state \<Rightarrow> aws_payload \<Rightarrow> bool" where
  "ahead A st d =
     (d = as_durable st \<or> (\<exists>e. d = with_event e (as_durable st))
      \<or> (\<exists>key. validate_enrollment_record A (as_config st) (ek_record key) = Inr key
           \<and> map_of (as_enrolled st) (kr_locator (kd_key_ref (ek_description key))) = None
           \<and> d = (as_durable st)\<lparr>dp_enrollments := dp_enrollments (as_durable st) @ [ek_record key]\<rparr>))"

definition aws_inv :: "('k, 's) aws_prims \<Rightarrow> 'k aws_state \<Rightarrow> bool" where
  "aws_inv A st =
     (config_validate (as_config st) = Inr () \<and> length (as_key st) = 32
      \<and> dp_config (as_durable st) = config_digest A (as_config st)
      \<and> bt_wf (as_enrolled st)
      \<and> load_enrollments A (as_config st) (dp_enrollments (as_durable st)) [] = Inr (as_enrolled st)
      \<and> (\<exists>d. load_own A st = Inr d \<and> ahead A st d))"

definition aws_grows :: "'k aws_state \<Rightarrow> 'k aws_state \<Rightarrow> bool" where
  "aws_grows st st' =
     (as_config st' = as_config st \<and> as_key st' = as_key st
      \<and> (\<forall>arn key. map_of (as_enrolled st) arn = Some key \<longrightarrow> map_of (as_enrolled st') arn = Some key)
      \<and> (\<exists>es. audit_events st' = audit_events st @ es)
      \<and> (\<exists>rs. enrollment_records st' = enrollment_records st @ rs))"

lemma aws_grows_refl: "aws_grows st st"
  by (simp add: aws_grows_def)

lemma aws_grows_trans: "aws_grows a b \<Longrightarrow> aws_grows b c \<Longrightarrow> aws_grows a c"
  by (auto simp: aws_grows_def)

lemma load_enrollments_append:
  "load_enrollments A c (rs @ rs') m = rbind (load_enrollments A c rs m) (load_enrollments A c rs')"
  by (induction rs arbitrary: m) (auto simp: rbind_def split: sum.splits)

lemma load_enrollments_wf: "load_enrollments A c rs m = Inr m' \<Longrightarrow> bt_wf m \<Longrightarrow> bt_wf m'"
  by (induction rs arbitrary: m) (auto simp: rbind_Inr_iff intro: bt_wf_insert)

text \<open>Opening the backend on its own file: everything confirmed is there.\<close>

lemma aws_new_own:
  assumes inv: "aws_inv A st"
  shows "\<exists>st'. aws_new A (as_config st) (as_key st) True (as_file st) = Inr st' \<and> aws_grows st st'"
proof -
  from inv obtain d where d: "load_own A st = Inr d" "ahead A st d" by (auto simp: aws_inv_def)
  have valid: "config_validate (as_config st) = Inr ()" "length (as_key st) = 32" "bt_wf (as_enrolled st)"
    and loaded: "load_enrollments A (as_config st) (dp_enrollments (as_durable st)) [] = Inr (as_enrolled st)"
    using inv by (auto simp: aws_inv_def)
  have "\<exists>m. load_enrollments A (as_config st) (dp_enrollments d) [] = Inr m
      \<and> (\<forall>arn key. map_of (as_enrolled st) arn = Some key \<longrightarrow> map_of m arn = Some key)
      \<and> (\<exists>es. dp_events d = dp_events (as_durable st) @ es) \<and> (\<exists>rs. dp_enrollments d = dp_enrollments (as_durable st) @ rs)"
    using d(2) unfolding ahead_def
  proof (elim disjE exE conjE)
    fix key
    assume key: "validate_enrollment_record A (as_config st) (ek_record key) = Inr key"
      "map_of (as_enrolled st) (kr_locator (kd_key_ref (ek_description key))) = None"
      "d = (as_durable st)\<lparr>dp_enrollments := dp_enrollments (as_durable st) @ [ek_record key]\<rparr>"
    then show ?thesis using loaded valid(3) by (auto simp: load_enrollments_append map_of_bt_insert)
  qed (use loaded in \<open>auto simp: with_event_def\<close>)
  then show ?thesis using d(1) valid by (auto simp: aws_new_def aws_grows_def audit_events_def enrollment_records_def)
qed

lemma aws_new_inv:
  assumes "aws_new A c key True file = Inr st"
  shows "aws_inv A st" "as_config st = c" "as_key st = key" "as_recent st = []"
proof -
  from assms obtain d m where new: "config_validate c = Inr ()" "length key = 32"
    "load_authenticated_state A (file_content file) key (config_digest A c) = Inr d"
    "load_enrollments A c (dp_enrollments d) [] = Inr m"
    "st = \<lparr>as_config = c, as_key = key, as_enrolled = m, as_recent = [], as_durable = d, as_file = file\<rparr>"
    by (auto simp: aws_new_def rbind_Inr_iff split: if_splits)
  have "dp_config d = config_digest A c"
    using new(3) by (auto simp: load_authenticated_state_def rbind_Inr_iff split: file_read.splits if_splits)
  moreover have "bt_wf m" using load_enrollments_wf [OF new(4)] by (simp add: bt_wf_def)
  ultimately show "aws_inv A st" using new by (simp add: aws_inv_def ahead_def)
  show "as_config st = c" "as_key st = key" "as_recent st = []" using new(5) by simp_all
qed

text \<open>The sections under a lock, and the restart. Between two of them other operations may run.\<close>

definition key_offered :: "('k, 's) aws_prims \<Rightarrow> aws_config \<Rightarrow> string \<Rightarrow> 'k enrolled_key \<Rightarrow> bool" where
  "key_offered A c arn key =
     (\<exists>metadata response. is_ok (parse_key_arn arn (ac_region c) (ac_account_id c)) \<and> arn \<in> set (ac_allowed_arns c)
        \<and> is_ok (validate_metadata (rp_value metadata) arn c) \<and> rp_request_id metadata \<noteq> [] \<and> rp_request_id response \<noteq> []
        \<and> enrollment_of A c arn metadata response = Inr key)"

inductive aws_step :: "('k, 's) aws_prims \<Rightarrow> 'k aws_state \<Rightarrow> 'k aws_state \<Rightarrow> bool" for A :: "('k, 's) aws_prims" where
  aws_admit: "admit_provider_call now deadline st = (st', r) \<Longrightarrow> aws_step A st st'"
| aws_journal: "record_audit A disk operation context request_id outcome st = (st', r) \<Longrightarrow> aws_step A st st'"
| aws_insert: "key_offered A (as_config st) arn key \<Longrightarrow> insert_enrollment A disk arn key st = (st', r) \<Longrightarrow> aws_step A st st'"
| aws_restart: "aws_new A (as_config st) (as_key st) True (as_file st) = Inr st' \<Longrightarrow> aws_step A st st'"

lemma offered_valid:
  assumes "key_offered A c arn key"
  shows "validate_enrollment_record A c (ek_record key) = Inr key" "kr_locator (kd_key_ref (ek_description key)) = arn"
  using assms
  by (auto simp: key_offered_def enrollment_of_def rbind_Inr_iff ok_or_Inr_iff Let_def validate_enrollment_record_def
      is_ok_iff validate_metadata_def ensure_def aws_description_def aws_key_ref_def split: if_splits)

lemma commit_payload_inv:
  assumes inv: "aws_inv A st" and codec: "aws_codec A" and d: "dp_config d = dp_config (as_durable st)" "ahead A st d"
    and commit: "commit_payload A disk d st = (st', r)"
  shows "as_config st' = as_config st \<and> as_key st' = as_key st \<and> as_enrolled st' = as_enrolled st"
    and "\<not> is_ok r \<Longrightarrow> aws_inv A st' \<and> as_durable st' = as_durable st"
    and "is_ok r \<Longrightarrow> as_durable st' = d \<and> load_own A st' = Inr d"
proof -
  have load: "load_authenticated_state A (FileBytes (state_bytes A (as_key st) d)) (as_key st) (config_digest A (as_config st)) = Inr d"
    using inv d(1) by (intro load_state_bytes [OF codec]) (simp add: aws_inv_def)
  have "as_config st' = as_config st \<and> as_key st' = as_key st \<and> as_enrolled st' = as_enrolled st
     \<and> (\<not> is_ok r \<longrightarrow> aws_inv A st' \<and> as_durable st' = as_durable st)
     \<and> (is_ok r \<longrightarrow> as_durable st' = d \<and> load_own A st' = Inr d)"
    using commit
  proof (cases rule: commit_payload_cases)
    case (failed e)
    then show ?thesis using inv by simp
  next
    case unsynced
    then show ?thesis using inv load d(2) by (simp add: aws_inv_def file_content_def ahead_def)
  next
    case written
    then show ?thesis using load by (simp add: file_content_def)
  qed
  then show "as_config st' = as_config st \<and> as_key st' = as_key st \<and> as_enrolled st' = as_enrolled st"
    "\<not> is_ok r \<Longrightarrow> aws_inv A st' \<and> as_durable st' = as_durable st"
    "is_ok r \<Longrightarrow> as_durable st' = d \<and> load_own A st' = Inr d" by blast+
qed

lemma aws_inv_recent: "aws_inv A (st\<lparr>as_recent := ts\<rparr>) = aws_inv A st"
  by (simp add: aws_inv_def ahead_def)

lemma journal_step:
  assumes inv: "aws_inv A st" and codec: "aws_codec A"
    and step: "record_audit A disk operation context request_id outcome st = (st', r)"
  shows "aws_inv A st' \<and> aws_grows st st'"
proof -
  let ?d = "with_event (call_event operation context request_id outcome) (as_durable st)"
  have ah: "ahead A st ?d" unfolding ahead_def by blast
  have "dp_config ?d = dp_config (as_durable st)" by (simp add: with_event_def)
  note commit = commit_payload_inv [OF inv codec this ah step [unfolded record_audit_commits]]
  show ?thesis
  proof (cases "is_ok r")
    case False
    with commit show ?thesis by (simp add: aws_grows_def audit_events_def enrollment_records_def)
  next
    case True
    with commit inv show ?thesis
      by (simp add: aws_inv_def ahead_def aws_grows_def audit_events_def enrollment_records_def with_event_def)
  qed
qed

lemma insert_step:
  assumes inv: "aws_inv A st" and codec: "aws_codec A" and offered: "key_offered A (as_config st) arn key"
    and step: "insert_enrollment A disk arn key st = (st', r)"
  shows "aws_inv A st' \<and> aws_grows st st'"
proof (cases "map_of (as_enrolled st) arn")
  case (Some existing)
  with step inv show ?thesis by (simp add: insert_enrollment_def aws_grows_refl)
next
  case None
  note valid = offered_valid [OF offered]
  let ?d = "(as_durable st)\<lparr>dp_enrollments := dp_enrollments (as_durable st) @ [ek_record key]\<rparr>"
  obtain st1 rc where c: "commit_payload A disk ?d st = (st1, rc)" by fastforce
  have ah: "ahead A st ?d" unfolding ahead_def using valid None by auto
  have "dp_config ?d = dp_config (as_durable st)" by simp
  note commit = commit_payload_inv [OF inv codec this ah c]
  have st': "st' = (if is_ok rc then st1\<lparr>as_enrolled := bt_insert arn key (as_enrolled st1)\<rparr> else st1)"
    using step None c by (auto simp: insert_enrollment_def Let_def is_ok_iff split: sum.splits)
  have wf: "bt_wf (as_enrolled st)" using inv by (simp add: aws_inv_def)
  show ?thesis
  proof (cases "is_ok rc")
    case False
    with commit st' show ?thesis by (simp add: aws_grows_def audit_events_def enrollment_records_def)
  next
    case True
    have reload: "load_enrollments A (as_config st) (dp_enrollments ?d) [] = Inr (bt_insert arn key (as_enrolled st))"
      using inv valid by (simp add: aws_inv_def load_enrollments_append)
    with True commit st' inv wf None show ?thesis
      by (auto simp: aws_inv_def ahead_def aws_grows_def audit_events_def enrollment_records_def bt_wf_insert map_of_bt_insert)
  qed
qed

lemma aws_step_inv:
  assumes "aws_step A st st'" "aws_inv A st" "aws_codec A"
  shows "aws_inv A st' \<and> aws_grows st st'"
  using assms
proof cases
  case (aws_admit now deadline r)
  from admit_same [OF this] assms(2) show ?thesis
    by (auto simp: aws_inv_recent aws_grows_def audit_events_def enrollment_records_def)
next
  case aws_restart
  with aws_new_inv [OF aws_restart] aws_new_own [OF assms(2)] show ?thesis by simp
qed (use assms journal_step insert_step in blast)+

interpretation aws: transition_system "aws_step A" "\<lambda>st. aws_codec A \<and> aws_inv A st" aws_grows
  for A :: "('k, 's) aws_prims"
  by unfold_locales (auto dest: aws_step_inv intro: aws_grows_refl aws_grows_trans)

subsection \<open>Operations as runs\<close>

lemma answer_event_call: "\<exists>request_id outcome. answer_event operation context answer = call_event operation context request_id outcome"
  by (simp add: answer_event_def split: sum.split) blast

lemma journal_response_step:
  assumes "journal_response A disk operation context unidentified unjournalled answer st = (st', r)"
  shows "aws_step A st st'" "as_config st' = as_config st"
    and "r = Inr response \<Longrightarrow> answer = Inr response \<and> rp_request_id response \<noteq> []"
proof -
  obtain request_id outcome where e: "answer_event operation context answer = call_event operation context request_id outcome"
    using answer_event_call by blast
  obtain rc where c: "record_audit A disk operation context request_id outcome st = (st', rc)"
    using assms by (auto simp: journal_response_eq record_audit_commits e split: prod.splits sum.splits)
  then show "aws_step A st st'" by (rule aws_journal)
  from c [unfolded record_audit_commits] show "as_config st' = as_config st" by (cases rule: commit_payload_cases) simp_all
  show "answer = Inr response \<and> rp_request_id response \<noteq> []" if "r = Inr response"
    using assms that
    by (auto simp: journal_response_eq answer_result_def split: prod.splits sum.splits if_splits)
qed

lemma aws_sign_run:
  assumes "aws_sign A disk now provider r st = (calls, st', res)"
  shows "(aws_step A)\<^sup>*\<^sup>* st st'"
  using assms
proof (cases rule: aws_sign_cases)
  case (refused ts e)
  then show ?thesis by (auto intro: aws_admit)
next
  case (asked digest bytes key ts d)
  let ?st1 = "st\<lparr>as_recent := ts\<rparr>" and ?answer = "pv_sign provider (kms_request r bytes)"
  obtain st2 rj where j: "journal_response A disk AuditSign (sign_context r) IndeterminateAcceptance (\<lambda>e. e) ?answer ?st1 = (st2, rj)"
    by fastforce
  have "st' = st2" using asked(9,10) j by (auto simp: journal_response_eq split: prod.splits sum.splits)
  with aws_admit [OF asked(8), of A] journal_response_step(1) [OF j] show ?thesis by auto
qed

text \<open>An enrolment is a run that keeps the configuration; a key is returned by its last section, for two answers that
  offered it.\<close>

definition runs :: "('k, 's) aws_prims \<Rightarrow> aws_config \<Rightarrow> ('k, 'a) aws_op \<Rightarrow> bool" where
  "runs A c m = (\<forall>st calls st' res. m st = (calls, st', res) \<longrightarrow> as_config st = c
     \<longrightarrow> (aws_step A)\<^sup>*\<^sup>* st st' \<and> as_config st' = c)"

definition yields :: "('k, 'a) aws_op \<Rightarrow> 'a \<Rightarrow> bool" where
  "yields m x = (\<exists>st calls st'. m st = (calls, st', Inr x))"

lemma runs_bind:
  assumes "runs A c m" "\<And>x. yields m x \<Longrightarrow> runs A c (f x)"
  shows "runs A c (aws_bind m f)"
  unfolding runs_def
proof (intro allI impI)
  fix st calls st' res assume b: "aws_bind m f st = (calls, st', res)" and c: "as_config st = c"
  obtain cs1 st1 r1 where m: "m st = (cs1, st1, r1)" by (cases "m st") auto
  with assms(1) c have first: "(aws_step A)\<^sup>*\<^sup>* st st1" "as_config st1 = c" unfolding runs_def by blast+
  show "(aws_step A)\<^sup>*\<^sup>* st st' \<and> as_config st' = c"
  proof (cases r1)
    case (Inl e)
    with b m first show ?thesis by (simp add: aws_bind_def)
  next
    case (Inr x)
    obtain cs2 st2 r2 where f: "f x st1 = (cs2, st2, r2)" by (cases "f x st1") auto
    have "yields m x" using m Inr by (auto simp: yields_def)
    with assms(2) f first(2) have "(aws_step A)\<^sup>*\<^sup>* st1 st2" "as_config st2 = c" unfolding runs_def by blast+
    with b m Inr f first show ?thesis by (auto simp: aws_bind_def)
  qed
qed

lemma yields_check: "yields (check_that res) x \<Longrightarrow> res = Inr x"
  and yields_calling: "yields (calling q answer) x \<Longrightarrow> x = answer"
  by (simp_all add: yields_def check_that_def calling_def)

lemma yields_journal:
  "yields (locked (journal_response A disk operation context u j answer)) x \<Longrightarrow> answer = Inr x \<and> rp_request_id x \<noteq> []"
  using journal_response_step(3) by (fastforce simp: yields_def locked_def split: prod.splits)

lemma runs_check: "runs A c (check_that res)" and runs_calling: "runs A c (calling q answer)"
  by (simp_all add: runs_def check_that_def calling_def)

lemma runs_admit: "runs A c (locked (admit_provider_call now deadline))"
  unfolding runs_def locked_def by (auto split: prod.splits intro: aws_admit dest: admit_same)

lemma runs_journal: "runs A c (locked (journal_response A disk operation context u j answer))"
  using journal_response_step(1,2) by (fastforce simp: runs_def locked_def split: prod.splits)

lemma insert_config: "insert_enrollment A disk arn key st = (st', r) \<Longrightarrow> as_config st' = as_config st"
  by (auto simp: insert_enrollment_def Let_def split: option.splits prod.splits sum.splits elim!: commit_payload_cases)

lemma runs_insert: "key_offered A c arn key \<Longrightarrow> runs A c (locked (insert_enrollment A disk arn key))"
  unfolding runs_def locked_def by (auto split: prod.splits intro: aws_insert dest: insert_config)

definition ends :: "('k, 's) aws_prims \<Rightarrow> aws_config \<Rightarrow> ('k, 'a) aws_op \<Rightarrow> ('k aws_state \<Rightarrow> 'k aws_state \<Rightarrow> 'a \<Rightarrow> bool) \<Rightarrow> bool" where
  "ends A c m Q = (\<forall>st calls st' x. m st = (calls, st', Inr x) \<longrightarrow> as_config st = c
     \<longrightarrow> (\<exists>st1. (aws_step A)\<^sup>*\<^sup>* st st1 \<and> as_config st1 = c \<and> Q st1 st' x))"

lemma ends_bind:
  assumes "runs A c m" "\<And>x. yields m x \<Longrightarrow> ends A c (f x) Q"
  shows "ends A c (aws_bind m f) Q"
  unfolding ends_def
proof (intro allI impI)
  fix st calls st' y assume b: "aws_bind m f st = (calls, st', Inr y)" and c: "as_config st = c"
  then obtain cs1 st1 x cs2 where m: "m st = (cs1, st1, Inr x)" "f x st1 = (cs2, st', Inr y)"
    by (auto simp: aws_bind_def split: prod.splits sum.splits)
  with assms(1) c have first: "(aws_step A)\<^sup>*\<^sup>* st st1" "as_config st1 = c" unfolding runs_def by blast+
  have "yields m x" using m by (auto simp: yields_def)
  with assms(2) m(2) first(2) obtain st2 where "(aws_step A)\<^sup>*\<^sup>* st1 st2" "as_config st2 = c" "Q st2 st' y"
    unfolding ends_def by blast
  with first show "\<exists>st2. (aws_step A)\<^sup>*\<^sup>* st st2 \<and> as_config st2 = c \<and> Q st2 st' y" by (meson rtranclp_trans)
qed

lemma runsD: "m st = (calls, st', res) \<Longrightarrow> runs A (as_config st) m \<Longrightarrow> (aws_step A)\<^sup>*\<^sup>* st st'"
  by (auto simp: runs_def)

lemma endsD: "m st = (calls, st', Inr x) \<Longrightarrow> ends A (as_config st) m Q
   \<Longrightarrow> \<exists>st1. (aws_step A)\<^sup>*\<^sup>* st st1 \<and> as_config st1 = as_config st \<and> Q st1 st' x"
  by (auto simp: ends_def)

lemma ends_insert:
  "key_offered A c arn key \<Longrightarrow> ends A c (locked (insert_enrollment A disk arn key))
     (\<lambda>st1 st' d. \<exists>key. key_offered A c arn key \<and> insert_enrollment A disk arn key st1 = (st', Inr d))"
  by (auto simp: ends_def locked_def split: prod.splits)

lemmas aws_run_intros = runs_bind runs_check runs_calling runs_admit runs_journal

lemma offeredI:
  assumes "yields (check_that (parse_key_arn arn (ac_region c) (ac_account_id c))) x"
    "yields (check_that (ensure (arn \<in> set (ac_allowed_arns c)) InvalidRequest)) y"
    "yields (locked (journal_response A disk op context u j answer)) m"
    "yields (check_that (validate_metadata (rp_value m) arn c)) z"
    "yields (locked (journal_response A disk op' context' u' j' answer')) q"
    "yields (check_that (enrollment_of A c arn m q)) key"
  shows "key_offered A c arn key"
  unfolding key_offered_def
  using yields_check [OF assms(1)] yields_check [OF assms(2)] yields_check [OF assms(4)] yields_check [OF assms(6)]
    yields_journal [OF assms(3)] yields_journal [OF assms(5)]
  by (auto simp: ensure_def is_ok_iff split: if_splits)

lemma enroll_key_run:
  assumes "enroll_key A disk now1 now2 provider arn deadline st = (calls, st', res)"
  shows "(aws_step A)\<^sup>*\<^sup>* st st'"
proof -
  have "runs A c (enroll_steps A disk now1 now2 provider arn deadline c)" for c
    unfolding enroll_steps_def Let_def by (intro aws_run_intros runs_insert offeredI)
  from runsD [OF assms [unfolded enroll_key_def] this] show ?thesis .
qed

lemma enroll_key_okD:
  assumes "enroll_key A disk now1 now2 provider arn deadline st = (calls, st', Inr d)"
  shows "\<exists>st1. (aws_step A)\<^sup>*\<^sup>* st st1 \<and> as_config st1 = as_config st
     \<and> (\<exists>key. key_offered A (as_config st) arn key \<and> insert_enrollment A disk arn key st1 = (st', Inr d))"
proof -
  have "ends A c (enroll_steps A disk now1 now2 provider arn deadline c)
     (\<lambda>st1 st' d. \<exists>key. key_offered A c arn key \<and> insert_enrollment A disk arn key st1 = (st', Inr d))" for c
    unfolding enroll_steps_def Let_def by (intro ends_bind aws_run_intros ends_insert offeredI)
  from endsD [OF assms [unfolded enroll_key_def] this] show ?thesis .
qed

lemma insert_enrolled:
  assumes "bt_wf (as_enrolled st)" "insert_enrollment A disk arn key st = (st', Inr d)"
  shows "d = ek_description key" "\<exists>key'. map_of (as_enrolled st') arn = Some key' \<and> ek_description key' = d"
proof -
  have "d = ek_description key \<and> (\<exists>key'. map_of (as_enrolled st') arn = Some key' \<and> ek_description key' = d)"
  proof (cases "map_of (as_enrolled st) arn")
    case (Some existing)
    with assms(2) show ?thesis by (auto simp: insert_enrollment_def split: if_splits)
  next
    case None
    with assms(2) obtain st1 where st1: "commit_payload A disk
        ((as_durable st)\<lparr>dp_enrollments := dp_enrollments (as_durable st) @ [ek_record key]\<rparr>) st = (st1, Inr ())"
      "st' = st1\<lparr>as_enrolled := bt_insert arn key (as_enrolled st1)\<rparr>" "d = ek_description key"
      by (auto simp: insert_enrollment_def Let_def split: prod.splits sum.splits)
    from st1(1) have "as_enrolled st1 = as_enrolled st" by (cases rule: commit_payload_cases) simp_all
    with st1 assms(1) show ?thesis by (simp add: map_of_bt_insert)
  qed
  then show "d = ek_description key" "\<exists>key'. map_of (as_enrolled st') arn = Some key' \<and> ek_description key' = d" by blast+
qed

lemma offered_description:
  assumes "key_offered A c arn key"
  shows "arn \<in> set (ac_allowed_arns c)" "kr_locator (kd_key_ref (ek_description key)) = arn"
    "kd_fingerprint (ek_description key) = p_sha256 (aw_prims A) (kd_spki (ek_description key))"
    "kr_fingerprint (kd_key_ref (ek_description key)) = kd_fingerprint (ek_description key)"
  using assms
  by (auto simp: key_offered_def enrollment_of_def rbind_Inr_iff ok_or_Inr_iff Let_def aws_description_def aws_key_ref_def
      split: if_splits)

text \<open>C37: an enrolled key is never lost or replaced. When \<open>enroll_key\<close> returns a description, its key is on the list of
  allowed keys and bound to the fingerprint of its public key, and from then on, whatever the backend does, the
  key is described exactly so; also after a restart at any later moment, which always succeeds, even when writing the
  file failed in between. A written state has to be read back as it was, and hex decoding has to undo encoding.\<close>

theorem enrolled_key_survives:
  assumes start: "aws_new A c key True file = Inr st0" and codec: "aws_codec A" and before: "(aws_step A)\<^sup>*\<^sup>* st0 st"
    and enroll: "enroll_key A disk now1 now2 provider arn deadline st = (calls, st', Inr d)"
    and after: "(aws_step A)\<^sup>*\<^sup>* st' st2"
  shows "arn \<in> set (ac_allowed_arns c) \<and> kr_locator (kd_key_ref d) = arn
     \<and> kr_fingerprint (kd_key_ref d) = p_sha256 (aw_prims A) (kd_spki d)
     \<and> aws_describe_key st2 (kd_key_ref d) = Inr d
     \<and> (\<exists>st3. aws_new A c key True (as_file st2) = Inr st3 \<and> aws_describe_key st3 (kd_key_ref d) = Inr d)"
proof -
  note new = aws_new_inv [OF start]
  have inv: "aws_codec A \<and> aws_inv A s" "as_config s = c" "as_key s = key" if "(aws_step A)\<^sup>*\<^sup>* st0 s" for s
    using aws.run_inv [OF that] aws.run_grows [OF that] codec new by (auto simp: aws_grows_def)
  obtain st1 k where st1: "(aws_step A)\<^sup>*\<^sup>* st st1" "key_offered A c arn k" "insert_enrollment A disk arn k st1 = (st', Inr d)"
    using enroll_key_okD [OF enroll] inv(2) [OF before] by auto
  have "bt_wf (as_enrolled st1)" using inv(1) [OF rtranclp_trans [OF before st1(1)]] by (simp add: aws_inv_def)
  note ins = insert_enrolled [OF this st1(3)] and desc = offered_description [OF st1(2)]
  obtain k' where k': "map_of (as_enrolled st') arn = Some k'" "ek_description k' = d" using ins(2) by blast
  have described: "aws_describe_key s (kd_key_ref d) = Inr d" if "aws_grows st' s" for s
    using that k' ins(1) desc(2) by (auto simp: aws_grows_def aws_describe_key_def enrolled_key_of_def)
  have run': "(aws_step A)\<^sup>*\<^sup>* st0 st'" using before enroll_key_run [OF enroll] by (rule rtranclp_trans)
  have run2: "(aws_step A)\<^sup>*\<^sup>* st0 st2" using run' after by (rule rtranclp_trans)
  have grows: "aws_grows st' st2" using aws.run_grows [OF after] inv(1) [OF run'] by blast
  obtain st3 where "aws_new A c key True (as_file st2) = Inr st3" "aws_grows st2 st3"
    using aws_new_own [of A st2] inv [OF run2] by auto
  with described grows aws_grows_trans desc ins(1) show ?thesis by metis
qed

end
