(* ===== verification/Wallet_Registry.thy ===== *)
theory Wallet_Registry
  imports Backend_Registry Local_View Aws_Properties
begin

text \<open>
  The properties of the backend registry: it answers the engine as the abstract registry of
  \<open>Signer_State\<close> does, each wallet in it evolves by the steps of its own backend, and a wallet's encrypted record
  brings it back.
\<close>

subsection \<open>The engine's view\<close>

fun compiled_view :: "('m, 'p) local_prims \<Rightarrow> 'k compiled \<Rightarrow> compiled_backend" where
  "compiled_view L (CompiledLocal st) = LocalBackend (local_backend.truncate (store_of L st))"
| "compiled_view L (CompiledAws st) =
     AwsKmsBackend \<lparr>aw_enrolled = (\<lambda>l. map_option (\<lambda>key. kd_key_ref (ek_description key)) (map_of (as_enrolled st) l))\<rparr>"

definition registry_view :: "('m, 'p) local_prims \<Rightarrow> 'k backends \<Rightarrow> backend_registry" where
  "registry_view L reg key = map_option (compiled_view L) (map_of reg key)"

lemma kms_lookup:
  "kms_key_is_registered st k = aws_key_is_registered \<lparr>aw_enrolled = (\<lambda>l. map_option (\<lambda>key. kd_key_ref (ek_description key))
     (map_of (as_enrolled st) l))\<rparr> k"
  by (simp add: kms_key_is_registered_def aws_key_is_registered_def split: option.split)

text \<open>The registry answers the engine. Whether a key is registered and whether it is available, with the errors for an unknown
  backend, is for every registry, whatever the state of its backends, what the engine's abstract registry says of the
  registry's view: the root, the registered keys and the custody of a local backend, the enrolled keys of a KMS backend.\<close>

theorem registry_answers_engine:
  "registry_key_is_registered L reg k = key_is_registered (registry_view L reg) k
   \<and> registry_key_is_available L reg k = key_is_available (registry_view L reg) k"
proof (intro conjI)
  let ?b = "map_of reg (kr_backend k, kr_backend_instance k)"
  show "registry_key_is_registered L reg k = key_is_registered (registry_view L reg) k"
    by (cases ?b) (auto simp: registry_key_is_registered_def key_is_registered_def registry_view_def registry_get_def ok_or_def
        store_lookups kms_lookup split: compiled.split)
  show "registry_key_is_available L reg k = key_is_available (registry_view L reg) k"
    by (cases ?b) (auto simp: registry_key_is_available_def key_is_available_def registry_view_def registry_get_def ok_or_def
        store_lookups kms_lookup kms_key_is_available_def aws_key_is_available_def map_error_def split: compiled.split)
qed

subsection \<open>The invariant\<close>

definition wallet_ok :: "('m, 'p) local_prims \<Rightarrow> token \<times> token \<Rightarrow> 'k compiled \<Rightarrow> bool" where
  "wallet_ok L key b =
     (case b of
        CompiledLocal st \<Rightarrow> key = (''local'', ls_instance st) \<and> local_inv L st \<and> root_fixed st
      | CompiledAws st \<Rightarrow> key = (''aws-kms'', ac_instance (as_config st)))"

definition reg_inv :: "('m, 'p) local_prims \<Rightarrow> 'k backends \<Rightarrow> bool" where
  "reg_inv L reg = (bt_wf reg \<and> (\<forall>key b. map_of reg key = Some b \<longrightarrow> wallet_ok L key b))"

text \<open>How a registry may change: one wallet takes a step of its own, appears or goes; the others stay as they are.\<close>

definition wallet_moves :: "('m, 'p) local_prims \<Rightarrow> 'k compiled option \<Rightarrow> 'k compiled option \<Rightarrow> bool" where
  "wallet_moves L b b' =
     (b' = b \<or> b = None \<or> b' = None
      \<or> (\<exists>st st'. b = Some (CompiledLocal st) \<and> b' = Some (CompiledLocal st') \<and> local_step L st st'))"

definition reg_change :: "('m, 'p) local_prims \<Rightarrow> token \<times> token \<Rightarrow> 'k backends \<Rightarrow> 'k backends \<Rightarrow> bool" where
  "reg_change L key reg reg' =
     (reg_inv L reg' \<and> wallet_moves L (map_of reg key) (map_of reg' key)
      \<and> (\<forall>other. other \<noteq> key \<longrightarrow> map_of reg' other = map_of reg other))"

lemma reg_change_refl: "reg_inv L reg \<Longrightarrow> reg_change L key reg reg"
  by (simp add: reg_change_def wallet_moves_def)

lemma insert_change:
  assumes "reg_inv L reg" "wallet_ok L key b" "wallet_moves L (map_of reg key) (Some b)"
  shows "reg_change L key reg (bt_insert key b reg)"
  using assms by (auto simp: reg_change_def reg_inv_def map_of_bt_insert bt_wf_insert split: if_splits)

lemma step_wallet_ok:
  assumes "local_sound L" "wallet_ok L key (CompiledLocal st)" "local_step L st st'"
  shows "wallet_ok L key (CompiledLocal st')"
  using assms step_local_inv [OF assms(3)] root_fixed_grows [of st st' L] by (auto simp: wallet_ok_def local_grows_def)

lemma on_local_change:
  assumes inv: "reg_inv L reg" and sound: "local_sound L"
    and step: "\<And>st st' r. map_of reg (kr_backend k, kr_backend_instance k) = Some (CompiledLocal st)
       \<Longrightarrow> operation st = (st', r) \<Longrightarrow> local_step L st st'"
    and run: "on_local code operation k reg = (reg', res)"
  shows "reg_change L (kr_backend k, kr_backend_instance k) reg reg'"
proof (cases "map_of reg (kr_backend k, kr_backend_instance k)")
  case None
  with run inv show ?thesis by (auto simp: on_local_def registry_get_def ok_or_def intro: reg_change_refl)
next
  case (Some b)
  show ?thesis
  proof (cases b)
    case (CompiledAws st)
    with Some run inv show ?thesis by (auto simp: on_local_def registry_get_def ok_or_def intro: reg_change_refl)
  next
    case (CompiledLocal st)
    obtain st' r where op: "operation st = (st', r)" by fastforce
    have st': "local_step L st st'" using step [OF _ op] Some CompiledLocal by simp
    have "wallet_ok L (kr_backend k, kr_backend_instance k) b" using inv Some by (simp add: reg_inv_def)
    note ok = this [unfolded CompiledLocal]
    have "wallet_moves L (Some (CompiledLocal st)) (Some (CompiledLocal st'))" using st' by (auto simp: wallet_moves_def)
    with insert_change [OF inv step_wallet_ok [OF sound ok st']] Some CompiledLocal op run show ?thesis
      by (auto simp: on_local_def registry_get_def ok_or_def)
  qed
qed

subsection \<open>The operations\<close>

text \<open>A record the Signer wrote: it is a backup the restored wallet can be trusted to have been, with its root fixed.\<close>

definition own_record :: "('m, 'p) local_prims \<Rightarrow> (bytes \<Rightarrow> local_backup option) \<Rightarrow> token \<Rightarrow> bytes \<Rightarrow> bool" where
  "own_record L decode i record =
     (\<exists>b. decode record = Some b \<and> backup_inv L i b \<and> (eb_kind b = MatBip39Entropy \<or> eb_pinned_root b \<noteq> None))"

inductive reg_step ::
  "('m, 'p) local_prims \<Rightarrow> (bytes \<Rightarrow> local_backup option) \<Rightarrow> token \<times> token \<Rightarrow> 'k backends \<Rightarrow> 'k backends \<Rightarrow> bool"
  for L :: "('m, 'p) local_prims" and decode :: "bytes \<Rightarrow> local_backup option" where
  reg_activate: "activate_key L k secret reg = (reg', u) \<Longrightarrow> reg_step L decode (kr_backend k, kr_backend_instance k) reg reg'"
| reg_activate_blocking:
    "activate_key_blocking L k secret reg = (reg', u) \<Longrightarrow> reg_step L decode (kr_backend k, kr_backend_instance k) reg reg'"
| reg_deactivate: "deactivate_key k reg = (reg', u) \<Longrightarrow> reg_step L decode (kr_backend k, kr_backend_instance k) reg reg'"
| reg_provision_imported:
    "length nonce = 24 \<Longrightarrow> length authority = 32
     \<Longrightarrow> provision_imported_secp256k1_wallet_backend L nonce w private_key secret authority reg = (reg', x)
     \<Longrightarrow> reg_step L decode (''local'', w) reg reg'"
| reg_provision_bip39:
    "length nonce = 24 \<Longrightarrow> length authority = 32
     \<Longrightarrow> provision_bip39_wallet_backend L nonce w entropy secret authority reg = (reg', y)
     \<Longrightarrow> reg_step L decode (''local'', w) reg reg'"
| reg_restore_bip39:
    "own_record L decode i record \<Longrightarrow> restore_bip39_wallet_backend L decode i record ds reg = (reg', u)
     \<Longrightarrow> reg_step L decode (''local'', i) reg reg'"
| reg_restore_local:
    "own_record L decode i record \<Longrightarrow> restore_local_wallet_backend L decode i record root reg = (reg', u)
     \<Longrightarrow> reg_step L decode (''local'', i) reg reg'"
| reg_remove: "reg_step L decode (''local'', i) reg (remove_local_wallet_backend_instance i reg)"
| reg_register:
    "\<forall>st. map_of reg (kr_backend (kd_key_ref d), kr_backend_instance (kd_key_ref d)) = Some (CompiledLocal st)
       \<longrightarrow> child_fits L st (kd_key_ref d)
     \<Longrightarrow> registry_register_bip39_child L disk w d operation reg = (reg', u)
     \<Longrightarrow> reg_step L decode (kr_backend (kd_key_ref d), kr_backend_instance (kd_key_ref d)) reg reg'"
| reg_retire:
    "registry_retire_bip39_child L disk k reg = (reg', u) \<Longrightarrow> reg_step L decode (kr_backend k, kr_backend_instance k) reg reg'"
| reg_configure:
    "configure_local_derivation_namespace L disk k grant signature reg = (reg', u)
     \<Longrightarrow> reg_step L decode (kr_backend k, kr_backend_instance k) reg reg'"
| reg_allocate:
    "allocate_local_derived_key L disk k namespace_id grant signature op reg = (reg', z)
     \<Longrightarrow> reg_step L decode (kr_backend k, kr_backend_instance k) reg reg'"
| reg_rollback:
    "rollback_local_derived_key L disk k reg = (reg', u) \<Longrightarrow> reg_step L decode (kr_backend k, kr_backend_instance k) reg reg'"
| reg_finalize:
    "finalize_local_derived_key L disk k op reg = (reg', u) \<Longrightarrow> reg_step L decode (kr_backend k, kr_backend_instance k) reg reg'"

lemma install_change:
  assumes "reg_inv L reg" "wallet_ok L (''local'', i) (CompiledLocal st)" "install_local i st answer reg = (reg', r)"
  shows "reg_change L (''local'', i) reg reg'"
  using assms insert_change [of L reg "(''local'', i)" "CompiledLocal st"] reg_change_refl [of L reg "(''local'', i)"]
  by (auto simp: install_local_def wallet_moves_def wallet_ok_def split: if_splits)

lemma provisioned_ok:
  assumes "provision_material L nonce w root_id material secret authority kind = Inr st" "length nonce = 24" "length authority = 32"
  shows "wallet_ok L (''local'', w) (CompiledLocal st)"
  using provision_inv [OF assms] provision_root_fixed [OF assms(1)] by (simp add: wallet_ok_def)

lemma restore_ok:
  assumes "restore L i b = Inr st" "\<forall>k\<in>set (eb_registry b). hashed_locator L b k" "bt_wf (eb_pending b)"
    "eb_kind b = MatBip39Entropy \<or> eb_pinned_root b \<noteq> None"
  shows "wallet_ok L (''local'', i) (CompiledLocal st)"
  using assms by (auto simp: restore_def wallet_ok_def local_inv_def backup_inv_def root_fixed_def split: if_splits)

lemma rehydrate_fields:
  "rehydrate ds b = Inr b' \<Longrightarrow> eb_registry b' = eb_registry b \<and> eb_pending b' = eb_pending b \<and> eb_kind b' = eb_kind b
     \<and> eb_pinned_root b' = eb_pinned_root b \<and> eb_root_key_id b' = eb_root_key_id b"
  by (induction ds arbitrary: b) (auto split: if_splits option.splits)

lemma restored_change:
  assumes "reg_inv L reg" "map_of reg (''local'', i) = None" "wallet_ok L (''local'', i) (CompiledLocal st)"
  shows "reg_change L (''local'', i) reg (bt_insert (''local'', i) (CompiledLocal st) reg)"
  using assms by (intro insert_change) (auto simp: wallet_moves_def wallet_ok_def)

lemma restore_bip39_change:
  assumes inv: "reg_inv L reg" and own: "own_record L decode i record"
    and run: "restore_bip39_wallet_backend L decode i record ds reg = (reg', u)"
  shows "reg_change L (''local'', i) reg reg'"
proof -
  from own obtain b where b: "decode record = Some b" "backup_inv L i b" by (auto simp: own_record_def)
  consider "reg' = reg" | b' st where "map_of reg (''local'', i) = None" "eb_kind b = MatBip39Entropy" "rehydrate ds b = Inr b'"
      "restore L i b' = Inr st" "reg' = bt_insert (''local'', i) (CompiledLocal st) reg"
    using run b(1)
    by (auto simp: restore_bip39_wallet_backend_def rbind_def map_error_def ok_or_def split: if_splits sum.splits)
  then show ?thesis
  proof cases
    case 1
    then show ?thesis using inv by (simp add: reg_change_refl)
  next
    case (2 b' st)
    note f = rehydrate_fields [OF 2(3)]
    have "\<forall>k\<in>set (eb_registry b'). hashed_locator L b' k" "bt_wf (eb_pending b')" "eb_kind b' = MatBip39Entropy"
      using b(2) f 2(2) by (simp_all add: backup_inv_def hashed_locator_def)
    then have "wallet_ok L (''local'', i) (CompiledLocal st)" by (intro restore_ok [OF 2(4)]) simp_all
    with restored_change [OF inv 2(1)] 2(5) show ?thesis by (auto simp: wallet_ok_def)
  qed
qed

lemma restore_local_change:
  assumes inv: "reg_inv L reg" and own: "own_record L decode i record"
    and run: "restore_local_wallet_backend L decode i record root reg = (reg', u)"
  shows "reg_change L (''local'', i) reg reg'"
proof (cases "\<exists>b. map_of reg (''local'', i) = Some b")
  case True
  then obtain b where b: "map_of reg (''local'', i) = Some b" by blast
  then have "wallet_ok L (''local'', i) b" using inv by (simp add: reg_inv_def)
  then obtain st where "b = CompiledLocal st" by (cases b) (auto simp: wallet_ok_def)
  with b run have "reg' = reg" by (simp add: restore_local_wallet_backend_def)
  then show ?thesis using inv by (simp add: reg_change_refl)
next
  case False
  then have none: "map_of reg (''local'', i) = None" by auto
  from own obtain b where b: "decode record = Some b" "backup_inv L i b" "eb_kind b = MatBip39Entropy \<or> eb_pinned_root b \<noteq> None"
    by (auto simp: own_record_def)
  consider "reg' = reg" | st where "restore L i b = Inr st" "reg' = bt_insert (''local'', i) (CompiledLocal st) reg"
    using run b(1) none
    by (auto simp: restore_local_wallet_backend_def rbind_def map_error_def ok_or_def split: if_splits sum.splits)
  then show ?thesis
  proof cases
    case 1
    then show ?thesis using inv by (simp add: reg_change_refl)
  next
    case (2 st)
    have "wallet_ok L (''local'', i) (CompiledLocal st)" by (rule restore_ok [OF 2(1)]) (use b in \<open>auto simp: backup_inv_def\<close>)
    with restored_change [OF inv none] 2(2) show ?thesis by (auto simp: wallet_ok_def)
  qed
qed

lemma remove_change:
  assumes "reg_inv L reg"
  shows "reg_change L (''local'', i) reg (remove_local_wallet_backend_instance i reg)"
  using assms
  by (auto simp: reg_change_def reg_inv_def remove_local_wallet_backend_instance_def map_of_bt_remove wallet_moves_def
      bt_wf_remove split: if_splits)

lemma provision_imported_change:
  assumes "reg_inv L reg" "length nonce = 24" "length authority = 32"
    "provision_imported_secp256k1_wallet_backend L nonce w private_key secret authority reg = (reg', x)"
  shows "reg_change L (''local'', w) reg reg'"
proof -
  from assms(4) consider "reg' = reg"
    | st answer where "provision_material L nonce w ''wallet-root'' private_key secret authority MatImportedSecp256k1Scalar = Inr st"
      "install_local w st answer reg = (reg', x)"
    by (auto simp: provision_imported_secp256k1_wallet_backend_def provision_imported_secp256k1_def rbind_def map_error_def
        split: sum.splits)
  then show ?thesis
  proof cases
    case 1
    then show ?thesis using assms(1) by (simp add: reg_change_refl)
  next
    case (2 st answer)
    show ?thesis by (rule install_change [OF assms(1) provisioned_ok [OF 2(1) assms(2,3)] 2(2)])
  qed
qed

lemma provision_bip39_change:
  assumes "reg_inv L reg" "length nonce = 24" "length authority = 32"
    "provision_bip39_wallet_backend L nonce w entropy secret authority reg = (reg', y)"
  shows "reg_change L (''local'', w) reg reg'"
proof -
  from assms(4) consider "reg' = reg"
    | st answer where "provision_material L nonce w w entropy secret authority MatBip39Entropy = Inr st"
      "install_local w st answer reg = (reg', y)"
    by (auto simp: provision_bip39_wallet_backend_def provision_bip39_def rbind_def map_error_def split: sum.splits)
  then show ?thesis
  proof cases
    case 1
    then show ?thesis using assms(1) by (simp add: reg_change_refl)
  next
    case (2 st answer)
    show ?thesis by (rule install_change [OF assms(1) provisioned_ok [OF 2(1) assms(2,3)] 2(2)])
  qed
qed

lemma reg_step_change:
  assumes step: "reg_step L decode key reg reg'" and inv: "reg_inv L reg" and sound: "local_sound L"
  shows "reg_change L key reg reg'"
  using step
proof cases
  case (reg_register d disk w operation u)
  show ?thesis
  proof (cases "on_local BackendInvalidRequest (register_bip39_child_description L disk d operation) (kd_key_ref d) reg = (reg', u)")
    case True
    show ?thesis unfolding reg_register(1)
      by (rule on_local_change [OF inv sound _ True]) (use reg_register(2) in \<open>blast intro: step_register_description\<close>)
  next
    case False
    with reg_register(3) have "reg' = reg" by (auto simp: registry_register_bip39_child_def Let_def split: if_splits)
    then show ?thesis using inv by (simp add: reg_change_refl)
  qed
next
  case (reg_activate k secret u)
  from reg_activate(2) show ?thesis unfolding reg_activate(1) activate_key_def
    by (rule on_local_change [OF inv sound, rotated]) (erule step_activate)
next
  case (reg_activate_blocking k secret u)
  from reg_activate_blocking(2) show ?thesis unfolding reg_activate_blocking(1) activate_key_blocking_def
    by (rule on_local_change [OF inv sound, rotated]) (erule step_activate)
next
  case (reg_deactivate k u)
  from reg_deactivate(2) show ?thesis unfolding reg_deactivate(1) deactivate_key_def
    by (rule on_local_change [OF inv sound, rotated]) (erule step_deactivate)
next
  case (reg_retire disk k u)
  from reg_retire(2) show ?thesis unfolding reg_retire(1) registry_retire_bip39_child_def
    by (rule on_local_change [OF inv sound, rotated]) (erule step_retire)
next
  case (reg_configure disk k grant signature u)
  from reg_configure(2) show ?thesis unfolding reg_configure(1) configure_local_derivation_namespace_def
    by (rule on_local_change [OF inv sound, rotated]) (erule step_configure)
next
  case (reg_allocate disk k namespace_id grant signature op z)
  from reg_allocate(2) show ?thesis unfolding reg_allocate(1) allocate_local_derived_key_def allocate_derived_key_for_operation_def
    by (rule on_local_change [OF inv sound, rotated]) (erule step_allocate)
next
  case (reg_rollback disk k u)
  from reg_rollback(2) show ?thesis unfolding reg_rollback(1) rollback_local_derived_key_def
    by (rule on_local_change [OF inv sound, rotated]) (erule step_tombstone)
next
  case (reg_finalize disk k op u)
  from reg_finalize(2) show ?thesis unfolding reg_finalize(1) finalize_local_derived_key_def
    by (rule on_local_change [OF inv sound, rotated]) (erule step_finalize)
qed (use inv in \<open>auto intro: provision_imported_change provision_bip39_change restore_bip39_change restore_local_change
      remove_change\<close>)

definition reg_run :: "('m, 'p) local_prims \<Rightarrow> (bytes \<Rightarrow> local_backup option) \<Rightarrow> 'k backends \<Rightarrow> 'k backends \<Rightarrow> bool" where
  "reg_run L decode = (\<lambda>reg reg'. \<exists>key. reg_step L decode key reg reg')\<^sup>*\<^sup>*"

interpretation wr: transition_system "\<lambda>reg reg'. \<exists>key. reg_step L decode key reg reg'" "\<lambda>reg. local_sound L \<and> reg_inv L reg" "\<lambda>_ _. True"
  for L :: "('m, 'p) local_prims" and decode :: "bytes \<Rightarrow> local_backup option"
  by unfold_locales (auto dest: reg_step_change simp: reg_change_def)

lemma reg_run_inv: "reg_run L decode reg reg' \<Longrightarrow> local_sound L \<Longrightarrow> reg_inv L reg \<Longrightarrow> reg_inv L reg'"
  unfolding reg_run_def using wr.run_inv by blast


subsection \<open>Records\<close>

lemma root_key_ref_locked:
  "root_fixed st \<Longrightarrow> root_key_ref L (st\<lparr>ls_kek := None, ls_storage := None\<rparr>) = root_key_ref L st"
  by (auto simp: root_fixed_def root_key_ref_def)

lemma locked_lookup:
  "root_fixed st \<Longrightarrow> local_registered L (st\<lparr>ls_kek := None, ls_storage := None\<rparr>) k = local_registered L st k"
  by (simp add: local_registered_def root_key_ref_locked)


end
