(* ===== verification/Aws_Sample.thy ===== *)
theory Aws_Sample
  imports Aws_Properties "HOL-Library.Countable"
begin

text \<open>
  A concrete instance of the KMS backend's primitives, on which its properties are applied: a JSON
  value is encoded by its number in an enumeration of all values, keys and signatures are bytes.
\<close>

instance json :: countable
  by countable_datatype

definition enum_jcs :: "json \<Rightarrow> bytes" where
  "enum_jcs j = replicate (to_nat j) 0"

lemma enum_jcs_inject: "enum_jcs i = enum_jcs j \<longleftrightarrow> i = j"
proof
  assume "enum_jcs i = enum_jcs j"
  then have "length (enum_jcs i) = length (enum_jcs j)" by simp
  then show "i = j" by (simp add: enum_jcs_def)
qed simp

subsection \<open>The stored state is written without loss\<close>

lemma metadata_json_inject: "metadata_json m = metadata_json m' \<longleftrightarrow> m = m'"
  by (auto simp: metadata_json_def intro!: key_metadata.equality)

lemma enrollment_json_inject: "enrollment_json r = enrollment_json r' \<longleftrightarrow> r = r'"
  by (auto simp: enrollment_json_def metadata_json_inject intro!: enrollment_record.equality)

lemma error_kind_name_inject: "error_kind_name k = error_kind_name k' \<longleftrightarrow> k = k'"
  by (cases k; cases k') simp_all

lemma audit_outcome_json_inject: "audit_outcome_json x = audit_outcome_json y \<longleftrightarrow> x = y"
  by (cases x; cases y) (simp_all add: error_kind_name_inject)

lemma audit_operation_name_inject: "audit_operation_name x = audit_operation_name y \<longleftrightarrow> x = y"
  by (cases x; cases y) simp_all

lemma audit_event_json_inject: "audit_event_json e = audit_event_json e' \<longleftrightarrow> e = e'"
  by (auto simp: audit_event_json_def audit_outcome_json_inject audit_operation_name_inject
      intro!: aws_audit_event.equality)

lemma payload_json_inject: "payload_json d = payload_json d' \<longleftrightarrow> d = d'"
proof
  assume "payload_json d = payload_json d'"
  then have "dp_config d = dp_config d'" "map enrollment_json (dp_enrollments d) = map enrollment_json (dp_enrollments d')"
    "map audit_event_json (dp_events d) = map audit_event_json (dp_events d')"
    by (simp_all add: payload_json_def)
  then show "d = d'"
    by (auto simp: inj_def enrollment_json_inject audit_event_json_inject intro!: aws_payload.equality dest!: map_injective)
qed simp

definition enum_decode :: "bytes \<Rightarrow> (aws_payload \<times> digest32) option" where
  "enum_decode bytes =
     (if \<exists>d tag. bytes = enum_jcs (authenticated_json d tag)
      then Some (SOME (d, tag). bytes = enum_jcs (authenticated_json d tag)) else None)"


lemma authenticated_json_inject: "authenticated_json d tag = authenticated_json d' tag' \<longleftrightarrow> d = d' \<and> tag = tag'"
  by (simp add: authenticated_json_def payload_json_inject)

lemma enum_decode_jcs: "enum_decode (enum_jcs (authenticated_json d tag)) = Some (d, tag)"
proof -
  have "(SOME (d', tag'). enum_jcs (authenticated_json d tag) = enum_jcs (authenticated_json d' tag')) = (d, tag)"
    by (rule some_equality) (auto simp: enum_jcs_inject authenticated_json_inject)
  then show ?thesis unfolding enum_decode_def by auto
qed

definition byte_text :: "bytes \<Rightarrow> string" where
  "byte_text = map (\<lambda>b. char_of (unat b))"

lemma str_bytes_byte_text: "str_bytes (byte_text b) = b"
proof -
  have "(of_nat (of_char (char_of (unat x) :: char)) :: u8) = x" for x :: u8
  proof -
    have "unat x < 256" using unat_lt_power [of x] by simp
    then have "(of_char (char_of (unat x) :: char) :: nat) = unat x" by simp
    then show ?thesis by simp
  qed
  then show ?thesis by (induction b) (simp_all add: str_bytes_def byte_text_def)
qed

definition sample_aws :: "(bytes, bytes) aws_prims" where
  "sample_aws =
     \<lparr>aw_prims = sample_prims\<lparr>p_jcs := enum_jcs\<rparr>, aw_spki_decode = Some, aw_spki_encode = Some, aw_sec1 = (\<lambda>k. k),
      aw_keccak = (\<lambda>b. b), aw_hex = byte_text, aw_hmac = (\<lambda>key message. key), aw_from_der = Some,
      aw_normalize_s = (\<lambda>s. s), aw_sig_bytes = (\<lambda>s. s), aw_recover = (\<lambda>_ s _. Some s), aw_decode_state = enum_decode\<rparr>"

lemma sample_aws_codec: "aws_codec sample_aws"
  by (simp add: aws_codec_def sample_aws_def enum_decode_jcs) (simp add: sample_prims_def str_bytes_byte_text)

subsection \<open>A backend with one key\<close>

definition sample_arn :: string where
  "sample_arn = ''arn:aws:kms:r:123456789012:key/k''"

definition sample_aws_config :: aws_config where
  "sample_aws_config =
     \<lparr>ac_instance = ''kms'', ac_account_id = ''123456789012'', ac_region = ''r'',
      ac_credentials = WebIdentity ''arn:aws:iam::123456789012:role/signer'' ''/token'' ''s'',
      ac_allowed_arns = [sample_arn], ac_egress_hosts = [''kms.r.amazonaws.com'', ''sts.r.amazonaws.com''],
      ac_cloudtrail = True, ac_max_calls = 2, ac_store_path = ''/state''\<rparr>"

definition sample_provider :: aws_provider where
  "sample_provider =
     \<lparr>pv_describe = (\<lambda>arn _. Inr \<lparr>rp_value = \<lparr>km_arn = arn, km_account_id = ''123456789012'', km_region = ''r'',
          km_enabled = True, km_usage = ''SIGN_VERIFY'', km_spec = ''ECC_SECG_P256K1'', km_algorithms = [''ECDSA_SHA_256'']\<rparr>,
        rp_request_id = ''q1''\<rparr>),
      pv_public_key = (\<lambda>_ _. Inr \<lparr>rp_value = \<lparr>pk_spki = [4], pk_request_id = ''q2''\<rparr>, rp_request_id = ''q2''\<rparr>),
      pv_sign = (\<lambda>_. Inr \<lparr>rp_value = [4], rp_request_id = ''q3''\<rparr>)\<rparr>"

definition fresh_aws :: "bytes aws_state" where
  "fresh_aws = \<lparr>as_config = sample_aws_config, as_key = replicate 32 0, as_enrolled = [], as_recent = [],
     as_durable = \<lparr>dp_config = config_digest sample_aws sample_aws_config, dp_enrollments = [], dp_events = []\<rparr>,
     as_file = None\<rparr>"

lemma sample_aws_new: "aws_new sample_aws sample_aws_config (replicate 32 0) True None = Inr fresh_aws"
proof -
  have "parse_key_arn sample_arn ''r'' ''123456789012'' = Inr ()" by code_simp
  then have "config_validate sample_aws_config = Inr ()"
    by (simp add: config_validate_def sample_aws_config_def expected_hosts_def is_absolute_def ensure_def) code_simp
  then show ?thesis by (simp add: aws_new_def load_authenticated_state_def file_content_def fresh_aws_def)
qed

lemma commit_payload_written:
  assumes "has_parent (ac_store_path (as_config st))"
  shows "commit_payload A (\<lambda>_ _. WriteOk) d st = (st\<lparr>as_durable := d, as_file := Some (state_bytes A (as_key st) d)\<rparr>, Inr ())"
  using assms by (simp add: commit_payload_def persist_authenticated_state_def Let_def)

lemma two_calls: "\<not> (2 :: u64) \<le> 1"
  by (simp add: word_le_nat_alt)

lemma sample_enroll:
  "\<exists>calls st d. enroll_key sample_aws (\<lambda>_ _. WriteOk) (Some 5) (Some 6) sample_provider sample_arn 10 fresh_aws = (calls, st, Inr d)"
proof -
  have arn: "parse_key_arn sample_arn ''r'' ''123456789012'' = Inr ()" "is_ok (key_ref_validate (aws_key_ref sample_aws_config sample_arn fp))" for fp
    by (code_simp, simp add: key_ref_validate_def aws_key_ref_def sample_arn_def KEYREF_LOCATOR_MAX_BYTES_def)
  have path: "has_parent ''/state''" by code_simp
  have cfg: "ac_store_path sample_aws_config = ''/state''" "ac_region sample_aws_config = ''r''"
    "ac_account_id sample_aws_config = ''123456789012''" "ac_allowed_arns sample_aws_config = [sample_arn]" "ac_max_calls sample_aws_config = 2"
    by (simp_all add: sample_aws_config_def)
  have sat: "saturating_add 5 1000 = (1005 :: u64)" by (simp add: saturating_add_def checked_add_def)
  have aw: "aw_spki_decode sample_aws = Some" "aw_spki_encode sample_aws = Some" by (simp_all add: sample_aws_def)
  show ?thesis
    by (simp add: enroll_key_def enroll_steps_def Let_def aws_bind_def check_that_def locked_def calling_def fresh_aws_def cfg arn path
        ensure_def admit_provider_call_def journal_response_eq commit_payload_written sample_provider_def answer_result_def
        validate_metadata_def KMS_KEY_USAGE_def KMS_KEY_SPEC_def KMS_SIGNING_ALGORITHM_def sat aw two_calls
        enrollment_of_def insert_enrollment_def)
qed

theorem enrolled_key_survives_witness:
  "\<exists>calls st d st3. enroll_key sample_aws (\<lambda>_ _. WriteOk) (Some 5) (Some 6) sample_provider sample_arn 10 fresh_aws = (calls, st, Inr d)
     \<and> aws_new sample_aws sample_aws_config (replicate 32 0) True (as_file st) = Inr st3
     \<and> aws_describe_key st3 (kd_key_ref d) = Inr d"
proof -
  obtain calls st d where e: "enroll_key sample_aws (\<lambda>_ _. WriteOk) (Some 5) (Some 6) sample_provider sample_arn 10 fresh_aws
      = (calls, st, Inr d)" using sample_enroll by blast
  from enrolled_key_survives [OF sample_aws_new sample_aws_codec rtranclp.rtrancl_refl e rtranclp.rtrancl_refl] e
  show ?thesis by blast
qed

lemma sample_admitted: "admitted [(5, 10), (6, 10), (7, 10), (1005, 2000)] fresh_aws = [5, 6, 1005]"
proof -
  have sat: "saturating_add 5 1000 = (1005 :: u64)" "saturating_add 6 1000 = (1006 :: u64)"
    by (simp_all add: saturating_add_def checked_add_def)
  show ?thesis by (simp add: sat two_calls admit_provider_call_def fresh_aws_def sample_aws_config_def)
qed


end
