(* ===== verification/Wallet_Sample.thy ===== *)
theory Wallet_Sample
  imports Wallet_Registry Aws_Sample
begin

text \<open>
  The registry's properties at a concrete wallet: the sample local backend with the enumerating JSON encoding,
  whose records are read back by inverting it.
\<close>

subsection \<open>The record is written without loss\<close>

lemma material_kind_json_inject: "material_kind_json a = material_kind_json b \<longleftrightarrow> a = b"
  by (cases a; cases b) simp_all

lemma description_json_inject: "key_description_json a = key_description_json b \<longleftrightarrow> a = b"
  by (auto simp: key_description_json_def intro!: key_description.equality)

lemma namespace_json_inject: "derivation_namespace_json a = derivation_namespace_json b \<longleftrightarrow> a = b"
  by (auto simp: derivation_namespace_json_def intro!: derivation_namespace.equality)

lemma pinned_json_inject: "jopt key_ref_json a = jopt key_ref_json b \<longleftrightarrow> a = b"
  by (rule jopt_inject) (simp, simp add: key_ref_json_def)

lemma pending_json_inject: "(case x of (op, k) \<Rightarrow> (op, key_ref_json k)) = (case y of (op, k) \<Rightarrow> (op, key_ref_json k)) \<longleftrightarrow> x = y"
  by (cases x; cases y) simp

lemmas backup_lists_inject = map_inject_iff [of key_description_json, OF description_json_inject]
  map_inject_iff [of key_ref_json, OF key_ref_json_inject] map_inject_iff [of derivation_namespace_json, OF namespace_json_inject]
  map_inject_iff [of "\<lambda>(op, k). (op, key_ref_json k)", OF pending_json_inject]

lemma backup_json_inject: "backup_json a = backup_json b \<longleftrightarrow> a = b"
  by (auto simp: backup_json_def material_kind_json_inject pinned_json_inject backup_lists_inject word_unat_eq_iff
      intro!: local_backup.equality)

definition enum_decode_backup :: "bytes \<Rightarrow> local_backup option" where
  "enum_decode_backup bytes =
     (if \<exists>b. bytes = enum_jcs (backup_json b) then Some (SOME b. bytes = enum_jcs (backup_json b)) else None)"

lemma enum_decode_backup_jcs: "enum_decode_backup (enum_jcs (backup_json b)) = Some b"
  by (auto simp: enum_decode_backup_def enum_jcs_inject backup_json_inject)

definition enum_local :: "(bytes, string) local_prims" where
  "enum_local = sample_local\<lparr>lc_prims := (lc_prims sample_local)\<lparr>p_jcs := enum_jcs\<rparr>\<rparr>"

lemma enum_local_sound: "local_sound enum_local"
  using sample_sound by (simp add: local_sound_def local_laws_def locator_collision_def enum_local_def)

lemma enum_local_codec: "enum_decode_backup (p_jcs (lc_prims enum_local) (backup_json b)) = Some b"
  by (simp add: enum_local_def enum_decode_backup_jcs)

subsection \<open>A registry with one wallet\<close>

abbreviation provision_w :: "bytes backends \<Rightarrow> bytes backends \<times> bytes reg_result" where
  "provision_w \<equiv> provision_bip39_wallet_backend enum_local (replicate 24 0) ''w'' (replicate 16 0) (replicate 32 0) (replicate 32 0)"

lemma provision_w_run: "\<exists>reg r. provision_w [] = (reg, Inr r) \<and> map_of reg (''local'', ''w'') = Some (CompiledLocal sample_wallet)"
proof -
  have "provision_material enum_local (replicate 24 0) ''w'' ''w'' (replicate 16 0) (replicate 32 0) (replicate 32 0)
      MatBip39Entropy = Inr sample_wallet"
    by (simp add: provision_material_def valid_material_def enum_local_def sample_fields sample_wallet_def sample_backup_def
        fresh_state_def fresh_backup_def)
  moreover have "encrypted_backup sample_wallet = Inr sample_backup"
    by (simp add: encrypted_backup_def sample_wallet_def fresh_state_def)
  ultimately show ?thesis
    by (simp add: provision_bip39_wallet_backend_def provision_bip39_def map_error_def backup_record_def install_local_def)
qed

lemma provision_w_step: "provision_w reg = (reg', r) \<Longrightarrow> reg_step enum_local enum_decode_backup (''local'', ''w'') reg reg'"
  by (erule reg_provision_bip39 [rotated 2]) simp_all


definition key_w :: key_ref where
  "key_w = \<lparr>kr_backend = ''local'', kr_backend_instance = ''w'', kr_locator = ''l'', kr_key_spec = Secp256k1,
     kr_fingerprint = ''f'', kr_derivation = None\<rparr>"


end
