(* ===== verification/Aws_Sdk.thy ===== *)
theory Aws_Sdk
  imports Aws_Sample
begin

text \<open>
  The production provider: \<open>crates/bloom-signer-backend-aws-kms/src/sdk.rs\<close>. The AWS SDK's three requests are parameters: each
  is answered with an output, with an error the SDK classifies, or not before the deadline. What the code makes of
  the answers is modelled here.
\<close>

datatype sdk_error_kind = ConstructionFailure | ServiceFailure | SdkTimeout | DispatchFailure | ResponseFailure | OtherFailure

record sdk_error =
  se_kind :: sdk_error_kind
  se_request_id :: "string option"
  se_code :: "string option"

datatype 'a sent = SentOk 'a | SentError sdk_error | SentTimeout

datatype provider_operation = ReadOnlyOperation | SignOperation

record metadata_output =
  mo_arn :: "string option"
  mo_enabled :: bool
  mo_usage :: "string option"
  mo_spec :: "string option"
  mo_algorithms :: "string list"

record describe_output =
  do_request_id :: "string option"
  do_metadata :: "metadata_output option"

record bytes_output =
  bo_request_id :: "string option"
  bo_bytes :: "bytes option"

record kms_sdk =
  sdk_describe_key :: "string \<Rightarrow> describe_output sent"
  sdk_get_public_key :: "string \<Rightarrow> bytes_output sent"
  sdk_sign :: "string \<Rightarrow> bytes \<Rightarrow> bytes_output sent"

definition is_definitive_sign_rejection :: "string \<Rightarrow> bool" where
  "is_definitive_sign_rejection code =
     (code \<in> {''AccessDeniedException'', ''DisabledException'', ''DryRunOperationException'', ''InvalidArnException'',
        ''InvalidGrantTokenException'', ''InvalidKeyUsageException'', ''KMSInvalidStateException'', ''NotFoundException'',
        ''ValidationException''})"

definition map_sdk_error :: "sdk_error \<Rightarrow> provider_operation \<Rightarrow> provider_error" where
  "map_sdk_error e operation =
     \<lparr>pe_kind =
        (case se_kind e of
           ConstructionFailure \<Rightarrow> KindProvenNotDispatched
         | ServiceFailure \<Rightarrow>
             (case operation of
                ReadOnlyOperation \<Rightarrow> KindDefinitiveRejected
              | SignOperation \<Rightarrow>
                  if (case se_code e of Some code \<Rightarrow> is_definitive_sign_rejection code | None \<Rightarrow> False)
                  then KindDefinitiveRejected else KindUnknown)
         | _ \<Rightarrow> KindUnknown),
      pe_request_id = se_request_id e\<rparr>"

definition with_deadline ::
  "u64 option \<Rightarrow> u64 \<Rightarrow> provider_operation \<Rightarrow> 'a sent \<Rightarrow> provider_error + 'a" where
  "with_deadline now deadline operation answer =
     (case Option.bind now (checked_sub deadline) of
        None \<Rightarrow> Inl \<lparr>pe_kind = KindProvenNotDispatched, pe_request_id = None\<rparr>
      | Some remaining \<Rightarrow>
          (case answer of
             SentOk output \<Rightarrow> Inr output
           | SentError e \<Rightarrow> Inl (map_sdk_error e operation)
           | SentTimeout \<Rightarrow> Inl \<lparr>pe_kind = KindTimeoutAfterDispatch, pe_request_id = None\<rparr>))"

definition arn_region_account :: "string \<Rightarrow> (string \<times> string) option" where
  "arn_region_account arn =
     (case split_on CHR '':'' arn of
        a # b # c # region # account # _ \<Rightarrow>
          if a = ''arn'' \<and> b = ''aws'' \<and> c = ''kms'' then Some (region, account) else None
      | _ \<Rightarrow> None)"

definition rejected_output :: "string option \<Rightarrow> provider_error" where
  "rejected_output request_id = \<lparr>pe_kind = KindDefinitiveRejected, pe_request_id = request_id\<rparr>"

definition sdk_describe ::
  "u64 option \<Rightarrow> kms_sdk \<Rightarrow> string \<Rightarrow> call_context \<Rightarrow> provider_error + key_metadata provider_response" where
  "sdk_describe now S arn context =
     rbind (with_deadline now (cc_deadline context) ReadOnlyOperation (sdk_describe_key S arn)) (\<lambda>output.
     rbind (ok_or (do_request_id output) (rejected_output None)) (\<lambda>request_id.
     rbind (ok_or (do_metadata output) (rejected_output (Some request_id))) (\<lambda>metadata.
     rbind (ok_or (mo_arn metadata) (rejected_output (Some request_id))) (\<lambda>metadata_arn.
     rbind (ok_or (arn_region_account metadata_arn) (rejected_output (Some request_id))) (\<lambda>(region, account_id).
       Inr \<lparr>rp_value = \<lparr>km_arn = metadata_arn, km_account_id = account_id, km_region = region,
              km_enabled = mo_enabled metadata,
              km_usage = (case mo_usage metadata of Some v \<Rightarrow> v | None \<Rightarrow> []),
              km_spec = (case mo_spec metadata of Some v \<Rightarrow> v | None \<Rightarrow> []),
              km_algorithms = mo_algorithms metadata\<rparr>,
            rp_request_id = request_id\<rparr>)))))"

definition sdk_public_key ::
  "u64 option \<Rightarrow> kms_sdk \<Rightarrow> string \<Rightarrow> call_context \<Rightarrow> provider_error + kms_public_key provider_response" where
  "sdk_public_key now S arn context =
     rbind (with_deadline now (cc_deadline context) ReadOnlyOperation (sdk_get_public_key S arn)) (\<lambda>output.
     rbind (ok_or (bo_request_id output) (rejected_output None)) (\<lambda>request_id.
     rbind (ok_or (bo_bytes output) (rejected_output (Some request_id))) (\<lambda>bytes.
       Inr \<lparr>rp_value = \<lparr>pk_spki = bytes, pk_request_id = request_id\<rparr>, rp_request_id = request_id\<rparr>)))"

definition sdk_sign_digest :: "u64 option \<Rightarrow> kms_sdk \<Rightarrow> kms_sign_request \<Rightarrow> provider_error + bytes provider_response" where
  "sdk_sign_digest now S request =
     (if ks_algorithm request \<noteq> ''ECDSA_SHA_256'' \<or> \<not> ks_message_type_digest request
      then Inl \<lparr>pe_kind = KindInvalidRequest, pe_request_id = None\<rparr>
      else
        rbind (with_deadline now (ks_deadline request) SignOperation (sdk_sign S (ks_arn request) (ks_digest request))) (\<lambda>output.
        rbind (ok_or (bo_request_id output) (rejected_output None)) (\<lambda>request_id.
        rbind (ok_or (bo_bytes output) (rejected_output (Some request_id))) (\<lambda>signature.
          Inr \<lparr>rp_value = signature, rp_request_id = request_id\<rparr>))))"

definition sdk_provider :: "u64 option \<Rightarrow> kms_sdk \<Rightarrow> aws_provider" where
  "sdk_provider now S =
     \<lparr>pv_describe = sdk_describe now S, pv_public_key = sdk_public_key now S, pv_sign = sdk_sign_digest now S\<rparr>"

subsection \<open>What a refund means\<close>

text \<open>Why the production provider says that a sign request had no effect.\<close>

definition no_effect_reason :: "u64 option \<Rightarrow> kms_sdk \<Rightarrow> kms_sign_request \<Rightarrow> bool" where
  "no_effect_reason now S q =
     (Option.bind now (checked_sub (ks_deadline q)) = None
      \<or> (case sdk_sign S (ks_arn q) (ks_digest q) of
           SentError e \<Rightarrow> se_kind e = ConstructionFailure
             \<or> se_kind e = ServiceFailure \<and> (\<exists>code. se_code e = Some code \<and> is_definitive_sign_rejection code)
         | SentOk output \<Rightarrow> bo_request_id output = None \<or> bo_bytes output = None
         | SentTimeout \<Rightarrow> False))"

lemma sdk_sign_refusal:
  assumes "sdk_sign_digest now S (kms_request r bytes) = Inl f" "into_backend f \<noteq> IndeterminateAcceptance"
  shows "no_effect_reason now S (kms_request r bytes)"
proof -
  let ?q = "kms_request r bytes"
  have q: "ks_algorithm ?q = ''ECDSA_SHA_256''" "ks_message_type_digest ?q"
    by (simp_all add: kms_request_def KMS_SIGNING_ALGORITHM_def)
  show ?thesis
  proof (cases "Option.bind now (checked_sub (ks_deadline ?q))")
    case None
    then show ?thesis by (simp add: no_effect_reason_def)
  next
    case (Some x)
    show ?thesis
    proof (cases "sdk_sign S (ks_arn ?q) (ks_digest ?q)")
      case (SentOk out)
      with assms(1) q Some show ?thesis
        by (auto simp: sdk_sign_digest_def with_deadline_def no_effect_reason_def rbind_def ok_or_def split: option.splits)
    next
      case (SentError e)
      with assms q Some show ?thesis
        by (auto simp: sdk_sign_digest_def with_deadline_def no_effect_reason_def map_sdk_error_def into_backend_def rbind_def
            split: sdk_error_kind.splits option.splits if_splits)
    next
      case SentTimeout
      with assms q Some show ?thesis by (auto simp: sdk_sign_digest_def with_deadline_def into_backend_def rbind_def)
    qed
  qed
qed


text \<open>A key enrolled, and a service that answers a sign request with a signature but no identifier.\<close>

definition kms_key :: key_ref where
  "kms_key = aws_key_ref sample_aws_config sample_arn ''fp''"

definition enrolled_aws :: "bytes aws_state" where
  "enrolled_aws = fresh_aws\<lparr>as_enrolled := [(sample_arn, \<lparr>ek_description = aws_description kms_key [4], ek_verifying_key = [4],
     ek_record = \<lparr>er_metadata = \<lparr>km_arn = sample_arn, km_account_id = ''123456789012'', km_region = ''r'', km_enabled = True,
       km_usage = KMS_KEY_USAGE, km_spec = KMS_KEY_SPEC, km_algorithms = [KMS_SIGNING_ALGORITHM]\<rparr>, er_spki = [4],
       er_fingerprint = ''fp'', er_address = [], er_describe_id = ''q1'', er_public_key_id = ''q2''\<rparr>\<rparr>)]\<rparr>"

definition unidentified_sdk :: kms_sdk where
  "unidentified_sdk =
     \<lparr>sdk_describe_key = (\<lambda>_. SentTimeout), sdk_get_public_key = (\<lambda>_. SentTimeout),
      sdk_sign = (\<lambda>_ _. SentOk \<lparr>bo_request_id = None, bo_bytes = Some [4]\<rparr>)\<rparr>"

definition kms_sample_request :: backend_sign_request where
  "kms_sample_request = \<lparr>bs_provider_attempt = ''at'', bs_key_ref = kms_key, bs_suite = Secp256k1Keccak256Recoverable,
     bs_input = DigestInput (replicate 32 CHR ''a''), bs_deadline_ms = 10\<rparr>"

lemma unidentified_signature_rejected:
  "\<exists>st' q. aws_sign sample_aws (\<lambda>_ _. WriteOk) (Some 5) (sdk_provider (Some 6) unidentified_sdk) kms_sample_request enrolled_aws
     = ([CallSign q], st', Inl DefinitiveRejected)"
proof -
  have path: "has_parent ''/state''" by code_simp
  have cfg: "ac_store_path sample_aws_config = ''/state''" "ac_max_calls sample_aws_config = 2" by (simp_all add: sample_aws_config_def)
  have hex: "p_hex_decode (aw_prims sample_aws) = (\<lambda>s. Some (str_bytes s))" by (simp add: sample_aws_def sample_prims_def)
  have req: "input_matches_suite kms_sample_request" "bs_suite kms_sample_request \<in> set aws_suites"
    by (simp_all add: kms_sample_request_def input_matches_suite_def aws_suites_def)
  have sub: "checked_sub 10 6 = Some (4 :: u64)" by (simp add: checked_sub_def)
  show ?thesis
    by (simp add: aws_sign_def aws_capabilities_def req)
      (simp add: kms_sample_request_def hex str_bytes_def enrolled_key_of_def enrolled_aws_def kms_key_def aws_key_ref_def
        aws_description_def admit_provider_call_def fresh_aws_def cfg Let_def journal_response_eq commit_payload_written path
        sdk_provider_def sdk_sign_digest_def KMS_SIGNING_ALGORITHM_def with_deadline_def sub unidentified_sdk_def answer_result_def
        rejected_output_def into_backend_def)
qed


end
