(* ===== verification/Ceremony_Api.thy ===== *)
theory Ceremony_Api
  imports Signer_Engine
begin

text \<open>
  The ceremony and policy messages: \<open>crates/bloom-signer-api/src/ceremony.rs\<close> and \<open>policy.rs\<close>. Each message
  is a record with its serialised form; the signed ones also have the form without the signature,
  which is what is signed. The validators of a custody request are those both Broker and
  Signer call. WebAuthn proofs are carried, not interpreted, here.
\<close>

subsection \<open>Kinds and states\<close>

datatype ceremony_kind =
    SealedApproval | WalletRegistration | WalletImport | WalletExport | WalletDelete | WalletRecovery
  | CredentialAdd | CredentialReplace | CredentialRemove | BackendEnrollment | KeyDerive
  | AccountAllocate | AccountRetire | PolicyUpdate

datatype ceremony_state =
    CsPrepared | CsAwaitingUser | CsVerifying | CsWalletCommitted | CsAwaitingRecoveryAck | CsCompleted
  | CsApprovingRootChange | CsCreatingCredential | CsCommitting | CsSucceeded | CsCancelled | CsExpired
  | CsFailed | CsAlreadyRegistered

fun ceremony_kind_json :: "ceremony_kind \<Rightarrow> json" where
  "ceremony_kind_json SealedApproval = JStr ''sealed_approval''"
| "ceremony_kind_json WalletRegistration = JStr ''wallet_registration''"
| "ceremony_kind_json WalletImport = JStr ''wallet_import''"
| "ceremony_kind_json WalletExport = JStr ''wallet_export''"
| "ceremony_kind_json WalletDelete = JStr ''wallet_delete''"
| "ceremony_kind_json WalletRecovery = JStr ''wallet_recovery''"
| "ceremony_kind_json CredentialAdd = JStr ''credential_add''"
| "ceremony_kind_json CredentialReplace = JStr ''credential_replace''"
| "ceremony_kind_json CredentialRemove = JStr ''credential_remove''"
| "ceremony_kind_json BackendEnrollment = JStr ''backend_enrollment''"
| "ceremony_kind_json KeyDerive = JStr ''key_derive''"
| "ceremony_kind_json AccountAllocate = JStr ''account_allocate''"
| "ceremony_kind_json AccountRetire = JStr ''account_retire''"
| "ceremony_kind_json PolicyUpdate = JStr ''policy_update''"

fun ceremony_state_json :: "ceremony_state \<Rightarrow> json" where
  "ceremony_state_json CsPrepared = JStr ''PREPARED''"
| "ceremony_state_json CsAwaitingUser = JStr ''AWAITING_USER''"
| "ceremony_state_json CsVerifying = JStr ''VERIFYING''"
| "ceremony_state_json CsWalletCommitted = JStr ''WALLET_COMMITTED''"
| "ceremony_state_json CsAwaitingRecoveryAck = JStr ''AWAITING_RECOVERY_ACK''"
| "ceremony_state_json CsCompleted = JStr ''COMPLETED''"
| "ceremony_state_json CsApprovingRootChange = JStr ''APPROVING_ROOT_CHANGE''"
| "ceremony_state_json CsCreatingCredential = JStr ''CREATING_CREDENTIAL''"
| "ceremony_state_json CsCommitting = JStr ''COMMITTING''"
| "ceremony_state_json CsSucceeded = JStr ''SUCCEEDED''"
| "ceremony_state_json CsCancelled = JStr ''CANCELLED''"
| "ceremony_state_json CsExpired = JStr ''EXPIRED''"
| "ceremony_state_json CsFailed = JStr ''FAILED''"
| "ceremony_state_json CsAlreadyRegistered = JStr ''ALREADY_REGISTERED''"

fun successful_terminal_state :: "ceremony_kind \<Rightarrow> ceremony_state option" where
  "successful_terminal_state SealedApproval = None"
| "successful_terminal_state WalletRegistration = Some CsCompleted"
| "successful_terminal_state _ = Some CsSucceeded"

datatype ceremony_phase = PhApprove | PhRegisterCredential | PhConfirmPrf

fun ceremony_phase_json :: "ceremony_phase \<Rightarrow> json" where
  "ceremony_phase_json PhApprove = JStr ''approve''"
| "ceremony_phase_json PhRegisterCredential = JStr ''register_credential''"
| "ceremony_phase_json PhConfirmPrf = JStr ''confirm_prf''"

fun seed_profile_json :: "wallet_seed_profile \<Rightarrow> json" where
  "seed_profile_json Bip39MulticurveV1 = JStr ''bip39-multicurve-v1''"
| "seed_profile_json ImportedSecp256k1Scalar = JStr ''imported-secp256k1-scalar''"

text \<open>A field that is left out when it is absent.\<close>

definition opt_field :: "string \<Rightarrow> ('a \<Rightarrow> json) \<Rightarrow> 'a option \<Rightarrow> (string \<times> json) list" where
  "opt_field name f m = (case m of None \<Rightarrow> [] | Some x \<Rightarrow> [(name, f x)])"

record hpke_envelope =
  he_kem_output :: bytes
  he_ciphertext :: bytes

definition hpke_json :: "hpke_envelope \<Rightarrow> json" where
  "hpke_json e = JObj [(''kem_output'', JBytes (he_kem_output e)), (''ciphertext'', JBytes (he_ciphertext e))]"

subsection \<open>Approval ceremonies\<close>

record ceremony_prepare =
  cr_surface :: surface_ref
  cr_operation :: operation_id
  cr_terms :: approval_terms
  cr_review_manifest :: digest32
  cr_payload_digests :: "digest32 list"
  cr_hashes :: "digest32 list"
  cr_replacement :: "digest32 option"

record signer_contribution =
  sc_surface :: surface_ref
  sc_generation :: u64
  sc_ceremony :: digest32
  sc_nonce :: digest32
  sc_approval_digest :: digest32
  sc_review_manifest :: digest32
  sc_key_ref :: key_ref
  sc_suites :: "crypto_suite list"
  sc_activation_mode :: activation_mode
  sc_epoch :: u64
  sc_user_verification :: bool
  sc_encryption_key :: "bytes option"
  sc_expires_at :: u64
  sc_signer_key :: token
  sc_signature :: bytes

definition signer_contribution_fields :: "signer_contribution \<Rightarrow> (string \<times> json) list" where
  "signer_contribution_fields c =
     [(''surface'', surface_ref_json (sc_surface c)),
      (''credential_authority_generation'', JDec (sc_generation c)),
      (''ceremony_id'', JStr (sc_ceremony c)), (''signer_nonce'', JStr (sc_nonce c)),
      (''approval_digest'', JStr (sc_approval_digest c)),
      (''review_manifest_digest'', JStr (sc_review_manifest c)),
      (''key_ref'', key_ref_json (sc_key_ref c)),
      (''allowed_crypto_suites'', JArr (map suite_json (sc_suites c))),
      (''activation_mode'', activation_json (sc_activation_mode c)),
      (''wallet_revocation_epoch'', JDec (sc_epoch c)),
      (''required_user_verification'', JBool (sc_user_verification c)),
      (''ephemeral_encryption_public_key'', jopt JBytes (sc_encryption_key c)),
      (''expires_at_ms'', JDec (sc_expires_at c)), (''signer_key_id'', JStr (sc_signer_key c))]"

definition contribution_unsigned :: "prims \<Rightarrow> signer_contribution \<Rightarrow> bytes" where
  "contribution_unsigned P c = p_jcs P (JObj (signer_contribution_fields c))"

definition contribution_digest :: "prims \<Rightarrow> signer_contribution \<Rightarrow> digest32" where
  "contribution_digest P c =
     p_sha256 P (p_jcs P (JObj (signer_contribution_fields c @ [(''signer_signature'', JBytes (sc_signature c))])))"

subsection \<open>WebAuthn material\<close>

record webauthn_assertion =
  wa_credential :: bytes
  wa_authenticator_data :: bytes
  wa_client_data :: bytes
  wa_signature :: bytes
  wa_user_handle :: "bytes option"

record webauthn_attestation =
  wt_credential :: bytes
  wt_client_data :: bytes
  wt_object :: bytes
  wt_transports :: "token list"

record webauthn_credential =
  wc_surface :: surface_ref
  wc_id :: bytes
  wc_cose_key :: bytes
  wc_user_handle :: bytes
  wc_rp_id :: string
  wc_prf_salt :: bytes
  wc_sign_count :: u64

definition webauthn_credential_json :: "webauthn_credential \<Rightarrow> json" where
  "webauthn_credential_json c =
     JObj [(''surface'', surface_ref_json (wc_surface c)), (''credential_id'', JBytes (wc_id c)),
           (''cose_public_key'', JBytes (wc_cose_key c)), (''user_handle'', JBytes (wc_user_handle c)),
           (''rp_id'', JStr (wc_rp_id c)), (''prf_salt'', JBytes (wc_prf_salt c)),
           (''sign_count'', JDec (wc_sign_count c))]"

datatype webauthn_proof =
    ProofAssertion webauthn_assertion
  | ProofRegistration webauthn_attestation "webauthn_assertion option"
  | ProofAuthorityChange webauthn_assertion webauthn_attestation "webauthn_assertion option"
  | ProofRecoveryChange webauthn_attestation "webauthn_assertion option"

record ceremony_complete =
  cc_operation :: operation_id
  cc_proof :: webauthn_proof
  cc_contribution :: signer_contribution
  cc_local_prf :: "hpke_envelope option"

subsection \<open>Custody requests\<close>

record legacy_migration =
  lm_schema :: token
  lm_wallet_name :: token
  lm_address :: string
  lm_key_fingerprint :: digest32
  lm_credential_fingerprint :: digest32
  lm_format_version :: u8
  lm_bundle_digest :: digest32
  lm_policy_mode :: token

definition migration_terms_digest :: "prims \<Rightarrow> legacy_migration \<Rightarrow> operation_id \<Rightarrow> digest32" where
  "migration_terms_digest P m operation =
     p_sha256 P (p_jcs P (JObj
       [(''schema'', JStr (lm_schema m)), (''operation_id'', JStr operation),
        (''wallet_name'', JStr (lm_wallet_name m)), (''address'', JStr (lm_address m)),
        (''public_key_fingerprint'', JStr (lm_key_fingerprint m)),
        (''credential_id_fingerprint'', JStr (lm_credential_fingerprint m)),
        (''legacy_format_version'', JNum (unat (lm_format_version m))),
        (''bundle_digest'', JStr (lm_bundle_digest m)), (''policy_mode'', JStr (lm_policy_mode m))]))"

record derived_account_request =
  dr_profile :: derivation_profile
  dr_role :: token
  dr_account :: "u32 option"

record custody_prepare =
  cq_surface :: surface_ref
  cq_kind :: ceremony_kind
  cq_operation :: operation_id
  cq_wallet :: "token option"
  cq_key_ref :: "key_ref option"
  cq_terms_digest :: digest32
  cq_input_class :: token
  cq_output_key :: "bytes option"
  cq_petal_scope :: "petal_scope option"
  cq_migration :: "legacy_migration option"
  cq_seed_profile :: "wallet_seed_profile option"
  cq_derivations :: "derived_account_request list"

text \<open>The loop over the requests: each profile once, no account pinned. The set holds the profiles
  seen.\<close>

fun check_derivations :: "derivation_profile list \<Rightarrow> derived_account_request list \<Rightarrow> unit result" where
  "check_derivations seen [] = Inr ()"
| "check_derivations seen (r # rs) =
     (if dr_profile r \<in> set seen then Inl (err MalformedFrame)
      else if dr_account r \<noteq> None then Inl (err MalformedFrame)
      else check_derivations (dr_profile r # seen) rs)"

definition validate_derivation_requests :: "custody_prepare \<Rightarrow> unit result" where
  "validate_derivation_requests q =
     (if cq_kind q \<noteq> AccountAllocate
      then (if cq_derivations q \<noteq> [] then Inl (err CeremonyKindMismatch) else Inr ())
      else if cq_derivations q = [] \<or> length (cq_derivations q) > 2 then Inl (err MalformedFrame)
      else if cq_wallet q = None then Inl (err MalformedFrame)
      else check_derivations [] (cq_derivations q))"

definition validate_wallet_creation_binding :: "custody_prepare \<Rightarrow> unit result" where
  "validate_wallet_creation_binding q =
     (if cq_kind q \<noteq> WalletRegistration \<and> cq_kind q \<noteq> WalletImport then Inr ()
      else if cq_key_ref q \<noteq> None then Inl (err KeyrefMismatch)
      else
        let legacy_import = (cq_kind q = WalletImport \<and> cq_migration q \<noteq> None) in
        if cq_wallet q = None \<and> \<not> legacy_import then Inl (err MalformedFrame)
        else if cq_wallet q \<noteq> None \<and> legacy_import then Inl (err OperationIdConflict)
        else Inr ())"

definition validate_legacy_passkey_migration_binding :: "prims \<Rightarrow> custody_prepare \<Rightarrow> unit result" where
  "validate_legacy_passkey_migration_binding P q =
     (case cq_migration q of
        None \<Rightarrow>
          (if cq_input_class q = ''legacy_passkey_v1_prf'' then Inl (err MalformedFrame) else Inr ())
      | Some m \<Rightarrow>
          (if cq_kind q \<noteq> WalletImport \<or> cq_input_class q \<noteq> ''legacy_passkey_v1_prf''
              \<or> cq_wallet q \<noteq> None \<or> cq_key_ref q \<noteq> None \<or> cq_petal_scope q \<noteq> None
              \<or> lm_schema m \<noteq> ''bloom.legacy_passkey_migration_receipt.v1''
              \<or> lm_policy_mode m \<noteq> ''restrictive_current_policy'' \<or> lm_format_version m \<noteq> 1
              \<or> cq_terms_digest q \<noteq> migration_terms_digest P m (cq_operation q)
           then Inl (err OperationIdConflict) else Inr ()))"

definition validate_petal_key_scope_binding :: "prims \<Rightarrow> custody_prepare \<Rightarrow> unit result" where
  "validate_petal_key_scope_binding P q =
     (case cq_petal_scope q of
        None \<Rightarrow> Inr ()
      | Some s \<Rightarrow>
          if cq_kind q \<noteq> KeyDerive then Inl (err CeremonyKindMismatch)
          else rbind (scope_validate s) (\<lambda>_.
            if ps_custody_operation_id s \<noteq> cq_operation q then Inl (err OperationIdConflict)
            else if cq_wallet q \<noteq> Some (ps_wallet_id s) then Inl (err KeyrefMismatch)
            else if cq_key_ref q \<noteq> Some (ps_parent_key_ref s) then Inl (err KeyrefMismatch)
            else rbind (scope_request_digest P s) (\<lambda>d.
              if cq_terms_digest q \<noteq> d then Inl (err OperationIdConflict)
              else if cq_output_key q \<noteq> None then Inl (err MalformedFrame)
              else Inr ())))"

subsection \<open>Custody contributions\<close>

record custody_contribution =
  cn_surface :: surface_ref
  cn_generation :: u64
  cn_ceremony :: digest32
  cn_kind :: ceremony_kind
  cn_operation :: operation_id
  cn_nonce :: digest32
  cn_review_manifest :: digest32
  cn_wallet :: "token option"
  cn_key_ref :: "key_ref option"
  cn_input_class :: token
  cn_user_verification :: bool
  cn_recipient_key :: bytes
  cn_output_key :: "bytes option"
  cn_petal_scope :: "petal_scope option"
  cn_seed_profile :: "wallet_seed_profile option"
  cn_expires_at :: u64
  cn_signer_key :: token
  cn_signature :: bytes

definition contribution_scope_binding :: "prims \<Rightarrow> custody_contribution \<Rightarrow> custody_prepare \<Rightarrow> unit result" where
  "contribution_scope_binding P c q =
     rbind (validate_petal_key_scope_binding P q) (\<lambda>_.
     if cq_petal_scope q = None
     then (if cn_petal_scope c \<noteq> None then Inl (err OperationIdConflict) else Inr ())
     else if cn_kind c \<noteq> cq_kind q \<or> cn_surface c \<noteq> cq_surface q \<or> cn_operation c \<noteq> cq_operation q
             \<or> cn_wallet c \<noteq> cq_wallet q \<or> cn_key_ref c \<noteq> cq_key_ref q
             \<or> cn_petal_scope c \<noteq> cq_petal_scope q
     then Inl (err OperationIdConflict) else Inr ())"

definition custody_contribution_fields :: "custody_contribution \<Rightarrow> (string \<times> json) list" where
  "custody_contribution_fields c =
     [(''surface'', surface_ref_json (cn_surface c)),
      (''credential_authority_generation'', JDec (cn_generation c)),
      (''ceremony_id'', JStr (cn_ceremony c)), (''ceremony_kind'', ceremony_kind_json (cn_kind c)),
      (''custody_operation_id'', JStr (cn_operation c)), (''signer_nonce'', JStr (cn_nonce c)),
      (''review_manifest_digest'', JStr (cn_review_manifest c)), (''wallet_id'', jopt JStr (cn_wallet c)),
      (''key_ref'', jopt key_ref_json (cn_key_ref c)), (''expected_input_class'', JStr (cn_input_class c)),
      (''required_user_verification'', JBool (cn_user_verification c)),
      (''hpke_recipient_key'', JBytes (cn_recipient_key c)),
      (''browser_output_recipient_key'', jopt JBytes (cn_output_key c)),
      (''petal_key_scope'', jopt scope_json (cn_petal_scope c))]
     @ opt_field ''wallet_seed_profile'' seed_profile_json (cn_seed_profile c)
     @ [(''expires_at_ms'', JDec (cn_expires_at c)), (''signer_key_id'', JStr (cn_signer_key c))]"

definition custody_contribution_unsigned :: "prims \<Rightarrow> custody_contribution \<Rightarrow> bytes" where
  "custody_contribution_unsigned P c = p_jcs P (JObj (custody_contribution_fields c))"

definition custody_contribution_digest :: "prims \<Rightarrow> custody_contribution \<Rightarrow> digest32" where
  "custody_contribution_digest P c =
     p_sha256 P (p_jcs P (JObj (custody_contribution_fields c @ [(''signer_signature'', JBytes (cn_signature c))])))"

record custody_complete =
  cm_kind :: ceremony_kind
  cm_operation :: operation_id
  cm_ceremony :: digest32
  cm_proof :: webauthn_proof
  cm_input :: "hpke_envelope option"
  cm_binding :: digest32

subsection \<open>Challenges and associated data\<close>

record ceremony_challenge =
  ch_surface :: surface_ref
  ch_schema :: token
  ch_ceremony :: digest32
  ch_kind :: ceremony_kind
  ch_operation :: operation_id
  ch_nonce :: digest32
  ch_review_manifest :: digest32
  ch_contribution_digest :: digest32
  ch_terms_digest :: digest32
  ch_phase :: ceremony_phase

definition challenge_bytes :: "prims \<Rightarrow> ceremony_challenge \<Rightarrow> bytes" where
  "challenge_bytes P c =
     p_jcs P (JObj
       [(''surface'', surface_ref_json (ch_surface c)), (''schema'', JStr (ch_schema c)),
        (''ceremony_id'', JStr (ch_ceremony c)), (''ceremony_kind'', ceremony_kind_json (ch_kind c)),
        (''operation_id'', JStr (ch_operation c)), (''signer_nonce'', JStr (ch_nonce c)),
        (''review_manifest_digest'', JStr (ch_review_manifest c)),
        (''signer_contribution_digest'', JStr (ch_contribution_digest c)),
        (''exact_terms_digest'', JStr (ch_terms_digest c)), (''phase'', ceremony_phase_json (ch_phase c))])"

definition challenge_digest :: "prims \<Rightarrow> ceremony_challenge \<Rightarrow> digest32" where
  "challenge_digest P c = p_sha256 P (challenge_bytes P c)"

record local_prf_aad =
  la_surface :: surface_ref
  la_ceremony :: digest32
  la_nonce :: digest32
  la_approval :: digest32
  la_approval_digest :: digest32
  la_review_manifest :: digest32
  la_key_ref :: key_ref
  la_suites :: "crypto_suite list"
  la_credential :: bytes
  la_activation_mode :: activation_mode
  la_epoch :: u64

definition local_prf_aad_bytes :: "prims \<Rightarrow> local_prf_aad \<Rightarrow> bytes" where
  "local_prf_aad_bytes P a =
     p_jcs P (JObj
       [(''surface'', surface_ref_json (la_surface a)), (''ceremony_id'', JStr (la_ceremony a)),
        (''signer_nonce'', JStr (la_nonce a)), (''approval_id'', JStr (la_approval a)),
        (''approval_digest'', JStr (la_approval_digest a)),
        (''review_manifest_digest'', JStr (la_review_manifest a)), (''key_ref'', key_ref_json (la_key_ref a)),
        (''allowed_crypto_suites'', JArr (map suite_json (la_suites a))),
        (''credential_id'', JBytes (la_credential a)), (''activation_mode'', activation_json (la_activation_mode a)),
        (''wallet_revocation_epoch'', JDec (la_epoch a))])"

record custody_aad =
  ca_surface :: surface_ref
  ca_ceremony :: digest32
  ca_kind :: ceremony_kind
  ca_operation :: operation_id
  ca_nonce :: digest32
  ca_contribution_digest :: digest32
  ca_wallet :: "token option"
  ca_key_ref :: "key_ref option"
  ca_credential :: "bytes option"
  ca_input_class :: token

definition custody_aad_bytes :: "prims \<Rightarrow> custody_aad \<Rightarrow> bytes" where
  "custody_aad_bytes P a =
     p_jcs P (JObj
       [(''surface'', surface_ref_json (ca_surface a)), (''ceremony_id'', JStr (ca_ceremony a)),
        (''ceremony_kind'', ceremony_kind_json (ca_kind a)), (''custody_operation_id'', JStr (ca_operation a)),
        (''signer_nonce'', JStr (ca_nonce a)), (''signer_contribution_digest'', JStr (ca_contribution_digest a)),
        (''wallet_id'', jopt JStr (ca_wallet a)), (''key_ref'', jopt key_ref_json (ca_key_ref a)),
        (''credential_id'', jopt JBytes (ca_credential a)), (''expected_input_class'', JStr (ca_input_class a))])"

record custody_output_aad =
  co_surface :: surface_ref
  co_ceremony :: digest32
  co_kind :: ceremony_kind
  co_operation :: operation_id
  co_contribution_digest :: digest32
  co_binding :: digest32

definition custody_output_aad_bytes :: "prims \<Rightarrow> custody_output_aad \<Rightarrow> bytes" where
  "custody_output_aad_bytes P a =
     p_jcs P (JObj
       [(''surface'', surface_ref_json (co_surface a)), (''ceremony_id'', JStr (co_ceremony a)),
        (''ceremony_kind'', ceremony_kind_json (co_kind a)), (''custody_operation_id'', JStr (co_operation a)),
        (''signer_contribution_digest'', JStr (co_contribution_digest a)),
        (''public_binding_digest'', JStr (co_binding a))])"

subsection \<open>Policies\<close>

definition POLICY_UPDATE_TERMS_DOMAIN :: string where
  "POLICY_UPDATE_TERMS_DOMAIN = ''bloom-policy-update-terms/v1''"

definition POLICY_COMMIT_RECEIPT_DOMAIN :: string where
  "POLICY_COMMIT_RECEIPT_DOMAIN = ''bloom-policy-commit-receipt/v1''"

record policy_snapshot =
  sn_wallet :: token
  sn_version :: u64
  sn_policy :: bytes
  sn_digest :: digest32
  sn_key_id :: token
  sn_verifying_key :: bytes
  sn_signature :: bytes

definition snapshot_json :: "policy_snapshot \<Rightarrow> json" where
  "snapshot_json s =
     JObj [(''wallet_id'', JStr (sn_wallet s)), (''version'', JDec (sn_version s)),
           (''canonical_policy'', JBytes (sn_policy s)), (''policy_digest'', JStr (sn_digest s)),
           (''policy_signing_key_id'', JStr (sn_key_id s)),
           (''policy_verifying_key'', JBytes (sn_verifying_key s)),
           (''signer_signature'', JBytes (sn_signature s))]"

record policy_update =
  pu_operation :: operation_id
  pu_wallet :: token
  pu_baseline_version :: u64
  pu_baseline_digest :: digest32
  pu_policy :: bytes
  pu_digest :: digest32
  pu_diff_digest :: digest32
  pu_assurance :: token

definition policy_update_json :: "policy_update \<Rightarrow> json" where
  "policy_update_json u =
     JObj [(''operation_id'', JStr (pu_operation u)), (''wallet_id'', JStr (pu_wallet u)),
           (''baseline_version'', JDec (pu_baseline_version u)),
           (''baseline_digest'', JStr (pu_baseline_digest u)),
           (''proposed_canonical_policy'', JBytes (pu_policy u)),
           (''proposed_policy_digest'', JStr (pu_digest u)),
           (''authority_diff_digest'', JStr (pu_diff_digest u)), (''assurance_level'', JStr (pu_assurance u))]"

definition policy_terms_digest :: "prims \<Rightarrow> policy_update \<Rightarrow> digest32" where
  "policy_terms_digest P u =
     p_sha256 P (str_bytes POLICY_UPDATE_TERMS_DOMAIN @ p_jcs P (policy_update_json u))"

record validation_receipt =
  vr_terms_digest :: digest32
  vr_review_manifest :: digest32
  vr_broker_key :: token
  vr_signature :: bytes

definition validation_fields :: "validation_receipt \<Rightarrow> (string \<times> json) list" where
  "validation_fields v =
     [(''update_terms_digest'', JStr (vr_terms_digest v)),
      (''review_manifest_digest'', JStr (vr_review_manifest v)), (''broker_key_id'', JStr (vr_broker_key v))]"

definition validation_json :: "validation_receipt \<Rightarrow> json" where
  "validation_json v = JObj (validation_fields v @ [(''broker_signature'', JBytes (vr_signature v))])"

definition validation_unsigned :: "prims \<Rightarrow> validation_receipt \<Rightarrow> bytes" where
  "validation_unsigned P v = p_jcs P (JObj (validation_fields v))"

definition validation_digest :: "prims \<Rightarrow> validation_receipt \<Rightarrow> digest32" where
  "validation_digest P v = p_sha256 P (p_jcs P (validation_json v))"

record commit_receipt =
  pc_operation :: operation_id
  pc_wallet :: token
  pc_previous :: u64
  pc_committed :: policy_snapshot
  pc_diff_digest :: digest32
  pc_signer_key :: token
  pc_signature :: bytes

definition commit_receipt_json :: "commit_receipt \<Rightarrow> json" where
  "commit_receipt_json r =
     JObj [(''operation_id'', JStr (pc_operation r)), (''wallet_id'', JStr (pc_wallet r)),
           (''previous_version'', JDec (pc_previous r)), (''committed'', snapshot_json (pc_committed r)),
           (''authority_diff_digest'', JStr (pc_diff_digest r)), (''signer_key_id'', JStr (pc_signer_key r)),
           (''signer_signature'', JBytes (pc_signature r))]"

definition receipt_message :: "prims \<Rightarrow> commit_receipt \<Rightarrow> bytes" where
  "receipt_message P r =
     str_bytes POLICY_COMMIT_RECEIPT_DOMAIN @ p_jcs P (commit_receipt_json (r\<lparr>pc_signature := []\<rparr>))"

subsection \<open>Custody results\<close>

record credential_summary =
  sm_credential :: bytes
  sm_surface :: "surface_ref option"
  sm_rp_id :: string
  sm_active :: bool

definition credential_summary_json :: "credential_summary \<Rightarrow> json" where
  "credential_summary_json s =
     JObj ([(''credential_id'', JBytes (sm_credential s))]
       @ opt_field ''surface'' surface_ref_json (sm_surface s)
       @ [(''rp_id'', JStr (sm_rp_id s)), (''active'', JBool (sm_active s))])"

record custody_result =
  cs_surface :: "surface_ref option"
  cs_generation :: "u64 option"
  cs_ceremony_kind :: ceremony_kind
  cs_custody_operation :: operation_id
  cs_public_status :: ceremony_state
  cs_wallet :: "token option"
  cs_key_refs :: "key_ref list"
  cs_credentials :: "credential_summary list"
  cs_initial_policy :: "policy_snapshot option"
  cs_digest :: digest32
  cs_browser_result :: "hpke_envelope option"
  cs_signer_key :: token
  cs_signature :: bytes

definition custody_result_fields :: "custody_result \<Rightarrow> (string \<times> json) list" where
  "custody_result_fields r =
     opt_field ''surface'' surface_ref_json (cs_surface r)
     @ opt_field ''credential_authority_generation'' JDec (cs_generation r)
     @ [(''ceremony_kind'', ceremony_kind_json (cs_ceremony_kind r)),
        (''custody_operation_id'', JStr (cs_custody_operation r)),
        (''public_status'', ceremony_state_json (cs_public_status r)), (''wallet_id'', jopt JStr (cs_wallet r)),
        (''public_key_refs'', JArr (map key_ref_json (cs_key_refs r))),
        (''credential_summaries'', JArr (map credential_summary_json (cs_credentials r))),
        (''initial_policy'', jopt snapshot_json (cs_initial_policy r)),
        (''receipt_digest'', JStr (cs_digest r)),
        (''encrypted_browser_result'', jopt hpke_json (cs_browser_result r)),
        (''signer_key_id'', JStr (cs_signer_key r))]"

definition custody_result_json :: "custody_result \<Rightarrow> json" where
  "custody_result_json r = JObj (custody_result_fields r @ [(''signer_signature'', JBytes (cs_signature r))])"

definition custody_result_unsigned :: "prims \<Rightarrow> custody_result \<Rightarrow> bytes" where
  "custody_result_unsigned P r = p_jcs P (JObj (custody_result_fields r))"

subsection \<open>Policy requests\<close>

record policy_cas_request =
  pq_update :: policy_update
  pq_ceremony_receipt :: custody_result
  pq_validation :: validation_receipt

definition policy_cas_json :: "policy_cas_request \<Rightarrow> json" where
  "policy_cas_json q =
     JObj [(''update'', policy_update_json (pq_update q)),
           (''ceremony_receipt'', custody_result_json (pq_ceremony_receipt q)),
           (''broker_validation_receipt'', validation_json (pq_validation q))]"

record policy_prepare =
  pp_custody :: custody_prepare
  pp_update :: policy_update
  pp_validation :: validation_receipt

text \<open>The generic requests and answers of a ceremony, by kind.\<close>

datatype signer_ceremony_prepare = PrepareApproval ceremony_prepare | PreparePolicy policy_prepare

datatype signer_ceremony_complete = CompleteApproval ceremony_complete | CompletePolicy custody_complete

datatype signer_ceremony_response = ApprovalReceipt activation_receipt | PolicyResult custody_result

datatype signer_ceremony_status =
    CeremonyPending | CompletedApproval activation_receipt | CompletedCustody custody_result
  | CeremonyTerminal ceremony_state | CeremonyMissing

end
