(* ===== verification/Custody.thy ===== *)
theory Custody
  imports Json Derive
begin

text \<open>
  Wallet custody: \<open>crates/bloom-signer/src/custody.rs\<close>. A wallet's root and its policy signing seed are
  encrypted under one wallet key (the WKEK), and that key is wrapped once per passkey credential and
  once for recovery. A custody is the encrypted backup and the file it is written to; an operation
  returns the custody with its answer. Parameters: XChaCha20-Poly1305, HKDF, SHA-256 and the
  \<open>bip39\<close> crate (\<open>custody_prims\<close>), and per call the random nonces, whether memory can be locked and whether the
  file is written (\<open>custody_io\<close>). Running out of system randomness aborts the process and is not modelled.
\<close>

definition CUSTODY_ROOT_AAD :: string where
  "CUSTODY_ROOT_AAD = ''bloom-wallet-root/v1''"

definition POLICY_KEY_AAD :: string where
  "POLICY_KEY_AAD = ''bloom-policy-signing-key/v1''"

definition LOCAL_BACKEND_WRAP_INFO :: string where
  "LOCAL_BACKEND_WRAP_INFO = ''bloom-local-backend-wrap/v1''"

definition WRAP_FORMAT_V1 :: u32 where
  "WRAP_FORMAT_V1 = 1"

definition WRAP_FORMAT_V2 :: u32 where
  "WRAP_FORMAT_V2 = 2"

definition WRAP_FORMAT_CURRENT :: u32 where
  "WRAP_FORMAT_CURRENT = WRAP_FORMAT_V2"

record 'm custody_prims =
  cp_prims :: prims
  cp_bip39 :: "'m bip39_crate"
  cp_sha256 :: "bytes \<Rightarrow> bytes"
  cp_hkdf :: "bytes \<Rightarrow> bytes \<Rightarrow> bytes \<Rightarrow> bytes option"
  cp_encrypt :: "bytes \<Rightarrow> bytes \<Rightarrow> bytes \<Rightarrow> bytes \<Rightarrow> bytes option"
  cp_decrypt :: "bytes \<Rightarrow> bytes \<Rightarrow> bytes \<Rightarrow> bytes \<Rightarrow> bytes option"

record custody_io =
  io_nonce :: "nat \<Rightarrow> bytes"
  io_lock :: "bytes \<Rightarrow> bool"
  io_disk :: "string \<Rightarrow> bytes \<Rightarrow> bool"

subsection \<open>Data\<close>

record encrypted_blob =
  bl_nonce :: bytes
  bl_ciphertext :: bytes

record credential_wrap =
  cw_id :: bytes
  cw_active :: bool
  cw_version :: u32
  cw_wkek :: encrypted_blob

record recovery_wrap =
  rw_id :: token
  rw_version :: u32
  rw_wkek :: encrypted_blob

datatype root_profile = Bip39Multicurve_V1 | ImportedSecp256k1_Scalar | LegacySecp

fun aad_tag :: "root_profile \<Rightarrow> string" where
  "aad_tag Bip39Multicurve_V1 = ''bip39-multicurve-v1''"
| "aad_tag ImportedSecp256k1_Scalar = ''imported-secp256k1-scalar''"
| "aad_tag LegacySecp = ''legacy-secp''"

record custody_backup =
  cb_wallet :: token
  cb_generation :: u64
  cb_policy_version :: u64
  cb_version :: u32
  cb_root :: encrypted_blob
  cb_policy_key :: encrypted_blob
  cb_wraps :: "credential_wrap list"
  cb_recovery :: "recovery_wrap option"
  cb_profile :: root_profile
  cb_entropy_bits :: "u32 option"

record custody =
  cu_backup :: custody_backup
  cu_path :: "string option"

record unlocked_wallet =
  uw_wallet :: token
  uw_root :: bytes
  uw_policy_seed :: bytes
  uw_wkek :: bytes
  uw_profile :: root_profile
  uw_entropy_bits :: "u32 option"

subsection \<open>Encodings\<close>

definition blob_json :: "encrypted_blob \<Rightarrow> json" where
  "blob_json b = JObj [(''nonce'', JBytes (bl_nonce b)), (''ciphertext'', JBytes (bl_ciphertext b))]"

definition credential_wrap_json :: "credential_wrap \<Rightarrow> json" where
  "credential_wrap_json w =
     JObj [(''credential_id'', JBytes (cw_id w)), (''active'', JBool (cw_active w)),
           (''wrap_format_version'', JNum (unat (cw_version w))), (''wrapped_wkek'', blob_json (cw_wkek w))]"

definition recovery_wrap_json :: "recovery_wrap \<Rightarrow> json" where
  "recovery_wrap_json w =
     JObj [(''recovery_id'', JStr (rw_id w)), (''wrap_format_version'', JNum (unat (rw_version w))),
           (''wrapped_wkek'', blob_json (rw_wkek w))]"

fun root_profile_json :: "root_profile \<Rightarrow> json" where
  "root_profile_json Bip39Multicurve_V1 = JStr ''bip39_multicurve_v1''"
| "root_profile_json ImportedSecp256k1_Scalar = JStr ''imported_secp256k1_scalar''"
| "root_profile_json LegacySecp = JStr ''legacy_secp''"

definition custody_backup_json :: "custody_backup \<Rightarrow> json" where
  "custody_backup_json b =
     JObj [(''wallet_id'', JStr (cb_wallet b)),
           (''credential_authority_generation'', JNum (unat (cb_generation b))),
           (''policy_version'', JNum (unat (cb_policy_version b))),
           (''wrap_format_version'', JNum (unat (cb_version b))),
           (''encrypted_root'', blob_json (cb_root b)),
           (''encrypted_policy_signing_key'', blob_json (cb_policy_key b)),
           (''credential_wraps'', JArr (map credential_wrap_json (cb_wraps b))),
           (''recovery_wrap'', jopt recovery_wrap_json (cb_recovery b)),
           (''root_material_profile'', root_profile_json (cb_profile b)),
           (''entropy_bits'', jopt (\<lambda>n. JNum (unat n)) (cb_entropy_bits b))]"

definition custody_root_aad :: "token \<Rightarrow> u32 \<Rightarrow> root_profile \<Rightarrow> u32 option \<Rightarrow> bytes" where
  "custody_root_aad wallet version profile entropy_bits =
     str_bytes CUSTODY_ROOT_AAD @ str_bytes wallet @ u32_be_bytes version
     @ (if version \<ge> WRAP_FORMAT_V2
        then str_bytes (aad_tag profile)
          @ (case entropy_bits of Some bits \<Rightarrow> 1 # u32_be_bytes bits | None \<Rightarrow> [0])
        else [])"

definition policy_key_aad :: "token \<Rightarrow> u32 \<Rightarrow> bytes" where
  "policy_key_aad wallet version =
     str_bytes POLICY_KEY_AAD @ str_bytes wallet @ u32_be_bytes version"

definition credential_aad :: "'m custody_prims \<Rightarrow> token \<Rightarrow> bytes \<Rightarrow> digest32 \<Rightarrow> u32 \<Rightarrow> bytes" where
  "credential_aad C wallet credential fingerprint version =
     p_jcs (cp_prims C)
       (JObj [(''wallet_id'', JStr wallet), (''credential_id'', JBytes credential),
              (''root_ciphertext_fingerprint'', JStr fingerprint),
              (''wrap_format_version'', JNum (unat version))])"

definition recovery_aad :: "'m custody_prims \<Rightarrow> token \<Rightarrow> token \<Rightarrow> digest32 \<Rightarrow> u32 \<Rightarrow> bytes" where
  "recovery_aad C wallet recovery fingerprint version =
     p_jcs (cp_prims C)
       (JObj [(''wallet_id'', JStr wallet), (''recovery_record_id'', JStr recovery),
              (''root_ciphertext_fingerprint'', JStr fingerprint),
              (''wrap_format_version'', JNum (unat version))])"

definition root_ciphertext_fingerprint :: "'m custody_prims \<Rightarrow> encrypted_blob \<Rightarrow> digest32" where
  "root_ciphertext_fingerprint C b = p_sha256 (cp_prims C) (bl_ciphertext b)"

subsection \<open>Sealing\<close>

definition validate_key :: "bytes \<Rightarrow> unit result" where
  "validate_key key = ensure (length key = 32) (err BackendInvalidRequest)"

definition encrypt :: "'m custody_prims \<Rightarrow> bytes \<Rightarrow> bytes \<Rightarrow> bytes \<Rightarrow> bytes \<Rightarrow> encrypted_blob result" where
  "encrypt C nonce key plaintext aad =
     rbind (validate_key key) (\<lambda>_.
     rbind (ok_or (cp_encrypt C key nonce aad plaintext) (err ServiceUnavailable)) (\<lambda>ciphertext.
       Inr \<lparr>bl_nonce = nonce, bl_ciphertext = ciphertext\<rparr>))"

definition decrypt :: "'m custody_prims \<Rightarrow> bytes \<Rightarrow> encrypted_blob \<Rightarrow> bytes \<Rightarrow> bytes result" where
  "decrypt C key blob aad =
     rbind (validate_key key) (\<lambda>_.
     if length (bl_nonce blob) \<noteq> 24 then Inl (err MalformedFrame)
     else ok_or (cp_decrypt C key (bl_nonce blob) aad (bl_ciphertext blob)) (err UnauthenticatedPeer))"

subsection \<open>Unlocked wallets\<close>

definition root_fingerprint :: "'m custody_prims \<Rightarrow> unlocked_wallet \<Rightarrow> digest32" where
  "root_fingerprint C u = p_sha256 (cp_prims C) (uw_root u)"

definition policy_verifying_key :: "'m custody_prims \<Rightarrow> unlocked_wallet \<Rightarrow> bytes result" where
  "policy_verifying_key C u =
     (if length (uw_policy_seed u) \<noteq> 32 then Inl (err MalformedFrame)
      else Inr (p_public (cp_prims C) (uw_policy_seed u)))"

definition sign_policy_message :: "'m custody_prims \<Rightarrow> unlocked_wallet \<Rightarrow> bytes \<Rightarrow> bytes result" where
  "sign_policy_message C u message =
     (if length (uw_policy_seed u) \<noteq> 32 then Inl (err MalformedFrame)
      else Inr (p_sign (cp_prims C) (uw_policy_seed u) message))"

definition local_backend_activation_secret :: "'m custody_prims \<Rightarrow> unlocked_wallet \<Rightarrow> bytes result" where
  "local_backend_activation_secret C u =
     ok_or (cp_hkdf C (cp_sha256 C (str_bytes (uw_wallet u))) (uw_wkek u) (str_bytes LOCAL_BACKEND_WRAP_INFO))
       (err BackendInvalidRequest)"

definition entropy_bits_of :: "unlocked_wallet \<Rightarrow> u32" where
  "entropy_bits_of u = (case uw_entropy_bits u of Some bits \<Rightarrow> bits | None \<Rightarrow> 0)"

definition unlocked_bip39_seed :: "'m custody_prims \<Rightarrow> unlocked_wallet \<Rightarrow> bytes result" where
  "unlocked_bip39_seed C u =
     (if uw_profile u \<noteq> Bip39Multicurve_V1 then Inl (err BackendUnsupported)
      else case mnemonic_from_entropy (cp_bip39 C) (uw_root u) of
        Inl _ \<Rightarrow> Inl (err MalformedFrame)
      | Inr mnemonic \<Rightarrow>
          (case seed_from_mnemonic (cp_bip39 C) mnemonic of
             Inl _ \<Rightarrow> Inl (err MalformedFrame)
           | Inr seed \<Rightarrow> Inr seed))"

text \<open>The length the decrypted root must have, as recorded beside it.\<close>

definition expected_entropy_length :: "u32 option \<Rightarrow> nat option" where
  "expected_entropy_length entropy_bits =
     (if entropy_bits = Some 128 then Some 16
      else if entropy_bits = Some 160 then Some 20
      else if entropy_bits = Some 192 then Some 24
      else if entropy_bits = Some 224 then Some 28
      else if entropy_bits = Some 256 then Some 32
      else None)"

definition check_root_length :: "root_profile \<Rightarrow> u32 option \<Rightarrow> bytes \<Rightarrow> unit result" where
  "check_root_length profile entropy_bits root =
     (case profile of
        Bip39Multicurve_V1 \<Rightarrow>
          rbind (ok_or (expected_entropy_length entropy_bits) (err MalformedFrame)) (\<lambda>expected.
            ensure (length root = expected) (err UnauthenticatedPeer))
      | ImportedSecp256k1_Scalar \<Rightarrow> ensure (length root = 32) (err UnauthenticatedPeer)
      | LegacySecp \<Rightarrow> Inr ())"

definition unlock_with_wkek ::
  "'m custody_prims \<Rightarrow> custody_io \<Rightarrow> custody_backup \<Rightarrow> bytes \<Rightarrow> unlocked_wallet result" where
  "unlock_with_wkek C io b wkek =
     rbind (decrypt C wkek (cb_root b)
              (custody_root_aad (cb_wallet b) (cb_version b) (cb_profile b) (cb_entropy_bits b))) (\<lambda>root.
     rbind (check_root_length (cb_profile b) (cb_entropy_bits b) root) (\<lambda>_.
     rbind (decrypt C wkek (cb_policy_key b) (policy_key_aad (cb_wallet b) (cb_version b))) (\<lambda>seed.
     rbind (ensure (io_lock io root) (err ServiceUnavailable)) (\<lambda>_.
     rbind (ensure (io_lock io seed) (err ServiceUnavailable)) (\<lambda>_.
     rbind (ensure (io_lock io wkek) (err ServiceUnavailable)) (\<lambda>_.
       Inr \<lparr>uw_wallet = cb_wallet b, uw_root = root, uw_policy_seed = seed, uw_wkek = wkek,
            uw_profile = cb_profile b, uw_entropy_bits = cb_entropy_bits b\<rparr>))))))"

definition recover_wkek_from_unlocked ::
  "'m custody_prims \<Rightarrow> custody_io \<Rightarrow> custody_backup \<Rightarrow> unlocked_wallet \<Rightarrow> bytes result" where
  "recover_wkek_from_unlocked C io b u =
     rbind (unlock_with_wkek C io b (uw_wkek u)) (\<lambda>candidate.
     if root_fingerprint C candidate \<noteq> root_fingerprint C u then Inl (err UnauthenticatedPeer)
     else rbind (policy_verifying_key C candidate) (\<lambda>k1.
          rbind (policy_verifying_key C u) (\<lambda>k2.
            if k1 \<noteq> k2 then Inl (err UnauthenticatedPeer) else Inr (uw_wkek u))))"

subsection \<open>Writing the backup\<close>

definition persist_custody :: "'m custody_prims \<Rightarrow> custody_io \<Rightarrow> custody \<Rightarrow> unit result" where
  "persist_custody C io cu =
     (case cu_path cu of
        None \<Rightarrow> Inr ()
      | Some path \<Rightarrow>
          rbind (ok_or (file_name path) (err MalformedFrame)) (\<lambda>_.
            ensure (io_disk io path (p_jcs (cp_prims C) (custody_backup_json (cu_backup cu))))
              (err ServiceUnavailable)))"

text \<open>Every change is written before it is kept: a failed write puts the previous backup back.\<close>

definition commit_custody ::
  "'m custody_prims \<Rightarrow> custody_io \<Rightarrow> custody_backup \<Rightarrow> custody \<Rightarrow> custody \<times> unit result" where
  "commit_custody C io b cu =
     (case persist_custody C io (cu\<lparr>cu_backup := b\<rparr>) of
        Inl e \<Rightarrow> (cu, Inl e)
      | Inr _ \<Rightarrow> (cu\<lparr>cu_backup := b\<rparr>, Inr ()))"

subsection \<open>Registration\<close>

definition register_with_profile ::
  "'m custody_prims \<Rightarrow> custody_io \<Rightarrow> token \<Rightarrow> bytes \<Rightarrow> bytes \<Rightarrow> bytes \<Rightarrow> bytes \<Rightarrow> bytes \<Rightarrow> root_profile
     \<Rightarrow> u32 option \<Rightarrow> custody result" where
  "register_with_profile C io wallet root policy_seed wkek credential credential_key profile entropy_bits =
     rbind (validate_key wkek) (\<lambda>_.
     rbind (validate_key credential_key) (\<lambda>_.
     if root = [] \<or> length policy_seed \<noteq> 32 then Inl (err BackendInvalidRequest)
     else
       let version = WRAP_FORMAT_CURRENT in
       rbind (encrypt C (io_nonce io 0) wkek root (custody_root_aad wallet version profile entropy_bits))
         (\<lambda>encrypted_root.
       rbind (encrypt C (io_nonce io 1) wkek policy_seed (policy_key_aad wallet version))
         (\<lambda>encrypted_policy.
       rbind (encrypt C (io_nonce io 2) credential_key wkek
                (credential_aad C wallet credential (root_ciphertext_fingerprint C encrypted_root) version))
         (\<lambda>wrapped.
         Inr \<lparr>cu_backup =
                \<lparr>cb_wallet = wallet, cb_generation = 0, cb_policy_version = 1, cb_version = version,
                 cb_root = encrypted_root, cb_policy_key = encrypted_policy,
                 cb_wraps = [\<lparr>cw_id = credential, cw_active = True, cw_version = version, cw_wkek = wrapped\<rparr>],
                 cb_recovery = None, cb_profile = profile, cb_entropy_bits = entropy_bits\<rparr>,
              cu_path = None\<rparr>)))))"

definition register_imported_secp256k1 ::
  "'m custody_prims \<Rightarrow> custody_io \<Rightarrow> token \<Rightarrow> bytes \<Rightarrow> bytes \<Rightarrow> bytes \<Rightarrow> bytes \<Rightarrow> bytes \<Rightarrow> custody result" where
  "register_imported_secp256k1 C io wallet private_key policy_seed wkek credential credential_key =
     rbind (validate_key wkek) (\<lambda>_.
     rbind (validate_key credential_key) (\<lambda>_.
     if length private_key \<noteq> 32 \<or> length policy_seed \<noteq> 32 then Inl (err BackendInvalidRequest)
     else register_with_profile C io wallet private_key policy_seed wkek credential credential_key
            ImportedSecp256k1_Scalar None))"

definition entropy_bits_for :: "nat \<Rightarrow> u32 option" where
  "entropy_bits_for n =
     (if n = 16 then Some 128 else if n = 20 then Some 160 else if n = 24 then Some 192
      else if n = 28 then Some 224 else if n = 32 then Some 256 else None)"

definition register_bip39 ::
  "'m custody_prims \<Rightarrow> custody_io \<Rightarrow> token \<Rightarrow> bytes \<Rightarrow> bytes \<Rightarrow> bytes \<Rightarrow> bytes \<Rightarrow> bytes \<Rightarrow> custody result" where
  "register_bip39 C io wallet entropy policy_seed wkek credential credential_key =
     rbind (ok_or (entropy_bits_for (length entropy)) (err BackendInvalidRequest)) (\<lambda>bits.
       register_with_profile C io wallet entropy policy_seed wkek credential credential_key
         Bip39Multicurve_V1 (Some bits))"

definition register_at ::
  "'m custody_prims \<Rightarrow> custody_io \<Rightarrow> string \<Rightarrow> token \<Rightarrow> bytes \<Rightarrow> bytes \<Rightarrow> bytes \<Rightarrow> bytes \<Rightarrow> bytes \<Rightarrow> custody result" where
  "register_at C io path wallet root policy_seed wkek credential credential_key =
     rbind (register_bip39 C io wallet root policy_seed wkek credential credential_key) (\<lambda>cu.
       let cu' = cu\<lparr>cu_path := Some path\<rparr> in rbind (persist_custody C io cu') (\<lambda>_. Inr cu'))"

definition validate_backup_shape :: "custody_backup \<Rightarrow> unit result" where
  "validate_backup_shape b =
     (if cb_version b = 0 \<or> cb_wraps b = []
         \<or> list_ex (\<lambda>w. cw_version w > cb_version b \<or> (cw_active w \<and> cw_version w \<noteq> cb_version b)
              \<or> length (bl_nonce (cw_wkek w)) \<noteq> 24) (cb_wraps b)
      then Inl (err MalformedFrame) else Inr ())"

definition restore_custody :: "custody_backup \<Rightarrow> custody result" where
  "restore_custody b =
     rbind (validate_backup_shape b) (\<lambda>_. Inr \<lparr>cu_backup = b, cu_path = None\<rparr>)"

text \<open>\<open>read\<close> is the file's content, \<open>parse\<close> the JSON decoder.\<close>

definition open_at ::
  "(string \<Rightarrow> bytes option) \<Rightarrow> (bytes \<Rightarrow> custody_backup option) \<Rightarrow> string \<Rightarrow> custody result" where
  "open_at read parse path =
     rbind (ok_or (read path) (err ServiceUnavailable)) (\<lambda>bytes.
     rbind (ok_or (parse bytes) (err MalformedFrame)) (\<lambda>b.
     rbind (restore_custody b) (\<lambda>cu. Inr (cu\<lparr>cu_path := Some path\<rparr>))))"

subsection \<open>Unlocking\<close>

definition unlock_with_credential ::
  "'m custody_prims \<Rightarrow> custody_io \<Rightarrow> custody \<Rightarrow> bytes \<Rightarrow> bytes \<Rightarrow> unlocked_wallet result" where
  "unlock_with_credential C io cu credential key =
     rbind (validate_key key) (\<lambda>_.
     let b = cu_backup cu in
     rbind (ok_or (find (\<lambda>w. cw_active w \<and> cw_id w = credential) (cb_wraps b)) (err ApprovalRevoked)) (\<lambda>w.
     rbind (decrypt C key (cw_wkek w)
              (credential_aad C (cb_wallet b) credential (root_ciphertext_fingerprint C (cb_root b)) (cw_version w)))
       (\<lambda>wkek. unlock_with_wkek C io b wkek)))"

definition unlock_with_recovery ::
  "'m custody_prims \<Rightarrow> custody_io \<Rightarrow> custody \<Rightarrow> token \<Rightarrow> bytes \<Rightarrow> unlocked_wallet result" where
  "unlock_with_recovery C io cu recovery key =
     rbind (validate_key key) (\<lambda>_.
     let b = cu_backup cu in
     rbind (ok_or (case cb_recovery b of
                     Some w \<Rightarrow> (if rw_id w = recovery then Some w else None)
                   | None \<Rightarrow> None) (err ApprovalNotFound)) (\<lambda>w.
     rbind (decrypt C key (rw_wkek w)
              (recovery_aad C (cb_wallet b) recovery (root_ciphertext_fingerprint C (cb_root b)) (rw_version w)))
       (\<lambda>wkek. unlock_with_wkek C io b wkek)))"

definition export_mnemonic :: "'m custody_prims \<Rightarrow> custody \<Rightarrow> unlocked_wallet \<Rightarrow> string result" where
  "export_mnemonic C cu u =
     (if cb_profile (cu_backup cu) \<noteq> Bip39Multicurve_V1 then Inl (err BackendUnsupported)
      else if uw_wallet u \<noteq> cb_wallet (cu_backup cu) then Inl (err UnauthenticatedPeer)
      else case mnemonic_from_entropy (cp_bip39 C) (uw_root u) of
        Inl _ \<Rightarrow> Inl (err MalformedFrame)
      | Inr mnemonic \<Rightarrow> Inr mnemonic)"

definition active_credential_ids :: "custody \<Rightarrow> bytes set" where
  "active_credential_ids cu = cw_id ` set (filter cw_active (cb_wraps (cu_backup cu)))"

subsection \<open>Changing the credentials\<close>

definition add_credential ::
  "'m custody_prims \<Rightarrow> custody_io \<Rightarrow> unlocked_wallet \<Rightarrow> bytes \<Rightarrow> bytes \<Rightarrow> custody \<Rightarrow> custody \<times> unit result" where
  "add_credential C io u credential key cu =
     (let b = cu_backup cu in
      case rbind (validate_key key) (\<lambda>_.
           if list_ex (\<lambda>w. cw_id w = credential) (cb_wraps b) then Inl (err OperationIdConflict)
           else rbind (recover_wkek_from_unlocked C io b u) (\<lambda>wkek.
             encrypt C (io_nonce io 0) key wkek
               (credential_aad C (cb_wallet b) credential (root_ciphertext_fingerprint C (cb_root b))
                 (cb_version b)))) of
        Inl e \<Rightarrow> (cu, Inl e)
      | Inr wrapped \<Rightarrow>
          commit_custody C io
            (b\<lparr>cb_wraps := cb_wraps b @
                 [\<lparr>cw_id = credential, cw_active = True, cw_version = cb_version b, cw_wkek = wrapped\<rparr>]\<rparr>) cu)"

text \<open>\<open>find\<close> and then the change of the wrap found: the first with that identifier.\<close>

fun deactivate_first :: "bytes \<Rightarrow> credential_wrap list \<Rightarrow> credential_wrap list" where
  "deactivate_first credential [] = []"
| "deactivate_first credential (w # ws) =
     (if cw_id w = credential then w\<lparr>cw_active := False\<rparr> # ws else w # deactivate_first credential ws)"

definition revoke_credential ::
  "'m custody_prims \<Rightarrow> custody_io \<Rightarrow> bytes \<Rightarrow> custody \<Rightarrow> custody \<times> unit result" where
  "revoke_credential C io credential cu =
     (let b = cu_backup cu; active_count = length (filter cw_active (cb_wraps b)) in
      case find (\<lambda>w. cw_id w = credential) (cb_wraps b) of
        None \<Rightarrow> (cu, Inl (err ApprovalNotFound))
      | Some w \<Rightarrow>
          if cw_active w \<and> active_count = 1 \<and> cb_recovery b = None
          then (cu, Inl (err ApprovalRearmRequired))
          else commit_custody C io (b\<lparr>cb_wraps := deactivate_first credential (cb_wraps b)\<rparr>) cu)"

definition set_recovery ::
  "'m custody_prims \<Rightarrow> custody_io \<Rightarrow> unlocked_wallet \<Rightarrow> token \<Rightarrow> bytes \<Rightarrow> custody \<Rightarrow> custody \<times> unit result" where
  "set_recovery C io u recovery key cu =
     (let b = cu_backup cu in
      case rbind (validate_key key) (\<lambda>_.
           rbind (recover_wkek_from_unlocked C io b u) (\<lambda>wkek.
             encrypt C (io_nonce io 0) key wkek
               (recovery_aad C (cb_wallet b) recovery (root_ciphertext_fingerprint C (cb_root b)) (cb_version b)))) of
        Inl e \<Rightarrow> (cu, Inl e)
      | Inr wrapped \<Rightarrow>
          commit_custody C io
            (b\<lparr>cb_recovery := Some \<lparr>rw_id = recovery, rw_version = cb_version b, rw_wkek = wrapped\<rparr>\<rparr>) cu)"

definition set_policy_version ::
  "'m custody_prims \<Rightarrow> custody_io \<Rightarrow> u64 \<Rightarrow> custody \<Rightarrow> custody \<times> unit result" where
  "set_policy_version C io next_version cu =
     (let b = cu_backup cu in
      if next_version \<le> cb_policy_version b then (cu, Inl (err PolicyBaselineStale))
      else commit_custody C io (b\<lparr>cb_policy_version := next_version\<rparr>) cu)"

text \<open>The generation is counted up after the wraps are already replaced in memory: when it is
  exhausted, the error leaves through \<open>?\<close> and the replaced wraps stay.\<close>

definition replaced_backup ::
  "bytes \<Rightarrow> encrypted_blob \<Rightarrow> token \<Rightarrow> encrypted_blob \<Rightarrow> custody_backup \<Rightarrow> custody_backup" where
  "replaced_backup credential wrapped_credential recovery wrapped_recovery b =
     b\<lparr>cb_wraps := map (\<lambda>w. w\<lparr>cw_active := False\<rparr>) (cb_wraps b) @
          [\<lparr>cw_id = credential, cw_active = True, cw_version = cb_version b, cw_wkek = wrapped_credential\<rparr>],
       cb_recovery := Some \<lparr>rw_id = recovery, rw_version = cb_version b, rw_wkek = wrapped_recovery\<rparr>\<rparr>"

definition recover_replace_credentials ::
  "'m custody_prims \<Rightarrow> custody_io \<Rightarrow> unlocked_wallet \<Rightarrow> bytes \<Rightarrow> bytes \<Rightarrow> token \<Rightarrow> bytes \<Rightarrow> custody
     \<Rightarrow> custody \<times> unit result" where
  "recover_replace_credentials C io u credential credential_key recovery recovery_key cu =
     (let b = cu_backup cu in
      case rbind (validate_key credential_key) (\<lambda>_.
           rbind (validate_key recovery_key) (\<lambda>_.
           if list_ex (\<lambda>w. cw_id w = credential) (cb_wraps b) then Inl (err OperationIdConflict)
           else rbind (recover_wkek_from_unlocked C io b u) (\<lambda>wkek.
             let fingerprint = root_ciphertext_fingerprint C (cb_root b) in
             rbind (encrypt C (io_nonce io 0) credential_key wkek
                      (credential_aad C (cb_wallet b) credential fingerprint (cb_version b))) (\<lambda>wrapped_credential.
             rbind (encrypt C (io_nonce io 1) recovery_key wkek
                      (recovery_aad C (cb_wallet b) recovery fingerprint (cb_version b))) (\<lambda>wrapped_recovery.
               Inr (wrapped_credential, wrapped_recovery)))))) of
        Inl e \<Rightarrow> (cu, Inl e)
      | Inr (wrapped_credential, wrapped_recovery) \<Rightarrow>
          let b' = replaced_backup credential wrapped_credential recovery wrapped_recovery b in
          case checked_add (cb_generation b) 1 of
            None \<Rightarrow> (cu\<lparr>cu_backup := b'\<rparr>, Inl (err ServiceUnavailable))
          | Some generation \<Rightarrow> commit_custody C io (b'\<lparr>cb_generation := generation\<rparr>) cu)"

subsection \<open>Moving to another wrap format\<close>

text \<open>The loop over the wraps; \<open>i\<close> counts the nonces drawn.\<close>

fun rewrap :: "'m custody_prims \<Rightarrow> custody_io \<Rightarrow> nat \<Rightarrow> token \<Rightarrow> digest32 \<Rightarrow> u32 \<Rightarrow> bytes \<Rightarrow> (bytes \<Rightarrow> bytes option)
    \<Rightarrow> credential_wrap list \<Rightarrow> (nat \<times> credential_wrap list) result" where
  "rewrap C io i wallet fingerprint version wkek keys [] = Inr (i, [])"
| "rewrap C io i wallet fingerprint version wkek keys (w # ws) =
     (if cw_active w
      then rbind (ok_or (keys (cw_id w)) (err ApprovalRearmRequired)) (\<lambda>key.
           rbind (validate_key key) (\<lambda>_.
           rbind (encrypt C (io_nonce io i) key wkek (credential_aad C wallet (cw_id w) fingerprint version))
             (\<lambda>wrapped.
           rbind (rewrap C io (i + 1) wallet fingerprint version wkek keys ws) (\<lambda>(j, ws').
             Inr (j, w\<lparr>cw_version := version, cw_wkek := wrapped\<rparr> # ws')))))
      else rbind (rewrap C io i wallet fingerprint version wkek keys ws) (\<lambda>(j, ws'). Inr (j, w # ws')))"

definition rewrap_recovery :: "'m custody_prims \<Rightarrow> custody_io \<Rightarrow> nat \<Rightarrow> token \<Rightarrow> digest32 \<Rightarrow> u32 \<Rightarrow> bytes \<Rightarrow> bytes option
    \<Rightarrow> recovery_wrap option \<Rightarrow> recovery_wrap option result" where
  "rewrap_recovery C io i wallet fingerprint version wkek recovery_key recovery =
     (case recovery of
        None \<Rightarrow> Inr None
      | Some w \<Rightarrow>
          rbind (ok_or recovery_key (err ApprovalRearmRequired)) (\<lambda>key.
          rbind (validate_key key) (\<lambda>_.
          rbind (encrypt C (io_nonce io i) key wkek (recovery_aad C wallet (rw_id w) fingerprint version))
            (\<lambda>wrapped. Inr (Some (w\<lparr>rw_version := version, rw_wkek := wrapped\<rparr>))))))"

definition rekeyed_backup :: "'m custody_prims \<Rightarrow> custody_io \<Rightarrow> unlocked_wallet \<Rightarrow> u32 \<Rightarrow> (bytes \<Rightarrow> bytes option)
    \<Rightarrow> bytes option \<Rightarrow> custody_backup \<Rightarrow> custody_backup result" where
  "rekeyed_backup C io u next_version credential_keys recovery_key b =
     (if next_version \<le> cb_version b then Inl (err PolicyBaselineStale)
      else rbind (recover_wkek_from_unlocked C io b u) (\<lambda>wkek.
        rbind (encrypt C (io_nonce io 0) wkek (uw_root u)
                 (custody_root_aad (cb_wallet b) next_version (cb_profile b) (cb_entropy_bits b))) (\<lambda>root.
        rbind (encrypt C (io_nonce io 1) wkek (uw_policy_seed u) (policy_key_aad (cb_wallet b) next_version))
          (\<lambda>policy_key.
        let fingerprint = root_ciphertext_fingerprint C root in
        rbind (rewrap C io 2 (cb_wallet b) fingerprint next_version wkek credential_keys (cb_wraps b)) (\<lambda>(i, wraps).
        rbind (rewrap_recovery C io i (cb_wallet b) fingerprint next_version wkek recovery_key (cb_recovery b))
          (\<lambda>recovery.
          Inr (b\<lparr>cb_version := next_version, cb_root := root, cb_policy_key := policy_key,
                 cb_wraps := wraps, cb_recovery := recovery\<rparr>)))))))"

definition rekey_wrap_format :: "'m custody_prims \<Rightarrow> custody_io \<Rightarrow> unlocked_wallet \<Rightarrow> u32 \<Rightarrow> (bytes \<Rightarrow> bytes option)
    \<Rightarrow> bytes option \<Rightarrow> custody \<Rightarrow> custody \<times> unit result" where
  "rekey_wrap_format C io u next_version credential_keys recovery_key cu =
     (case rekeyed_backup C io u next_version credential_keys recovery_key (cu_backup cu) of
        Inl e \<Rightarrow> (cu, Inl e)
      | Inr b \<Rightarrow> commit_custody C io b cu)"

end
