(* ===== verification/Ceremony_Store.thy ===== *)
theory Ceremony_Store
  imports Ceremony_Api Custody
begin

text \<open>
  What the engine keeps of ceremonies, custody and policies: the tables of
  \<open>crates/bloom-signer/src/engine.rs\<close> that the signing path does not read, and the transaction that makes a
  ceremony's outcome durable (\<open>commit_custody_snapshot_with_effect\<close>). A vault is the engine's database with
  those tables. The tables \<open>ceremony_receipts\<close> and \<open>ceremony_statuses\<close> are shared with approvals: the
  approvals' rows are in the engine record, the custody rows here, and a primary key is unique
  over both. The column \<open>wallet_id\<close> of the enrolled keys is the map \<open>vt_key_wallet\<close>. The JSON a row
  holds is the value it encodes, \<open>None\<close> where it does not parse. The backend registry's
  encrypted backup of a key, with its decoded kind and registry, is an argument.
\<close>

subsection \<open>Rows\<close>

record policy_row =
  pl_wallet :: token
  pl_version :: "u64 option"
  pl_digest :: digest32
  pl_policy :: bytes
  pl_snapshot :: "policy_snapshot option"
  pl_key_id :: "token option"
  pl_verifying_key :: bytes

record pending_authorization =
  pz_update :: policy_update
  pz_validation :: validation_receipt
  pz_ceremony_receipt :: custody_result
  pz_commit_receipt :: commit_receipt

record backend_enrollment =
  be_backend :: token
  be_instance :: token
  be_record :: bytes
  be_pinned :: "key_ref list"

record credential_row =
  cd_credential :: bytes
  cd_wallet :: token
  cd_value :: "webauthn_credential option"
  cd_created :: "u64 option"

record public_status =
  pb_ceremony :: digest32
  pb_kind :: ceremony_kind
  pb_operation :: operation_id
  pb_state :: ceremony_state
  pb_expires_at :: u64
  pb_url :: "string option"
  pb_receipt :: "digest32 option"

record custody_receipt_row =
  cy_operation :: operation_id
  cy_result :: "custody_result option"
  cy_committed :: "u64 option"

record vault =
  vt_engine :: engine
  vt_policies :: "policy_row list"
  vt_authorizations :: "(operation_id \<times> pending_authorization option) list"
  vt_commits :: "(operation_id \<times> bytes \<times> commit_receipt option) list"
  vt_wallets :: "(token \<times> custody_backup option) list"
  vt_credentials :: "credential_row list"
  vt_enrollments :: "(token \<times> backend_enrollment option) list"
  vt_key_wallet :: "digest32 \<Rightarrow> token option"
  vt_receipts :: "custody_receipt_row list"
  vt_statuses :: "(operation_id \<times> public_status option) list"

definition public_status_json :: "public_status \<Rightarrow> json" where
  "public_status_json s =
     JObj ([(''ceremony_id'', JStr (pb_ceremony s)), (''ceremony_kind'', ceremony_kind_json (pb_kind s)),
            (''operation_id'', JStr (pb_operation s)), (''state'', ceremony_state_json (pb_state s)),
            (''expires_at_ms'', JDec (pb_expires_at s))]
       @ opt_field ''ceremony_url'' JStr (pb_url s)
       @ [(''receipt_digest'', jopt JStr (pb_receipt s))])"

definition backend_enrollment_json :: "backend_enrollment \<Rightarrow> json" where
  "backend_enrollment_json e =
     JObj [(''backend'', JStr (be_backend e)), (''backend_instance'', JStr (be_instance e)),
           (''encrypted_record'', JBytes (be_record e)), (''pinned_keys'', JArr (map key_ref_json (be_pinned e)))]"

subsection \<open>Transactions on the vault\<close>

type_synonym 'a vtx = "(bool \<times> protocol_error) + (vault \<times> 'a)"

definition vault_transact :: "prims \<Rightarrow> (vault \<Rightarrow> 'a vtx) \<Rightarrow> vault \<Rightarrow> vault \<times> 'a result" where
  "vault_transact P body v =
     (case mutation_transaction P (vt_engine v) of
        (st1, Inl e) \<Rightarrow> (v\<lparr>vt_engine := st1\<rparr>, Inl e)
      | (st1, Inr _) \<Rightarrow>
          (case body (v\<lparr>vt_engine := st1\<rparr>) of
             Inl (latch, e) \<Rightarrow>
               (v\<lparr>vt_engine := if latch
                  then st1\<lparr>en_audit := latch_audit_degraded_with ''audit_append_failed'' (en_audit st1)\<rparr>
                  else st1\<rparr>, Inl e)
           | Inr (v2, x) \<Rightarrow> (v2, Inr x)))"

definition vault_audit :: "prims \<Rightarrow> string \<Rightarrow> json \<Rightarrow> vault \<Rightarrow> (bool \<times> protocol_error) + vault" where
  "vault_audit P event payload v =
     rbind (append_audit P event payload (vt_engine v)) (\<lambda>st. Inr (v\<lparr>vt_engine := st\<rparr>))"

subsection \<open>Writing single tables\<close>

text \<open>\<open>INSERT ... ON CONFLICT DO UPDATE\<close> on a list of rows with a key.\<close>

definition upsert :: "('r \<Rightarrow> 'k) \<Rightarrow> 'r \<Rightarrow> 'r list \<Rightarrow> 'r list" where
  "upsert key row rows =
     (if list_ex (\<lambda>r. key r = key row) rows then map (\<lambda>r. if key r = key row then row else r) rows
      else rows @ [row])"

definition insert_row :: "('r \<Rightarrow> 'k) \<Rightarrow> 'r \<Rightarrow> 'r list \<Rightarrow> 'r list result" where
  "insert_row key row rows =
     (if list_ex (\<lambda>r. key r = key row) rows then Inl (err ServiceUnavailable) else Inr (rows @ [row]))"

fun insert_rows :: "('r \<Rightarrow> 'k) \<Rightarrow> 'r list \<Rightarrow> 'r list \<Rightarrow> 'r list result" where
  "insert_rows key [] rows = Inr rows"
| "insert_rows key (x # xs) rows = rbind (insert_row key x rows) (insert_rows key xs)"

definition set_enrolled :: "enrolled_row \<Rightarrow> token option \<Rightarrow> vault \<Rightarrow> vault" where
  "set_enrolled row wallet v =
     v\<lparr>vt_engine := (vt_engine v)\<lparr>en_enrolled := upsert ek_fingerprint row (en_enrolled (vt_engine v))\<rparr>,
       vt_key_wallet := (vt_key_wallet v)(ek_fingerprint row := wallet)\<rparr>"

definition set_status :: "public_status \<Rightarrow> vault \<Rightarrow> vault" where
  "set_status s v =
     v\<lparr>vt_engine := (vt_engine v)\<lparr>en_statuses := filter (\<lambda>q. cs_operation q \<noteq> pb_operation s) (en_statuses (vt_engine v))\<rparr>,
       vt_statuses := upsert fst (pb_operation s, Some s) (vt_statuses v)\<rparr>"

definition insert_custody_receipt :: "custody_result \<Rightarrow> u64 \<Rightarrow> vault \<Rightarrow> vault result" where
  "insert_custody_receipt r now v =
     (if list_ex (\<lambda>q. fst q = cs_custody_operation r) (en_receipts (vt_engine v)) then Inl (err ServiceUnavailable)
      else rbind (insert_row cy_operation
                    \<lparr>cy_operation = cs_custody_operation r, cy_result = Some r, cy_committed = Some now\<rparr>
                    (vt_receipts v)) (\<lambda>rows. Inr (v\<lparr>vt_receipts := rows\<rparr>)))"

subsection \<open>Generations of credential authority\<close>

definition stored_generation :: "vault \<Rightarrow> token \<Rightarrow> u64 result" where
  "stored_generation v wallet =
     (case find (\<lambda>g. fst g = wallet) (en_generations (vt_engine v)) of
        None \<Rightarrow> Inr 0
      | Some g \<Rightarrow> ok_or (snd g) (err MalformedFrame))"

definition generation_admitted :: "custody_result \<Rightarrow> custody_backup \<Rightarrow> u64 \<Rightarrow> unit result" where
  "generation_admitted r w previous =
     (let next_generation = cb_generation w in
      if next_generation < previous then Inl (err CeremonyReplay)
      else if cs_ceremony_kind r = WalletRecovery \<and> cs_wallet r = Some (cb_wallet w)
      then (case checked_add previous 1 of
              None \<Rightarrow> Inl (err ServiceUnavailable)
            | Some expected \<Rightarrow> ensure (next_generation = expected) (err CeremonyReplay))
      else ensure (\<not> (cs_ceremony_kind r \<noteq> WalletRecovery \<and> next_generation \<noteq> previous)) (err CeremonyReplay))"

fun commit_generations :: "custody_result \<Rightarrow> custody_backup list \<Rightarrow> vault \<Rightarrow> vault result" where
  "commit_generations r [] v = Inr v"
| "commit_generations r (w # ws) v =
     rbind (stored_generation v (cb_wallet w)) (\<lambda>previous.
     rbind (generation_admitted r w previous) (\<lambda>_.
       commit_generations r ws
         (v\<lparr>vt_engine := (vt_engine v)\<lparr>en_generations :=
              upsert fst (cb_wallet w, Some (cb_generation w)) (en_generations (vt_engine v))\<rparr>\<rparr>)))"

subsection \<open>Replacing the custody snapshot\<close>

definition replace_wallets :: "custody_backup list \<Rightarrow> vault \<Rightarrow> vault result" where
  "replace_wallets ws v =
     rbind (insert_rows fst (map (\<lambda>w. (cb_wallet w, Some w)) ws) []) (\<lambda>rows. Inr (v\<lparr>vt_wallets := rows\<rparr>))"

definition replace_credentials :: "(token \<times> webauthn_credential) list \<Rightarrow> u64 \<Rightarrow> vault \<Rightarrow> vault result" where
  "replace_credentials cs now v =
     (let created = (\<lambda>c. case find (\<lambda>r. cd_credential r = wc_id c) (vt_credentials v) of
                           Some r \<Rightarrow> cd_created r | None \<Rightarrow> Some now) in
      rbind (insert_rows cd_credential
               (map (\<lambda>(w, c). \<lparr>cd_credential = wc_id c, cd_wallet = w, cd_value = Some c, cd_created = created c\<rparr>) cs) [])
        (\<lambda>rows. Inr (v\<lparr>vt_credentials := rows\<rparr>)))"

subsection \<open>Effects\<close>

datatype database_effect =
    EffectNone
  | InitialPolicy policy_snapshot bytes "backend_enrollment option"
  | PolicyUpdatePending policy_update validation_receipt commit_receipt
  | EnrollKey key_ref "petal_scope option"

fun effect_json :: "database_effect \<Rightarrow> json" where
  "effect_json EffectNone = JObj [(''kind'', JStr ''custody_only'')]"
| "effect_json (InitialPolicy s key e) =
     JObj [(''kind'', JStr ''initial_policy''), (''snapshot'', snapshot_json s),
           (''policy_verifying_key'', JBytes key), (''backend_enrollment'', jopt backend_enrollment_json e)]"
| "effect_json (PolicyUpdatePending u val r) =
     JObj [(''kind'', JStr ''policy_update_pending''), (''update'', policy_update_json u),
           (''validation'', validation_json val), (''receipt'', commit_receipt_json r)]"
| "effect_json (EnrollKey k s) =
     JObj [(''kind'', JStr ''enroll_key''), (''key_ref'', key_ref_json k), (''petal_scope'', jopt scope_json s)]"

definition policy_row_of :: "policy_snapshot \<Rightarrow> bytes \<Rightarrow> policy_row" where
  "policy_row_of s key =
     \<lparr>pl_wallet = sn_wallet s, pl_version = Some (sn_version s), pl_digest = sn_digest s, pl_policy = sn_policy s,
      pl_snapshot = Some s, pl_key_id = Some (sn_key_id s), pl_verifying_key = key\<rparr>"

definition enrolled_row_of :: "prims \<Rightarrow> key_ref \<Rightarrow> string \<Rightarrow> enrolled_row" where
  "enrolled_row_of P k authority =
     \<lparr>ek_fingerprint = kr_fingerprint k, ek_key_ref_jcs = p_jcs P (key_ref_json k), ek_available = True,
      ek_authority = authority\<rparr>"

definition enroll_backend_root :: "prims \<Rightarrow> token \<Rightarrow> backend_enrollment \<Rightarrow> vault \<Rightarrow> vault result" where
  "enroll_backend_root P wallet e v =
     (case filter (\<lambda>k. kr_derivation k = None) (be_pinned e) of
        [] \<Rightarrow> Inr v
      | root # rest \<Rightarrow>
          if rest \<noteq> [] \<or> kr_backend root \<noteq> be_backend e \<or> kr_backend_instance root \<noteq> be_instance e
          then Inl (err KeyrefMismatch)
          else rbind (insert_row ek_fingerprint (enrolled_row_of P root ''wallet_root'')
                        (en_enrolled (vt_engine v))) (\<lambda>rows.
            Inr (v\<lparr>vt_engine := (vt_engine v)\<lparr>en_enrolled := rows\<rparr>,
                   vt_key_wallet := (vt_key_wallet v)(kr_fingerprint root := Some wallet)\<rparr>)))"

definition apply_initial_policy ::
  "prims \<Rightarrow> policy_snapshot \<Rightarrow> bytes \<Rightarrow> backend_enrollment option \<Rightarrow> vault \<Rightarrow> vault result" where
  "apply_initial_policy P s key enrollment v =
     rbind (insert_row pl_wallet (policy_row_of s key) (vt_policies v)) (\<lambda>rows.
     let v1 = v\<lparr>vt_policies := rows\<rparr> in
     case enrollment of
       None \<Rightarrow> Inr v1
     | Some e \<Rightarrow>
         rbind (enroll_backend_root P (sn_wallet s) e v1) (\<lambda>v2.
         rbind (insert_row fst (be_instance e, Some e) (vt_enrollments v2)) (\<lambda>rows.
           Inr (v2\<lparr>vt_enrollments := rows\<rparr>))))"

definition apply_policy_pending ::
  "custody_result \<Rightarrow> policy_update \<Rightarrow> validation_receipt \<Rightarrow> commit_receipt \<Rightarrow> vault \<Rightarrow> vault result" where
  "apply_policy_pending r u val receipt v =
     rbind (insert_row fst
              (pu_operation u, Some \<lparr>pz_update = u, pz_validation = val, pz_ceremony_receipt = r,
                 pz_commit_receipt = receipt\<rparr>) (vt_authorizations v)) (\<lambda>rows.
       Inr (v\<lparr>vt_authorizations := rows\<rparr>))"

text \<open>A live scope keeps its key; an expired one yields it.\<close>

definition release_scope :: "digest32 \<Rightarrow> u64 \<Rightarrow> vault \<Rightarrow> vault result" where
  "release_scope fingerprint now v =
     (case find (\<lambda>s. pr_fingerprint s = fingerprint) (en_petal_scopes (vt_engine v)) of
        None \<Rightarrow> Inr v
      | Some holder \<Rightarrow>
          rbind (ok_or (pr_expires holder) (err MalformedFrame)) (\<lambda>expires.
          if expires > now then Inl (err KeyrefMismatch)
          else Inr (v\<lparr>vt_engine := (vt_engine v)\<lparr>en_petal_scopes :=
                 filter (\<lambda>s. pr_fingerprint s \<noteq> fingerprint) (en_petal_scopes (vt_engine v))\<rparr>\<rparr>)))"

definition insert_scope :: "digest32 \<Rightarrow> petal_scope \<Rightarrow> u64 \<Rightarrow> u64 \<Rightarrow> vault \<Rightarrow> vault result" where
  "insert_scope fingerprint s now expires v =
     (if list_ex (\<lambda>q. case pr_scope q of
            Some s' \<Rightarrow> ps_custody_operation_id s' = ps_custody_operation_id s | None \<Rightarrow> False)
           (en_petal_scopes (vt_engine v))
      then Inl (err ServiceUnavailable)
      else rbind (insert_row pr_fingerprint
                    \<lparr>pr_fingerprint = fingerprint, pr_scope = Some s, pr_created = Some now, pr_expires = Some expires\<rparr>
                    (en_petal_scopes (vt_engine v))) (\<lambda>rows.
             Inr (v\<lparr>vt_engine := (vt_engine v)\<lparr>en_petal_scopes := rows\<rparr>\<rparr>)))"

record decoded_backup =
  db_record :: bytes
  db_bip39 :: bool
  db_registry :: "key_ref list"

definition update_enrollment :: "token \<Rightarrow> backend_enrollment \<Rightarrow> vault \<Rightarrow> vault result" where
  "update_enrollment key e v =
     (if length (filter (\<lambda>q. fst q = key) (vt_enrollments v)) \<noteq> 1 then Inl (err KeyrefMismatch)
      else Inr (v\<lparr>vt_enrollments := map (\<lambda>q. if fst q = key then (key, Some e) else q) (vt_enrollments v)\<rparr>))"

definition refresh_parent_enrollment :: "(key_ref \<Rightarrow> decoded_backup result) \<Rightarrow> key_ref \<Rightarrow> vault \<Rightarrow> vault result" where
  "refresh_parent_enrollment local_backup parent v =
     rbind (local_backup parent) (\<lambda>b.
       update_enrollment (kr_backend_instance parent)
         \<lparr>be_backend = kr_backend parent, be_instance = kr_backend_instance parent, be_record = db_record b,
          be_pinned = if db_bip39 b then db_registry b else [parent]\<rparr> v)"

definition apply_enroll_key ::
  "prims \<Rightarrow> (key_ref \<Rightarrow> decoded_backup result) \<Rightarrow> key_ref \<Rightarrow> petal_scope option \<Rightarrow> u64 \<Rightarrow> vault \<Rightarrow> vault result" where
  "apply_enroll_key P local_backup k scope now v =
     (let v1 = set_enrolled (enrolled_row_of P k (if scope = None then ''unscoped'' else ''petal''))
                 (map_option ps_wallet_id scope) v in
      case scope of
        None \<Rightarrow> Inr v1
      | Some s \<Rightarrow>
          rbind (scope_digest P s) (\<lambda>_.
          rbind (ok_or (checked_add now (ps_maximum_lifetime_ms s)) (err MalformedFrame)) (\<lambda>expires.
          rbind (release_scope (kr_fingerprint k) now v1) (\<lambda>v2.
          rbind (insert_scope (kr_fingerprint k) s now expires v2) (\<lambda>v3.
            refresh_parent_enrollment local_backup (ps_parent_key_ref s) v3)))))"

definition apply_effect ::
  "prims \<Rightarrow> (key_ref \<Rightarrow> decoded_backup result) \<Rightarrow> custody_result \<Rightarrow> u64 \<Rightarrow> database_effect \<Rightarrow> vault \<Rightarrow> vault result" where
  "apply_effect P local_backup r now effect v =
     (case effect of
        EffectNone \<Rightarrow> Inr v
      | InitialPolicy s key e \<Rightarrow> apply_initial_policy P s key e v
      | PolicyUpdatePending u val receipt \<Rightarrow> apply_policy_pending r u val receipt v
      | EnrollKey k scope \<Rightarrow> apply_enroll_key P local_backup k scope now v)"

subsection \<open>Marking allocations committed\<close>

definition allocation_claimed :: "token \<Rightarrow> operation_id \<Rightarrow> allocation \<Rightarrow> bool" where
  "allocation_claimed wallet operation a =
     (al_wallet a = wallet \<and> al_operation a = operation \<and> al_state a = ACTIVATED \<and> \<not> al_authority_committed a)"

fun commit_allocations :: "(token \<times> operation_id) list \<Rightarrow> registry \<Rightarrow> registry result" where
  "commit_allocations [] reg = Inr reg"
| "commit_allocations ((wallet, operation) # rest) reg =
     (if length (filter (allocation_claimed wallet operation) (reg_allocations reg)) \<noteq> 1
      then Inl (err OperationIdConflict)
      else commit_allocations rest
        (reg\<lparr>reg_allocations := map (\<lambda>a. if allocation_claimed wallet operation a
               then a\<lparr>al_authority_committed := True\<rparr> else a) (reg_allocations reg)\<rparr>))"

definition commit_claimed :: "(token \<times> operation_id) list \<Rightarrow> vault \<Rightarrow> vault result" where
  "commit_claimed claims v =
     rbind (commit_allocations claims (en_registry (vt_engine v))) (\<lambda>reg.
       Inr (v\<lparr>vt_engine := (vt_engine v)\<lparr>en_registry := reg\<rparr>\<rparr>))"

subsection \<open>The commit of a custody ceremony\<close>

record custody_commit =
  ct_result :: custody_result
  ct_wallets :: "custody_backup list"
  ct_credentials :: "(token \<times> webauthn_credential) list"
  ct_at :: u64
  ct_status :: public_status
  ct_allocations :: "(token \<times> operation_id) list"
  ct_effect :: database_effect

definition enrolls_credential :: "ceremony_kind \<Rightarrow> bool" where
  "enrolls_credential kind =
     (kind = WalletRegistration \<or> kind = WalletImport \<or> kind = WalletRecovery \<or> kind = CredentialAdd
      \<or> kind = CredentialReplace)"

definition commit_json :: "prims \<Rightarrow> custody_commit \<Rightarrow> json" where
  "commit_json P c =
     JObj [(''operation_id'', JStr (cs_custody_operation (ct_result c))),
           (''ceremony_kind'', ceremony_kind_json (cs_ceremony_kind (ct_result c))),
           (''result'', custody_result_json (ct_result c)), (''status'', public_status_json (ct_status c)),
           (''wallet_count'', JStr (show_nat (length (ct_wallets c)))),
           (''credential_count'', JStr (show_nat (length (ct_credentials c)))),
           (''wallet_snapshot_digest'',
             JStr (p_sha256 P (p_jcs P (JArr (map custody_backup_json (ct_wallets c)))))),
           (''credential_snapshot_digest'',
             JStr (p_sha256 P (p_jcs P (JArr (map (\<lambda>(w, cred). JArr [JStr w, webauthn_credential_json cred])
               (ct_credentials c)))))),
           (''database_effect'', effect_json (ct_effect c))]"

definition commit_custody_snapshot_tx ::
  "prims \<Rightarrow> (key_ref \<Rightarrow> decoded_backup result) \<Rightarrow> custody_commit \<Rightarrow> vault \<Rightarrow> unit vtx" where
  "commit_custody_snapshot_tx P local_backup c v =
     rbind (with_latch False
       (rbind (ok_or (cs_surface (ct_result c)) (err CeremonyReplay)) (\<lambda>surface.
        rbind (require_surface_at_commit P (en_surfaces (vt_engine v)) surface
                 (enrolls_credential (cs_ceremony_kind (ct_result c)))) (\<lambda>_.
        rbind (commit_generations (ct_result c) (ct_wallets c) v) (\<lambda>v1.
        rbind (replace_wallets (ct_wallets c) v1) (\<lambda>v2.
        rbind (replace_credentials (ct_credentials c) (ct_at c) v2) (\<lambda>v3.
        rbind (apply_effect P local_backup (ct_result c) (ct_at c) (ct_effect c) v3) (\<lambda>v4.
        rbind (insert_custody_receipt (ct_result c) (ct_at c) v4) (\<lambda>v5.
        rbind (commit_claimed (ct_allocations c) v5) (\<lambda>v6.
          Inr (set_status (ct_status c) v6))))))))))) (\<lambda>v7.
     rbind (vault_audit P ''custody.commit'' (commit_json P c) v7) (\<lambda>v8. Inr (v8, ())))"

definition commit_custody_snapshot_with_effect ::
  "prims \<Rightarrow> (key_ref \<Rightarrow> decoded_backup result) \<Rightarrow> custody_commit \<Rightarrow> vault \<Rightarrow> vault \<times> unit result" where
  "commit_custody_snapshot_with_effect P local_backup c v =
     vault_transact P (commit_custody_snapshot_tx P local_backup c) v"

subsection \<open>Reading back\<close>

definition custody_receipt :: "vault \<Rightarrow> operation_id \<Rightarrow> custody_result option result" where
  "custody_receipt v operation =
     (case find (\<lambda>r. cy_operation r = operation) (vt_receipts v) of
        None \<Rightarrow> Inr None
      | Some r \<Rightarrow> rbind (ok_or (cy_result r) (err MalformedFrame)) (\<lambda>x. Inr (Some x)))"

definition recovery_result_delivery_valid :: "vault \<Rightarrow> operation_id \<Rightarrow> u64 \<Rightarrow> bool result" where
  "recovery_result_delivery_valid v operation now =
     rbind (case find (\<lambda>r. cy_operation r = operation) (vt_receipts v) of
              None \<Rightarrow> Inr 0
            | Some r \<Rightarrow> ok_or (cy_committed r) (err MalformedFrame)) (\<lambda>committed.
       Inr (committed \<noteq> 0 \<and> now \<le> saturating_add committed (15 * 60 * 1000)))"

definition allocation_is_authority_committed :: "vault \<Rightarrow> operation_id \<Rightarrow> bool result" where
  "allocation_is_authority_committed v operation =
     Inr (list_ex (\<lambda>a. al_operation a = operation \<and> al_state a = ACTIVATED \<and> al_authority_committed a)
            (reg_allocations (en_registry (vt_engine v))))"

definition pending_derivation_is_committed :: "vault \<Rightarrow> operation_id \<Rightarrow> key_ref \<Rightarrow> bool result" where
  "pending_derivation_is_committed v operation k =
     (case kr_derivation k of
        Some (Bip39Multicurve _ _ _) \<Rightarrow> allocation_is_authority_committed v operation
      | _ \<Rightarrow> rbind (custody_receipt v operation) (\<lambda>r. Inr (r \<noteq> None)))"

fun collect :: "('a \<Rightarrow> 'e + 'b) \<Rightarrow> 'a list \<Rightarrow> 'e + 'b list" where
  "collect f [] = Inr []"
| "collect f (x # xs) = rbind (f x) (\<lambda>y. rbind (collect f xs) (\<lambda>ys. Inr (y # ys)))"

text \<open>Rows are read in the order of their text keys; \<open>b64\<close> is the text form of a credential identifier.\<close>

definition load_ceremony_custody ::
  "(bytes \<Rightarrow> string) \<Rightarrow> vault \<Rightarrow> (custody_backup list \<times> (token \<times> webauthn_credential) list) result" where
  "load_ceremony_custody b64 v =
     rbind (collect (\<lambda>(_, w). ok_or w (err MalformedFrame)) (sort_key fst (vt_wallets v))) (\<lambda>wallets.
     rbind (for_each (\<lambda>w. rbind (stored_generation v (cb_wallet w)) (\<lambda>generation.
              ensure (generation = cb_generation w) (err ServiceUnavailable))) wallets) (\<lambda>_.
     rbind (collect (\<lambda>r. rbind (ok_or (cd_value r) (err MalformedFrame)) (\<lambda>c. Inr (cd_wallet r, c)))
              (sort_key (\<lambda>r. b64 (cd_credential r)) (vt_credentials v))) (\<lambda>credentials.
       Inr (wallets, credentials))))"

definition load_ceremony_backend_enrollments :: "vault \<Rightarrow> backend_enrollment list result" where
  "load_ceremony_backend_enrollments v =
     collect (\<lambda>(_, e). ok_or e (err MalformedFrame)) (sort_key fst (vt_enrollments v))"

text \<open>The row an activated approval leaves in the same table.\<close>

definition approval_status :: "ceremony_status_row \<Rightarrow> public_status" where
  "approval_status s =
     \<lparr>pb_ceremony = cs_ceremony s, pb_kind = SealedApproval, pb_operation = cs_operation s, pb_state = CsSucceeded,
      pb_expires_at = cs_expires_at s, pb_url = None, pb_receipt = Some (cs_receipt_digest s)\<rparr>"

definition ceremony_public_status :: "vault \<Rightarrow> operation_id \<Rightarrow> public_status option result" where
  "ceremony_public_status v operation =
     (case find (\<lambda>s. fst s = operation) (vt_statuses v) of
        None \<Rightarrow> Inr (map_option approval_status (find (\<lambda>s. cs_operation s = operation) (en_statuses (vt_engine v))))
      | Some s \<Rightarrow> rbind (ok_or (snd s) (err MalformedFrame)) (\<lambda>x. Inr (Some x)))"

definition persist_ceremony_public_status :: "prims \<Rightarrow> public_status \<Rightarrow> vault \<Rightarrow> vault \<times> unit result" where
  "persist_ceremony_public_status P s v =
     vault_transact P (\<lambda>v.
       rbind (vault_audit P ''ceremony.status'' (JObj [(''status'', public_status_json s)]) (set_status s v))
         (\<lambda>v1. Inr (v1, ()))) v"

definition record_backend_activation :: "prims \<Rightarrow> token \<Rightarrow> key_ref \<Rightarrow> vault \<Rightarrow> vault \<times> unit result" where
  "record_backend_activation P wallet k v =
     vault_transact P (\<lambda>v.
       rbind (vault_audit P ''backend.activated''
                (JObj [(''wallet_id'', JStr wallet), (''key_ref'', key_ref_json k)]) v) (\<lambda>v1. Inr (v1, ()))) v"

end
