(* ===== verification/Policy.thy ===== *)
theory Policy
  imports Ceremony_Store
begin

text \<open>
  Wallet policies in the engine (\<open>crates/bloom-signer/src/engine.rs\<close>): the signed snapshot, the preparation
  of an update under the wallet's policy key, the first policy of a wallet, and the compare-and-swap
  that commits an update a passkey ceremony has authorised.
\<close>

definition POLICY_SIGNATURE_DOMAIN :: string where
  "POLICY_SIGNATURE_DOMAIN = ''bloom-policy-snapshot/v1''"

definition POLICY_VALIDATION_DOMAIN :: string where
  "POLICY_VALIDATION_DOMAIN = ''bloom-policy-validation-receipt/v1''"

subsection \<open>Signed snapshots\<close>

definition snapshot_message :: "prims \<Rightarrow> policy_snapshot \<Rightarrow> bytes" where
  "snapshot_message P s =
     str_bytes POLICY_SIGNATURE_DOMAIN @ p_jcs P (snapshot_json (s\<lparr>sn_signature := []\<rparr>))"

definition sign_policy_snapshot ::
  "'m custody_prims \<Rightarrow> token \<Rightarrow> u64 \<Rightarrow> bytes \<Rightarrow> token \<Rightarrow> unlocked_wallet \<Rightarrow> policy_snapshot result" where
  "sign_policy_snapshot C wallet version policy key_id u =
     rbind (policy_verifying_key C u) (\<lambda>verifying_key.
     let s = \<lparr>sn_wallet = wallet, sn_version = version, sn_policy = policy,
              sn_digest = p_sha256 (cp_prims C) policy, sn_key_id = key_id, sn_verifying_key = verifying_key,
              sn_signature = []\<rparr> in
     rbind (sign_policy_message C u (snapshot_message (cp_prims C) s)) (\<lambda>signature.
       Inr (s\<lparr>sn_signature := signature\<rparr>)))"

text \<open>\<open>key_ok\<close>: the bytes are a point the signature crate accepts as a verifying key.\<close>

definition verify_policy_backup :: "prims \<Rightarrow> (bytes \<Rightarrow> bool) \<Rightarrow> policy_snapshot \<Rightarrow> bytes \<Rightarrow> unit result" where
  "verify_policy_backup P key_ok s verifying_key =
     (if length verifying_key \<noteq> 32 then Inl (err UnauthenticatedPeer)
      else if length (sn_signature s) \<noteq> 64 then Inl (err UnauthenticatedPeer)
      else if p_sha256 P (sn_policy s) \<noteq> sn_digest s then Inl (err PolicyBaselineStale)
      else if \<not> key_ok verifying_key then Inl (err UnauthenticatedPeer)
      else ensure (p_verify P verifying_key (snapshot_message P s) (sn_signature s)) (err UnauthenticatedPeer))"

subsection \<open>Preparing\<close>

definition validate_policy_ceremony_prepare :: "prims \<Rightarrow> policy_prepare \<Rightarrow> vault \<Rightarrow> unit result" where
  "validate_policy_ceremony_prepare P q v =
     (let c = pp_custody q; u = pp_update q; r = pp_validation q; st = vt_engine v in
      if cq_kind c \<noteq> PolicyUpdate \<or> cq_operation c \<noteq> pu_operation u \<or> cq_wallet c \<noteq> Some (pu_wallet u)
         \<or> cq_key_ref c \<noteq> None \<or> cq_terms_digest c \<noteq> policy_terms_digest P u
         \<or> vr_terms_digest r \<noteq> cq_terms_digest c \<or> vr_broker_key r \<noteq> en_broker_key_id st
      then Inl (err CeremonyKindMismatch)
      else if length (vr_signature r) \<noteq> 64 then Inl (err UnauthenticatedPeer)
      else ensure (p_verify P (en_broker_key st)
                     (str_bytes POLICY_VALIDATION_DOMAIN @ validation_unsigned P r) (vr_signature r))
             (err UnauthenticatedPeer))"

definition prepare_initial_policy_effect ::
  "'m custody_prims \<Rightarrow> token \<Rightarrow> bytes \<Rightarrow> token \<Rightarrow> unlocked_wallet \<Rightarrow> database_effect result" where
  "prepare_initial_policy_effect C wallet policy key_id u =
     (if uw_wallet u \<noteq> wallet then Inl (err KeyrefMismatch)
      else rbind (sign_policy_snapshot C wallet 1 policy key_id u) (\<lambda>s.
           rbind (policy_verifying_key C u) (\<lambda>key. Inr (InitialPolicy s key None))))"

definition prepare_policy_update_effect ::
  "'m custody_prims \<Rightarrow> policy_prepare \<Rightarrow> unlocked_wallet \<Rightarrow> vault \<Rightarrow> (commit_receipt \<times> database_effect) result" where
  "prepare_policy_update_effect C q w v =
     (let u = pp_update q in
      if uw_wallet w \<noteq> pu_wallet u then Inl (err KeyrefMismatch)
      else if p_sha256 (cp_prims C) (pu_policy u) \<noteq> pu_digest u then Inl (err PolicyBaselineStale)
      else
        rbind (ok_or (find (\<lambda>r. pl_wallet r = pu_wallet u) (vt_policies v)) (err ServiceUnavailable)) (\<lambda>row.
        if pl_version row \<noteq> Some (pu_baseline_version u) \<or> pl_digest row \<noteq> pu_baseline_digest u
        then Inl (err PolicyBaselineStale)
        else
          rbind (policy_verifying_key C w) (\<lambda>key.
          if pl_verifying_key row \<noteq> key then Inl (err UnauthenticatedPeer)
          else
            rbind (ok_or (checked_add (pu_baseline_version u) 1) (err PolicyBaselineStale)) (\<lambda>version.
            rbind (ok_or (pl_key_id row) (err MalformedFrame)) (\<lambda>key_id.
            rbind (sign_policy_snapshot C (pu_wallet u) version (pu_policy u) key_id w) (\<lambda>s.
            let r = \<lparr>pc_operation = pu_operation u, pc_wallet = pu_wallet u, pc_previous = pu_baseline_version u,
                     pc_committed = s, pc_diff_digest = pu_diff_digest u, pc_signer_key = key_id,
                     pc_signature = []\<rparr> in
            rbind (sign_policy_message C w (receipt_message (cp_prims C) r)) (\<lambda>signature.
              let r' = r\<lparr>pc_signature := signature\<rparr> in
              Inr (r', PolicyUpdatePending u (pp_validation q) r'))))))))"

subsection \<open>The first policy\<close>

definition install_initial_policy_tx :: "'m custody_prims \<Rightarrow> policy_snapshot \<Rightarrow> bytes \<Rightarrow> vault \<Rightarrow> policy_snapshot vtx" where
  "install_initial_policy_tx C s key v =
     rbind (with_latch False (insert_row pl_wallet (policy_row_of s key) (vt_policies v))) (\<lambda>rows.
     rbind (vault_audit (cp_prims C) ''policy.installed''
              (JObj [(''wallet_id'', JStr (sn_wallet s)), (''snapshot'', snapshot_json s),
                     (''policy_signing_key_id'', JStr (sn_key_id s))]) (v\<lparr>vt_policies := rows\<rparr>)) (\<lambda>v1.
       Inr (v1, s)))"

definition install_initial_policy ::
  "'m custody_prims \<Rightarrow> token \<Rightarrow> bytes \<Rightarrow> token \<Rightarrow> unlocked_wallet \<Rightarrow> vault \<Rightarrow> vault \<times> policy_snapshot result" where
  "install_initial_policy C wallet policy key_id u v =
     (if uw_wallet u \<noteq> wallet then (v, Inl (err KeyrefMismatch))
      else case rbind (sign_policy_snapshot C wallet 1 policy key_id u) (\<lambda>s.
                rbind (policy_verifying_key C u) (\<lambda>key. Inr (s, key))) of
        Inl e \<Rightarrow> (v, Inl e)
      | Inr (s, key) \<Rightarrow> vault_transact (cp_prims C) (install_initial_policy_tx C s key) v)"

subsection \<open>Compare and swap\<close>

definition authorization_matches :: "pending_authorization \<Rightarrow> policy_cas_request \<Rightarrow> bool" where
  "authorization_matches z q =
     (pz_update z = pq_update q \<and> pz_validation z = pq_validation q
      \<and> pz_ceremony_receipt z = pq_ceremony_receipt q
      \<and> cs_ceremony_kind (pq_ceremony_receipt q) = PolicyUpdate
      \<and> cs_custody_operation (pq_ceremony_receipt q) = pu_operation (pq_update q))"

definition swap_policy :: "policy_update \<Rightarrow> commit_receipt \<Rightarrow> policy_row list \<Rightarrow> policy_row list result" where
  "swap_policy u r rows =
     (let hit = (\<lambda>row. pl_wallet row = pu_wallet u \<and> pl_version row = Some (pu_baseline_version u)
                     \<and> pl_digest row = pu_baseline_digest u);
          s = pc_committed r in
      if length (filter hit rows) \<noteq> 1 then Inl (err PolicyBaselineStale)
      else Inr (map (\<lambda>row. if hit row
             then row\<lparr>pl_version := Some (sn_version s), pl_digest := sn_digest s, pl_policy := sn_policy s,
                      pl_snapshot := Some s\<rparr> else row) rows))"

definition committed_json :: "policy_update \<Rightarrow> commit_receipt \<Rightarrow> json" where
  "committed_json u r =
     JObj [(''operation_id'', JStr (pu_operation u)), (''wallet_id'', JStr (pu_wallet u)),
           (''baseline_version'', JDec (pu_baseline_version u)),
           (''baseline_digest'', JStr (pu_baseline_digest u)),
           (''proposed_policy_digest'', JStr (pu_digest u)), (''receipt'', commit_receipt_json r)]"

definition commit_policy_tx :: "prims \<Rightarrow> policy_cas_request \<Rightarrow> vault \<Rightarrow> commit_receipt vtx" where
  "commit_policy_tx P q v =
     (let u = pq_update q in
      rbind (with_latch False
        (rbind (ok_or (map_of (vt_authorizations v) (pu_operation u)) (err PolicyBaselineStale)) (\<lambda>encoded.
         rbind (ok_or encoded (err MalformedFrame)) (\<lambda>z.
         if \<not> authorization_matches z q then Inl (err OperationIdConflict)
         else
           rbind (ok_or (find (\<lambda>r. pl_wallet r = pu_wallet u) (vt_policies v)) (err ServiceUnavailable)) (\<lambda>row.
           if pl_version row \<noteq> Some (pu_baseline_version u) \<or> pl_digest row \<noteq> pu_baseline_digest u
           then Inl (err PolicyBaselineStale)
           else
             rbind (swap_policy u (pz_commit_receipt z) (vt_policies v)) (\<lambda>policies.
             rbind (insert_row fst (pu_operation u, p_jcs P (policy_cas_json q), Some (pz_commit_receipt z))
                      (vt_commits v)) (\<lambda>commits.
               Inr (pz_commit_receipt z,
                    v\<lparr>vt_policies := policies, vt_commits := commits,
                      vt_authorizations := filter (\<lambda>a. fst a \<noteq> pu_operation u) (vt_authorizations v)\<rparr>))))))))
        (\<lambda>(r, v1).
      rbind (vault_audit P ''policy.committed'' (committed_json u r) v1) (\<lambda>v2. Inr (v2, r))))"

definition compare_and_swap_tx :: "prims \<Rightarrow> policy_cas_request \<Rightarrow> vault \<Rightarrow> commit_receipt vtx" where
  "compare_and_swap_tx P q v =
     (case map_of (vt_commits v) (pu_operation (pq_update q)) of
        Some (request, receipt) \<Rightarrow>
          if request \<noteq> p_jcs P (policy_cas_json q) then abort OperationIdConflict
          else rbind (with_latch False (ok_or receipt (err MalformedFrame))) (\<lambda>r. Inr (v, r))
      | None \<Rightarrow> commit_policy_tx P q v)"

definition compare_and_swap_policy :: "prims \<Rightarrow> policy_cas_request \<Rightarrow> vault \<Rightarrow> vault \<times> commit_receipt result" where
  "compare_and_swap_policy P q v =
     (if p_sha256 P (pu_policy (pq_update q)) \<noteq> pu_digest (pq_update q) then (v, Inl (err PolicyBaselineStale))
      else vault_transact P (compare_and_swap_tx P q) v)"

definition engine_policy_snapshot :: "vault \<Rightarrow> token \<Rightarrow> policy_snapshot result" where
  "engine_policy_snapshot v wallet =
     rbind (ok_or (find (\<lambda>r. pl_wallet r = wallet) (vt_policies v)) (err ApprovalNotFound)) (\<lambda>row.
       ok_or (pl_snapshot row) (err MalformedFrame))"

end
