(* ===== verification/Policy_Properties.thy ===== *)
theory Policy_Properties
  imports Policy Audit_Properties
begin

text \<open>
  Runs of the vault as far as policies go. A step prepares an effect from an unlocked wallet, commits a custody
  ceremony with a prepared effect, installs a first policy, commits an authorised update, or is any
  operation that leaves the policy tables alone. Prepared effects wait outside the database, so the state
  carries them; the source makes them in the two preparing functions only. Shown: the history of a wallet's policy
  is linear and every snapshot in it verifies, a commit needs the passkey ceremony
  that authorised it, and a commit repeats to the same receipt.
\<close>

subsection \<open>Transactions\<close>

lemma vault_transact_ok:
  assumes "vault_transact P body v = (v', Inr x)"
  shows "body v = Inr (v', x)"
  using assms
  by (auto simp: vault_transact_def mutation_transaction_def split: prod.splits sum.splits if_splits)

lemma vault_transact_err:
  assumes "vault_transact P body v = (v', Inl e)"
  shows "\<exists>st. v' = v\<lparr>vt_engine := st\<rparr>"
  using assms by (auto simp: vault_transact_def split: prod.splits sum.splits if_splits)

lemma vault_audit_ok:
  "vault_audit P event payload v = Inr v' \<Longrightarrow> \<exists>st. v' = v\<lparr>vt_engine := st\<rparr>"
  by (auto simp: vault_audit_def result_simps)

lemma with_latch_ok [simp]: "with_latch b r = Inr x \<longleftrightarrow> r = Inr x"
  by (cases r) (simp_all add: with_latch_def)

lemma insert_row_ok: "insert_row key row rows = Inr rows' \<longleftrightarrow> key row \<notin> key ` set rows \<and> rows' = rows @ [row]"
  by (force simp: insert_row_def list_ex_iff image_iff)

subsection \<open>The tables a policy lives in\<close>

definition same_tables :: "vault \<Rightarrow> vault \<Rightarrow> bool" where
  "same_tables v v' =
     (vt_policies v' = vt_policies v \<and> vt_authorizations v' = vt_authorizations v
      \<and> vt_commits v' = vt_commits v \<and> vt_receipts v' = vt_receipts v)"

lemma same_tables_refl [simp]: "same_tables v v"
  by (simp add: same_tables_def)

lemma same_tables_trans: "same_tables u v \<Longrightarrow> same_tables v w \<Longrightarrow> same_tables u w"
  by (simp add: same_tables_def)

lemma same_tables_engine [simp]: "same_tables v (v\<lparr>vt_engine := st\<rparr>)"
  by (simp add: same_tables_def)

lemma commit_generations_tables: "commit_generations r ws v = Inr v' \<Longrightarrow> same_tables v v'"
proof (induction ws arbitrary: v)
  case Nil
  then show ?case by simp
next
  case (Cons w ws)
  then obtain st where "commit_generations r ws (v\<lparr>vt_engine := st\<rparr>) = Inr v'" by (auto simp: result_simps)
  then have "same_tables (v\<lparr>vt_engine := st\<rparr>) v'" by (rule Cons.IH)
  then show ?case by (simp add: same_tables_def)
qed

lemma replace_tables:
  "replace_wallets ws v = Inr v' \<Longrightarrow> same_tables v v'"
  "replace_credentials cs now v = Inr v' \<Longrightarrow> same_tables v v'"
  "commit_claimed claims v = Inr v' \<Longrightarrow> same_tables v v'"
  by (auto simp: replace_wallets_def replace_credentials_def commit_claimed_def Let_def result_simps same_tables_def)

lemma set_status_tables: "same_tables v (set_status s v)"
  by (simp add: set_status_def same_tables_def)

lemma apply_enroll_key_tables: "apply_enroll_key P lb k scope now v = Inr v' \<Longrightarrow> same_tables v v'"
  by (auto simp: apply_enroll_key_def set_enrolled_def release_scope_def insert_scope_def
      refresh_parent_enrollment_def update_enrollment_def same_tables_def Let_def result_simps
      split: option.splits if_splits)

lemma apply_initial_policy_tables:
  assumes "apply_initial_policy P s key e v = Inr v'"
  shows "sn_wallet s \<notin> pl_wallet ` set (vt_policies v)
    \<and> same_tables (v\<lparr>vt_policies := vt_policies v @ [policy_row_of s key]\<rparr>) v'"
  using assms
  by (auto simp: apply_initial_policy_def insert_row_ok enroll_backend_root_def same_tables_def Let_def result_simps
      policy_row_of_def split: option.splits if_splits list.splits)

lemma insert_custody_receipt_tables:
  assumes "insert_custody_receipt r now v = Inr v'"
  shows "same_tables (v\<lparr>vt_receipts := vt_receipts v @
      [\<lparr>cy_operation = cs_custody_operation r, cy_result = Some r, cy_committed = Some now\<rparr>]\<rparr>) v'"
  using assms by (auto simp: insert_custody_receipt_def insert_row_ok same_tables_def result_simps split: if_splits)

text \<open>What a committed custody ceremony leaves in these tables.\<close>

definition effect_tables :: "custody_result \<Rightarrow> database_effect \<Rightarrow> vault \<Rightarrow> vault \<Rightarrow> bool" where
  "effect_tables r effect v v' =
     (case effect of
        InitialPolicy s key e \<Rightarrow>
          sn_wallet s \<notin> pl_wallet ` set (vt_policies v)
          \<and> same_tables (v\<lparr>vt_policies := vt_policies v @ [policy_row_of s key]\<rparr>) v'
      | PolicyUpdatePending u val receipt \<Rightarrow>
          pu_operation u \<notin> fst ` set (vt_authorizations v)
          \<and> same_tables (v\<lparr>vt_authorizations := vt_authorizations v @ [(pu_operation u,
              Some \<lparr>pz_update = u, pz_validation = val, pz_ceremony_receipt = r, pz_commit_receipt = receipt\<rparr>)]\<rparr>) v'
      | _ \<Rightarrow> same_tables v v')"

lemma apply_effect_tables: "apply_effect P lb r now effect v = Inr v' \<Longrightarrow> effect_tables r effect v v'"
  by (auto simp: apply_effect_def effect_tables_def apply_policy_pending_def insert_row_ok result_simps
      dest: apply_initial_policy_tables apply_enroll_key_tables split: database_effect.splits)

lemma effect_tables_cong:
  "effect_tables r effect v1 v2 \<Longrightarrow> same_tables v v1 \<Longrightarrow> same_tables v2 v' \<Longrightarrow> effect_tables r effect v v'"
  by (auto simp: effect_tables_def same_tables_def split: database_effect.splits)

lemma commit_custody_tables:
  assumes "commit_custody_snapshot_tx P lb c v = Inr (v', x)"
  shows "\<exists>v1. effect_tables (ct_result c) (ct_effect c) v v1
    \<and> same_tables (v1\<lparr>vt_receipts := vt_receipts v1 @
        [\<lparr>cy_operation = cs_custody_operation (ct_result c), cy_result = Some (ct_result c),
          cy_committed = Some (ct_at c)\<rparr>]\<rparr>) v'"
proof -
  from assms obtain v1 v2 v3 v4 v5 v6 where "commit_generations (ct_result c) (ct_wallets c) v = Inr v1"
    and "replace_wallets (ct_wallets c) v1 = Inr v2" and "replace_credentials (ct_credentials c) (ct_at c) v2 = Inr v3"
    and e: "apply_effect P lb (ct_result c) (ct_at c) (ct_effect c) v3 = Inr v4"
    and i: "insert_custody_receipt (ct_result c) (ct_at c) v4 = Inr v5"
    and "commit_claimed (ct_allocations c) v5 = Inr v6"
    and a: "vault_audit P ''custody.commit'' (commit_json P c) (set_status (ct_status c) v6) = Inr v'"
    by (auto simp: commit_custody_snapshot_tx_def result_simps)
  then have v3: "same_tables v v3" and "same_tables v5 v6"
    by (auto dest!: commit_generations_tables replace_tables intro: same_tables_trans)
  moreover have "same_tables v6 v'"
    using vault_audit_ok [OF a] set_status_tables [of v6 "ct_status c"] by (auto simp: same_tables_def)
  ultimately have "same_tables (v4\<lparr>vt_receipts := vt_receipts v4 @
        [\<lparr>cy_operation = cs_custody_operation (ct_result c), cy_result = Some (ct_result c),
          cy_committed = Some (ct_at c)\<rparr>]\<rparr>) v'"
    using insert_custody_receipt_tables [OF i] by (blast intro: same_tables_trans)
  moreover have "effect_tables (ct_result c) (ct_effect c) v v4"
    using apply_effect_tables [OF e] v3 same_tables_refl by (rule effect_tables_cong)
  ultimately show ?thesis by blast
qed


subsection \<open>Steps\<close>

type_synonym policy_state = "vault \<times> database_effect set"

inductive policy_step :: "'m custody_prims \<Rightarrow> policy_state \<Rightarrow> policy_state \<Rightarrow> bool" for C where
  prepare_update: "prepare_policy_update_effect C q w v = Inr (r, effect)
    \<Longrightarrow> policy_step C (v, es) (v, insert effect es)"
| prepare_initial: "prepare_initial_policy_effect C wallet policy key_id w = Inr (InitialPolicy s key e)
    \<Longrightarrow> policy_step C (v, es) (v, insert (InitialPolicy s key e') es)"
| ceremony: "ct_effect c \<in> es \<or> (\<forall>s key e u val r. ct_effect c \<noteq> InitialPolicy s key e \<and> ct_effect c \<noteq> PolicyUpdatePending u val r)
    \<Longrightarrow> commit_custody_snapshot_with_effect (cp_prims C) lb c v = (v', x) \<Longrightarrow> policy_step C (v, es) (v', es)"
| install: "install_initial_policy C wallet policy key_id w v = (v', x) \<Longrightarrow> policy_step C (v, es) (v', es)"
| swap: "compare_and_swap_policy (cp_prims C) q v = (v', x) \<Longrightarrow> policy_step C (v, es) (v', es)"
| other: "same_tables v v' \<Longrightarrow> policy_step C (v, es) (v', es)"
| restart: "policy_step C (v, es) (v, {})"

subsection \<open>The invariant\<close>

definition ed25519_laws :: "prims \<Rightarrow> (bytes \<Rightarrow> bool) \<Rightarrow> bool" where
  "ed25519_laws P key_ok =
     (\<forall>seed. length seed = 32 \<longrightarrow>
        signs_well P seed \<and> length (p_public P seed) = 32 \<and> key_ok (p_public P seed))"

definition snapshot_ok :: "prims \<Rightarrow> (bytes \<Rightarrow> bool) \<Rightarrow> policy_snapshot \<Rightarrow> bytes \<Rightarrow> bool" where
  "snapshot_ok P key_ok s key = (sn_verifying_key s = key \<and> verify_policy_backup P key_ok s key = Inr ())"

definition policy_row_ok :: "prims \<Rightarrow> (bytes \<Rightarrow> bool) \<Rightarrow> policy_row \<Rightarrow> bool" where
  "policy_row_ok P key_ok row =
     (\<exists>s. pl_snapshot row = Some s \<and> pl_version row = Some (sn_version s) \<and> 0 < unat (sn_version s) \<and> pl_digest row = sn_digest s
        \<and> pl_policy row = sn_policy s \<and> sn_wallet s = pl_wallet row \<and> snapshot_ok P key_ok s (pl_verifying_key row))"

text \<open>A receipt that a wallet's policy key made for an update.\<close>

definition receipt_for :: "prims \<Rightarrow> (bytes \<Rightarrow> bool) \<Rightarrow> vault \<Rightarrow> policy_update \<Rightarrow> commit_receipt \<Rightarrow> bool" where
  "receipt_for P key_ok v u r =
     (pc_operation r = pu_operation u \<and> pc_wallet r = pu_wallet u \<and> pc_previous r = pu_baseline_version u
      \<and> checked_add (pu_baseline_version u) 1 = Some (sn_version (pc_committed r))
      \<and> sn_wallet (pc_committed r) = pu_wallet u \<and> sn_policy (pc_committed r) = pu_policy u
      \<and> sn_digest (pc_committed r) = pu_digest u
      \<and> (\<exists>row\<in>set (vt_policies v). pl_wallet row = pu_wallet u
           \<and> snapshot_ok P key_ok (pc_committed r) (pl_verifying_key row)))"

definition effect_ok :: "prims \<Rightarrow> (bytes \<Rightarrow> bool) \<Rightarrow> vault \<Rightarrow> database_effect \<Rightarrow> bool" where
  "effect_ok P key_ok v effect =
     (case effect of
        InitialPolicy s key e \<Rightarrow> sn_version s = 1 \<and> snapshot_ok P key_ok s key
      | PolicyUpdatePending u val r \<Rightarrow> receipt_for P key_ok v u r
      | _ \<Rightarrow> True)"

text \<open>The commits of one wallet, as pairs of the version replaced and the version made.\<close>

definition wallet_commits :: "token \<Rightarrow> (operation_id \<times> bytes \<times> commit_receipt option) list \<Rightarrow> commit_receipt list" where
  "wallet_commits wallet commits =
     [r. (_, _, m) \<leftarrow> commits, r \<leftarrow> (case m of Some r \<Rightarrow> [r] | None \<Rightarrow> []), pc_wallet r = wallet]"

definition history :: "token \<Rightarrow> vault \<Rightarrow> (nat \<times> nat) list" where
  "history wallet v =
     map (\<lambda>r. (unat (pc_previous r), unat (sn_version (pc_committed r)))) (wallet_commits wallet (vt_commits v))"

definition linear :: "nat \<Rightarrow> (nat \<times> nat) list" where
  "linear n = map (\<lambda>i. (i, i + 1)) [1..<n]"

definition policy_inv :: "prims \<Rightarrow> (bytes \<Rightarrow> bool) \<Rightarrow> policy_state \<Rightarrow> bool" where
  "policy_inv P key_ok s =
     (case s of (v, es) \<Rightarrow>
        distinct (map pl_wallet (vt_policies v))
        \<and> (\<forall>row\<in>set (vt_policies v). policy_row_ok P key_ok row
             \<and> history (pl_wallet row) v = linear (case pl_version row of Some n \<Rightarrow> unat n | None \<Rightarrow> 0))
        \<and> (\<forall>wallet. wallet \<notin> pl_wallet ` set (vt_policies v) \<longrightarrow> wallet_commits wallet (vt_commits v) = [])
        \<and> (\<forall>operation z. (operation, Some z) \<in> set (vt_authorizations v) \<longrightarrow>
             operation = pu_operation (pz_update z) \<and> receipt_for P key_ok v (pz_update z) (pz_commit_receipt z)
             \<and> Some (pz_ceremony_receipt z) \<in> cy_result ` set (vt_receipts v))
        \<and> (\<forall>operation request r. (operation, request, Some r) \<in> set (vt_commits v) \<longrightarrow>
             (\<exists>row c. row \<in> set (vt_receipts v) \<and> cy_result row = Some c \<and> cs_ceremony_kind c = PolicyUpdate
                \<and> cs_custody_operation c = operation \<and> pc_operation r = operation))
        \<and> (\<forall>effect\<in>es. effect_ok P key_ok v effect))"


subsection \<open>What preparing makes\<close>

lemma sign_policy_snapshot_ok:
  assumes "sign_policy_snapshot C wallet version policy key_id u = Inr s" "ed25519_laws (cp_prims C) key_ok"
  shows "sn_wallet s = wallet \<and> sn_version s = version \<and> sn_policy s = policy
    \<and> sn_digest s = p_sha256 (cp_prims C) policy
    \<and> (\<exists>key. policy_verifying_key C u = Inr key \<and> snapshot_ok (cp_prims C) key_ok s key)"
  using assms
  by (auto simp: sign_policy_snapshot_def policy_verifying_key_def sign_policy_message_def snapshot_ok_def
      verify_policy_backup_def snapshot_message_def ed25519_laws_def signs_well_def Let_def result_simps split: if_splits)

lemma prepare_initial_ok:
  assumes "prepare_initial_policy_effect C wallet policy key_id u = Inr (InitialPolicy s key e)"
    and "ed25519_laws (cp_prims C) key_ok"
  shows "effect_ok (cp_prims C) key_ok v (InitialPolicy s key e')"
proof -
  from assms(1) have s: "sign_policy_snapshot C wallet 1 policy key_id u = Inr s" and "policy_verifying_key C u = Inr key"
    by (auto simp: prepare_initial_policy_effect_def result_simps split: if_splits)
  with sign_policy_snapshot_ok [OF s assms(2)] show ?thesis by (auto simp: effect_ok_def)
qed

lemma prepare_update_ok:
  assumes "prepare_policy_update_effect C q w v = Inr (r, effect)" and laws: "ed25519_laws (cp_prims C) key_ok"
  shows "effect_ok (cp_prims C) key_ok v effect"
proof -
  let ?u = "pp_update q"
  from assms(1) obtain row key version key_id s where
    row: "find (\<lambda>r. pl_wallet r = pu_wallet ?u) (vt_policies v) = Some row"
    and digest: "p_sha256 (cp_prims C) (pu_policy ?u) = pu_digest ?u"
    and key: "policy_verifying_key C w = Inr key" "pl_verifying_key row = key"
    and version: "checked_add (pu_baseline_version ?u) 1 = Some version"
    and s: "sign_policy_snapshot C (pu_wallet ?u) version (pu_policy ?u) key_id w = Inr s"
    and effect: "\<exists>signature. effect = PolicyUpdatePending ?u (pp_validation q)
      \<lparr>pc_operation = pu_operation ?u, pc_wallet = pu_wallet ?u, pc_previous = pu_baseline_version ?u,
       pc_committed = s, pc_diff_digest = pu_diff_digest ?u, pc_signer_key = key_id, pc_signature = signature\<rparr>"
    by (auto simp: prepare_policy_update_effect_def Let_def result_simps split: if_splits)
  from row have "row \<in> set (vt_policies v)" "pl_wallet row = pu_wallet ?u" by (auto simp: find_Some_iff)
  with sign_policy_snapshot_ok [OF s laws] key digest version effect show ?thesis
    by (auto simp: effect_ok_def receipt_for_def)
qed

subsection \<open>Policy keys stay\<close>

definition policy_keys :: "vault \<Rightarrow> (token \<times> bytes) set" where
  "policy_keys v = (\<lambda>row. (pl_wallet row, pl_verifying_key row)) ` set (vt_policies v)"

lemma receipt_for_iff:
  "receipt_for P key_ok v u r \<longleftrightarrow>
     pc_operation r = pu_operation u \<and> pc_wallet r = pu_wallet u \<and> pc_previous r = pu_baseline_version u
      \<and> checked_add (pu_baseline_version u) 1 = Some (sn_version (pc_committed r))
      \<and> sn_wallet (pc_committed r) = pu_wallet u \<and> sn_policy (pc_committed r) = pu_policy u
      \<and> sn_digest (pc_committed r) = pu_digest u
      \<and> (\<exists>key. (pu_wallet u, key) \<in> policy_keys v \<and> snapshot_ok P key_ok (pc_committed r) key)"
  by (force simp: receipt_for_def policy_keys_def)

lemma receipt_for_mono: "receipt_for P key_ok v u r \<Longrightarrow> policy_keys v \<subseteq> policy_keys v' \<Longrightarrow> receipt_for P key_ok v' u r"
  by (auto simp: receipt_for_iff)

lemma effect_ok_mono: "effect_ok P key_ok v e \<Longrightarrow> policy_keys v \<subseteq> policy_keys v' \<Longrightarrow> effect_ok P key_ok v' e"
  by (auto simp: effect_ok_def intro: receipt_for_mono split: database_effect.splits)

lemma policy_inv_iff:
  "policy_inv P key_ok (v, es) \<longleftrightarrow>
     distinct (map pl_wallet (vt_policies v))
     \<and> (\<forall>row\<in>set (vt_policies v). policy_row_ok P key_ok row
          \<and> history (pl_wallet row) v = linear (case pl_version row of Some n \<Rightarrow> unat n | None \<Rightarrow> 0))
     \<and> (\<forall>wallet. wallet \<notin> pl_wallet ` set (vt_policies v) \<longrightarrow> wallet_commits wallet (vt_commits v) = [])
     \<and> (\<forall>operation z. (operation, Some z) \<in> set (vt_authorizations v) \<longrightarrow>
          operation = pu_operation (pz_update z) \<and> receipt_for P key_ok v (pz_update z) (pz_commit_receipt z)
          \<and> Some (pz_ceremony_receipt z) \<in> cy_result ` set (vt_receipts v))
     \<and> (\<forall>operation request r. (operation, request, Some r) \<in> set (vt_commits v) \<longrightarrow>
          (\<exists>row c. row \<in> set (vt_receipts v) \<and> cy_result row = Some c \<and> cs_ceremony_kind c = PolicyUpdate
             \<and> cs_custody_operation c = operation \<and> pc_operation r = operation))
     \<and> (\<forall>effect\<in>es. effect_ok P key_ok v effect)"
  by (simp add: policy_inv_def)

lemma same_tables_inv: "same_tables v v' \<Longrightarrow> policy_inv P key_ok (v', es) = policy_inv P key_ok (v, es)"
proof -
  assume "same_tables v v'"
  then have t: "vt_policies v' = vt_policies v" "vt_authorizations v' = vt_authorizations v"
    "vt_commits v' = vt_commits v" "vt_receipts v' = vt_receipts v" by (simp_all add: same_tables_def)
  have "receipt_for P key_ok v' = receipt_for P key_ok v" "history w v' = history w v"
    "effect_ok P key_ok v' = effect_ok P key_ok v" for w
    by (simp_all add: receipt_for_def history_def effect_ok_def t fun_eq_iff split: database_effect.splits)
  with t show ?thesis by (simp add: policy_inv_iff)
qed

lemma wallet_commits_append:
  "wallet_commits w (commits @ [(operation, request, Some r)]) =
     wallet_commits w commits @ (if pc_wallet r = w then [r] else [])"
  by (simp add: wallet_commits_def)

lemma linear_Suc: "0 < n \<Longrightarrow> linear (Suc n) = linear n @ [(n, n + 1)]"
  by (simp add: linear_def)


subsection \<open>The invariant is kept\<close>

lemma add_policy_inv:
  assumes inv: "policy_inv P key_ok (v, es)" and fresh: "sn_wallet s \<notin> pl_wallet ` set (vt_policies v)"
    and s: "sn_version s = 1" "snapshot_ok P key_ok s key"
  shows "policy_inv P key_ok (v\<lparr>vt_policies := vt_policies v @ [policy_row_of s key]\<rparr>, es)"
proof -
  let ?v = "v\<lparr>vt_policies := vt_policies v @ [policy_row_of s key]\<rparr>"
  have keys: "policy_keys v \<subseteq> policy_keys ?v" by (auto simp: policy_keys_def)
  have none: "wallet_commits (sn_wallet s) (vt_commits v) = []" using inv fresh by (simp add: policy_inv_iff)
  have h: "history w ?v = history w v" for w by (simp add: history_def)
  have row: "policy_row_ok P key_ok (policy_row_of s key)" using s by (simp add: policy_row_ok_def policy_row_of_def)
  show ?thesis
    using inv fresh none row receipt_for_mono [OF _ keys] effect_ok_mono [OF _ keys] s(1)
    unfolding policy_inv_iff h
    by (simp add: policy_row_of_def history_def linear_def)
qed

lemma add_authorization_inv:
  assumes inv: "policy_inv P key_ok (v, es)" and "receipt_for P key_ok v u r"
    and "Some c \<in> cy_result ` set (vt_receipts v)"
  shows "policy_inv P key_ok (v\<lparr>vt_authorizations := vt_authorizations v @
    [(pu_operation u, Some \<lparr>pz_update = u, pz_validation = val, pz_ceremony_receipt = c, pz_commit_receipt = r\<rparr>)]\<rparr>, es)"
proof -
  let ?v = "v\<lparr>vt_authorizations := vt_authorizations v @
    [(pu_operation u, Some \<lparr>pz_update = u, pz_validation = val, pz_ceremony_receipt = c, pz_commit_receipt = r\<rparr>)]\<rparr>"
  have "receipt_for P key_ok ?v = receipt_for P key_ok v" "history w ?v = history w v"
    "effect_ok P key_ok ?v = effect_ok P key_ok v" for w
    by (simp_all add: receipt_for_def history_def effect_ok_def fun_eq_iff split: database_effect.splits)
  with assms show ?thesis unfolding policy_inv_iff by auto
qed

lemma add_receipt_inv:
  assumes inv: "policy_inv P key_ok (v, es)"
  shows "policy_inv P key_ok (v\<lparr>vt_receipts := vt_receipts v @ [row]\<rparr>, es)"
proof -
  let ?v = "v\<lparr>vt_receipts := vt_receipts v @ [row]\<rparr>"
  have "receipt_for P key_ok ?v = receipt_for P key_ok v" "history w ?v = history w v"
    "effect_ok P key_ok ?v = effect_ok P key_ok v" for w
    by (simp_all add: receipt_for_def history_def effect_ok_def fun_eq_iff split: database_effect.splits)
  with inv show ?thesis unfolding policy_inv_iff by simp blast
qed

text \<open>The receipt and the effect of a ceremony commute, so the receipt may be taken first.\<close>

lemma ceremony_inv:
  assumes inv: "policy_inv P key_ok (v, es)" and ok: "effect_ok P key_ok v effect"
    and e: "effect_tables c effect v v1"
    and r: "same_tables (v1\<lparr>vt_receipts := vt_receipts v1 @
        [\<lparr>cy_operation = cs_custody_operation c, cy_result = Some c, cy_committed = Some now\<rparr>]\<rparr>) v'"
  shows "policy_inv P key_ok (v', es)"
proof -
  let ?row = "\<lparr>cy_operation = cs_custody_operation c, cy_result = Some c, cy_committed = Some now\<rparr>"
  let ?v = "v\<lparr>vt_receipts := vt_receipts v @ [?row]\<rparr>"
  have inv': "policy_inv P key_ok (?v, es)" by (rule add_receipt_inv [OF inv])
  have ok': "effect_ok P key_ok ?v effect" using ok by (rule effect_ok_mono) (simp add: policy_keys_def)
  show ?thesis
  proof (cases effect)
    case (InitialPolicy s key enrollment)
    with e r have "same_tables (?v\<lparr>vt_policies := vt_policies ?v @ [policy_row_of s key]\<rparr>) v'"
      and fresh: "sn_wallet s \<notin> pl_wallet ` set (vt_policies ?v)"
      by (auto simp: effect_tables_def same_tables_def)
    with add_policy_inv [OF inv' fresh] ok' InitialPolicy show ?thesis by (auto simp: same_tables_inv effect_ok_def)
  next
    case (PolicyUpdatePending u val receipt)
    with e r have "same_tables (?v\<lparr>vt_authorizations := vt_authorizations ?v @
      [(pu_operation u, Some \<lparr>pz_update = u, pz_validation = val, pz_ceremony_receipt = c, pz_commit_receipt = receipt\<rparr>)]\<rparr>) v'"
      by (auto simp: effect_tables_def same_tables_def)
    with add_authorization_inv [OF inv', of u receipt c val] ok' PolicyUpdatePending show ?thesis
      by (auto simp: same_tables_inv effect_ok_def)
  next
    case EffectNone
    with e r have "same_tables ?v v'" by (auto simp: effect_tables_def same_tables_def)
    with inv' show ?thesis by (simp add: same_tables_inv)
  next
    case (EnrollKey k scope)
    with e r have "same_tables ?v v'" by (auto simp: effect_tables_def same_tables_def)
    with inv' show ?thesis by (simp add: same_tables_inv)
  qed
qed

text \<open>A successful compare-and-swap either replays a stored receipt or makes one commit.\<close>

lemma compare_and_swap_cases:
  assumes "compare_and_swap_policy P q v = (v', Inr r)"
  obtains (replay) "v' = v" "map_of (vt_commits v) (pu_operation (pq_update q)) = Some (p_jcs P (policy_cas_json q), Some r)"
  | (fresh) z policies st where
    "map_of (vt_commits v) (pu_operation (pq_update q)) = None"
    "map_of (vt_authorizations v) (pu_operation (pq_update q)) = Some (Some z)" "authorization_matches z q"
    "r = pz_commit_receipt z" "swap_policy (pq_update q) r (vt_policies v) = Inr policies"
    "v' = v\<lparr>vt_policies := policies, vt_engine := st,
       vt_commits := vt_commits v @ [(pu_operation (pq_update q), p_jcs P (policy_cas_json q), Some r)],
       vt_authorizations := filter (\<lambda>a. fst a \<noteq> pu_operation (pq_update q)) (vt_authorizations v)\<rparr>"
proof -
  from assms have tx: "compare_and_swap_tx P q v = Inr (v', r)"
    by (auto simp: compare_and_swap_policy_def dest: vault_transact_ok split: if_splits)
  show thesis
  proof (cases "map_of (vt_commits v) (pu_operation (pq_update q))")
    case (Some pair)
    with tx replay show thesis by (cases pair) (auto simp: compare_and_swap_tx_def result_simps split: if_splits)
  next
    case None
    with tx have "commit_policy_tx P q v = Inr (v', r)" by (simp add: compare_and_swap_tx_def)
    then obtain z policies v1 where *: "map_of (vt_authorizations v) (pu_operation (pq_update q)) = Some (Some z)"
      "authorization_matches z q" "r = pz_commit_receipt z" "swap_policy (pq_update q) r (vt_policies v) = Inr policies"
      and v1: "v1 = v\<lparr>vt_policies := policies,
       vt_commits := vt_commits v @ [(pu_operation (pq_update q), p_jcs P (policy_cas_json q), Some r)],
       vt_authorizations := filter (\<lambda>a. fst a \<noteq> pu_operation (pq_update q)) (vt_authorizations v)\<rparr>"
      and a: "vault_audit P ''policy.committed'' (committed_json (pq_update q) r) v1 = Inr v'"
      by (auto simp: commit_policy_tx_def Let_def result_simps insert_row_ok split: if_splits)
    from vault_audit_ok [OF a] obtain st where "v' = v1\<lparr>vt_engine := st\<rparr>" by blast
    with None * v1 show thesis by (intro fresh [of z policies st]) simp_all
  qed
qed


definition moved_row :: "policy_update \<Rightarrow> commit_receipt \<Rightarrow> policy_row \<Rightarrow> policy_row" where
  "moved_row u r row =
     (if pl_wallet row = pu_wallet u
      then row\<lparr>pl_version := Some (sn_version (pc_committed r)), pl_digest := sn_digest (pc_committed r),
               pl_policy := sn_policy (pc_committed r), pl_snapshot := Some (pc_committed r)\<rparr>
      else row)"

lemma swap_policy_ok:
  assumes "swap_policy u r rows = Inr rows'" and d: "distinct (map pl_wallet rows)"
  shows "rows' = map (moved_row u r) rows
    \<and> (\<exists>row\<in>set rows. pl_wallet row = pu_wallet u \<and> pl_version row = Some (pu_baseline_version u)
         \<and> pl_digest row = pu_baseline_digest u)"
proof -
  let ?hit = "\<lambda>row. pl_wallet row = pu_wallet u \<and> pl_version row = Some (pu_baseline_version u)
    \<and> pl_digest row = pu_baseline_digest u"
  from assms(1) have "length (filter ?hit rows) = 1"
    and rows': "rows' = map (\<lambda>row. if ?hit row then row\<lparr>pl_version := Some (sn_version (pc_committed r)),
      pl_digest := sn_digest (pc_committed r), pl_policy := sn_policy (pc_committed r),
      pl_snapshot := Some (pc_committed r)\<rparr> else row) rows"
    by (auto simp: swap_policy_def Let_def split: if_splits)
  then obtain row where "row \<in> set (filter ?hit rows)" by (cases "filter ?hit rows") auto
  then have row: "row \<in> set rows" "?hit row" by simp_all
  have "pl_wallet x = pu_wallet u \<longleftrightarrow> ?hit x" if "x \<in> set rows" for x
    using that row d by (auto simp: distinct_map inj_on_def)
  then have "rows' = map (moved_row u r) rows" unfolding rows' by (auto simp: moved_row_def)
  with row show ?thesis by blast
qed

lemma moved_row_fields [simp]:
  "pl_wallet (moved_row u r row) = pl_wallet row" "pl_verifying_key (moved_row u r row) = pl_verifying_key row"
  by (simp_all add: moved_row_def)

lemma authorization_inv:
  assumes "policy_inv P key_ok (v, es)" "(operation, Some z) \<in> set (vt_authorizations v)"
  shows "operation = pu_operation (pz_update z)" "receipt_for P key_ok v (pz_update z) (pz_commit_receipt z)"
    "Some (pz_ceremony_receipt z) \<in> cy_result ` set (vt_receipts v)"
  using assms unfolding policy_inv_iff by blast+

text \<open>The row that moves: its snapshot verifies and its history grows by the one commit.\<close>

lemma moved_row_ok:
  assumes inv: "policy_inv P key_ok (v, es)" and rf: "receipt_for P key_ok v u r"
    and row: "row \<in> set (vt_policies v)" "pl_wallet row = pu_wallet u" "pl_version row = Some (pu_baseline_version u)"
    and commits: "wallet_commits (pu_wallet u) (vt_commits v') = wallet_commits (pu_wallet u) (vt_commits v) @ [r]"
  shows "policy_row_ok P key_ok (moved_row u r row)
    \<and> history (pu_wallet u) v' = linear (unat (sn_version (pc_committed r)))"
proof -
  have n: "0 < unat (pu_baseline_version u)" "history (pu_wallet u) v = linear (unat (pu_baseline_version u))"
    using inv row by (auto simp: policy_inv_iff policy_row_ok_def)
  have v1: "unat (sn_version (pc_committed r)) = Suc (unat (pu_baseline_version u))"
    using rf checked_add_SomeD by (fastforce simp: receipt_for_def)
  obtain x' where "x' \<in> set (vt_policies v)" "pl_wallet x' = pu_wallet u"
    "snapshot_ok P key_ok (pc_committed r) (pl_verifying_key x')" using rf by (auto simp: receipt_for_def)
  moreover have "distinct (map pl_wallet (vt_policies v))" using inv by (simp add: policy_inv_iff)
  ultimately have s: "snapshot_ok P key_ok (pc_committed r) (pl_verifying_key row)"
    using row by (metis distinct_map inj_onD)
  have "history (pu_wallet u) v' = linear (unat (sn_version (pc_committed r)))"
    using n rf v1 by (simp add: history_def commits linear_Suc receipt_for_def)
  with s rf v1 row show ?thesis by (auto simp: moved_row_def policy_row_ok_def receipt_for_def)
qed

lemma swap_inv:
  assumes inv: "policy_inv P key_ok (v, es)" and swap: "compare_and_swap_policy P q v = (v', Inr r)"
  shows "policy_inv P key_ok (v', es)"
  using swap
proof (cases rule: compare_and_swap_cases)
  case replay
  with inv show ?thesis by simp
next
  case (fresh z policies st)
  let ?u = "pq_update q"
  have d: "distinct (map pl_wallet (vt_policies v))" using inv by (simp add: policy_inv_iff)
  have z: "(pu_operation ?u, Some z) \<in> set (vt_authorizations v)" using fresh(2) by (rule map_of_SomeD)
  have u: "pz_update z = ?u" using fresh(3) by (simp add: authorization_matches_def)
  have rf: "receipt_for P key_ok v ?u r" and c: "Some (pz_ceremony_receipt z) \<in> cy_result ` set (vt_receipts v)"
    using authorization_inv [OF inv z] u fresh(4) by simp_all
  from swap_policy_ok [OF fresh(5) d] obtain row where policies: "policies = map (moved_row ?u r) (vt_policies v)"
    and row: "row \<in> set (vt_policies v)" "pl_wallet row = pu_wallet ?u" "pl_version row = Some (pu_baseline_version ?u)"
    by blast
  have keys: "policy_keys v' = policy_keys v" by (auto simp: policy_keys_def fresh(6) policies image_image)
  have commits: "wallet_commits w (vt_commits v') = wallet_commits w (vt_commits v)
      @ (if pu_wallet ?u = w then [r] else [])" for w
    using rf by (auto simp: fresh(6) wallet_commits_append receipt_for_def)
  have rows: "policy_row_ok P key_ok row' \<and> history (pl_wallet row') v'
      = linear (case pl_version row' of Some n \<Rightarrow> unat n | None \<Rightarrow> 0)" if "row' \<in> set (vt_policies v')" for row'
  proof -
    from that obtain x where x: "x \<in> set (vt_policies v)" "row' = moved_row ?u r x" by (auto simp: fresh(6) policies)
    show ?thesis
    proof (cases "pl_wallet x = pu_wallet ?u")
      case True
      with x row d have "x = row" by (simp add: distinct_map inj_on_def)
      then show ?thesis
        using moved_row_ok [OF inv rf row, of v'] True x(2) by (simp add: commits) (simp add: moved_row_def)
    next
      case False
      with x inv show ?thesis by (auto simp: moved_row_def policy_inv_iff history_def commits)
    qed
  qed
  have "distinct (map pl_wallet (vt_policies v'))" using d by (simp add: fresh(6) policies comp_def)
  moreover have "wallet_commits w (vt_commits v') = []" if "w \<notin> pl_wallet ` set (vt_policies v')" for w
  proof -
    have "w \<notin> pl_wallet ` set (vt_policies v)" using that by (simp add: fresh(6) policies image_image)
    moreover from this row have "w \<noteq> pu_wallet ?u" by (metis image_eqI)
    ultimately show ?thesis using inv by (simp add: commits policy_inv_iff)
  qed
  moreover have "\<exists>row c. row \<in> set (vt_receipts v') \<and> cy_result row = Some c \<and> cs_ceremony_kind c = PolicyUpdate
             \<and> cs_custody_operation c = operation \<and> pc_operation r' = operation"
    if "(operation, request, Some r') \<in> set (vt_commits v')" for operation request r'
  proof (cases "(operation, request, Some r') \<in> set (vt_commits v)")
    case True
    then show ?thesis using inv by (simp add: policy_inv_iff fresh(6))
  next
    case False
    with that have "operation = pu_operation ?u" "r' = r" by (auto simp: fresh(6))
    moreover from c obtain cy where "cy \<in> set (vt_receipts v)" "cy_result cy = Some (pz_ceremony_receipt z)" by force
    ultimately show ?thesis using rf fresh(3)
      by (intro exI [of _ cy] exI [of _ "pz_ceremony_receipt z"])
        (simp add: authorization_matches_def receipt_for_def fresh(6))
  qed
  moreover have "operation = pu_operation (pz_update z') \<and> receipt_for P key_ok v' (pz_update z') (pz_commit_receipt z')
             \<and> Some (pz_ceremony_receipt z') \<in> cy_result ` set (vt_receipts v')"
    if "(operation, Some z') \<in> set (vt_authorizations v')" for operation z'
  proof -
    from that have "(operation, Some z') \<in> set (vt_authorizations v)" by (simp add: fresh(6))
    note stored = authorization_inv [OF inv this]
    from stored(2) have "receipt_for P key_ok v' (pz_update z') (pz_commit_receipt z')"
      by (rule receipt_for_mono) (simp add: keys)
    with stored(1,3) show ?thesis by (simp add: fresh(6))
  qed
  moreover have "\<forall>effect\<in>es. effect_ok P key_ok v' effect"
    using inv effect_ok_mono [of P key_ok v _ v'] keys by (simp add: policy_inv_iff)
  ultimately show ?thesis using rows unfolding policy_inv_iff by blast
qed


lemma install_inv:
  assumes inv: "policy_inv (cp_prims C) key_ok (v, es)" and laws: "ed25519_laws (cp_prims C) key_ok"
    and install: "install_initial_policy C wallet policy key_id w v = (v', Inr s)"
  shows "policy_inv (cp_prims C) key_ok (v', es)"
proof -
  from install obtain key where s: "sign_policy_snapshot C wallet 1 policy key_id w = Inr s"
    and key: "policy_verifying_key C w = Inr key"
    and t: "vault_transact (cp_prims C) (install_initial_policy_tx C s key) v = (v', Inr s)"
  proof (cases "rbind (sign_policy_snapshot C wallet 1 policy key_id w) (\<lambda>s.
                rbind (policy_verifying_key C w) (\<lambda>key. Inr (s, key)))")
    case (Inl e)
    with install have False by (simp add: install_initial_policy_def split: if_splits)
    then show ?thesis ..
  next
    case (Inr pair)
    obtain s' key where pair: "pair = (s', key)" by fastforce
    from Inr pair install have t: "vault_transact (cp_prims C) (install_initial_policy_tx C s' key) v = (v', Inr s)"
      by (simp add: install_initial_policy_def split: if_splits)
    have "s' = s" using vault_transact_ok [OF t] by (auto simp: install_initial_policy_tx_def result_simps)
    with that Inr pair t show ?thesis by (auto simp: result_simps)
  qed
  from vault_transact_ok [OF t] have fresh: "sn_wallet s \<notin> pl_wallet ` set (vt_policies v)"
    and same: "same_tables (v\<lparr>vt_policies := vt_policies v @ [policy_row_of s key]\<rparr>) v'"
    by (auto simp: install_initial_policy_tx_def insert_row_ok policy_row_of_def result_simps same_tables_def
        dest!: vault_audit_ok)
  have "policy_inv (cp_prims C) key_ok (v\<lparr>vt_policies := vt_policies v @ [policy_row_of s key]\<rparr>, es)"
    using sign_policy_snapshot_ok [OF s laws] key by (intro add_policy_inv [OF inv fresh]) auto
  then show ?thesis by (simp add: same_tables_inv [OF same])
qed

lemma policy_failed_tables:
  "install_initial_policy C wallet policy key_id w v = (v', Inl e) \<Longrightarrow> same_tables v v'"
  "compare_and_swap_policy P q v = (v', Inl e) \<Longrightarrow> same_tables v v'"
  "commit_custody_snapshot_with_effect P lb c v = (v', Inl e) \<Longrightarrow> same_tables v v'"
proof -
  show "install_initial_policy C wallet policy key_id w v = (v', Inl e) \<Longrightarrow> same_tables v v'"
    by (auto simp: install_initial_policy_def dest!: vault_transact_err split: if_splits sum.splits)
  show "compare_and_swap_policy P q v = (v', Inl e) \<Longrightarrow> same_tables v v'"
    by (auto simp: compare_and_swap_policy_def dest!: vault_transact_err split: if_splits)
  show "commit_custody_snapshot_with_effect P lb c v = (v', Inl e) \<Longrightarrow> same_tables v v'"
    by (auto simp: commit_custody_snapshot_with_effect_def dest!: vault_transact_err)
qed

lemma policy_step_inv:
  assumes "policy_step C s t" and laws: "ed25519_laws (cp_prims C) key_ok"
    and inv: "policy_inv (cp_prims C) key_ok s"
  shows "policy_inv (cp_prims C) key_ok t"
  using assms(1)
proof (cases rule: policy_step.cases)
  case (prepare_update q w v r effect es)
  with inv prepare_update_ok [OF prepare_update(3) laws] show ?thesis by (simp add: policy_inv_iff)
next
  case (prepare_initial wallet policy key_id w s key e v es e')
  with inv prepare_initial_ok [OF prepare_initial(3) laws] show ?thesis by (simp add: policy_inv_iff)
next
  case (ceremony c es lb v v' x)
  have ok: "effect_ok (cp_prims C) key_ok v (ct_effect c)"
    using ceremony(3) inv ceremony(1) by (auto simp: policy_inv_iff effect_ok_def split: database_effect.splits)
  show ?thesis
  proof (cases x)
    case (Inl e)
    with ceremony inv show ?thesis by (auto dest!: policy_failed_tables(3) simp: same_tables_inv)
  next
    case (Inr y)
    with ceremony(4) have "commit_custody_snapshot_tx (cp_prims C) lb c v = Inr (v', y)"
      by (auto simp: commit_custody_snapshot_with_effect_def dest: vault_transact_ok)
    from commit_custody_tables [OF this] ceremony_inv [OF _ ok] inv ceremony(1,2) show ?thesis by blast
  qed
next
  case (install wallet policy key_id w v v' x es)
  with inv laws show ?thesis
    by (cases x) (auto dest!: policy_failed_tables(1) intro: install_inv simp: same_tables_inv)
next
  case (swap q v v' x es)
  with inv show ?thesis
    by (cases x) (auto dest!: policy_failed_tables(2) intro: swap_inv simp: same_tables_inv)
next
  case (other v v' es)
  with inv show ?thesis by (simp add: same_tables_inv)
next
  case (restart v es)
  with inv show ?thesis by (simp add: policy_inv_iff)
qed


subsection \<open>What stays\<close>

definition policy_grows :: "policy_state \<Rightarrow> policy_state \<Rightarrow> bool" where
  "policy_grows s t =
     ((\<exists>xs. vt_commits (fst t) = vt_commits (fst s) @ xs) \<and> policy_keys (fst s) \<subseteq> policy_keys (fst t)
      \<and> (\<exists>xs. vt_receipts (fst t) = vt_receipts (fst s) @ xs))"

lemma same_tables_grows: "same_tables v v' \<Longrightarrow> policy_grows (v, es) (v', es')"
  by (simp add: same_tables_def policy_grows_def policy_keys_def)

lemma policy_grows_trans: "policy_grows s t \<Longrightarrow> policy_grows t u \<Longrightarrow> policy_grows s u"
  unfolding policy_grows_def by (metis append.assoc order_trans)

lemma swap_map_keys:
  assumes "swap_policy u r (vt_policies v) = Inr rows'" "vt_policies v' = rows'"
  shows "policy_keys v \<subseteq> policy_keys v'"
proof -
  let ?hit = "\<lambda>row. pl_wallet row = pu_wallet u \<and> pl_version row = Some (pu_baseline_version u)
    \<and> pl_digest row = pu_baseline_digest u"
  let ?f = "\<lambda>row. if ?hit row then row\<lparr>pl_version := Some (sn_version (pc_committed r)),
      pl_digest := sn_digest (pc_committed r), pl_policy := sn_policy (pc_committed r),
      pl_snapshot := Some (pc_committed r)\<rparr> else row"
  have "vt_policies v' = map ?f (vt_policies v)"
    using assms by (auto simp: swap_policy_def Let_def split: if_splits)
  moreover have "pl_wallet (?f row) = pl_wallet row" "pl_verifying_key (?f row) = pl_verifying_key row" for row
    by simp_all
  ultimately obtain f where "vt_policies v' = map f (vt_policies v)"
    "\<And>row. pl_wallet (f row) = pl_wallet row" "\<And>row. pl_verifying_key (f row) = pl_verifying_key row" by blast
  then show ?thesis by (simp add: policy_keys_def image_image)
qed

lemma policy_step_grows:
  assumes "policy_step C s t"
  shows "policy_grows s t"
  using assms
proof (cases rule: policy_step.cases)
  case (ceremony c es lb v v' x)
  show ?thesis
  proof (cases x)
    case (Inl e)
    with ceremony show ?thesis by (auto dest!: policy_failed_tables(3) intro: same_tables_grows)
  next
    case (Inr y)
    with ceremony(4) have "commit_custody_snapshot_tx (cp_prims C) lb c v = Inr (v', y)"
      by (auto simp: commit_custody_snapshot_with_effect_def dest: vault_transact_ok)
    from commit_custody_tables [OF this] obtain v1 row where "effect_tables (ct_result c) (ct_effect c) v v1"
      "same_tables (v1\<lparr>vt_receipts := vt_receipts v1 @ [row]\<rparr>) v'" by blast
    then show ?thesis
      by (auto simp: ceremony(1,2) effect_tables_def same_tables_def policy_grows_def policy_keys_def
          split: database_effect.splits)
  qed
next
  case (install wallet policy key_id w v v' x es)
  show ?thesis
  proof (cases x)
    case (Inl e)
    with install show ?thesis by (auto dest!: policy_failed_tables(1) intro: same_tables_grows)
  next
    case (Inr y)
    with install show ?thesis
      by (auto simp: install_initial_policy_def install_initial_policy_tx_def insert_row_ok result_simps
          policy_grows_def policy_keys_def dest!: vault_transact_ok vault_audit_ok split: if_splits sum.splits)
  qed
next
  case (swap q v v' x es)
  show ?thesis
  proof (cases x)
    case (Inl e)
    with swap show ?thesis by (auto dest!: policy_failed_tables(2) intro: same_tables_grows)
  next
    case (Inr r)
    with swap(3) have "compare_and_swap_policy (cp_prims C) q v = (v', Inr r)" by simp
    then show ?thesis
    proof (cases rule: compare_and_swap_cases)
      case replay
      then show ?thesis by (simp add: swap(1,2) same_tables_grows)
    next
      case (fresh z policies st)
      then show ?thesis
        using swap_map_keys [OF fresh(5), of v'] by (simp add: swap(1,2) policy_grows_def)
    qed
  qed
qed (auto intro: same_tables_grows)

interpretation policies: transition_system "policy_step C"
  "\<lambda>s. ed25519_laws (cp_prims C) key_ok \<longrightarrow> policy_inv (cp_prims C) key_ok s" policy_grows
  for C key_ok
  by unfold_locales (auto intro: policy_step_inv policy_step_grows policy_grows_trans same_tables_grows)

interpretation policy_growth: transition_system "policy_step C" "\<lambda>_. True" policy_grows for C
  by unfold_locales (auto intro: policy_step_grows policy_grows_trans same_tables_grows)

lemma find_distinct_key: "distinct (map key rows) \<Longrightarrow> row \<in> set rows \<Longrightarrow> find (\<lambda>r. key r = key row) rows = Some row"
  by (induction rows) (auto simp: image_iff)

definition no_policies :: "vault \<Rightarrow> bool" where
  "no_policies v = (vt_policies v = [] \<and> vt_authorizations v = [] \<and> vt_commits v = [])"

lemma no_policies_inv: "no_policies v \<Longrightarrow> policy_inv P key_ok (v, {})"
  by (simp add: no_policies_def policy_inv_iff wallet_commits_def)

text \<open>C18: The policy of a wallet has one linear, signed history. In every database reached from one
  without policies, by any sequence of preparations, ceremonies, first policies, compare-and-swaps,
  failures and restarts, a wallet's row holds the snapshot the engine returns; that snapshot
  is signed by the wallet's policy key and matches its digest; and the commits of the wallet
  went from version 1 to 2, 2 to 3, and so on up to the version of the row, each exactly once.\<close>

theorem policy_history_linear:
  assumes "ed25519_laws (cp_prims C) key_ok" "no_policies v0" "(policy_step C)\<^sup>*\<^sup>* (v0, {}) (v, es)"
    and "row \<in> set (vt_policies v)"
  shows "\<exists>s. engine_policy_snapshot v (pl_wallet row) = Inr s \<and> pl_version row = Some (sn_version s)
    \<and> pl_digest row = sn_digest s \<and> sn_wallet s = pl_wallet row
    \<and> verify_policy_backup (cp_prims C) key_ok s (pl_verifying_key row) = Inr ()
    \<and> history (pl_wallet row) v = linear (unat (sn_version s))"
proof -
  have inv: "policy_inv (cp_prims C) key_ok (v, es)"
    using policies.run_inv [OF assms(3)] no_policies_inv [OF assms(2)] assms(1) by simp
  then have d: "distinct (map pl_wallet (vt_policies v))" by (simp add: policy_inv_iff)
  have f: "find (\<lambda>r. pl_wallet r = pl_wallet row) (vt_policies v) = Some row"
    using d assms(4) by (rule find_distinct_key)
  from inv assms(4) show ?thesis
    by (auto simp: policy_inv_iff policy_row_ok_def engine_policy_snapshot_def f snapshot_ok_def)
qed

text \<open>C19: No policy changes without its ceremony. Every committed update, in every database reached from one
  without policies, has a stored custody receipt of a policy-update ceremony for the same
  operation, and its receipt names that operation.\<close>

theorem policy_commit_authorized:
  assumes "ed25519_laws (cp_prims C) key_ok" "no_policies v0" "(policy_step C)\<^sup>*\<^sup>* (v0, {}) (v, es)"
    and "(operation, request, Some r) \<in> set (vt_commits v)"
  shows "\<exists>row c. row \<in> set (vt_receipts v) \<and> cy_result row = Some c \<and> cs_ceremony_kind c = PolicyUpdate
    \<and> cs_custody_operation c = operation \<and> pc_operation r = operation"
proof -
  have "policy_inv (cp_prims C) key_ok (v, es)"
    using policies.run_inv [OF assms(3)] no_policies_inv [OF assms(2)] assms(1) by simp
  with assms(4) show ?thesis unfolding policy_inv_iff by blast
qed

text \<open>Committing a policy update again returns the first receipt. After a compare-and-swap has
  succeeded and whatever ran since, a compare-and-swap for the same operation that succeeds
  returns the same receipt, for the same canonical request, and changes nothing; and with a sound journal the same
  request does succeed.\<close>

theorem policy_commit_idempotent:
  assumes "compare_and_swap_policy (cp_prims C) q v = (v1, Inr r)"
    and "(policy_step C)\<^sup>*\<^sup>* (v1, es1) (v2, es2)"
  shows "(compare_and_swap_policy (cp_prims C) q' v2 = (v3, Inr r') \<and> pu_operation (pq_update q') = pu_operation (pq_update q)
      \<longrightarrow> r' = r \<and> v3 = v2 \<and> p_jcs (cp_prims C) (policy_cas_json q') = p_jcs (cp_prims C) (policy_cas_json q))
    \<and> (mutation_transaction (cp_prims C) (vt_engine v2) = (vt_engine v2, Inr ())
      \<longrightarrow> compare_and_swap_policy (cp_prims C) q v2 = (v2, Inr r))"
proof -
  let ?op = "pu_operation (pq_update q)" and ?jcs = "\<lambda>q. p_jcs (cp_prims C) (policy_cas_json q)"
  have digest: "p_sha256 (cp_prims C) (pu_policy (pq_update q)) = pu_digest (pq_update q)"
    using assms(1) by (simp add: compare_and_swap_policy_def split: if_splits)
  have "map_of (vt_commits v1) ?op = Some (?jcs q, Some r)"
    using assms(1) by (cases rule: compare_and_swap_cases) (auto simp: map_add_def)
  moreover obtain xs where "vt_commits v2 = vt_commits v1 @ xs"
    using policy_growth.run_grows [OF assms(2)] by (auto simp: policy_grows_def)
  ultimately have stored: "map_of (vt_commits v2) ?op = Some (?jcs q, Some r)" by (simp add: map_add_def)
  have "r' = r \<and> v3 = v2 \<and> ?jcs q' = ?jcs q"
    if "compare_and_swap_policy (cp_prims C) q' v2 = (v3, Inr r')" "pu_operation (pq_update q') = ?op"
    using that(1) by (cases rule: compare_and_swap_cases) (use that(2) stored in auto)
  moreover have "compare_and_swap_policy (cp_prims C) q v2 = (v2, Inr r)"
    if "mutation_transaction (cp_prims C) (vt_engine v2) = (vt_engine v2, Inr ())"
    using that stored digest
    by (simp add: compare_and_swap_policy_def vault_transact_def compare_and_swap_tx_def with_latch_def)
  ultimately show ?thesis by blast
qed

end
