(* ===== verification/Custody_Properties.thy ===== *)
theory Custody_Properties
  imports Custody
begin

text \<open>
  Runs of a wallet custody. \<open>custody_step\<close> ranges over the operations of the component and a restart from
  the backup; it carries, beside the custody, the key each credential and the recovery factor was
  given (keys that no part of the program keeps), and is parameterised by the sessions
  the operations are called with. Shown: the keys given out open the wallet and open it to the same
  secrets, a revoked credential stays revoked, and the metadata that says how to read the
  root cannot be edited.
\<close>

subsection \<open>What is relied on\<close>

definition aead_roundtrip :: "'m custody_prims \<Rightarrow> bool" where
  "aead_roundtrip C = (\<forall>k n a m c. cp_encrypt C k n a m = Some c \<longrightarrow> cp_decrypt C k n a c = Some m)"

definition aead_binds :: "'m custody_prims \<Rightarrow> bool" where
  "aead_binds C =
     (\<forall>k n a a' m c. cp_encrypt C k n a m = Some c \<longrightarrow> a' \<noteq> a \<longrightarrow> cp_decrypt C k n a' c = None)"

definition nonces_ok :: "custody_io \<Rightarrow> bool" where
  "nonces_ok io = (\<forall>i. length (io_nonce io i) = 24)"

subsection \<open>Steps\<close>

type_synonym held = "custody \<times> (bytes \<Rightarrow> bytes option) \<times> bytes option"

inductive custody_step :: "'m custody_prims \<Rightarrow> (unlocked_wallet \<Rightarrow> bool) \<Rightarrow> held \<Rightarrow> held \<Rightarrow> bool"
  for C U where
  add: "U u \<Longrightarrow> nonces_ok io \<Longrightarrow> add_credential C io u credential key cu = (cu', r)
    \<Longrightarrow> custody_step C U (cu, keys, rk) (cu', if cu' = cu then keys else keys(credential \<mapsto> key), rk)"
| revoke: "revoke_credential C io credential cu = (cu', r) \<Longrightarrow> custody_step C U (cu, keys, rk) (cu', keys, rk)"
| recovery: "U u \<Longrightarrow> nonces_ok io \<Longrightarrow> set_recovery C io u recovery_id key cu = (cu', r)
    \<Longrightarrow> custody_step C U (cu, keys, rk) (cu', keys, if cu' = cu then rk else Some key)"
| policy: "set_policy_version C io v cu = (cu', r) \<Longrightarrow> custody_step C U (cu, keys, rk) (cu', keys, rk)"
| replace: "U u \<Longrightarrow> nonces_ok io
    \<Longrightarrow> recover_replace_credentials C io u credential key recovery_id recovery_key cu = (cu', r)
    \<Longrightarrow> custody_step C U (cu, keys, rk)
          (cu', if cu' = cu then keys else keys(credential \<mapsto> key), if cu' = cu then rk else Some recovery_key)"
| rekey: "U u \<Longrightarrow> nonces_ok io
    \<Longrightarrow> rekey_wrap_format C io u v credential_keys recovery_key cu = (cu', r)
    \<Longrightarrow> custody_step C U (cu, keys, rk)
          (cu', if cu' = cu then keys else keys ++ credential_keys,
           if cu' = cu \<or> recovery_key = None then rk else recovery_key)"
| restart: "restore_custody (cu_backup cu) = Inr cu' \<Longrightarrow> custody_step C U (cu, keys, rk) (cu', keys, rk)"
| reopen: "open_at read parse path = Inr cu' \<Longrightarrow> cu_backup cu' = cu_backup cu
    \<Longrightarrow> custody_step C U (cu, keys, rk) (cu', keys, rk)"

inductive_cases custody_stepE: "custody_step C U (cu, keys, rk) (cu', keys', rk')"

lemma commit_custody_cases:
  assumes "commit_custody C io b cu = (cu', r)"
  obtains (failed) e where "cu' = cu" "r = Inl e" | (written) "cu' = cu\<lparr>cu_backup := b\<rparr>" "r = Inr ()"
proof (cases "persist_custody C io (cu\<lparr>cu_backup := b\<rparr>)")
  case (Inl e)
  with assms have "cu' = cu" "r = Inl e" by (auto simp: commit_custody_def)
  then show ?thesis by (rule failed)
next
  case (Inr x)
  with assms have "cu' = cu\<lparr>cu_backup := b\<rparr>" "r = Inr ()" by (auto simp: commit_custody_def)
  then show ?thesis by (rule written)
qed

subsection \<open>Opening what was sealed\<close>

definition opens :: "'m custody_prims \<Rightarrow> bytes \<Rightarrow> encrypted_blob \<Rightarrow> bytes \<Rightarrow> bytes \<Rightarrow> bool" where
  "opens C key blob aad m =
     (length key = 32 \<and> length (bl_nonce blob) = 24
      \<and> cp_decrypt C key (bl_nonce blob) aad (bl_ciphertext blob) = Some m)"

lemma decrypt_opens: "opens C key blob aad m \<Longrightarrow> decrypt C key blob aad = Inr m"
  by (simp add: opens_def decrypt_def validate_key_def)

lemma opens_key: "opens C key blob aad m \<Longrightarrow> validate_key key = Inr ()"
  by (simp add: opens_def validate_key_def)

lemma encrypt_opens:
  "encrypt C n k m a = Inr blob \<Longrightarrow> aead_roundtrip C \<Longrightarrow> length n = 24 \<Longrightarrow> opens C k blob a m"
  by (auto simp: encrypt_def opens_def validate_key_def aead_roundtrip_def result_simps)

lemma encrypt_nonce: "encrypt C n k m a = Inr blob \<Longrightarrow> bl_nonce blob = n"
  by (auto simp: encrypt_def result_simps)

subsection \<open>The invariant\<close>

definition wraps_ok :: "custody_backup \<Rightarrow> bool" where
  "wraps_ok b = (validate_backup_shape b = Inr () \<and> distinct (map cw_id (cb_wraps b)))"

definition wrap_opens ::
  "'m custody_prims \<Rightarrow> unlocked_wallet \<Rightarrow> custody_backup \<Rightarrow> (bytes \<Rightarrow> bytes option) \<Rightarrow> credential_wrap \<Rightarrow> bool" where
  "wrap_opens C u b keys w =
     (\<exists>k. keys (cw_id w) = Some k
      \<and> opens C k (cw_wkek w)
          (credential_aad C (cb_wallet b) (cw_id w) (root_ciphertext_fingerprint C (cb_root b)) (cw_version w))
          (uw_wkek u))"

definition recovery_opens ::
  "'m custody_prims \<Rightarrow> unlocked_wallet \<Rightarrow> custody_backup \<Rightarrow> bytes option \<Rightarrow> recovery_wrap \<Rightarrow> bool" where
  "recovery_opens C u b rk r =
     (\<exists>k. rk = Some k
      \<and> opens C k (rw_wkek r)
          (recovery_aad C (cb_wallet b) (rw_id r) (root_ciphertext_fingerprint C (cb_root b)) (rw_version r))
          (uw_wkek u))"

definition root_kept :: "'m custody_prims \<Rightarrow> unlocked_wallet \<Rightarrow> custody_backup \<Rightarrow> bool" where
  "root_kept C u b =
     (cb_wallet b = uw_wallet u \<and> cb_profile b = uw_profile u \<and> cb_entropy_bits b = uw_entropy_bits u
      \<and> length (uw_policy_seed u) = 32
      \<and> check_root_length (cb_profile b) (cb_entropy_bits b) (uw_root u) = Inr ()
      \<and> opens C (uw_wkek u) (cb_root b)
          (custody_root_aad (cb_wallet b) (cb_version b) (cb_profile b) (cb_entropy_bits b)) (uw_root u)
      \<and> opens C (uw_wkek u) (cb_policy_key b) (policy_key_aad (cb_wallet b) (cb_version b)) (uw_policy_seed u))"

definition custody_inv :: "'m custody_prims \<Rightarrow> unlocked_wallet \<Rightarrow> held \<Rightarrow> bool" where
  "custody_inv C u s =
     (case s of (cu, keys, rk) \<Rightarrow>
        let b = cu_backup cu in
        wraps_ok b \<and> root_kept C u b
        \<and> (\<forall>w\<in>set (cb_wraps b). cw_active w \<longrightarrow> wrap_opens C u b keys w)
        \<and> (\<forall>r. cb_recovery b = Some r \<longrightarrow> recovery_opens C u b rk r)
        \<and> ((\<exists>w\<in>set (cb_wraps b). cw_active w) \<or> cb_recovery b \<noteq> None))"

lemma wraps_ok_iff:
  "wraps_ok b \<longleftrightarrow>
     cb_version b \<noteq> 0 \<and> cb_wraps b \<noteq> [] \<and> distinct (map cw_id (cb_wraps b))
     \<and> (\<forall>w\<in>set (cb_wraps b). cw_version w \<le> cb_version b \<and> (cw_active w \<longrightarrow> cw_version w = cb_version b)
          \<and> length (bl_nonce (cw_wkek w)) = 24)"
  unfolding wraps_ok_def validate_backup_shape_def list_ex_iff
  by (auto split: if_splits dest: leD intro: leI)

lemma unlock_with_wkek_kept:
  "root_kept C u b \<Longrightarrow> (\<forall>m. io_lock io m) \<Longrightarrow> unlock_with_wkek C io b (uw_wkek u) = Inr u"
  by (cases u) (auto simp: root_kept_def unlock_with_wkek_def decrypt_opens)

lemma recover_wkek_kept:
  assumes "recover_wkek_from_unlocked C io b u = Inr wkek"
  shows "wkek = uw_wkek u"
  using assms by (auto simp: recover_wkek_from_unlocked_def result_simps split: if_splits)


lemma recover_wkek_ok:
  assumes "root_kept C u b" "\<forall>m. io_lock io m"
  shows "recover_wkek_from_unlocked C io b u = Inr (uw_wkek u)"
proof -
  have "length (uw_policy_seed u) = 32" using assms(1) by (simp add: root_kept_def)
  then show ?thesis
    using unlock_with_wkek_kept [OF assms] by (simp add: recover_wkek_from_unlocked_def policy_verifying_key_def)
qed

lemma custody_inv_iff:
  "custody_inv C u (cu, keys, rk) \<longleftrightarrow>
     wraps_ok (cu_backup cu) \<and> root_kept C u (cu_backup cu)
     \<and> (\<forall>w\<in>set (cb_wraps (cu_backup cu)). cw_active w \<longrightarrow> wrap_opens C u (cu_backup cu) keys w)
     \<and> (\<forall>r. cb_recovery (cu_backup cu) = Some r \<longrightarrow> recovery_opens C u (cu_backup cu) rk r)
     \<and> ((\<exists>w\<in>set (cb_wraps (cu_backup cu)). cw_active w) \<or> cb_recovery (cu_backup cu) \<noteq> None)"
  by (simp add: custody_inv_def Let_def)

text \<open>An invariant about the backup only, with the keys held, is kept by a commit that keeps it.\<close>

lemma set_deactivate_first:
  "distinct (map cw_id ws) \<Longrightarrow>
     set (deactivate_first c ws) = (\<lambda>w. if cw_id w = c then w\<lparr>cw_active := False\<rparr> else w) ` set ws"
proof (induction ws)
  case Nil
  show ?case by simp
next
  case (Cons w ws)
  show ?case
  proof (cases "cw_id w = c")
    case True
    then have "(\<lambda>w. if cw_id w = c then w\<lparr>cw_active := False\<rparr> else w) ` set ws = id ` set ws"
      using Cons.prems by (intro image_cong) (auto simp: image_iff)
    with True show ?thesis by simp
  next
    case False
    with Cons show ?thesis by simp
  qed
qed

lemma map_id_deactivate_first [simp]: "map cw_id (deactivate_first c ws) = map cw_id ws"
  by (induction ws) auto

lemma ids_deactivate_first [simp]: "cw_id ` set (deactivate_first c ws) = cw_id ` set ws"
  by (metis map_id_deactivate_first set_map)

lemma deactivate_first_Nil_iff [simp]: "deactivate_first c ws = [] \<longleftrightarrow> ws = []"
  by (cases ws) auto

text \<open>What the wraps open to depends on the sealed root only.\<close>

lemma root_kept_update [simp]:
  "root_kept C u (b\<lparr>cb_wraps := ws\<rparr>) = root_kept C u b"
  "root_kept C u (b\<lparr>cb_recovery := r\<rparr>) = root_kept C u b"
  "root_kept C u (b\<lparr>cb_policy_version := v\<rparr>) = root_kept C u b"
  "root_kept C u (b\<lparr>cb_generation := g\<rparr>) = root_kept C u b"
  by (simp_all add: root_kept_def)

lemma wrap_opens_update [simp]:
  "wrap_opens C u (b\<lparr>cb_wraps := ws\<rparr>) = wrap_opens C u b"
  "wrap_opens C u (b\<lparr>cb_recovery := r\<rparr>) = wrap_opens C u b"
  "wrap_opens C u (b\<lparr>cb_policy_version := v\<rparr>) = wrap_opens C u b"
  "wrap_opens C u (b\<lparr>cb_generation := g\<rparr>) = wrap_opens C u b"
  by (simp_all add: wrap_opens_def fun_eq_iff)

lemma recovery_opens_update [simp]:
  "recovery_opens C u (b\<lparr>cb_wraps := ws\<rparr>) = recovery_opens C u b"
  "recovery_opens C u (b\<lparr>cb_recovery := r\<rparr>) = recovery_opens C u b"
  "recovery_opens C u (b\<lparr>cb_policy_version := v\<rparr>) = recovery_opens C u b"
  "recovery_opens C u (b\<lparr>cb_generation := g\<rparr>) = recovery_opens C u b"
  by (simp_all add: recovery_opens_def fun_eq_iff)

lemma wrap_opens_deactivated [simp]: "wrap_opens C u b keys (w\<lparr>cw_active := a\<rparr>) = wrap_opens C u b keys w"
  by (simp add: wrap_opens_def)

lemma add_credential_cases:
  assumes "add_credential C io u c k cu = (cu', r)" "cu' \<noteq> cu"
  obtains wrapped where "c \<notin> cw_id ` set (cb_wraps (cu_backup cu))"
    "encrypt C (io_nonce io 0) k (uw_wkek u) (credential_aad C (cb_wallet (cu_backup cu)) c
       (root_ciphertext_fingerprint C (cb_root (cu_backup cu))) (cb_version (cu_backup cu))) = Inr wrapped"
    "cu' = cu\<lparr>cu_backup := (cu_backup cu)\<lparr>cb_wraps := cb_wraps (cu_backup cu) @
      [\<lparr>cw_id = c, cw_active = True, cw_version = cb_version (cu_backup cu), cw_wkek = wrapped\<rparr>]\<rparr>\<rparr>"
  using assms
  by (auto simp: add_credential_def Let_def result_simps list_ex_iff split: sum.splits if_splits
      dest!: recover_wkek_kept elim!: commit_custody_cases)

lemma add_credential_inv:
  assumes "add_credential C io u c k cu = (cu', r)" and laws: "aead_roundtrip C" "nonces_ok io"
    and inv: "custody_inv C u (cu, keys, rk)"
  shows "custody_inv C u (cu', if cu' = cu then keys else keys(c \<mapsto> k), rk)"
proof (cases "cu' = cu")
  case True
  with inv show ?thesis by simp
next
  case False
  let ?b = "cu_backup cu"
  from add_credential_cases [OF assms(1) False] obtain wrapped where fresh: "c \<notin> cw_id ` set (cb_wraps ?b)"
    and e: "encrypt C (io_nonce io 0) k (uw_wkek u)
      (credential_aad C (cb_wallet ?b) c (root_ciphertext_fingerprint C (cb_root ?b)) (cb_version ?b)) = Inr wrapped"
    and cu': "cu' = cu\<lparr>cu_backup := ?b\<lparr>cb_wraps := cb_wraps ?b @
      [\<lparr>cw_id = c, cw_active = True, cw_version = cb_version ?b, cw_wkek = wrapped\<rparr>]\<rparr>\<rparr>"
    by blast
  have n: "length (bl_nonce wrapped) = 24" using encrypt_nonce [OF e] laws by (simp add: nonces_ok_def)
  have o: "opens C k wrapped
      (credential_aad C (cb_wallet ?b) c (root_ciphertext_fingerprint C (cb_root ?b)) (cb_version ?b)) (uw_wkek u)"
    using encrypt_opens [OF e laws(1)] laws(2) by (simp add: nonces_ok_def)
  have "wrap_opens C u ?b (keys(c \<mapsto> k)) w" if "wrap_opens C u ?b keys w" "cw_id w \<noteq> c" for w
    using that by (simp add: wrap_opens_def)
  with inv fresh n o False show ?thesis
    unfolding custody_inv_iff cu' wraps_ok_iff
    by (auto simp: wrap_opens_def)
qed


lemma revoke_credential_ok:
  assumes "revoke_credential C io c cu = (cu', Inr ())"
  shows "c \<in> cw_id ` set (cb_wraps (cu_backup cu))
    \<and> cu' = cu\<lparr>cu_backup := (cu_backup cu)\<lparr>cb_wraps := deactivate_first c (cb_wraps (cu_backup cu))\<rparr>\<rparr>"
proof -
  from assms obtain w where w: "find (\<lambda>w. cw_id w = c) (cb_wraps (cu_backup cu)) = Some w"
    and "commit_custody C io ((cu_backup cu)\<lparr>cb_wraps := deactivate_first c (cb_wraps (cu_backup cu))\<rparr>) cu = (cu', Inr ())"
    by (auto simp: revoke_credential_def Let_def split: option.splits if_splits)
  moreover from w have "cw_id w = c" "w \<in> set (cb_wraps (cu_backup cu))" by (auto simp: find_Some_iff)
  ultimately show ?thesis by (auto elim!: commit_custody_cases)
qed

lemma revoke_credential_inv:
  assumes "revoke_credential C io c cu = (cu', r)" and inv: "custody_inv C u (cu, keys, rk)"
  shows "custody_inv C u (cu', keys, rk)"
proof (cases "cu' = cu")
  case True
  with inv show ?thesis by simp
next
  case False
  let ?b = "cu_backup cu"
  from inv have d: "distinct (map cw_id (cb_wraps ?b))" by (simp add: custody_inv_iff wraps_ok_iff)
  from assms(1) False obtain w where w: "find (\<lambda>w. cw_id w = c) (cb_wraps ?b) = Some w"
    and guard: "\<not> (cw_active w \<and> length (filter cw_active (cb_wraps ?b)) = 1 \<and> cb_recovery ?b = None)"
    and cu': "cu' = cu\<lparr>cu_backup := ?b\<lparr>cb_wraps := deactivate_first c (cb_wraps ?b)\<rparr>\<rparr>"
    by (auto simp: revoke_credential_def Let_def split: option.splits if_splits elim!: commit_custody_cases)
  from w have wc: "cw_id w = c" "w \<in> set (cb_wraps ?b)" by (auto simp: find_Some_iff)
  have other: "\<exists>v\<in>set (cb_wraps ?b). cw_active v \<and> cw_id v \<noteq> c" if none: "cb_recovery ?b = None"
  proof (rule ccontr)
    assume lonely: "\<not> (\<exists>v\<in>set (cb_wraps ?b). cw_active v \<and> cw_id v \<noteq> c)"
    obtain v where v: "v \<in> set (cb_wraps ?b)" "cw_active v"
      using inv none by (auto simp: custody_inv_iff)
    have same: "x = w" if "x \<in> set (cb_wraps ?b)" "cw_active x" for x
    proof -
      have "cw_id x = cw_id w" using lonely that wc by blast
      then show ?thesis using that wc d by (simp add: distinct_map inj_on_def)
    qed
    then have "set (filter cw_active (cb_wraps ?b)) = {w}" using v by auto
    moreover have "distinct (filter cw_active (cb_wraps ?b))" using d by (simp add: distinct_map)
    ultimately have "length (filter cw_active (cb_wraps ?b)) = card {w}" by (simp flip: distinct_card)
    with guard none same v show False by simp
  qed
  show ?thesis
    using inv d other unfolding custody_inv_iff cu' wraps_ok_iff
    by (auto simp: set_deactivate_first)
qed

lemma set_recovery_inv:
  assumes "set_recovery C io u rid k cu = (cu', r)" and laws: "aead_roundtrip C" "nonces_ok io"
    and inv: "custody_inv C u (cu, keys, rk)"
  shows "custody_inv C u (cu', keys, if cu' = cu then rk else Some k)"
proof (cases "cu' = cu")
  case True
  with inv show ?thesis by simp
next
  case False
  let ?b = "cu_backup cu"
  from assms(1) False obtain wrapped where
    e: "encrypt C (io_nonce io 0) k (uw_wkek u)
      (recovery_aad C (cb_wallet ?b) rid (root_ciphertext_fingerprint C (cb_root ?b)) (cb_version ?b)) = Inr wrapped"
    and cu': "cu' = cu\<lparr>cu_backup := ?b\<lparr>cb_recovery :=
      Some \<lparr>rw_id = rid, rw_version = cb_version ?b, rw_wkek = wrapped\<rparr>\<rparr>\<rparr>"
    by (auto simp: set_recovery_def Let_def result_simps split: sum.splits if_splits
        dest!: recover_wkek_kept elim!: commit_custody_cases)
  have "opens C k wrapped
      (recovery_aad C (cb_wallet ?b) rid (root_ciphertext_fingerprint C (cb_root ?b)) (cb_version ?b)) (uw_wkek u)"
    using encrypt_opens [OF e laws(1)] laws(2) by (simp add: nonces_ok_def)
  with inv False show ?thesis
    unfolding custody_inv_iff cu' wraps_ok_iff
    by (auto simp: recovery_opens_def)
qed

lemma set_policy_version_inv:
  assumes "set_policy_version C io v cu = (cu', r)" and inv: "custody_inv C u (cu, keys, rk)"
  shows "custody_inv C u (cu', keys, rk)"
proof -
  let ?b = "cu_backup cu"
  from assms(1) have "cu' = cu \<or> cu' = cu\<lparr>cu_backup := ?b\<lparr>cb_policy_version := v\<rparr>\<rparr>"
    by (auto simp: set_policy_version_def Let_def split: if_splits elim!: commit_custody_cases)
  with inv show ?thesis
    by (auto simp: custody_inv_iff wraps_ok_iff )
qed

lemma recover_replace_cases:
  assumes "recover_replace_credentials C io u c k rid rk' cu = (cu', r)" "cu' \<noteq> cu"
  obtains wc wr where
    "c \<notin> cw_id ` set (cb_wraps (cu_backup cu))"
    "encrypt C (io_nonce io 0) k (uw_wkek u) (credential_aad C (cb_wallet (cu_backup cu)) c
       (root_ciphertext_fingerprint C (cb_root (cu_backup cu))) (cb_version (cu_backup cu))) = Inr wc"
    "encrypt C (io_nonce io 1) rk' (uw_wkek u) (recovery_aad C (cb_wallet (cu_backup cu)) rid
       (root_ciphertext_fingerprint C (cb_root (cu_backup cu))) (cb_version (cu_backup cu))) = Inr wr"
    "cu' = cu\<lparr>cu_backup := replaced_backup c wc rid wr (cu_backup cu)\<rparr> \<and> r = Inl (err ServiceUnavailable)
       \<and> checked_add (cb_generation (cu_backup cu)) 1 = None
     \<or> (\<exists>g. checked_add (cb_generation (cu_backup cu)) 1 = Some g \<and> r = Inr ()
       \<and> cu' = cu\<lparr>cu_backup := (replaced_backup c wc rid wr (cu_backup cu))\<lparr>cb_generation := g\<rparr>\<rparr>)"
proof -
  let ?b = "cu_backup cu"
  from assms obtain wc wr where f1: "c \<notin> cw_id ` set (cb_wraps ?b)"
    and f2: "encrypt C (io_nonce io 0) k (uw_wkek u) (credential_aad C (cb_wallet ?b) c
       (root_ciphertext_fingerprint C (cb_root ?b)) (cb_version ?b)) = Inr wc"
    and f3: "encrypt C (io_nonce io 1) rk' (uw_wkek u) (recovery_aad C (cb_wallet ?b) rid
       (root_ciphertext_fingerprint C (cb_root ?b)) (cb_version ?b)) = Inr wr"
    and split: "(case checked_add (cb_generation ?b) 1 of
         None \<Rightarrow> (cu\<lparr>cu_backup := replaced_backup c wc rid wr ?b\<rparr>, Inl (err ServiceUnavailable))
       | Some g \<Rightarrow> commit_custody C io ((replaced_backup c wc rid wr ?b)\<lparr>cb_generation := g\<rparr>) cu) = (cu', r)"
    by (auto simp: recover_replace_credentials_def Let_def result_simps list_ex_iff
        split: sum.splits if_splits dest!: recover_wkek_kept)
  from split assms(2) have f4: "cu' = cu\<lparr>cu_backup := replaced_backup c wc rid wr ?b\<rparr>
       \<and> r = Inl (err ServiceUnavailable) \<and> checked_add (cb_generation ?b) 1 = None
     \<or> (\<exists>g. checked_add (cb_generation ?b) 1 = Some g \<and> r = Inr ()
       \<and> cu' = cu\<lparr>cu_backup := (replaced_backup c wc rid wr ?b)\<lparr>cb_generation := g\<rparr>\<rparr>)"
    by (auto split: option.splits elim!: commit_custody_cases)
  show thesis by (rule that [OF f1 f2 f3 f4])
qed


lemma recover_replace_inv:
  assumes "recover_replace_credentials C io u c k rid rk' cu = (cu', r)"
    and laws: "aead_roundtrip C" "nonces_ok io" and inv: "custody_inv C u (cu, keys, rk)"
  shows "custody_inv C u (cu', if cu' = cu then keys else keys(c \<mapsto> k), if cu' = cu then rk else Some rk')"
proof (cases "cu' = cu")
  case True
  with inv show ?thesis by simp
next
  case False
  let ?b = "cu_backup cu"
  obtain wc wr where fresh: "c \<notin> cw_id ` set (cb_wraps ?b)"
    and e1: "encrypt C (io_nonce io 0) k (uw_wkek u) (credential_aad C (cb_wallet ?b) c
       (root_ciphertext_fingerprint C (cb_root ?b)) (cb_version ?b)) = Inr wc"
    and e2: "encrypt C (io_nonce io 1) rk' (uw_wkek u) (recovery_aad C (cb_wallet ?b) rid
       (root_ciphertext_fingerprint C (cb_root ?b)) (cb_version ?b)) = Inr wr"
    and cu': "cu' = cu\<lparr>cu_backup := replaced_backup c wc rid wr ?b\<rparr>
      \<or> (\<exists>g. cu' = cu\<lparr>cu_backup := (replaced_backup c wc rid wr ?b)\<lparr>cb_generation := g\<rparr>\<rparr>)"
    using recover_replace_cases [OF assms(1) False] by metis
  have n: "length (bl_nonce wc) = 24" using encrypt_nonce [OF e1] laws by (simp add: nonces_ok_def)
  have o1: "opens C k wc (credential_aad C (cb_wallet ?b) c
       (root_ciphertext_fingerprint C (cb_root ?b)) (cb_version ?b)) (uw_wkek u)"
    using encrypt_opens [OF e1 laws(1)] laws(2) by (simp add: nonces_ok_def)
  have o2: "opens C rk' wr (recovery_aad C (cb_wallet ?b) rid
       (root_ciphertext_fingerprint C (cb_root ?b)) (cb_version ?b)) (uw_wkek u)"
    using encrypt_opens [OF e2 laws(1)] laws(2) by (simp add: nonces_ok_def)
  have "custody_inv C u (cu\<lparr>cu_backup := replaced_backup c wc rid wr ?b\<rparr>, keys(c \<mapsto> k), Some rk')"
    using inv fresh n o1 o2 unfolding custody_inv_iff wraps_ok_iff
    by (auto simp: replaced_backup_def wrap_opens_def recovery_opens_def comp_def)
  then have "custody_inv C u (cu', keys(c \<mapsto> k), Some rk')"
    using cu' unfolding custody_inv_iff wraps_ok_iff by auto
  with False show ?thesis by simp
qed

text \<open>Wrapping the wallet key again for every active credential.\<close>

lemma rewrap_set:
  assumes "rewrap C io i wallet fp v wkek keys ws = Inr (j, ws')" "aead_roundtrip C" "nonces_ok io"
  shows "map cw_id ws' = map cw_id ws \<and> map cw_active ws' = map cw_active ws
    \<and> (\<forall>w\<in>set ws'. (cw_active w \<longrightarrow> cw_version w = v \<and> length (bl_nonce (cw_wkek w)) = 24
           \<and> (\<exists>k. keys (cw_id w) = Some k \<and> opens C k (cw_wkek w) (credential_aad C wallet (cw_id w) fp v) wkek))
         \<and> (\<not> cw_active w \<longrightarrow> w \<in> set ws))"
  using assms(1)
proof (induction ws arbitrary: i j ws')
  case Nil
  then show ?case by simp
next
  case (Cons w ws)
  show ?case
  proof (cases "cw_active w")
    case True
    with Cons.prems obtain k wrapped ws'' where k: "keys (cw_id w) = Some k"
      and e: "encrypt C (io_nonce io i) k wkek (credential_aad C wallet (cw_id w) fp v) = Inr wrapped"
      and r: "rewrap C io (i + 1) wallet fp v wkek keys ws = Inr (j, ws'')"
      and ws': "ws' = w\<lparr>cw_version := v, cw_wkek := wrapped\<rparr> # ws''"
      by (auto simp: result_simps)
    have "length (bl_nonce wrapped) = 24" using encrypt_nonce [OF e] assms(3) by (simp add: nonces_ok_def)
    moreover have "opens C k wrapped (credential_aad C wallet (cw_id w) fp v) wkek"
      using encrypt_opens [OF e assms(2)] assms(3) by (simp add: nonces_ok_def)
    ultimately show ?thesis using Cons.IH [OF r] k True by (auto simp: ws')
  next
    case False
    with Cons.prems obtain ws'' where r: "rewrap C io i wallet fp v wkek keys ws = Inr (j, ws'')"
      and ws': "ws' = w # ws''" by (auto simp: result_simps)
    then show ?thesis using Cons.IH [OF r] False by auto
  qed
qed

lemma rewrap_recovery_cases:
  assumes "rewrap_recovery C io i wallet fp v wkek rk r = Inr r'" "aead_roundtrip C" "nonces_ok io"
  shows "case r of
      None \<Rightarrow> r' = None
    | Some w \<Rightarrow> \<exists>w' k. r' = Some w' \<and> rw_id w' = rw_id w \<and> rw_version w' = v \<and> rk = Some k
        \<and> opens C k (rw_wkek w') (recovery_aad C wallet (rw_id w) fp v) wkek"
proof (cases r)
  case None
  with assms(1) show ?thesis by (simp add: rewrap_recovery_def)
next
  case (Some w)
  with assms(1) obtain k wrapped where "rk = Some k"
    and e: "encrypt C (io_nonce io i) k wkek (recovery_aad C wallet (rw_id w) fp v) = Inr wrapped"
    and "r' = Some (w\<lparr>rw_version := v, rw_wkek := wrapped\<rparr>)"
    by (auto simp: rewrap_recovery_def result_simps)
  moreover have "opens C k wrapped (recovery_aad C wallet (rw_id w) fp v) wkek"
    using encrypt_opens [OF e assms(2)] assms(3) by (simp add: nonces_ok_def)
  ultimately show ?thesis using Some by simp
qed


lemma rekeyed_backup_cases:
  assumes "rekeyed_backup C io u v keys rk b = Inr b'"
  obtains root policy_key i wraps recovery where "cb_version b < v"
    "encrypt C (io_nonce io 0) (uw_wkek u) (uw_root u)
       (custody_root_aad (cb_wallet b) v (cb_profile b) (cb_entropy_bits b)) = Inr root"
    "encrypt C (io_nonce io 1) (uw_wkek u) (uw_policy_seed u) (policy_key_aad (cb_wallet b) v) = Inr policy_key"
    "rewrap C io 2 (cb_wallet b) (root_ciphertext_fingerprint C root) v (uw_wkek u) keys (cb_wraps b)
       = Inr (i, wraps)"
    "rewrap_recovery C io i (cb_wallet b) (root_ciphertext_fingerprint C root) v (uw_wkek u) rk (cb_recovery b)
       = Inr recovery"
    "b' = b\<lparr>cb_version := v, cb_root := root, cb_policy_key := policy_key, cb_wraps := wraps, cb_recovery := recovery\<rparr>"
proof -
  from assms obtain wkek root policy_key i wraps recovery where *: "cb_version b < v"
    "recover_wkek_from_unlocked C io b u = Inr wkek"
    "encrypt C (io_nonce io 0) wkek (uw_root u)
       (custody_root_aad (cb_wallet b) v (cb_profile b) (cb_entropy_bits b)) = Inr root"
    "encrypt C (io_nonce io 1) wkek (uw_policy_seed u) (policy_key_aad (cb_wallet b) v) = Inr policy_key"
    "rewrap C io 2 (cb_wallet b) (root_ciphertext_fingerprint C root) v wkek keys (cb_wraps b)
       = Inr (i, wraps)"
    "rewrap_recovery C io i (cb_wallet b) (root_ciphertext_fingerprint C root) v wkek rk (cb_recovery b)
       = Inr recovery"
    "b' = b\<lparr>cb_version := v, cb_root := root, cb_policy_key := policy_key, cb_wraps := wraps, cb_recovery := recovery\<rparr>"
    by (auto simp: rekeyed_backup_def Let_def result_simps not_le split: if_splits)
  with recover_wkek_kept [OF *(2)] show thesis using that by blast
qed

lemma rekeyed_backup_inv:
  assumes "rekeyed_backup C io u v new_keys new_rk b = Inr b'"
    and laws: "aead_roundtrip C" "nonces_ok io" and inv: "custody_inv C u (cu, keys, rk)" and b: "cu_backup cu = b"
  shows "custody_inv C u (cu\<lparr>cu_backup := b'\<rparr>, keys ++ new_keys, if new_rk = None then rk else new_rk)"
  using assms(1)
proof (cases rule: rekeyed_backup_cases)
  case (1 root policy_key i wraps recovery)
  let ?fp = "root_ciphertext_fingerprint C root"
  note wraps = rewrap_set [OF 1(4) laws] and recovery = rewrap_recovery_cases [OF 1(5) laws]
  have kept: "root_kept C u b'"
    using inv encrypt_opens [OF 1(2) laws(1)] encrypt_opens [OF 1(3) laws(1)] laws(2)
    unfolding custody_inv_iff by (auto simp: root_kept_def 1(6) nonces_ok_def b)
  have old: "cw_version w \<le> cb_version b" "length (bl_nonce (cw_wkek w)) = 24" if "w \<in> set (cb_wraps b)" for w
    using inv that b by (auto simp: custody_inv_iff wraps_ok_iff)
  have ok: "wraps_ok b'" unfolding wraps_ok_iff
  proof (intro conjI ballI)
    show "cb_version b' \<noteq> 0" using 1(1,6) by auto
    show "cb_wraps b' \<noteq> []" "distinct (map cw_id (cb_wraps b'))"
      using inv wraps b by (auto simp: custody_inv_iff wraps_ok_iff 1(6))
    fix w assume w: "w \<in> set (cb_wraps b')"
    then have w: "w \<in> set wraps" by (simp add: 1(6))
    show "cw_version w \<le> cb_version b'" "cw_active w \<longrightarrow> cw_version w = cb_version b'"
      "length (bl_nonce (cw_wkek w)) = 24"
      using wraps w old [of w] 1(1) by (auto simp: 1(6) split: if_splits)
  qed
  have "wrap_opens C u b' (keys ++ new_keys) w" if w: "w \<in> set (cb_wraps b')" "cw_active w" for w
  proof -
    from w wraps obtain k where "new_keys (cw_id w) = Some k" "cw_version w = v"
      "opens C k (cw_wkek w) (credential_aad C (cb_wallet b) (cw_id w) ?fp v) (uw_wkek u)"
      by (auto simp: 1(6))
    then show ?thesis by (auto simp: wrap_opens_def 1(6) map_add_def)
  qed
  moreover have "recovery_opens C u b' (if new_rk = None then rk else new_rk) r" if "cb_recovery b' = Some r" for r
    using recovery that by (auto simp: recovery_opens_def 1(6) split: option.splits)
  moreover have "(\<exists>w\<in>set (cb_wraps b'). cw_active w) \<or> cb_recovery b' \<noteq> None"
  proof -
    have "True \<in> set (map cw_active wraps) \<longleftrightarrow> True \<in> set (map cw_active (cb_wraps b))" using wraps by simp
    then show ?thesis using inv recovery b by (auto simp: custody_inv_iff 1(6) image_iff split: option.splits)
  qed
  ultimately show ?thesis using kept ok by (simp add: custody_inv_iff)
qed

lemma rekey_wrap_format_inv:
  assumes "rekey_wrap_format C io u v new_keys new_rk cu = (cu', r)"
    and laws: "aead_roundtrip C" "nonces_ok io" and inv: "custody_inv C u (cu, keys, rk)"
  shows "custody_inv C u (cu', if cu' = cu then keys else keys ++ new_keys,
           if cu' = cu \<or> new_rk = None then rk else new_rk)"
proof (cases "cu' = cu")
  case True
  with inv show ?thesis by simp
next
  case False
  with assms(1) obtain b' where "rekeyed_backup C io u v new_keys new_rk (cu_backup cu) = Inr b'"
    "cu' = cu\<lparr>cu_backup := b'\<rparr>"
    by (auto simp: rekey_wrap_format_def split: sum.splits elim!: commit_custody_cases)
  with rekeyed_backup_inv [OF this(1) laws inv refl] False show ?thesis by simp
qed

lemma same_backup_inv:
  "custody_inv C u (cu, keys, rk) \<Longrightarrow> cu_backup cu' = cu_backup cu \<Longrightarrow> custody_inv C u (cu', keys, rk)"
  by (simp add: custody_inv_iff)

lemma custody_step_inv:
  assumes "custody_step C (\<lambda>u'. u' = u) s t" "aead_roundtrip C" "custody_inv C u s"
  shows "custody_inv C u t"
  using assms
proof (cases rule: custody_step.cases)
  case (restart cu cu' keys rk)
  then show ?thesis using assms(3) by (auto simp: restore_custody_def result_simps intro: same_backup_inv)
next
  case (reopen read parse path cu' cu keys rk)
  then show ?thesis using assms(3) by (auto intro: same_backup_inv)
qed (use assms(2,3) in \<open>auto intro: add_credential_inv revoke_credential_inv set_recovery_inv set_policy_version_inv
  recover_replace_inv rekey_wrap_format_inv simp del: fun_upd_apply split del: if_split\<close>)

subsection \<open>What only grows\<close>

definition dead :: "custody_backup \<Rightarrow> bytes \<Rightarrow> bool" where
  "dead b c = (c \<in> cw_id ` set (cb_wraps b) \<and> (\<forall>w\<in>set (cb_wraps b). cw_id w = c \<longrightarrow> \<not> cw_active w))"

definition custody_grows :: "held \<Rightarrow> held \<Rightarrow> bool" where
  "custody_grows s t =
     (let b = cu_backup (fst s); b' = cu_backup (fst t) in
      cb_wallet b' = cb_wallet b \<and> cb_profile b' = cb_profile b \<and> cb_entropy_bits b' = cb_entropy_bits b
      \<and> cb_generation b \<le> cb_generation b' \<and> cb_policy_version b \<le> cb_policy_version b'
      \<and> cb_version b \<le> cb_version b' \<and> (\<forall>c. dead b c \<longrightarrow> dead b' c)
      \<and> (distinct (map cw_id (cb_wraps b)) \<longrightarrow> distinct (map cw_id (cb_wraps b'))))"

lemma dead_update [simp]:
  "dead (b\<lparr>cb_recovery := r\<rparr>) = dead b" "dead (b\<lparr>cb_policy_version := v\<rparr>) = dead b"
  "dead (b\<lparr>cb_generation := g\<rparr>) = dead b"
  by (simp_all add: dead_def fun_eq_iff)

lemma deactivate_first_origin:
  "w \<in> set (deactivate_first d ws) \<Longrightarrow> \<exists>v\<in>set ws. cw_id v = cw_id w \<and> (cw_active w \<longrightarrow> cw_active v)"
  by (induction ws) (auto split: if_splits)

lemma dead_deactivate_first:
  assumes "dead b c"
  shows "dead (b\<lparr>cb_wraps := deactivate_first d (cb_wraps b)\<rparr>) c"
proof -
  have "\<not> cw_active w" if "w \<in> set (deactivate_first d (cb_wraps b))" "cw_id w = c" for w
    using assms deactivate_first_origin [OF that(1)] that(2) by (auto simp: dead_def)
  with assms show ?thesis by (simp add: dead_def)
qed

lemma dead_revoked:
  assumes "distinct (map cw_id (cb_wraps b))" "c \<in> cw_id ` set (cb_wraps b)"
  shows "dead (b\<lparr>cb_wraps := deactivate_first c (cb_wraps b)\<rparr>) c"
proof -
  have "\<not> cw_active w" if w: "w \<in> set (deactivate_first c (cb_wraps b))" "cw_id w = c" for w
  proof -
    from w(1) obtain v where "w = (if cw_id v = c then v\<lparr>cw_active := False\<rparr> else v)"
      unfolding set_deactivate_first [OF assms(1)] by blast
    with w(2) show ?thesis by (cases "cw_id v = c") auto
  qed
  with assms(2) show ?thesis by (simp add: dead_def)
qed

lemma rewrap_alive:
  assumes "rewrap C io i wallet fp v wkek keys ws = Inr (j, ws')"
  shows "map (\<lambda>w. (cw_id w, cw_active w)) ws' = map (\<lambda>w. (cw_id w, cw_active w)) ws"
  using assms by (induction ws arbitrary: i j ws') (auto simp: result_simps split: if_splits)

lemma dead_alive:
  assumes eq: "map (\<lambda>w. (cw_id w, cw_active w)) (cb_wraps b') = map (\<lambda>w. (cw_id w, cw_active w)) (cb_wraps b)"
  shows "dead b' = dead b"
proof -
  have "dead b = (\<lambda>c. c \<in> fst ` set (map (\<lambda>w. (cw_id w, cw_active w)) (cb_wraps b))
      \<and> (c, True) \<notin> set (map (\<lambda>w. (cw_id w, cw_active w)) (cb_wraps b)))" for b
    by (force simp: dead_def image_iff fun_eq_iff)
  then show ?thesis by (simp only: eq)
qed

lemma custody_grows_refl: "custody_grows s s"
  by (simp add: custody_grows_def)

lemma custody_grows_trans: "custody_grows s t \<Longrightarrow> custody_grows t u \<Longrightarrow> custody_grows s u"
  by (auto simp: custody_grows_def Let_def)

lemma checked_add_ge: "checked_add x 1 = Some y \<Longrightarrow> x \<le> y" for x y :: u64
  by (drule checked_add_SomeD) (simp add: word_le_nat_alt)

lemma replaced_backup_grows: "dead b d \<Longrightarrow> c \<notin> cw_id ` set (cb_wraps b) \<Longrightarrow> dead (replaced_backup c wc rid wr b) d"
  by (auto simp: dead_def replaced_backup_def image_iff)

lemma replaced_backup_fields:
  "cb_wallet (replaced_backup c wc rid wr b) = cb_wallet b" "cb_profile (replaced_backup c wc rid wr b) = cb_profile b"
  "cb_entropy_bits (replaced_backup c wc rid wr b) = cb_entropy_bits b"
  "cb_generation (replaced_backup c wc rid wr b) = cb_generation b"
  "cb_policy_version (replaced_backup c wc rid wr b) = cb_policy_version b"
  "cb_version (replaced_backup c wc rid wr b) = cb_version b"
  "map cw_id (cb_wraps (replaced_backup c wc rid wr b)) = map cw_id (cb_wraps b) @ [c]"
  by (simp_all add: replaced_backup_def)

lemma replaced_backup_same_generation:
  "replaced_backup c wc rid wr b = (replaced_backup c wc rid wr b)\<lparr>cb_generation := cb_generation b\<rparr>"
  by (simp add: replaced_backup_def)

lemma custody_step_grows:
  assumes "custody_step C U s t"
  shows "custody_grows s t"
  using assms
proof (cases rule: custody_step.cases)
  case (add u io c k cu cu' r keys rk)
  show ?thesis
  proof (cases "cu' = cu")
    case True
    then show ?thesis by (simp add: add(1,2) custody_grows_def)
  next
    case False
    from add_credential_cases [OF add(5) False] obtain w where "cw_id w = c"
      and fresh: "c \<notin> cw_id ` set (cb_wraps (cu_backup cu))"
      and cu': "cu' = cu\<lparr>cu_backup := (cu_backup cu)\<lparr>cb_wraps := cb_wraps (cu_backup cu) @ [w]\<rparr>\<rparr>"
      by (metis credential_wrap.select_convs(1))
    then have "dead (cu_backup cu') d" if "dead (cu_backup cu) d" for d
      using that by (auto simp: dead_def)
    with fresh \<open>cw_id w = c\<close> show ?thesis by (simp add: custody_grows_def add(1,2) cu' Let_def)
  qed
next
  case (revoke io c cu cu' r keys rk)
  then have "cu' = cu \<or> cu' = cu\<lparr>cu_backup := (cu_backup cu)\<lparr>cb_wraps := deactivate_first c (cb_wraps (cu_backup cu))\<rparr>\<rparr>"
    by (auto simp: revoke_credential_def Let_def split: option.splits if_splits elim!: commit_custody_cases)
  then show ?thesis by (auto simp: custody_grows_def revoke(1,2) Let_def intro: dead_deactivate_first)
next
  case (recovery u io rid k cu cu' r keys rk)
  then have "cu' = cu \<or> (\<exists>w. cu' = cu\<lparr>cu_backup := (cu_backup cu)\<lparr>cb_recovery := w\<rparr>\<rparr>)"
    by (auto simp: set_recovery_def Let_def result_simps split: sum.splits if_splits elim!: commit_custody_cases)
  then show ?thesis by (auto simp: custody_grows_def recovery(1,2) Let_def)
next
  case (policy io v cu cu' r keys rk)
  then have "cu' = cu \<or> cb_policy_version (cu_backup cu) \<le> v
      \<and> cu' = cu\<lparr>cu_backup := (cu_backup cu)\<lparr>cb_policy_version := v\<rparr>\<rparr>"
    by (auto simp: set_policy_version_def Let_def split: if_splits elim!: commit_custody_cases)
  then show ?thesis by (auto simp: custody_grows_def policy(1,2) Let_def)
next
  case (replace u io c k rid rk' cu cu' r keys rk)
  show ?thesis
  proof (cases "cu' = cu")
    case True
    then show ?thesis by (simp add: replace(1,2) custody_grows_def)
  next
    case False
    from recover_replace_cases [OF replace(5) False] obtain wc wr g where
      fresh: "c \<notin> cw_id ` set (cb_wraps (cu_backup cu))"
      and cu': "cu' = cu\<lparr>cu_backup := (replaced_backup c wc rid wr (cu_backup cu))\<lparr>cb_generation := g\<rparr>\<rparr>"
      and g: "cb_generation (cu_backup cu) \<le> g"
      by (metis checked_add_ge order_refl replaced_backup_same_generation)
    show ?thesis
      using fresh g by (simp add: custody_grows_def replace(1,2) cu' Let_def replaced_backup_grows replaced_backup_fields)
  qed
next
  case (rekey u io v ks rk' cu cu' r keys rk)
  show ?thesis
  proof (cases "cu' = cu")
    case True
    then show ?thesis by (simp add: rekey(1,2) custody_grows_def)
  next
    case False
    with rekey(5) obtain b' where b': "rekeyed_backup C io u v ks rk' (cu_backup cu) = Inr b'"
      and cu': "cu' = cu\<lparr>cu_backup := b'\<rparr>"
      by (auto simp: rekey_wrap_format_def split: sum.splits elim!: commit_custody_cases)
    from b' show ?thesis
    proof (cases rule: rekeyed_backup_cases)
      case (1 root policy_key i wraps recovery)
      have "dead b' = dead (cu_backup cu)" using rewrap_alive [OF 1(4)] 1(6) by (intro dead_alive) simp
      moreover have "map cw_id wraps = map cw_id (cb_wraps (cu_backup cu))"
        using arg_cong [OF rewrap_alive [OF 1(4)], of "map fst"] by (simp add: comp_def)
      ultimately show ?thesis using 1(1,6) by (auto simp: custody_grows_def rekey(1,2) cu' Let_def)
    qed
  qed
next
  case (restart cu cu' keys rk)
  then show ?thesis by (auto simp: restore_custody_def result_simps custody_grows_def)
next
  case (reopen read parse path cu' cu keys rk)
  then show ?thesis by (auto simp: custody_grows_def)
qed

interpretation held: transition_system "custody_step C (\<lambda>u'. u' = u)"
  "\<lambda>s. aead_roundtrip C \<longrightarrow> custody_inv C u s" custody_grows
  for C u
  by unfold_locales (auto intro: custody_step_inv custody_grows_refl custody_grows_trans custody_step_grows)

interpretation custody_run: transition_system "custody_step C U" "\<lambda>_. True" custody_grows
  for C U
  by unfold_locales (auto intro: custody_grows_refl custody_grows_trans custody_step_grows)


subsection \<open>Registered wallets\<close>

text \<open>What a registration was asked to keep.\<close>

definition registered ::
  "'m custody_prims \<Rightarrow> custody_io \<Rightarrow> bytes \<Rightarrow> bytes \<Rightarrow> unlocked_wallet \<Rightarrow> custody \<Rightarrow> bool" where
  "registered C io credential key u cu =
     (register_bip39 C io (uw_wallet u) (uw_root u) (uw_policy_seed u) (uw_wkek u) credential key = Inr cu
        \<and> uw_profile u = Bip39Multicurve_V1 \<and> uw_entropy_bits u = entropy_bits_for (length (uw_root u))
      \<or> register_imported_secp256k1 C io (uw_wallet u) (uw_root u) (uw_policy_seed u) (uw_wkek u) credential key
          = Inr cu \<and> uw_profile u = ImportedSecp256k1_Scalar \<and> uw_entropy_bits u = None)"

lemma expected_entropy_length_for:
  "entropy_bits_for n = Some bits \<Longrightarrow> expected_entropy_length (Some bits) = Some n"
  by (auto simp: entropy_bits_for_def expected_entropy_length_def split: if_splits)

lemma registered_profile:
  assumes "registered C io c k u cu"
  shows "register_with_profile C io (uw_wallet u) (uw_root u) (uw_policy_seed u) (uw_wkek u) c k
      (uw_profile u) (uw_entropy_bits u) = Inr cu
    \<and> check_root_length (uw_profile u) (uw_entropy_bits u) (uw_root u) = Inr ()"
  using assms unfolding registered_def
  by (auto simp: register_bip39_def register_imported_secp256k1_def check_root_length_def result_simps
      expected_entropy_length_for split: if_splits)

lemma register_with_profile_cases:
  assumes "register_with_profile C io wallet root seed wkek c k profile bits = Inr cu"
  obtains er ep wrapped where "length seed = 32"
    "encrypt C (io_nonce io 0) wkek root (custody_root_aad wallet WRAP_FORMAT_CURRENT profile bits) = Inr er"
    "encrypt C (io_nonce io 1) wkek seed (policy_key_aad wallet WRAP_FORMAT_CURRENT) = Inr ep"
    "encrypt C (io_nonce io 2) k wkek (credential_aad C wallet c (root_ciphertext_fingerprint C er) WRAP_FORMAT_CURRENT)
       = Inr wrapped"
    "cu_backup cu = \<lparr>cb_wallet = wallet, cb_generation = 0, cb_policy_version = 1, cb_version = WRAP_FORMAT_CURRENT,
       cb_root = er, cb_policy_key = ep,
       cb_wraps = [\<lparr>cw_id = c, cw_active = True, cw_version = WRAP_FORMAT_CURRENT, cw_wkek = wrapped\<rparr>],
       cb_recovery = None, cb_profile = profile, cb_entropy_bits = bits\<rparr>"
  using assms by (auto simp: register_with_profile_def Let_def result_simps split: if_splits)

lemma registered_inv:
  assumes reg: "registered C io c k u cu" and laws: "aead_roundtrip C" "nonces_ok io"
  shows "custody_inv C u (cu, [c \<mapsto> k], None)"
proof -
  note p = registered_profile [OF reg]
  from conjunct1 [OF p] show ?thesis
  proof (cases rule: register_with_profile_cases)
    case (1 er ep wrapped)
    note o = encrypt_opens [OF 1(2) laws(1)] encrypt_opens [OF 1(3) laws(1)] encrypt_opens [OF 1(4) laws(1)]
    show ?thesis
      using o 1(1) p laws(2) encrypt_nonce [OF 1(4)]
      by (auto simp: custody_inv_iff 1(5) wraps_ok_iff root_kept_def wrap_opens_def nonces_ok_def
          WRAP_FORMAT_CURRENT_def WRAP_FORMAT_V2_def)
  qed
qed

lemma find_active_wrap:
  assumes "distinct (map cw_id ws)" "w \<in> set ws" "cw_active w"
  shows "find (\<lambda>v. cw_active v \<and> cw_id v = cw_id w) ws = Some w"
  using assms by (induction ws) (auto simp: image_iff)

lemma unlock_with_credential_kept:
  assumes inv: "custody_inv C u (cu, keys, rk)" and lock: "\<forall>m. io_lock io m" and c: "c \<in> active_credential_ids cu"
  shows "\<exists>k. keys c = Some k \<and> unlock_with_credential C io cu c k = Inr u"
proof -
  from c obtain w where w: "w \<in> set (cb_wraps (cu_backup cu))" "cw_active w" "cw_id w = c"
    by (auto simp: active_credential_ids_def)
  with inv obtain k where k: "keys c = Some k"
    "opens C k (cw_wkek w) (credential_aad C (cb_wallet (cu_backup cu)) c
       (root_ciphertext_fingerprint C (cb_root (cu_backup cu))) (cw_version w)) (uw_wkek u)"
    by (auto simp: custody_inv_iff wrap_opens_def)
  have f: "find (\<lambda>v. cw_active v \<and> cw_id v = c) (cb_wraps (cu_backup cu)) = Some w"
    using find_active_wrap w inv by (auto simp: custody_inv_iff wraps_ok_iff)
  have "root_kept C u (cu_backup cu)" using inv by (simp add: custody_inv_iff)
  from unlock_with_wkek_kept [OF this lock] k f show ?thesis
    by (simp add: unlock_with_credential_def opens_key decrypt_opens Let_def)
qed

lemma unlock_with_recovery_kept:
  assumes inv: "custody_inv C u (cu, keys, rk)" and lock: "\<forall>m. io_lock io m" and r: "cb_recovery (cu_backup cu) = Some r"
  shows "\<exists>k. rk = Some k \<and> unlock_with_recovery C io cu (rw_id r) k = Inr u"
proof -
  from inv r obtain k where k: "rk = Some k"
    "opens C k (rw_wkek r) (recovery_aad C (cb_wallet (cu_backup cu)) (rw_id r)
       (root_ciphertext_fingerprint C (cb_root (cu_backup cu))) (rw_version r)) (uw_wkek u)"
    by (auto simp: custody_inv_iff recovery_opens_def)
  have "root_kept C u (cu_backup cu)" using inv by (simp add: custody_inv_iff)
  from unlock_with_wkek_kept [OF this lock] k r show ?thesis
    by (simp add: unlock_with_recovery_def opens_key decrypt_opens Let_def)
qed

text \<open>C15: The keys given out open the wallet, and nobody is locked out. From a registration (BIP-39 or
  an imported scalar), after any sequence of adding and revoking credentials, setting and
  using recovery, rewrapping, failed writes and restarts, made with the wallet's own session: every
  active credential opens the wallet with the key it was given, recovery opens it with its key, both
  to exactly the root, policy seed and wallet key that were registered; there is
  an active credential or a recovery factor; and the backup passes the shape check of a restart.\<close>

theorem custody_keys_open_wallet:
  assumes "aead_roundtrip C" "nonces_ok io0" "registered C io0 c0 k0 u cu0"
    and "(custody_step C (\<lambda>u'. u' = u))\<^sup>*\<^sup>* (cu0, [c0 \<mapsto> k0], None) (cu, keys, rk)"
    and "\<forall>m. io_lock io m"
  shows "(\<forall>c\<in>active_credential_ids cu. \<exists>k. keys c = Some k \<and> unlock_with_credential C io cu c k = Inr u)
    \<and> (\<forall>r. cb_recovery (cu_backup cu) = Some r \<longrightarrow>
         (\<exists>k. rk = Some k \<and> unlock_with_recovery C io cu (rw_id r) k = Inr u))
    \<and> (active_credential_ids cu \<noteq> {} \<or> cb_recovery (cu_backup cu) \<noteq> None)
    \<and> is_ok (restore_custody (cu_backup cu))"
proof -
  have inv: "custody_inv C u (cu, keys, rk)"
    using held.run_inv [OF assms(4)] registered_inv [OF assms(3,1,2)] assms(1) by simp
  then have "active_credential_ids cu \<noteq> {} \<or> cb_recovery (cu_backup cu) \<noteq> None"
    "is_ok (restore_custody (cu_backup cu))"
    by (auto simp: custody_inv_iff active_credential_ids_def restore_custody_def wraps_ok_def)
  then show ?thesis
    using unlock_with_credential_kept [OF inv assms(5)] unlock_with_recovery_kept [OF inv assms(5)] by blast
qed

text \<open>C16: A revoked passkey is dead for good. Once a credential of a registered wallet has been revoked, no
  sequence of operations with any sessions, and no key, lets it unlock the wallet again, not even
  after a restart: the answer is \<open>ApprovalRevoked\<close>, or the key is not a key.\<close>

theorem revoked_credential_never_unlocks:
  assumes "registered C io0 c0 k0 u cu0"
    and "(custody_step C U)\<^sup>*\<^sup>* (cu0, keys0, rk0) (cu1, keys1, rk1)"
    and "revoke_credential C io1 c cu1 = (cu2, Inr ())"
    and "(custody_step C U)\<^sup>*\<^sup>* (cu2, keys1, rk1) (cu, keys, rk)"
  shows "unlock_with_credential C io cu c key
    = Inl (err (if length key = 32 then ApprovalRevoked else BackendInvalidRequest))"
proof -
  have d0: "distinct (map cw_id (cb_wraps (cu_backup cu0)))"
    using registered_profile [OF assms(1)] by (elim conjE register_with_profile_cases) simp
  have g1: "custody_grows (cu0, keys0, rk0) (cu1, keys1, rk1)"
    using custody_run.run_grows [OF assms(2)] by simp
  have d1: "distinct (map cw_id (cb_wraps (cu_backup cu1)))" using g1 d0 by (simp add: custody_grows_def Let_def)
  have dead2: "dead (cu_backup cu2) c" using revoke_credential_ok [OF assms(3)] dead_revoked [OF d1] by auto
  have "dead (cu_backup cu) c"
    using custody_run.run_grows [OF assms(4)] dead2 by (simp add: custody_grows_def Let_def)
  then have "find (\<lambda>w. cw_active w \<and> cw_id w = c) (cb_wraps (cu_backup cu)) = None"
    by (auto simp: dead_def find_None_iff)
  then show ?thesis by (simp add: unlock_with_credential_def validate_key_def Let_def)
qed


subsection \<open>Recovery\<close>

text \<open>A recovery replaces every passkey: only the new one is active, the generation counts up by one.\<close>

lemma recovery_replaces_credentials:
  assumes "recover_replace_credentials C io u c k rid rk cu = (cu', Inr ())"
  shows "active_credential_ids cu' = {c}
    \<and> unat (cb_generation (cu_backup cu')) = unat (cb_generation (cu_backup cu)) + 1
    \<and> (\<forall>d\<in>cw_id ` set (cb_wraps (cu_backup cu)). dead (cu_backup cu') d)
    \<and> (\<exists>r. cb_recovery (cu_backup cu') = Some r \<and> rw_id r = rid)"
proof -
  have "cu' \<noteq> cu"
  proof
    assume same: "cu' = cu"
    from assms obtain wc wr g where "checked_add (cb_generation (cu_backup cu)) 1 = Some g"
      "commit_custody C io ((replaced_backup c wc rid wr (cu_backup cu))\<lparr>cb_generation := g\<rparr>) cu = (cu', Inr ())"
      by (auto simp: recover_replace_credentials_def Let_def split: sum.splits option.splits)
    then have "cb_generation (cu_backup cu') = g" "unat g = unat (cb_generation (cu_backup cu)) + 1"
      by (auto elim!: commit_custody_cases dest: checked_add_SomeD)
    with same show False by auto
  qed
  from recover_replace_cases [OF assms this] obtain wc wr g where fresh: "c \<notin> cw_id ` set (cb_wraps (cu_backup cu))"
    and g: "checked_add (cb_generation (cu_backup cu)) 1 = Some g"
    and cu': "cu' = cu\<lparr>cu_backup := (replaced_backup c wc rid wr (cu_backup cu))\<lparr>cb_generation := g\<rparr>\<rparr>"
    by blast
  have "dead (cu_backup cu') d" if "d \<in> cw_id ` set (cb_wraps (cu_backup cu))" for d
    using that fresh by (auto simp: dead_def replaced_backup_def cu' image_iff)
  then show ?thesis
    using checked_add_SomeD [OF g]
    by (auto simp: active_credential_ids_def replaced_backup_def cu')
qed

text \<open>At the last generation the operation reports a failure and yet leaves the replaced
  wraps in memory, unlike every other failure.\<close>

lemma exhausted_generation_half_applied:
  assumes "recover_replace_credentials C io u c k rid rk cu = (cu', Inl e)" "cu' \<noteq> cu"
  shows "cb_generation (cu_backup cu) = - 1 \<and> e = err ServiceUnavailable \<and> active_credential_ids cu' = {c}"
proof -
  from recover_replace_cases [OF assms] obtain wc wr where
    cu': "cu' = cu\<lparr>cu_backup := replaced_backup c wc rid wr (cu_backup cu)\<rparr>" and e: "e = err ServiceUnavailable"
    and g: "checked_add (cb_generation (cu_backup cu)) 1 = None"
    by blast
  from g have "unat (cb_generation (cu_backup cu)) = 2 ^ 64 - 1"
    using unat_lt_power [of "cb_generation (cu_backup cu)"] by (auto simp: checked_add_def split: if_splits)
  then have "unat (cb_generation (cu_backup cu)) = unat (- 1 :: u64)"
    by (simp add: unsigned_minus_1_eq_mask mask_eq_exp_minus_1)
  then have "cb_generation (cu_backup cu) = - 1" by (rule unsigned_word_eqI)
  then show ?thesis using e by (auto simp: active_credential_ids_def replaced_backup_def cu')
qed

subsection \<open>Authenticated metadata\<close>

lemma u32_be_bytes_inject: "u32_be_bytes a = u32_be_bytes b \<longleftrightarrow> a = b"
proof
  assume "u32_be_bytes a = u32_be_bytes b"
  then have "be_nat (be_bytes 4 (unat a)) = be_nat (be_bytes 4 (unat b))" by (simp add: u32_be_bytes_def)
  moreover have "unat x < 256 ^ 4" for x :: u32 using unat_lt_power [of x] by simp
  ultimately have "unat a = unat b" by (simp add: be_nat_be_bytes)
  then show "a = b" by (rule unsigned_word_eqI)
qed simp

lemma length_u32_be_bytes [simp]: "length (u32_be_bytes a) = 4"
  by (simp add: u32_be_bytes_def)

definition profile_suffix :: "root_profile \<Rightarrow> u32 option \<Rightarrow> bytes" where
  "profile_suffix profile entropy_bits =
     str_bytes (aad_tag profile) @ (case entropy_bits of Some bits \<Rightarrow> 1 # u32_be_bytes bits | None \<Rightarrow> [0])"

lemma profile_suffix_inject: "profile_suffix p e = profile_suffix q f \<longleftrightarrow> p = q \<and> e = f"
proof
  assume eq: "profile_suffix p e = profile_suffix q f"
  then have "hd (profile_suffix p e) = hd (profile_suffix q f)" by simp
  then have pq: "p = q" by (cases p; cases q) (simp_all add: profile_suffix_def str_bytes_def of_nat_of_char_inject)
  with eq show "p = q \<and> e = f"
    by (cases e; cases f) (auto simp: profile_suffix_def u32_be_bytes_inject)
qed simp

lemma custody_root_aad_inject:
  assumes "custody_root_aad wallet v p e = custody_root_aad wallet w q f" "v \<ge> WRAP_FORMAT_V2"
  shows "v = w \<and> p = q \<and> e = f"
proof -
  from assms have vw: "v = w" by (auto simp: custody_root_aad_def u32_be_bytes_inject)
  with assms have "profile_suffix p e = profile_suffix q f" by (simp add: custody_root_aad_def profile_suffix_def)
  with vw show ?thesis by (simp add: profile_suffix_inject)
qed

text \<open>How the root is to be read cannot be edited. In the backup of a registered wallet, changing the
  recorded root profile, the entropy size or the format version makes every unlock by the
  right passkey key fail as unauthenticated, before any byte of the root is interpreted:
  from the second format on the three are part of what the root's ciphertext authenticates.\<close>

theorem edited_metadata_refused:
  assumes "aead_roundtrip C" "aead_binds C" "nonces_ok io0" "registered C io0 c k u cu"
    and "(v, p, e) \<noteq> (cb_version (cu_backup cu), uw_profile u, uw_entropy_bits u)"
  shows "unlock_with_credential C io
      (cu\<lparr>cu_backup := (cu_backup cu)\<lparr>cb_version := v, cb_profile := p, cb_entropy_bits := e\<rparr>\<rparr>) c k
    = Inl (err UnauthenticatedPeer)"
proof -
  from conjunct1 [OF registered_profile [OF assms(4)]] show ?thesis
  proof (cases rule: register_with_profile_cases)
    case (1 er ep wrapped)
    have n: "length (io_nonce io0 i) = 24" for i using assms(3) by (simp add: nonces_ok_def)
    have w: "opens C k wrapped (credential_aad C (uw_wallet u) c (root_ciphertext_fingerprint C er) WRAP_FORMAT_CURRENT)
        (uw_wkek u)" by (rule encrypt_opens [OF 1(4) assms(1) n])
    from 1(2) have wkek: "validate_key (uw_wkek u) = Inr ()" by (auto simp: encrypt_def result_simps)
    have aad: "custody_root_aad (uw_wallet u) v p e
        \<noteq> custody_root_aad (uw_wallet u) WRAP_FORMAT_CURRENT (uw_profile u) (uw_entropy_bits u)"
      using custody_root_aad_inject [of "uw_wallet u" WRAP_FORMAT_CURRENT "uw_profile u" "uw_entropy_bits u" v p e]
        assms(5) by (auto simp: 1(5) WRAP_FORMAT_CURRENT_def)
    have "cp_decrypt C (uw_wkek u) (bl_nonce er) (custody_root_aad (uw_wallet u) v p e) (bl_ciphertext er) = None"
      using 1(2) assms(2) aad by (auto simp: encrypt_def result_simps aead_binds_def)
    with n encrypt_nonce [OF 1(2)] wkek have "decrypt C (uw_wkek u) er (custody_root_aad (uw_wallet u) v p e)
        = Inl (err UnauthenticatedPeer)" by (simp add: decrypt_def)
    with w show ?thesis
      by (simp add: unlock_with_credential_def unlock_with_wkek_def 1(5) opens_key decrypt_opens Let_def)
  qed
qed

end
