(* ===== verification/Custody_Sample.thy ===== *)
theory Custody_Sample
  imports Custody_Properties
begin

text \<open>
  The properties of custody at a concrete wallet: an authenticated cipher that frames key, nonce and associated
  data in front of the plaintext (it hides nothing, and satisfies both laws), and a wallet that is
  registered, gets a second passkey and a recovery factor and loses the first passkey.
\<close>

definition framed :: "bytes \<Rightarrow> bytes" where
  "framed x = replicate (length x) 1 @ 0 # x"

definition sample_frame :: "bytes \<Rightarrow> bytes \<Rightarrow> bytes \<Rightarrow> bytes" where
  "sample_frame key nonce aad = framed key @ framed nonce @ framed aad"

definition sample_open :: "bytes \<Rightarrow> bytes \<Rightarrow> bytes \<Rightarrow> bytes \<Rightarrow> bytes option" where
  "sample_open key nonce aad c =
     (let f = sample_frame key nonce aad in
      if take (length f) c = f then Some (drop (length f) c) else None)"

definition custody_sample :: "unit custody_prims" where
  "custody_sample =
     \<lparr>cp_prims = sample_prims,
      cp_bip39 = \<lparr>b_nfkd = \<lambda>s. s, b_parse = \<lambda>_. Inr (), b_from_entropy = \<lambda>_. Inr (),
        b_to_string = \<lambda>_. [], b_to_entropy = \<lambda>_. [], b_to_seed = \<lambda>_. []\<rparr>,
      cp_sha256 = \<lambda>b. take 32 b, cp_hkdf = \<lambda>salt key info. Some key,
      cp_encrypt = \<lambda>k n a m. Some (sample_frame k n a @ m), cp_decrypt = sample_open\<rparr>"

lemma framed_prefix: "framed x @ y = framed x' @ y' \<Longrightarrow> x = x' \<and> y = y'"
proof -
  have "replicate m (1::u8) @ 0 # r = replicate n 1 @ 0 # s \<Longrightarrow> m = n \<and> r = s" for m n r s
    by (induction m arbitrary: n) (case_tac n; simp)+
  from this [of "length x" "x @ y" "length x'" "x' @ y'"]
  show "framed x @ y = framed x' @ y' \<Longrightarrow> x = x' \<and> y = y'" by (auto simp: framed_def)
qed

lemma sample_open_other:
  assumes "a' \<noteq> a"
  shows "sample_open k n a' (sample_frame k n a @ m) = None"
proof (rule ccontr)
  let ?f = "sample_frame k n a'" and ?c = "sample_frame k n a @ m"
  assume "sample_open k n a' ?c \<noteq> None"
  then have "take (length ?f) ?c = ?f" by (auto simp: sample_open_def Let_def split: if_splits)
  then have "?c = ?f @ drop (length ?f) ?c" by (metis append_take_drop_id)
  then have "framed a @ m = framed a' @ drop (length ?f) ?c" by (simp add: sample_frame_def)
  then show False using framed_prefix assms by blast
qed

lemma custody_sample_laws: "aead_roundtrip custody_sample" "aead_binds custody_sample"
  by (simp_all add: aead_roundtrip_def aead_binds_def custody_sample_def sample_open_def [of _ _ a "sample_frame _ _ a @ _" for a]
      sample_open_other Let_def)

definition sample_io :: custody_io where
  "sample_io = \<lparr>io_nonce = \<lambda>i. replicate 24 (of_nat i), io_lock = \<lambda>_. True, io_disk = \<lambda>_ _. True\<rparr>"

definition sample_session :: unlocked_wallet where
  "sample_session =
     \<lparr>uw_wallet = ''w1'', uw_root = replicate 16 7, uw_policy_seed = replicate 32 8, uw_wkek = replicate 32 9,
      uw_profile = Bip39Multicurve_V1, uw_entropy_bits = Some 128\<rparr>"

definition sample_custody :: custody where
  "sample_custody =
     (case register_bip39 custody_sample sample_io ''w1'' (replicate 16 7) (replicate 32 8) (replicate 32 9) [1]
             (replicate 32 1) of Inr cu \<Rightarrow> cu)"

definition sample_added :: custody where
  "sample_added = fst (add_credential custody_sample sample_io sample_session [2] (replicate 32 2) sample_custody)"

definition sample_revoked :: custody where
  "sample_revoked = fst (revoke_credential custody_sample sample_io [1] sample_added)"

lemma sample_encrypt [simp]:
  "length k = 32 \<Longrightarrow> encrypt custody_sample n k m a = Inr \<lparr>bl_nonce = n, bl_ciphertext = sample_frame k n a @ m\<rparr>"
  by (simp add: encrypt_def custody_sample_def validate_key_def)

lemma sample_registered: "registered custody_sample sample_io [1] (replicate 32 1) sample_session sample_custody"
  by (simp add: registered_def sample_session_def sample_custody_def entropy_bits_for_def register_bip39_def
      register_with_profile_def validate_key_def Let_def)

lemma sample_io_ok: "nonces_ok sample_io" "\<forall>m. io_lock sample_io m"
  by (simp_all add: nonces_ok_def sample_io_def)

lemma sample_wraps:
  "map (\<lambda>w. (cw_id w, cw_active w)) (cb_wraps (cu_backup sample_custody)) = [([1], True)]"
  "cb_recovery (cu_backup sample_custody) = None" "cu_path sample_custody = None"
  "cb_version (cu_backup sample_custody) = 2"
  by (simp_all add: sample_custody_def entropy_bits_for_def register_bip39_def register_with_profile_def
      validate_key_def Let_def WRAP_FORMAT_CURRENT_def WRAP_FORMAT_V2_def)

lemma sample_add:
  "\<exists>w. add_credential custody_sample sample_io sample_session [2] (replicate 32 2) sample_custody = (sample_added, Inr ())
    \<and> cw_id w = [2] \<and> cw_active w \<and> sample_added = sample_custody\<lparr>cu_backup := (cu_backup sample_custody)
        \<lparr>cb_wraps := cb_wraps (cu_backup sample_custody) @ [w]\<rparr>\<rparr>"
proof -
  have "root_kept custody_sample sample_session (cu_backup sample_custody)"
    using registered_inv [OF sample_registered custody_sample_laws(1) sample_io_ok(1)] by (simp add: custody_inv_iff)
  note recover_wkek_ok [OF this sample_io_ok(2)]
  moreover have "\<not> list_ex (\<lambda>w. cw_id w = [2]) (cb_wraps (cu_backup sample_custody))"
    using sample_wraps(1) by (auto simp: map_eq_Cons_conv)
  ultimately show ?thesis
    by (intro exI [of _ "\<lparr>cw_id = [2], cw_active = True, cw_version = cb_version (cu_backup sample_custody),
        cw_wkek = \<lparr>bl_nonce = io_nonce sample_io 0, bl_ciphertext = sample_frame (replicate 32 2) (io_nonce sample_io 0)
          (credential_aad custody_sample (cb_wallet (cu_backup sample_custody)) [2]
            (root_ciphertext_fingerprint custody_sample (cb_root (cu_backup sample_custody)))
            (cb_version (cu_backup sample_custody))) @ uw_wkek sample_session\<rparr>\<rparr>"])
      (simp add: sample_added_def add_credential_def validate_key_def commit_custody_def persist_custody_def
        sample_wraps(3) Let_def)
qed


lemma sample_revoke: "revoke_credential custody_sample sample_io [1] sample_added = (sample_revoked, Inr ())"
  "active_credential_ids sample_revoked = {[2]}"
proof -
  obtain w where w: "cw_id w = [2]" "cw_active w" "sample_added = sample_custody\<lparr>cu_backup := (cu_backup sample_custody)
        \<lparr>cb_wraps := cb_wraps (cu_backup sample_custody) @ [w]\<rparr>\<rparr>" using sample_add by blast
  obtain v where v: "cb_wraps (cu_backup sample_custody) = [v]" "cw_id v = [1]" "cw_active v"
    using sample_wraps(1) by (auto simp: map_eq_Cons_conv)
  have added: "cb_wraps (cu_backup sample_added) = [v, w]" "cb_recovery (cu_backup sample_added) = None"
    "cu_path sample_added = None" by (simp_all add: w(3) v(1) sample_wraps)
  show r: "revoke_credential custody_sample sample_io [1] sample_added = (sample_revoked, Inr ())"
    unfolding sample_revoked_def using w(1,2) v(2,3) added
    by (simp add: revoke_credential_def commit_custody_def persist_custody_def Let_def)
  have "cb_wraps (cu_backup sample_revoked) = [v\<lparr>cw_active := False\<rparr>, w]"
    using w(1) v(2) by (simp add: conjunct2 [OF revoke_credential_ok [OF r]] added)
  then show "active_credential_ids sample_revoked = {[2]}" using w by (simp add: active_credential_ids_def)
qed

lemma custody_sample_run:
  "(custody_step custody_sample (\<lambda>u. u = sample_session))\<^sup>*\<^sup>* (sample_custody, [[1] \<mapsto> replicate 32 1], None)
     (sample_added, [[1] \<mapsto> replicate 32 1, [2] \<mapsto> replicate 32 2], None)"
  "(custody_step custody_sample (\<lambda>u. u = sample_session))\<^sup>*\<^sup>* (sample_custody, [[1] \<mapsto> replicate 32 1], None)
     (sample_revoked, [[1] \<mapsto> replicate 32 1, [2] \<mapsto> replicate 32 2], None)"
proof -
  obtain w where w: "sample_added = sample_custody\<lparr>cu_backup := (cu_backup sample_custody)
        \<lparr>cb_wraps := cb_wraps (cu_backup sample_custody) @ [w]\<rparr>\<rparr>"
    and a: "add_credential custody_sample sample_io sample_session [2] (replicate 32 2) sample_custody
      = (sample_added, Inr ())" using sample_add by blast
  have "cb_wraps (cu_backup sample_added) \<noteq> cb_wraps (cu_backup sample_custody)" by (simp add: w)
  then have ne: "sample_added \<noteq> sample_custody" by auto
  have "custody_step custody_sample (\<lambda>u. u = sample_session) (sample_custody, [[1] \<mapsto> replicate 32 1], None)
     (sample_added, [[1] \<mapsto> replicate 32 1, [2] \<mapsto> replicate 32 2], None)"
    using custody_step.add [where U = "\<lambda>u. u = sample_session", OF refl sample_io_ok(1) a,
        of "[[1] \<mapsto> replicate 32 1]" None] ne
    by (simp del: fun_upd_apply)
  then show run: "(custody_step custody_sample (\<lambda>u. u = sample_session))\<^sup>*\<^sup>* (sample_custody, [[1] \<mapsto> replicate 32 1], None)
     (sample_added, [[1] \<mapsto> replicate 32 1, [2] \<mapsto> replicate 32 2], None)" by (rule r_into_rtranclp)
  show "(custody_step custody_sample (\<lambda>u. u = sample_session))\<^sup>*\<^sup>* (sample_custody, [[1] \<mapsto> replicate 32 1], None)
     (sample_revoked, [[1] \<mapsto> replicate 32 1, [2] \<mapsto> replicate 32 2], None)"
    using run custody_step.revoke [OF sample_revoke(1)] by (rule rtranclp.rtrancl_into_rtrancl)
qed

theorem custody_keys_open_wallet_witness:
  "unlock_with_credential custody_sample sample_io sample_revoked [2] (replicate 32 2) = Inr sample_session"
  using custody_keys_open_wallet [OF custody_sample_laws(1) sample_io_ok(1) sample_registered custody_sample_run(2) sample_io_ok(2)]
  by (simp add: sample_revoke(2))

theorem revoked_credential_never_unlocks_witness:
  "unlock_with_credential custody_sample sample_io sample_revoked [1] (replicate 32 1) = Inl (err ApprovalRevoked)"
  using revoked_credential_never_unlocks [OF sample_registered custody_sample_run(1) sample_revoke(1) rtranclp.rtrancl_refl,
      of sample_io "replicate 32 1"]
  by simp

theorem edited_metadata_refused_witness:
  "unlock_with_credential custody_sample sample_io
     (sample_custody\<lparr>cu_backup := (cu_backup sample_custody)
        \<lparr>cb_version := 2, cb_profile := LegacySecp, cb_entropy_bits := None\<rparr>\<rparr>) [1] (replicate 32 1)
   = Inl (err UnauthenticatedPeer)"
  by (rule edited_metadata_refused [OF custody_sample_laws sample_io_ok(1) sample_registered])
    (simp add: sample_session_def)

end
