(* ===== verification/Policy_Sample.thy ===== *)
theory Policy_Sample
  imports Policy_Properties Custody_Sample Engine_Sample
begin

text \<open>
  The properties of policies at a concrete run: a wallet gets its first policy, a passkey ceremony
  authorises an update of it, and the update is committed.
\<close>

subsection \<open>A vault whose journal is sound\<close>

definition live_vault :: "prims \<Rightarrow> nat \<Rightarrow> vault \<Rightarrow> bool" where
  "live_vault P n v =
     (let st = vt_engine v in
      keys_good P st \<and> journal_verified P (en_audit st) \<and> \<not> aud_degraded (en_audit st)
      \<and> length (ad_entries (aud_db (en_audit st))) = n \<and> en_surfaces st = None \<and> en_receipts st = [])"

lemma live_mutation: "live_vault P n v \<Longrightarrow> mutation_transaction P (vt_engine v) = (vt_engine v, Inr ())"
  by (simp add: live_vault_def mutation_transaction_def Let_def)

lemma live_transact:
  assumes live: "live_vault P n v" "n \<le> 9" "m = Suc n"
    and body: "body v = rbind (vault_audit P event payload w) (\<lambda>v'. Inr (v', x))"
    and w: "en_audit (vt_engine w) = en_audit (vt_engine v)" "en_surfaces (vt_engine w) = None"
      "en_receipts (vt_engine w) = []"
  shows "\<exists>st. vault_transact P body v = (w\<lparr>vt_engine := st\<rparr>, Inr x) \<and> live_vault P m (w\<lparr>vt_engine := st\<rparr>)"
proof -
  let ?st = "vt_engine w"
  have "n < 2 ^ 63" using live(2) by (rule order_le_less_trans) simp
  then have good: "keys_good P ?st" "journal_verified P (en_audit ?st)" "journal_room ?st"
    using live w by (simp_all add: live_vault_def keys_good_def journal_room_def Let_def)
  from append_audit_ok [OF this] obtain st where st: "append_audit P event payload ?st = Inr st" by blast
  from append_audit_InrD(1) [OF st] obtain e where
    "st = ?st\<lparr>en_audit := (en_audit ?st)\<lparr>aud_db := (aud_db (en_audit ?st))\<lparr>ad_entries := ad_entries (aud_db (en_audit ?st)) @ [e]\<rparr>\<rparr>\<rparr>"
    by blast
  then have "live_vault P m (w\<lparr>vt_engine := st\<rparr>)"
    using append_audit_InrD(2) [OF st good(1)] good live w by (simp add: live_vault_def keys_good_def Let_def)
  moreover have "vault_transact P body v = (w\<lparr>vt_engine := st\<rparr>, Inr x)"
    by (simp add: vault_transact_def live_mutation [OF live(1)] body vault_audit_def st)
  ultimately show ?thesis by blast
qed

subsection \<open>The run\<close>

definition sample_vault :: vault where
  "sample_vault =
     \<lparr>vt_engine = fresh_signer\<lparr>en_surfaces := None\<rparr>, vt_policies = [], vt_authorizations = [], vt_commits = [],
      vt_wallets = [], vt_credentials = [], vt_enrollments = [], vt_key_wallet = Map.empty, vt_receipts = [],
      vt_statuses = []\<rparr>"

definition sample_snapshot :: "u64 \<Rightarrow> bytes \<Rightarrow> policy_snapshot" where
  "sample_snapshot version policy =
     (let s = \<lparr>sn_wallet = ''w1'', sn_version = version, sn_policy = policy, sn_digest = p_sha256 sample_prims policy,
               sn_key_id = ''pk'', sn_verifying_key = replicate 32 8, sn_signature = []\<rparr>
      in s\<lparr>sn_signature := p_sign sample_prims (replicate 32 8) (snapshot_message sample_prims s)\<rparr>)"

definition sample_update :: policy_update where
  "sample_update =
     \<lparr>pu_operation = ''op'', pu_wallet = ''w1'', pu_baseline_version = 1, pu_baseline_digest = p_sha256 sample_prims [1],
      pu_policy = [2], pu_digest = p_sha256 sample_prims [2], pu_diff_digest = ''diff'', pu_assurance = ''a''\<rparr>"

definition sample_validation :: validation_receipt where
  "sample_validation = \<lparr>vr_terms_digest = ''t'', vr_review_manifest = ''m'', vr_broker_key = ''bk'', vr_signature = []\<rparr>"

definition sample_receipt :: commit_receipt where
  "sample_receipt =
     (let r = \<lparr>pc_operation = ''op'', pc_wallet = ''w1'', pc_previous = 1, pc_committed = sample_snapshot 2 [2],
               pc_diff_digest = ''diff'', pc_signer_key = ''pk'', pc_signature = []\<rparr>
      in r\<lparr>pc_signature := p_sign sample_prims (replicate 32 8) (receipt_message sample_prims r)\<rparr>)"

definition sample_result :: custody_result where
  "sample_result =
     \<lparr>cs_surface = Some (legacy_local_surface sample_prims), cs_generation = None, cs_ceremony_kind = PolicyUpdate,
      cs_custody_operation = ''op'', cs_public_status = CsSucceeded, cs_wallet = Some ''w1'', cs_key_refs = [],
      cs_credentials = [], cs_initial_policy = None, cs_digest = ''d'', cs_browser_result = None,
      cs_signer_key = ''sk'', cs_signature = []\<rparr>"

definition sample_commit :: custody_commit where
  "sample_commit =
     \<lparr>ct_result = sample_result, ct_wallets = [], ct_credentials = [], ct_at = 5,
      ct_status = \<lparr>pb_ceremony = ''c'', pb_kind = PolicyUpdate, pb_operation = ''op'', pb_state = CsSucceeded,
        pb_expires_at = 9, pb_url = None, pb_receipt = None\<rparr>,
      ct_allocations = [], ct_effect = PolicyUpdatePending sample_update sample_validation sample_receipt\<rparr>"

definition sample_cas :: policy_cas_request where
  "sample_cas = \<lparr>pq_update = sample_update, pq_ceremony_receipt = sample_result, pq_validation = sample_validation\<rparr>"

lemma sample_sign:
  "sign_policy_snapshot custody_sample ''w1'' version policy ''pk'' sample_session = Inr (sample_snapshot version policy)"
  by (simp add: sign_policy_snapshot_def policy_verifying_key_def sign_policy_message_def sample_session_def
      custody_sample_def sample_snapshot_def Let_def) (simp add: sample_prims_def)

lemma policy_sample_key: "policy_verifying_key custody_sample sample_session = Inr (replicate 32 8)"
  by (simp add: policy_verifying_key_def sample_session_def custody_sample_def sample_prims_def)

lemma policy_sample_laws: "ed25519_laws (cp_prims custody_sample) (\<lambda>_. True)"
  using sample_signs_well by (simp add: ed25519_laws_def custody_sample_def) (simp add: sample_prims_def)

lemma sample_vault_live: "live_vault sample_prims 0 sample_vault"
  using fresh_signer_inv
  by (simp add: live_vault_def sample_vault_def engine_inv_def keys_good_def Let_def fresh_signer_def sample_audit_def)

lemma sample_snapshot_fields [simp]:
  "sn_wallet (sample_snapshot n p) = ''w1''" "sn_version (sample_snapshot n p) = n" "sn_policy (sample_snapshot n p) = p"
  "sn_digest (sample_snapshot n p) = p_sha256 sample_prims p" "sn_key_id (sample_snapshot n p) = ''pk''"
  by (simp_all add: sample_snapshot_def Let_def)

lemma sample_prims_eq [simp]: "cp_prims custody_sample = sample_prims"
  by (simp add: custody_sample_def)

definition sample_row :: "u64 \<Rightarrow> bytes \<Rightarrow> policy_row" where
  "sample_row n p = policy_row_of (sample_snapshot n p) (replicate 32 8)"

lemma sample_install:
  "\<exists>v1. install_initial_policy custody_sample ''w1'' [1] ''pk'' sample_session sample_vault = (v1, Inr (sample_snapshot 1 [1]))
     \<and> live_vault sample_prims 1 v1 \<and> vt_policies v1 = [sample_row 1 [1]] \<and> vt_authorizations v1 = [] \<and> vt_commits v1 = []
     \<and> vt_receipts v1 = []"
proof -
  let ?w = "sample_vault\<lparr>vt_policies := [sample_row 1 [1]]\<rparr>"
  let ?body = "install_initial_policy_tx custody_sample (sample_snapshot 1 [1]) (replicate 32 8)"
  have "vt_policies sample_vault = []" by (simp add: sample_vault_def)
  then have "?body sample_vault = rbind (vault_audit sample_prims ''policy.installed''
      (JObj [(''wallet_id'', JStr ''w1''), (''snapshot'', snapshot_json (sample_snapshot 1 [1])),
             (''policy_signing_key_id'', JStr ''pk'')]) ?w) (\<lambda>v'. Inr (v', sample_snapshot 1 [1]))"
    by (simp add: install_initial_policy_tx_def insert_row_def with_latch_def sample_row_def)
  from live_transact [where body = ?body, OF sample_vault_live _ _ this, of 1] sample_vault_live obtain st where
    "vault_transact sample_prims ?body sample_vault = (?w\<lparr>vt_engine := st\<rparr>, Inr (sample_snapshot 1 [1]))"
    "live_vault sample_prims 1 (?w\<lparr>vt_engine := st\<rparr>)" by (auto simp: live_vault_def Let_def)
  moreover have "install_initial_policy custody_sample ''w1'' [1] ''pk'' sample_session sample_vault
      = vault_transact sample_prims ?body sample_vault"
    by (simp add: install_initial_policy_def sample_sign policy_sample_key) (simp add: sample_session_def)
  ultimately show ?thesis by (intro exI [of _ "?w\<lparr>vt_engine := st\<rparr>"]) (simp add: sample_vault_def)
qed

lemma sample_prepare:
  assumes "vt_policies v = [sample_row 1 [1]]"
  shows "prepare_policy_update_effect custody_sample \<lparr>pp_custody = q, pp_update = sample_update, pp_validation = sample_validation\<rparr>
    sample_session v = Inr (sample_receipt, ct_effect sample_commit)"
proof -
  have "uw_wallet sample_session = ''w1''" "sign_policy_message custody_sample sample_session m
      = Inr (p_sign sample_prims (replicate 32 8) m)" for m
    by (simp_all add: sample_session_def sign_policy_message_def)
  moreover have "checked_add 1 1 = Some (2 :: u64)" by (simp add: checked_add_def)
  ultimately show ?thesis
    using assms sample_sign [of 2 "[2]"]
    by (simp add: prepare_policy_update_effect_def policy_sample_key Let_def sample_commit_def sample_update_def
        sample_receipt_def sample_row_def policy_row_of_def)
qed

lemma sample_ceremony:
  assumes v: "live_vault sample_prims 1 v" "vt_authorizations v = []" "vt_receipts v = []"
  shows "\<exists>v'. commit_custody_snapshot_with_effect sample_prims lb sample_commit v = (v', Inr ())
     \<and> live_vault sample_prims 2 v' \<and> vt_policies v' = vt_policies v \<and> vt_commits v' = vt_commits v
     \<and> vt_authorizations v' = [(''op'', Some \<lparr>pz_update = sample_update, pz_validation = sample_validation,
          pz_ceremony_receipt = sample_result, pz_commit_receipt = sample_receipt\<rparr>)]
     \<and> map cy_result (vt_receipts v') = [Some sample_result]"
proof -
  let ?z = "\<lparr>pz_update = sample_update, pz_validation = sample_validation,
          pz_ceremony_receipt = sample_result, pz_commit_receipt = sample_receipt\<rparr>"
  let ?w = "set_status (ct_status sample_commit) (v\<lparr>vt_wallets := [], vt_credentials := [],
    vt_authorizations := [(''op'', Some ?z)],
    vt_receipts := [\<lparr>cy_operation = ''op'', cy_result = Some sample_result, cy_committed = Some 5\<rparr>]\<rparr>)"
  have r: "ct_result sample_commit = sample_result" "ct_wallets sample_commit = []" "ct_credentials sample_commit = []"
    "ct_at sample_commit = 5" "ct_allocations sample_commit = []"
    "ct_effect sample_commit = PolicyUpdatePending sample_update sample_validation sample_receipt"
    "cs_surface sample_result = Some (legacy_local_surface sample_prims)" "cs_ceremony_kind sample_result = PolicyUpdate"
    "cs_custody_operation sample_result = ''op''" "pu_operation sample_update = ''op''"
    by (simp_all add: sample_commit_def sample_result_def sample_update_def)
  have e: "en_surfaces (vt_engine v) = None" "en_receipts (vt_engine v) = []" using v by (simp_all add: live_vault_def Let_def)
  have "commit_custody_snapshot_tx sample_prims lb sample_commit v =
      rbind (vault_audit sample_prims ''custody.commit'' (commit_json sample_prims sample_commit) ?w) (\<lambda>v'. Inr (v', ()))"
    using v by (simp add: commit_custody_snapshot_tx_def r e require_surface_at_commit_def replace_wallets_def
        replace_credentials_def apply_effect_def apply_policy_pending_def insert_row_def insert_custody_receipt_def
        commit_claimed_def with_latch_def Let_def)
  from live_transact [where body = "commit_custody_snapshot_tx sample_prims lb sample_commit", OF v(1) _ _ this, of 2] obtain st where
    "vault_transact sample_prims (commit_custody_snapshot_tx sample_prims lb sample_commit) v = (?w\<lparr>vt_engine := st\<rparr>, Inr ())"
    "live_vault sample_prims 2 (?w\<lparr>vt_engine := st\<rparr>)" using e by (auto simp: set_status_def)
  then show ?thesis
    by (intro exI [of _ "?w\<lparr>vt_engine := st\<rparr>"])
      (simp add: commit_custody_snapshot_with_effect_def set_status_def)
qed

lemma sample_swap:
  assumes v: "live_vault sample_prims 2 v" "vt_policies v = [sample_row 1 [1]]" "vt_commits v = []"
    "vt_authorizations v = [(''op'', Some \<lparr>pz_update = sample_update, pz_validation = sample_validation,
          pz_ceremony_receipt = sample_result, pz_commit_receipt = sample_receipt\<rparr>)]"
  shows "\<exists>v'. compare_and_swap_policy sample_prims sample_cas v = (v', Inr sample_receipt)
     \<and> live_vault sample_prims 3 v' \<and> vt_policies v' = [sample_row 2 [2]]
     \<and> (\<exists>request. vt_commits v' = [(''op'', request, Some sample_receipt)])"
proof -
  let ?w = "v\<lparr>vt_policies := [sample_row 2 [2]],
    vt_commits := [(''op'', p_jcs sample_prims (policy_cas_json sample_cas), Some sample_receipt)],
    vt_authorizations := []\<rparr>"
  have q: "pq_update sample_cas = sample_update" by (simp add: sample_cas_def)
  have m: "authorization_matches \<lparr>pz_update = sample_update, pz_validation = sample_validation,
          pz_ceremony_receipt = sample_result, pz_commit_receipt = sample_receipt\<rparr> sample_cas"
    by (simp add: authorization_matches_def sample_cas_def sample_result_def sample_update_def)
  have row: "pl_wallet (sample_row 1 [1]) = ''w1''" "pl_version (sample_row 1 [1]) = Some 1"
    "pl_digest (sample_row 1 [1]) = p_sha256 sample_prims [1]" "pc_committed sample_receipt = sample_snapshot 2 [2]"
    by (simp_all add: sample_row_def policy_row_of_def sample_receipt_def Let_def)
  have u: "pu_operation sample_update = ''op''" "pu_wallet sample_update = ''w1''" "pu_baseline_version sample_update = 1"
    "pu_baseline_digest sample_update = p_sha256 sample_prims [1]" "pu_policy sample_update = [2]"
    "pu_digest sample_update = p_sha256 sample_prims [2]" by (simp_all add: sample_update_def)
  have s: "swap_policy sample_update sample_receipt [sample_row 1 [1]] = Inr [sample_row 2 [2]]"
    by (simp add: swap_policy_def row u) (simp add: sample_row_def policy_row_of_def)
  have "compare_and_swap_tx sample_prims sample_cas v = rbind (vault_audit sample_prims ''policy.committed''
      (committed_json sample_update sample_receipt) ?w) (\<lambda>v'. Inr (v', sample_receipt))"
    using v m s by (simp add: compare_and_swap_tx_def commit_policy_tx_def q u row insert_row_def with_latch_def Let_def)
  from live_transact [where body = "compare_and_swap_tx sample_prims sample_cas", OF v(1) _ _ this, of 3] v(1) obtain st where
    "vault_transact sample_prims (compare_and_swap_tx sample_prims sample_cas) v = (?w\<lparr>vt_engine := st\<rparr>, Inr sample_receipt)"
    "live_vault sample_prims 3 (?w\<lparr>vt_engine := st\<rparr>)" by (auto simp: live_vault_def Let_def)
  then show ?thesis
    by (intro exI [of _ "?w\<lparr>vt_engine := st\<rparr>"]) (simp add: compare_and_swap_policy_def q u)
qed

lemma sample_policy_run:
  "\<exists>v3 v4 es request. (policy_step custody_sample)\<^sup>*\<^sup>* (sample_vault, {}) (v4, es)
     \<and> compare_and_swap_policy sample_prims sample_cas v3 = (v4, Inr sample_receipt)
     \<and> live_vault sample_prims 3 v4 \<and> vt_policies v4 = [sample_row 2 [2]]
     \<and> vt_commits v4 = [(''op'', request, Some sample_receipt)]"
proof -
  obtain v1 where i: "install_initial_policy custody_sample ''w1'' [1] ''pk'' sample_session sample_vault
      = (v1, Inr (sample_snapshot 1 [1]))"
    and v1: "live_vault sample_prims 1 v1" "vt_policies v1 = [sample_row 1 [1]]" "vt_authorizations v1 = []"
      "vt_commits v1 = []" "vt_receipts v1 = []"
    using sample_install by blast
  obtain v3 where c: "commit_custody_snapshot_with_effect (cp_prims custody_sample) (\<lambda>_. Inl (err MalformedFrame)) sample_commit v1
      = (v3, Inr ())"
    and v3: "live_vault sample_prims 2 v3" "vt_policies v3 = [sample_row 1 [1]]" "vt_commits v3 = []"
      "vt_authorizations v3 = [(''op'', Some \<lparr>pz_update = sample_update, pz_validation = sample_validation,
          pz_ceremony_receipt = sample_result, pz_commit_receipt = sample_receipt\<rparr>)]"
    using sample_ceremony [OF v1(1,3,5)] v1(2,4) by auto
  obtain v4 request where s: "compare_and_swap_policy (cp_prims custody_sample) sample_cas v3 = (v4, Inr sample_receipt)"
    and v4: "live_vault sample_prims 3 v4" "vt_policies v4 = [sample_row 2 [2]]"
      "vt_commits v4 = [(''op'', request, Some sample_receipt)]"
    using sample_swap [OF v3] by auto
  have "policy_step custody_sample (sample_vault, {}) (v1, {})" using i by (rule policy_step.install)
  moreover have "policy_step custody_sample (v1, {}) (v1, {ct_effect sample_commit})"
    using sample_prepare [OF v1(2)] by (rule policy_step.prepare_update)
  moreover have "policy_step custody_sample (v1, {ct_effect sample_commit}) (v3, {ct_effect sample_commit})"
    using c by (intro policy_step.ceremony) simp_all
  moreover have "policy_step custody_sample (v3, {ct_effect sample_commit}) (v4, {ct_effect sample_commit})"
    using s by (rule policy_step.swap)
  ultimately have "(policy_step custody_sample)\<^sup>*\<^sup>* (sample_vault, {}) (v4, {ct_effect sample_commit})"
    by (meson converse_rtranclp_into_rtranclp r_into_rtranclp)
  with s v4 show ?thesis by auto
qed

lemma sample_no_policies: "no_policies sample_vault"
  by (simp add: no_policies_def sample_vault_def)

theorem policy_history_linear_witness:
  "\<exists>v4 s. engine_policy_snapshot v4 ''w1'' = Inr s \<and> sn_version s = 2 \<and> history ''w1'' v4 = [(1, 2)]
     \<and> verify_policy_backup sample_prims (\<lambda>_. True) s (replicate 32 8) = Inr ()"
proof -
  obtain v4 es where run: "(policy_step custody_sample)\<^sup>*\<^sup>* (sample_vault, {}) (v4, es)"
    and row: "sample_row 2 [2] \<in> set (vt_policies v4)" using sample_policy_run by auto
  have "linear 2 = [(1, 2)]" by (simp add: linear_def numeral_2_eq_2)
  with policy_history_linear [OF policy_sample_laws sample_no_policies run row] show ?thesis
    by (intro exI [of _ v4]) (auto simp: sample_row_def policy_row_of_def)
qed

theorem policy_commit_authorized_witness:
  "\<exists>(v4 :: vault) row c. row \<in> set (vt_receipts v4) \<and> cy_result row = Some c \<and> cs_ceremony_kind c = PolicyUpdate
     \<and> cs_custody_operation c = ''op'' \<and> map fst (vt_commits v4) = [''op'']"
proof -
  obtain v4 es request where run: "(policy_step custody_sample)\<^sup>*\<^sup>* (sample_vault, {}) (v4, es)"
    and commits: "vt_commits v4 = [(''op'', request, Some sample_receipt)]" using sample_policy_run by auto
  have "(''op'', request, Some sample_receipt) \<in> set (vt_commits v4)" by (simp add: commits)
  from policy_commit_authorized [OF policy_sample_laws sample_no_policies run this] commits show ?thesis
    by (intro exI [of _ v4]) auto
qed

theorem policy_commit_idempotent_witness:
  "\<exists>v4. compare_and_swap_policy sample_prims sample_cas v4 = (v4, Inr sample_receipt) \<and> length (vt_commits v4) = 1"
proof -
  obtain v3 v4 where s: "compare_and_swap_policy (cp_prims custody_sample) sample_cas v3 = (v4, Inr sample_receipt)"
    and live: "live_vault sample_prims 3 v4" and commits: "length (vt_commits v4) = 1"
    using sample_policy_run by auto
  from policy_commit_idempotent [OF s rtranclp.rtrancl_refl] live_mutation [OF live] have
    "compare_and_swap_policy sample_prims sample_cas v4 = (v4, Inr sample_receipt)" by simp
  with commits show ?thesis by blast
qed

end
