(* ===== verification/Enrollment.thy ===== *)
theory Enrollment
  imports Ceremony_Store
begin

text \<open>
  Enrolled keys in the engine (\<open>crates/bloom-signer/src/engine.rs\<close>): enrolling a key, a wallet root and a derived
  child, withdrawing a child, refreshing the durable record of a backend, the queries over
  the enrolled keys, and what happens to children whose ceremony did not commit.
  \<open>decode\<close> is \<open>serde_json\<close>'s reading of a stored key reference.
\<close>

subsection \<open>The derivation registry inside the engine\<close>

text \<open>The registry's operations run on the engine's connection and write to its journal. A failed append
  latches the journal, whatever becomes of the transaction; appending is the last step of every
  operation that can fail, so an append failed exactly when the operation succeeds with a
  recorder that accepts everything.\<close>

definition transition_json :: "transition_payload \<Rightarrow> json" where
  "transition_json t =
     JObj [(''wallet_id'', JStr (tp_wallet t)), (''operation_id'', JStr (tp_operation t)),
           (''profile'', JStr (tp_profile t)), (''role'', JStr (tp_role t)),
           (''account'', JNum (unat (tp_account t))), (''index'', JNum (unat (tp_index t))),
           (''path'', JStr (tp_path t)), (''from_state'', jopt (\<lambda>s. JStr (state_str s)) (tp_from t)),
           (''to_state'', JStr (state_str (tp_to t)))]"

definition journal_recorder :: "prims \<Rightarrow> engine recorder" where
  "journal_recorder P event payload st =
     (case append_audit P event (transition_json payload) st of
        Inl (_, e) \<Rightarrow> Inl e
      | Inr st' \<Rightarrow> Inr st')"

definition on_registry ::
  "prims \<Rightarrow> (engine recorder \<Rightarrow> engine rstate \<Rightarrow> engine rstate \<times> 'b result) \<Rightarrow> vault \<Rightarrow> vault \<times> 'b result" where
  "on_registry P operation v =
     (let st = vt_engine v in
      case operation (journal_recorder P) (en_registry st, st) of
        ((reg, st'), Inr x) \<Rightarrow> (v\<lparr>vt_engine := st'\<lparr>en_registry := reg\<rparr>\<rparr>, Inr x)
      | ((reg, st'), Inl e) \<Rightarrow>
          (let failed = is_ok (snd (operation (\<lambda>_ _ aud. Inr aud) (en_registry st, st))) in
           (v\<lparr>vt_engine := st'\<lparr>en_registry := reg,
                en_audit := if failed then latch_audit_degraded_with ''audit_append_failed'' (en_audit st')
                            else en_audit st'\<rparr>\<rparr>, Inl e)))"

definition engine_tombstone :: "prims \<Rightarrow> token \<Rightarrow> string \<Rightarrow> u64 \<Rightarrow> vault \<Rightarrow> vault \<times> unit result" where
  "engine_tombstone P wallet operation now =
     on_registry P (\<lambda>audit. tombstone P audit wallet operation now)"

subsection \<open>Enrolling\<close>

text \<open>\<open>ON CONFLICT DO UPDATE SET key_ref_jcs, available\<close>: a key already enrolled keeps its class and wallet.\<close>

definition refresh_enrolled :: "prims \<Rightarrow> key_ref \<Rightarrow> vault \<Rightarrow> vault" where
  "refresh_enrolled P k v =
     (let row = enrolled_row_of P k ''unscoped''; rows = en_enrolled (vt_engine v);
          hit = (\<lambda>r. ek_fingerprint r = kr_fingerprint k) in
      if list_ex hit rows
      then v\<lparr>vt_engine := (vt_engine v)\<lparr>en_enrolled :=
             map (\<lambda>r. if hit r then r\<lparr>ek_key_ref_jcs := ek_key_ref_jcs row, ek_available := True\<rparr> else r) rows\<rparr>\<rparr>
      else set_enrolled row None v)"

definition enroll_key_tx :: "prims \<Rightarrow> key_ref \<Rightarrow> vault \<Rightarrow> unit vtx" where
  "enroll_key_tx P k v =
     rbind (vault_audit P ''key.enrolled'' (JObj [(''key_ref'', key_ref_json k)]) (refresh_enrolled P k v))
       (\<lambda>v1. Inr (v1, ()))"

definition require_registered :: "vault \<Rightarrow> key_ref \<Rightarrow> unit result" where
  "require_registered v k =
     rbind (key_ref_validate k) (\<lambda>_.
     rbind (key_is_registered (en_backends (vt_engine v)) k) (\<lambda>registered.
       ensure registered (err KeyrefMismatch)))"

definition engine_enroll_key :: "prims \<Rightarrow> key_ref \<Rightarrow> vault \<Rightarrow> vault \<times> unit result" where
  "engine_enroll_key P k v =
     (case require_registered v k of
        Inl e \<Rightarrow> (v, Inl e)
      | Inr _ \<Rightarrow> vault_transact P (enroll_key_tx P k) v)"

definition enroll_for_wallet_tx :: "prims \<Rightarrow> string \<Rightarrow> string \<Rightarrow> token \<Rightarrow> key_ref \<Rightarrow> vault \<Rightarrow> unit vtx" where
  "enroll_for_wallet_tx P authority event wallet k v =
     rbind (vault_audit P event (JObj [(''wallet_id'', JStr wallet), (''key_ref'', key_ref_json k)])
              (set_enrolled (enrolled_row_of P k authority) (Some wallet) v)) (\<lambda>v1. Inr (v1, ()))"

definition enroll_wallet_root_key :: "prims \<Rightarrow> token \<Rightarrow> key_ref \<Rightarrow> vault \<Rightarrow> vault \<times> unit result" where
  "enroll_wallet_root_key P wallet k v =
     (case require_registered v k of
        Inl e \<Rightarrow> (v, Inl e)
      | Inr _ \<Rightarrow> vault_transact P (enroll_for_wallet_tx P ''wallet_root'' ''key.wallet_root_enrolled'' wallet k) v)"

definition enroll_bip39_child :: "prims \<Rightarrow> token \<Rightarrow> key_ref \<Rightarrow> vault \<Rightarrow> vault \<times> unit result" where
  "enroll_bip39_child P wallet k v =
     (case key_ref_validate k of
        Inl e \<Rightarrow> (v, Inl e)
      | Inr _ \<Rightarrow> vault_transact P (enroll_for_wallet_tx P ''derived'' ''key.derived_enrolled'' wallet k) v)"

subsection \<open>Withdrawing\<close>

definition withdraw_enrolled :: "(enrolled_row \<Rightarrow> bool) \<Rightarrow> vault \<Rightarrow> vault" where
  "withdraw_enrolled hit v =
     v\<lparr>vt_engine := (vt_engine v)\<lparr>en_enrolled :=
        map (\<lambda>r. if hit r then r\<lparr>ek_available := False\<rparr> else r) (en_enrolled (vt_engine v))\<rparr>\<rparr>"

definition deactivate_enrolled_bip39_child :: "prims \<Rightarrow> token \<Rightarrow> key_ref \<Rightarrow> vault \<Rightarrow> vault \<times> unit result" where
  "deactivate_enrolled_bip39_child P wallet k v =
     vault_transact P (\<lambda>v.
       let hit = (\<lambda>r. ek_fingerprint r = kr_fingerprint k \<and> vt_key_wallet v (ek_fingerprint r) = Some wallet) in
       if length (filter hit (en_enrolled (vt_engine v))) \<noteq> 1 then abort KeyrefMismatch
       else Inr (withdraw_enrolled hit v, ())) v"

definition refresh_backend_enrollment ::
  "(key_ref \<Rightarrow> decoded_backup result) \<Rightarrow> token \<Rightarrow> key_ref \<Rightarrow> vault \<Rightarrow> vault \<times> unit result" where
  "refresh_backend_enrollment local_backup wallet k v =
     (case rbind (local_backup k) (\<lambda>b.
        update_enrollment wallet
          \<lparr>be_backend = kr_backend k, be_instance = kr_backend_instance k, be_record = db_record b,
           be_pinned = db_registry b\<rparr> v) of
        Inl e \<Rightarrow> (v, Inl e)
      | Inr v' \<Rightarrow> (v', Inr ()))"

subsection \<open>Children without a committed ceremony\<close>

definition derived_row :: "digest32 \<Rightarrow> enrolled_row \<Rightarrow> bool" where
  "derived_row fingerprint r = (ek_fingerprint r = fingerprint \<and> ek_authority r = ''derived'')"

definition tombstone_failed_bip39_account :: "prims \<Rightarrow> key_ref \<Rightarrow> u64 \<Rightarrow> vault \<Rightarrow> vault \<times> unit result" where
  "tombstone_failed_bip39_account P k now v =
     (case kr_derivation k of
        Some (Bip39Multicurve seed _ _) \<Rightarrow>
          (case find (\<lambda>a. al_wallet a = seed \<and> al_fingerprint a = Some (kr_fingerprint k) \<and> al_state a \<noteq> TOMBSTONED)
                  (reg_allocations (en_registry (vt_engine v))) of
             None \<Rightarrow> (v, Inr ())
           | Some a \<Rightarrow>
               engine_tombstone P seed (al_operation a) now (withdraw_enrolled (derived_row (kr_fingerprint k)) v))
      | _ \<Rightarrow> (v, Inr ()))"

definition incomplete_allocation :: "allocation \<Rightarrow> bool" where
  "incomplete_allocation a = (al_state a = ACTIVATED \<and> \<not> al_authority_committed a)"

fun tombstone_incomplete ::
  "prims \<Rightarrow> u64 \<Rightarrow> (token \<times> string \<times> digest32) list \<Rightarrow> vault \<Rightarrow> vault \<times> unit result" where
  "tombstone_incomplete P now [] v = (v, Inr ())"
| "tombstone_incomplete P now ((wallet, operation, fingerprint) # rest) v =
     (case engine_tombstone P wallet operation now (withdraw_enrolled (derived_row fingerprint) v) of
        (v1, Inl e) \<Rightarrow> (v1, Inl e)
      | (v1, Inr _) \<Rightarrow> tombstone_incomplete P now rest v1)"

definition recover_incomplete_bip39_allocations :: "prims \<Rightarrow> u64 \<Rightarrow> vault \<Rightarrow> vault \<times> unit result" where
  "recover_incomplete_bip39_allocations P now v =
     (case collect (\<lambda>a. rbind (ok_or (al_fingerprint a) (err ServiceUnavailable)) (\<lambda>f.
                     Inr (al_wallet a, al_operation a, f)))
             (filter incomplete_allocation (reg_allocations (en_registry (vt_engine v)))) of
        Inl e \<Rightarrow> (v, Inl e)
      | Inr rows \<Rightarrow> tombstone_incomplete P now rows v)"

subsection \<open>Queries\<close>

definition stored_key_refs ::
  "(bytes \<Rightarrow> key_ref option) \<Rightarrow> (enrolled_row \<Rightarrow> bool) \<Rightarrow> vault \<Rightarrow> key_ref list result" where
  "stored_key_refs decode hit v =
     collect (\<lambda>r. ok_or (decode (ek_key_ref_jcs r)) (err MalformedFrame))
       (sort_key ek_fingerprint (filter hit (en_enrolled (vt_engine v))))"

definition enrolled_key_refs :: "(bytes \<Rightarrow> key_ref option) \<Rightarrow> token \<Rightarrow> vault \<Rightarrow> key_ref list result" where
  "enrolled_key_refs decode wallet v =
     stored_key_refs decode (\<lambda>r. ek_available r \<and> ek_authority r = ''wallet_root''
       \<and> vt_key_wallet v (ek_fingerprint r) = Some wallet) v"

definition enrolled_derived_key_refs :: "(bytes \<Rightarrow> key_ref option) \<Rightarrow> key_ref \<Rightarrow> vault \<Rightarrow> key_ref list result" where
  "enrolled_derived_key_refs decode parent v =
     (case find (\<lambda>r. ek_fingerprint r = kr_fingerprint parent \<and> ek_available r \<and> ek_authority r = ''wallet_root'')
             (en_enrolled (vt_engine v)) of
        None \<Rightarrow> Inr []
      | Some root \<Rightarrow>
          rbind (ok_or (vt_key_wallet v (ek_fingerprint root)) (err ServiceUnavailable)) (\<lambda>wallet.
            stored_key_refs decode (\<lambda>r. ek_authority r = ''petal''
              \<and> vt_key_wallet v (ek_fingerprint r) = Some wallet) v))"

datatype key_role = WalletRootKey | DerivedKey

definition engine_key_role :: "key_ref \<Rightarrow> vault \<Rightarrow> key_role result" where
  "engine_key_role k v =
     (case map_option ek_authority (find (\<lambda>r. ek_fingerprint r = kr_fingerprint k) (en_enrolled (vt_engine v))) of
        None \<Rightarrow> Inl (err KeyrefMismatch)
      | Some authority \<Rightarrow>
          if authority = ''wallet_root'' then Inr WalletRootKey
          else if (authority = ''derived'' \<or> authority = ''petal'') \<and> kr_derivation k \<noteq> None then Inr DerivedKey
          else Inl (err KeyrefMismatch))"

definition petal_key_scope_expires_at_ms :: "key_ref \<Rightarrow> vault \<Rightarrow> u64 option result" where
  "petal_key_scope_expires_at_ms k v =
     (case find (\<lambda>s. pr_fingerprint s = kr_fingerprint k) (en_petal_scopes (vt_engine v)) of
        None \<Rightarrow> Inr None
      | Some s \<Rightarrow> rbind (ok_or (pr_expires s) (err MalformedFrame)) (\<lambda>t. Inr (Some t)))"

definition require_enrolled_parent_key :: "prims \<Rightarrow> token \<Rightarrow> key_ref \<Rightarrow> vault \<Rightarrow> unit result" where
  "require_enrolled_parent_key P wallet k v =
     (case find (\<lambda>r. ek_fingerprint r = kr_fingerprint k) (en_enrolled (vt_engine v)) of
        None \<Rightarrow> Inl (err KeyrefMismatch)
      | Some r \<Rightarrow>
          ensure (ek_key_ref_jcs r = p_jcs P (key_ref_json k) \<and> ek_available r
                  \<and> (ek_authority r = ''wallet_root'' \<or> ek_authority r = ''derived'')
                  \<and> vt_key_wallet v (ek_fingerprint r) = Some wallet)
            (err KeyrefMismatch))"

definition require_activated_parent_key :: "prims \<Rightarrow> token \<Rightarrow> key_ref \<Rightarrow> vault \<Rightarrow> unit result" where
  "require_activated_parent_key P wallet k v =
     rbind (require_enrolled_parent_key P wallet k v) (\<lambda>_.
     rbind (key_is_available (en_backends (vt_engine v)) k) (\<lambda>available.
       ensure available (err KeyrefMismatch)))"

datatype credential_state = CredentialActive | CredentialRevoked

record public_credential =
  pd_credential :: bytes
  pd_wallet :: token
  pd_surface :: surface_ref
  pd_created :: u64
  pd_state :: credential_state

definition credential_public :: "(bytes \<Rightarrow> string) \<Rightarrow> token \<Rightarrow> vault \<Rightarrow> public_credential list result" where
  "credential_public b64 wallet v =
     collect (\<lambda>r.
       rbind (ok_or (cd_value r) (err MalformedFrame)) (\<lambda>c.
       rbind (ok_or (cd_created r) (err MalformedFrame)) (\<lambda>created.
         Inr \<lparr>pd_credential = wc_id c, pd_wallet = wallet, pd_surface = wc_surface c, pd_created = created,
              pd_state = CredentialActive\<rparr>)))
       (sort_key (\<lambda>r. b64 (cd_credential r)) (filter (\<lambda>r. cd_wallet r = wallet) (vt_credentials v)))"

definition active_wallet_ids :: "vault \<Rightarrow> token list" where
  "active_wallet_ids v =
     sort (filter (\<lambda>w. w \<notin> fst ` set (en_wallet_tombstones (vt_engine v)))
             (map ws_wallet (en_wallets (vt_engine v))))"

end
