(* ===== verification/Account_Allocation.thy ===== *)
theory Account_Allocation
  imports Enrollment Backend_Registry
begin

text \<open>
  Accounts of a BIP-39 wallet in the engine (\<open>crates/bloom-signer/src/engine.rs\<close>): one custody ceremony allocates
  a child per requested family under one account number, in the derivation registry first, then in the
  wallet's backend and among the enrolled keys; a failure abandons what the ceremony had done. The
  state is the vault with the registry of backends. \<open>None\<close> is the panic of the index
  search; \<open>operation_of\<close> makes an operation identifier of a digest.
\<close>

type_synonym 'k signer = "vault \<times> 'k backends"

definition ROLE_EVM_ACCOUNT :: string where
  "ROLE_EVM_ACCOUNT = ''evm-account''"

definition FAMILY_DOMAIN :: string where
  "FAMILY_DOMAIN = ''bloom-account-family-allocation/v1''"

definition family_operation_id ::
  "prims \<Rightarrow> (digest32 \<Rightarrow> operation_id) \<Rightarrow> operation_id \<Rightarrow> derivation_profile \<Rightarrow> operation_id" where
  "family_operation_id P operation_of custody_operation profile =
     operation_of (p_sha256 P (str_bytes FAMILY_DOMAIN @ [0] @ str_bytes custody_operation @ [0]
                                 @ str_bytes (profile_id profile)))"

text \<open>The question mark: an error ends the sequence and keeps the state reached.\<close>

definition and_then :: "'s \<times> 'a result \<Rightarrow> ('a \<Rightarrow> 's \<Rightarrow> 's \<times> 'b result) \<Rightarrow> 's \<times> 'b result" where
  "and_then p f = (case p of (s, Inl e) \<Rightarrow> (s, Inl e) | (s, Inr x) \<Rightarrow> f x s)"

subsection \<open>One child in the registry\<close>

record activated_child =
  ac_operation :: operation_id
  ac_profile :: derivation_profile
  ac_public :: public_account
  ac_spki :: bytes
  ac_key_spec :: key_spec
  ac_encoding :: public_key_encoding
  ac_fingerprint :: digest32

definition invalid_evm_child :: "('m, 'p) local_prims \<Rightarrow> bytes \<Rightarrow> u32 \<Rightarrow> u32 \<Rightarrow> bool" where
  "invalid_evm_child L seed account index =
     (derive_evm_account (lc_derive L) seed account index = Inl InvalidChild)"

definition child_is_invalid ::
  "('m, 'p) local_prims \<Rightarrow> derivation_profile \<Rightarrow> bytes \<Rightarrow> u32 \<Rightarrow> u32 \<Rightarrow> bool" where
  "child_is_invalid L profile seed account index =
     (case profile of
        Bip44EvmSecp256k1V1 \<Rightarrow> invalid_evm_child L seed account index
      | Bip44SolanaSlip10Ed25519V1 \<Rightarrow> False)"

definition child_public_key ::
  "('m, 'p) local_prims \<Rightarrow> derivation_profile \<Rightarrow> bytes \<Rightarrow> u32 \<Rightarrow> u32
   \<Rightarrow> (bytes \<times> key_spec \<times> public_key_encoding) result" where
  "child_public_key L profile seed account index =
     (case profile of
        Bip44EvmSecp256k1V1 \<Rightarrow>
          (case derive_evm_account (lc_derive L) seed account index of
             Inl _ \<Rightarrow> Inl (err BackendInvalidRequest)
           | Inr d \<Rightarrow> Inr (dsec_spki d, Secp256k1, Secp256k1SpkiDer))
      | Bip44SolanaSlip10Ed25519V1 \<Rightarrow>
          (case derive_solana_account (lc_derive L) seed account of
             Inl _ \<Rightarrow> Inl (err BackendInvalidRequest)
           | Inr d \<Rightarrow> Inr (ded_spki d, Ed25519, Ed25519SpkiDer)))"

definition engine_prepare ::
  "('m, 'p) local_prims \<Rightarrow> token \<Rightarrow> derived_account_request \<Rightarrow> u32 option \<Rightarrow> operation_id \<Rightarrow> bytes \<Rightarrow> u64 \<Rightarrow> vault
   \<Rightarrow> (vault \<times> reservation result) option" where
  "engine_prepare L wallet q target operation seed now v =
     (let P = lc_prims L; st = vt_engine v;
          prepare = (\<lambda>audit. prepare_allocation_at P audit wallet (profile_id (dr_profile q)) (dr_role q)
                      (dr_account q) target operation (child_is_invalid L (dr_profile q) seed) now) in
      case prepare (journal_recorder P) (en_registry st, st) of
        None \<Rightarrow> None
      | Some _ \<Rightarrow>
          Some (on_registry P (\<lambda>audit s. case prepare audit s of Some r \<Rightarrow> r | None \<Rightarrow> (s, Inl (err ServiceUnavailable))) v))"

definition activate_prepared ::
  "('m, 'p) local_prims \<Rightarrow> token \<Rightarrow> operation_id \<Rightarrow> derivation_profile \<Rightarrow> bytes \<Rightarrow> u64 \<Rightarrow> reservation \<Rightarrow> vault
   \<Rightarrow> vault \<times> activated_child result" where
  "activate_prepared L wallet operation profile seed now r v =
     (let P = lc_prims L in
      case child_public_key L profile seed (rv_account r) (rv_index r) of
        Inl e \<Rightarrow> (v, Inl e)
      | Inr (spki, spec, encoding) \<Rightarrow>
          let fingerprint = p_sha256 P spki in
          and_then (on_registry P (\<lambda>audit. commit_index P audit wallet operation now) v) (\<lambda>_ v1.
          and_then (on_registry P (\<lambda>audit. commit_account P audit wallet operation (lc_hex L spki) fingerprint now) v1)
            (\<lambda>_ v2.
          and_then (on_registry P (\<lambda>audit. activate P audit wallet operation now) v2) (\<lambda>public v3.
            (v3, Inr \<lparr>ac_operation = operation, ac_profile = profile, ac_public = public, ac_spki = spki,
                      ac_key_spec = spec, ac_encoding = encoding, ac_fingerprint = fingerprint\<rparr>)))))"

definition activate_bip39_child ::
  "('m, 'p) local_prims \<Rightarrow> token \<Rightarrow> operation_id \<Rightarrow> derived_account_request \<Rightarrow> u32 option \<Rightarrow> bytes \<Rightarrow> u64 \<Rightarrow> vault
   \<Rightarrow> (vault \<times> activated_child result) option" where
  "activate_bip39_child L wallet operation q target seed now v =
     map_option (\<lambda>p. and_then p (activate_prepared L wallet operation (dr_profile q) seed now))
       (engine_prepare L wallet q target operation seed now v)"

subsection \<open>Enrolling a child\<close>

definition family_suites :: "derivation_profile \<Rightarrow> crypto_suite list" where
  "family_suites profile =
     (case profile of
        Bip44EvmSecp256k1V1 \<Rightarrow> [Secp256k1Keccak256Recoverable, Secp256k1Sha256Recoverable]
      | Bip44SolanaSlip10Ed25519V1 \<Rightarrow> [Ed25519Message])"

definition child_key_ref :: "('m, 'p) local_prims \<Rightarrow> token \<Rightarrow> activated_child \<Rightarrow> key_ref" where
  "child_key_ref L wallet c =
     \<lparr>kr_backend = ''local'', kr_backend_instance = wallet,
      kr_locator = p_sha256 (lc_prims L) (str_bytes wallet @ str_bytes (profile_id (ac_profile c))
                     @ str_bytes (pa_path (ac_public c))),
      kr_key_spec = ac_key_spec c, kr_fingerprint = ac_fingerprint c,
      kr_derivation = Some (Bip39Multicurve wallet (ac_profile c) (pa_path (ac_public c)))\<rparr>"

definition child_descriptor ::
  "('m, 'p) local_prims \<Rightarrow> token \<Rightarrow> activated_child \<Rightarrow> unlocked_wallet \<Rightarrow> derived_account_descriptor" where
  "child_descriptor L wallet c u =
     \<lparr>da_key_ref = child_key_ref L wallet c,
      da_wallet_seed_ref = \<lparr>ws_wallet_id = wallet, ws_profile = Bip39MulticurveV1,
        ws_entropy_bits = entropy_bits_of u\<rparr>,
      da_profile = ac_profile c, da_path = pa_path (ac_public c), da_public_key = ac_spki c,
      da_encoding = ac_encoding c, da_fingerprint = ac_fingerprint c, da_suites = family_suites (ac_profile c),
      da_lifecycle = LifecycleActive\<rparr>"

definition enroll_activated_child ::
  "('m, 'p) local_prims \<Rightarrow> disk \<Rightarrow> token \<Rightarrow> activated_child \<Rightarrow> unlocked_wallet \<Rightarrow> u64 \<Rightarrow> 'k signer
   \<Rightarrow> 'k signer \<times> (key_ref \<times> derived_account_descriptor) result" where
  "enroll_activated_child L disk wallet c u now s =
     (case s of (v, reg) \<Rightarrow>
      let P = lc_prims L; k = child_key_ref L wallet c;
          d = \<lparr>kd_key_ref = k, kd_spki = ac_spki c, kd_fingerprint = ac_fingerprint c,
               kd_suites = family_suites (ac_profile c)\<rparr> in
      case registry_register_bip39_child L disk wallet d (Some (ac_operation c)) reg of
        (reg1, Inl cause) \<Rightarrow>
          (case tombstone_failed_bip39_account P k now v of
             (v1, Inl _) \<Rightarrow> ((v1, reg1), Inl (err ServiceUnavailable))
           | (v1, Inr _) \<Rightarrow> ((v1, reg1), Inl cause))
      | (reg1, Inr _) \<Rightarrow>
          (case enroll_bip39_child P wallet k v of
             (v1, Inl cause) \<Rightarrow>
               let (v2, registry_rollback) = tombstone_failed_bip39_account P k now v1;
                   (reg2, backend_rollback) = rollback_local_derived_key L disk k reg1 in
               ((v2, reg2), Inl (if is_ok registry_rollback \<and> is_ok backend_rollback then cause
                                 else err ServiceUnavailable))
           | (v1, Inr _) \<Rightarrow> ((v1, reg1), Inr (k, child_descriptor L wallet c u))))"

subsection \<open>The account number\<close>

text \<open>An invalid EVM child at the chosen number is tombstoned and the next number is taken; beyond the last
  index the derivation fails for another reason, which ends the loop.\<close>

lemma checked_add_shrinks: "checked_add n 1 = Some m \<Longrightarrow> 2 ^ 32 - unat m < 2 ^ 32 - unat (n :: u32)"
  using unat_lt_power [of n] checked_add_SomeD [of n 1 m] by (simp add: diff_less_mono2)

function skip_invalid_children ::
  "('m, 'p) local_prims \<Rightarrow> bytes \<Rightarrow> token \<Rightarrow> u64 \<Rightarrow> u32 \<Rightarrow> registry \<Rightarrow> registry \<times> u32 result" where
  "skip_invalid_children L seed wallet now number reg =
     (if invalid_evm_child L seed 0 number
      then let reg1 = record_invalid_child_tombstone wallet PROFILE_EVM ROLE_EVM_ACCOUNT 0 number now reg in
        case checked_add number 1 of
          None \<Rightarrow> (reg1, Inl (err LimitExceededOperations))
        | Some next \<Rightarrow> skip_invalid_children L seed wallet now next reg1
      else (reg, Inr number))"
  by pat_completeness auto

termination
  by (relation "measure (\<lambda>(L, seed, wallet, now, number, reg). 2 ^ 32 - unat number)")
    (auto dest: checked_add_shrinks)

declare skip_invalid_children.simps [simp del]

definition family_order :: "derived_account_request \<Rightarrow> nat" where
  "family_order q = (case dr_profile q of Bip44EvmSecp256k1V1 \<Rightarrow> 0 | Bip44SolanaSlip10Ed25519V1 \<Rightarrow> 1)"

definition family_target :: "u32 \<Rightarrow> derivation_profile \<Rightarrow> u32 option \<times> u32 option" where
  "family_target number profile =
     (case profile of
        Bip44EvmSecp256k1V1 \<Rightarrow> (None, Some number)
      | Bip44SolanaSlip10Ed25519V1 \<Rightarrow> (Some number, None))"

subsection \<open>Every requested family\<close>

fun tombstone_all :: "prims \<Rightarrow> token \<Rightarrow> u64 \<Rightarrow> operation_id list \<Rightarrow> vault \<Rightarrow> vault \<times> unit result" where
  "tombstone_all P wallet now [] v = (v, Inr ())"
| "tombstone_all P wallet now (operation # rest) v =
     and_then (engine_tombstone P wallet operation now v) (\<lambda>_. tombstone_all P wallet now rest)"

fun activate_children ::
  "('m, 'p) local_prims \<Rightarrow> (digest32 \<Rightarrow> operation_id) \<Rightarrow> token \<Rightarrow> operation_id \<Rightarrow> u32 \<Rightarrow> bytes \<Rightarrow> u64
   \<Rightarrow> derived_account_request list \<Rightarrow> activated_child list \<Rightarrow> vault \<Rightarrow> (vault \<times> activated_child list result) option" where
  "activate_children L operation_of wallet custody_operation number seed now [] activated v =
     Some (v, Inr activated)"
| "activate_children L operation_of wallet custody_operation number seed now (q # rest) activated v =
     (let P = lc_prims L; (account, index) = family_target number (dr_profile q);
          operation = family_operation_id P operation_of custody_operation (dr_profile q) in
      case activate_bip39_child L wallet operation (q\<lparr>dr_account := account\<rparr>) index seed now v of
        None \<Rightarrow> None
      | Some (v1, Inr c) \<Rightarrow>
          activate_children L operation_of wallet custody_operation number seed now rest (activated @ [c]) v1
      | Some (v1, Inl cause) \<Rightarrow>
          Some (and_then (tombstone_all P wallet now (map ac_operation activated) v1) (\<lambda>_ v2. (v2, Inl cause))))"

record allocated_account =
  aa_key_ref :: key_ref
  aa_descriptor :: derived_account_descriptor
  aa_operation :: operation_id

text \<open>The rollbacks all run; their results are combined afterwards.\<close>

fun rollback_enrolled ::
  "('m, 'p) local_prims \<Rightarrow> disk \<Rightarrow> u64 \<Rightarrow> key_ref list \<Rightarrow> 'k signer \<Rightarrow> 'k signer \<times> bool" where
  "rollback_enrolled L disk now [] s = (s, True)"
| "rollback_enrolled L disk now (k # ks) (v, reg) =
     (let (v1, r1) = tombstone_failed_bip39_account (lc_prims L) k now v;
          (reg1, r2) = rollback_local_derived_key L disk k reg;
          (s, ok) = rollback_enrolled L disk now ks (v1, reg1) in
      (s, is_ok r1 \<and> is_ok r2 \<and> ok))"

fun abandon_later :: "prims \<Rightarrow> token \<Rightarrow> u64 \<Rightarrow> operation_id list \<Rightarrow> vault \<Rightarrow> vault \<times> bool" where
  "abandon_later P wallet now [] v = (v, True)"
| "abandon_later P wallet now (operation # rest) v =
     (let (v1, r) = engine_tombstone P wallet operation now v; (v2, ok) = abandon_later P wallet now rest v1 in
      (v2, is_ok r \<and> ok))"

fun enroll_children ::
  "('m, 'p) local_prims \<Rightarrow> disk \<Rightarrow> token \<Rightarrow> unlocked_wallet \<Rightarrow> u64 \<Rightarrow> activated_child list \<Rightarrow> allocated_account list
   \<Rightarrow> 'k signer \<Rightarrow> 'k signer \<times> allocated_account list result" where
  "enroll_children L disk wallet u now [] enrolled s = (s, Inr enrolled)"
| "enroll_children L disk wallet u now (c # pending) enrolled s =
     (case enroll_activated_child L disk wallet c u now s of
        (s1, Inr (k, d)) \<Rightarrow>
          enroll_children L disk wallet u now pending
            (enrolled @ [\<lparr>aa_key_ref = k, aa_descriptor = d, aa_operation = ac_operation c\<rparr>]) s1
      | (s1, Inl cause) \<Rightarrow>
          let ((v2, reg2), ok1) = rollback_enrolled L disk now (map aa_key_ref enrolled) s1;
              (v3, ok2) = abandon_later (lc_prims L) wallet now (map ac_operation pending) v2 in
          ((v3, reg2), Inl (if ok1 \<and> ok2 then cause else err ServiceUnavailable)))"

definition choose_number ::
  "('m, 'p) local_prims \<Rightarrow> token \<Rightarrow> bool \<Rightarrow> bytes \<Rightarrow> u64 \<Rightarrow> vault \<Rightarrow> vault \<times> u32 result" where
  "choose_number L wallet evm seed now v =
     (let reg = en_registry (vt_engine v) in
      case next_account_number reg wallet of
        Inl e \<Rightarrow> (v, Inl e)
      | Inr number \<Rightarrow>
          if evm
          then (case skip_invalid_children L seed wallet now number reg of
                  (reg1, r) \<Rightarrow> (v\<lparr>vt_engine := (vt_engine v)\<lparr>en_registry := reg1\<rparr>\<rparr>, r))
          else (v, Inr number))"

definition allocate_bip39_accounts ::
  "('m, 'p) local_prims \<Rightarrow> 'n custody_prims \<Rightarrow> disk \<Rightarrow> (digest32 \<Rightarrow> operation_id) \<Rightarrow> token \<Rightarrow> operation_id
   \<Rightarrow> derived_account_request list \<Rightarrow> unlocked_wallet \<Rightarrow> u64 \<Rightarrow> 'k signer
   \<Rightarrow> ('k signer \<times> allocated_account list result) option" where
  "allocate_bip39_accounts L C disk operation_of wallet custody_operation requests u now s =
     (case s of (v, reg) \<Rightarrow>
      if requests = [] then Some (s, Inl (err MalformedFrame))
      else case unlocked_bip39_seed C u of
        Inl e \<Rightarrow> Some (s, Inl e)
      | Inr seed \<Rightarrow>
          let ordered = sort_key family_order requests in
          case choose_number L wallet (list_ex (\<lambda>q. dr_profile q = Bip44EvmSecp256k1V1) ordered) seed now v of
            (v1, Inl e) \<Rightarrow> Some ((v1, reg), Inl e)
          | (v1, Inr number) \<Rightarrow>
              (case activate_children L operation_of wallet custody_operation number seed now ordered [] v1 of
                 None \<Rightarrow> None
               | Some (v2, Inl e) \<Rightarrow> Some ((v2, reg), Inl e)
               | Some (v2, Inr activated) \<Rightarrow>
                   Some (enroll_children L disk wallet u now activated [] (v2, reg))))"

subsection \<open>Descriptions\<close>

definition descriptor_row :: "vault \<Rightarrow> token \<Rightarrow> digest32 \<Rightarrow> allocation option" where
  "descriptor_row v wallet fingerprint =
     find (\<lambda>a. al_wallet a = wallet \<and> al_fingerprint a = Some fingerprint
               \<and> (al_state a = ACTIVATED \<or> al_state a = RETIRED)) (reg_allocations (en_registry (vt_engine v)))"

definition stored_entropy_bits :: "vault \<Rightarrow> token \<Rightarrow> u32 result" where
  "stored_entropy_bits v wallet =
     (case map_of (vt_wallets v) wallet of
        None \<Rightarrow> Inl (err KeyrefMismatch)
      | Some encoded \<Rightarrow>
          rbind (ok_or encoded (err MalformedFrame)) (\<lambda>b. ok_or (cb_entropy_bits b) (err MalformedFrame)))"

definition engine_account_descriptor :: "prims \<Rightarrow> key_ref \<Rightarrow> vault \<Rightarrow> derived_account_descriptor option result" where
  "engine_account_descriptor P k v =
     (case kr_derivation k of
        Some (Bip39Multicurve seed profile path) \<Rightarrow>
          if map_option ek_authority (find (\<lambda>r. ek_fingerprint r = kr_fingerprint k) (en_enrolled (vt_engine v)))
             = Some ''petal''
          then Inr None
          else
            rbind (ok_or (descriptor_row v seed (kr_fingerprint k)) (err KeyrefMismatch)) (\<lambda>a.
            rbind (ok_or (al_spki a) (err ServiceUnavailable)) (\<lambda>spki_hex.
            let spec = (if al_key_spec a = ''secp256k1'' then Secp256k1 else Ed25519) in
            if profile_key_spec profile \<noteq> spec then Inl (err KeyrefMismatch)
            else
              rbind (stored_entropy_bits v seed) (\<lambda>bits.
              rbind (ok_or (p_hex_decode P spki_hex) (err MalformedFrame)) (\<lambda>spki.
                Inr (Some \<lparr>da_key_ref = k,
                  da_wallet_seed_ref = \<lparr>ws_wallet_id = seed, ws_profile = Bip39MulticurveV1, ws_entropy_bits = bits\<rparr>,
                  da_profile = profile, da_path = path, da_public_key = spki,
                  da_encoding = (if spec = Secp256k1 then Secp256k1SpkiDer else Ed25519SpkiDer),
                  da_fingerprint = kr_fingerprint k,
                  da_suites = (if spec = Secp256k1
                               then [Secp256k1Keccak256Recoverable, Secp256k1Sha256Recoverable]
                               else [Ed25519Message]),
                  da_lifecycle = (if al_state a = ACTIVATED then LifecycleActive else LifecycleRetired)\<rparr>)))))
      | _ \<Rightarrow> Inr None)"

definition engine_account_descriptors ::
  "prims \<Rightarrow> (bytes \<Rightarrow> key_ref option) \<Rightarrow> token \<Rightarrow> vault \<Rightarrow> derived_account_descriptor list result" where
  "engine_account_descriptors P decode wallet v =
     rbind (stored_key_refs decode (\<lambda>r. ek_available r \<and> ek_authority r = ''derived''
              \<and> vt_key_wallet v (ek_fingerprint r) = Some wallet) v) (\<lambda>ks.
     rbind (collect (\<lambda>k. rbind (engine_account_descriptor P k v) (\<lambda>d. ok_or d (err KeyrefMismatch))) ks) (\<lambda>ds.
       Inr (filter (\<lambda>d. da_lifecycle d \<noteq> LifecycleRetired) ds)))"

subsection \<open>Retiring\<close>

definition retire_bip39_account ::
  "('m, 'p) local_prims \<Rightarrow> disk \<Rightarrow> token \<Rightarrow> key_ref \<Rightarrow> u64 \<Rightarrow> 'k signer \<Rightarrow> 'k signer \<times> unit result" where
  "retire_bip39_account L disk wallet k now s =
     (case s of (v, reg) \<Rightarrow>
      let P = lc_prims L in
      case descriptor_row v wallet (kr_fingerprint k) of
        None \<Rightarrow> (s, Inl (err KeyrefMismatch))
      | Some a \<Rightarrow>
          (case on_registry P (\<lambda>audit. retire P audit wallet (al_operation a) now) v of
             (v1, Inl e) \<Rightarrow> ((v1, reg), Inl e)
           | (v1, Inr _) \<Rightarrow>
               (case registry_retire_bip39_child L disk k reg of
                  (reg1, Inl e) \<Rightarrow> ((v1, reg1), Inl e)
                | (reg1, Inr _) \<Rightarrow>
                    (case deactivate_enrolled_bip39_child P wallet k v1 of
                       (v2, r) \<Rightarrow> ((v2, reg1), r)))))"

end
