(* ===== verification/Recovery_Properties.thy ===== *)
theory Recovery_Properties
  imports Enrollment Registry_Properties Engine_Sample
begin

text \<open>
  What the engine does with derived children whose ceremony never committed: at a restart they are withdrawn and their
  paths buried, and nothing else changes. The operations of the derivation registry that the
  engine runs keep the registry's invariant and never mark a row as committed.
\<close>

abbreviation vault_registry :: "vault \<Rightarrow> registry" where
  "vault_registry v \<equiv> en_registry (vt_engine v)"

abbreviation vault_rows :: "vault \<Rightarrow> allocation list" where
  "vault_rows v \<equiv> reg_allocations (en_registry (vt_engine v))"

definition row_id :: "allocation \<Rightarrow> token \<times> string" where
  "row_id a = (al_wallet a, al_operation a)"

lemma alloc_key_iff: "alloc_key w op a \<longleftrightarrow> row_id a = (w, op)"
  by (simp add: alloc_key_def row_id_def)

subsection \<open>The journal under the registry\<close>

lemma journal_recorder_ok:
  "journal_recorder P event payload st = Inr st' \<Longrightarrow> append_audit P event (transition_json payload) st = Inr st'"
  by (auto simp: journal_recorder_def split: sum.splits)

text \<open>A recorder touches the journal only.\<close>

definition journal_moves :: "engine \<Rightarrow> engine \<Rightarrow> bool" where
  "journal_moves st st' = (\<exists>a. st' = st\<lparr>en_audit := a\<rparr>)"

lemma journal_moves_refl [simp]: "journal_moves st st"
  unfolding journal_moves_def by (rule exI [of _ "en_audit st"]) simp

lemma journal_moves_recorder: "journal_recorder P event payload st = Inr st' \<Longrightarrow> journal_moves st st'"
  using append_audit_InrD(1) [of P event _ st st'] by (auto simp: journal_moves_def dest!: journal_recorder_ok)

lemma tombstone_moves: "tombstone P (journal_recorder P) w op now (s, st) = ((s', st'), r) \<Longrightarrow> journal_moves st st'"
  by (auto simp: tombstone_def commit_or_abort_def Let_def result_simps
      dest: journal_moves_recorder split: sum.splits prod.splits if_splits)

subsection \<open>One tombstone\<close>

lemma find_SomeD: "find p xs = Some x \<Longrightarrow> x \<in> set xs \<and> p x"
  by (auto simp: find_Some_iff)

lemma load_row_in: "a \<in> set (reg_allocations s) \<Longrightarrow> \<exists>b. load_allocation s (al_wallet a) (al_operation a) = Some b"
  by (auto simp: load_allocation_def alloc_key_def find_None_iff simp flip: not_None_eq)

lemma engine_tombstone_ok:
  assumes run: "engine_tombstone P w op now v = (v', Inr u)" and inv: "reg_inv P (vault_registry v)"
  shows "reg_inv P (vault_registry v')"
    and "b \<in> set (vault_rows v') \<Longrightarrow> row_id b = (w, op) \<Longrightarrow> al_state b = TOMBSTONED"
    and "row_id b \<noteq> (w, op) \<Longrightarrow> b \<in> set (vault_rows v') \<longleftrightarrow> b \<in> set (vault_rows v)"
    and "en_enrolled (vt_engine v') = en_enrolled (vt_engine v)"
proof -
  let ?st = "vt_engine v"
  from run obtain reg st where t: "tombstone P (journal_recorder P) w op now (en_registry ?st, ?st) = ((reg, st), Inr u)"
    and v': "v' = v\<lparr>vt_engine := st\<lparr>en_registry := reg\<rparr>\<rparr>"
    by (auto simp: engine_tombstone_def on_registry_def Let_def split: prod.splits sum.splits)
  show "reg_inv P (vault_registry v')" using tombstone_safe [OF inv t] by (simp add: v' safe_step_def)
  from t obtain a where a: "load_allocation (en_registry ?st) w op = Some a"
    and rows: "al_state a = TOMBSTONED \<and> reg_allocations reg = vault_rows v
       \<or> reg_allocations reg = update_rows (alloc_key w op) (\<lambda>a. a\<lparr>al_state := TOMBSTONED, al_updated := sint now\<rparr>) (vault_rows v)"
    by (auto simp: tombstone_def commit_or_abort_def Let_def result_simps split: sum.splits prod.splits if_splits)
  have unique: "b = a" if "b \<in> set (vault_rows v)" "row_id b = (w, op)" for b
    using load_allocation_unique [OF inv that(1)] that(2) a by (auto simp: row_id_def)
  show "al_state b = TOMBSTONED" if "b \<in> set (vault_rows v')" "row_id b = (w, op)"
    using rows that unique by (auto simp: v' update_rows_def alloc_key_iff split: if_splits)
  show "b \<in> set (vault_rows v') \<longleftrightarrow> b \<in> set (vault_rows v)" if "row_id b \<noteq> (w, op)"
    using rows that by (auto simp: v' update_rows_def alloc_key_iff row_id_def split: if_splits)
  show "en_enrolled (vt_engine v') = en_enrolled ?st"
    using tombstone_moves [OF t] by (auto simp: v' journal_moves_def)
qed

lemma withdraw_fields [simp]:
  "en_registry (vt_engine (withdraw_enrolled hit v)) = en_registry (vt_engine v)"
  "en_audit (vt_engine (withdraw_enrolled hit v)) = en_audit (vt_engine v)"
  "en_enrolled (vt_engine (withdraw_enrolled hit v)) =
     map (\<lambda>r. if hit r then r\<lparr>ek_available := False\<rparr> else r) (en_enrolled (vt_engine v))"
  by (simp_all add: withdraw_enrolled_def)

subsection \<open>All of them\<close>

lemma tombstone_incomplete_ok:
  assumes "tombstone_incomplete P now rows v = (v', Inr u)" "reg_inv P (vault_registry v)"
  shows "reg_inv P (vault_registry v')
    \<and> (\<forall>b\<in>set (vault_rows v'). row_id b \<in> (\<lambda>(w, op, f). (w, op)) ` set rows \<longrightarrow> al_state b = TOMBSTONED)
    \<and> (\<forall>b. row_id b \<notin> (\<lambda>(w, op, f). (w, op)) ` set rows \<longrightarrow> (b \<in> set (vault_rows v') \<longleftrightarrow> b \<in> set (vault_rows v)))"
  using assms
proof (induction rows arbitrary: v)
  case Nil
  then show ?case by simp
next
  case (Cons row rows)
  obtain w op f where row: "row = (w, op, f)" by (cases row)
  from Cons.prems(1) obtain v1 where t: "engine_tombstone P w op now (withdraw_enrolled (derived_row f) v) = (v1, Inr ())"
    and rest: "tombstone_incomplete P now rows v1 = (v', Inr u)"
    by (auto simp: row split: prod.splits sum.splits)
  have inv: "reg_inv P (vault_registry (withdraw_enrolled (derived_row f) v))" using Cons.prems(2) by simp
  note one = engine_tombstone_ok [OF t inv]
  note ih = Cons.IH [OF rest one(1)]
  show ?case
  proof (intro conjI ballI allI impI)
    show "reg_inv P (vault_registry v')" using ih by blast
    show "al_state b = TOMBSTONED" if "b \<in> set (vault_rows v')" "row_id b \<in> (\<lambda>(w, op, f). (w, op)) ` set (row # rows)" for b
    proof (cases "row_id b \<in> (\<lambda>(w, op, f). (w, op)) ` set rows")
      case True
      with ih that(1) show ?thesis by blast
    next
      case False
      with that(2) have "row_id b = (w, op)" by (auto simp: row)
      moreover from False ih that(1) have "b \<in> set (vault_rows v1)" by blast
      ultimately show ?thesis using one(2) by blast
    qed
    show "b \<in> set (vault_rows v') \<longleftrightarrow> b \<in> set (vault_rows v)" if "row_id b \<notin> (\<lambda>(w, op, f). (w, op)) ` set (row # rows)" for b
      using ih that one(3) [of b] by (auto simp: row)
  qed
qed

subsection \<open>With a sound journal the recovery succeeds\<close>

definition journal_live :: "prims \<Rightarrow> nat \<Rightarrow> vault \<Rightarrow> bool" where
  "journal_live P room v =
     (keys_good P (vt_engine v) \<and> journal_verified P (en_audit (vt_engine v))
      \<and> length (ad_entries (aud_db (en_audit (vt_engine v)))) + room \<le> 2 ^ 63)"

lemma engine_tombstone_live:
  assumes load: "load_allocation (vault_registry v) w op = Some a" and live: "journal_live P (Suc n) v"
  shows "\<exists>v'. engine_tombstone P w op now v = (v', Inr ()) \<and> journal_live P n v'"
proof (cases "al_state a = TOMBSTONED")
  case True
  then have "engine_tombstone P w op now v = (v, Inr ())"
    using load by (simp add: engine_tombstone_def on_registry_def tombstone_def commit_or_abort_def Let_def)
  with live show ?thesis by (auto simp: journal_live_def)
next
  case False
  let ?st = "vt_engine v"
  let ?payload = "transition_payload_of w op
    (al_profile a, al_role a, as_u32 (al_account a), as_u32 (al_index a), al_path a) (Some (al_state a)) TOMBSTONED"
  have good: "keys_good P ?st" "journal_verified P (en_audit ?st)" "journal_room ?st"
    using live by (simp_all add: journal_live_def journal_room_def)
  from append_audit_ok [OF this] obtain st where
    st: "append_audit P ''derivation.tombstoned'' (transition_json ?payload) ?st = Inr st" by blast
  then have "journal_recorder P ''derivation.tombstoned'' ?payload ?st = Inr st" by (simp add: journal_recorder_def)
  with False load obtain reg where
    "engine_tombstone P w op now v = (v\<lparr>vt_engine := st\<lparr>en_registry := reg\<rparr>\<rparr>, Inr ())"
    by (simp add: engine_tombstone_def on_registry_def tombstone_def commit_or_abort_def Let_def)
  moreover from append_audit_InrD(1) [OF st] append_audit_InrD(2) [OF st good(1)] good live
  have "journal_live P n (v\<lparr>vt_engine := st\<lparr>en_registry := reg\<rparr>\<rparr>)"
    by (auto simp: journal_live_def keys_good_def Let_def)
  ultimately show ?thesis by blast
qed

lemma tombstone_incomplete_live:
  assumes "\<forall>(w, op, f)\<in>set rows. load_allocation (vault_registry v) w op \<noteq> None"
    and "journal_live P (length rows) v" "reg_inv P (vault_registry v)"
  shows "\<exists>v'. tombstone_incomplete P now rows v = (v', Inr ())"
  using assms
proof (induction rows arbitrary: v)
  case Nil
  then show ?case by simp
next
  case (Cons row rows)
  obtain w op f where row: "row = (w, op, f)" by (cases row)
  let ?v = "withdraw_enrolled (derived_row f) v"
  from Cons.prems(1) obtain a where a: "load_allocation (vault_registry ?v) w op = Some a" by (auto simp: row)
  have "journal_live P (Suc (length rows)) ?v" using Cons.prems(2) by (simp add: journal_live_def keys_good_def)
  from engine_tombstone_live [OF a this] obtain v1 where
    t: "engine_tombstone P w op now ?v = (v1, Inr ())" and live: "journal_live P (length rows) v1" by blast
  have inv: "reg_inv P (vault_registry ?v)" using Cons.prems(3) by simp
  from t obtain st where "tombstone P (journal_recorder P) w op now (vault_registry ?v, vt_engine ?v) = ((vault_registry v1, st), Inr ())"
    by (auto simp: engine_tombstone_def on_registry_def Let_def split: prod.splits sum.splits)
  then have run: "(reg_step P (journal_recorder P))\<^sup>*\<^sup>* (vault_registry ?v, vt_engine ?v) (vault_registry v1, st)"
    by (intro r_into_rtranclp) (rule reg_step.step_tombstone)
  have "load_allocation (vault_registry v1) w' op' \<noteq> None" if "(w', op', f') \<in> set rows" for w' op' f'
  proof -
    from that Cons.prems(1) obtain b where "load_allocation (vault_registry ?v) w' op' = Some b" by fastforce
    with load_after_run [OF _ run] inv show ?thesis by fastforce
  qed
  then have "\<forall>(w, op, f)\<in>set rows. load_allocation (vault_registry v1) w op \<noteq> None" by blast
  from Cons.IH [OF this live engine_tombstone_ok(1) [OF t inv]] t show ?case by (simp add: row)
qed

definition incomplete_row :: "allocation \<Rightarrow> (token \<times> string \<times> digest32) result" where
  "incomplete_row a = rbind (ok_or (al_fingerprint a) (err ServiceUnavailable)) (\<lambda>f. Inr (al_wallet a, al_operation a, f))"

lemma collect_incomplete:
  "\<forall>a\<in>set as. al_fingerprint a \<noteq> None \<Longrightarrow>
    \<exists>rows. collect incomplete_row as = Inr rows \<and> map (\<lambda>(w, op, f). (w, op)) rows = map row_id as"
  by (induction as) (auto simp: incomplete_row_def row_id_def)

text \<open>The registry row behind an account key the engine accepts.\<close>

lemma accepted_child:
  assumes "require_key_available P st k = Inr ()" "kr_derivation k = Some (Bip39Multicurve seed profile path)"
    and "\<forall>r\<in>set (en_enrolled st). ek_fingerprint r = kr_fingerprint k \<longrightarrow> ek_authority r \<noteq> ''petal''"
  shows "\<exists>b\<in>set (reg_allocations (en_registry st)). al_wallet b = seed \<and> al_fingerprint b = Some (kr_fingerprint k)
    \<and> al_state b = ACTIVATED"
proof -
  let ?hit = "\<lambda>a. al_wallet a = seed \<and> al_fingerprint a = Some (kr_fingerprint k)"
  let ?e = "find (\<lambda>r. ek_fingerprint r = kr_fingerprint k) (en_enrolled st)"
  have "ek_authority r \<noteq> ''petal''" if "?e = Some r" for r
    using find_SomeD [OF that] assms(3) by blast
  then have "case ?e of None \<Rightarrow> True | Some r \<Rightarrow> ek_authority r \<noteq> ''petal''" by (simp split: option.split)
  with assms(1,2) have "map_option al_state (find ?hit (reg_allocations (en_registry st))) = Some ACTIVATED"
    unfolding require_key_available_def Let_def by (simp add: result_simps split: if_splits)
  then obtain b where "find ?hit (reg_allocations (en_registry st)) = Some b" "al_state b = ACTIVATED" by auto
  with find_SomeD show ?thesis by fast
qed

text \<open>What the recovery does to the rows.\<close>

lemma recovery_ok:
  assumes inv: "reg_inv P (vault_registry v)"
    and live: "journal_live P (length (filter incomplete_allocation (vault_rows v))) v"
  shows "\<exists>v'. recover_incomplete_bip39_allocations P now v = (v', Inr ())
    \<and> (\<forall>b\<in>set (vault_rows v'). al_state b = ACTIVATED \<longrightarrow> b \<in> set (vault_rows v) \<and> al_authority_committed b)
    \<and> (\<forall>b\<in>set (vault_rows v). \<not> incomplete_allocation b \<longrightarrow> b \<in> set (vault_rows v'))"
proof -
  let ?as = "filter incomplete_allocation (vault_rows v)"
  have "\<forall>a\<in>set ?as. al_fingerprint a \<noteq> None"
    using inv_rowD [OF inv] by (fastforce simp: incomplete_allocation_def row_ok_def has_account_def key_published_def
        split: option.splits)
  from collect_incomplete [OF this] obtain rows where
    rows: "collect incomplete_row ?as = Inr rows" "map (\<lambda>(w, op, f). (w, op)) rows = map row_id ?as" by blast
  then have ids: "(\<lambda>(w, op, f). (w, op)) ` set rows = row_id ` set ?as" and len: "length rows = length ?as"
    by (metis set_map, metis length_map)
  have "load_allocation (vault_registry v) w op \<noteq> None" if "(w, op, f) \<in> set rows" for w op f
  proof -
    from that have "(w, op) \<in> row_id ` set ?as" unfolding ids [symmetric] by force
    then obtain a where "a \<in> set (vault_rows v)" "al_wallet a = w" "al_operation a = op" by (auto simp: row_id_def)
    with load_row_in show ?thesis by fastforce
  qed
  then have "\<forall>(w, op, f)\<in>set rows. load_allocation (vault_registry v) w op \<noteq> None" by blast
  from tombstone_incomplete_live [OF this _ inv] live len obtain v' where
    t: "tombstone_incomplete P now rows v = (v', Inr ())" by auto
  note ok = tombstone_incomplete_ok [OF t inv, unfolded ids]
  have run: "recover_incomplete_bip39_allocations P now v = (v', Inr ())"
    using rows(1) t by (simp add: recover_incomplete_bip39_allocations_def incomplete_row_def [abs_def])
  have kept: "b \<in> set (vault_rows v) \<and> al_authority_committed b"
    if "b \<in> set (vault_rows v')" "al_state b = ACTIVATED" for b
  proof -
    from ok that have b: "row_id b \<notin> row_id ` set ?as" by auto
    with ok that(1) have "b \<in> set (vault_rows v)" by blast
    moreover from this b have "\<not> incomplete_allocation b" by (simp add: image_iff) blast
    ultimately show ?thesis using that(2) by (simp add: incomplete_allocation_def)
  qed
  have others: "b \<in> set (vault_rows v')" if "b \<in> set (vault_rows v)" "\<not> incomplete_allocation b" for b
  proof -
    have "row_id b \<notin> row_id ` set ?as"
    proof
      assume "row_id b \<in> row_id ` set ?as"
      then obtain a where "a \<in> set (vault_rows v)" "incomplete_allocation a" "row_id a = row_id b" by auto
      with that load_allocation_unique [OF inv] show False by (metis option.inject prod.inject row_id_def)
    qed
    with ok that(1) show ?thesis by blast
  qed
  from run kept others show ?thesis by blast
qed

text \<open>A restart drops every child whose ceremony did not commit, and only those. In a database whose registry
  satisfies its invariant and whose journal is sound and has room, the recovery at startup
  succeeds; after it every activated allocation belongs to a committed ceremony, every other allocation is exactly as it
  was, and a BIP-39 account key that the engine accepts for signing was allocated by a
  ceremony that had committed.\<close>

theorem uncommitted_children_dropped:
  assumes inv: "reg_inv P (vault_registry v)"
    and live: "journal_live P (length (filter incomplete_allocation (vault_rows v))) v"
  shows "\<exists>v'. recover_incomplete_bip39_allocations P now v = (v', Inr ())
    \<and> (\<forall>b\<in>set (vault_rows v'). al_state b = ACTIVATED \<longrightarrow> al_authority_committed b)
    \<and> (\<forall>b\<in>set (vault_rows v). \<not> incomplete_allocation b \<longrightarrow> b \<in> set (vault_rows v'))
    \<and> (\<forall>k seed profile path.
         kr_derivation k = Some (Bip39Multicurve seed profile path)
         \<and> (\<forall>r\<in>set (en_enrolled (vt_engine v')). ek_fingerprint r = kr_fingerprint k \<longrightarrow> ek_authority r \<noteq> ''petal'')
         \<and> require_key_available P (vt_engine v') k = Inr ()
         \<longrightarrow> (\<exists>b\<in>set (vault_rows v). al_wallet b = seed \<and> al_fingerprint b = Some (kr_fingerprint k)
               \<and> al_state b = ACTIVATED \<and> al_authority_committed b))"
proof -
  from recovery_ok [OF assms] obtain v' where run: "recover_incomplete_bip39_allocations P now v = (v', Inr ())"
    and kept: "\<forall>b\<in>set (vault_rows v'). al_state b = ACTIVATED \<longrightarrow> b \<in> set (vault_rows v) \<and> al_authority_committed b"
    and others: "\<forall>b\<in>set (vault_rows v). \<not> incomplete_allocation b \<longrightarrow> b \<in> set (vault_rows v')" by blast
  have "\<exists>b\<in>set (vault_rows v). al_wallet b = seed \<and> al_fingerprint b = Some (kr_fingerprint k)
      \<and> al_state b = ACTIVATED \<and> al_authority_committed b"
    if "kr_derivation k = Some (Bip39Multicurve seed profile path)"
      "\<forall>r\<in>set (en_enrolled (vt_engine v')). ek_fingerprint r = kr_fingerprint k \<longrightarrow> ek_authority r \<noteq> ''petal''"
      "require_key_available P (vt_engine v') k = Inr ()" for k seed profile path
    using accepted_child [OF that(3,1,2)] kept by blast
  with run kept others show ?thesis by blast
qed

text \<open>The activated, uncommitted account of the registry's sample.\<close>

definition crashed_vault :: vault where
  "crashed_vault =
     \<lparr>vt_engine = fresh_signer\<lparr>en_registry := fst sample_active\<rparr>, vt_policies = [], vt_authorizations = [],
      vt_commits = [], vt_wallets = [], vt_credentials = [], vt_enrollments = [], vt_key_wallet = Map.empty,
      vt_receipts = [], vt_statuses = []\<rparr>"

lemma crashed_vault_ok:
  "reg_inv sample_prims (vault_registry crashed_vault)" "journal_live sample_prims 1 crashed_vault"
  "map al_state (vault_rows crashed_vault) = [ACTIVATED]"
  "length (filter incomplete_allocation (vault_rows crashed_vault)) = 1"
proof -
  show "reg_inv sample_prims (vault_registry crashed_vault)"
    using registry_run.run_inv [OF rtranclp_trans [OF sample_prepared_run sample_active_run]] reg_inv_empty
    by (simp add: crashed_vault_def)
  show "journal_live sample_prims 1 crashed_vault"
    using fresh_signer_inv
    by (simp add: journal_live_def crashed_vault_def engine_inv_def keys_good_def Let_def)
      (simp add: fresh_signer_def sample_audit_def)
  show "map al_state (vault_rows crashed_vault) = [ACTIVATED]"
    "length (filter incomplete_allocation (vault_rows crashed_vault)) = 1"
    by (simp_all add: crashed_vault_def sample_tables incomplete_allocation_def)
qed

theorem uncommitted_children_dropped_witness:
  "\<exists>v'. recover_incomplete_bip39_allocations sample_prims 9 crashed_vault = (v', Inr ())
     \<and> map al_state (vault_rows crashed_vault) = [ACTIVATED]
     \<and> (\<forall>b\<in>set (vault_rows v'). al_state b = ACTIVATED \<longrightarrow> al_authority_committed b)"
  using uncommitted_children_dropped [OF crashed_vault_ok(1), of 9] crashed_vault_ok(2,3,4) by auto

end
