(* ===== verification/Account_Runs.thy ===== *)
theory Account_Runs
  imports Account_Allocation Recovery_Properties
begin

text \<open>
  Runs of the accounts' side of the engine. A step is an operation of the derivation registry with any outcome, the
  commit of a custody ceremony with the allocations it claims, or anything else that leaves the
  registry alone; the state carries the identifiers claimed by committed ceremonies. Allocating accounts is
  such a run, wherever it stops. Shown: whatever ran and wherever it stopped, after the recovery at startup
  an account key is accepted only when a committed ceremony claimed it.
\<close>

subsection \<open>Only ceremonies commit rows\<close>

definition committed_ids :: "allocation list \<Rightarrow> (token \<times> string) set" where
  "committed_ids rows = row_id ` {a \<in> set rows. al_authority_committed a}"

lemma committed_ids_simps [simp]:
  "committed_ids [] = {}"
  "committed_ids (rows @ [a]) = committed_ids rows \<union> (if al_authority_committed a then {row_id a} else {})"
  by (auto simp: committed_ids_def)

lemma committed_ids_update:
  assumes "\<And>a. row_id (f a) = row_id a" "\<And>a. al_authority_committed (f a) = al_authority_committed a"
  shows "committed_ids (update_rows hit f rows) = committed_ids rows"
proof -
  define g where "g a = (if hit a then f a else a)" for a
  have g: "row_id (g a) = row_id a" "al_authority_committed (g a) = al_authority_committed a" for a
    using assms by (simp_all add: g_def)
  have "{a \<in> set (map g rows). al_authority_committed a} = g ` {a \<in> set rows. al_authority_committed a}"
    by (auto simp: g(2))
  then have "committed_ids (map g rows) = committed_ids rows" by (simp add: committed_ids_def image_image g(1))
  moreover have "update_rows hit f rows = map g rows" by (simp add: update_rows_def g_def)
  ultimately show ?thesis by simp
qed

lemma transition_committed:
  "transition P w op from to now s = Inr t \<Longrightarrow> committed_ids (reg_allocations t) = committed_ids (reg_allocations s)"
  by (auto simp: transition_def Let_def committed_ids_update row_id_def split: if_splits)

lemma prepare_rows:
  assumes "prepare_allocation_at P audit w p r req target op invalid now (s, aud) = Some (st', res)"
  shows "reg_allocations (fst st') = reg_allocations s
    \<or> (\<exists>row. reg_allocations (fst st') = reg_allocations s @ [row] \<and> \<not> al_authority_committed row
         \<and> row_id row = (w, op) \<and> al_state row = PREPARED)"
proof (cases "reg_allocations (fst st') = reg_allocations s")
  case False
  then obtain acc s0 counter start skipped rv t aud' where
    s0: "ensure_namespace w p r acc s = Inr s0"
    and res: "reserve_index P audit w p r acc target op now counter start skipped s0 aud = Inr ((t, aud'), rv)"
    and t: "fst st' = t"
    using assms ensure_namespace_tables(1)
    by (fastforce simp: prepare_allocation_at_def Let_def commit_or_abort_def record_invalid_child_tombstone_def
        split: if_splits option.splits sum.splits prod.splits)
  from reserve_index_InrD [OF res] ensure_namespace_tables(1) [OF s0] show ?thesis
    by (auto simp: Let_def t row_id_def)
qed simp

lemma reg_step_committed:
  assumes "reg_step P audit st st'"
  shows "committed_ids (reg_allocations (fst st')) = committed_ids (reg_allocations (fst st))"
  using assms
proof (cases rule: reg_step.cases)
  case (step_prepare w p r req target op invalid now res)
  obtain s aud where "st = (s, aud)" by (cases st)
  with prepare_rows step_prepare show ?thesis by fastforce
next
  case (step_commit_index w op now res)
  then show ?thesis
    by (auto simp: commit_index_def commit_or_abort_def result_simps dest: transition_committed
        split: prod.splits sum.splits if_splits)
next
  case (step_commit_account w op spki fp now res')
  then show ?thesis
    by (auto simp: commit_account_def commit_or_abort_def result_simps Let_def committed_ids_update row_id_def
        split: prod.splits sum.splits if_splits)
next
  case (step_activate w op now acct)
  then show ?thesis
    by (auto simp: activate_def commit_or_abort_def result_simps dest: transition_committed
        split: prod.splits sum.splits if_splits)
next
  case (step_retire w op now u)
  then show ?thesis
    by (auto simp: retire_def commit_or_abort_def result_simps dest: transition_committed
        split: prod.splits sum.splits if_splits)
next
  case (step_tombstone w op now u)
  then show ?thesis
    by (auto simp: tombstone_def commit_or_abort_def result_simps Let_def committed_ids_update row_id_def
        split: prod.splits sum.splits if_splits)
next
  case (step_invalid_child s aud w p r acc i now)
  then show ?thesis by (simp add: record_invalid_child_tombstone_def)
qed

subsection \<open>The commit of a ceremony\<close>

lemma set_status_registry [simp]: "vault_registry (set_status s v) = vault_registry v"
  by (simp add: set_status_def)

lemma commit_generations_registry: "commit_generations r ws v = Inr v' \<Longrightarrow> vault_registry v' = vault_registry v"
  by (induction ws arbitrary: v) (auto simp: result_simps)

lemma replace_registry:
  "replace_wallets ws v = Inr v' \<Longrightarrow> vault_registry v' = vault_registry v"
  "replace_credentials cs now v = Inr v' \<Longrightarrow> vault_registry v' = vault_registry v"
  "insert_custody_receipt r now v = Inr v' \<Longrightarrow> vault_registry v' = vault_registry v"
  by (auto simp: replace_wallets_def replace_credentials_def insert_custody_receipt_def Let_def result_simps
      split: if_splits)

lemma enroll_backend_root_registry:
  "enroll_backend_root P wallet e v = Inr v' \<Longrightarrow> vault_registry v' = vault_registry v"
  by (auto simp: enroll_backend_root_def result_simps split: list.splits if_splits)

lemma apply_effect_registry:
  assumes "apply_effect P lb r now effect v = Inr v'"
  shows "vault_registry v' = vault_registry v"
proof (cases effect)
  case (EnrollKey k scope)
  with assms show ?thesis
    by (auto simp: apply_effect_def apply_enroll_key_def set_enrolled_def release_scope_def insert_scope_def
        refresh_parent_enrollment_def update_enrollment_def Let_def result_simps split: option.splits if_splits)
next
  case (InitialPolicy s key e)
  with assms show ?thesis
    by (cases e) (auto simp: apply_effect_def apply_initial_policy_def Let_def result_simps
        dest!: enroll_backend_root_registry)
qed (use assms in \<open>auto simp: apply_effect_def apply_policy_pending_def result_simps\<close>)

lemma vault_audit_registry: "vault_audit P event payload v = Inr v' \<Longrightarrow> vault_registry v' = vault_registry v"
  by (auto simp: vault_audit_def result_simps dest!: append_audit_InrD(1))

text \<open>A claim marks one activated row.\<close>

lemma commit_allocations_ids:
  assumes "commit_allocations claims reg = Inr reg'" "reg_inv P reg"
  shows "reg_inv P reg' \<and> committed_ids (reg_allocations reg') \<subseteq> committed_ids (reg_allocations reg) \<union> set claims"
  using assms
proof (induction claims arbitrary: reg)
  case Nil
  then show ?case by simp
next
  case (Cons claim claims)
  obtain w op where claim: "claim = (w, op)" by (cases claim)
  let ?f = "\<lambda>a. a\<lparr>al_authority_committed := True\<rparr>"
  let ?reg = "reg\<lparr>reg_allocations := update_rows (allocation_claimed w op) ?f (reg_allocations reg)\<rparr>"
  have "commit_allocations claims ?reg = Inr reg'"
    using Cons.prems(1) by (simp add: claim update_rows_def split: if_splits)
  moreover have "reg_inv P ?reg"
    by (rule inv_update_rows [OF Cons.prems(2)])
      (auto simp: row_forward_def same_keys_def row_defs dest!: inv_rowD [OF Cons.prems(2)] split: option.splits)
  ultimately have "reg_inv P reg' \<and> committed_ids (reg_allocations reg') \<subseteq> committed_ids (reg_allocations ?reg) \<union> set claims"
    by (rule Cons.IH)
  moreover have "committed_ids (reg_allocations ?reg) \<subseteq> committed_ids (reg_allocations reg) \<union> {(w, op)}"
    by (auto simp: committed_ids_def update_rows_def allocation_claimed_def row_id_def image_iff split: if_splits)
  ultimately show ?case by (auto simp: claim)
qed

lemma commit_custody_ids:
  assumes "commit_custody_snapshot_tx P lb c v = Inr (v', x)" "reg_inv P (vault_registry v)"
  shows "reg_inv P (vault_registry v')
    \<and> committed_ids (vault_rows v') \<subseteq> committed_ids (vault_rows v) \<union> set (ct_allocations c)"
proof -
  from assms(1) obtain v1 v2 v3 v4 v5 v6 where "commit_generations (ct_result c) (ct_wallets c) v = Inr v1"
    and "replace_wallets (ct_wallets c) v1 = Inr v2" and "replace_credentials (ct_credentials c) (ct_at c) v2 = Inr v3"
    and "apply_effect P lb (ct_result c) (ct_at c) (ct_effect c) v3 = Inr v4"
    and "insert_custody_receipt (ct_result c) (ct_at c) v4 = Inr v5"
    and claimed: "commit_claimed (ct_allocations c) v5 = Inr v6"
    and a: "vault_audit P ''custody.commit'' (commit_json P c) (set_status (ct_status c) v6) = Inr v'"
    by (auto simp: commit_custody_snapshot_tx_def with_latch_def result_simps split: sum.splits)
  then have "vault_registry v5 = vault_registry v"
    by (auto dest!: commit_generations_registry replace_registry apply_effect_registry)
  moreover from claimed have "commit_allocations (ct_allocations c) (vault_registry v5) = Inr (vault_registry v6)"
    by (auto simp: commit_claimed_def result_simps)
  moreover have "vault_registry v' = vault_registry v6" using vault_audit_registry [OF a] by simp
  ultimately show ?thesis using commit_allocations_ids assms(2) by metis
qed

subsection \<open>Steps\<close>

type_synonym account_state = "vault \<times> (token \<times> string) set"

inductive account_step :: "prims \<Rightarrow> account_state \<Rightarrow> account_state \<Rightarrow> bool" for P where
  registry: "reg_step P (audit :: engine recorder) (vault_registry v, aud) (vault_registry v', aud') \<Longrightarrow> account_step P (v, ids) (v', ids)"
| other: "vault_registry v' = vault_registry v \<Longrightarrow> account_step P (v, ids) (v', ids)"
| ceremony: "commit_custody_snapshot_with_effect P lb c v = (v', Inr ())
    \<Longrightarrow> account_step P (v, ids) (v', ids \<union> set (ct_allocations c))"

definition account_inv :: "prims \<Rightarrow> account_state \<Rightarrow> bool" where
  "account_inv P s = (reg_inv P (vault_registry (fst s)) \<and> committed_ids (vault_rows (fst s)) \<subseteq> snd s)"

lemma account_step_inv:
  assumes "account_step P s t" "account_inv P s"
  shows "account_inv P t \<and> snd s \<subseteq> snd t"
  using assms(1)
proof (cases rule: account_step.cases)
  case (registry audit v aud v' aud' ids)
  with reg_step_safe [OF registry(3)] reg_step_committed [OF registry(3)] assms(2) show ?thesis
    by (simp add: account_inv_def safe_step_def)
next
  case (other v' v ids)
  with assms(2) show ?thesis by (simp add: account_inv_def)
next
  case (ceremony lb c v v' ids)
  from ceremony(3) have "commit_custody_snapshot_tx P lb c v = Inr (v', ())"
    by (auto simp: commit_custody_snapshot_with_effect_def vault_transact_def mutation_transaction_def
        split: prod.splits sum.splits if_splits)
  from commit_custody_ids [OF this] assms(2) ceremony(1,2) show ?thesis
    by (auto simp: account_inv_def)
qed

interpretation accounts: transition_system "account_step P" "account_inv P" "\<lambda>s t. snd s \<subseteq> snd t" for P
  by unfold_locales (use account_step_inv in blast)+

text \<open>C20: An account key signs after a restart only when its ceremony committed. From an empty registry, after any
  sequence of registry operations, ceremonies and anything else, broken off anywhere, let the
  journal be sound: then the recovery at startup succeeds, and every BIP-39 account key the engine
  accepts for signing afterwards has an activated allocation that a committed custody ceremony claimed.\<close>

theorem account_key_needs_ceremony:
  assumes run: "(account_step P)\<^sup>*\<^sup>* (v0, {}) (v, ids)" and start: "vault_registry v0 = empty_registry"
    and live: "journal_live P (length (filter incomplete_allocation (vault_rows v))) v"
  shows "\<exists>v'. recover_incomplete_bip39_allocations P now v = (v', Inr ())
    \<and> (\<forall>k seed profile path.
         kr_derivation k = Some (Bip39Multicurve seed profile path)
         \<and> (\<forall>r\<in>set (en_enrolled (vt_engine v')). ek_fingerprint r = kr_fingerprint k \<longrightarrow> ek_authority r \<noteq> ''petal'')
         \<and> require_key_available P (vt_engine v') k = Inr ()
         \<longrightarrow> (\<exists>operation. (seed, operation) \<in> ids
               \<and> (\<exists>b\<in>set (vault_rows v). row_id b = (seed, operation) \<and> al_state b = ACTIVATED
                    \<and> al_fingerprint b = Some (kr_fingerprint k))))"
proof -
  have "account_inv P (v0, {})" using reg_inv_empty by (simp add: account_inv_def start empty_registry_def)
  then have inv: "reg_inv P (vault_registry v)" and ids: "committed_ids (vault_rows v) \<subseteq> ids"
    using accounts.run_inv [OF run] by (simp_all add: account_inv_def)
  from recovery_ok [OF inv live] obtain v' where r: "recover_incomplete_bip39_allocations P now v = (v', Inr ())"
    and kept: "\<And>b. b \<in> set (vault_rows v') \<Longrightarrow> al_state b = ACTIVATED \<Longrightarrow> b \<in> set (vault_rows v) \<and> al_authority_committed b"
    by blast
  have "\<exists>operation. (seed, operation) \<in> ids \<and> (\<exists>b\<in>set (vault_rows v). row_id b = (seed, operation)
      \<and> al_state b = ACTIVATED \<and> al_fingerprint b = Some (kr_fingerprint k))"
    if "kr_derivation k = Some (Bip39Multicurve seed profile path)"
      "\<forall>r\<in>set (en_enrolled (vt_engine v')). ek_fingerprint r = kr_fingerprint k \<longrightarrow> ek_authority r \<noteq> ''petal''"
      "require_key_available P (vt_engine v') k = Inr ()" for k seed profile path
  proof -
    from accepted_child [OF that(3,1,2)] obtain b where b: "b \<in> set (vault_rows v')" "al_wallet b = seed"
      "al_fingerprint b = Some (kr_fingerprint k)" "al_state b = ACTIVATED" by blast
    with kept have "b \<in> set (vault_rows v)" "al_authority_committed b" by blast+
    with b ids show ?thesis by (intro exI [of _ "al_operation b"]) (force simp: committed_ids_def row_id_def)
  qed
  with r show ?thesis by blast
qed

end
