(* ===== verification/Account_Properties.thy ===== *)
theory Account_Properties
  imports Account_Runs
begin

text \<open>
  Allocating accounts of a BIP-39 wallet: it is a run of account steps whatever its outcome, and when it succeeds
  every requested family has its child at one common account number, activated in the registry and
  enrolled for the wallet.
\<close>

subsection \<open>Allocation is a run\<close>

definition account_moves :: "prims \<Rightarrow> vault \<Rightarrow> vault \<Rightarrow> bool" where
  "account_moves P v v' = (\<forall>ids. (account_step P)\<^sup>*\<^sup>* (v, ids) (v', ids))"

lemma account_moves_refl [simp, intro]: "account_moves P v v"
  by (simp add: account_moves_def)

lemma account_moves_trans [trans]: "account_moves P u v \<Longrightarrow> account_moves P v w \<Longrightarrow> account_moves P u w"
  unfolding account_moves_def by (meson rtranclp_trans)

lemma account_moves_other: "vault_registry v' = vault_registry v \<Longrightarrow> account_moves P v v'"
  by (simp add: account_moves_def account_step.other r_into_rtranclp)

lemma registry_run_moves:
  assumes "(reg_step P (audit :: engine recorder))\<^sup>*\<^sup>* (vault_registry v, aud) st"
  shows "account_moves P v (v\<lparr>vt_engine := (vt_engine v)\<lparr>en_registry := fst st\<rparr>\<rparr>)"
  using assms
proof (induction rule: rtranclp_induct)
  case base
  show ?case by (intro account_moves_other) simp
next
  case (step st st')
  let ?at = "\<lambda>st. v\<lparr>vt_engine := (vt_engine v)\<lparr>en_registry := fst st\<rparr>\<rparr>"
  have "account_step P (?at st, ids) (?at st', ids)" for ids
    by (rule account_step.registry [of _ audit _ "snd st" _ "snd st'"]) (use step.hyps(2) in simp)
  then have "account_moves P (?at st) (?at st')" by (simp add: account_moves_def r_into_rtranclp)
  with step.IH show ?case by (rule account_moves_trans)
qed

lemma on_registry_moves:
  assumes "on_registry P f v = (v', r)"
    and "\<And>st' x. f (journal_recorder P) (vault_registry v, vt_engine v) = (st', x)
           \<Longrightarrow> reg_step P (journal_recorder P) (vault_registry v, vt_engine v) st'"
  shows "account_moves P v v'"
proof -
  obtain reg st x where f: "f (journal_recorder P) (vault_registry v, vt_engine v) = ((reg, st), x)"
    by (metis surj_pair)
  with assms(1) have "vault_registry v' = reg"
    by (auto simp: on_registry_def Let_def split: sum.splits)
  with assms(2) [OF f] have "account_step P (v, ids) (v', ids)" for ids
    by (intro account_step.registry) auto
  then show ?thesis by (simp add: account_moves_def r_into_rtranclp)
qed

lemma engine_tombstone_moves: "engine_tombstone P w op now v = (v', r) \<Longrightarrow> account_moves P v v'"
  unfolding engine_tombstone_def by (erule on_registry_moves) (rule reg_step.step_tombstone)

lemma withdraw_moves [intro]: "account_moves P v (withdraw_enrolled hit v)"
  by (intro account_moves_other) simp

lemma tombstone_failed_moves: "tombstone_failed_bip39_account P k now v = (v', r) \<Longrightarrow> account_moves P v v'"
  by (auto simp: tombstone_failed_bip39_account_def intro: account_moves_trans dest!: engine_tombstone_moves
      split: option.splits derivation_ref.splits)

lemma enroll_child_registry:
  assumes "enroll_bip39_child P wallet k v = (v', r)"
  shows "vault_registry v' = vault_registry v"
  using assms
  by (auto simp: enroll_bip39_child_def vault_transact_def mutation_transaction_def enroll_for_wallet_tx_def
      result_simps set_enrolled_def dest!: vault_audit_registry split: prod.splits sum.splits if_splits)

lemma and_then_Inr: "and_then p f = (s', Inr y) \<longleftrightarrow> (\<exists>s1 x. p = (s1, Inr x) \<and> f x s1 = (s', Inr y))"
  by (auto simp: and_then_def split: prod.splits sum.splits)

lemma and_then_moves:
  assumes "and_then p f = (v', r)" "account_moves P v (fst p)"
    and "\<And>x v1 v2 r'. f x v1 = (v2, r') \<Longrightarrow> account_moves P v1 v2"
  shows "account_moves P v v'"
  using assms by (auto simp: and_then_def split: prod.splits sum.splits intro: account_moves_trans)

lemma activate_prepared_moves:
  assumes "activate_prepared L wallet operation profile seed now r v = (v', x)"
  shows "account_moves (lc_prims L) v v'"
proof (cases "child_public_key L profile seed (rv_account r) (rv_index r)")
  case (Inl e)
  with assms show ?thesis by (simp add: activate_prepared_def)
next
  case (Inr key)
  obtain spki spec encoding where key: "key = (spki, spec, encoding)" by (cases key)
  let ?P = "lc_prims L"
  have index: "account_moves ?P u (fst (on_registry ?P (\<lambda>audit. commit_index ?P audit wallet operation now) u))"
    and account: "account_moves ?P u (fst (on_registry ?P
      (\<lambda>audit. commit_account ?P audit wallet operation (lc_hex L spki) (p_sha256 ?P spki) now) u))"
    and activate: "account_moves ?P u (fst (on_registry ?P (\<lambda>audit. activate ?P audit wallet operation now) u))" for u
    by (rule on_registry_moves [OF surjective_pairing],
        rule reg_step.step_commit_index reg_step.step_commit_account reg_step.step_activate, assumption)+
  from assms show ?thesis
    unfolding activate_prepared_def Inr key Let_def sum.case prod.case
    by (elim and_then_moves) (auto intro: index account activate)
qed

lemma engine_prepare_moves:
  assumes "engine_prepare L wallet q target operation seed now v = Some (v', r)"
  shows "account_moves (lc_prims L) v v'"
proof -
  let ?P = "lc_prims L"
  let ?prepare = "\<lambda>audit. prepare_allocation_at ?P audit wallet (profile_id (dr_profile q)) (dr_role q)
                      (dr_account q) target operation (child_is_invalid L (dr_profile q) seed) now"
  from assms obtain p where p: "?prepare (journal_recorder ?P) (vault_registry v, vt_engine v) = Some p"
    and run: "on_registry ?P (\<lambda>audit s. case ?prepare audit s of Some r \<Rightarrow> r | None \<Rightarrow> (s, Inl (err ServiceUnavailable))) v
      = (v', r)"
    by (auto simp: engine_prepare_def Let_def split: option.splits)
  show ?thesis
    using run by (rule on_registry_moves) (use p in \<open>auto intro: reg_step.step_prepare\<close>)
qed

lemma activate_child_moves:
  assumes "activate_bip39_child L wallet operation q target seed now v = Some (v', r)"
  shows "account_moves (lc_prims L) v v'"
proof -
  from assms obtain p where p: "engine_prepare L wallet q target operation seed now v = Some p"
    and run: "and_then p (activate_prepared L wallet operation (dr_profile q) seed now) = (v', r)"
    by (auto simp: activate_bip39_child_def)
  have "account_moves (lc_prims L) v (fst p)" using p by (cases p) (auto dest: engine_prepare_moves)
  with run show ?thesis by (rule and_then_moves) (rule activate_prepared_moves)
qed

lemma tombstone_all_moves: "tombstone_all P wallet now ops v = (v', r) \<Longrightarrow> account_moves P v v'"
  by (induction ops arbitrary: v)
    (auto simp: and_then_def intro: account_moves_trans dest!: engine_tombstone_moves split: prod.splits sum.splits)

lemma activate_children_moves:
  "activate_children L operation_of wallet custody number seed now qs activated v = Some (v', r)
   \<Longrightarrow> account_moves (lc_prims L) v v'"
proof (induction qs arbitrary: activated v)
  case Nil
  then show ?case by simp
next
  case (Cons q qs)
  let ?P = "lc_prims L"
  obtain account index where target: "family_target number (dr_profile q) = (account, index)" by fastforce
  from Cons.prems obtain v1 x where a: "activate_bip39_child L wallet
      (family_operation_id ?P operation_of custody (dr_profile q)) (q\<lparr>dr_account := account\<rparr>) index seed now v = Some (v1, x)"
    by (auto simp: target Let_def split: option.splits)
  note m = activate_child_moves [OF a]
  show ?case
  proof (cases x)
    case (Inl cause)
    with Cons.prems a m show ?thesis
      by (auto simp: target Let_def and_then_def intro: account_moves_trans dest!: tombstone_all_moves
          split: prod.splits sum.splits)
  next
    case (Inr c)
    with Cons.prems a have "activate_children L operation_of wallet custody number seed now qs (activated @ [c]) v1 = Some (v', r)"
      by (simp add: target Let_def)
    from m Cons.IH [OF this] show ?thesis by (rule account_moves_trans)
  qed
qed

lemma rollback_moves:
  "rollback_enrolled L disk now ks (v, reg) = ((v', reg'), ok) \<Longrightarrow> account_moves (lc_prims L) v v'"
  by (induction ks arbitrary: v reg ok)
    (auto simp: Let_def intro: account_moves_trans dest!: tombstone_failed_moves split: prod.splits)

lemma abandon_later_moves: "abandon_later P wallet now ops v = (v', ok) \<Longrightarrow> account_moves P v v'"
  by (induction ops arbitrary: v ok)
    (auto simp: Let_def intro: account_moves_trans dest!: engine_tombstone_moves split: prod.splits)

lemma enroll_child_moves:
  "enroll_activated_child L disk wallet c u now (v, reg) = ((v', reg'), r) \<Longrightarrow> account_moves (lc_prims L) v v'"
  by (auto simp: enroll_activated_child_def Let_def intro: account_moves_trans account_moves_other
      dest!: tombstone_failed_moves enroll_child_registry [THEN account_moves_other, of _ _ _ _ _ _ "lc_prims L"]
      split: prod.splits sum.splits)

lemma enroll_children_moves:
  "enroll_children L disk wallet u now cs enrolled (v, reg) = ((v', reg'), r) \<Longrightarrow> account_moves (lc_prims L) v v'"
proof (induction cs arbitrary: enrolled v reg)
  case Nil
  then show ?case by simp
next
  case (Cons c cs)
  obtain v1 reg1 x where e: "enroll_activated_child L disk wallet c u now (v, reg) = ((v1, reg1), x)" by (metis surj_pair)
  note m = enroll_child_moves [OF e]
  show ?case
  proof (cases x)
    case (Inl cause)
    with Cons.prems e m show ?thesis
      by (auto simp: Let_def intro: account_moves_trans dest!: rollback_moves abandon_later_moves split: prod.splits)
  next
    case (Inr kd)
    obtain k d where "kd = (k, d)" by (cases kd)
    with Inr Cons.prems e have "\<exists>enrolled'. enroll_children L disk wallet u now cs enrolled' (v1, reg1) = ((v', reg'), r)" by auto
    with Cons.IH m show ?thesis by (blast intro: account_moves_trans)
  qed
qed

lemma skip_invalid_run:
  "skip_invalid_children L seed wallet now number reg = (reg', r) \<Longrightarrow> (reg_step P audit)\<^sup>*\<^sup>* (reg, aud) (reg', aud)"
proof (induction L seed wallet now number reg arbitrary: reg' r rule: skip_invalid_children.induct)
  case (1 L seed wallet now number reg)
  let ?reg = "record_invalid_child_tombstone wallet PROFILE_EVM ROLE_EVM_ACCOUNT 0 number now reg"
  have step: "reg_step P audit (reg, aud) (?reg, aud)" by (rule reg_step.step_invalid_child)
  show ?case
  proof (cases "invalid_evm_child L seed 0 number")
    case False
    with "1.prems" show ?thesis by (simp add: skip_invalid_children.simps [of L seed wallet now number reg])
  next
    case True
    show ?thesis
    proof (cases "checked_add number 1")
      case None
      with True "1.prems" step show ?thesis
        by (auto simp: skip_invalid_children.simps [of L seed wallet now number reg] Let_def)
    next
      case (Some next')
      with True "1.prems" have "skip_invalid_children L seed wallet now next' ?reg = (reg', r)"
        by (simp add: skip_invalid_children.simps [of L seed wallet now number reg] Let_def)
      with "1.IH" [OF True refl Some] step show ?thesis by (meson converse_rtranclp_into_rtranclp)
    qed
  qed
qed

lemma choose_number_moves:
  assumes "choose_number L wallet evm seed now v = (v', r)"
  shows "account_moves P v v'"
  using assms
  by (auto simp: choose_number_def Let_def split: sum.splits if_splits prod.splits
      dest!: skip_invalid_run [where P = P and audit = "\<lambda>_ _ a. Inr a" and aud = "vt_engine v"] registry_run_moves)

lemma skip_invalid_rows:
  "skip_invalid_children L seed wallet now number reg = (reg', r) \<Longrightarrow> reg_allocations reg' = reg_allocations reg"
proof (induction L seed wallet now number reg arbitrary: reg' r rule: skip_invalid_children.induct)
  case (1 L seed wallet now number reg)
  let ?reg = "record_invalid_child_tombstone wallet PROFILE_EVM ROLE_EVM_ACCOUNT 0 number now reg"
  have "reg_allocations ?reg = reg_allocations reg" by (simp add: record_invalid_child_tombstone_def)
  with "1.prems" "1.IH" show ?case
    by (fastforce simp: skip_invalid_children.simps [of L seed wallet now number reg] Let_def
        split: if_splits option.splits)
qed

lemma choose_number_rows: "choose_number L wallet evm seed now v = (v', r) \<Longrightarrow> vault_rows v' = vault_rows v"
  by (auto simp: choose_number_def Let_def dest!: skip_invalid_rows split: sum.splits if_splits prod.splits)

theorem allocation_is_run:
  assumes "allocate_bip39_accounts L C disk operation_of wallet custody requests u now (v, reg) = Some ((v', reg'), r)"
  shows "account_moves (lc_prims L) v v'"
  using assms
  by (auto simp: allocate_bip39_accounts_def Let_def intro: account_moves_trans
      dest!: choose_number_moves [where P = "lc_prims L"] activate_children_moves enroll_children_moves
      split: if_splits sum.splits prod.splits option.splits)

subsection \<open>One child\<close>

text \<open>What the operations on one allocation leave alone: other identifiers, and rows already activated.\<close>

definition row_frame :: "token \<times> string \<Rightarrow> allocation list \<Rightarrow> allocation list \<Rightarrow> bool" where
  "row_frame i rows rows' =
     (row_id ` set rows' \<subseteq> row_id ` set rows \<union> {i} \<and> (\<forall>a\<in>set rows. al_state a = ACTIVATED \<longrightarrow> a \<in> set rows'))"

lemma row_frame_refl [simp]: "row_frame i rows rows"
  by (auto simp: row_frame_def)

lemma row_frame_trans: "row_frame i r s \<Longrightarrow> row_frame i s t \<Longrightarrow> row_frame i r t"
  unfolding row_frame_def by blast

lemma row_frame_update:
  assumes "\<And>a. row_id (f a) = row_id a" "\<And>a. hit a \<Longrightarrow> al_state a \<noteq> ACTIVATED"
  shows "row_frame i rows (update_rows hit f rows)"
proof -
  define g where "g a = (if hit a then f a else a)" for a
  have "row_id (g a) = row_id a" "al_state a = ACTIVATED \<Longrightarrow> g a = a" for a using assms by (auto simp: g_def)
  moreover have "update_rows hit f rows = map g rows" by (simp add: update_rows_def g_def)
  ultimately show ?thesis by (auto simp: row_frame_def image_image image_iff) metis
qed

lemma transition_frame:
  "transition P w op from to now s = Inr t \<Longrightarrow> from \<noteq> ACTIVATED \<Longrightarrow> row_frame i (reg_allocations s) (reg_allocations t)"
  by (auto simp: transition_def Let_def row_id_def intro!: row_frame_update split: if_splits)

lemma registry_frames:
  "prepare_allocation_at P audit w p r req target op invalid now (s, aud) = Some (st', res)
     \<Longrightarrow> row_frame (w, op) (reg_allocations s) (reg_allocations (fst st'))"
  "commit_index P audit w op now (s, aud) = (st', res1) \<Longrightarrow> row_frame (w, op) (reg_allocations s) (reg_allocations (fst st'))"
  "commit_account P audit w op spki fp now (s, aud) = (st', res2)
     \<Longrightarrow> row_frame (w, op) (reg_allocations s) (reg_allocations (fst st'))"
  "activate P audit w op now (s, aud) = (st', res3) \<Longrightarrow> row_frame (w, op) (reg_allocations s) (reg_allocations (fst st'))"
proof -
  show "prepare_allocation_at P audit w p r req target op invalid now (s, aud) = Some (st', res)
     \<Longrightarrow> row_frame (w, op) (reg_allocations s) (reg_allocations (fst st'))"
    using prepare_rows [of P audit w p r req target op invalid now s aud st' res] by (auto simp: row_frame_def)
  show "commit_index P audit w op now (s, aud) = (st', res1) \<Longrightarrow> row_frame (w, op) (reg_allocations s) (reg_allocations (fst st'))"
    by (auto simp: commit_index_def commit_or_abort_def result_simps dest: transition_frame
        split: prod.splits sum.splits if_splits)
  show "commit_account P audit w op spki fp now (s, aud) = (st', res2)
     \<Longrightarrow> row_frame (w, op) (reg_allocations s) (reg_allocations (fst st'))"
    by (auto simp: commit_account_def commit_or_abort_def result_simps Let_def row_id_def intro!: row_frame_update
        split: prod.splits sum.splits if_splits)
  show "activate P audit w op now (s, aud) = (st', res3) \<Longrightarrow> row_frame (w, op) (reg_allocations s) (reg_allocations (fst st'))"
    by (auto simp: activate_def commit_or_abort_def result_simps dest: transition_frame
        split: prod.splits sum.splits if_splits)
qed

lemma on_registry_ok:
  assumes "on_registry P f v = (v', Inr x)"
  shows "\<exists>st'. f (journal_recorder P) (vault_registry v, vt_engine v) = (st', Inr x) \<and> vault_registry v' = fst st'"
  using assms by (auto simp: on_registry_def Let_def split: prod.splits sum.splits)

text \<open>A row through the three commits.\<close>

lemma transition_row:
  assumes "transition P w op from to now s = Inr t" "load_allocation s w op = Some a" "al_state a = from"
  shows "load_allocation t w op = Some (a\<lparr>al_state := to, al_updated := sint now\<rparr>)"
  using assms load_allocation_SomeD [OF assms(2)]
  by (auto simp: transition_def Let_def load_update_rows alloc_key_def split: if_splits)

lemma commit_index_row:
  assumes "commit_index P audit w op now (s, aud) = (st', Inr x)" "load_allocation s w op = Some a" "al_state a = PREPARED"
  shows "\<exists>b. load_allocation (fst st') w op = Some b \<and> same_keys a b \<and> al_state b = INDEX_COMMITTED"
  using assms
  by (auto simp: commit_index_def commit_or_abort_def state_of_def result_simps same_keys_def
      dest!: transition_row split: sum.splits)

lemma commit_account_row:
  assumes "commit_account P audit w op spki fp now (s, aud) = (st', Inr x)" "load_allocation s w op = Some a"
    and "al_state a = INDEX_COMMITTED"
  shows "\<exists>b. load_allocation (fst st') w op = Some b \<and> same_keys a b \<and> al_state b = ACCOUNT_COMMITTED
    \<and> al_fingerprint b = Some fp"
  using assms load_allocation_SomeD [OF assms(2)]
  by (auto simp: commit_account_def commit_or_abort_def state_of_def result_simps same_keys_def Let_def load_update_rows
      alloc_key_def split: sum.splits if_splits)

lemma activate_row:
  assumes "activate P audit w op now (s, aud) = (st', Inr x)" "load_allocation s w op = Some a"
    and "al_state a = ACCOUNT_COMMITTED"
  shows "\<exists>b. load_allocation (fst st') w op = Some b \<and> same_keys a b \<and> al_state b = ACTIVATED
    \<and> al_fingerprint b = al_fingerprint a \<and> pa_path x = al_path b"
proof -
  from assms obtain t where t: "transition P w op ACCOUNT_COMMITTED ACTIVATED now s = Inr t"
    and p: "public_of t w op = Inr x" and st': "fst st' = t"
    by (auto simp: activate_def commit_or_abort_def state_of_def result_simps split: sum.splits)
  note row = transition_row [OF t assms(2,3)]
  from p row show ?thesis by (auto simp: public_of_def st' same_keys_def result_simps)
qed

definition family_path :: "u32 \<Rightarrow> derivation_profile \<Rightarrow> string" where
  "family_path number profile =
     (case profile of
        Bip44EvmSecp256k1V1 \<Rightarrow> evm_path 0 number
      | Bip44SolanaSlip10Ed25519V1 \<Rightarrow> solana_path number)"

lemma prepared_account:
  assumes "prepare_allocation_at P audit w PROFILE_EVM r None target op invalid now (s, aud) = Some (st', Inr rv)"
    and "load_allocation s w op = None"
  shows "rv_account rv = 0"
proof -
  from assms obtain s0 counter start skipped where
    "reserve_index P audit w PROFILE_EVM r 0 target op now counter start skipped s0 aud = Inr (st', rv)"
    by (fastforce simp: prepare_allocation_at_def choose_account_def Let_def commit_or_abort_def
        split: if_splits option.splits sum.splits)
  then show ?thesis by (auto simp: reserve_index_def result_simps Let_def split: if_splits)
qed

text \<open>A child of a new operation: activated at the requested place with the key derived there.\<close>

definition child_placed :: "prims \<Rightarrow> token \<Rightarrow> u32 \<Rightarrow> registry \<Rightarrow> activated_child \<Rightarrow> bool" where
  "child_placed P wallet number s c =
     (pa_path (ac_public c) = family_path number (ac_profile c)
      \<and> (\<exists>b\<in>set (reg_allocations s). row_id b = (wallet, ac_operation c) \<and> al_state b = ACTIVATED
           \<and> al_path b = pa_path (ac_public c) \<and> al_fingerprint b = Some (ac_fingerprint c)))"

lemma placed_path:
  assumes "row_ok P b" "al_profile b = profile_id profile" "same_keys a b"
    and "allocation_matches (profile_id profile) role (fst (family_target number profile)) (snd (family_target number profile)) a"
    and "profile = Bip44EvmSecp256k1V1 \<Longrightarrow> al_account a = 0"
  shows "al_path b = family_path number profile"
  using assms
  by (cases profile)
    (auto simp: row_ok_def same_keys_def allocation_matches_def family_target_def family_path_def
      resolve_canonical_path_def PROFILE_EVM_def PROFILE_SOLANA_def as_u32_def)

lemma activate_child_placed:
  assumes run: "activate_bip39_child L wallet operation (q\<lparr>dr_account := fst (family_target number (dr_profile q))\<rparr>)
      (snd (family_target number (dr_profile q))) seed now v = Some (v', Inr c)"
    and inv: "reg_inv (lc_prims L) (vault_registry v)" and unused: "load_allocation (vault_registry v) wallet operation = None"
  shows "row_frame (wallet, operation) (vault_rows v) (vault_rows v')"
    and "child_placed (lc_prims L) wallet number (vault_registry v') c"
    and "ac_operation c = operation \<and> ac_profile c = dr_profile q"
proof -
  let ?P = "lc_prims L" and ?profile = "dr_profile q"
  let ?prepare = "\<lambda>audit. prepare_allocation_at ?P audit wallet (profile_id ?profile) (dr_role q)
      (fst (family_target number ?profile)) (snd (family_target number ?profile)) operation
      (child_is_invalid L ?profile seed) now"
  from run obtain v1 rv where prep: "engine_prepare L wallet (q\<lparr>dr_account := fst (family_target number ?profile)\<rparr>)
        (snd (family_target number ?profile)) operation seed now v = Some (v1, Inr rv)"
    and rest: "activate_prepared L wallet operation ?profile seed now rv v1 = (v', Inr c)"
    by (auto simp: activate_bip39_child_def and_then_Inr)
  from prep have "on_registry ?P (\<lambda>audit s. case ?prepare audit s of Some r \<Rightarrow> r | None \<Rightarrow> (s, Inl (err ServiceUnavailable))) v
      = (v1, Inr rv)"
    by (auto simp: engine_prepare_def Let_def split: option.splits)
  from on_registry_ok [OF this] obtain st1 where
    p: "?prepare (journal_recorder ?P) (vault_registry v, vt_engine v) = Some (st1, Inr rv)" and r1: "vault_registry v1 = fst st1"
    by (auto split: option.splits)
  from prepared_row [OF p unused] obtain a where a: "load_allocation (vault_registry v1) wallet operation = Some a"
    "allocation_matches (profile_id ?profile) (dr_role q) (fst (family_target number ?profile)) (snd (family_target number ?profile)) a"
    "al_state a = PREPARED" "al_account a = unat (rv_account rv)" by (auto simp: r1)
  have evm: "al_account a = 0" if "?profile = Bip44EvmSecp256k1V1"
  proof -
    from p that have "prepare_allocation_at ?P (journal_recorder ?P) wallet PROFILE_EVM (dr_role q) None (Some number) operation
        (child_is_invalid L ?profile seed) now (vault_registry v, vt_engine v) = Some (st1, Inr rv)"
      by (simp add: family_target_def PROFILE_EVM_def)
    from prepared_account [OF this unused] a(4) show ?thesis by simp
  qed
  from rest obtain spki spec encoding v2 v3 x1 x2 public where
    i: "on_registry ?P (\<lambda>audit. commit_index ?P audit wallet operation now) v1 = (v2, Inr x1)"
    and k: "on_registry ?P (\<lambda>audit. commit_account ?P audit wallet operation (lc_hex L spki) (p_sha256 ?P spki) now) v2 = (v3, Inr x2)"
    and t: "on_registry ?P (\<lambda>audit. activate ?P audit wallet operation now) v3 = (v', Inr public)"
    and c: "c = \<lparr>ac_operation = operation, ac_profile = ?profile, ac_public = public, ac_spki = spki, ac_key_spec = spec,
        ac_encoding = encoding, ac_fingerprint = p_sha256 ?P spki\<rparr>"
    by (auto simp: activate_prepared_def and_then_Inr Let_def split: sum.splits prod.splits)
  from on_registry_ok [OF i] obtain st2 where i': "commit_index ?P (journal_recorder ?P) wallet operation now
      (vault_registry v1, vt_engine v1) = (st2, Inr x1)" and r2: "vault_registry v2 = fst st2" by blast
  from on_registry_ok [OF k] obtain st3 where k': "commit_account ?P (journal_recorder ?P) wallet operation (lc_hex L spki)
      (p_sha256 ?P spki) now (vault_registry v2, vt_engine v2) = (st3, Inr x2)" and r3: "vault_registry v3 = fst st3" by blast
  from on_registry_ok [OF t] obtain st4 where t': "activate ?P (journal_recorder ?P) wallet operation now
      (vault_registry v3, vt_engine v3) = (st4, Inr public)" and r4: "vault_registry v' = fst st4" by blast
  show "row_frame (wallet, operation) (vault_rows v) (vault_rows v')"
    using registry_frames(1) [OF p] registry_frames(2) [OF i'] registry_frames(3) [OF k'] registry_frames(4) [OF t']
    unfolding r1 r2 r3 r4 by (blast intro: row_frame_trans)
  from commit_index_row [OF i' a(1,3)] obtain a2 where a2: "load_allocation (vault_registry v2) wallet operation = Some a2"
    "same_keys a a2" "al_state a2 = INDEX_COMMITTED" by (auto simp: r2)
  from commit_account_row [OF k' a2(1,3)] obtain a3 where a3: "load_allocation (vault_registry v3) wallet operation = Some a3"
    "same_keys a2 a3" "al_state a3 = ACCOUNT_COMMITTED" "al_fingerprint a3 = Some (p_sha256 ?P spki)" by (auto simp: r3)
  from activate_row [OF t' a3(1,3)] obtain b where b: "load_allocation (vault_registry v') wallet operation = Some b"
    "same_keys a3 b" "al_state b = ACTIVATED" "al_fingerprint b = Some (p_sha256 ?P spki)" "pa_path public = al_path b"
    by (auto simp: r4 a3(4))
  have keys: "same_keys a b" using a2(2) a3(2) b(2) by (blast intro: same_keys_trans)
  have "account_moves ?P v v'" using activate_child_moves [OF run] by simp
  then have inv': "reg_inv ?P (vault_registry v')"
    using accounts.run_inv [of ?P "(v, committed_ids (vault_rows v))" "(v', committed_ids (vault_rows v))"] inv
    by (simp add: account_moves_def account_inv_def)
  have "al_profile b = profile_id ?profile" using keys a(2) by (simp add: same_keys_def allocation_matches_def)
  moreover have "row_ok ?P b" using inv_rowD [OF inv'] load_allocation_SomeD [OF b(1)] by blast
  ultimately have "al_path b = family_path number ?profile" using placed_path keys a(2) evm by blast
  with b load_allocation_SomeD [OF b(1)] show "child_placed ?P wallet number (vault_registry v') c"
    by (auto simp: child_placed_def c row_id_def intro!: bexI [of _ b])
  show "ac_operation c = operation \<and> ac_profile c = ?profile" by (simp add: c)
qed

subsection \<open>All children\<close>

lemma load_None_iff: "load_allocation s w op = None \<longleftrightarrow> (w, op) \<notin> row_id ` set (reg_allocations s)"
  by (auto simp: load_allocation_def find_None_iff alloc_key_iff image_iff)

lemma child_placed_frame:
  "child_placed P wallet number s c \<Longrightarrow> row_frame i (reg_allocations s) (reg_allocations t) \<Longrightarrow> child_placed P wallet number t c"
  by (auto simp: child_placed_def row_frame_def)

abbreviation family_id ::
  "('m, 'p) local_prims \<Rightarrow> (digest32 \<Rightarrow> operation_id) \<Rightarrow> operation_id \<Rightarrow> derived_account_request \<Rightarrow> operation_id" where
  "family_id L operation_of custody q \<equiv> family_operation_id (lc_prims L) operation_of custody (dr_profile q)"

lemma activate_children_placed:
  assumes "activate_children L operation_of wallet custody number seed now qs activated v = Some (v', Inr cs)"
    and "reg_inv (lc_prims L) (vault_registry v)" "distinct (map (family_id L operation_of custody) qs)"
    and "\<forall>q\<in>set qs. load_allocation (vault_registry v) wallet (family_id L operation_of custody q) = None"
    and "\<forall>c\<in>set activated. child_placed (lc_prims L) wallet number (vault_registry v) c"
  shows "map ac_profile cs = map ac_profile activated @ map dr_profile qs
    \<and> (\<forall>c\<in>set cs. child_placed (lc_prims L) wallet number (vault_registry v') c)"
  using assms
proof (induction qs arbitrary: activated v)
  case Nil
  then show ?case by simp
next
  case (Cons q qs)
  let ?P = "lc_prims L" and ?op = "family_id L operation_of custody q"
  let ?target = "family_target number (dr_profile q)"
  from Cons.prems(1) obtain v1 c where
    a: "activate_bip39_child L wallet ?op (q\<lparr>dr_account := fst ?target\<rparr>) (snd ?target) seed now v = Some (v1, Inr c)"
    and rest: "activate_children L operation_of wallet custody number seed now qs (activated @ [c]) v1 = Some (v', Inr cs)"
    by (auto simp: Let_def and_then_Inr split: option.splits prod.splits sum.splits)
  have unused: "load_allocation (vault_registry v) wallet ?op = None" using Cons.prems(4) by simp
  note placed = activate_child_placed [OF a Cons.prems(2) unused]
  have inv1: "reg_inv ?P (vault_registry v1)"
    using activate_child_moves [OF a] Cons.prems(2)
      accounts.run_inv [of ?P "(v, committed_ids (vault_rows v))" "(v1, committed_ids (vault_rows v))"]
    by (simp add: account_moves_def account_inv_def)
  have fresh: "\<forall>q'\<in>set qs. load_allocation (vault_registry v1) wallet (family_id L operation_of custody q') = None"
  proof
    fix q' assume q': "q' \<in> set qs"
    have "?op \<notin> family_id L operation_of custody ` set qs" using Cons.prems(3) by simp
    with q' have "family_id L operation_of custody q' \<noteq> ?op" by (metis image_eqI)
    moreover have "(wallet, family_id L operation_of custody q') \<notin> row_id ` set (vault_rows v)"
      using Cons.prems(4) q' by (simp add: load_None_iff)
    ultimately show "load_allocation (vault_registry v1) wallet (family_id L operation_of custody q') = None"
      using placed(1) by (auto simp: load_None_iff row_frame_def)
  qed
  have "\<forall>c'\<in>set (activated @ [c]). child_placed ?P wallet number (vault_registry v1) c'"
    using Cons.prems(5) placed(1,2) child_placed_frame by auto
  from Cons.IH [OF rest inv1 _ fresh this] Cons.prems(3) placed(3) show ?case by simp
qed

text \<open>A key enrolled for a wallet as a derived child, and available.\<close>

definition enrolled_for :: "token \<Rightarrow> vault \<Rightarrow> key_ref \<Rightarrow> bool" where
  "enrolled_for wallet v k =
     (vt_key_wallet v (kr_fingerprint k) = Some wallet
      \<and> (\<exists>r\<in>set (en_enrolled (vt_engine v)). ek_fingerprint r = kr_fingerprint k \<and> ek_available r
           \<and> ek_authority r = ''derived''))"

lemma upsert_set: "set (upsert key row rows) = {row} \<union> {r \<in> set rows. key r \<noteq> key row}"
  by (auto simp: upsert_def list_ex_iff)

lemma enroll_child_ok:
  assumes "enroll_bip39_child P wallet k v = (v', Inr u)"
  shows "enrolled_for wallet v' k \<and> (\<forall>k'. enrolled_for wallet v k' \<longrightarrow> enrolled_for wallet v' k')"
proof -
  let ?row = "enrolled_row_of P k ''derived''"
  from assms have tx: "enroll_for_wallet_tx P ''derived'' ''key.derived_enrolled'' wallet k v = Inr (v', u)"
    by (auto simp: enroll_bip39_child_def vault_transact_def mutation_transaction_def
        split: prod.splits sum.splits if_splits)
  then obtain a where "v' = (set_enrolled ?row (Some wallet) v)\<lparr>vt_engine := (vt_engine (set_enrolled ?row (Some wallet) v))\<lparr>en_audit := a\<rparr>\<rparr>"
    by (auto simp: enroll_for_wallet_tx_def vault_audit_def result_simps dest!: append_audit_InrD(1))
  then have e: "en_enrolled (vt_engine v') = upsert ek_fingerprint ?row (en_enrolled (vt_engine v))"
    and w: "vt_key_wallet v' = (vt_key_wallet v)(kr_fingerprint k := Some wallet)"
    by (simp_all add: set_enrolled_def enrolled_row_of_def)
  have row: "ek_fingerprint ?row = kr_fingerprint k" "ek_available ?row" "ek_authority ?row = ''derived''"
    by (simp_all add: enrolled_row_of_def)
  have "enrolled_for wallet v' k" using row by (auto simp: enrolled_for_def e w upsert_set)
  moreover have "enrolled_for wallet v' k'" if "enrolled_for wallet v k'" for k'
    using that row by (cases "kr_fingerprint k' = kr_fingerprint k") (auto simp: enrolled_for_def e w upsert_set)
  ultimately show ?thesis by blast
qed

lemma enroll_activated_ok:
  assumes "enroll_activated_child L disk wallet c u now (v, reg) = ((v', reg'), Inr (k, d))"
  shows "k = child_key_ref L wallet c \<and> d = child_descriptor L wallet c u \<and> vault_registry v' = vault_registry v
    \<and> enrolled_for wallet v' k \<and> (\<forall>k'. enrolled_for wallet v k' \<longrightarrow> enrolled_for wallet v' k')"
proof -
  from assms have "enroll_bip39_child (lc_prims L) wallet (child_key_ref L wallet c) v = (v', Inr ())"
    and "k = child_key_ref L wallet c" "d = child_descriptor L wallet c u"
    by (auto simp: enroll_activated_child_def Let_def split: prod.splits sum.splits)
  with enroll_child_ok enroll_child_registry show ?thesis by metis
qed

lemma enroll_children_ok:
  assumes "enroll_children L disk wallet u now cs enrolled (v, reg) = ((v', reg'), Inr accounts)"
    and "\<forall>a\<in>set enrolled. enrolled_for wallet v (aa_key_ref a)"
  shows "vault_registry v' = vault_registry v
    \<and> accounts = enrolled @ map (\<lambda>c. \<lparr>aa_key_ref = child_key_ref L wallet c, aa_descriptor = child_descriptor L wallet c u,
        aa_operation = ac_operation c\<rparr>) cs
    \<and> (\<forall>a\<in>set accounts. enrolled_for wallet v' (aa_key_ref a))"
  using assms
proof (induction cs arbitrary: enrolled v reg)
  case Nil
  then show ?case by simp
next
  case (Cons c cs)
  from Cons.prems(1) obtain v1 reg1 k d where e: "enroll_activated_child L disk wallet c u now (v, reg) = ((v1, reg1), Inr (k, d))"
    and rest: "enroll_children L disk wallet u now cs
      (enrolled @ [\<lparr>aa_key_ref = k, aa_descriptor = d, aa_operation = ac_operation c\<rparr>]) (v1, reg1) = ((v', reg'), Inr accounts)"
    by (auto simp: Let_def split: prod.splits sum.splits)
  note ok = enroll_activated_ok [OF e]
  have "\<forall>a\<in>set (enrolled @ [\<lparr>aa_key_ref = k, aa_descriptor = d, aa_operation = ac_operation c\<rparr>]).
      enrolled_for wallet v1 (aa_key_ref a)" using Cons.prems(2) ok by auto
  from Cons.IH [OF rest this] ok show ?case by simp
qed

text \<open>C21: One ceremony, one account number. When a new ceremony allocates accounts in a registry that satisfies its
  invariant, and it succeeds, there is one number such that the result has exactly the requested
  families, EVM first, each at that family's canonical path for the number; each child's registry row
  is activated at this path under the fingerprint of the key in the result, and the
  key is enrolled for the wallet and available.\<close>

theorem accounts_share_number:
  assumes run: "allocate_bip39_accounts L C disk operation_of wallet custody requests u now (v, reg)
      = Some ((v', reg'), Inr accounts)"
    and inv: "reg_inv (lc_prims L) (vault_registry v)"
    and fresh: "\<forall>q\<in>set requests. load_allocation (vault_registry v) wallet (family_id L operation_of custody q) = None"
    and families: "distinct (map (family_id L operation_of custody) requests)"
  shows "\<exists>number. map (\<lambda>a. da_profile (aa_descriptor a)) accounts = map dr_profile (sort_key family_order requests)
    \<and> (\<forall>a\<in>set accounts.
         da_key_ref (aa_descriptor a) = aa_key_ref a
         \<and> da_path (aa_descriptor a) = family_path number (da_profile (aa_descriptor a))
         \<and> (\<exists>b\<in>set (vault_rows v'). row_id b = (wallet, aa_operation a) \<and> al_state b = ACTIVATED
              \<and> al_path b = da_path (aa_descriptor a) \<and> al_fingerprint b = Some (kr_fingerprint (aa_key_ref a)))
         \<and> enrolled_for wallet v' (aa_key_ref a))"
proof -
  let ?P = "lc_prims L" and ?qs = "sort_key family_order requests"
  from run obtain seed v1 number v2 cs where
    n: "choose_number L wallet (list_ex (\<lambda>q. dr_profile q = Bip44EvmSecp256k1V1) ?qs) seed now v = (v1, Inr number)"
    and a: "activate_children L operation_of wallet custody number seed now ?qs [] v1 = Some (v2, Inr cs)"
    and e: "enroll_children L disk wallet u now cs [] (v2, reg) = ((v', reg'), Inr accounts)"
    by (auto simp: allocate_bip39_accounts_def Let_def split: if_splits sum.splits prod.splits option.splits)
  have rows: "vault_rows v1 = vault_rows v" using choose_number_rows [OF n] .
  have inv1: "reg_inv ?P (vault_registry v1)"
    using choose_number_moves [OF n, of ?P] inv
      accounts.run_inv [of ?P "(v, committed_ids (vault_rows v))" "(v1, committed_ids (vault_rows v))"]
    by (simp add: account_moves_def account_inv_def)
  have d: "distinct (map (family_id L operation_of custody) ?qs)"
    using families by (simp add: distinct_map)
  have f: "\<forall>q\<in>set ?qs. load_allocation (vault_registry v1) wallet (family_id L operation_of custody q) = None"
    using fresh by (simp add: load_allocation_def rows)
  note placed = activate_children_placed [OF a inv1 d f]
  note ok = enroll_children_ok [OF e]
  from ok have acc: "accounts = map (\<lambda>c. \<lparr>aa_key_ref = child_key_ref L wallet c, aa_descriptor = child_descriptor L wallet c u,
        aa_operation = ac_operation c\<rparr>) cs" and reg: "vault_registry v' = vault_registry v2"
    and enr: "\<forall>a\<in>set accounts. enrolled_for wallet v' (aa_key_ref a)" by auto
  have "map (\<lambda>a. da_profile (aa_descriptor a)) accounts = map dr_profile ?qs"
    using placed by (simp add: acc child_descriptor_def comp_def)
  moreover have "da_key_ref (aa_descriptor a) = aa_key_ref a
         \<and> da_path (aa_descriptor a) = family_path number (da_profile (aa_descriptor a))
         \<and> (\<exists>b\<in>set (vault_rows v'). row_id b = (wallet, aa_operation a) \<and> al_state b = ACTIVATED
              \<and> al_path b = da_path (aa_descriptor a) \<and> al_fingerprint b = Some (kr_fingerprint (aa_key_ref a)))"
    if "a \<in> set accounts" for a
  proof -
    from that obtain c where "c \<in> set cs" and a: "a = \<lparr>aa_key_ref = child_key_ref L wallet c,
      aa_descriptor = child_descriptor L wallet c u, aa_operation = ac_operation c\<rparr>" by (auto simp: acc)
    with placed have "child_placed ?P wallet number (vault_registry v2) c" by simp
    then show ?thesis by (auto simp: a child_placed_def child_descriptor_def child_key_ref_def reg)
  qed
  ultimately show ?thesis using enr by blast
qed

subsection \<open>Retiring again\<close>

text \<open>A retirement that stopped after the registry's step is not completed by repeating it: the row is found in
  RETIRED, and the registry refuses to retire it again before the backend and the enrolled key are reached.\<close>

lemma retirement_not_resumed:
  assumes row: "descriptor_row v wallet (kr_fingerprint k) = Some a" "al_state a = RETIRED"
    and inv: "reg_inv (lc_prims L) (vault_registry v)"
  shows "\<exists>v'. retire_bip39_account L disk wallet k now (v, reg) = ((v', reg), Inl (err MalformedFrame))
    \<and> en_enrolled (vt_engine v') = en_enrolled (vt_engine v) \<and> vault_registry v' = vault_registry v"
proof -
  let ?P = "lc_prims L" and ?op = "al_operation a"
  from row(1) have a: "a \<in> set (vault_rows v)" "al_wallet a = wallet"
    unfolding descriptor_row_def by (auto dest!: find_SomeD)
  have load: "load_allocation (vault_registry v) wallet ?op = Some a"
    using load_allocation_unique [OF inv] a by blast
  have "\<not> (alloc_key wallet ?op b \<and> al_state b = ACTIVATED)" if "b \<in> set (vault_rows v)" for b
  proof
    assume b: "alloc_key wallet ?op b \<and> al_state b = ACTIVATED"
    then have "load_allocation (vault_registry v) wallet ?op = Some b"
      using load_allocation_unique [OF inv that] by (simp add: alloc_key_iff row_id_def)
    with load b row(2) show False by simp
  qed
  then have none: "filter (\<lambda>b. alloc_key wallet ?op b \<and> al_state b = ACTIVATED) (vault_rows v) = []"
    by (simp add: filter_empty_conv)
  have "retire ?P audit wallet ?op now (vault_registry v, st) = ((vault_registry v, st), Inl (err MalformedFrame))"
    for audit :: "engine recorder" and st
    using load none by (simp add: retire_def commit_or_abort_def allocation_keys_def transition_def)
  then show ?thesis
    using row(1) by (simp add: retire_bip39_account_def on_registry_def and_then_def Let_def)
qed

end
