(* ===== verification/Account_Sample.thy ===== *)
theory Account_Sample
  imports Account_Properties Local_Sample Custody_Sample Api_Properties
begin

text \<open>
  The properties of account allocation at a concrete wallet: a Solana account is allocated for the wallet
  \<open>w\<close> in an empty registry.
\<close>

subsection \<open>Registry operations under a live journal\<close>

definition accepts ::
  "(engine recorder \<Rightarrow> engine rstate \<Rightarrow> engine rstate \<times> 'b result) \<Rightarrow> registry \<Rightarrow> registry \<Rightarrow> 'b \<Rightarrow> bool" where
  "accepts f reg reg' x =
     (\<forall>audit g st. (\<forall>event payload. audit event payload st = Inr (g event payload)) \<longrightarrow>
        (\<exists>event payload. f audit (reg, st) = ((reg', g event payload), Inr x)))"

lemma recorder_live:
  assumes "journal_live P (Suc n) v"
  shows "\<exists>g. \<forall>event payload. journal_recorder P event payload (vt_engine v) = Inr (g event payload)"
proof -
  have "\<exists>st'. journal_recorder P event payload (vt_engine v) = Inr st'" for event payload
    using append_audit_ok [of P "vt_engine v" event "transition_json payload"] assms
    by (auto simp: journal_recorder_def journal_live_def journal_room_def)
  then show ?thesis by metis
qed

lemma on_registry_live:
  assumes "accepts f (vault_registry v) reg' x" "journal_live P (Suc n) v"
  shows "\<exists>a. on_registry P f v = (v\<lparr>vt_engine := (vt_engine v)\<lparr>en_audit := a, en_registry := reg'\<rparr>\<rparr>, Inr x)
    \<and> journal_live P n (v\<lparr>vt_engine := (vt_engine v)\<lparr>en_audit := a, en_registry := reg'\<rparr>\<rparr>)
    \<and> aud_degraded a = aud_degraded (en_audit (vt_engine v))"
proof -
  let ?st = "vt_engine v"
  have good: "keys_good P ?st" "journal_verified P (en_audit ?st)" "journal_room ?st"
    using assms(2) by (simp_all add: journal_live_def journal_room_def)
  from recorder_live [OF assms(2)] obtain g where
    "\<forall>event payload. journal_recorder P event payload ?st = Inr (g event payload)" by blast
  with assms(1) obtain st' event payload where
    f: "f (journal_recorder P) (vault_registry v, ?st) = ((reg', st'), Inr x)"
    and r: "journal_recorder P event payload ?st = Inr st'" unfolding accepts_def by metis
  note r' = journal_recorder_ok [OF r]
  from append_audit_InrD(1) [OF r'] obtain e where
    st': "st' = ?st\<lparr>en_audit := (en_audit ?st)\<lparr>aud_db := (aud_db (en_audit ?st))\<lparr>ad_entries := ad_entries (aud_db (en_audit ?st)) @ [e]\<rparr>\<rparr>\<rparr>"
    by blast
  have "journal_live P n (v\<lparr>vt_engine := st'\<lparr>en_registry := reg'\<rparr>\<rparr>)"
    using append_audit_InrD(2) [OF r' good(1)] good(1) assms(2) by (simp add: journal_live_def keys_good_def st' Let_def)
  with f st' show ?thesis
    by (intro exI [of _ "en_audit st'"]) (simp add: on_registry_def Let_def)
qed

definition open_vault :: "nat \<Rightarrow> registry \<Rightarrow> vault \<Rightarrow> bool" where
  "open_vault n reg v =
     (vault_registry v = reg \<and> journal_live sample_prims n v \<and> \<not> aud_degraded (en_audit (vt_engine v)))"

lemma registry_step_live:
  assumes "open_vault (Suc n) reg v" "accepts f reg reg' x"
  shows "\<exists>v'. on_registry sample_prims f v = (v', Inr x) \<and> open_vault n reg' v'"
  using on_registry_live [of f v reg' x sample_prims n] assms by (auto simp: open_vault_def)

subsection \<open>The wallet\<close>

definition account_local :: "(bytes, string) local_prims" where
  "account_local = sample_local\<lparr>lc_prims := sample_prims, lc_hex := map (\<lambda>b. char_of (unat b))\<rparr>"

definition account_custody :: "unit custody_prims" where
  "account_custody =
     custody_sample\<lparr>cp_bip39 := (cp_bip39 custody_sample)\<lparr>b_to_string := (\<lambda>_. ''a a a a a a a a a a a a'')\<rparr>\<rparr>"

definition account_request :: derived_account_request where
  "account_request = \<lparr>dr_profile = Bip44SolanaSlip10Ed25519V1, dr_role = ''solana-account'', dr_account = None\<rparr>"

definition account_spki :: bytes where
  "account_spki = ed25519_spki_der (replicate 32 1)"

definition account_op :: operation_id where
  "account_op = family_operation_id sample_prims (\<lambda>d. d) ''c'' Bip44SolanaSlip10Ed25519V1"

definition account_row :: "alloc_state \<Rightarrow> bool \<Rightarrow> allocation" where
  "account_row state keyed =
     \<lparr>al_wallet = ''w'', al_operation = account_op, al_profile = PROFILE_SOLANA, al_role = ''solana-account'',
      al_account = 0, al_index = 0, al_path = solana_path 0, al_state = state, al_key_spec = ''ed25519'',
      al_spki = (if keyed then Some (lc_hex account_local account_spki) else None),
      al_fingerprint = (if keyed then Some (p_sha256 sample_prims account_spki) else None),
      al_authority_committed = False, al_created = 9, al_updated = 9\<rparr>"

definition account_namespaces :: "namespace list" where
  "account_namespaces =
     [\<lparr>ns_wallet = ''w'', ns_profile = PROFILE_SOLANA, ns_role = ''solana-account'', ns_account = 0,
       ns_next_index = 1, ns_maximum = 100\<rparr>]"

definition account_registry :: "allocation \<Rightarrow> derivation_event list \<Rightarrow> registry" where
  "account_registry row events =
     \<lparr>reg_namespaces = account_namespaces, reg_allocations = [row], reg_tombstones = [], reg_events = events\<rparr>"

definition account_event :: "alloc_state option \<Rightarrow> alloc_state \<Rightarrow> derivation_event list \<Rightarrow> derivation_event list" where
  "account_event from to events =
     reg_events (append_event sample_prims ''w'' account_op from to 9 (account_registry (account_row to False) events))"

lemma account_registry_simps [simp]:
  "reg_allocations (account_registry row events) = [row]"
  "reg_namespaces (account_registry row events) = account_namespaces"
  "account_registry row events\<lparr>reg_allocations := [row']\<rparr> = account_registry row' events"
  "append_event sample_prims ''w'' account_op from to 9 (account_registry row events) = account_registry row (account_event from to events)"
  by (simp_all add: account_registry_def account_event_def append_event_def last_event_hash_def Let_def)

lemma account_row_simps [simp]:
  "al_state (account_row state keyed) = state" "alloc_key ''w'' account_op (account_row state keyed)"
  "al_wallet (account_row state keyed) = ''w''" "al_operation (account_row state keyed) = account_op"
  "account_row state keyed\<lparr>al_state := state', al_updated := 9\<rparr> = account_row state' keyed"
  "account_row state False\<lparr>al_state := state', al_spki := Some (lc_hex account_local account_spki),
     al_fingerprint := Some (p_sha256 sample_prims account_spki), al_updated := 9\<rparr> = account_row state' True"
  by (simp_all add: account_row_def alloc_key_def)

lemma hex_roundtrip: "p_hex_decode sample_prims (lc_hex account_local b) = Some b"
proof -
  have "unat x mod 256 = unat x" for x :: u8 using unat_lt_power [of x] by simp
  then have "str_bytes (map (\<lambda>b. char_of (unat b)) b) = b"
    by (intro nth_equalityI) (simp_all add: str_bytes_def)
  then show ?thesis by (simp add: sample_prims_def account_local_def)
qed

subsection \<open>The four steps in the registry\<close>

definition account_reservation :: "alloc_state \<Rightarrow> reservation" where
  "account_reservation state =
     \<lparr>rv_operation = account_op, rv_profile = PROFILE_SOLANA, rv_role = ''solana-account'', rv_account = 0, rv_index = 0,
      rv_path = solana_path 0, rv_state = state\<rparr>"

definition account_public :: public_account where
  "account_public =
     \<lparr>pa_wallet = ''w'', pa_operation = account_op, pa_profile = PROFILE_SOLANA, pa_role = ''solana-account'',
      pa_path = solana_path 0, pa_account = 0, pa_index = 0, pa_key_spec = ''ed25519'',
      pa_spki = lc_hex account_local account_spki, pa_fingerprint = p_sha256 sample_prims account_spki,
      pa_lifecycle = ACTIVATED\<rparr>"

lemma account_load [simp]: "load_allocation (account_registry (account_row state keyed) events) ''w'' account_op
    = Some (account_row state keyed)"
  by (simp add: load_allocation_def)

lemma account_queries [simp]:
  "reservation_of (account_registry (account_row state keyed) events) ''w'' account_op = Inr (account_reservation state)"
  "state_of (account_registry (account_row state keyed) events) ''w'' account_op = Inr state"
  "allocation_keys (account_registry (account_row state keyed) events) ''w'' account_op
     = Inr (PROFILE_SOLANA, ''solana-account'', 0, 0, solana_path 0)"
  "public_of (account_registry (account_row ACTIVATED True) events) ''w'' account_op = Inr account_public"
  by (simp_all add: reservation_of_def state_of_def allocation_keys_def public_of_def account_reservation_def
      account_public_def as_u32_def) (simp_all add: account_row_def)

lemma account_transition [simp]:
  "transition sample_prims ''w'' account_op from to 9 (account_registry (account_row from keyed) events)
     = Inr (account_registry (account_row to keyed) (account_event (Some from) to events))"
  by (simp add: transition_def Let_def update_rows_def)

lemma account_commit_index:
  "accepts (\<lambda>audit. commit_index sample_prims audit ''w'' account_op 9)
     (account_registry (account_row PREPARED False) events)
     (account_registry (account_row INDEX_COMMITTED False) (account_event (Some PREPARED) INDEX_COMMITTED events))
     (account_reservation INDEX_COMMITTED)"
  by (auto simp: accepts_def commit_index_def commit_or_abort_def)

lemma account_commit_account:
  "accepts (\<lambda>audit. commit_account sample_prims audit ''w'' account_op (lc_hex account_local account_spki)
       (p_sha256 sample_prims account_spki) 9)
     (account_registry (account_row INDEX_COMMITTED False) events)
     (account_registry (account_row ACCOUNT_COMMITTED True) (account_event (Some INDEX_COMMITTED) ACCOUNT_COMMITTED events))
     (account_reservation ACCOUNT_COMMITTED)"
  by (auto simp: accepts_def commit_account_def commit_or_abort_def hex_roundtrip update_rows_def Let_def)

lemma account_activate:
  "accepts (\<lambda>audit. activate sample_prims audit ''w'' account_op 9)
     (account_registry (account_row ACCOUNT_COMMITTED True) events)
     (account_registry (account_row ACTIVATED True) (account_event (Some ACCOUNT_COMMITTED) ACTIVATED events))
     account_public"
  by (auto simp: accepts_def activate_def commit_or_abort_def)

lemma account_prepare:
  assumes live: "\<And>event payload. audit event payload st = Inr (g event payload)" and valid: "\<not> invalid 0 0"
  shows "\<exists>event payload. prepare_allocation_at sample_prims audit ''w'' PROFILE_SOLANA ''solana-account'' (Some 0) None
      account_op invalid 9 (empty_registry, st)
    = Some ((account_registry (account_row PREPARED False) (account_event None PREPARED []), g event payload),
        Inr (account_reservation PREPARED))"
proof -
  have "next_valid_index 0 (invalid 0) = Some (0, [])" using valid by (subst next_valid_index_def, subst next_valid_from.simps) simp
  then show ?thesis
    using live [of "''derivation.prepared''"]
    by (simp add: registry_run_simps account_registry_def account_event_def last_event_hash_def account_row_def
        account_namespaces_def account_reservation_def as_u32_def) blast
qed

lemma account_prepare_accepts:
  assumes "\<not> invalid 0 0"
  shows "accepts (\<lambda>audit s. case prepare_allocation_at sample_prims audit ''w'' PROFILE_SOLANA ''solana-account''
        (Some 0) None account_op invalid 9 s of Some r \<Rightarrow> r | None \<Rightarrow> (s, Inl (err ServiceUnavailable)))
     empty_registry (account_registry (account_row PREPARED False) (account_event None PREPARED []))
     (account_reservation PREPARED)"
  unfolding accepts_def
proof (intro allI impI)
  fix audit :: "engine recorder" and g st assume "\<forall>event payload. audit event payload st = Inr (g event payload)"
  with account_prepare [of audit st g invalid] assms obtain event payload where
    "prepare_allocation_at sample_prims audit ''w'' PROFILE_SOLANA ''solana-account'' (Some 0) None account_op invalid 9
       (empty_registry, st)
     = Some ((account_registry (account_row PREPARED False) (account_event None PREPARED []), g event payload),
         Inr (account_reservation PREPARED))" by blast
  then show "\<exists>event payload. (case prepare_allocation_at sample_prims audit ''w'' PROFILE_SOLANA ''solana-account''
      (Some 0) None account_op invalid 9 (empty_registry, st) of Some r \<Rightarrow> r | None \<Rightarrow> ((empty_registry, st), Inl (err ServiceUnavailable)))
    = ((account_registry (account_row PREPARED False) (account_event None PREPARED []), g event payload),
       Inr (account_reservation PREPARED))" by auto
qed

lemma account_prims [simp]: "lc_prims account_local = sample_prims"
  by (simp add: account_local_def)

subsection \<open>The account\<close>

definition account_vault :: vault where
  "account_vault = crashed_vault\<lparr>vt_engine := fresh_signer\<rparr>"

definition account_wallet :: unlocked_wallet where
  "account_wallet =
     \<lparr>uw_wallet = ''w'', uw_root = replicate 16 0, uw_policy_seed = [], uw_wkek = [], uw_profile = Bip39Multicurve_V1,
      uw_entropy_bits = Some 128\<rparr>"

lemma strip_words:
  "first_strip whitespace_codes (CHR ''a'' # s) = None" "first_strip whitespace_codes (CHR '' '' # s) = Some s"
  by (simp_all add: whitespace_codes_def utf8_def char_of_def bit_0)

lemma twelve_words: "count_words False ''a a a a a a a a a a a a'' = 12"
  by (simp add: count_words.simps strip_words)

lemma account_seed: "\<exists>seed. unlocked_bip39_seed account_custody account_wallet = Inr seed"
  by (simp add: unlocked_bip39_seed_def account_wallet_def account_custody_def custody_sample_def
      mnemonic_from_entropy_def seed_from_mnemonic_def parse_mnemonic_def twelve_words entropy_bytes_for_words_def Let_def)

lemma account_child_key:
  "child_public_key account_local Bip44SolanaSlip10Ed25519V1 seed 0 0 = Inr (account_spki, Ed25519, Ed25519SpkiDer)"
  by (simp add: child_public_key_def derive_solana_account_def account_local_def sample_fields HARDENED_OFFSET_def
      ed_hardened_child_def master_ed25519_def describe_ed25519_def account_spki_def Let_def)

lemma account_vault_ok:
  "journal_live sample_prims 9 account_vault" "\<not> aud_degraded (en_audit (vt_engine account_vault))"
  "vault_registry account_vault = empty_registry"
proof -
  show "journal_live sample_prims 9 account_vault"
    using fresh_signer_inv
    by (simp add: journal_live_def account_vault_def engine_inv_def keys_good_def Let_def)
      (simp add: fresh_signer_def sample_audit_def)
qed (simp_all add: account_vault_def fresh_signer_def sample_audit_def)

lemma account_key_valid:
  "length (p_sha256 sample_prims b) = 64" "validate_bip32_path (solana_path 0) = Inr ()"
  using allocated_path_bip32 solana_path_valid [of 0] by (simp_all add: sample_prims_def)

definition account_child :: activated_child where
  "account_child =
     \<lparr>ac_operation = account_op, ac_profile = Bip44SolanaSlip10Ed25519V1, ac_public = account_public, ac_spki = account_spki,
      ac_key_spec = Ed25519, ac_encoding = Ed25519SpkiDer, ac_fingerprint = p_sha256 sample_prims account_spki\<rparr>"

lemma account_engine_prepare:
  "\<exists>v. engine_prepare account_local ''w'' (account_request\<lparr>dr_account := Some 0\<rparr>) None account_op seed 9 account_vault
      = Some (v, Inr (account_reservation PREPARED))
    \<and> open_vault 8 (account_registry (account_row PREPARED False) (account_event None PREPARED [])) v"
proof -
  define invalid where "invalid = child_is_invalid account_local Bip44SolanaSlip10Ed25519V1 seed"
  have valid: "\<not> invalid 0 0" by (simp add: child_is_invalid_def invalid_def)
  have "open_vault (Suc 8) empty_registry account_vault" using account_vault_ok by (simp add: open_vault_def)
  from registry_step_live [OF this account_prepare_accepts [of invalid, OF valid]] obtain v where
    v: "on_registry sample_prims (\<lambda>audit s. case prepare_allocation_at sample_prims audit ''w'' PROFILE_SOLANA ''solana-account''
        (Some 0) None account_op invalid 9 s of Some r \<Rightarrow> r | None \<Rightarrow> (s, Inl (err ServiceUnavailable))) account_vault
      = (v, Inr (account_reservation PREPARED))"
    "open_vault 8 (account_registry (account_row PREPARED False) (account_event None PREPARED [])) v" by blast
  have live: "journal_live sample_prims (Suc 8) account_vault" using account_vault_ok(1) by simp
  from recorder_live [OF live] obtain g where
    "\<forall>event payload. journal_recorder sample_prims event payload fresh_signer = Inr (g event payload)"
    by (auto simp: account_vault_def)
  with account_prepare [of "journal_recorder sample_prims" fresh_signer g invalid] valid obtain st r where
    "prepare_allocation_at sample_prims (journal_recorder sample_prims) ''w'' PROFILE_SOLANA ''solana-account'' (Some 0) None
       account_op invalid 9 (empty_registry, fresh_signer) = Some (st, r)" by blast
  with v show ?thesis
    by (simp add: engine_prepare_def account_request_def Let_def invalid_def account_vault_ok(3) PROFILE_SOLANA_def) (simp add: account_vault_def)
qed

lemma account_activated:
  "\<exists>v events. activate_bip39_child account_local ''w'' account_op (account_request\<lparr>dr_account := Some 0\<rparr>) None seed 9 account_vault
      = Some (v, Inr account_child) \<and> open_vault 5 (account_registry (account_row ACTIVATED True) events) v"
proof -
  from account_engine_prepare obtain v where
    p: "engine_prepare account_local ''w'' (account_request\<lparr>dr_account := Some 0\<rparr>) None account_op seed 9 account_vault
      = Some (v, Inr (account_reservation PREPARED))"
    and v: "open_vault (Suc 7) (account_registry (account_row PREPARED False) (account_event None PREPARED [])) v" by auto
  from registry_step_live [OF v account_commit_index] obtain v1 where
    i: "on_registry sample_prims (\<lambda>audit. commit_index sample_prims audit ''w'' account_op 9) v
      = (v1, Inr (account_reservation INDEX_COMMITTED))"
    and v1: "open_vault (Suc 6) (account_registry (account_row INDEX_COMMITTED False)
        (account_event (Some PREPARED) INDEX_COMMITTED (account_event None PREPARED []))) v1" by auto
  from registry_step_live [OF v1 account_commit_account] obtain v2 events where
    k: "on_registry sample_prims (\<lambda>audit. commit_account sample_prims audit ''w'' account_op (lc_hex account_local account_spki)
        (p_sha256 sample_prims account_spki) 9) v1 = (v2, Inr (account_reservation ACCOUNT_COMMITTED))"
    and v2: "open_vault (Suc 5) (account_registry (account_row ACCOUNT_COMMITTED True) events) v2" by auto
  from registry_step_live [OF v2 account_activate] obtain v3 where
    a: "on_registry sample_prims (\<lambda>audit. activate sample_prims audit ''w'' account_op 9) v2 = (v3, Inr account_public)"
    and v3: "open_vault 5 (account_registry (account_row ACTIVATED True)
        (account_event (Some ACCOUNT_COMMITTED) ACTIVATED events)) v3" by blast
  have "activate_prepared account_local ''w'' account_op Bip44SolanaSlip10Ed25519V1 seed 9 (account_reservation PREPARED) v
      = (v3, Inr account_child)"
    using i k a account_child_key
    by (simp add: activate_prepared_def account_reservation_def and_then_def account_child_def Let_def)
  with p v3 show ?thesis by (auto simp: activate_bip39_child_def and_then_def account_request_def)
qed

subsection \<open>The enrolled account\<close>

abbreviation account_key :: key_ref where
  "account_key \<equiv> child_key_ref account_local ''w'' account_child"

definition account_backends :: "unit backends" where
  "account_backends = [((''local'', ''w''), CompiledLocal sample_wallet)]"

lemma account_key_ok: "key_ref_validate account_key = Inr ()"
  using account_key_valid
  by (auto simp: key_ref_validate_def child_key_ref_def account_child_def account_public_def KEYREF_LOCATOR_MAX_BYTES_def
      simp flip: length_0_conv)

lemma account_registered:
  "\<exists>reg. registry_register_bip39_child account_local disk ''w''
     \<lparr>kd_key_ref = account_key, kd_spki = account_spki, kd_fingerprint = p_sha256 sample_prims account_spki, kd_suites = suites\<rparr>
     (Some account_op) account_backends = (reg, Inr ())"
proof -
  have k: "kr_backend account_key = ''local''" "kr_backend_instance account_key = ''w''"
    "kr_fingerprint account_key = p_sha256 sample_prims account_spki"
    "kr_derivation account_key = Some (Bip39Multicurve ''w'' Bip44SolanaSlip10Ed25519V1 (solana_path 0))"
    by (simp_all add: child_key_ref_def account_child_def account_public_def)
  then show ?thesis
    by (simp add: registry_register_bip39_child_def on_local_def account_backends_def registry_get_def map_error_def
        register_bip39_child_description_def register_child_def is_bip39_child_def commit_backup_def persist_backup_def
        sample_wallet_def sample_backup_def fresh_state_def fresh_backup_def Let_def)
qed

lemma account_enrolled:
  assumes "open_vault (Suc n) reg v"
  shows "\<exists>v'. enroll_bip39_child sample_prims ''w'' account_key v = (v', Inr ()) \<and> open_vault n reg v'"
proof -
  let ?set = "set_enrolled (enrolled_row_of sample_prims account_key ''derived'') (Some ''w'') v"
  let ?payload = "JObj [(''wallet_id'', JStr ''w''), (''key_ref'', key_ref_json account_key)]"
  have same: "en_audit (vt_engine ?set) = en_audit (vt_engine v)" "vault_registry ?set = vault_registry v"
    by (simp_all add: set_enrolled_def)
  have good: "keys_good sample_prims (vt_engine ?set)" "journal_verified sample_prims (en_audit (vt_engine ?set))" "journal_room (vt_engine ?set)"
    using assms by (simp_all add: open_vault_def journal_live_def journal_room_def same keys_good_def)
  from append_audit_ok [OF this, of "''key.derived_enrolled''" ?payload] obtain st where
    st: "append_audit sample_prims ''key.derived_enrolled'' ?payload (vt_engine ?set) = Inr st" by blast
  have "enroll_bip39_child sample_prims ''w'' account_key v = (?set\<lparr>vt_engine := st\<rparr>, Inr ())"
    using assms st by (simp add: enroll_bip39_child_def account_key_ok vault_transact_def mutation_transaction_def
       open_vault_def journal_live_def enroll_for_wallet_tx_def vault_audit_def)
  moreover have "open_vault n reg (?set\<lparr>vt_engine := st\<rparr>)"
    using assms append_audit_InrD(1) [OF st] append_audit_InrD(2) [OF st good(1)] same good
    by (auto simp: open_vault_def journal_live_def keys_good_def Let_def)
  ultimately show ?thesis by blast
qed

lemma account_number: "choose_number L ''w'' False seed now account_vault = (account_vault, Inr 0)"
  by (simp add: choose_number_def account_vault_ok(3) next_account_number_def evm_next_indices_def
      evm_tombstoned_indices_def solana_accounts_def max_of_def empty_registry_def Let_def)

lemma account_allocated:
  "\<exists>v reg events. allocate_bip39_accounts account_local account_custody disk (\<lambda>d. d) ''w'' ''c'' [account_request] account_wallet 9
       (account_vault, account_backends)
     = Some ((v, reg), Inr [\<lparr>aa_key_ref = account_key, aa_descriptor = child_descriptor account_local ''w'' account_child account_wallet,
         aa_operation = account_op\<rparr>])
     \<and> open_vault 4 (account_registry (account_row ACTIVATED True) events) v"
proof -
  obtain seed where seed: "unlocked_bip39_seed account_custody account_wallet = Inr seed" using account_seed by blast
  from account_activated [of seed] obtain v1 events where
    a: "activate_bip39_child account_local ''w'' account_op (account_request\<lparr>dr_account := Some 0\<rparr>) None seed 9 account_vault
      = Some (v1, Inr account_child)"
    and v1: "open_vault (Suc 4) (account_registry (account_row ACTIVATED True) events) v1" by auto
  have profile: "dr_profile account_request = Bip44SolanaSlip10Ed25519V1" by (simp add: account_request_def)
  have "activate_children account_local (\<lambda>d. d) ''w'' ''c'' 0 seed 9 [account_request] [] account_vault = Some (v1, Inr [account_child])"
    using a by (simp add: profile family_target_def account_op_def Let_def)
  moreover from account_registered [of disk "family_suites Bip44SolanaSlip10Ed25519V1"] obtain reg where
    r: "registry_register_bip39_child account_local disk ''w''
      \<lparr>kd_key_ref = account_key, kd_spki = account_spki, kd_fingerprint = p_sha256 sample_prims account_spki,
       kd_suites = family_suites Bip44SolanaSlip10Ed25519V1\<rparr> (Some account_op) account_backends = (reg, Inr ())" by blast
  from account_enrolled [OF v1] obtain v2 where e: "enroll_bip39_child sample_prims ''w'' account_key v1 = (v2, Inr ())"
    and v2: "open_vault 4 (account_registry (account_row ACTIVATED True) events) v2" by blast
  have child: "ac_spki account_child = account_spki" "ac_fingerprint account_child = p_sha256 sample_prims account_spki"
    "ac_operation account_child = account_op" "ac_profile account_child = Bip44SolanaSlip10Ed25519V1"
    by (simp_all add: account_child_def)
  have "enroll_activated_child account_local disk ''w'' account_child account_wallet 9 (v1, account_backends)
      = ((v2, reg), Inr (account_key, child_descriptor account_local ''w'' account_child account_wallet))"
    using r e by (simp add: enroll_activated_child_def Let_def child)
  ultimately show ?thesis
    using v2 by (auto simp: allocate_bip39_accounts_def seed profile account_number Let_def child)
qed

subsection \<open>The properties at this account\<close>

theorem accounts_share_number_witness:
  "\<exists>v reg a number. allocate_bip39_accounts account_local account_custody (\<lambda>_ _. True) (\<lambda>d. d) ''w'' ''c'' [account_request]
       account_wallet 9 (account_vault, account_backends) = Some ((v, reg), Inr [a])
     \<and> da_path (aa_descriptor a) = family_path number Bip44SolanaSlip10Ed25519V1 \<and> enrolled_for ''w'' v (aa_key_ref a)"
proof -
  from account_allocated [of "\<lambda>_ _. True"] obtain v reg a where
    run: "allocate_bip39_accounts account_local account_custody (\<lambda>_ _. True) (\<lambda>d. d) ''w'' ''c'' [account_request]
       account_wallet 9 (account_vault, account_backends) = Some ((v, reg), Inr [a])" by blast
  have "reg_inv (lc_prims account_local) (vault_registry account_vault)" using reg_inv_empty by (simp add: account_vault_ok(3))
  moreover have "\<forall>q\<in>set [account_request]. load_allocation (vault_registry account_vault) ''w''
      (family_id account_local (\<lambda>d. d) ''c'' q) = None"
    by (simp add: account_vault_ok(3) load_allocation_def empty_registry_def)
  ultimately show ?thesis
    using accounts_share_number [OF run] run by (fastforce simp: account_request_def)
qed

theorem account_key_needs_ceremony_witness:
  "\<exists>v v'. vault_rows v = [account_row ACTIVATED True] \<and> (account_step sample_prims)\<^sup>*\<^sup>* (account_vault, {}) (v, {})
     \<and> recover_incomplete_bip39_allocations sample_prims 10 v = (v', Inr ())
     \<and> (\<forall>k seed profile path.
         kr_derivation k = Some (Bip39Multicurve seed profile path)
         \<and> (\<forall>r\<in>set (en_enrolled (vt_engine v')). ek_fingerprint r = kr_fingerprint k \<longrightarrow> ek_authority r \<noteq> ''petal'')
         \<longrightarrow> require_key_available sample_prims (vt_engine v') k \<noteq> Inr ())"
proof -
  from account_allocated [of "\<lambda>_ _. True"] obtain v reg accounts events where
    run: "allocate_bip39_accounts account_local account_custody (\<lambda>_ _. True) (\<lambda>d. d) ''w'' ''c'' [account_request]
       account_wallet 9 (account_vault, account_backends) = Some ((v, reg), Inr accounts)"
    and v: "open_vault 4 (account_registry (account_row ACTIVATED True) events) v" by blast
  have steps: "(account_step sample_prims)\<^sup>*\<^sup>* (account_vault, {}) (v, {})"
    using allocation_is_run [OF run] by (simp add: account_moves_def)
  have rows: "vault_rows v = [account_row ACTIVATED True]" using v by (simp add: open_vault_def)
  then have "journal_live sample_prims (length (filter incomplete_allocation (vault_rows v))) v"
    using v by (simp add: open_vault_def journal_live_def)
  from account_key_needs_ceremony [OF steps account_vault_ok(3) this, of 10] steps rows show ?thesis by blast
qed

end
