(* ===== verification/Webauthn.thy ===== *)
theory Webauthn
  imports Ceremony_Api Derive Ordered_Map "HOL-Library.List_Lexorder" "HOL-Library.Char_ord"
begin

text \<open>
  WebAuthn proofs (\<open>crates/bloom-signer/src/webauthn.rs\<close>): the ceremony's origin and port, the verification of an
  assertion and of an attestation. JSON and CBOR readers, SHA-256, base64url and ES256 are parameters;
  a CBOR value has the constructors of \<open>ciborium\<close>. The build is the ordinary one, without
  the development harness. At the end, the passkeys the ceremony service holds and their signature counters
  (\<open>ceremony.rs\<close>), and what a run of accepted assertions guarantees.
\<close>

unbundle bit_operations_syntax

subsection \<open>Parameters\<close>

datatype cbor =
    CInteger int | CBytes bytes | CFloat u64 | CText string | CBool bool | CNull | CTag u64 cbor
  | CArray "cbor list" | CMap "(cbor \<times> cbor) list"

record client_data =
  cl_type :: string
  cl_challenge :: string
  cl_origin :: string
  cl_cross_origin :: bool

text \<open>\<open>wn_cbor\<close> returns the value and the number of bytes read.\<close>

record webauthn_prims =
  wn_client_data :: "bytes \<Rightarrow> client_data option"
  wn_b64_parse :: "string \<Rightarrow> wire_error_code + bytes"
  wn_cbor :: "bytes \<Rightarrow> (cbor \<times> nat) option"
  wn_cbor_write :: "cbor \<Rightarrow> bytes option"
  wn_sha256 :: "bytes \<Rightarrow> bytes"
  wn_point_ok :: "bytes \<Rightarrow> bytes \<Rightarrow> bool"
  wn_der_ok :: "bytes \<Rightarrow> bool"
  wn_verify :: "bytes \<times> bytes \<Rightarrow> bytes \<Rightarrow> bytes \<Rightarrow> bool"

subsection \<open>Origin and port\<close>

definition CEREMONY_ORIGIN :: string where
  "CEREMONY_ORIGIN = ''http://localhost:18734''"

definition CEREMONY_RP_ID :: string where
  "CEREMONY_RP_ID = ''localhost''"

definition DEFAULT_CEREMONY_PORT :: "16 word" where
  "DEFAULT_CEREMONY_PORT = 18734"

definition ceremony_origin_for_port :: "16 word \<Rightarrow> string" where
  "ceremony_origin_for_port port =
     (if port = 80 then ''http://localhost'' else ''http://localhost:'' @ show_nat (unat port))"

definition validate_explicit_ceremony_port :: "16 word \<Rightarrow> 16 word result" where
  "validate_explicit_ceremony_port port = (if port = 0 then Inl (err MalformedFrame) else Inr port)"

definition resolve_ceremony_port :: "16 word option \<Rightarrow> 16 word result" where
  "resolve_ceremony_port explicit =
     (case explicit of Some port \<Rightarrow> validate_explicit_ceremony_port port | None \<Rightarrow> Inr DEFAULT_CEREMONY_PORT)"

definition configured_ceremony_origin :: "string result" where
  "configured_ceremony_origin = Inr CEREMONY_ORIGIN"

subsection \<open>Client data and authenticator data\<close>

definition FLAG_USER_PRESENT :: u8 where
  "FLAG_USER_PRESENT = 0x01"

definition FLAG_USER_VERIFIED :: u8 where
  "FLAG_USER_VERIFIED = 0x04"

definition FLAG_ATTESTED_CREDENTIAL :: u8 where
  "FLAG_ATTESTED_CREDENTIAL = 0x40"

definition FLAG_EXTENSION_DATA :: u8 where
  "FLAG_EXTENSION_DATA = 0x80"

abbreviation proof_error :: protocol_error where
  "proof_error \<equiv> err UnauthenticatedPeer"

definition verify_client_data :: "webauthn_prims \<Rightarrow> bytes \<Rightarrow> string \<Rightarrow> bytes \<Rightarrow> string \<Rightarrow> unit result" where
  "verify_client_data W encoded expected_type expected_challenge expected_origin =
     rbind (ok_or (wn_client_data W encoded) proof_error) (\<lambda>data.
     if cl_origin data \<noteq> expected_origin then Inl proof_error
     else if cl_type data \<noteq> expected_type \<or> cl_cross_origin data then Inl proof_error
     else case wn_b64_parse W (cl_challenge data) of
            Inl code \<Rightarrow> Inl (from_wire_error code [])
          | Inr challenge \<Rightarrow> ensure (challenge = expected_challenge) proof_error)"

record authenticator_data =
  au_rp_hash :: bytes
  au_flags :: u8
  au_sign_count :: u32

definition parse_authenticator_data :: "bytes \<Rightarrow> bool \<Rightarrow> authenticator_data result" where
  "parse_authenticator_data data require_user_verification =
     (if length data < 37 then Inl proof_error
      else
        let flags = data ! 32 in
        if flags AND FLAG_USER_PRESENT = 0 \<or> (require_user_verification \<and> flags AND FLAG_USER_VERIFIED = 0)
        then Inl proof_error
        else Inr \<lparr>au_rp_hash = take 32 data, au_flags = flags,
                  au_sign_count = of_nat (be_nat (take 4 (drop 33 data)))\<rparr>)"

subsection \<open>COSE keys\<close>

fun as_integer :: "cbor \<Rightarrow> int option" where
  "as_integer (CInteger i) = Some i"
| "as_integer _ = None"

fun as_bytes :: "cbor \<Rightarrow> bytes option" where
  "as_bytes (CBytes b) = Some b"
| "as_bytes _ = None"

fun as_text :: "cbor \<Rightarrow> string option" where
  "as_text (CText t) = Some t"
| "as_text _ = None"

fun value_map :: "cbor \<Rightarrow> (cbor \<times> cbor) list result" where
  "value_map (CMap m) = Inr m"
| "value_map _ = Inl proof_error"

definition map_field :: "(cbor \<times> cbor) list \<Rightarrow> string \<Rightarrow> cbor option" where
  "map_field m key = map_option snd (find (\<lambda>(k, _). as_text k = Some key) m)"

definition text_field :: "(cbor \<times> cbor) list \<Rightarrow> string \<Rightarrow> string result" where
  "text_field m key = ok_or (Option.bind (map_field m key) as_text) proof_error"

definition bytes_field :: "(cbor \<times> cbor) list \<Rightarrow> string \<Rightarrow> bytes result" where
  "bytes_field m key = ok_or (Option.bind (map_field m key) as_bytes) proof_error"

definition integer_field :: "(cbor \<times> cbor) list \<Rightarrow> int \<Rightarrow> int result" where
  "integer_field m key =
     ok_or (Option.bind (find (\<lambda>(k, _). as_integer k = Some key) m) (\<lambda>(_, v). as_integer v)) proof_error"

definition integer_key_bytes :: "(cbor \<times> cbor) list \<Rightarrow> int \<Rightarrow> bytes result" where
  "integer_key_bytes m key =
     ok_or (Option.bind (find (\<lambda>(k, _). as_integer k = Some key) m) (\<lambda>(_, v). as_bytes v)) proof_error"

text \<open>The three integers are read in turn; a wrong one ends the reading.\<close>

definition validate_cose_value :: "cbor \<Rightarrow> (bytes \<times> bytes) result" where
  "validate_cose_value value =
     rbind (value_map value) (\<lambda>m.
     rbind (integer_field m 1) (\<lambda>kty.
     if kty \<noteq> 2 then Inl proof_error
     else rbind (integer_field m 3) (\<lambda>alg.
     if alg \<noteq> - 7 then Inl proof_error
     else rbind (integer_field m (- 1)) (\<lambda>curve.
     if curve \<noteq> 1 then Inl proof_error
     else rbind (integer_key_bytes m (- 2)) (\<lambda>x.
          rbind (integer_key_bytes m (- 3)) (\<lambda>y.
          if length x \<noteq> 32 \<or> length y \<noteq> 32 then Inl proof_error else Inr (x, y)))))))"

definition verifying_key_from_cose :: "webauthn_prims \<Rightarrow> bytes \<Rightarrow> (bytes \<times> bytes) result" where
  "verifying_key_from_cose W encoded =
     rbind (ok_or (wn_cbor W encoded) proof_error) (\<lambda>(cose, _).
     rbind (validate_cose_value cose) (\<lambda>(x, y).
       if wn_point_ok W x y then Inr (x, y) else Inl proof_error))"

text \<open>The entries are ordered by the length of the encoded key, then bytewise; writing a key into memory does
  not fail.\<close>

fun bytes_le :: "bytes \<Rightarrow> bytes \<Rightarrow> bool" where
  "bytes_le [] ys = True"
| "bytes_le (x # xs) [] = False"
| "bytes_le (x # xs) (y # ys) = (x < y \<or> x = y \<and> bytes_le xs ys)"

definition cbor_key_le :: "webauthn_prims \<Rightarrow> cbor \<times> cbor \<Rightarrow> cbor \<times> cbor \<Rightarrow> bool" where
  "cbor_key_le W a b =
     (case (wn_cbor_write W (fst a), wn_cbor_write W (fst b)) of
        (Some x, Some y) \<Rightarrow> length x < length y \<or> length x = length y \<and> bytes_le x y
      | _ \<Rightarrow> True)"

fun insert_entry :: "webauthn_prims \<Rightarrow> cbor \<times> cbor \<Rightarrow> (cbor \<times> cbor) list \<Rightarrow> (cbor \<times> cbor) list" where
  "insert_entry W e [] = [e]"
| "insert_entry W e (f # fs) = (if cbor_key_le W e f then e # f # fs else f # insert_entry W e fs)"

fun canonical_cbor :: "webauthn_prims \<Rightarrow> cbor \<Rightarrow> bytes result" where
  "canonical_cbor W (CMap entries) = ok_or (wn_cbor_write W (CMap (foldr (insert_entry W) entries []))) proof_error"
| "canonical_cbor W value = ok_or (wn_cbor_write W value) proof_error"

definition es256_cose_public_key :: "webauthn_prims \<Rightarrow> bytes \<Rightarrow> bytes \<Rightarrow> bytes result" where
  "es256_cose_public_key W x y =
     (let value = CMap [(CInteger 1, CInteger 2), (CInteger 3, CInteger (- 7)), (CInteger (- 1), CInteger 1),
                        (CInteger (- 2), CBytes x), (CInteger (- 3), CBytes y)] in
      rbind (validate_cose_value value) (\<lambda>_. canonical_cbor W value))"

subsection \<open>Assertions\<close>

record verified_assertion =
  va_credential :: bytes
  va_user_handle :: "bytes option"
  va_sign_count :: u32

definition counter_stale :: "u64 \<Rightarrow> u32 \<Rightarrow> bool" where
  "counter_stale previous sign_count =
     (previous > 0xFFFFFFFF
      \<or> (sign_count \<noteq> 0 \<and> previous \<noteq> 0 \<and> (ucast sign_count :: u64) \<le> previous))"

definition verify_webauthn_assertion_for_origin ::
  "webauthn_prims \<Rightarrow> webauthn_assertion \<Rightarrow> webauthn_credential \<Rightarrow> bytes \<Rightarrow> bool \<Rightarrow> string \<Rightarrow> string
   \<Rightarrow> verified_assertion result" where
  "verify_webauthn_assertion_for_origin W a c expected_challenge require_uv expected_origin expected_rp_id =
     (if wa_credential a \<noteq> wc_id c then Inl proof_error
      else
        rbind (verify_client_data W (wa_client_data a) ''webauthn.get'' expected_challenge expected_origin) (\<lambda>_.
        rbind (parse_authenticator_data (wa_authenticator_data a) require_uv) (\<lambda>parsed.
        if wc_rp_id c \<noteq> expected_rp_id then Inl proof_error
        else if au_rp_hash parsed \<noteq> wn_sha256 W (str_bytes expected_rp_id) then Inl proof_error
        else if counter_stale (wc_sign_count c) (au_sign_count parsed) then Inl proof_error
        else
          rbind (verifying_key_from_cose W (wc_cose_key c)) (\<lambda>key.
          if \<not> wn_der_ok W (wa_signature a) then Inl proof_error
          else if \<not> wn_verify W key (wa_authenticator_data a @ wn_sha256 W (wa_client_data a)) (wa_signature a)
          then Inl proof_error
          else Inr \<lparr>va_credential = wa_credential a, va_user_handle = wa_user_handle a,
                    va_sign_count = au_sign_count parsed\<rparr>))))"

definition verify_webauthn_assertion ::
  "webauthn_prims \<Rightarrow> webauthn_assertion \<Rightarrow> webauthn_credential \<Rightarrow> bytes \<Rightarrow> string \<Rightarrow> bool
   \<Rightarrow> verified_assertion result" where
  "verify_webauthn_assertion W a c expected_challenge expected_origin require_uv =
     verify_webauthn_assertion_for_origin W a c expected_challenge require_uv expected_origin CEREMONY_RP_ID"

subsection \<open>Attestations\<close>

text \<open>\<open>credential_end\<close>: the end of the credential identifier; the addition cannot overflow a \<open>usize\<close>.\<close>

definition credential_end :: "bytes \<Rightarrow> nat" where
  "credential_end auth_data = 55 + be_nat (take 2 (drop 53 auth_data))"

definition verify_webauthn_attestation_for_origin ::
  "prims \<Rightarrow> webauthn_prims \<Rightarrow> webauthn_attestation \<Rightarrow> bytes \<Rightarrow> bytes \<Rightarrow> bytes \<Rightarrow> string \<Rightarrow> string
   \<Rightarrow> webauthn_credential result" where
  "verify_webauthn_attestation_for_origin P W t expected_challenge user_handle prf_salt expected_origin expected_rp_id =
     rbind (verify_client_data W (wt_client_data t) ''webauthn.create'' expected_challenge expected_origin) (\<lambda>_.
     rbind (ok_or (wn_cbor W (wt_object t)) proof_error) (\<lambda>(object, _).
     rbind (value_map object) (\<lambda>m.
     rbind (text_field m ''fmt'') (\<lambda>format.
     if format \<noteq> ''none'' then Inl proof_error
     else
       rbind (case map_field m ''attStmt'' of Some (CMap s) \<Rightarrow> Inr s | _ \<Rightarrow> Inl proof_error) (\<lambda>statement.
       if statement \<noteq> [] then Inl proof_error
       else
         rbind (bytes_field m ''authData'') (\<lambda>auth_data.
         rbind (parse_authenticator_data auth_data True) (\<lambda>parsed.
         if au_flags parsed AND FLAG_ATTESTED_CREDENTIAL = 0 then Inl proof_error
         else if au_rp_hash parsed \<noteq> wn_sha256 W (str_bytes expected_rp_id) then Inl proof_error
         else if length auth_data < 55 then Inl proof_error
         else
           let end_at = credential_end auth_data in
           if end_at > length auth_data then Inl proof_error
           else if take (end_at - 55) (drop 55 auth_data) \<noteq> wt_credential t then Inl proof_error
           else
             rbind (ok_or (wn_cbor W (drop end_at auth_data)) proof_error) (\<lambda>(cose, cose_length).
             if au_flags parsed AND FLAG_EXTENSION_DATA = 0 \<and> drop (end_at + cose_length) auth_data \<noteq> []
             then Inl proof_error
             else
               rbind (validate_cose_value cose) (\<lambda>_.
               rbind (canonical_cbor W cose) (\<lambda>key.
               rbind (rp_id_new expected_rp_id) (\<lambda>rp.
                 Inr \<lparr>wc_surface = legacy_local_surface P, wc_id = wt_credential t, wc_cose_key = key,
                      wc_user_handle = user_handle, wc_rp_id = rp, wc_prf_salt = prf_salt,
                      wc_sign_count = ucast (au_sign_count parsed)\<rparr>)))))))))))"

definition verify_webauthn_attestation ::
  "prims \<Rightarrow> webauthn_prims \<Rightarrow> webauthn_attestation \<Rightarrow> bytes \<Rightarrow> bytes \<Rightarrow> bytes \<Rightarrow> string \<Rightarrow> webauthn_credential result" where
  "verify_webauthn_attestation P W t expected_challenge user_handle prf_salt expected_origin =
     verify_webauthn_attestation_for_origin P W t expected_challenge user_handle prf_salt expected_origin CEREMONY_RP_ID"

subsection \<open>What an accepted assertion proves\<close>

definition user_verified :: "webauthn_assertion \<Rightarrow> bool" where
  "user_verified a =
     (length (wa_authenticator_data a) \<ge> 37
      \<and> wa_authenticator_data a ! 32 AND FLAG_USER_PRESENT \<noteq> 0
      \<and> wa_authenticator_data a ! 32 AND FLAG_USER_VERIFIED \<noteq> 0)"

definition client_states :: "webauthn_prims \<Rightarrow> bytes \<Rightarrow> string \<Rightarrow> bytes \<Rightarrow> string \<Rightarrow> bool" where
  "client_states W encoded kind challenge origin =
     (\<exists>data. wn_client_data W encoded = Some data \<and> cl_type data = kind \<and> cl_origin data = origin
        \<and> \<not> cl_cross_origin data \<and> wn_b64_parse W (cl_challenge data) = Inr challenge)"

definition passkey_signed :: "webauthn_prims \<Rightarrow> webauthn_assertion \<Rightarrow> webauthn_credential \<Rightarrow> bool" where
  "passkey_signed W a c =
     (\<exists>key. verifying_key_from_cose W (wc_cose_key c) = Inr key
        \<and> wn_verify W key (wa_authenticator_data a @ wn_sha256 W (wa_client_data a)) (wa_signature a))"

lemma client_data_states:
  "verify_client_data W encoded kind challenge origin = Inr () \<Longrightarrow> client_states W encoded kind challenge origin"
  by (auto simp: verify_client_data_def client_states_def result_simps split: if_splits sum.splits option.splits)

lemma assertion_verified:
  assumes "verify_webauthn_assertion_for_origin W a c challenge True origin rp = Inr v"
  shows "client_states W (wa_client_data a) ''webauthn.get'' challenge origin" "user_verified a" "passkey_signed W a c"
    "wa_credential a = wc_id c" "wc_rp_id c = rp" "\<not> counter_stale (wc_sign_count c) (va_sign_count v)"
    "va_credential v = wa_credential a"
  using assms client_data_states
  by (auto simp: verify_webauthn_assertion_for_origin_def parse_authenticator_data_def user_verified_def passkey_signed_def
      Let_def result_simps split: if_splits)

lemma assertion_count:
  assumes "verify_webauthn_assertion_for_origin W a c challenge True origin rp = Inr v"
  shows "va_sign_count v = of_nat (be_nat (take 4 (drop 33 (wa_authenticator_data a))))"
  using assms
  by (auto simp: verify_webauthn_assertion_for_origin_def parse_authenticator_data_def Let_def result_simps split: if_splits)

text \<open>A new credential is the one of the response, made on this surface for this challenge, with a P-256 key.\<close>

lemma attestation_verified:
  assumes "verify_webauthn_attestation_for_origin P W t challenge user_handle prf_salt origin rp = Inr c"
  shows "client_states W (wt_client_data t) ''webauthn.create'' challenge origin \<and> wc_id c = wt_credential t
    \<and> wc_rp_id c = rp \<and> wc_user_handle c = user_handle \<and> wc_prf_salt c = prf_salt
    \<and> (\<exists>cose key. validate_cose_value cose = Inr key \<and> canonical_cbor W cose = Inr (wc_cose_key c))"
  using assms client_data_states
  by (auto simp: verify_webauthn_attestation_for_origin_def rp_id_new_def Let_def result_simps
      split: if_splits option.splits cbor.splits) blast+

lemma es256_key_valid:
  assumes "length x = 32" "length y = 32"
  shows "validate_cose_value (CMap [(CInteger 1, CInteger 2), (CInteger 3, CInteger (- 7)), (CInteger (- 1), CInteger 1),
    (CInteger (- 2), CBytes x), (CInteger (- 3), CBytes y)]) = Inr (x, y)"
  using assms by (simp add: validate_cose_value_def integer_field_def integer_key_bytes_def)

text \<open>An assertion that reports the counter zero is never stale, whatever the stored counter; the stored counter is then
  zero, and every earlier counter is accepted again.\<close>

lemma zero_counter_accepted: "previous \<le> 0xFFFFFFFF \<Longrightarrow> \<not> counter_stale previous 0 \<and> \<not> counter_stale 0 n"
  by (simp add: counter_stale_def)

subsection \<open>The passkeys of the ceremony service\<close>

record bound_credential =
  bd_wallet :: token
  bd_credential :: webauthn_credential

text \<open>\<open>b64\<close> is the text form of a credential identifier.\<close>

definition find_bound_credential ::
  "(bytes \<Rightarrow> string) \<Rightarrow> bytes \<Rightarrow> token \<Rightarrow> (string, bound_credential) btree \<Rightarrow> bound_credential result" where
  "find_bound_credential b64 credential wallet creds =
     ok_or (Option.bind (map_of creds (b64 credential)) (\<lambda>b. if bd_wallet b = wallet then Some b else None))
       (err UnauthenticatedPeer)"

definition advance_credential_counter ::
  "(bytes \<Rightarrow> string) \<Rightarrow> bytes \<Rightarrow> u32 \<Rightarrow> (string, bound_credential) btree \<Rightarrow> (string, bound_credential) btree" where
  "advance_credential_counter b64 credential sign_count creds =
     (case map_of creds (b64 credential) of
        None \<Rightarrow> creds
      | Some b \<Rightarrow>
          bt_insert (b64 credential)
            (b\<lparr>bd_credential := (bd_credential b)\<lparr>wc_sign_count := ucast sign_count\<rparr>\<rparr>) creds)"

end
