(* ===== verification/Passkey_Properties.thy ===== *)
theory Passkey_Properties
  imports Webauthn
begin

text \<open>
  Runs of passkey use: an assertion names a credential bound to a wallet, is verified with user
  verification required, and the credential's counter is set to the one it reports, as the completion of an approval
  does (\<open>crates/bloom-signer/src/ceremony.rs\<close>, \<open>apply_approval_completion\<close>).
\<close>

type_synonym credentials = "(string, bound_credential) btree"

inductive passkey_uses ::
  "webauthn_prims \<Rightarrow> (bytes \<Rightarrow> string) \<Rightarrow> credentials \<Rightarrow> (webauthn_assertion \<times> verified_assertion) list \<Rightarrow> credentials \<Rightarrow> bool"
  for W b64 where
  uses_none: "passkey_uses W b64 creds [] creds"
| uses_one:
    "find_bound_credential b64 (wa_credential a) wallet creds = Inr b
     \<Longrightarrow> verify_webauthn_assertion_for_origin W a (bd_credential b) challenge True origin rp = Inr v
     \<Longrightarrow> passkey_uses W b64 (advance_credential_counter b64 (va_credential v) (va_sign_count v) creds) us creds'
     \<Longrightarrow> passkey_uses W b64 creds ((a, v) # us) creds'"

subsection \<open>What a use keeps\<close>

lemma find_bound_SomeD:
  "find_bound_credential b64 i wallet creds = Inr b \<Longrightarrow> map_of creds (b64 i) = Some b"
  by (auto simp: find_bound_credential_def ok_or_def bind_eq_Some_conv split: option.splits if_splits)

lemma advance_lookup:
  assumes "bt_wf creds" "map_of creds (b64 i) = Some b"
  shows "map_of (advance_credential_counter b64 i n creds)
      = (map_of creds)(b64 i \<mapsto> b\<lparr>bd_credential := (bd_credential b)\<lparr>wc_sign_count := ucast n\<rparr>\<rparr>)"
    "bt_wf (advance_credential_counter b64 i n creds)"
  using assms by (simp_all add: advance_credential_counter_def map_of_bt_insert bt_wf_insert)

lemma passkey_signed_key: "wc_cose_key c = wc_cose_key c' \<Longrightarrow> passkey_signed W a c = passkey_signed W a c'"
  by (simp add: passkey_signed_def)

text \<open>A counter that is not stale is above the stored one, when neither is zero.\<close>

lemma fresh_counter:
  fixes m n :: u32
  assumes "\<not> counter_stale (ucast m) n" "m \<noteq> 0" "n \<noteq> 0"
  shows "m < n"
proof -
  have wide: "unat (ucast w :: u64) = unat w" for w :: u32 by transfer simp
  have "(ucast m :: u64) \<noteq> 0" using wide [of m] assms(2) by (metis unat_0 unat_eq_zero)
  with assms(1,3) have "\<not> (ucast n :: u64) \<le> ucast m" by (auto simp: counter_stale_def)
  then show ?thesis by (simp add: word_less_nat_alt word_le_nat_alt wide)
qed

text \<open>Once a credential's counter is \<open>m\<close>, later uses of it report more than \<open>m\<close>.\<close>

lemma later_uses_above:
  assumes "passkey_uses W b64 creds us creds'" "bt_wf creds"
    and "map_of creds (b64 i) = Some b" "wc_id (bd_credential b) = i" "wc_sign_count (bd_credential b) = ucast (m :: u32)" "m \<noteq> 0"
    and "\<forall>(a, v)\<in>set us. va_sign_count v \<noteq> 0"
  shows "\<forall>(a, v)\<in>set us. wa_credential a = i \<longrightarrow> m < va_sign_count v"
  using assms
proof (induction arbitrary: b m rule: passkey_uses.induct)
  case (uses_none creds)
  then show ?case by simp
next
  case (uses_one a wallet creds b1 challenge origin rp v us creds')
  note found = find_bound_SomeD [OF uses_one.hyps(1)] and ok = assertion_verified [OF uses_one.hyps(2)]
  let ?b1 = "b1\<lparr>bd_credential := (bd_credential b1)\<lparr>wc_sign_count := ucast (va_sign_count v)\<rparr>\<rparr>"
  note adv = advance_lookup [OF uses_one.prems(1), of b64 "wa_credential a" b1 "va_sign_count v", OF found, folded ok(7)]
  have nz: "va_sign_count v \<noteq> 0" "\<forall>(a, v)\<in>set us. va_sign_count v \<noteq> 0" using uses_one.prems(6) by auto
  show ?case
  proof (cases "b64 (wa_credential a) = b64 i")
    case True
    with found uses_one.prems(2) have "b1 = b" by simp
    with ok(4) uses_one.prems(3) have i: "wa_credential a = i" by simp
    have "\<not> counter_stale (ucast m) (va_sign_count v)" using ok(6) uses_one.prems(4) \<open>b1 = b\<close> by simp
    from fresh_counter [OF this uses_one.prems(5) nz(1)] have up: "m < va_sign_count v" .
    have "\<forall>(a, v')\<in>set us. wa_credential a = i \<longrightarrow> va_sign_count v < va_sign_count v'"
      by (rule uses_one.IH [of ?b1]) (use adv nz i ok(7) uses_one.prems(3) \<open>b1 = b\<close> in simp_all)
    with up i show ?thesis by (auto intro: less_trans)
  next
    case False
    then have "wa_credential a \<noteq> i" by auto
    moreover have "\<forall>(a, v')\<in>set us. wa_credential a = i \<longrightarrow> m < va_sign_count v'"
      by (rule uses_one.IH [of b]) (use adv nz False ok(7) uses_one.prems in simp_all)
    ultimately show ?thesis by simp
  qed
qed

text \<open>Every use was made by the passkey of a stored credential, whose key no use changes.\<close>

lemma uses_signed:
  assumes "passkey_uses W b64 creds us creds'" "bt_wf creds"
  shows "\<forall>(a, v)\<in>set us. user_verified a \<and> (\<exists>b. map_of creds (b64 (wa_credential a)) = Some b
    \<and> wc_id (bd_credential b) = wa_credential a \<and> passkey_signed W a (bd_credential b))"
  using assms
proof (induction rule: passkey_uses.induct)
  case (uses_none creds)
  then show ?case by simp
next
  case (uses_one a wallet creds b1 challenge origin rp v us creds')
  note found = find_bound_SomeD [OF uses_one.hyps(1)] and ok = assertion_verified [OF uses_one.hyps(2)]
  note adv = advance_lookup [OF uses_one.prems, of b64 "wa_credential a" b1 "va_sign_count v", OF found, folded ok(7)]
  let ?b1 = "b1\<lparr>bd_credential := (bd_credential b1)\<lparr>wc_sign_count := ucast (va_sign_count v)\<rparr>\<rparr>"
  have key: "passkey_signed W a' (bd_credential ?b1) = passkey_signed W a' (bd_credential b1)" for a'
    by (rule passkey_signed_key) simp
  from uses_one.IH [OF adv(2)] adv(1) key ok(7) found
  have "\<forall>(a', v')\<in>set us. user_verified a' \<and> (\<exists>b. map_of creds (b64 (wa_credential a')) = Some b
    \<and> wc_id (bd_credential b) = wa_credential a' \<and> passkey_signed W a' (bd_credential b))"
    by (fastforce split: if_splits)
  with found ok show ?case by auto
qed


subsection \<open>Two uses of one passkey\<close>

definition sample_webauthn :: webauthn_prims where
  "sample_webauthn =
     \<lparr>wn_client_data = \<lambda>_. Some \<lparr>cl_type = ''webauthn.get'', cl_challenge = [], cl_origin = CEREMONY_ORIGIN, cl_cross_origin = False\<rparr>,
      wn_b64_parse = \<lambda>_. Inr [],
      wn_cbor = \<lambda>_. Some (CMap [(CInteger 1, CInteger 2), (CInteger 3, CInteger (- 7)), (CInteger (- 1), CInteger 1),
        (CInteger (- 2), CBytes (replicate 32 1)), (CInteger (- 3), CBytes (replicate 32 2))], 0),
      wn_cbor_write = \<lambda>_. Some [], wn_sha256 = \<lambda>_. replicate 32 0, wn_point_ok = \<lambda>_ _. True, wn_der_ok = \<lambda>_. True,
      wn_verify = \<lambda>key message signature. signature = message\<rparr>"

definition sample_use :: "u8 \<Rightarrow> webauthn_assertion" where
  "sample_use n =
     (let data = replicate 32 0 @ [5, 0, 0, 0, n] in
      \<lparr>wa_credential = [1], wa_authenticator_data = data, wa_client_data = [], wa_signature = data @ replicate 32 0,
       wa_user_handle = None\<rparr>)"

definition sample_passkey :: "u64 \<Rightarrow> bound_credential" where
  "sample_passkey n =
     \<lparr>bd_wallet = ''w'', bd_credential =
        \<lparr>wc_surface = \<lparr>sf_surface_id = ''local'', sf_identity_digest = []\<rparr>, wc_id = [1], wc_cose_key = [], wc_user_handle = [],
         wc_rp_id = CEREMONY_RP_ID, wc_prf_salt = [], wc_sign_count = n\<rparr>\<rparr>"

definition sample_b64 :: "bytes \<Rightarrow> string" where
  "sample_b64 b = map (\<lambda>x. char_of (unat x)) b"

definition sample_verified :: "u32 \<Rightarrow> verified_assertion" where
  "sample_verified n = \<lparr>va_credential = [1], va_user_handle = None, va_sign_count = n\<rparr>"

lemma sample_use_verified:
  "verify_webauthn_assertion_for_origin sample_webauthn (sample_use 1) (bd_credential (sample_passkey 0)) [] True
      CEREMONY_ORIGIN CEREMONY_RP_ID = Inr (sample_verified 1)"
  "verify_webauthn_assertion_for_origin sample_webauthn (sample_use 2) (bd_credential (sample_passkey 1)) [] True
      CEREMONY_ORIGIN CEREMONY_RP_ID = Inr (sample_verified 2)"
  by (simp_all add: verify_webauthn_assertion_for_origin_def sample_webauthn_def sample_use_def sample_passkey_def sample_verified_def
      verify_client_data_def parse_authenticator_data_def FLAG_USER_PRESENT_def FLAG_USER_VERIFIED_def be_nat_def
      counter_stale_def verifying_key_from_cose_def es256_key_valid nth_append word_le_nat_alt Let_def)

lemma sample_uses:
  "passkey_uses sample_webauthn sample_b64 [(sample_b64 [1], sample_passkey 0)]
     [(sample_use 1, sample_verified 1), (sample_use 2, sample_verified 2)] [(sample_b64 [1], sample_passkey 2)]"
proof -
  have find: "find_bound_credential sample_b64 (wa_credential (sample_use m)) ''w'' [(sample_b64 [1], sample_passkey n)] = Inr (sample_passkey n)"
    for m n by (simp add: find_bound_credential_def sample_use_def sample_passkey_def Let_def)
  have advance: "advance_credential_counter sample_b64 (va_credential (sample_verified m)) (va_sign_count (sample_verified m))
      [(sample_b64 [1], sample_passkey n)] = [(sample_b64 [1], sample_passkey (ucast m))]" for m n
    by (simp add: advance_credential_counter_def sample_verified_def sample_passkey_def)
  show ?thesis
    by (rule uses_one [OF find sample_use_verified(1)], unfold advance, simp,
        rule uses_one [OF find sample_use_verified(2)], unfold advance, simp, rule uses_none)
qed


end
